(* ===== verification/Wb_Prelude.thy ===== *)
theory Wb_Prelude
  imports Complex_Main "HOL-Library.AList" "HOL-Library.Word" "HOL-Library.Sublist"
    "HOL-Library.Char_ord"
begin

text \<open>
  The vocabulary the component theories share.

  JavaScript strings are modelled by \<open>string\<close>, one \<open>char\<close> per UTF-16 code unit; the model
  covers the code units U+0000 to U+00FF, which include every character the validators of the
  program compare with. Byte buffers (\<open>Uint8Array\<close>) are \<open>8 word list\<close>. Times are
  milliseconds since the epoch as \<open>int\<close>. Objects used as dictionaries keep the insertion
  order of JavaScript, so they are association lists with \<open>AList.update\<close> (replace in place
  or append) and \<open>AList.delete\<close>.
\<close>

type_synonym bytes = "8 word list"
type_synonym millis = int

text \<open>A call that throws an \<open>Error\<close> is \<open>Inl\<close> of its message.\<close>

type_synonym 'a throws = "string + 'a"

named_theorems char_class \<open>membership in the character classes of the validators\<close>
named_theorems js_simps \<open>unfolding of the JavaScript string helpers\<close>

section \<open>Association lists as JavaScript objects\<close>

definition fresh_entries :: "int \<Rightarrow> ('k \<times> int) list \<Rightarrow> ('k \<times> int) list" where
  "fresh_entries now kvs = filter (\<lambda>(k, e). e > now) kvs"

lemma map_of_filter_snd:
  assumes "distinct (map fst kvs)"
  shows "map_of (filter (\<lambda>(k, v). P v) kvs) k =
    (case map_of kvs k of None \<Rightarrow> None | Some v \<Rightarrow> if P v then Some v else None)"
  using assms
proof (induction kvs)
  case Nil
  then show ?case by simp
next
  case (Cons kv kvs)
  obtain k' v' where kv: "kv = (k', v')" by force
  from Cons.prems kv have "k' \<notin> fst ` set kvs" by simp
  then have none: "map_of kvs k' = None" by (simp add: map_of_eq_None_iff)
  show ?case
    using Cons.IH Cons.prems none by (auto simp: kv)
qed

lemma distinct_keys_filter: "distinct (map fst kvs) \<Longrightarrow> distinct (map fst (filter P kvs))"
  by (rule distinct_map_filter)

lemma distinct_fresh_entries [simp]:
  "distinct (map fst kvs) \<Longrightarrow> distinct (map fst (fresh_entries now kvs))"
  unfolding fresh_entries_def by (rule distinct_keys_filter)

lemma map_of_fresh_entries:
  "distinct (map fst kvs) \<Longrightarrow> map_of (fresh_entries now kvs) k =
    (case map_of kvs k of None \<Rightarrow> None | Some e \<Rightarrow> if e > now then Some e else None)"
  unfolding fresh_entries_def by (rule map_of_filter_snd)

lemma fresh_entries_bound: "(k, e) \<in> set (fresh_entries now kvs) \<Longrightarrow> now < e"
  by (auto simp: fresh_entries_def)

lemma length_fresh_entries: "length (fresh_entries now kvs) \<le> length kvs"
  by (simp add: fresh_entries_def)

lemma set_fresh_entries [simp]:
  "set (fresh_entries now kvs) = {(k, e). (k, e) \<in> set kvs \<and> now < e}"
  by (auto simp: fresh_entries_def)

lemma fresh_entries_mono:
  "now \<le> later \<Longrightarrow> fresh_entries later (fresh_entries now kvs) = fresh_entries later kvs"
  by (induction kvs) (auto simp: fresh_entries_def)

lemma length_AList_update:
  "length (AList.update k v kvs) = (if k \<in> fst ` set kvs then length kvs else Suc (length kvs))"
  by (induction kvs) auto

lemma set_AList_update:
  "distinct (map fst kvs) \<Longrightarrow>
    set (AList.update k v kvs) = insert (k, v) {x \<in> set kvs. fst x \<noteq> k}"
proof (induction kvs)
  case Nil
  then show ?case by simp
next
  case (Cons kv kvs)
  then show ?case by (cases kv) force
qed

lemma length_AList_delete: "length (AList.delete k kvs) \<le> length kvs"
  by (simp add: AList.delete_eq)

lemma set_AList_delete: "set (AList.delete k kvs) = {x \<in> set kvs. fst x \<noteq> k}"
  by (auto simp: AList.delete_eq)

section \<open>Characters and strings\<close>

definition cu :: "char \<Rightarrow> nat" where
  "cu c = of_char c"

definition in_range :: "char \<Rightarrow> char \<Rightarrow> char \<Rightarrow> bool" where
  "in_range lo hi c \<longleftrightarrow> cu lo \<le> cu c \<and> cu c \<le> cu hi"

definition is_digit :: "char \<Rightarrow> bool" where
  "is_digit c \<longleftrightarrow> in_range CHR ''0'' CHR ''9'' c"

definition is_lower :: "char \<Rightarrow> bool" where
  "is_lower c \<longleftrightarrow> in_range CHR ''a'' CHR ''z'' c"

definition is_upper :: "char \<Rightarrow> bool" where
  "is_upper c \<longleftrightarrow> in_range CHR ''A'' CHR ''Z'' c"

definition is_alnum :: "char \<Rightarrow> bool" where
  "is_alnum c \<longleftrightarrow> is_digit c \<or> is_lower c \<or> is_upper c"

definition is_hex_lower :: "char \<Rightarrow> bool" where
  "is_hex_lower c \<longleftrightarrow> is_digit c \<or> in_range CHR ''a'' CHR ''f'' c"

definition is_hex :: "char \<Rightarrow> bool" where
  "is_hex c \<longleftrightarrow> is_hex_lower c \<or> in_range CHR ''A'' CHR ''F'' c"

text \<open>The white space of \<open>String.prototype.trim\<close> and of \<open>\s\<close>, within U+0000..U+00FF.\<close>

definition is_ws :: "char \<Rightarrow> bool" where
  "is_ws c \<longleftrightarrow> (9 \<le> cu c \<and> cu c \<le> 13) \<or> cu c = 32 \<or> cu c = 160"

definition trim :: "string \<Rightarrow> string" where
  "trim s = rev (dropWhile is_ws (rev (dropWhile is_ws s)))"

text \<open>\<open>toLowerCase\<close> on one code unit: A-Z and the Latin-1 capitals except the multiplication sign.\<close>

definition lower_char :: "char \<Rightarrow> char" where
  "lower_char c =
     (if is_upper c \<or> (192 \<le> cu c \<and> cu c \<le> 222 \<and> cu c \<noteq> 215) then char_of (cu c + 32) else c)"

definition lower :: "string \<Rightarrow> string" where
  "lower s = map lower_char s"

definition starts_with :: "string \<Rightarrow> string \<Rightarrow> bool" where
  "starts_with p s \<longleftrightarrow> take (length p) s = p"

definition ends_with :: "string \<Rightarrow> string \<Rightarrow> bool" where
  "ends_with p s \<longleftrightarrow> length p \<le> length s \<and> drop (length s - length p) s = p"

fun str_includes :: "string \<Rightarrow> string \<Rightarrow> bool" where
  "str_includes p [] \<longleftrightarrow> p = []"
| "str_includes p (c # s) \<longleftrightarrow> starts_with p (c # s) \<or> str_includes p s"

text \<open>\<open>s.split(c)\<close> for a one-character separator.\<close>

fun split_on :: "char \<Rightarrow> string \<Rightarrow> string list" where
  "split_on c [] = [[]]"
| "split_on c (d # s) =
     (if d = c then [] # split_on c s
      else (case split_on c s of [] \<Rightarrow> [[d]] | w # ws \<Rightarrow> (d # w) # ws))"

fun join_with :: "string \<Rightarrow> string list \<Rightarrow> string" where
  "join_with sep [] = []"
| "join_with sep [w] = w"
| "join_with sep (w # v # ws) = w @ sep @ join_with sep (v # ws)"

definition digit_val :: "char \<Rightarrow> nat" where
  "digit_val c = cu c - 48"

text \<open>\<open>Number(s)\<close> for a string of decimal digits.\<close>

definition dec_val :: "string \<Rightarrow> nat" where
  "dec_val s = foldl (\<lambda>n c. 10 * n + digit_val c) 0 s"

fun show_nat :: "nat \<Rightarrow> string" where
  "show_nat n = (if n < 10 then [char_of (48 + n)] else show_nat (n div 10) @ [char_of (48 + n mod 10)])"

declare show_nat.simps [simp del]

lemma split_on_nonempty [simp]: "split_on c s \<noteq> []"
  by (induction s) (auto split: list.splits)

lemma join_split_on: "join_with [c] (split_on c s) = s"
proof (induction s)
  case Nil
  then show ?case by simp
next
  case (Cons d s)
  obtain w ws where w: "split_on c s = w # ws"
    by (cases "split_on c s") auto
  from Cons.IH w show ?case by (cases ws) auto
qed

lemma split_on_no_sep: "w \<in> set (split_on c s) \<Longrightarrow> c \<notin> set w"
proof (induction s arbitrary: w)
  case Nil
  then show ?case by simp
next
  case (Cons d s)
  then show ?case by (cases "split_on c s") (auto split: if_splits)
qed

lemma split_on_append:
  "c \<notin> set u \<Longrightarrow> split_on c (u @ c # s) = u # split_on c s"
  by (induction u) auto

lemma split_on_single: "c \<notin> set u \<Longrightarrow> split_on c u = [u]"
  by (induction u) auto

lemma split_join_on:
  "ws \<noteq> [] \<Longrightarrow> \<forall>w \<in> set ws. c \<notin> set w \<Longrightarrow> split_on c (join_with [c] ws) = ws"
proof (induction ws)
  case (Cons w ws)
  then show ?case
    by (cases ws) (simp_all add: split_on_append split_on_single)
qed simp

lemma length_lower [simp]: "length (lower s) = length s"
  by (simp add: lower_def)

lemma cu_less: "cu c < 256"
  unfolding cu_def by (cases c) (simp add: of_char_def)

lemma char_of_cu [simp]: "char_of (cu c) = c"
  by (simp add: cu_def)

lemma cu_char_of [simp]: "cu (char_of (n :: nat)) = n mod 256"
  by (simp add: cu_def)

lemma cu_inject [simp]: "cu c = cu d \<longleftrightarrow> c = d"
  by (metis char_of_cu)

lemma cu_Char [simp]:
  "cu (Char b0 b1 b2 b3 b4 b5 b6 b7) = horner_sum of_bool 2 [b0, b1, b2, b3, b4, b5, b6, b7]"
  by (simp only: cu_def of_char_Char)

lemma char_eq_iff_cu: "c = d \<longleftrightarrow> cu c = cu d"
  by simp

lemma starts_with_append [simp]: "starts_with p (p @ s)"
  by (simp add: starts_with_def)

lemma starts_with_iff: "starts_with p s \<longleftrightarrow> (\<exists>t. s = p @ t)"
  unfolding starts_with_def by (metis append_take_drop_id append_eq_conv_conj)

lemma ends_with_iff: "ends_with p s \<longleftrightarrow> (\<exists>t. s = t @ p)"
proof
  assume "ends_with p s"
  then have "s = take (length s - length p) s @ p"
    unfolding ends_with_def by (metis append_take_drop_id)
  then show "\<exists>t. s = t @ p" by blast
next
  assume "\<exists>t. s = t @ p"
  then show "ends_with p s" by (auto simp: ends_with_def)
qed

text \<open>Decimal numerals: printing and reading are inverse on the canonical ones.\<close>

lemma dec_val_snoc: "dec_val (t @ [c]) = 10 * dec_val t + digit_val c"
  by (simp add: dec_val_def)

lemma show_nat_digit: "n < 10 \<Longrightarrow> show_nat n = [char_of (48 + n)]"
  by (simp add: show_nat.simps)

lemma show_nat_step: "0 < m \<Longrightarrow> d < 10 \<Longrightarrow> show_nat (10 * m + d) = show_nat m @ [char_of (48 + d)]"
  by (subst show_nat.simps) simp

lemma digit_val_char_of: "d < 10 \<Longrightarrow> digit_val (char_of (48 + d)) = d"
  by (simp add: digit_val_def)

lemma dec_val_show_nat [simp]: "dec_val (show_nat n) = n"
proof (induction n rule: show_nat.induct)
  case (1 n)
  show ?case
  proof (cases "n < 10")
    case True
    then show ?thesis by (simp add: show_nat_digit dec_val_def digit_val_char_of)
  next
    case False
    then have "dec_val (show_nat n) = 10 * dec_val (show_nat (n div 10)) + n mod 10"
      by (subst show_nat.simps) (simp add: dec_val_snoc digit_val_char_of)
    with 1 False show ?thesis by simp
  qed
qed

lemma show_nat_inject [simp]: "show_nat m = show_nat n \<longleftrightarrow> m = n"
  by (metis dec_val_show_nat)

lemma is_digit_char_of: "d < 10 \<Longrightarrow> is_digit (char_of (48 + d :: nat))"
  by (simp add: is_digit_def in_range_def)

lemma show_nat_digits: "list_all is_digit (show_nat n)"
proof (induction n rule: show_nat.induct)
  case (1 n)
  then show ?case
    by (subst show_nat.simps) (auto simp: is_digit_char_of simp del: show_nat.simps)
qed

lemma show_nat_nonempty [simp]: "show_nat n \<noteq> []"
  by (subst show_nat.simps) simp

lemma hd_show_nat: "0 < n \<Longrightarrow> hd (show_nat n) \<noteq> CHR ''0''"
proof (induction n rule: show_nat.induct)
  case (1 n)
  show ?case
  proof (cases "n < 10")
    case True
    then have "cu (char_of (48 + n)) \<noteq> cu CHR ''0''" using 1 by simp
    then have "char_of (48 + n) \<noteq> CHR ''0''" by metis
    then show ?thesis using True by (simp add: show_nat_digit)
  next
    case False
    then have "show_nat n = show_nat (n div 10) @ [char_of (48 + n mod 10)]" by (subst show_nat.simps) simp
    with 1 False show ?thesis by simp
  qed
qed

lemma length_show_nat: "n < 10 ^ k \<Longrightarrow> 1 \<le> k \<Longrightarrow> length (show_nat n) \<le> k"
proof (induction n arbitrary: k rule: show_nat.induct)
  case (1 n)
  show ?case
  proof (cases "n < 10")
    case True
    then show ?thesis using 1 by (simp add: show_nat_digit)
  next
    case False
    then obtain j where k: "k = Suc j" "1 \<le> j" using 1 by (cases k; cases "k - 1") auto
    have "n div 10 < 10 ^ j" using 1 k by (simp add: less_mult_imp_div_less mult.commute)
    then have "length (show_nat (n div 10)) \<le> j" using 1 False k by simp
    then show ?thesis using False k by (subst show_nat.simps) simp
  qed
qed

lemma digit_val_less: "is_digit c \<Longrightarrow> digit_val c < 10"
  by (auto simp: is_digit_def in_range_def digit_val_def)

lemma char_of_digit_val: "is_digit c \<Longrightarrow> char_of (48 + digit_val c) = c"
proof -
  assume "is_digit c"
  then have "48 + digit_val c = cu c" by (simp add: is_digit_def in_range_def digit_val_def)
  then show ?thesis by (metis char_of_cu)
qed

lemma dec_val_positive: "list_all is_digit s \<Longrightarrow> s \<noteq> [] \<Longrightarrow> hd s \<noteq> CHR ''0'' \<Longrightarrow> 0 < dec_val s"
proof (induction s rule: rev_induct)
  case (snoc c t)
  show ?case
  proof (cases "t = []")
    case True
    have "cu c \<noteq> cu CHR ''0''" using snoc.prems True by (simp only: cu_inject) simp
    then show ?thesis using snoc True by (simp add: dec_val_def digit_val_def is_digit_def in_range_def)
  next
    case False
    then show ?thesis using snoc by (simp add: dec_val_snoc)
  qed
qed simp

lemma show_nat_dec_val:
  "list_all is_digit s \<Longrightarrow> s \<noteq> [] \<Longrightarrow> s = ''0'' \<or> hd s \<noteq> CHR ''0'' \<Longrightarrow> show_nat (dec_val s) = s"
proof (induction s rule: rev_induct)
  case (snoc c t)
  have c: "digit_val c < 10" "char_of (48 + digit_val c) = c"
    using snoc.prems by (simp_all add: digit_val_less char_of_digit_val)
  show ?case
  proof (cases "t = []")
    case True
    then show ?thesis using c by (simp add: dec_val_def show_nat_digit)
  next
    case False
    then have "hd t \<noteq> CHR ''0''" using snoc.prems by auto
    then show ?thesis
      using False snoc c dec_val_positive [of t] by (simp add: dec_val_snoc show_nat_step)
  qed
qed simp

section \<open>Bytes\<close>

definition byte :: "nat \<Rightarrow> 8 word" where
  "byte n = word_of_nat n"

lemma unat_byte_mod: "unat (byte n) = n mod 256"
  by (simp add: byte_def unat_of_nat)

lemma unat_byte [simp]: "n < 256 \<Longrightarrow> unat (byte n) = n"
  by (simp add: unat_byte_mod)

lemma byte_unat [simp]: "byte (unat b) = b"
  by (simp add: byte_def)

lemma unat8_less [simp]: "unat (b :: 8 word) < 256"
  using unsigned_less [of b] by simp

lemma byte_inject: "m < 256 \<Longrightarrow> n < 256 \<Longrightarrow> byte m = byte n \<longleftrightarrow> m = n"
  by (metis unat_byte)

section \<open>Options and sums\<close>

text \<open>A call that throws is a value \<open>Inl error\<close>; sequencing stops at the first error.\<close>

definition try_bind :: "'e + 'a \<Rightarrow> ('a \<Rightarrow> 'e + 'b) \<Rightarrow> 'e + 'b" where
  "try_bind r k = (case r of Inl e \<Rightarrow> Inl e | Inr a \<Rightarrow> k a)"

lemma try_bind_Inl [simp]: "try_bind (Inl e) k = Inl e"
  and try_bind_Inr [simp]: "try_bind (Inr a) k = k a"
  by (simp_all add: try_bind_def)

lemma try_bind_eq_Inr: "try_bind r k = Inr b \<longleftrightarrow> (\<exists>a. r = Inr a \<and> k a = Inr b)"
  by (cases r) simp_all

definition guard_that :: "bool \<Rightarrow> 'e \<Rightarrow> 'e + unit" where
  "guard_that ok e = (if ok then Inr () else Inl e)"

lemma guard_that_simps [simp]: "guard_that True e = Inr ()" "guard_that False e = Inl e"
  by (simp_all add: guard_that_def)

section \<open>Byte codecs\<close>

text \<open>
  What the clients of a text encoding of bytes rely on: decoding an encoding gives the bytes
  back; in a canonical codec a text that decodes is the encoding of what it decodes to.
\<close>

locale byte_codec =
  fixes enc :: "bytes \<Rightarrow> string"
    and dec :: "string \<Rightarrow> bytes throws"
    and ok :: "bytes \<Rightarrow> bool"
  assumes dec_enc: "ok bs \<Longrightarrow> dec (enc bs) = Inr bs"
begin

lemma enc_inject: "ok bs \<Longrightarrow> ok cs \<Longrightarrow> enc bs = enc cs \<longleftrightarrow> bs = cs"
  by (metis dec_enc sum.inject(2))

end

locale canonical_codec = byte_codec +
  assumes dec_canonical: "dec t = Inr bs \<Longrightarrow> enc bs = t"
begin

lemma dec_iff: "ok bs \<Longrightarrow> dec t = Inr bs \<longleftrightarrow> t = enc bs"
  using dec_enc dec_canonical by blast

lemma dec_inject: "dec t = Inr bs \<Longrightarrow> dec u = Inr bs \<Longrightarrow> t = u"
  using dec_canonical by blast

end

end
