(* ===== verification/Wb_Json.thy ===== *)
theory Wb_Json
  imports Wb_Prelude
begin

text \<open>
  JSON values as \<open>JSON.parse\<close> builds them. Numbers are exact rationals (the doubles of
  JavaScript are rationals; integers up to \<open>2 ^ 53\<close> are exact), objects keep the order of
  their keys. An object read from JSON has each key once; a property that is absent reads as
  \<open>undefined\<close>, here \<open>None\<close>.
\<close>

datatype json =
    JNull
  | JBool bool
  | JNum rat
  | JStr string
  | JArr "json list"
  | JObj "(string \<times> json) list"

text \<open>\<open>value.key\<close> on a parsed value: an error on \<open>null\<close>, \<open>undefined\<close> where there is no such key.\<close>

fun js_get :: "json \<Rightarrow> string \<Rightarrow> unit + json option" where
  "js_get JNull k = Inl ()"
| "js_get (JObj kvs) k = Inr (map_of kvs k)"
| "js_get _ k = Inr None"

definition is_integer :: "rat \<Rightarrow> bool" where
  "is_integer q \<longleftrightarrow> of_int \<lfloor>q\<rfloor> = q"

text \<open>\<open>Number.MAX_SAFE_INTEGER\<close>.\<close>

definition max_safe :: int where
  "max_safe = 2 ^ 53 - 1"

definition is_safe_integer :: "rat \<Rightarrow> bool" where
  "is_safe_integer q \<longleftrightarrow> is_integer q \<and> \<bar>\<lfloor>q\<rfloor>\<bar> \<le> max_safe"

definition as_string :: "json option \<Rightarrow> string option" where
  "as_string v = (case v of Some (JStr s) \<Rightarrow> Some s | _ \<Rightarrow> None)"

text \<open>A whole number, as \<open>z.number().int()\<close> and \<open>Number.isInteger\<close> accept it.\<close>

definition as_int :: "json option \<Rightarrow> int option" where
  "as_int v = (case v of Some (JNum q) \<Rightarrow> (if is_integer q then Some \<lfloor>q\<rfloor> else None) | _ \<Rightarrow> None)"

lemma is_integer_of_int [simp]: "is_integer (of_int n)"
  by (simp add: is_integer_def)

lemma is_integer_numerals [simp]: "is_integer 0" "is_integer 1" "is_integer (numeral n)"
  by (simp_all add: is_integer_def)

lemma as_int_of_int [simp]: "as_int (Some (JNum (of_int n))) = Some n"
  by (simp add: as_int_def)

lemma as_int_eq_Some: "as_int v = Some n \<longleftrightarrow> v = Some (JNum (of_int n))"
  by (auto simp: as_int_def is_integer_def split: option.splits json.splits if_splits)

lemma as_string_eq_Some [simp]: "as_string v = Some s \<longleftrightarrow> v = Some (JStr s)"
  by (auto simp: as_string_def split: option.splits json.splits)


section \<open>\<open>JSON.stringify\<close>\<close>

text \<open>
  The printer covers whole numbers in the safe range, which print in decimal; other numbers have
  no text here (\<open>None\<close>). Keys are assumed not to be array indices, which JavaScript would
  reorder.
\<close>

definition bs_char :: char where "bs_char = char_of (92 :: nat)"
definition quote_char :: char where "quote_char = char_of (34 :: nat)"

definition hex2 :: "nat \<Rightarrow> char" where
  "hex2 n = (if n < 10 then char_of (48 + n) else char_of (87 + n))"

definition esc_char :: "char \<Rightarrow> string" where
  "esc_char c =
     (if c = quote_char then [bs_char, quote_char] else if c = bs_char then [bs_char, bs_char]
      else if cu c = 8 then [bs_char, CHR ''b''] else if cu c = 9 then [bs_char, CHR ''t'']
      else if cu c = 10 then [bs_char, CHR ''n''] else if cu c = 12 then [bs_char, CHR ''f'']
      else if cu c = 13 then [bs_char, CHR ''r'']
      else if cu c < 32 then [bs_char, CHR ''u'', CHR ''0'', CHR ''0'', hex2 (cu c div 16), hex2 (cu c mod 16)]
      else [c])"

definition json_str :: "string \<Rightarrow> string" where
  "json_str s = [quote_char] @ concat (map esc_char s) @ [quote_char]"

definition show_int :: "int \<Rightarrow> string" where
  "show_int n = (if n < 0 then CHR ''-'' # show_nat (nat (- n)) else show_nat (nat n))"

fun seq_opt :: "'a option list \<Rightarrow> 'a list option" where
  "seq_opt [] = Some []"
| "seq_opt (x # xs) = (case (x, seq_opt xs) of (Some y, Some ys) \<Rightarrow> Some (y # ys) | _ \<Rightarrow> None)"

fun json_text :: "json \<Rightarrow> string option" where
  "json_text JNull = Some ''null''"
| "json_text (JBool b) = Some (if b then ''true'' else ''false'')"
| "json_text (JNum q) = (if is_safe_integer q then Some (show_int \<lfloor>q\<rfloor>) else None)"
| "json_text (JStr s) = Some (json_str s)"
| "json_text (JArr xs) = map_option (\<lambda>ts. ''['' @ join_with '','' ts @ '']'') (seq_opt (map json_text xs))"
| "json_text (JObj kvs) =
     map_option (\<lambda>ts. ''{'' @ join_with '','' (map2 (\<lambda>(k, v) t. json_str k @ '':'' @ t) kvs ts) @ ''}'')
       (seq_opt (map (\<lambda>(k, v). json_text v) kvs))"

section \<open>\<open>JSON.parse\<close>\<close>

definition is_json_ws :: "char \<Rightarrow> bool" where
  "is_json_ws c \<longleftrightarrow> cu c = 32 \<or> cu c = 9 \<or> cu c = 10 \<or> cu c = 13"

definition skip_ws :: "string \<Rightarrow> string" where
  "skip_ws s = dropWhile is_json_ws s"

definition hex_of :: "char \<Rightarrow> nat" where
  "hex_of c = (if is_digit c then cu c - 48 else if in_range CHR ''a'' CHR ''f'' c then cu c - 87 else cu c - 55)"

definition unescape :: "char \<Rightarrow> char option" where
  "unescape e =
     (if e = quote_char \<or> e = bs_char \<or> e = CHR ''/'' then Some e
      else if e = CHR ''b'' then Some (char_of (8 :: nat)) else if e = CHR ''t'' then Some (char_of (9 :: nat))
      else if e = CHR ''n'' then Some (char_of (10 :: nat)) else if e = CHR ''f'' then Some (char_of (12 :: nat))
      else if e = CHR ''r'' then Some (char_of (13 :: nat)) else None)"

text \<open>The text after an opening quote. Escapes of characters beyond U+00FF have no string in the model.\<close>

fun parse_str :: "string \<Rightarrow> (string \<times> string) option" where
  "parse_str [] = None"
| "parse_str (c # s) =
     (if c = quote_char then Some ([], s)
      else if c = bs_char then
        (case s of
           [] \<Rightarrow> None
         | e # t \<Rightarrow>
             if e = CHR ''u'' then
               (if length t \<ge> 4 \<and> list_all is_hex (take 4 t) \<and> hex_of (t ! 0) = 0 \<and> hex_of (t ! 1) = 0
                then map_option (\<lambda>(r, u). (char_of (16 * hex_of (t ! 2) + hex_of (t ! 3)) # r, u)) (parse_str (drop 4 t))
                else None)
             else (case unescape e of None \<Rightarrow> None
                   | Some x \<Rightarrow> map_option (\<lambda>(r, u). (x # r, u)) (parse_str t)))
      else if cu c < 32 then None
      else map_option (\<lambda>(r, u). (c # r, u)) (parse_str s))"

definition parse_frac :: "string \<Rightarrow> (string \<times> string) option" where
  "parse_frac r =
     (case r of
        c # r' \<Rightarrow>
          if c = CHR ''.'' then
            (let fs = takeWhile is_digit r' in if fs = [] then None else Some (fs, dropWhile is_digit r'))
          else Some ([], r)
      | [] \<Rightarrow> Some ([], r))"

definition parse_exp :: "string \<Rightarrow> (int \<times> string) option" where
  "parse_exp r =
     (case r of
        c # r' \<Rightarrow>
          if c = CHR ''e'' \<or> c = CHR ''E'' then
            (let (sg, r2) = (case r' of d # r3 \<Rightarrow> if d = CHR ''-'' then (-1, r3) else if d = CHR ''+'' then (1, r3) else (1, r')
                             | [] \<Rightarrow> (1, r'));
                 es = takeWhile is_digit r2
             in if es = [] then None else Some (sg * int (dec_val es), dropWhile is_digit r2))
          else Some (0, r)
      | [] \<Rightarrow> Some (0, r))"

definition scale10 :: "int \<Rightarrow> rat \<Rightarrow> rat" where
  "scale10 e q = (if e < 0 then q / 10 ^ nat (- e) else q * 10 ^ nat e)"

definition parse_num :: "string \<Rightarrow> (json \<times> string) option" where
  "parse_num s =
     (let (neg, s1) = (case s of c # t \<Rightarrow> if c = CHR ''-'' then (True, t) else (False, s) | [] \<Rightarrow> (False, s));
          ds = takeWhile is_digit s1
      in if ds = [] \<or> (hd ds = CHR ''0'' \<and> length ds > 1) then None
         else case parse_frac (dropWhile is_digit s1) of
           None \<Rightarrow> None
         | Some (fs, r) \<Rightarrow>
             (case parse_exp r of
                None \<Rightarrow> None
              | Some (e, u) \<Rightarrow>
                  let q = scale10 e (of_nat (dec_val ds) + of_nat (dec_val fs) / 10 ^ length fs)
                  in Some (JNum (if neg then - q else q), u)))"

definition lit :: "string \<Rightarrow> json \<Rightarrow> string \<Rightarrow> (json \<times> string) option" where
  "lit w v s = (if starts_with w s then Some (v, drop (length w) s) else None)"

text \<open>The first argument is fuel; the length of the text plus one is always enough.\<close>

fun parse_val :: "nat \<Rightarrow> string \<Rightarrow> (json \<times> string) option"
  and parse_elems :: "nat \<Rightarrow> string \<Rightarrow> (json list \<times> string) option"
  and parse_members :: "nat \<Rightarrow> string \<Rightarrow> ((string \<times> json) list \<times> string) option" where
  "parse_val 0 s = None"
| "parse_val (Suc n) s =
     (case skip_ws s of
        [] \<Rightarrow> None
      | c # r \<Rightarrow>
          if c = quote_char then map_option (\<lambda>(t, u). (JStr t, u)) (parse_str r)
          else if c = CHR ''['' then
            (if skip_ws r \<noteq> [] \<and> hd (skip_ws r) = CHR '']'' then Some (JArr [], tl (skip_ws r))
             else map_option (\<lambda>(xs, u). (JArr xs, u)) (parse_elems n r))
          else if c = CHR ''{'' then
            (if skip_ws r \<noteq> [] \<and> hd (skip_ws r) = CHR ''}'' then Some (JObj [], tl (skip_ws r))
             else map_option (\<lambda>(kvs, u). (JObj (foldl (\<lambda>m (k, v). AList.update k v m) [] kvs), u)) (parse_members n r))
          else if c = CHR ''n'' then lit ''null'' JNull (c # r)
          else if c = CHR ''t'' then lit ''true'' (JBool True) (c # r)
          else if c = CHR ''f'' then lit ''false'' (JBool False) (c # r)
          else parse_num (c # r))"
| "parse_elems 0 s = None"
| "parse_elems (Suc n) s =
     (case parse_val n s of
        None \<Rightarrow> None
      | Some (x, t) \<Rightarrow>
          (case skip_ws t of
             [] \<Rightarrow> None
           | c # u \<Rightarrow>
               if c = CHR '','' then map_option (\<lambda>(xs, w). (x # xs, w)) (parse_elems n u)
               else if c = CHR '']'' then Some ([x], u) else None))"
| "parse_members 0 s = None"
| "parse_members (Suc n) s =
     (case skip_ws s of
        [] \<Rightarrow> None
      | c # r \<Rightarrow>
          if c \<noteq> quote_char then None
          else (case parse_str r of
              None \<Rightarrow> None
            | Some (k, t) \<Rightarrow>
                (case skip_ws t of
                   [] \<Rightarrow> None
                 | d # u \<Rightarrow>
                     if d \<noteq> CHR '':'' then None
                     else (case parse_val n u of
                         None \<Rightarrow> None
                       | Some (v, w) \<Rightarrow>
                           (case skip_ws w of
                              [] \<Rightarrow> None
                            | e # x \<Rightarrow>
                                if e = CHR '','' then map_option (\<lambda>(kvs, y). ((k, v) # kvs, y)) (parse_members n x)
                                else if e = CHR ''}'' then Some ([(k, v)], x) else None)))))"

definition json_parse :: "string \<Rightarrow> json option" where
  "json_parse s =
     (case parse_val (Suc (length s)) s of
        Some (j, r) \<Rightarrow> if skip_ws r = [] then Some j else None
      | None \<Rightarrow> None)"


section \<open>Parsing what was printed\<close>

lemma quote_bs [simp]: "quote_char \<noteq> bs_char" "bs_char \<noteq> quote_char" "cu quote_char = 34" "cu bs_char = 92"
  by (simp_all add: quote_char_def bs_char_def char_eq_iff_cu del: cu_inject)

lemma quote_not_letter [simp]: "quote_char \<noteq> CHR ''u''" "bs_char \<noteq> CHR ''u''"
  by (simp_all add: quote_char_def bs_char_def char_eq_iff_cu del: cu_inject)

lemma hex2_class: "n < 16 \<Longrightarrow> is_hex (hex2 n)"
  by (auto simp: hex2_def is_hex_def is_hex_lower_def is_digit_def in_range_def)

lemma hex_of_hex2: "n < 16 \<Longrightarrow> hex_of (hex2 n) = n"
  by (auto simp: hex2_def hex_of_def is_digit_def in_range_def)

lemma is_hex_zero: "is_hex CHR ''0''" "hex_of CHR ''0'' = 0"
  by (simp_all add: is_hex_def is_hex_lower_def is_digit_def in_range_def hex_of_def)

lemma cu_eqD: "cu c = n \<Longrightarrow> c = char_of n"
  by (metis char_of_cu)

lemma unescape_letter: "cu e = 98 \<Longrightarrow> unescape e = Some (char_of (8 :: nat))" "cu e = 116 \<Longrightarrow> unescape e = Some (char_of (9 :: nat))"
  "cu e = 110 \<Longrightarrow> unescape e = Some (char_of (10 :: nat))" "cu e = 102 \<Longrightarrow> unescape e = Some (char_of (12 :: nat))"
  "cu e = 114 \<Longrightarrow> unescape e = Some (char_of (13 :: nat))"
  by (auto simp: unescape_def char_eq_iff_cu simp del: cu_inject)

lemma parse_str_esc: "parse_str (esc_char c @ s) = map_option (\<lambda>(r, u). (c # r, u)) (parse_str s)"
proof -
  consider "c = quote_char" | "c = bs_char" | "cu c = 8" | "cu c = 9" | "cu c = 10" | "cu c = 12" | "cu c = 13"
    | "c \<noteq> quote_char" "c \<noteq> bs_char" "cu c < 32" "cu c \<notin> {8, 9, 10, 12, 13}" | "c \<noteq> quote_char" "c \<noteq> bs_char" "32 \<le> cu c"
    by fastforce
  then show ?thesis
  proof cases
    case 1
    then show ?thesis by (simp add: esc_char_def unescape_def)
  next
    case 2
    then show ?thesis by (simp add: esc_char_def unescape_def)
  next
    case 8
    then have "esc_char c = [bs_char, CHR ''u'', CHR ''0'', CHR ''0'', hex2 (cu c div 16), hex2 (cu c mod 16)]"
      by (simp add: esc_char_def)
    moreover have "is_hex (hex2 (cu c div 16))" "is_hex (hex2 (cu c mod 16))"
      "hex_of (hex2 (cu c div 16)) = cu c div 16" "hex_of (hex2 (cu c mod 16)) = cu c mod 16"
      using 8(3) by (simp_all add: hex2_class hex_of_hex2)
    ultimately show ?thesis by (simp add: is_hex_zero)
  next
    case 9
    then show ?thesis by (simp add: esc_char_def)
  qed (drule cu_eqD, hypsubst, simp add: esc_char_def unescape_letter char_eq_iff_cu del: cu_inject)+
qed


lemma parse_str_text: "parse_str (concat (map esc_char s) @ quote_char # rest) = Some (s, rest)"
  by (induction s) (simp_all add: parse_str_esc)

text \<open>What may follow a number without becoming part of it.\<close>

definition num_end :: "string \<Rightarrow> bool" where
  "num_end s \<longleftrightarrow> (case s of [] \<Rightarrow> True | c # _ \<Rightarrow> \<not> is_digit c \<and> c \<noteq> CHR ''.'' \<and> c \<noteq> CHR ''e'' \<and> c \<noteq> CHR ''E'')"

lemma num_end_simps [simp]: "num_end []" "num_end (CHR '','' # s)" "num_end (CHR '']'' # s)" "num_end (CHR ''}'' # s)"
  by (simp_all add: num_end_def is_digit_def in_range_def)

lemma take_digits:
  "list_all is_digit ds \<Longrightarrow> num_end s \<Longrightarrow> takeWhile is_digit (ds @ s) = ds \<and> dropWhile is_digit (ds @ s) = s"
  by (cases s) (simp_all add: list_all_iff num_end_def)

lemma parse_frac_end: "num_end s \<Longrightarrow> parse_frac s = Some ([], s)" "num_end s \<Longrightarrow> parse_exp s = Some (0, s)"
  by (cases s; simp add: parse_frac_def parse_exp_def num_end_def)+

lemma hd_show_nat_zero: "hd (show_nat n) = CHR ''0'' \<Longrightarrow> length (show_nat n) = 1"
  using hd_show_nat [of n] by (cases "n = 0") (auto simp: show_nat_digit)

lemma minus_not_digit [simp]: "\<not> is_digit CHR ''-''"
  by (simp add: is_digit_def in_range_def)

lemma parse_num_digits:
  assumes "num_end s"
  shows "parse_num (show_nat n @ s) = Some (JNum (of_nat n), s)"
    "parse_num (CHR ''-'' # show_nat n @ s) = Some (JNum (- of_nat n), s)"
proof -
  obtain c t where ct: "show_nat n = c # t" using show_nat_nonempty [of n] by (cases "show_nat n") auto
  then have "is_digit c" using show_nat_digits [of n] by simp
  then have "c \<noteq> CHR ''-''" by auto
  note td = take_digits [OF show_nat_digits [of n] assms]
  show "parse_num (show_nat n @ s) = Some (JNum (of_nat n), s)"
    using td hd_show_nat_zero [of n] \<open>c \<noteq> CHR ''-''\<close> ct parse_frac_end [OF assms] dec_val_show_nat [of n]
    by (auto simp: parse_num_def scale10_def Let_def dec_val_def)
  show "parse_num (CHR ''-'' # show_nat n @ s) = Some (JNum (- of_nat n), s)"
    using td hd_show_nat_zero [of n] parse_frac_end [OF assms] dec_val_show_nat [of n]
    by (auto simp: parse_num_def scale10_def Let_def dec_val_def)
qed

lemma parse_num_show_int: "num_end s \<Longrightarrow> parse_num (show_int n @ s) = Some (JNum (of_int n), s)"
  using parse_num_digits [of s "nat n"] parse_num_digits [of s "nat (- n)"] by (simp add: show_int_def)


section \<open>The round trip\<close>

fun json_ok :: "json \<Rightarrow> bool" where
  "json_ok (JArr xs) \<longleftrightarrow> list_all json_ok xs"
| "json_ok (JObj kvs) \<longleftrightarrow> distinct (map fst kvs) \<and> list_all (\<lambda>(k, v). json_ok v) kvs"
| "json_ok _ \<longleftrightarrow> True"

lemma seq_opt_Cons:
  "seq_opt (x # xs) = Some ys \<longleftrightarrow> (\<exists>y zs. x = Some y \<and> seq_opt xs = Some zs \<and> ys = y # zs)"
  by (auto split: option.splits)

lemma seq_opt_map: "seq_opt xs = Some ys \<longleftrightarrow> xs = map Some ys"
proof (induction xs arbitrary: ys)
  case (Cons x xs)
  show ?case unfolding seq_opt_Cons by (cases ys) (auto simp: Cons.IH)
qed auto

lemma skip_ws_first: "\<not> is_json_ws c \<Longrightarrow> skip_ws (c # s) = c # s"
  by (simp add: skip_ws_def)

lemma not_json_ws [simp]: "\<not> is_json_ws quote_char" "\<not> is_json_ws CHR ''[''" "\<not> is_json_ws CHR ''{''" "\<not> is_json_ws CHR '','' "
  "\<not> is_json_ws CHR '']''" "\<not> is_json_ws CHR ''}''" "\<not> is_json_ws CHR '':''" "\<not> is_json_ws CHR ''n''" "\<not> is_json_ws CHR ''t''"
  "\<not> is_json_ws CHR ''f''" "\<not> is_json_ws CHR ''-''"
  by (simp_all add: is_json_ws_def)

lemma quote_not_punct [simp]: "quote_char \<noteq> CHR '']''" "quote_char \<noteq> CHR ''}''" "CHR ''['' \<noteq> quote_char" "CHR ''{'' \<noteq> quote_char"
  "quote_char \<noteq> CHR ''-''" "CHR ''n'' \<noteq> quote_char" "CHR ''t'' \<noteq> quote_char" "CHR ''f'' \<noteq> quote_char" "CHR ''-'' \<noteq> quote_char"
  by (simp_all add: quote_char_def char_eq_iff_cu del: cu_inject)

lemma show_int_first: "\<exists>c r. show_int n = c # r \<and> (c = CHR ''-'' \<or> is_digit c)"
proof -
  obtain d ds where "show_nat (nat n) = d # ds" using show_nat_nonempty by (metis list.exhaust)
  then show ?thesis using show_nat_digits [of "nat n"] by (auto simp: show_int_def)
qed

lemma digit_not: "is_digit c \<Longrightarrow> \<not> is_json_ws c \<and> c \<noteq> CHR '']'' \<and> c \<noteq> quote_char \<and> c \<noteq> CHR ''['' \<and> c \<noteq> CHR ''{''
    \<and> c \<noteq> CHR ''n'' \<and> c \<noteq> CHR ''t'' \<and> c \<noteq> CHR ''f''"
  by (auto simp: is_digit_def in_range_def is_json_ws_def quote_char_def)

text \<open>Every text starts with a character that is not white space and does not close an array.\<close>

lemma json_text_first:
  assumes "json_text j = Some t"
  shows "\<exists>c r. t = c # r \<and> \<not> is_json_ws c \<and> c \<noteq> CHR '']''"
proof (cases j)
  case (JNum q)
  obtain c r where c: "show_int \<lfloor>q\<rfloor> = c # r" "c = CHR ''-'' \<or> is_digit c" using show_int_first by blast
  have "t = c # r" using assms JNum c(1) by (simp split: if_splits)
  then show ?thesis using c(2) digit_not [of c] by auto
next
  case JNull
  with assms have "t = ''null''" by simp
  then show ?thesis by simp
next
  case (JBool b)
  with assms have "t = ''true'' \<or> t = ''false''" by (simp split: if_splits)
  then show ?thesis by (elim disjE) simp_all
next
  case (JStr x)
  with assms have "t = quote_char # concat (map esc_char x) @ [quote_char]" by (simp add: json_str_def)
  then show ?thesis by simp
next
  case (JArr xs)
  then obtain u where "t = ''['' @ u" using assms by auto
  then show ?thesis by simp
next
  case (JObj kvs)
  then obtain u where "t = ''{'' @ u" using assms by auto
  then show ?thesis by simp
qed

text \<open>One element of each kind, given that the parser reads what follows it.\<close>

lemma parse_elems_text:
  assumes "\<And>x t. (x, t) \<in> set ps \<Longrightarrow> json_text x = Some t"
    and "\<And>x t n rest. (x, t) \<in> set ps \<Longrightarrow> length t \<le> n \<Longrightarrow> num_end rest \<Longrightarrow> parse_val n (t @ rest) = Some (x, rest)"
    and "ps \<noteq> []" "length (join_with '','' (map snd ps)) + 1 \<le> n"
  shows "parse_elems n (join_with '','' (map snd ps) @ CHR '']'' # rest) = Some (map fst ps, rest)"
  using assms
proof (induction ps arbitrary: n)
  case (Cons p ps)
  obtain x t where p: "p = (x, t)" by force
  obtain m where n: "n = Suc m" using Cons.prems(4) by (cases n) auto
  show ?case
  proof (cases ps)
    case Nil
    have "parse_val m (t @ CHR '']'' # rest) = Some (x, CHR '']'' # rest)"
      using Cons.prems n Nil p by auto
    then show ?thesis using Nil p n by (simp add: skip_ws_first)
  next
    case (Cons q qs)
    let ?rest = "join_with '','' (map snd ps)"
    have "parse_val m (t @ CHR '','' # ?rest @ CHR '']'' # rest) = Some (x, CHR '','' # ?rest @ CHR '']'' # rest)"
      using Cons.prems n local.Cons p by auto
    moreover have "parse_elems m (?rest @ CHR '']'' # rest) = Some (map fst ps, rest)"
      using Cons.prems n local.Cons p by (intro Cons.IH) auto
    ultimately show ?thesis using local.Cons p n by (simp add: skip_ws_first)
  qed
qed simp


definition member_text :: "string \<times> string \<Rightarrow> string" where
  "member_text kt = json_str (fst kt) @ '':'' @ snd kt"

lemma parse_members_text:
  assumes "\<And>k x t. (k, x, t) \<in> set ps \<Longrightarrow> json_text x = Some t"
    and "\<And>k x t n rest. (k, x, t) \<in> set ps \<Longrightarrow> length t \<le> n \<Longrightarrow> num_end rest \<Longrightarrow> parse_val n (t @ rest) = Some (x, rest)"
    and "ps \<noteq> []" "length (join_with '','' (map (\<lambda>(k, x, t). member_text (k, t)) ps)) + 1 \<le> n"
  shows "parse_members n (join_with '','' (map (\<lambda>(k, x, t). member_text (k, t)) ps) @ CHR ''}'' # rest)
    = Some (map (\<lambda>(k, x, t). (k, x)) ps, rest)"
  using assms
proof (induction ps arbitrary: n)
  case (Cons p ps)
  obtain k x t where p: "p = (k, x, t)" by (cases p) auto
  obtain m where n: "n = Suc m" using Cons.prems(4) by (cases n) auto
  have head: "member_text (k, t) @ u = quote_char # concat (map esc_char k) @ quote_char # CHR '':'' # t @ u" for u
    by (simp add: member_text_def json_str_def)
  have len: "length u \<le> length (member_text (k, u))" for u k by (simp add: member_text_def)
  show ?case
  proof (cases ps)
    case Nil
    have "length t \<le> m" using Cons.prems(4) n Nil p len [of t k] by simp
    then have "parse_val m (t @ CHR ''}'' # rest) = Some (x, CHR ''}'' # rest)"
      using p by (intro Cons.prems(2)) auto
    then show ?thesis using Nil p n by (simp add: head skip_ws_first parse_str_text)
  next
    case (Cons q qs)
    let ?rest = "join_with '','' (map (\<lambda>(k, x, t). member_text (k, t)) ps)"
    have len2: "length t \<le> m" using Cons.prems(4) n local.Cons p len [of t k] by simp
    have "parse_val m (t @ CHR '','' # ?rest @ CHR ''}'' # rest) = Some (x, CHR '','' # ?rest @ CHR ''}'' # rest)"
      using p len2 by (intro Cons.prems(2)) auto
    moreover have "parse_members m (?rest @ CHR ''}'' # rest) = Some (map (\<lambda>(k, x, t). (k, x)) ps, rest)"
    proof (rule Cons.IH)
      fix k x t assume "(k, x, t) \<in> set ps"
      then show "json_text x = Some t" by (intro Cons.prems(1) [of k]) simp
    next
      fix k x t n rest assume "(k, x, t) \<in> set ps" "length t \<le> n" "num_end rest"
      then show "parse_val n (t @ rest) = Some (x, rest)" by (intro Cons.prems(2) [of k]) simp_all
    qed (use Cons.prems(4) n local.Cons p in \<open>auto\<close>)
    moreover have "join_with '','' (map (\<lambda>(k, x, t). member_text (k, t)) (p # ps)) = member_text (k, t) @ CHR '','' # ?rest"
      using p local.Cons by simp
    ultimately show ?thesis using p n by (simp add: head skip_ws_first parse_str_text)
  qed
qed simp

lemma join_with_first: "\<exists>r. join_with sep ((c # w) # ws) = c # r"
  by (cases ws) simp_all

lemma foldl_update_fresh:
  "distinct (map fst (acc @ kvs)) \<Longrightarrow> foldl (\<lambda>m (k, v). AList.update k v m) acc kvs = acc @ kvs"
proof (induction kvs arbitrary: acc)
  case (Cons kv kvs)
  obtain k v where kv: "kv = (k, v)" by force
  have "AList.update k v acc = acc @ [(k, v)]"
    using Cons.prems kv by (induction acc) auto
  then show ?case using Cons.IH [of "acc @ [(k, v)]"] Cons.prems kv by simp
qed simp

lemma skip_ws_text: "json_text j = Some t \<Longrightarrow> skip_ws (t @ u) = t @ u"
  using json_text_first [of j t] skip_ws_first by auto

lemma parse_val_text:
  "json_ok j \<Longrightarrow> json_text j = Some t \<Longrightarrow> length t \<le> n \<Longrightarrow> num_end rest \<Longrightarrow> parse_val n (t @ rest) = Some (j, rest)"
proof (induction j arbitrary: t n rest)
  case JNull
  then obtain m where "n = Suc m" by (cases n) auto
  with JNull show ?case by (auto simp: skip_ws_first lit_def starts_with_def)
next
  case (JBool b)
  then obtain m where "n = Suc m" by (cases n) (auto split: if_splits)
  with JBool show ?case by (auto simp: skip_ws_first lit_def starts_with_def split: if_splits)
next
  case (JNum q)
  then have q: "is_safe_integer q" "t = show_int \<lfloor>q\<rfloor>" by (auto split: if_splits)
  obtain c r where c: "show_int \<lfloor>q\<rfloor> = c # r" "c = CHR ''-'' \<or> is_digit c" using show_int_first by blast
  obtain m where n: "n = Suc m" using JNum q c by (cases n) auto
  have "c \<noteq> quote_char" "c \<noteq> CHR ''[''" "c \<noteq> CHR ''{''" "c \<noteq> CHR ''n''" "c \<noteq> CHR ''t''" "c \<noteq> CHR ''f''" "\<not> is_json_ws c"
    using c(2) digit_not [of c] by auto
  moreover have "parse_num (c # r @ rest) = Some (JNum (of_int \<lfloor>q\<rfloor>), rest)"
    using parse_num_show_int [OF JNum.prems(4), of "\<lfloor>q\<rfloor>"] c by simp
  moreover have "of_int \<lfloor>q\<rfloor> = q" using q(1) by (simp add: is_safe_integer_def is_integer_def)
  ultimately show ?case by (simp add: n q(2) c(1) skip_ws_first)
next
  case (JStr s)
  then obtain m where "n = Suc m" by (cases n) (auto simp: json_str_def)
  with JStr show ?case by (auto simp: skip_ws_first json_str_def parse_str_text)
next
  case (JArr xs)
  obtain ts where ts: "map json_text xs = map Some ts" "t = ''['' @ join_with '','' ts @ '']''"
    using JArr.prems(2) by (auto simp: seq_opt_map)
  obtain m where n: "n = Suc m" "length (join_with '','' ts) + 1 \<le> m" using JArr.prems(3) ts by (cases n) auto
  show ?case
  proof (cases xs)
    case Nil
    then show ?thesis using ts n by (simp add: skip_ws_first)
  next
    case (Cons x xs')
    have len: "length ts = length xs" using ts(1) by (metis length_map)
    have zip: "\<And>x t. (x, t) \<in> set (zip xs ts) \<Longrightarrow> x \<in> set xs \<and> json_text x = Some t"
      using ts(1) len by (auto simp: in_set_zip list_eq_iff_nth_eq)
    have elems: "parse_elems m (join_with '','' (map snd (zip xs ts)) @ CHR '']'' # rest) = Some (map fst (zip xs ts), rest)"
    proof (rule parse_elems_text)
      fix y u assume "(y, u) \<in> set (zip xs ts)"
      note z = zip [OF this]
      then show "json_text y = Some u" by blast
      fix k v assume "length u \<le> k" "num_end v"
      with z JArr.IH [of y u k v] JArr.prems(1) show "parse_val k (u @ v) = Some (y, v)" by (simp add: list_all_iff)
    qed (use Cons len n in \<open>auto simp: zip_eq_Nil_iff\<close>)
    obtain u us where us: "ts = u # us" "json_text x = Some u" using ts(1) Cons by (cases ts) auto
    obtain c r where c: "u = c # r" "\<not> is_json_ws c" "c \<noteq> CHR '']''" using json_text_first [OF us(2)] by blast
    then obtain r' where "join_with '','' ts = c # r'" using us(1) by (cases us) auto
    then show ?thesis using elems len n c ts(2) by (auto simp: skip_ws_first)
  qed
next
  case (JObj kvs)
  obtain ts where ts: "map (\<lambda>(k, v). json_text v) kvs = map Some ts"
    "t = ''{'' @ join_with '','' (map2 (\<lambda>(k, v) t. json_str k @ '':'' @ t) kvs ts) @ ''}''"
    using JObj.prems(2) by (auto simp: seq_opt_map)
  have len: "length ts = length kvs" using ts(1) by (metis length_map)
  define ps where "ps = map (\<lambda>((k, v), t). (k, v, t)) (zip kvs ts)"
  have mtxt: "map2 (\<lambda>(k, v) t. json_str k @ '':'' @ t) kvs ts = map (\<lambda>(k, x, t). member_text (k, t)) ps"
    by (auto simp: ps_def member_text_def)
  have fst: "map (\<lambda>(k, x, t). (k, x)) ps = kvs"
    using len by (auto simp: ps_def comp_def case_prod_unfold)
  have mem: "(k, v) \<in> set kvs \<and> json_text v = Some u" if "(k, v, u) \<in> set ps" for k v u
  proof -
    from that obtain i where i: "i < length kvs" "kvs ! i = (k, v)" "ts ! i = u"
      using len by (auto simp: ps_def in_set_zip)
    from ts(1) have "(\<lambda>(k, v). json_text v) (kvs ! i) = Some (ts ! i)"
      using i(1) len by (metis length_map nth_map)
    then show ?thesis using i nth_mem [OF i(1)] by simp
  qed
  obtain m where n: "n = Suc m" "length (join_with '','' (map (\<lambda>(k, x, t). member_text (k, t)) ps)) + 1 \<le> m"
    using JObj.prems(3) ts(2) mtxt by (cases n) auto
  show ?case
  proof (cases kvs)
    case Nil
    then show ?thesis using ts n by (simp add: skip_ws_first)
  next
    case (Cons kv kvs')
    have "parse_members m (join_with '','' (map (\<lambda>(k, x, t). member_text (k, t)) ps) @ CHR ''}'' # rest) = Some (kvs, rest)"
      unfolding fst [symmetric]
    proof (rule parse_members_text)
      fix k v u assume "(k, v, u) \<in> set ps"
      note z = mem [OF this]
      then show "json_text v = Some u" by blast
      fix l w assume "length u \<le> l" "num_end w"
      with z JObj.IH [of "(k, v)" v u l w] JObj.prems(1) show "parse_val l (u @ w) = Some (v, w)"
        by (auto simp: list_all_iff)
    qed (use Cons len n in \<open>auto simp: ps_def\<close>)
    moreover have "foldl (\<lambda>m (k, v). AList.update k v m) [] kvs = kvs"
      using foldl_update_fresh [of "[]" kvs] JObj.prems(1) by simp
    moreover obtain r where "join_with '','' (map (\<lambda>(k, x, t). member_text (k, t)) ps) = quote_char # r"
    proof -
      from Cons len obtain k v u us where "kv = (k, v)" "ts = u # us" by (cases kv; cases ts) auto
      then have "map (\<lambda>(k, x, t). member_text (k, t)) ps = (quote_char # tl (member_text (k, u))) # tl (map (\<lambda>(k, x, t). member_text (k, t)) ps)"
        using Cons by (simp add: ps_def member_text_def json_str_def)
      then show ?thesis using that join_with_first by metis
    qed
    ultimately show ?thesis using n ts(2) mtxt by (auto simp: skip_ws_first)
  qed
qed

theorem json_parse_text:
  assumes "json_ok j" "json_text j = Some t"
  shows "json_parse t = Some j"
  using parse_val_text [OF assms, of "Suc (length t)" "[]"] by (simp add: json_parse_def skip_ws_def)

end
