(* ===== verification/Wb_Http.thy ===== *)
theory Wb_Http
  imports Wb_Json
begin

text \<open>
  Requests and responses as the Durable Objects see them. A request holds its method, the path
  of its parsed URL, its headers under lower-case names, and its body as \<open>request.json()\<close> would
  give it (\<open>None\<close> where that rejects). A response holds its status and JSON body; the
  fixed \<open>Cache-Control\<close> header is left out.
\<close>

record do_request =
  rq_method :: string
  rq_path :: string
  rq_headers :: "(string \<times> string) list"
  rq_json :: "json option"

record do_response =
  rs_status :: nat
  rs_body :: json

definition header :: "do_request \<Rightarrow> string \<Rightarrow> string option" where
  "header rq name = map_of (rq_headers rq) name"

text \<open>\<open>request.headers.get(name) ?? ""\<close>\<close>

definition header_or_empty :: "do_request \<Rightarrow> string \<Rightarrow> string" where
  "header_or_empty rq name = (case header rq name of None \<Rightarrow> [] | Some v \<Rightarrow> v)"

definition respond :: "nat \<Rightarrow> json \<Rightarrow> do_response" where
  "respond status body = \<lparr>rs_status = status, rs_body = body\<rparr>"

definition error_body :: "string \<Rightarrow> json" where
  "error_body msg = JObj [(''error'', JStr msg)]"

text \<open>\<open>JSON.stringify\<close> leaves out a property whose value is \<open>undefined\<close>.\<close>

definition opt_field :: "string \<Rightarrow> json option \<Rightarrow> (string \<times> json) list" where
  "opt_field k v = (case v of None \<Rightarrow> [] | Some j \<Rightarrow> [(k, j)])"

abbreviation jint :: "int \<Rightarrow> json" where
  "jint n \<equiv> JNum (of_int n)"

lemma respond_simps [simp]: "rs_status (respond s b) = s" "rs_body (respond s b) = b"
  by (simp_all add: respond_def)

lemma respond_inject [simp]: "respond s b = respond t c \<longleftrightarrow> s = t \<and> b = c"
  by (simp add: respond_def)

end
