(* ===== verification/Encoding.thy ===== *)
theory Encoding
  imports Wb_Json
begin

unbundle bit_operations_syntax

text \<open>
  \<open>apps/worker/src/security/encoding.ts\<close>: base64url and the decoder of deployment secrets,
  the comparison in constant time, and the platform functions they call (\<open>btoa\<close>,
  \<open>atob\<close>, \<open>TextEncoder\<close>, \<open>TextDecoder\<close>). The lemmas show the codec is a
  bijection between byte strings and canonical texts, and that the comparison, which
  accumulates differences without an early exit, decides equality.
\<close>

section \<open>Comparison in constant time\<close>

text \<open>
  The accumulator of the loop. Indices past the end of the shorter side read as 0 (\<open>?? 0\<close>).
  Lengths are below \<open>2 ^ 31\<close>, so the 32-bit operators of JavaScript agree with those on \<open>nat\<close>.
\<close>

definition byte_at :: "bytes \<Rightarrow> nat \<Rightarrow> nat" where
  "byte_at bs i = (if i < length bs then unat (bs ! i) else 0)"

definition constantTimeEqual :: "bytes \<Rightarrow> bytes \<Rightarrow> bool" where
  "constantTimeEqual left right =
     (let len = max (length left) (length right);
          difference = foldl (\<lambda>d i. d OR (byte_at left i XOR byte_at right i))
            (length left XOR length right) [0..<len]
      in difference = 0)"

lemma or_eq_0_nat: "(a OR b :: nat) = 0 \<longleftrightarrow> a = 0 \<and> b = 0"
  by (simp add: or_eq_0_iff)

lemma xor_eq_0_nat: "(a XOR b :: nat) = 0 \<longleftrightarrow> a = b"
  by (auto simp: bit_eq_iff bit_xor_iff)

lemma foldl_or_eq_0:
  "foldl (\<lambda>d i. d OR f i) (d :: nat) xs = 0 \<longleftrightarrow> d = 0 \<and> (\<forall>i \<in> set xs. f i = 0)"
  by (induction xs arbitrary: d) (auto simp: or_eq_0_nat)

lemma constantTimeEqual_iff [simp]: "constantTimeEqual left right \<longleftrightarrow> left = right"
proof -
  have "constantTimeEqual left right \<longleftrightarrow> length left = length right \<and>
      (\<forall>i < max (length left) (length right). byte_at left i = byte_at right i)"
    by (auto simp: constantTimeEqual_def foldl_or_eq_0 xor_eq_0_nat)
  also have "\<dots> \<longleftrightarrow> length left = length right \<and> (\<forall>i < length left. left ! i = right ! i)"
    by (rule conj_cong) (simp_all add: byte_at_def word_unat_eq_iff)
  also have "\<dots> \<longleftrightarrow> left = right"
    by (rule list_eq_iff_nth_eq [symmetric])
  finally show ?thesis .
qed

section \<open>UTF-8 of code units up to U+00FF\<close>

fun utf8 :: "string \<Rightarrow> bytes" where
  "utf8 [] = []"
| "utf8 (c # s) =
     (if cu c < 128 then byte (cu c) # utf8 s
      else byte (192 + cu c div 64) # byte (128 + cu c mod 64) # utf8 s)"

text \<open>
  \<open>new TextDecoder("utf-8", { fatal: true })\<close>. Sequences that encode a character beyond
  U+00FF have no string in this model and are refused like malformed ones.
\<close>

fun utf8_decode :: "bytes \<Rightarrow> string option" where
  "utf8_decode [] = Some []"
| "utf8_decode [b] = (if unat b < 128 then Some [char_of (unat b)] else None)"
| "utf8_decode (b # b' # bs) =
     (if unat b < 128 then map_option (Cons (char_of (unat b))) (utf8_decode (b' # bs))
      else if (unat b = 194 \<or> unat b = 195) \<and> 128 \<le> unat b' \<and> unat b' < 192
      then map_option (Cons (char_of ((unat b - 192) * 64 + (unat b' - 128)))) (utf8_decode bs)
      else None)"

lemma utf8_decode_utf8 [simp]: "utf8_decode (utf8 s) = Some s"
proof (induction s)
  case Nil
  then show ?case by simp
next
  case (Cons c s)
  have b: "cu c < 256" by (rule cu_less)
  show ?case
  proof (cases "cu c < 128")
    case True
    with b Cons show ?thesis by (cases "utf8 s") auto
  next
    case False
    have d: "cu c div 64 = 2 \<or> cu c div 64 = 3" using False b by linarith
    have m: "cu c mod 64 < 64" by simp
    have c: "cu c div 64 = k \<Longrightarrow> char_of (k * 64 + cu c mod 64) = c" for k
      using div_mult_mod_eq [of "cu c" 64] by simp
    show ?thesis
      using False d m c [of 2] c [of 3] Cons by auto
  qed
qed

lemma utf8_inject [simp]: "utf8 s = utf8 t \<longleftrightarrow> s = t"
  by (metis option.inject utf8_decode_utf8)

text \<open>
  \<open>constantTimeTextEqual\<close>, which both Durable Objects define: an empty side is never equal.
\<close>

definition constantTimeTextEqual :: "string \<Rightarrow> string \<Rightarrow> bool" where
  "constantTimeTextEqual left right =
     (if left = [] \<or> right = [] then False else constantTimeEqual (utf8 left) (utf8 right))"

lemma constantTimeTextEqual_iff [simp]:
  "constantTimeTextEqual left right \<longleftrightarrow> left = right \<and> left \<noteq> []"
  by (auto simp: constantTimeTextEqual_def)

section \<open>Base64: the platform's \<open>btoa\<close> and \<open>atob\<close>\<close>

definition b64_char :: "nat \<Rightarrow> char" where
  "b64_char n =
     (if n < 26 then char_of (65 + n) else if n < 52 then char_of (97 + (n - 26))
      else if n < 62 then char_of (48 + (n - 52)) else if n = 62 then CHR ''+'' else CHR ''/'')"

definition b64_val :: "char \<Rightarrow> nat option" where
  "b64_val c =
     (if is_upper c then Some (cu c - 65) else if is_lower c then Some (cu c - 97 + 26)
      else if is_digit c then Some (cu c - 48 + 52) else if c = CHR ''+'' then Some 62
      else if c = CHR ''/'' then Some 63 else None)"

fun sextets :: "bytes \<Rightarrow> nat list" where
  "sextets [] = []"
| "sextets [a] = [unat a div 4, unat a mod 4 * 16]"
| "sextets [a, b] = [unat a div 4, unat a mod 4 * 16 + unat b div 16, unat b mod 16 * 4]"
| "sextets (a # b # c # bs) =
     [unat a div 4, unat a mod 4 * 16 + unat b div 16, unat b mod 16 * 4 + unat c div 64, unat c mod 64]
     @ sextets bs"

definition btoa :: "bytes \<Rightarrow> string" where
  "btoa bs = map b64_char (sextets bs) @ replicate ((3 - length bs mod 3) mod 3) CHR ''=''"

text \<open>Bits left over at the end are dropped, as the forgiving decoder does; one digit alone is an error.\<close>

fun octets :: "nat list \<Rightarrow> bytes option" where
  "octets [] = Some []"
| "octets [p] = None"
| "octets [p, q] = Some [byte (p * 4 + q div 16)]"
| "octets [p, q, r] = Some [byte (p * 4 + q div 16), byte (q mod 16 * 16 + r div 4)]"
| "octets (p # q # r # s # ps) =
     map_option (\<lambda>bs. byte (p * 4 + q div 16) # byte (q mod 16 * 16 + r div 4) # byte (r mod 4 * 64 + s) # bs)
       (octets ps)"

fun all_some :: "'a option list \<Rightarrow> 'a list option" where
  "all_some [] = Some []"
| "all_some (None # xs) = None"
| "all_some (Some x # xs) = map_option (Cons x) (all_some xs)"

definition is_ascii_ws :: "char \<Rightarrow> bool" where
  "is_ascii_ws c \<longleftrightarrow> cu c \<in> {9, 10, 12, 13, 32}"

definition strip_padding :: "string \<Rightarrow> string" where
  "strip_padding s =
     (if length s mod 4 \<noteq> 0 then s
      else if ends_with ''=='' s then take (length s - 2) s
      else if ends_with ''='' s then take (length s - 1) s
      else s)"

definition atob :: "string \<Rightarrow> bytes option" where
  "atob s = Option.bind (all_some (map b64_val (strip_padding (filter (\<lambda>c. \<not> is_ascii_ws c) s)))) octets"

lemma all_some_map_Some [simp]: "all_some (map Some xs) = Some xs"
  by (induction xs) auto

lemma all_some_eq_Some: "all_some xs = Some ys \<longleftrightarrow> xs = map Some ys"
proof (induction xs arbitrary: ys)
  case (Cons x xs)
  then show ?case by (cases x; cases ys) auto
qed auto

lemma cu_b64_char:
  "n < 64 \<Longrightarrow> cu (b64_char n) =
     (if n < 26 then 65 + n else if n < 52 then 71 + n else if n < 62 then n - 4 else if n = 62 then 43 else 47)"
  by (auto simp: b64_char_def)

lemma b64_val_char [simp]: "n < 64 \<Longrightarrow> b64_val (b64_char n) = Some n"
  by (auto simp: b64_val_def char_eq_iff_cu cu_b64_char is_upper_def is_lower_def is_digit_def in_range_def
      simp del: cu_inject)

lemma b64_char_not_pad: "n < 64 \<Longrightarrow> b64_char n \<noteq> CHR ''=''"
  and b64_char_not_ws: "n < 64 \<Longrightarrow> \<not> is_ascii_ws (b64_char n)"
  by (auto simp: is_ascii_ws_def char_eq_iff_cu cu_b64_char simp del: cu_inject split: if_splits)

lemma byte_div: "unat (a :: 8 word) div 4 < 64" "unat a div 16 < 16" "unat a div 64 < 4"
  using unat8_less [of a] by linarith+

lemma sextets_bound: "n \<in> set (sextets bs) \<Longrightarrow> n < 64"
proof (induction bs rule: sextets.induct)
  case (2 a)
  then show ?case using byte_div [of a] by auto
next
  case (3 a b)
  have "unat a mod 4 * 16 + unat b div 16 < 64" using byte_div [of b] mod_less_divisor [of 4 "unat a"] by linarith
  moreover have "unat b mod 16 * 4 < 64" using mod_less_divisor [of 16 "unat b"] by linarith
  ultimately show ?case using 3 byte_div [of a] by auto
next
  case (4 a b c bs)
  have "unat a mod 4 * 16 + unat b div 16 < 64" using byte_div [of b] mod_less_divisor [of 4 "unat a"] by linarith
  moreover have "unat b mod 16 * 4 + unat c div 64 < 64"
    using byte_div [of c] mod_less_divisor [of 16 "unat b"] by linarith
  ultimately show ?case using 4 byte_div [of a] by auto
qed simp

text \<open>Splitting a byte into a high and a low part of two digits and putting it together again.\<close>

lemma join_bits:
  "q < 16 \<Longrightarrow> (p mod 4 * 16 + q) div 16 = p mod (4 :: nat)"
  "q < 16 \<Longrightarrow> (p mod 4 * 16 + q) mod 16 = q"
  "r < 4 \<Longrightarrow> (p mod 16 * 4 + r) div 4 = p mod (16 :: nat)"
  "r < 4 \<Longrightarrow> (p mod 16 * 4 + r) mod 4 = r"
  by simp_all

lemma octets_sextets [simp]: "octets (sextets bs) = Some bs"
proof (induction bs rule: sextets.induct)
  case (3 a b)
  show ?case by (simp add: join_bits byte_div)
next
  case (4 a b c bs)
  then show ?case by (simp add: join_bits byte_div)
qed simp_all

lemma length_sextets:
  "length (sextets bs) = 4 * (length bs div 3) + (if length bs mod 3 = 0 then 0 else length bs mod 3 + 1)"
proof (induction bs rule: sextets.induct)
  case (4 a b c bs)
  have l: "length (a # b # c # bs) = length bs + 3" by simp
  have "length (sextets (a # b # c # bs)) = 4 + length (sextets bs)" by simp
  then show ?case unfolding l 4 by simp
qed simp_all

lemma all_some_b64: "all_some (map b64_val (map b64_char (sextets bs))) = Some (sextets bs)"
proof -
  have "map b64_val (map b64_char (sextets bs)) = map Some (sextets bs)"
    by (simp add: sextets_bound cong: map_cong)
  then show ?thesis by (simp only: all_some_map_Some)
qed


section \<open>base64url\<close>

definition is_base64url :: "string \<Rightarrow> bool" where
  "is_base64url v \<longleftrightarrow> list_all (\<lambda>c. is_alnum c \<or> c = CHR ''_'' \<or> c = CHR ''-'') v"

definition url_char :: "char \<Rightarrow> char" where
  "url_char c = (if c = CHR ''+'' then CHR ''-'' else if c = CHR ''/'' then CHR ''_'' else c)"

definition std_char :: "char \<Rightarrow> char" where
  "std_char c = (if c = CHR ''-'' then CHR ''+'' else if c = CHR ''_'' then CHR ''/'' else c)"

definition drop_pad :: "string \<Rightarrow> string" where
  "drop_pad s = rev (dropWhile (\<lambda>c. c = CHR ''='') (rev s))"

definition encodeBase64Url :: "bytes \<Rightarrow> string" where
  "encodeBase64Url bs = drop_pad (map url_char (btoa bs))"

definition decodeBase64Url :: "string \<Rightarrow> bytes throws" where
  "decodeBase64Url v =
     (if \<not> is_base64url v then Inl ''Invalid base64url value''
      else case atob (map std_char v @ replicate ((4 - length v mod 4) mod 4) CHR ''='') of
        None \<Rightarrow> Inl ''Invalid base64url value''
      | Some bs \<Rightarrow> if encodeBase64Url bs \<noteq> v then Inl ''Non-canonical base64url value'' else Inr bs)"

definition randomBase64Url :: "bytes \<Rightarrow> string" where
  "randomBase64Url random_bytes = encodeBase64Url random_bytes"

text \<open>\<open>/^[A-Za-z0-9+/]*={0,2}$/\<close>\<close>

definition is_std_base64 :: "string \<Rightarrow> bool" where
  "is_std_base64 t \<longleftrightarrow>
     list_all (\<lambda>c. is_alnum c \<or> c = CHR ''+'' \<or> c = CHR ''/'') (drop_pad t) \<and> length t - length (drop_pad t) \<le> 2"

definition decodeBase64Secret :: "string \<Rightarrow> nat option \<Rightarrow> bytes throws" where
  "decodeBase64Secret v expectedBytes =
     (let trimmed = trim v in
      try_bind
        (if is_base64url trimmed \<and> CHR ''='' \<notin> set trimmed then decodeBase64Url trimmed
         else if \<not> is_std_base64 trimmed \<or> length trimmed mod 4 \<noteq> 0
           then Inl ''Secret must be canonical base64 or base64url''
         else case atob trimmed of
             None \<Rightarrow> Inl ''Secret must be canonical base64 or base64url''
           | Some bs \<Rightarrow> if btoa bs \<noteq> trimmed then Inl ''Secret must be canonical base64'' else Inr bs)
        (\<lambda>bs. case expectedBytes of
            None \<Rightarrow> Inr bs
          | Some n \<Rightarrow> if length bs \<noteq> n then Inl (''Secret must decode to exactly '' @ show_nat n @ '' bytes'')
                      else Inr bs))"

lemma b64_char_alnum: "n < 64 \<Longrightarrow> is_alnum (b64_char n) \<or> b64_char n = CHR ''+'' \<or> b64_char n = CHR ''/''"
  by (auto simp: is_alnum_def is_upper_def is_lower_def is_digit_def in_range_def char_eq_iff_cu cu_b64_char
      simp del: cu_inject)

lemma not_alnum [simp]:
  "\<not> is_alnum CHR ''+''" "\<not> is_alnum CHR ''/''" "\<not> is_alnum CHR ''-''" "\<not> is_alnum CHR ''_''" "\<not> is_alnum CHR ''=''"
  by (simp_all add: is_alnum_def is_upper_def is_lower_def is_digit_def in_range_def)

lemma std_url_char: "is_alnum c \<or> c = CHR ''+'' \<or> c = CHR ''/'' \<Longrightarrow> std_char (url_char c) = c"
  by (auto simp: std_char_def url_char_def)

lemma url_char_ok:
  "is_alnum c \<or> c = CHR ''+'' \<or> c = CHR ''/'' \<Longrightarrow>
    (is_alnum (url_char c) \<or> url_char c = CHR ''_'' \<or> url_char c = CHR ''-'')"
  by (auto simp: url_char_def)

lemma drop_pad_replicate: "CHR ''='' \<notin> set t \<Longrightarrow> drop_pad (t @ replicate k CHR ''='') = t"
  by (cases t rule: rev_cases) (auto simp: drop_pad_def dropWhile_append)

lemma strip_padding_replicate:
  assumes t: "CHR ''='' \<notin> set t" and k: "k \<le> 2" and len: "(length t + k) mod 4 = 0"
  shows "strip_padding (t @ replicate k CHR ''='') = t"
proof -
  from k consider "k = 0" | "k = 1" | "k = 2" by linarith
  then show ?thesis
  proof cases
    case 1
    with t len show ?thesis by (auto simp: strip_padding_def ends_with_iff)
  next
    case 2
    have "\<not> ends_with ''=='' (t @ ''='')"
    proof
      assume "ends_with ''=='' (t @ ''='')"
      then obtain u where "t @ ''='' = (u @ ''='') @ ''=''" by (auto simp: ends_with_iff)
      then have "t = u @ ''=''" by blast
      with t show False by simp
    qed
    moreover have "ends_with ''='' (t @ ''='')" by (auto simp: ends_with_iff)
    ultimately show ?thesis using 2 len by (simp add: strip_padding_def)
  next
    case 3
    then have "replicate k CHR ''='' = ''==''" by (simp add: eval_nat_numeral)
    moreover have "ends_with ''=='' (t @ ''=='')" by (auto simp: ends_with_iff)
    ultimately show ?thesis using 3 len by (simp add: strip_padding_def)
  qed
qed

definition b64_digits :: "bytes \<Rightarrow> string" where
  "b64_digits bs = map b64_char (sextets bs)"

lemma b64_digits_char: "c \<in> set (b64_digits bs) \<Longrightarrow> is_alnum c \<or> c = CHR ''+'' \<or> c = CHR ''/''"
  unfolding b64_digits_def using b64_char_alnum sextets_bound by auto

lemma b64_digits_no_pad: "CHR ''='' \<notin> set (b64_digits bs)"
  using b64_digits_char [of "CHR ''=''"] by auto

lemma b64_digits_url:
  "c \<in> set (b64_digits bs) \<Longrightarrow> is_alnum (url_char c) \<or> url_char c = CHR ''_'' \<or> url_char c = CHR ''-''"
  by (rule url_char_ok) (rule b64_digits_char)

lemma encodeBase64Url_eq: "encodeBase64Url bs = map url_char (b64_digits bs)"
proof -
  have "url_char c \<noteq> CHR ''=''" if c: "c \<in> set (b64_digits bs)" for c
  proof
    assume e: "url_char c = CHR ''=''"
    show False using b64_digits_url [OF c] unfolding e by simp
  qed
  then have "CHR ''='' \<notin> url_char ` set (b64_digits bs)" by (metis imageE)
  then have "CHR ''='' \<notin> set (map url_char (b64_digits bs))" by simp
  from drop_pad_replicate [OF this] show ?thesis
    by (simp add: encodeBase64Url_def btoa_def b64_digits_def url_char_def)
qed

lemma atob_digits:
  assumes "k \<le> 2" "(length (sextets bs) + k) mod 4 = 0"
  shows "atob (b64_digits bs @ replicate k CHR ''='') = Some bs"
proof -
  have "\<forall>c \<in> set (b64_digits bs @ replicate k CHR ''=''). \<not> is_ascii_ws c"
    using b64_char_not_ws sextets_bound by (auto simp: b64_digits_def is_ascii_ws_def)
  then have "filter (\<lambda>c. \<not> is_ascii_ws c) (b64_digits bs @ replicate k CHR ''='') = b64_digits bs @ replicate k CHR ''=''"
    by (simp only: filter_id_conv)
  then show ?thesis
    using strip_padding_replicate [OF b64_digits_no_pad, of k bs] assms
    by (simp add: atob_def b64_digits_def all_some_b64 del: map_map)
qed

lemma pad_length:
  "(4 - length (sextets bs) mod 4) mod 4 \<le> 2" "(length (sextets bs) + (4 - length (sextets bs) mod 4) mod 4) mod 4 = 0"
  "(3 - length bs mod 3) mod 3 = (4 - length (sextets bs) mod 4) mod 4"
proof -
  define m where "m = length bs div 3"
  consider "length bs mod 3 = 0" | "length bs mod 3 = 1" | "length bs mod 3 = 2" by linarith
  then have "length bs mod 3 = 0 \<and> length (sextets bs) = 4 * m \<or>
      length bs mod 3 = 1 \<and> length (sextets bs) = 4 * m + 2 \<or> length bs mod 3 = 2 \<and> length (sextets bs) = 4 * m + 3"
    by cases (simp_all add: length_sextets m_def)
  moreover have "(4 * m + 2) mod 4 = 2" "(4 * m + 3) mod 4 = 3" "(4 * m) mod 4 = 0" by presburger+
  moreover have "(4 * m + 2 + 2) mod 4 = 0" "(4 * m + 3 + 1) mod 4 = 0" by presburger+
  ultimately show "(4 - length (sextets bs) mod 4) mod 4 \<le> 2"
    "(length (sextets bs) + (4 - length (sextets bs) mod 4) mod 4) mod 4 = 0"
    "(3 - length bs mod 3) mod 3 = (4 - length (sextets bs) mod 4) mod 4"
    by (elim disjE conjE; simp)+
qed

lemma atob_btoa [simp]: "atob (btoa bs) = Some bs"
  unfolding btoa_def pad_length(3) b64_digits_def [symmetric]
  by (rule atob_digits) (rule pad_length)+

lemma is_base64url_encode: "is_base64url (encodeBase64Url bs)"
  unfolding encodeBase64Url_eq is_base64url_def list_all_iff
  using b64_digits_url [of _ bs] by auto

lemma decode_encodeBase64Url [simp]: "decodeBase64Url (encodeBase64Url bs) = Inr bs"
proof -
  have "map std_char (encodeBase64Url bs) = b64_digits bs"
    unfolding encodeBase64Url_eq map_map
    by (rule map_idI) (simp add: b64_digits_char std_url_char)
  moreover have "length (encodeBase64Url bs) = length (sextets bs)"
    by (simp add: encodeBase64Url_eq b64_digits_def)
  ultimately show ?thesis
    using is_base64url_encode [of bs] atob_digits [OF pad_length(1,2), of bs]
    by (simp add: decodeBase64Url_def)
qed

lemma decodeBase64Url_canonical: "decodeBase64Url t = Inr bs \<Longrightarrow> encodeBase64Url bs = t"
  by (auto simp: decodeBase64Url_def split: if_splits option.splits)

interpretation b64url: canonical_codec encodeBase64Url decodeBase64Url "\<lambda>_. True"
  by unfold_locales (simp_all add: decodeBase64Url_canonical)

lemma decodeBase64Secret_canonical:
  assumes "decodeBase64Secret v n = Inr bs"
  shows "trim v = encodeBase64Url bs \<or> trim v = btoa bs"
  using assms
  by (auto simp: decodeBase64Secret_def Let_def try_bind_eq_Inr decodeBase64Url_canonical
      split: if_splits option.splits)

lemma decodeBase64Secret_length: "decodeBase64Secret v (Some n) = Inr bs \<Longrightarrow> length bs = n"
  by (auto simp: decodeBase64Secret_def Let_def try_bind_eq_Inr split: if_splits)


text \<open>
  base64url is a bijection between byte strings and the texts the decoder accepts: it accepts
  a text with the result \<open>bs\<close> exactly when the text is the encoding of \<open>bs\<close>, so no two texts
  denote the same bytes.
\<close>

theorem base64url_bijection: "decodeBase64Url t = Inr bs \<longleftrightarrow> t = encodeBase64Url bs"
  by (rule b64url.dec_iff [OF TrueI])

text \<open>
  the comparison, which has no early exit and reads past the end of the shorter side as
  zero, answers true exactly for equal byte strings.
\<close>

theorem constant_time_comparison:
  "constantTimeEqual left right \<longleftrightarrow> left = right"
  by (rule constantTimeEqual_iff)

end
