(* ===== verification/Lease_Registry.thy ===== *)
theory Lease_Registry
  imports Wb_Http Encoding
begin

text \<open>
  \<open>apps/worker/src/durable/ssh-session-registry.ts\<close>: the Durable Object that counts the active
  SSH sessions of one owner. Every session holds a lease that expires unless it is renewed; an
  acquisition is granted while fewer than \<open>maximum\<close> leases are live. The pure functions come
  first, then the locale \<open>lease_service\<close> with what a session relies on, its interpretation on
  those functions, and the Durable Object with its storage and its alarm.
\<close>

section \<open>The lease functions\<close>

type_synonym leases = "(string \<times> int) list"

definition SSH_SESSION_LEASE_TTL_MS :: int where
  "SSH_SESSION_LEASE_TTL_MS = 120000"

definition SSH_SESSION_LEASE_RENEW_MS :: int where
  "SSH_SESSION_LEASE_RENEW_MS = 40000"

record lease_result =
  lr_state :: leases
  lr_acquired :: bool
  lr_active :: nat
  lr_expiresAt :: "int option"
  lr_nextAlarm :: "int option"

definition freshLeases :: "leases option \<Rightarrow> millis \<Rightarrow> leases" where
  "freshLeases current now = fresh_entries now (case current of None \<Rightarrow> [] | Some l \<Rightarrow> l)"

definition lease_update :: "leases \<Rightarrow> bool \<Rightarrow> int option \<Rightarrow> lease_result" where
  "lease_update l acquired expiresAt =
     (let expirations = map snd l in
      \<lparr>lr_state = l, lr_acquired = acquired, lr_active = length expirations, lr_expiresAt = expiresAt,
       lr_nextAlarm = (if length expirations > 0 then Some (min_list expirations) else None)\<rparr>)"

definition acquireSessionLease ::
    "leases option \<Rightarrow> string \<Rightarrow> int \<Rightarrow> millis \<Rightarrow> int \<Rightarrow> lease_result" where
  "acquireSessionLease current sessionId maximum now ttlMs =
     (let l = freshLeases current now in
      if map_of l sessionId = None \<and> int (length l) \<ge> maximum then lease_update l False None
      else let expiresAt = now + ttlMs
        in lease_update (AList.update sessionId expiresAt l) True (Some expiresAt))"

definition renewSessionLease :: "leases option \<Rightarrow> string \<Rightarrow> millis \<Rightarrow> int \<Rightarrow> lease_result" where
  "renewSessionLease current sessionId now ttlMs =
     (let l = freshLeases current now in
      if map_of l sessionId = None then lease_update l False None
      else let expiresAt = now + ttlMs
        in lease_update (AList.update sessionId expiresAt l) True (Some expiresAt))"

definition releaseSessionLease :: "leases option \<Rightarrow> string \<Rightarrow> millis \<Rightarrow> lease_result" where
  "releaseSessionLease current sessionId now =
     lease_update (AList.delete sessionId (freshLeases current now)) True None"

definition pruneSessionLeases :: "leases option \<Rightarrow> millis \<Rightarrow> lease_result" where
  "pruneSessionLeases current now = lease_update (freshLeases current now) True None"

section \<open>What a session relies on\<close>

datatype 'k lease_op = Acquire 'k int | Renew 'k | Release 'k | Prune

text \<open>
  \<open>live s now\<close> are the sessions that hold a lease at \<open>now\<close>; the functions return the new state
  and whether the request was granted.
\<close>

locale lease_service =
  fixes acquire :: "'s \<Rightarrow> 'k \<Rightarrow> int \<Rightarrow> millis \<Rightarrow> 's \<times> bool"
    and renew :: "'s \<Rightarrow> 'k \<Rightarrow> millis \<Rightarrow> 's \<times> bool"
    and release :: "'s \<Rightarrow> 'k \<Rightarrow> millis \<Rightarrow> 's"
    and prune :: "'s \<Rightarrow> millis \<Rightarrow> 's"
    and live :: "'s \<Rightarrow> millis \<Rightarrow> 'k set"
    and inv :: "'s \<Rightarrow> bool"
  assumes finite_live: "inv s \<Longrightarrow> finite (live s now)"
    and live_antimono: "now \<le> later \<Longrightarrow> live s later \<subseteq> live s now"
    and inv_acquire: "inv s \<Longrightarrow> inv (fst (acquire s k m now))"
    and inv_renew: "inv s \<Longrightarrow> inv (fst (renew s k now))"
    and inv_release: "inv s \<Longrightarrow> inv (release s k now)"
    and inv_prune: "inv s \<Longrightarrow> inv (prune s now)"
    and acquire_granted:
      "inv s \<Longrightarrow> snd (acquire s k m now) \<longleftrightarrow> k \<in> live s now \<or> int (card (live s now)) < m"
    and acquire_live:
      "inv s \<Longrightarrow> live (fst (acquire s k m now)) now =
        (if snd (acquire s k m now) then insert k (live s now) else live s now)"
    and renew_granted: "inv s \<Longrightarrow> snd (renew s k now) \<longleftrightarrow> k \<in> live s now"
    and renew_live: "inv s \<Longrightarrow> live (fst (renew s k now)) now = live s now"
    and release_live: "inv s \<Longrightarrow> live (release s k now) now = live s now - {k}"
    and prune_live: "inv s \<Longrightarrow> live (prune s now) now = live s now"
begin

fun apply_op :: "'s \<Rightarrow> 'k lease_op \<Rightarrow> millis \<Rightarrow> 's" where
  "apply_op s (Acquire k m) now = fst (acquire s k m now)"
| "apply_op s (Renew k) now = fst (renew s k now)"
| "apply_op s (Release k) now = release s k now"
| "apply_op s Prune now = prune s now"

text \<open>A run applies its operations at non-decreasing times, none before \<open>t\<close>.\<close>

fun timed :: "millis \<Rightarrow> ('k lease_op \<times> millis) list \<Rightarrow> bool" where
  "timed t [] \<longleftrightarrow> True"
| "timed t ((p, now) # ops) \<longleftrightarrow> t \<le> now \<and> timed now ops"

fun run_end :: "millis \<Rightarrow> ('k lease_op \<times> millis) list \<Rightarrow> millis" where
  "run_end t [] = t"
| "run_end t ((p, now) # ops) = run_end now ops"

definition run :: "'s \<Rightarrow> ('k lease_op \<times> millis) list \<Rightarrow> 's" where
  "run s ops = foldl (\<lambda>s (p, now). apply_op s p now) s ops"

lemma run_simps [simp]: "run s [] = s" "run s ((p, now) # ops) = run (apply_op s p now) ops"
  by (simp_all add: run_def)

lemma inv_apply_op: "inv s \<Longrightarrow> inv (apply_op s p now)"
  by (cases p) (simp_all add: inv_acquire inv_renew inv_release inv_prune)

lemma inv_run: "inv s \<Longrightarrow> inv (run s ops)"
  by (induction ops arbitrary: s) (auto simp: inv_apply_op)

lemma card_live_later: "inv s \<Longrightarrow> now \<le> later \<Longrightarrow> card (live s later) \<le> card (live s now)"
  by (simp add: card_mono finite_live live_antimono)

lemma card_apply_op:
  assumes "inv s" "int (card (live s now)) \<le> M" "\<And>k m. p = Acquire k m \<Longrightarrow> m \<le> M"
  shows "int (card (live (apply_op s p now) now)) \<le> M"
proof (cases p)
  case (Acquire k m)
  show ?thesis
  proof (cases "k \<in> live s now")
    case True
    then show ?thesis using assms Acquire by (simp add: acquire_live insert_absorb)
  next
    case False
    then show ?thesis
      using assms(1,2) assms(3) [OF Acquire] Acquire
      by (auto simp: acquire_live acquire_granted finite_live)
  qed
next
  case (Release k)
  have "card (live s now - {k}) \<le> card (live s now)"
    by (simp add: assms(1) card_Diff1_le finite_live)
  then show ?thesis using assms Release by (simp add: release_live)
qed (use assms in \<open>simp_all add: renew_live prune_live\<close>)

lemma card_run:
  assumes "inv s" "int (card (live s t)) \<le> M" "timed t ops"
    and "\<And>k m now. (Acquire k m, now) \<in> set ops \<Longrightarrow> m \<le> M"
  shows "int (card (live (run s ops) (run_end t ops))) \<le> M"
  using assms
proof (induction ops arbitrary: s t)
  case (Cons a ops)
  obtain p now where a: "a = (p, now)" by force
  have now: "int (card (live s now)) \<le> M"
    using Cons.prems(1,2,3) card_live_later [of s t now] a by force
  have "int (card (live (apply_op s p now) now)) \<le> M"
    by (rule card_apply_op [OF Cons.prems(1) now]) (use Cons.prems(4) a in auto)
  then have "int (card (live (run (apply_op s p now) ops) (run_end now ops))) \<le> M"
    using Cons.prems a by (intro Cons.IH) (auto simp: inv_apply_op)
  then show ?case using a by simp
qed simp

lemma run_end_timed: "timed t ops \<Longrightarrow> t \<le> run_end t ops"
  by (induction ops arbitrary: t) force+

text \<open>A session without a lease gets one only by acquiring it: renewing never brings it back.\<close>

lemma apply_op_not_live:
  assumes "inv s" "k \<notin> live s now" "\<And>m. p \<noteq> Acquire k m"
  shows "k \<notin> live (apply_op s p now) now"
  using assms by (cases p) (auto simp: acquire_live renew_live release_live prune_live split: if_splits)

lemma run_not_live:
  assumes "inv s" "k \<notin> live s t" "timed t ops" "\<And>m now. (Acquire k m, now) \<notin> set ops"
  shows "k \<notin> live (run s ops) (run_end t ops)"
  using assms
proof (induction ops arbitrary: s t)
  case (Cons a ops)
  obtain p now where a: "a = (p, now)" by force
  have "k \<notin> live s now" using live_antimono [of t now s] Cons.prems(2,3) a by auto
  then have "k \<notin> live (apply_op s p now) now"
    using apply_op_not_live [of s k now p] Cons.prems(1,4) a by auto
  then show ?case using Cons a by (auto simp: inv_apply_op)
qed simp

end

section \<open>The functions provide it\<close>

definition lease_inv :: "leases option \<Rightarrow> bool" where
  "lease_inv s \<longleftrightarrow> (case s of None \<Rightarrow> True | Some l \<Rightarrow> distinct (map fst l))"

definition live_sessions :: "leases option \<Rightarrow> millis \<Rightarrow> string set" where
  "live_sessions s now = fst ` set (freshLeases s now)"

definition lease_acquire :: "leases option \<Rightarrow> string \<Rightarrow> int \<Rightarrow> millis \<Rightarrow> leases option \<times> bool" where
  "lease_acquire s k m now =
     (let r = acquireSessionLease s k m now SSH_SESSION_LEASE_TTL_MS in (Some (lr_state r), lr_acquired r))"

definition lease_renew :: "leases option \<Rightarrow> string \<Rightarrow> millis \<Rightarrow> leases option \<times> bool" where
  "lease_renew s k now =
     (let r = renewSessionLease s k now SSH_SESSION_LEASE_TTL_MS in (Some (lr_state r), lr_acquired r))"

definition lease_release :: "leases option \<Rightarrow> string \<Rightarrow> millis \<Rightarrow> leases option" where
  "lease_release s k now = Some (lr_state (releaseSessionLease s k now))"

definition lease_prune :: "leases option \<Rightarrow> millis \<Rightarrow> leases option" where
  "lease_prune s now = Some (lr_state (pruneSessionLeases s now))"

lemma lease_update_simps [simp]:
  "lr_state (lease_update l a e) = l" "lr_acquired (lease_update l a e) = a"
  "lr_active (lease_update l a e) = length l" "lr_expiresAt (lease_update l a e) = e"
  "lr_nextAlarm (lease_update l a e) = (if l = [] then None else Some (min_list (map snd l)))"
  by (simp_all add: lease_update_def)

lemma distinct_freshLeases [simp]: "lease_inv s \<Longrightarrow> distinct (map fst (freshLeases s now))"
  by (auto simp: freshLeases_def lease_inv_def split: option.splits)

lemma freshLeases_bound: "(k, e) \<in> set (freshLeases s now) \<Longrightarrow> now < e"
  by (auto simp: freshLeases_def split: option.splits)

lemma freshLeases_absorb: "\<forall>x \<in> set l. now < snd x \<Longrightarrow> freshLeases (Some l) now = l"
  by (auto simp: freshLeases_def fresh_entries_def filter_id_conv)

lemma card_live_sessions: "lease_inv s \<Longrightarrow> card (live_sessions s now) = length (freshLeases s now)"
  unfolding live_sessions_def
  by (metis distinct_card distinct_freshLeases length_map list.set_map)

lemma map_of_freshLeases_iff: "map_of (freshLeases s now) k = None \<longleftrightarrow> k \<notin> live_sessions s now"
  by (simp add: live_sessions_def map_of_eq_None_iff)

lemma ttl_positive: "0 < SSH_SESSION_LEASE_TTL_MS"
  by (simp add: SSH_SESSION_LEASE_TTL_MS_def)

text \<open>Writing a lease that expires after \<open>now\<close> into live leases keeps them all live.\<close>

lemma live_after_update:
  assumes "lease_inv s" "0 < ttl"
  shows "live_sessions (Some (AList.update k (now + ttl) (freshLeases s now))) now = insert k (live_sessions s now)"
proof -
  have "\<forall>x \<in> set (AList.update k (now + ttl) (freshLeases s now)). now < snd x"
    using assms by (auto simp: set_AList_update dest: freshLeases_bound)
  then have "freshLeases (Some (AList.update k (now + ttl) (freshLeases s now))) now
      = AList.update k (now + ttl) (freshLeases s now)" by (rule freshLeases_absorb)
  then show ?thesis
    using assms(1) by (force simp: live_sessions_def set_AList_update)
qed

lemma live_after_fresh: "live_sessions (Some (freshLeases s now)) now = live_sessions s now"
proof -
  have "freshLeases (Some (freshLeases s now)) now = freshLeases s now"
    by (rule freshLeases_absorb) (auto dest: freshLeases_bound)
  then show ?thesis by (simp add: live_sessions_def)
qed

lemma live_after_delete:
  "live_sessions (Some (AList.delete k (freshLeases s now))) now = live_sessions s now - {k}"
proof -
  have "freshLeases (Some (AList.delete k (freshLeases s now))) now = AList.delete k (freshLeases s now)"
    by (rule freshLeases_absorb) (auto simp: set_AList_delete dest: freshLeases_bound)
  then show ?thesis by (force simp: live_sessions_def set_AList_delete)
qed

lemmas lease_op_defs = acquireSessionLease_def renewSessionLease_def releaseSessionLease_def pruneSessionLeases_def

lemmas lease_view_defs = lease_acquire_def lease_renew_def lease_release_def lease_prune_def

interpretation registry: lease_service lease_acquire lease_renew lease_release lease_prune live_sessions lease_inv
proof unfold_locales
  fix s :: "leases option" and k m now later
  show "finite (live_sessions s now)" by (simp add: live_sessions_def)
  show "now \<le> later \<Longrightarrow> live_sessions s later \<subseteq> live_sessions s now"
    by (force simp: live_sessions_def freshLeases_def split: option.splits)
  assume s: "lease_inv s"
  note d = distinct_freshLeases [OF s, of now]
  show "lease_inv (fst (lease_acquire s k m now))" "lease_inv (fst (lease_renew s k now))"
    "lease_inv (lease_release s k now)" "lease_inv (lease_prune s now)"
    using d by (simp_all add: lease_view_defs lease_op_defs lease_inv_def Let_def distinct_update distinct_delete)
  show "snd (lease_acquire s k m now) \<longleftrightarrow> k \<in> live_sessions s now \<or> int (card (live_sessions s now)) < m"
    using s by (auto simp: lease_view_defs lease_op_defs Let_def map_of_freshLeases_iff card_live_sessions)
  show "live_sessions (fst (lease_acquire s k m now)) now =
      (if snd (lease_acquire s k m now) then insert k (live_sessions s now) else live_sessions s now)"
    using s ttl_positive
    by (simp add: lease_view_defs lease_op_defs Let_def live_after_update live_after_fresh)
  show "snd (lease_renew s k now) \<longleftrightarrow> k \<in> live_sessions s now"
    using map_of_freshLeases_iff [of s now k] by (auto simp: lease_view_defs lease_op_defs Let_def)
  show "live_sessions (fst (lease_renew s k now)) now = live_sessions s now"
    using s ttl_positive
    by (auto simp: lease_view_defs lease_op_defs Let_def live_after_update live_after_fresh map_of_freshLeases_iff
        insert_absorb)
  show "live_sessions (lease_release s k now) now = live_sessions s now - {k}"
    by (simp add: lease_view_defs lease_op_defs live_after_delete)
  show "live_sessions (lease_prune s now) now = live_sessions s now"
    by (simp add: lease_view_defs lease_op_defs live_after_fresh)
qed


section \<open>The Durable Object\<close>

text \<open>\<open>/^[0-9a-f-]{36}$/i\<close>\<close>

definition is_session_id :: "string \<Rightarrow> bool" where
  "is_session_id s \<longleftrightarrow> length s = 36 \<and> list_all (\<lambda>c. is_hex c \<or> c = CHR ''-'') s"

text \<open>The storage of the object: the value under its key and the alarm.\<close>

record registry_do =
  reg_stored :: "leases option"
  reg_alarm :: "int option"

definition registry_empty :: registry_do where
  "registry_empty = \<lparr>reg_stored = None, reg_alarm = None\<rparr>"

text \<open>The session id and the maximum of a request body; \<open>None\<close> is the \<open>catch\<close>.\<close>

definition parse_lease_body :: "json option \<Rightarrow> (string \<times> int) option" where
  "parse_lease_body body =
     (case body of None \<Rightarrow> None
      | Some b \<Rightarrow>
        (case js_get b ''sessionId'' of
           Inr (Some (JStr sessionId)) \<Rightarrow>
             if \<not> is_session_id sessionId then None
             else (case js_get b ''maximum'' of
                 Inl _ \<Rightarrow> None
               | Inr None \<Rightarrow> Some (sessionId, 1)
               | Inr maximum \<Rightarrow>
                   (case as_int maximum of None \<Rightarrow> None
                    | Some m \<Rightarrow> if m < 1 \<or> m > 20 then None else Some (sessionId, m)))
         | _ \<Rightarrow> None))"

text \<open>The writes at the end of both transactions.\<close>

definition store_leases :: "lease_result \<Rightarrow> millis \<Rightarrow> registry_do \<Rightarrow> registry_do" where
  "store_leases next now d =
     (if lr_active next > 0
      then d\<lparr>reg_stored := Some (lr_state next),
             reg_alarm := Some (case lr_nextAlarm next of Some a \<Rightarrow> a | None \<Rightarrow> now + SSH_SESSION_LEASE_TTL_MS)\<rparr>
      else d\<lparr>reg_stored := None, reg_alarm := None\<rparr>)"

definition registry_fetch :: "string \<Rightarrow> millis \<Rightarrow> do_request \<Rightarrow> registry_do \<Rightarrow> registry_do \<times> do_response" where
  "registry_fetch hmac_key now rq d =
     (if rq_method rq \<noteq> ''POST'' then (d, respond 405 (error_body ''Method not allowed''))
      else if \<not> constantTimeTextEqual (header_or_empty rq ''x-internal-auth'') hmac_key
        then (d, respond 401 (error_body ''Unauthorized internal request''))
      else case parse_lease_body (rq_json rq) of
        None \<Rightarrow> (d, respond 400 (error_body ''Invalid lease request''))
      | Some (sessionId, maximum) \<Rightarrow>
          if rq_path rq \<noteq> ''/acquire'' \<and> rq_path rq \<noteq> ''/renew'' \<and> rq_path rq \<noteq> ''/release''
          then (d, respond 404 (error_body ''Not found''))
          else
            let current = reg_stored d;
                next = (if rq_path rq = ''/acquire''
                          then acquireSessionLease current sessionId maximum now SSH_SESSION_LEASE_TTL_MS
                        else if rq_path rq = ''/renew''
                          then renewSessionLease current sessionId now SSH_SESSION_LEASE_TTL_MS
                        else releaseSessionLease current sessionId now)
            in (store_leases next now d,
                respond (if lr_acquired next then 200 else 409)
                  (JObj ([(''acquired'', JBool (lr_acquired next)), (''active'', jint (int (lr_active next)))]
                         @ opt_field ''expiresAt'' (map_option jint (lr_expiresAt next))))))"

definition registry_alarm :: "millis \<Rightarrow> registry_do \<Rightarrow> registry_do" where
  "registry_alarm now d = store_leases (pruneSessionLeases (reg_stored d) now) now d"

text \<open>
  The object is consistent when its keys are distinct, no empty lease table is stored, and the
  alarm is set at the first expiry exactly while a table is stored.
\<close>

definition registry_ok :: "registry_do \<Rightarrow> bool" where
  "registry_ok d \<longleftrightarrow> lease_inv (reg_stored d) \<and> reg_stored d \<noteq> Some [] \<and>
     reg_alarm d = map_option (\<lambda>l. min_list (map snd l)) (reg_stored d)"

lemma registry_ok_empty: "registry_ok registry_empty"
  by (simp add: registry_ok_def registry_empty_def lease_inv_def)

lemma store_leases_ok:
  "distinct (map fst l) \<Longrightarrow> registry_ok (store_leases (lease_update l a e) now d)"
  by (auto simp: store_leases_def registry_ok_def lease_inv_def)

lemma registry_alarm_ok: "registry_ok d \<Longrightarrow> registry_ok (registry_alarm now d)"
  by (auto simp: registry_alarm_def pruneSessionLeases_def registry_ok_def [of d] intro: store_leases_ok)

lemma registry_ok_inv: "registry_ok d \<Longrightarrow> lease_inv (reg_stored d)"
  by (simp add: registry_ok_def)

lemma live_store_leases:
  "live_sessions (reg_stored (store_leases (lease_update l a e) now d)) t = live_sessions (Some l) t"
  by (simp add: store_leases_def live_sessions_def freshLeases_def fresh_entries_def)

lemma registry_fetch_ok:
  assumes "registry_ok d"
  shows "registry_ok (fst (registry_fetch key now rq d))"
proof -
  note fresh = distinct_freshLeases [OF registry_ok_inv [OF assms], of now]
  have "registry_ok (store_leases (acquireSessionLease (reg_stored d) k m now ttl) now d)"
    "registry_ok (store_leases (renewSessionLease (reg_stored d) k now ttl) now d)"
    "registry_ok (store_leases (releaseSessionLease (reg_stored d) k now) now d)" for k m ttl
    using fresh by (auto simp: lease_op_defs Let_def distinct_update distinct_delete intro!: store_leases_ok)
  then show ?thesis
    using assms by (auto simp: registry_fetch_def Let_def split: option.splits)
qed

text \<open>
  What a request does to the object: nothing, unless it is accepted as one of the three
  operations, which act on the sessions live at that time as the locale says.
\<close>

definition registry_op :: "string \<Rightarrow> do_request \<Rightarrow> string lease_op option" where
  "registry_op key rq =
     (if rq_method rq \<noteq> ''POST'' \<or> \<not> constantTimeTextEqual (header_or_empty rq ''x-internal-auth'') key then None
      else case parse_lease_body (rq_json rq) of
        None \<Rightarrow> None
      | Some (k, m) \<Rightarrow>
          if rq_path rq = ''/acquire'' then Some (Acquire k m) else if rq_path rq = ''/renew'' then Some (Renew k)
          else if rq_path rq = ''/release'' then Some (Release k) else None)"

lemma registry_fetch_refused:
  "registry_op key rq = None \<Longrightarrow> fst (registry_fetch key now rq d) = d \<and> rs_status (snd (registry_fetch key now rq d)) \<in> {400, 401, 404, 405}"
  by (auto simp: registry_op_def registry_fetch_def split: option.splits if_splits)

lemma live_registry_fetch:
  assumes "registry_op key rq = Some p"
  shows "live_sessions (reg_stored (fst (registry_fetch key now rq d))) t
    = live_sessions (registry.apply_op (reg_stored d) p now) t"
  using assms
  by (auto simp: registry_op_def registry_fetch_def lease_view_defs lease_op_defs Let_def live_store_leases split: option.splits if_splits)

lemma parse_lease_body_bounds: "parse_lease_body b = Some (k, m) \<Longrightarrow> 1 \<le> m \<and> m \<le> 20 \<and> is_session_id k"
  by (auto simp: parse_lease_body_def split: option.splits sum.splits json.splits if_splits)


section \<open>Histories of the object\<close>

datatype registry_event = Fetch do_request | Alarm

fun registry_step :: "string \<Rightarrow> registry_do \<Rightarrow> registry_event \<times> millis \<Rightarrow> registry_do" where
  "registry_step key d (Fetch rq, now) = fst (registry_fetch key now rq d)"
| "registry_step key d (Alarm, now) = registry_alarm now d"

definition registry_history :: "string \<Rightarrow> (registry_event \<times> millis) list \<Rightarrow> registry_do" where
  "registry_history key evs = foldl (registry_step key) registry_empty evs"

fun event_op :: "string \<Rightarrow> registry_event \<times> millis \<Rightarrow> (string lease_op \<times> millis) option" where
  "event_op key (Fetch rq, now) = map_option (\<lambda>p. (p, now)) (registry_op key rq)"
| "event_op key (Alarm, now) = Some (Prune, now)"

definition event_ops :: "string \<Rightarrow> (registry_event \<times> millis) list \<Rightarrow> (string lease_op \<times> millis) list" where
  "event_ops key evs = map the (filter (\<lambda>x. x \<noteq> None) (map (event_op key) evs))"

definition live_count :: "registry_do \<Rightarrow> millis \<Rightarrow> nat" where
  "live_count d now = card (live_sessions (reg_stored d) now)"

lemma registry_step_ok: "registry_ok d \<Longrightarrow> registry_ok (registry_step key d ev)"
  by (cases "(key, d, ev)" rule: registry_step.cases) (simp_all add: registry_fetch_ok registry_alarm_ok)

lemma registry_foldl_ok: "registry_ok d \<Longrightarrow> registry_ok (foldl (registry_step key) d evs)"
  by (induction evs arbitrary: d) (simp_all add: registry_step_ok)

text \<open>
  The table of leases is a function of the live ones: two tables with the same entries that
  have not expired behave alike, so the object may drop an empty table.
\<close>

lemma apply_op_cong:
  assumes "freshLeases s now = freshLeases s' now"
  shows "registry.apply_op s p now = registry.apply_op s' p now"
  by (cases p) (simp_all add: lease_view_defs lease_op_defs assms)

lemma freshLeases_store:
  "freshLeases (reg_stored (store_leases (lease_update l a e) now d)) t = freshLeases (Some l) t"
  by (simp add: store_leases_def freshLeases_def fresh_entries_def)

lemma fresh_registry_step:
  assumes "event_op key (ev, now) = Some (p, now')"
  shows "freshLeases (reg_stored (registry_step key d (ev, now))) t
    = freshLeases (registry.apply_op (reg_stored d) p now) t \<and> now' = now"
proof (cases ev)
  case (Fetch rq)
  with assms show ?thesis
    by (auto simp: registry_op_def registry_fetch_def lease_view_defs lease_op_defs Let_def freshLeases_store
        split: option.splits if_splits)
next
  case Alarm
  with assms show ?thesis
    by (auto simp: registry_alarm_def lease_view_defs lease_op_defs freshLeases_store)
qed

lemma registry_step_none: "event_op key (ev, now) = None \<Longrightarrow> registry_step key d (ev, now) = d"
  by (cases ev) (auto dest: registry_fetch_refused)

lemma fresh_foldl:
  assumes "\<And>t. freshLeases (reg_stored d) t = freshLeases s t"
  shows "freshLeases (reg_stored (foldl (registry_step key) d evs)) t = freshLeases (registry.run s (event_ops key evs)) t"
  using assms
proof (induction evs arbitrary: d s)
  case Nil
  then show ?case by (simp add: event_ops_def)
next
  case (Cons x evs)
  obtain ev now where x: "x = (ev, now)" by force
  show ?case
  proof (cases "event_op key (ev, now)")
    case None
    then have "event_ops key (x # evs) = event_ops key evs" by (simp add: event_ops_def x)
    with None Cons show ?thesis by (simp add: registry_step_none x)
  next
    case (Some q)
    obtain p where q: "q = (p, now)" by (cases q) (metis Some fresh_registry_step)
    then have ops: "event_ops key (x # evs) = (p, now) # event_ops key evs" by (simp add: event_ops_def x Some)
    have "freshLeases (reg_stored (registry_step key d x)) t' = freshLeases (registry.apply_op s p now) t'" for t'
      using fresh_registry_step [OF Some [unfolded q], of d t'] apply_op_cong [OF Cons.prems, of p now] x by simp
    from Cons.IH [OF this] show ?thesis by (simp add: ops)
  qed
qed

lemma live_history:
  "live_sessions (reg_stored (registry_history key evs)) t = live_sessions (registry.run None (event_ops key evs)) t"
  using fresh_foldl [of registry_empty None key evs t]
  by (simp add: registry_history_def live_sessions_def registry_empty_def)

lemma timed_event_ops:
  "sorted_wrt (\<le>) (t # map snd evs) \<Longrightarrow> registry.timed t (event_ops key evs)"
proof (induction evs arbitrary: t)
  case Nil
  then show ?case by (simp add: event_ops_def)
next
  case (Cons x evs)
  obtain ev now where x: "x = (ev, now)" by force
  show ?case
  proof (cases "event_op key x")
    case None
    then have "event_ops key (x # evs) = event_ops key evs" by (simp add: event_ops_def)
    with Cons show ?thesis by auto
  next
    case (Some q)
    obtain p where q: "q = (p, now)" by (cases q) (metis Some x fresh_registry_step)
    then have "event_ops key (x # evs) = (p, now) # event_ops key evs" by (simp add: event_ops_def Some)
    with Cons x show ?thesis by auto
  qed
qed

lemma run_end_event_ops:
  "sorted_wrt (\<le>) (t # map snd evs @ [u]) \<Longrightarrow> registry.run_end t (event_ops key evs) \<le> u"
proof (induction evs arbitrary: t)
  case Nil
  then show ?case by (simp add: event_ops_def)
next
  case (Cons x evs)
  obtain ev now where x: "x = (ev, now)" by force
  show ?case
  proof (cases "event_op key x")
    case None
    then have "event_ops key (x # evs) = event_ops key evs" by (simp add: event_ops_def)
    with Cons show ?thesis by auto
  next
    case (Some q)
    obtain p where q: "q = (p, now)" by (cases q) (metis Some x fresh_registry_step)
    then have "event_ops key (x # evs) = (p, now) # event_ops key evs" by (simp add: event_ops_def Some)
    with Cons x show ?thesis by auto
  qed
qed

lemma event_ops_acquire:
  assumes "(Acquire k m, now) \<in> set (event_ops key evs)"
  shows "\<exists>rq. (Fetch rq, now) \<in> set evs \<and> registry_op key rq = Some (Acquire k m)"
proof -
  from assms obtain x where x: "x \<in> set evs" "event_op key x = Some (Acquire k m, now)"
    by (force simp: event_ops_def)
  then show ?thesis by (cases "(key, x)" rule: event_op.cases) auto
qed

lemma registry_op_acquire_bound: "registry_op key rq = Some (Acquire k m) \<Longrightarrow> m \<le> 20"
  by (auto simp: registry_op_def split: option.splits if_splits dest: parse_lease_body_bounds)

lemma registry_ops_not_live:
  assumes d: "registry_ok d" and k: "k \<notin> live_sessions (reg_stored d) t"
    and sorted: "sorted_wrt (\<le>) (t # map snd evs @ [u])"
    and none: "\<And>rq now m. (Fetch rq, now) \<in> set evs \<Longrightarrow> registry_op key rq \<noteq> Some (Acquire k m)"
  shows "k \<notin> live_sessions (reg_stored (foldl (registry_step key) d evs)) u"
proof -
  let ?ops = "event_ops key evs"
  have "registry.timed t ?ops" by (rule timed_event_ops) (use sorted in \<open>simp add: sorted_wrt_append\<close>)
  then have "k \<notin> live_sessions (registry.run (reg_stored d) ?ops) (registry.run_end t ?ops)"
    by (rule registry.run_not_live [OF registry_ok_inv [OF d] k]) (use none event_ops_acquire in blast)
  moreover have "live_sessions (registry.run (reg_stored d) ?ops) u
      \<subseteq> live_sessions (registry.run (reg_stored d) ?ops) (registry.run_end t ?ops)"
    by (rule registry.live_antimono [OF run_end_event_ops [OF sorted]])
  ultimately have "k \<notin> live_sessions (registry.run (reg_stored d) ?ops) u" by blast
  then show ?thesis
    by (simp add: live_sessions_def fresh_foldl [of d "reg_stored d", OF refl])
qed

text \<open>When an accepted request is granted, in terms of the sessions live when it arrives.\<close>

fun op_granted :: "string set \<Rightarrow> string lease_op \<Rightarrow> bool" where
  "op_granted L (Acquire k m) \<longleftrightarrow> k \<in> L \<or> int (card L) < m"
| "op_granted L (Renew k) \<longleftrightarrow> k \<in> L"
| "op_granted L (Release k) \<longleftrightarrow> True"
| "op_granted L Prune \<longleftrightarrow> True"

lemma registry_fetch_status:
  assumes "registry_ok d" "registry_op key rq = Some p"
  shows "rs_status (snd (registry_fetch key now rq d))
    = (if op_granted (live_sessions (reg_stored d) now) p then 200 else 409)"
  using assms registry_ok_inv [OF assms(1)]
  by (auto simp: registry_op_def registry_fetch_def lease_op_defs Let_def map_of_freshLeases_iff card_live_sessions
      split: option.splits if_splits)

text \<open>What the stored table holds when a history ends: what the alarm is set to and what it will drop.\<close>

lemma registry_alarm_drops:
  assumes "registry_ok d"
  shows "reg_stored (registry_alarm now d) = None \<longleftrightarrow> live_sessions (reg_stored d) now = {}"
  by (auto simp: registry_alarm_def pruneSessionLeases_def store_leases_def live_sessions_def)

section \<open>Properties\<close>

text \<open>
  C2: whatever requests and alarms reach the registry, at times that never go backwards, the
  number of live sessions never exceeds the largest \<open>maximum\<close> an accepted acquisition named.
\<close>

theorem registry_capacity:
  assumes "sorted_wrt (\<le>) (map snd evs @ [u])" and "0 \<le> M"
    and "\<And>rq now k m. (Fetch rq, now) \<in> set evs \<Longrightarrow> registry_op key rq = Some (Acquire k m) \<Longrightarrow> m \<le> M"
  shows "int (live_count (registry_history key evs) u) \<le> M"
proof -
  let ?ops = "event_ops key evs"
  obtain t where t: "sorted_wrt (\<le>) (t # map snd evs @ [u])"
    using assms(1) by (cases "map snd evs @ [u]") (auto intro: that)
  have inv: "lease_inv None" by (simp add: lease_inv_def)
  have "int (card (live_sessions None t)) \<le> M"
    using assms(2) by (simp add: live_sessions_def freshLeases_def fresh_entries_def)
  then have "int (card (live_sessions (registry.run None ?ops) (registry.run_end t ?ops))) \<le> M"
    by (rule registry.card_run [OF inv _ timed_event_ops])
      (use t assms(3) in \<open>auto simp: sorted_wrt_append dest!: event_ops_acquire\<close>)
  moreover have "card (live_sessions (registry.run None ?ops) u)
      \<le> card (live_sessions (registry.run None ?ops) (registry.run_end t ?ops))"
    by (rule registry.card_live_later [OF registry.inv_run [OF inv] run_end_event_ops [OF t]])
  ultimately show ?thesis by (simp add: live_count_def live_history)
qed


definition demo_request :: "string \<Rightarrow> string \<Rightarrow> int \<Rightarrow> do_request" where
  "demo_request path sid maximum =
     \<lparr>rq_method = ''POST'', rq_path = path, rq_headers = [(''x-internal-auth'', ''key'')],
      rq_json = Some (JObj [(''sessionId'', JStr sid), (''maximum'', jint maximum)])\<rparr>"

definition demo_session :: string where
  "demo_session = replicate 36 CHR ''a''"

lemma demo_op:
  "path \<in> {''/acquire'', ''/renew'', ''/release''} \<Longrightarrow> registry_op ''key'' (demo_request path demo_session 1) =
    Some (if path = ''/acquire'' then Acquire demo_session 1 else if path = ''/renew'' then Renew demo_session
          else Release demo_session)"
  by (auto simp: registry_op_def demo_request_def demo_session_def header_or_empty_def header_def parse_lease_body_def
      is_session_id_def list_all_iff is_hex_def is_hex_lower_def in_range_def is_digit_def as_int_def is_integer_def)

lemma registry_capacity_witness:
  "int (live_count (registry_history ''key''
     [(Fetch (demo_request ''/acquire'' demo_session 1), 10), (Alarm, 20), (Fetch (demo_request ''/renew'' demo_session 1), 30)])
     40) \<le> 1"
  by (rule registry_capacity) (auto simp: demo_op)

text \<open>
  C29: after any history the registry is consistent: one lease per session, no empty table in
  storage, and the alarm set at the first expiry exactly while there is a table, so an expired
  lease is always dropped without a further request.
\<close>

theorem registry_consistent: "registry_ok (registry_history key evs)"
  unfolding registry_history_def by (rule registry_foldl_ok) (rule registry_ok_empty)

text \<open>
  C7: a session that holds no lease (never acquired, released or expired) holds none later,
  whatever renewals, releases and alarms follow, until an acquisition for it is accepted.
\<close>

theorem registry_no_resurrection:
  assumes "k \<notin> live_sessions (reg_stored (registry_history key evs)) t"
    and "sorted_wrt (\<le>) (t # map snd evs' @ [u])"
    and "\<And>rq now m. (Fetch rq, now) \<in> set evs' \<Longrightarrow> registry_op key rq \<noteq> Some (Acquire k m)"
  shows "k \<notin> live_sessions (reg_stored (registry_history key (evs @ evs'))) u"
  using registry_ops_not_live [OF registry_foldl_ok [OF registry_ok_empty, of key evs], folded registry_history_def,
      OF assms]
  by (simp add: registry_history_def)

lemma registry_no_resurrection_witness:
  "demo_session \<notin> live_sessions (reg_stored (registry_history ''key''
     ([] @ [(Fetch (demo_request ''/renew'' demo_session 1), 10)]))) 40"
  by (rule registry_no_resurrection [where t = 5])
    (auto simp: demo_op registry_history_def registry_empty_def live_sessions_def freshLeases_def fresh_entries_def)

text \<open>
  the answers. In every reachable state an accepted acquisition answers 200 exactly when the
  session is live already or fewer than \<open>maximum\<close> sessions are, a renewal exactly when the
  session is live, a release always; any other accepted request answers 409.
\<close>

theorem registry_answers:
  assumes "registry_op key rq = Some p"
  shows "rs_status (snd (registry_fetch key now rq (registry_history key evs))) =
    (if op_granted (live_sessions (reg_stored (registry_history key evs)) now) p then 200 else 409)"
  using registry_fetch_status [OF registry_foldl_ok [OF registry_ok_empty] assms]
  by (simp add: registry_history_def)

lemma registry_answers_witness:
  "rs_status (snd (registry_fetch ''key'' 10 (demo_request ''/renew'' demo_session 1) (registry_history ''key'' []))) = 409"
  using registry_answers [OF demo_op [of "''/renew''"], of 10 "[]"]
  by (simp add: registry_history_def registry_empty_def live_sessions_def freshLeases_def fresh_entries_def)

end
