(* ===== verification/Login_Limiter.thy ===== *)
theory Login_Limiter
  imports Wb_Http
begin

text \<open>
  \<open>apps/worker/src/durable/auth-rate-limiter.ts\<close>, one Durable Object per source address and one
  for the account, and \<open>apps/worker/src/http/rate-limit.ts\<close>, which consults both before the
  password is hashed. A request of the object is one step: its storage operations run under the
  object's input gate, and \<open>Date.now()\<close> does not advance between them.
\<close>

section \<open>The Durable Object\<close>

record limit_state =
  ls_failures :: int
  ls_blockedUntil :: int
  ls_lastFailureAt :: int

record limiter_do =
  lim_stored :: "limit_state option"
  lim_alarm :: "int option"

record limit_result =
  lim_allowed :: bool
  lim_retryAfterSeconds :: "int option"

datatype limit_scope = Ip_Scope | Account_Scope

definition limiter_empty :: limiter_do where
  "limiter_empty = \<lparr>lim_stored = None, lim_alarm = None\<rparr>"

definition MAX_DELAY_SECONDS :: int where "MAX_DELAY_SECONDS = 15 * 60"
definition STATE_TTL_MS :: int where "STATE_TTL_MS = 24 * 60 * 60 * 1000"
definition IP_FAILURE_THRESHOLD :: int where "IP_FAILURE_THRESHOLD = 5"
definition ACCOUNT_FAILURE_THRESHOLD :: int where "ACCOUNT_FAILURE_THRESHOLD = 20"

definition limit_allowed :: limit_result where
  "limit_allowed = \<lparr>lim_allowed = True, lim_retryAfterSeconds = None\<rparr>"

definition limit_denied :: "int \<Rightarrow> limit_result" where
  "limit_denied s = \<lparr>lim_allowed = False, lim_retryAfterSeconds = Some s\<rparr>"

definition limiter_clear :: "limiter_do \<Rightarrow> limiter_do" where
  "limiter_clear d = d\<lparr>lim_stored := None, lim_alarm := None\<rparr>"

definition readFreshState :: "millis \<Rightarrow> limiter_do \<Rightarrow> limiter_do \<times> limit_state option" where
  "readFreshState now d =
     (case lim_stored d of
        None \<Rightarrow> (d, None)
      | Some stored \<Rightarrow>
          if ls_lastFailureAt stored + STATE_TTL_MS > now then (d, Some stored) else (limiter_clear d, None))"

text \<open>\<open>Math.ceil(ms / 1000)\<close>\<close>

definition ceil_seconds :: "int \<Rightarrow> int" where
  "ceil_seconds ms = - ((- ms) div 1000)"

definition limiter_check :: "millis \<Rightarrow> limiter_do \<Rightarrow> limiter_do \<times> limit_result" where
  "limiter_check now d =
     (case readFreshState now d of
        (d, None) \<Rightarrow> (d, limit_allowed)
      | (d, Some stored) \<Rightarrow>
          if ls_blockedUntil stored \<le> now then (d, limit_allowed)
          else (d, limit_denied (max 1 (ceil_seconds (ls_blockedUntil stored - now)))))"

definition failure_threshold :: "limit_scope \<Rightarrow> int" where
  "failure_threshold scope = (case scope of Account_Scope \<Rightarrow> ACCOUNT_FAILURE_THRESHOLD | Ip_Scope \<Rightarrow> IP_FAILURE_THRESHOLD)"

definition delay_seconds :: "limit_scope \<Rightarrow> int \<Rightarrow> int" where
  "delay_seconds scope failures =
     (if failures < failure_threshold scope then 0
      else min MAX_DELAY_SECONDS (1 * 2 ^ nat (failures - failure_threshold scope)))"

definition updateFailureState :: "limit_scope \<Rightarrow> bool \<Rightarrow> millis \<Rightarrow> limiter_do \<Rightarrow> limiter_do \<times> limit_result" where
  "updateFailureState scope allowCurrentAttempt now d =
     (let (d, previous) = readFreshState now d;
          failures = min ((case previous of None \<Rightarrow> 0 | Some p \<Rightarrow> ls_failures p) + 1) 31;
          delaySeconds = delay_seconds scope failures;
          next = \<lparr>ls_failures = failures, ls_blockedUntil = now + delaySeconds * 1000, ls_lastFailureAt = now\<rparr>;
          d = d\<lparr>lim_stored := Some next, lim_alarm := Some (now + STATE_TTL_MS)\<rparr>
      in if allowCurrentAttempt then (d, limit_allowed)
         else if delaySeconds = 0 then (d, limit_allowed)
         else (d, limit_denied delaySeconds))"

definition recordFailure :: "limit_scope \<Rightarrow> millis \<Rightarrow> limiter_do \<Rightarrow> limiter_do \<times> limit_result" where
  "recordFailure scope now d = updateFailureState scope False now d"

definition reserveAttempt :: "limit_scope \<Rightarrow> millis \<Rightarrow> limiter_do \<Rightarrow> limiter_do \<times> limit_result" where
  "reserveAttempt scope now d =
     (case limiter_check now d of
        (d, current) \<Rightarrow> if \<not> lim_allowed current then (d, current) else updateFailureState scope True now d)"

definition limit_json :: "limit_result \<Rightarrow> json" where
  "limit_json r = JObj ((''allowed'', JBool (lim_allowed r)) # opt_field ''retryAfterSeconds'' (map_option jint (lim_retryAfterSeconds r)))"

definition request_scope :: "do_request \<Rightarrow> limit_scope" where
  "request_scope rq = (if header rq ''x-rate-limit-scope'' = Some ''account'' then Account_Scope else Ip_Scope)"

definition limiter_fetch :: "millis \<Rightarrow> do_request \<Rightarrow> limiter_do \<Rightarrow> limiter_do \<times> do_response" where
  "limiter_fetch now rq d =
     (if rq_method rq \<noteq> ''POST'' then (d, respond 405 (error_body ''Method not allowed''))
      else if rq_path rq = ''/check'' then map_prod id (\<lambda>r. respond 200 (limit_json r)) (limiter_check now d)
      else if rq_path rq = ''/attempt''
        then map_prod id (\<lambda>r. respond 200 (limit_json r)) (reserveAttempt (request_scope rq) now d)
      else if rq_path rq = ''/failure''
        then map_prod id (\<lambda>r. respond 200 (limit_json r)) (recordFailure (request_scope rq) now d)
      else if rq_path rq = ''/success'' then (limiter_clear d, respond 200 (limit_json limit_allowed))
      else (d, respond 404 (error_body ''Not found'')))"

definition limiter_alarm :: "limiter_do \<Rightarrow> limiter_do" where
  "limiter_alarm d = limiter_clear d"

section \<open>Both limiters before a login\<close>

record login_limiters =
  ip_limiter :: limiter_do
  account_limiter :: limiter_do

text \<open>
  \<open>assertLoginAllowed\<close>: \<open>Inl\<close> is the 429 with its retry hint. The address is asked first; the
  account's budget is not touched when the address is refused.
\<close>

definition assertLoginAllowed :: "millis \<Rightarrow> millis \<Rightarrow> login_limiters \<Rightarrow> login_limiters \<times> (int + unit)" where
  "assertLoginAllowed t1 t2 l =
     (let (d, ip) = reserveAttempt Ip_Scope t1 (ip_limiter l); l = l\<lparr>ip_limiter := d\<rparr>
      in if \<not> lim_allowed ip
         then (l, Inl (max 1 (case lim_retryAfterSeconds ip of None \<Rightarrow> 1 | Some s \<Rightarrow> s)))
         else
           let (e, account) = reserveAttempt Account_Scope t2 (account_limiter l); l = l\<lparr>account_limiter := e\<rparr>
           in if lim_allowed account then (l, Inr ())
              else (l, Inl (max 1 (case lim_retryAfterSeconds account of None \<Rightarrow> 1 | Some s \<Rightarrow> s))))"

definition clearLoginFailures :: "login_limiters \<Rightarrow> login_limiters" where
  "clearLoginFailures l =
     l\<lparr>ip_limiter := limiter_clear (ip_limiter l), account_limiter := limiter_clear (account_limiter l)\<rparr>"

section \<open>Invariant and behaviour\<close>

definition limiter_ok :: "limit_scope \<Rightarrow> limiter_do \<Rightarrow> bool" where
  "limiter_ok scope d \<longleftrightarrow>
     (case lim_stored d of
        None \<Rightarrow> lim_alarm d = None
      | Some s \<Rightarrow> lim_alarm d = Some (ls_lastFailureAt s + STATE_TTL_MS) \<and> 1 \<le> ls_failures s \<and> ls_failures s \<le> 31
          \<and> ls_blockedUntil s = ls_lastFailureAt s + 1000 * delay_seconds scope (ls_failures s))"

text \<open>The failures that count at \<open>now\<close>, and the instant until which attempts are refused.\<close>

definition failures_at :: "limiter_do \<Rightarrow> millis \<Rightarrow> int" where
  "failures_at d now = (case snd (readFreshState now d) of None \<Rightarrow> 0 | Some s \<Rightarrow> ls_failures s)"

definition blocked_at :: "limiter_do \<Rightarrow> millis \<Rightarrow> bool" where
  "blocked_at d now = (case snd (readFreshState now d) of None \<Rightarrow> False | Some s \<Rightarrow> now < ls_blockedUntil s)"

lemma limit_result_simps [simp]:
  "lim_allowed limit_allowed" "\<not> lim_allowed (limit_denied s)" "lim_retryAfterSeconds (limit_denied s) = Some s"
  by (simp_all add: limit_allowed_def limit_denied_def)

lemma limiter_clear_simps [simp]: "lim_stored (limiter_clear d) = None" "lim_alarm (limiter_clear d) = None"
  by (simp_all add: limiter_clear_def)

lemma delay_bounds: "0 \<le> delay_seconds scope f" "delay_seconds scope f \<le> MAX_DELAY_SECONDS"
  by (simp_all add: delay_seconds_def MAX_DELAY_SECONDS_def min_def)

lemma delay_positive_iff: "0 < delay_seconds scope f \<longleftrightarrow> failure_threshold scope \<le> f"
  by (simp add: delay_seconds_def MAX_DELAY_SECONDS_def)

text \<open>The delay doubles with every failure from the threshold on, up to the cap.\<close>

lemma delay_doubles:
  assumes "failure_threshold scope \<le> f"
  shows "delay_seconds scope (f + 1) = min MAX_DELAY_SECONDS (2 * delay_seconds scope f)"
proof -
  have "nat (f + 1 - failure_threshold scope) = Suc (nat (f - failure_threshold scope))" using assms by simp
  then show ?thesis using assms by (simp add: delay_seconds_def MAX_DELAY_SECONDS_def min_def)
qed

lemma delay_mono: "f \<le> g \<Longrightarrow> delay_seconds scope f \<le> delay_seconds scope g"
  unfolding delay_seconds_def
  by (auto simp: MAX_DELAY_SECONDS_def intro!: min.mono min.coboundedI2 power_increasing nat_mono)

lemma readFreshState_ok: "limiter_ok scope d \<Longrightarrow> limiter_ok scope (fst (readFreshState now d))"
  by (auto simp: readFreshState_def limiter_ok_def limiter_clear_def split: option.splits)

lemma readFreshState_some: "readFreshState now d = (e, Some s) \<Longrightarrow> e = d \<and> lim_stored d = Some s"
  by (auto simp: readFreshState_def split: option.splits if_splits)

lemma limiter_ok_alarm: "limiter_ok scope (limiter_alarm d)"
  by (simp add: limiter_alarm_def limiter_clear_def limiter_ok_def)

lemma limiter_check_ok: "limiter_ok scope d \<Longrightarrow> limiter_ok scope (fst (limiter_check now d))"
  using readFreshState_ok [of scope d now]
  by (auto simp: limiter_check_def split: option.splits prod.splits)

lemma updateFailureState_ok:
  assumes "limiter_ok scope d"
  shows "limiter_ok scope (fst (updateFailureState scope a now d))"
proof -
  have "0 \<le> (case snd (readFreshState now d) of None \<Rightarrow> 0 | Some p \<Rightarrow> ls_failures p)"
    using assms by (auto simp: readFreshState_def limiter_ok_def split: option.splits if_splits)
  then show ?thesis
    by (auto simp: updateFailureState_def limiter_ok_def Let_def min_def split: prod.splits)
qed

lemma reserveAttempt_ok: "limiter_ok scope d \<Longrightarrow> limiter_ok scope (fst (reserveAttempt scope now d))"
  using limiter_check_ok [of scope d now]
  by (auto simp: reserveAttempt_def updateFailureState_ok split: prod.splits)

lemma limiter_check_eq:
  "lim_allowed (snd (limiter_check now d)) \<longleftrightarrow> \<not> blocked_at d now"
  by (auto simp: limiter_check_def blocked_at_def split: prod.splits option.splits)

lemma failures_at_check [simp]: "failures_at (fst (limiter_check now d)) now = failures_at d now"
  by (auto simp: limiter_check_def failures_at_def readFreshState_def limiter_clear_def split: option.splits if_splits)

lemma failures_at_update:
  "failures_at (fst (updateFailureState scope a now d)) now = min (failures_at d now + 1) 31"
  by (auto simp: updateFailureState_def failures_at_def readFreshState_def limiter_clear_def STATE_TTL_MS_def Let_def
      split: option.splits if_splits)


lemma updateFailureState_granted: "lim_allowed (snd (updateFailureState scope True now d))"
  by (simp add: updateFailureState_def Let_def split: prod.splits)

lemma reserveAttempt_granted: "lim_allowed (snd (reserveAttempt scope now d)) \<longleftrightarrow> \<not> blocked_at d now"
  using limiter_check_eq [of now d] updateFailureState_granted
  by (auto simp: reserveAttempt_def split: prod.splits)

lemma reserveAttempt_counts:
  assumes "lim_allowed (snd (reserveAttempt scope now d))"
  shows "failures_at (fst (reserveAttempt scope now d)) now = min (failures_at d now + 1) 31"
proof -
  obtain e r where c: "limiter_check now d = (e, r)" by force
  have "lim_allowed r" using assms c by (auto simp: reserveAttempt_def split: if_splits)
  then show ?thesis
    using failures_at_check [of now d] c by (simp add: reserveAttempt_def failures_at_update)
qed

section \<open>Histories of a limiter\<close>

text \<open>Requests of any kind and alarms, each with its time. An alarm fires when it is due.\<close>

datatype limiter_event = Call do_request | Alarm_Due

fun limiter_step :: "millis \<Rightarrow> limiter_event \<Rightarrow> limiter_do \<Rightarrow> limiter_do" where
  "limiter_step now (Call rq) d = fst (limiter_fetch now rq d)"
| "limiter_step now Alarm_Due d =
     (case lim_alarm d of None \<Rightarrow> d | Some a \<Rightarrow> if a \<le> now then limiter_alarm d else d)"

definition limiter_after :: "(millis \<times> limiter_event) list \<Rightarrow> limiter_do \<Rightarrow> limiter_do" where
  "limiter_after h d = fold (\<lambda>(now, e). limiter_step now e) h d"

text \<open>The object's answer to a request for an attempt lets it through.\<close>

fun attempt_granted :: "millis \<Rightarrow> limiter_event \<Rightarrow> limiter_do \<Rightarrow> bool" where
  "attempt_granted now (Call rq) d \<longleftrightarrow> rq_method rq = ''POST'' \<and> rq_path rq = ''/attempt'' \<and>
     snd (limiter_fetch now rq d) = respond 200 (limit_json limit_allowed)"
| "attempt_granted now Alarm_Due d \<longleftrightarrow> False"

fun granted_times :: "limiter_do \<Rightarrow> (millis \<times> limiter_event) list \<Rightarrow> millis list" where
  "granted_times d [] = []"
| "granted_times d ((now, e) # h) = (if attempt_granted now e d then [now] else []) @ granted_times (limiter_step now e d) h"

fun of_scope :: "limit_scope \<Rightarrow> limiter_event \<Rightarrow> bool" where
  "of_scope scope (Call rq) \<longleftrightarrow> request_scope rq = scope"
| "of_scope scope Alarm_Due \<longleftrightarrow> True"

fun no_success :: "limiter_event \<Rightarrow> bool" where
  "no_success (Call rq) \<longleftrightarrow> rq_path rq \<noteq> ''/success''"
| "no_success Alarm_Due \<longleftrightarrow> True"

text \<open>\<open>spaced scope n prev g\<close>: the times \<open>g\<close> keep the delays that follow the \<open>n\<close>-th attempt at \<open>prev\<close>.\<close>

fun spaced :: "limit_scope \<Rightarrow> int \<Rightarrow> millis \<Rightarrow> millis list \<Rightarrow> bool" where
  "spaced scope n prev [] \<longleftrightarrow> True"
| "spaced scope n prev (t # g) \<longleftrightarrow> prev + 1000 * delay_seconds scope (min n 31) \<le> t \<and> spaced scope (n + 1) t g"

text \<open>The number of attempts from which on the delay is at its cap.\<close>

definition cap_count :: "limit_scope \<Rightarrow> int" where
  "cap_count scope = failure_threshold scope + 10"

lemma delay_at_cap: "cap_count scope \<le> n \<Longrightarrow> delay_seconds scope (min n 31) = MAX_DELAY_SECONDS"
proof -
  assume "cap_count scope \<le> n"
  then have "cap_count scope \<le> min n 31"
    by (auto simp: cap_count_def failure_threshold_def IP_FAILURE_THRESHOLD_def ACCOUNT_FAILURE_THRESHOLD_def
        split: limit_scope.splits)
  from delay_mono [OF this, of scope]
  have "delay_seconds scope (cap_count scope) \<le> delay_seconds scope (min n 31)" .
  moreover have "delay_seconds scope (cap_count scope) = MAX_DELAY_SECONDS"
    by (simp add: cap_count_def delay_seconds_def MAX_DELAY_SECONDS_def)
  ultimately show ?thesis using delay_bounds(2) [of scope "min n 31"] by simp
qed

lemma reserveAttempt_live:
  assumes "lim_stored d = Some s" "now < ls_lastFailureAt s + STATE_TTL_MS"
  shows "reserveAttempt scope now d =
    (if ls_blockedUntil s \<le> now
     then (let f = min (ls_failures s + 1) 31 in
       (d\<lparr>lim_stored := Some \<lparr>ls_failures = f, ls_blockedUntil = now + delay_seconds scope f * 1000, ls_lastFailureAt = now\<rparr>,
          lim_alarm := Some (now + STATE_TTL_MS)\<rparr>, limit_allowed))
     else (d, limit_denied (max 1 (ceil_seconds (ls_blockedUntil s - now)))))"
  using assms by (simp add: reserveAttempt_def limiter_check_def updateFailureState_def readFreshState_def Let_def)

lemma reserveAttempt_fresh:
  assumes "lim_stored d = None"
  shows "reserveAttempt scope now d =
    (d\<lparr>lim_stored := Some \<lparr>ls_failures = 1, ls_blockedUntil = now + delay_seconds scope 1 * 1000, ls_lastFailureAt = now\<rparr>,
       lim_alarm := Some (now + STATE_TTL_MS)\<rparr>, limit_allowed)"
  using assms by (simp add: reserveAttempt_def limiter_check_def updateFailureState_def readFreshState_def Let_def)

lemma reserveAttempt_result: "snd (reserveAttempt scope now d) = limit_allowed \<or> (\<exists>w. snd (reserveAttempt scope now d) = limit_denied w)"
  by (auto simp: reserveAttempt_def limiter_check_def updateFailureState_def Let_def split: prod.splits option.splits)

lemma limit_json_allowed: "limit_json r = limit_json limit_allowed \<Longrightarrow> lim_allowed r"
  by (simp add: limit_json_def)

lemma attempt_granted_iff:
  "of_scope scope (Call rq) \<Longrightarrow> attempt_granted now (Call rq) d \<longleftrightarrow> rq_method rq = ''POST'' \<and> rq_path rq = ''/attempt'' \<and>
     lim_allowed (snd (reserveAttempt scope now d))"
  using reserveAttempt_result [of scope now d]
  by (auto simp: limiter_fetch_def map_prod_def dest: limit_json_allowed split: prod.splits)

lemma limiter_step_ok:
  assumes "limiter_ok scope d" "of_scope scope e"
  shows "limiter_ok scope (limiter_step now e d)"
proof (cases e)
  case (Call rq)
  have "limiter_ok scope (limiter_clear d)" using limiter_ok_alarm by (simp add: limiter_alarm_def)
  then show ?thesis
    using assms limiter_check_ok [OF assms(1), of now] reserveAttempt_ok [OF assms(1), of now] updateFailureState_ok [OF assms(1), of False now]
    by (auto simp: Call limiter_fetch_def recordFailure_def)
next
  case Alarm_Due
  then show ?thesis using assms(1) limiter_ok_alarm by (simp split: option.split)
qed

lemma limiter_after_ok: "limiter_ok scope d \<Longrightarrow> list_all (\<lambda>(x, e). of_scope scope e) h \<Longrightarrow> limiter_ok scope (limiter_after h d)"
  unfolding limiter_after_def by (induction h arbitrary: d) (auto simp: limiter_step_ok)

text \<open>
  After the \<open>n\<close>-th counted attempt, which was let through at \<open>prev\<close>: the state holds at least \<open>n\<close> failures, blocks at least as
  long as they demand, and dates from \<open>start\<close> or later.
\<close>

definition counting :: "limit_scope \<Rightarrow> int \<Rightarrow> millis \<Rightarrow> millis \<Rightarrow> millis \<Rightarrow> limiter_do \<Rightarrow> bool" where
  "counting scope n prev start now d \<longleftrightarrow> (\<exists>s. lim_stored d = Some s \<and> limiter_ok scope d \<and> min n 31 \<le> ls_failures s \<and>
     prev + 1000 * delay_seconds scope (min n 31) \<le> ls_blockedUntil s \<and> start \<le> ls_lastFailureAt s \<and> ls_lastFailureAt s \<le> now)"

lemma counting_later: "counting scope n prev start now d \<Longrightarrow> now \<le> later \<Longrightarrow> counting scope n prev start later d"
  by (auto simp: counting_def)

lemma updateFailureState_live:
  assumes "lim_stored d = Some s" "now < ls_lastFailureAt s + STATE_TTL_MS"
  shows "fst (updateFailureState scope a now d) = (let f = min (ls_failures s + 1) 31 in
    d\<lparr>lim_stored := Some \<lparr>ls_failures = f, ls_blockedUntil = now + delay_seconds scope f * 1000, ls_lastFailureAt = now\<rparr>,
      lim_alarm := Some (now + STATE_TTL_MS)\<rparr>)"
  using assms by (simp add: updateFailureState_def readFreshState_def Let_def)

lemma counting_failure:
  assumes "counting scope n prev start now d" "now \<le> x" "x < start + STATE_TTL_MS"
  shows "counting scope n prev start x (fst (updateFailureState scope a x d))"
    and "counting scope (n + 1) x start x (fst (updateFailureState scope a x d))"
proof -
  obtain s where s: "lim_stored d = Some s" "limiter_ok scope d" "min n 31 \<le> ls_failures s"
      "prev + 1000 * delay_seconds scope (min n 31) \<le> ls_blockedUntil s" "start \<le> ls_lastFailureAt s" "ls_lastFailureAt s \<le> now"
    using assms(1) by (auto simp: counting_def)
  define f where "f = min (ls_failures s + 1) 31"
  let ?d = "fst (updateFailureState scope a x d)"
  have ok: "limiter_ok scope ?d" by (rule updateFailureState_ok [OF s(2)])
  have d: "lim_stored ?d = Some \<lparr>ls_failures = f, ls_blockedUntil = x + delay_seconds scope f * 1000, ls_lastFailureAt = x\<rparr>"
    using updateFailureState_live [OF s(1), of x scope a] assms(3) s(5) by (simp add: f_def Let_def)
  have bu: "ls_blockedUntil s = ls_lastFailureAt s + 1000 * delay_seconds scope (ls_failures s)" "ls_failures s \<le> 31"
    using s(1,2) by (simp_all add: limiter_ok_def)
  have "delay_seconds scope (ls_failures s) \<le> delay_seconds scope f" using bu(2) by (intro delay_mono) (simp add: f_def)
  then have "ls_blockedUntil s \<le> x + delay_seconds scope f * 1000" using bu(1) s(6) assms(2) by simp
  moreover have f: "min n 31 \<le> f" "min (n + 1) 31 \<le> f" using s(3) by (simp_all add: f_def min_def split: if_splits)
  ultimately show "counting scope n prev start x ?d" using ok d s(4-6) assms(2) by (auto simp: counting_def)
  have "delay_seconds scope (min (n + 1) 31) \<le> delay_seconds scope f" using f(2) by (rule delay_mono)
  then show "counting scope (n + 1) x start x ?d" using ok d f(2) s(5,6) assms(2) by (auto simp: counting_def)
qed

lemma counting_step:
  assumes "counting scope n prev start now d" "now \<le> x" "x < start + STATE_TTL_MS" "of_scope scope e" "no_success e"
  shows "if attempt_granted x e d then prev + 1000 * delay_seconds scope (min n 31) \<le> x \<and> counting scope (n + 1) x start x (limiter_step x e d)
    else counting scope n prev start x (limiter_step x e d)"
proof -
  obtain s where s: "lim_stored d = Some s" "limiter_ok scope d" "prev + 1000 * delay_seconds scope (min n 31) \<le> ls_blockedUntil s"
      "start \<le> ls_lastFailureAt s"
    using assms(1) by (auto simp: counting_def)
  have fresh: "x < ls_lastFailureAt s + STATE_TTL_MS" using assms(3) s(4) by simp
  have stay: "counting scope n prev start x d" using counting_later assms(1,2) by blast
  have check: "limiter_check x d = (d, if ls_blockedUntil s \<le> x then limit_allowed else limit_denied (max 1 (ceil_seconds (ls_blockedUntil s - x))))"
    using s(1) fresh by (simp add: limiter_check_def readFreshState_def)
  have res: "reserveAttempt scope x d = (if ls_blockedUntil s \<le> x then updateFailureState scope True x d
      else (d, limit_denied (max 1 (ceil_seconds (ls_blockedUntil s - x)))))"
    by (simp add: reserveAttempt_def check)
  note count = counting_failure [OF assms(1-3)]
  show ?thesis
  proof (cases e)
    case Alarm_Due
    have "lim_alarm d = Some (ls_lastFailureAt s + STATE_TTL_MS)" using s(1,2) by (simp add: limiter_ok_def)
    then show ?thesis using stay fresh by (simp add: Alarm_Due)
  next
    case (Call rq)
    have scope: "request_scope rq = scope" "rq_path rq \<noteq> ''/success''" using assms(4,5) by (simp_all add: Call)
    consider "rq_method rq = ''POST''" "rq_path rq = ''/attempt''" | "rq_method rq = ''POST''" "rq_path rq = ''/failure''"
      | "\<not> (rq_method rq = ''POST'' \<and> rq_path rq = ''/attempt'')" "limiter_step x e d = d"
      using scope(2) check by (cases "rq_method rq = ''POST''"; cases "rq_path rq = ''/check''"; cases "rq_path rq = ''/failure''") (auto simp: Call limiter_fetch_def split: if_splits)
    then show ?thesis
    proof cases
      case 1
      then have step: "limiter_step x e d = fst (reserveAttempt scope x d)" by (simp add: Call limiter_fetch_def scope(1))
      have "attempt_granted x e d \<longleftrightarrow> ls_blockedUntil s \<le> x"
        using 1 attempt_granted_iff [of scope rq x d] scope(1) updateFailureState_granted by (simp add: Call res)
      then show ?thesis using count(2) s(3) stay unfolding step res by auto
    next
      case 2
      then show ?thesis using count(1) by (simp add: Call limiter_fetch_def recordFailure_def scope(1))
    next
      case 3
      then show ?thesis using stay by (cases "attempt_granted x e d") (auto simp: Call)
    qed
  qed
qed

lemma counting_spaced:
  assumes "counting scope n prev start now d" "sorted (now # map prod.fst h)"
    "list_all (\<lambda>(x, e). x < start + STATE_TTL_MS \<and> of_scope scope e \<and> no_success e) h"
  shows "spaced scope n prev (granted_times d h)"
  using assms
proof (induction h arbitrary: n prev now d)
  case (Cons a h)
  obtain x e where a: "a = (x, e)" by force
  have x: "now \<le> x" "x < start + STATE_TTL_MS" "of_scope scope e" "no_success e" "sorted (x # map prod.fst h)"
    using Cons.prems(2,3) by (auto simp: a)
  note step = counting_step [OF Cons.prems(1) x(1-4)]
  have rest: "list_all (\<lambda>(x, e). x < start + STATE_TTL_MS \<and> of_scope scope e \<and> no_success e) h" using Cons.prems(3) by simp
  show ?case
    using step Cons.IH [OF _ x(5) rest, of "n + 1" x "limiter_step x e d"] Cons.IH [OF _ x(5) rest, of n prev "limiter_step x e d"]
    by (auto simp: a split: if_splits)
qed simp

text \<open>The first attempt that is let through starts the count, whatever state it finds.\<close>

lemma counting_starts:
  assumes "limiter_ok scope d" "attempt_granted x e d" "of_scope scope e"
  shows "counting scope 1 x x x (limiter_step x e d)"
proof -
  obtain rq where rq: "e = Call rq" "rq_method rq = ''POST''" "rq_path rq = ''/attempt''" "request_scope rq = scope"
    using assms(2,3) by (cases e) auto
  have granted: "lim_allowed (snd (reserveAttempt scope x d))"
    using attempt_granted_iff [of scope rq x d] assms(2,3) rq by simp
  obtain c r where c: "limiter_check x d = (c, r)" by force
  have ok: "limiter_ok scope c" using limiter_check_ok [OF assms(1), of x] c by simp
  have "lim_allowed r" using granted c by (auto simp: reserveAttempt_def split: if_splits)
  then have step: "limiter_step x e d = fst (updateFailureState scope True x c)"
    using c rq by (simp add: limiter_fetch_def reserveAttempt_def)
  define f where "f = min ((case snd (readFreshState x c) of None \<Rightarrow> 0 | Some p \<Rightarrow> ls_failures p) + 1) 31"
  have "1 \<le> f" using ok by (auto simp: f_def readFreshState_def limiter_ok_def split: option.splits if_splits)
  moreover from this have "delay_seconds scope 1 \<le> delay_seconds scope f" by (rule delay_mono)
  moreover have "lim_stored (limiter_step x e d) = Some \<lparr>ls_failures = f, ls_blockedUntil = x + delay_seconds scope f * 1000, ls_lastFailureAt = x\<rparr>"
    by (simp add: step updateFailureState_def Let_def f_def split: prod.split)
  ultimately show ?thesis using limiter_step_ok [OF assms(1,3), of x] by (simp add: counting_def)
qed

definition keeps_delays :: "limit_scope \<Rightarrow> millis list \<Rightarrow> bool" where
  "keeps_delays scope g \<longleftrightarrow> (case g of [] \<Rightarrow> True | x # g' \<Rightarrow> spaced scope 1 x g')"

lemma granted_times_subset: "set (granted_times d h) \<subseteq> prod.fst ` set h"
  by (induction d h rule: granted_times.induct) auto

lemma window_delays:
  assumes "limiter_ok scope d" "sorted (map prod.fst h)"
    "list_all (\<lambda>(x, e). start \<le> x \<and> x < start + STATE_TTL_MS \<and> of_scope scope e \<and> no_success e) h"
  shows "keeps_delays scope (granted_times d h)"
  using assms
proof (induction h arbitrary: d)
  case (Cons a h)
  obtain x e where a: "a = (x, e)" by force
  have x: "start \<le> x" "of_scope scope e" using Cons.prems(3) by (auto simp: a)
  show ?case
  proof (cases "attempt_granted x e d")
    case True
    have "list_all (\<lambda>(y, e). y < x + STATE_TTL_MS \<and> of_scope scope e \<and> no_success e) h"
      using Cons.prems(3) x(1) by (auto simp: a list_all_iff)
    then have "spaced scope 1 x (granted_times (limiter_step x e d) h)"
      using Cons.prems(2) by (intro counting_spaced [OF counting_starts [OF Cons.prems(1) True x(2)]]) (simp_all add: a)
    then show ?thesis using True by (simp add: a keeps_delays_def)
  next
    case False
    then show ?thesis using Cons.IH [OF limiter_step_ok [OF Cons.prems(1) x(2), of x]] Cons.prems by (simp add: a)
  qed
qed (simp add: keeps_delays_def)

lemma spaced_length:
  assumes "spaced scope n prev g" "prev \<le> u" "\<forall>t \<in> set g. t \<le> u"
  shows "int (length g) \<le> max 0 (cap_count scope - n) + (u - prev) div (1000 * MAX_DELAY_SECONDS)"
  using assms
proof (induction g arbitrary: n prev)
  case Nil
  then show ?case by (simp add: MAX_DELAY_SECONDS_def pos_imp_zdiv_nonneg_iff)
next
  case (Cons t g)
  let ?c = "1000 * MAX_DELAY_SECONDS"
  have IH: "int (length g) \<le> max 0 (cap_count scope - (n + 1)) + (u - t) div ?c"
    using Cons by simp
  have later: "prev \<le> t" using Cons.prems(1) delay_bounds(1) [of scope "min n 31"] by simp
  show ?case
  proof (cases "cap_count scope \<le> n")
    case True
    have "prev + ?c \<le> t" using Cons.prems(1) by (simp add: delay_at_cap [OF True])
    then have "(u - t) div ?c \<le> (u - prev - ?c) div ?c"
      by (intro zdiv_mono1) (simp_all add: MAX_DELAY_SECONDS_def)
    also have "\<dots> = (u - prev) div ?c - 1" by (simp add: MAX_DELAY_SECONDS_def)
    finally show ?thesis using IH True by simp
  next
    case False
    have "(u - t) div ?c \<le> (u - prev) div ?c"
      using later by (intro zdiv_mono1) (simp_all add: MAX_DELAY_SECONDS_def)
    then show ?thesis using IH False by simp
  qed
qed

section \<open>Properties\<close>

text \<open>
  C15: Whatever a limiter was asked before, in any 24 hours without a successful login (which clears it) the attempts it lets
  through keep the exponential delays, counted from the first of them, and there are at most 111 of them for an address and
  126 for the account, however many attempts, checks, failures and alarms there are. (The requests of one limiter carry one
  scope, and the clock does not run backwards.)
\<close>

theorem limiter_guess_bound:
  assumes "sorted (map prod.fst window)" "list_all (\<lambda>(x, e). of_scope scope e) (before @ window)"
    "list_all (\<lambda>(x, e). start \<le> x \<and> x < start + STATE_TTL_MS \<and> no_success e) window"
    "g = granted_times (limiter_after before limiter_empty) window"
  shows "keeps_delays scope g \<and> length g \<le> (case scope of Ip_Scope \<Rightarrow> 111 | Account_Scope \<Rightarrow> 126)"
proof -
  have "limiter_ok scope limiter_empty" by (simp add: limiter_ok_def limiter_empty_def)
  then have ok: "limiter_ok scope (limiter_after before limiter_empty)" using assms(2) by (intro limiter_after_ok) auto
  have delays: "keeps_delays scope g"
    unfolding assms(4) by (rule window_delays [OF ok assms(1), of start]) (use assms(2,3) in \<open>auto simp: list_all_iff\<close>)
  have times: "\<forall>x \<in> set g. start \<le> x \<and> x < start + STATE_TTL_MS"
    using granted_times_subset [of "limiter_after before limiter_empty" window] assms(3) unfolding assms(4) by (fastforce simp: list_all_iff)
  show ?thesis
  proof (cases g)
    case (Cons x g')
    have "spaced scope 1 x g'" using delays Cons by (simp add: keeps_delays_def)
    moreover have "\<forall>y \<in> set g'. y \<le> x + STATE_TTL_MS" using times Cons by auto
    ultimately have "int (length g') \<le> max 0 (cap_count scope - 1) + (x + STATE_TTL_MS - x) div (1000 * MAX_DELAY_SECONDS)"
      by (intro spaced_length) (simp_all add: STATE_TTL_MS_def)
    then show ?thesis
      using delays Cons
      by (auto simp: cap_count_def failure_threshold_def IP_FAILURE_THRESHOLD_def ACCOUNT_FAILURE_THRESHOLD_def
          STATE_TTL_MS_def MAX_DELAY_SECONDS_def split: limit_scope.splits)
  qed (simp add: keeps_delays_def split: limit_scope.split)
qed

definition demo_call :: "string \<Rightarrow> limiter_event" where
  "demo_call path = Call \<lparr>rq_method = ''POST'', rq_path = path, rq_headers = [(''x-rate-limit-scope'', ''ip'')], rq_json = None\<rparr>"

text \<open>Two attempts and a success, then six attempts: the sixth comes too early.\<close>

lemma limiter_guess_bound_witness:
  "\<exists>g. g = granted_times (limiter_after [(0, demo_call ''/attempt''), (1, demo_call ''/attempt''), (2, demo_call ''/success'')] limiter_empty)
      (map (\<lambda>x. (x, demo_call ''/attempt'')) [3, 4, 5, 6, 7, 8]) \<and> g = [3, 4, 5, 6, 7] \<and> keeps_delays Ip_Scope g \<and> length g \<le> 111"
proof -
  let ?b = "[(0, demo_call ''/attempt''), (1, demo_call ''/attempt''), (2, demo_call ''/success'')]"
  let ?w = "map (\<lambda>x. (x, demo_call ''/attempt'')) [3, 4, 5, 6, 7, 8]"
  have "granted_times (limiter_after ?b limiter_empty) ?w = [3, 4, 5, 6, 7]" by code_simp
  moreover have "list_all (\<lambda>(x, e). of_scope Ip_Scope e) (?b @ ?w)" "list_all (\<lambda>(x, e). 3 \<le> x \<and> x < 3 + STATE_TTL_MS \<and> no_success e) ?w"
    by (simp_all add: demo_call_def request_scope_def header_def STATE_TTL_MS_def)
  ultimately show ?thesis using limiter_guess_bound [of ?w Ip_Scope ?b 3] by simp
qed

text \<open>
  in every consistent state of a limiter, a refused attempt changes nothing about the
  failures, hints a wait of 1 to 900 seconds, and the attempt is granted once that wait is over.
\<close>

theorem limiter_retry_hint:
  assumes "limiter_ok scope d" "\<forall>s. lim_stored d = Some s \<longrightarrow> ls_lastFailureAt s \<le> now"
    and "reserveAttempt scope now d = (e, r)" "\<not> lim_allowed r"
  shows "\<exists>w. lim_retryAfterSeconds r = Some w \<and> 1 \<le> w \<and> w \<le> 900 \<and> e = d
    \<and> lim_allowed (snd (reserveAttempt scope (now + 1000 * w) e))"
proof -
  obtain s where s: "lim_stored d = Some s" using assms(3,4) by (cases "lim_stored d") (auto simp: reserveAttempt_fresh)
  have fresh: "now < ls_lastFailureAt s + STATE_TTL_MS"
  proof (rule ccontr)
    assume "\<not> ?thesis"
    then have "lim_allowed (snd (reserveAttempt scope now d))"
      using s by (simp add: reserveAttempt_def limiter_check_def updateFailureState_def readFreshState_def Let_def)
    with assms(3,4) show False by simp
  qed
  have block: "now < ls_blockedUntil s" "e = d" "r = limit_denied (max 1 (ceil_seconds (ls_blockedUntil s - now)))"
    using reserveAttempt_live [OF s fresh, of scope] assms(3,4) by (auto simp: Let_def split: if_splits)
  define w where "w = max 1 (ceil_seconds (ls_blockedUntil s - now))"
  have bu: "ls_blockedUntil s = ls_lastFailureAt s + 1000 * delay_seconds scope (ls_failures s)"
    using assms(1) s by (simp add: limiter_ok_def)
  have "ls_blockedUntil s - now \<le> 900000"
    using bu assms(2) s delay_bounds(2) [of scope "ls_failures s"] by (auto simp: MAX_DELAY_SECONDS_def)
  then have w: "1 \<le> w" "w \<le> 900" "ls_blockedUntil s \<le> now + 1000 * w"
    unfolding w_def ceil_seconds_def using block(1) by linarith+
  have "lim_allowed (snd (reserveAttempt scope (now + 1000 * w) d))"
  proof (cases "now + 1000 * w < ls_lastFailureAt s + STATE_TTL_MS")
    case True
    show ?thesis using reserveAttempt_live [OF s True, of scope] w(3) by (simp add: Let_def)
  next
    case False
    then show ?thesis
      using s by (simp add: reserveAttempt_def limiter_check_def updateFailureState_def readFreshState_def Let_def)
  qed
  with w block show ?thesis by (auto simp: w_def)
qed

definition demo_blocked :: limiter_do where
  "demo_blocked = \<lparr>lim_stored = Some \<lparr>ls_failures = 6, ls_blockedUntil = 2000, ls_lastFailureAt = 0\<rparr>,
     lim_alarm = Some STATE_TTL_MS\<rparr>"

lemma limiter_retry_hint_witness:
  "\<exists>w. lim_retryAfterSeconds (snd (reserveAttempt Ip_Scope 500 demo_blocked)) = Some w \<and> 1 \<le> w \<and> w \<le> 900
    \<and> fst (reserveAttempt Ip_Scope 500 demo_blocked) = demo_blocked
    \<and> lim_allowed (snd (reserveAttempt Ip_Scope (500 + 1000 * w) (fst (reserveAttempt Ip_Scope 500 demo_blocked))))"
proof (rule limiter_retry_hint)
  show "limiter_ok Ip_Scope demo_blocked"
    by (simp add: limiter_ok_def demo_blocked_def delay_seconds_def failure_threshold_def IP_FAILURE_THRESHOLD_def
        MAX_DELAY_SECONDS_def)
  show "\<not> lim_allowed (snd (reserveAttempt Ip_Scope 500 demo_blocked))"
    by (simp add: reserveAttempt_live demo_blocked_def STATE_TTL_MS_def)
qed (simp_all add: demo_blocked_def)

text \<open>
  the gate before the password check. A login that is let through has been counted by both
  limiters; one that the address limiter refuses leaves the budget of the account as it was.
\<close>

theorem login_gate_counts:
  assumes "assertLoginAllowed t1 t2 l = (l', r)"
  shows "(case r of
      Inr _ \<Rightarrow> \<not> blocked_at (ip_limiter l) t1 \<and> \<not> blocked_at (account_limiter l) t2
        \<and> failures_at (ip_limiter l') t1 = min (failures_at (ip_limiter l) t1 + 1) 31
        \<and> failures_at (account_limiter l') t2 = min (failures_at (account_limiter l) t2 + 1) 31
    | Inl w \<Rightarrow> 1 \<le> w \<and> (blocked_at (ip_limiter l) t1 \<or> blocked_at (account_limiter l) t2)
        \<and> (blocked_at (ip_limiter l) t1 \<longrightarrow> account_limiter l' = account_limiter l))"
proof -
  obtain d ip where ip: "reserveAttempt Ip_Scope t1 (ip_limiter l) = (d, ip)" by force
  obtain e acct where acct: "reserveAttempt Account_Scope t2 (account_limiter l) = (e, acct)" by force
  note granted = reserveAttempt_granted [of Ip_Scope t1 "ip_limiter l", unfolded ip]
    reserveAttempt_granted [of Account_Scope t2 "account_limiter l", unfolded acct]
  note counts = reserveAttempt_counts [of Ip_Scope t1 "ip_limiter l", unfolded ip]
    reserveAttempt_counts [of Account_Scope t2 "account_limiter l", unfolded acct]
  have l': "(l', r) = (if \<not> lim_allowed ip then (l\<lparr>ip_limiter := d\<rparr>, Inl (max 1 (case lim_retryAfterSeconds ip of None \<Rightarrow> 1 | Some s \<Rightarrow> s)))
      else if lim_allowed acct then (l\<lparr>ip_limiter := d, account_limiter := e\<rparr>, Inr ())
      else (l\<lparr>ip_limiter := d, account_limiter := e\<rparr>, Inl (max 1 (case lim_retryAfterSeconds acct of None \<Rightarrow> 1 | Some s \<Rightarrow> s))))"
    using assms by (auto simp: assertLoginAllowed_def ip acct Let_def)
  show ?thesis using l' granted counts by (cases "lim_allowed ip"; cases "lim_allowed acct") simp_all
qed

lemma limiter_empty_at: "\<not> blocked_at limiter_empty t" "failures_at limiter_empty t = 0"
  by (simp_all add: blocked_at_def failures_at_def readFreshState_def limiter_empty_def)

lemma login_gate_counts_witness:
  "\<exists>l'. assertLoginAllowed 0 1 \<lparr>ip_limiter = limiter_empty, account_limiter = limiter_empty\<rparr> = (l', Inr ())
    \<and> failures_at (account_limiter l') 1 = 1"
proof -
  obtain l' r where e: "assertLoginAllowed 0 1 \<lparr>ip_limiter = limiter_empty, account_limiter = limiter_empty\<rparr> = (l', r)"
    by (metis surj_pair)
  from login_gate_counts [OF e] show ?thesis
    using e by (cases r) (auto simp: limiter_empty_at)
qed

end
