(* ===== verification/Network.thy ===== *)
theory Network
  imports Encoding
begin

unbundle bit_operations_syntax

text \<open>
  \<open>apps/worker/src/security/network.ts\<close> and the connect loop of
  \<open>apps/worker/src/ssh/cloudflare-transport.ts\<close>: the guard that keeps the Worker from opening
  SSH connections to private and reserved addresses. The parsers and the range tests come
  first, then host normalisation, resolution over an arbitrary DNS service, and the loop that
  dials the verified addresses. The lemmas relate the range tests to sets of CIDR blocks given
  by their bits and follow every dialled address back to that test.
\<close>

section \<open>Address parsers\<close>

definition is_octet_text :: "string \<Rightarrow> bool" where
  "is_octet_text s \<longleftrightarrow> s = ''0'' \<or>
     (1 \<le> length s \<and> length s \<le> 3 \<and> hd s \<noteq> CHR ''0'' \<and> list_all is_digit s)"

definition parseIpv4 :: "string \<Rightarrow> bytes option" where
  "parseIpv4 v =
     (let parts = split_on CHR ''.'' v in
      if length parts \<noteq> 4 \<or> \<not> list_all is_octet_text parts then None
      else let octets = map dec_val parts
        in if list_ex (\<lambda>n. n > 255) octets then None else Some (map byte octets))"

definition hex_digit_val :: "char \<Rightarrow> nat" where
  "hex_digit_val c = (if is_digit c then cu c - 48 else cu c - 97 + 10)"

definition hex_val :: "string \<Rightarrow> nat" where
  "hex_val s = foldl (\<lambda>n c. 16 * n + hex_digit_val c) 0 s"

definition hex_char :: "nat \<Rightarrow> char" where
  "hex_char n = (if n < 10 then char_of (48 + n) else char_of (87 + n))"

text \<open>\<open>n.toString(16)\<close>\<close>

fun show_hex :: "nat \<Rightarrow> string" where
  "show_hex n = (if n < 16 then [hex_char n] else show_hex (n div 16) @ [hex_char (n mod 16)])"

declare show_hex.simps [simp del]

text \<open>\<open>s.split("::")\<close>; the separators it finds are the matches of \<open>/::/g\<close>.\<close>

fun split_dcolon :: "string \<Rightarrow> string list" where
  "split_dcolon [] = [[]]"
| "split_dcolon [c] = [[c]]"
| "split_dcolon (c # d # s) =
     (if c = CHR '':'' \<and> d = CHR '':'' then [] # split_dcolon s
      else (case split_dcolon (d # s) of [] \<Rightarrow> [[c]] | w # ws \<Rightarrow> (c # w) # ws))"

text \<open>The text up to the last colon and the text after it.\<close>

definition split_last_colon :: "string \<Rightarrow> (string \<times> string) option" where
  "split_last_colon s =
     (if CHR '':'' \<notin> set s then None
      else Some (rev (tl (dropWhile (\<lambda>c. c \<noteq> CHR '':'') (rev s))), rev (takeWhile (\<lambda>c. c \<noteq> CHR '':'') (rev s))))"

definition strip_brackets :: "string \<Rightarrow> string" where
  "strip_brackets s = (if starts_with ''['' s \<and> ends_with '']'' s then butlast (tl s) else s)"

definition is_group_text :: "string \<Rightarrow> bool" where
  "is_group_text s \<longleftrightarrow> 1 \<le> length s \<and> length s \<le> 4 \<and> list_all is_hex_lower s"

definition groups_of :: "string \<Rightarrow> string list" where
  "groups_of s = (if s = [] then [] else split_on CHR '':'' s)"

text \<open>The loop that fills the result, and the second half of \<open>parseIpv6\<close>, on a text without an IPv4 tail.\<close>

definition groups_bytes :: "nat list \<Rightarrow> bytes" where
  "groups_bytes groups = concat (map (\<lambda>g. [byte (g div 256), byte (g mod 256)]) groups)"

definition parse_groups :: "string \<Rightarrow> bytes option" where
  "parse_groups input =
     (let parts = split_dcolon input in
      if length parts > 2 then None
      else
        let left = groups_of (parts ! 0);
            right = (if length parts = 2 then groups_of (parts ! 1) else []);
            hasCompression = (length parts = 2)
        in if list_ex (\<lambda>p. \<not> is_group_text p) (left @ right) then None
           else
             let missing = 8 - int (length left) - int (length right)
             in if (\<not> hasCompression \<and> missing \<noteq> 0) \<or> (hasCompression \<and> missing < 1) then None
                else
                  let groups = map hex_val (left @ replicate (nat missing) ''0'' @ right)
                  in if length groups \<noteq> 8 then None
                     else Some (groups_bytes groups))"

definition parseIpv6 :: "string \<Rightarrow> bytes option" where
  "parseIpv6 v =
     (let input = strip_brackets (lower v) in
      if input = [] \<or> CHR ''%'' \<in> set input
         \<or> \<not> list_all (\<lambda>c. is_hex_lower c \<or> c = CHR '':'' \<or> c = CHR ''.'') input then None
      else if CHR ''.'' \<in> set input then
        (case split_last_colon input of
           None \<Rightarrow> None
         | Some (front, back_text) \<Rightarrow>
             (case parseIpv4 back_text of
                None \<Rightarrow> None
              | Some t \<Rightarrow>
                  parse_groups (front @ '':'' @ show_hex (byte_at t 0 * 256 + byte_at t 1)
                                @ '':'' @ show_hex (byte_at t 2 * 256 + byte_at t 3))))
      else parse_groups input)"

section \<open>Reserved ranges\<close>

definition nth_opt :: "'a list \<Rightarrow> nat \<Rightarrow> 'a option" where
  "nth_opt xs i = (if i < length xs then Some (xs ! i) else None)"

definition prefix_mask :: "nat \<Rightarrow> nat" where
  "prefix_mask remaining = push_bit (8 - remaining) 255 AND 255"

definition nat_at :: "nat list \<Rightarrow> nat \<Rightarrow> nat" where
  "nat_at xs i = (if i < length xs then xs ! i else 0)"

text \<open>An index past the end of either side reads \<open>undefined\<close>, which equals only \<open>undefined\<close>.\<close>

definition hasPrefix :: "bytes \<Rightarrow> nat list \<Rightarrow> nat \<Rightarrow> bool" where
  "hasPrefix bs pre prefixBits =
     (let fullBytes = prefixBits div 8; remaining = prefixBits mod 8 in
      list_all (\<lambda>i. map_option unat (nth_opt bs i) = nth_opt pre i) [0..<fullBytes] \<and>
      (remaining = 0 \<or> byte_at bs fullBytes AND prefix_mask remaining = nat_at pre fullBytes AND prefix_mask remaining))"

definition isReservedIpv4 :: "bytes \<Rightarrow> bool" where
  "isReservedIpv4 bs =
     (let a = byte_at bs 0; b = byte_at bs 1; c = byte_at bs 2 in
      a = 0 \<or> a = 10 \<or> a = 127
      \<or> (a = 100 \<and> b \<ge> 64 \<and> b \<le> 127)
      \<or> (a = 169 \<and> b = 254)
      \<or> (a = 172 \<and> b \<ge> 16 \<and> b \<le> 31)
      \<or> (a = 192 \<and> b = 0 \<and> c = 0)
      \<or> (a = 192 \<and> b = 0 \<and> c = 2)
      \<or> (a = 192 \<and> b = 88 \<and> c = 99)
      \<or> (a = 192 \<and> b = 168)
      \<or> (a = 198 \<and> (b = 18 \<or> b = 19))
      \<or> (a = 198 \<and> b = 51 \<and> c = 100)
      \<or> (a = 203 \<and> b = 0 \<and> c = 113)
      \<or> a \<ge> 224)"

definition embeddedIpv4 :: "bytes \<Rightarrow> nat \<Rightarrow> bytes" where
  "embeddedIpv4 bs offset = take 4 (drop offset bs)"

definition isReservedIpv6 :: "bytes \<Rightarrow> bool" where
  "isReservedIpv6 bs =
     (if list_all (\<lambda>b. b = 0) bs then True
      else if list_all (\<lambda>b. b = 0) (take 15 bs) \<and> nth_opt bs 15 = Some 1 then True
      else if hasPrefix bs [0xfc] 7 \<or> hasPrefix bs [0xfe, 0x80] 10 \<or> hasPrefix bs [0xff] 8 then True
      else if hasPrefix bs [0x01, 0x00] 64 then True
      else if hasPrefix bs [0x20, 0x01, 0x0d, 0xb8] 32 then True
      else if hasPrefix bs [0x3f, 0xff] 20 \<or> hasPrefix bs [0x5f, 0x00] 16 then True
      else if hasPrefix bs [0, 0, 0, 0, 0, 0, 0, 0, 0, 0, 0xff, 0xff] 96 then isReservedIpv4 (embeddedIpv4 bs 12)
      else if hasPrefix bs [0x00, 0x64, 0xff, 0x9b, 0, 0, 0, 0, 0, 0, 0, 0] 96 then isReservedIpv4 (embeddedIpv4 bs 12)
      else if hasPrefix bs [0x20, 0x02] 16 then isReservedIpv4 (embeddedIpv4 bs 2)
      else False)"

section \<open>Hosts, ports and resolution\<close>

datatype target_error = Target_Error string string | Rejected

definition is_label :: "string \<Rightarrow> bool" where
  "is_label s \<longleftrightarrow> s \<noteq> [] \<and> length s \<le> 63 \<and> (is_lower (hd s) \<or> is_digit (hd s)) \<and>
     (is_lower (last s) \<or> is_digit (last s)) \<and> list_all (\<lambda>c. is_lower c \<or> is_digit c \<or> c = CHR ''-'') s"

definition host_forbidden :: "char \<Rightarrow> bool" where
  "host_forbidden c \<longleftrightarrow> is_ws c \<or> c = CHR ''/'' \<or> c = CHR ''@'' \<or> c = char_of (92 :: nat) \<or> c = CHR ''?'' \<or> c = CHR ''#''"

definition is_local_name :: "string \<Rightarrow> bool" where
  "is_local_name v \<longleftrightarrow>
     v = ''localhost'' \<or> ends_with ''.localhost'' v \<or> ends_with ''.local'' v \<or> ends_with ''.internal'' v"

definition normalizeHost :: "string \<Rightarrow> target_error + string" where
  "normalizeHost host =
     (let v = strip_brackets (lower (trim host));
          v = (if ends_with ''.'' v then butlast v else v)
      in if v = [] \<or> length v > 253 \<or> list_ex host_forbidden v
         then Inl (Target_Error ''INVALID_HOST'' ''SSH target host is invalid'')
         else if parseIpv4 v \<noteq> None \<or> parseIpv6 v \<noteq> None then Inr v
         else if is_local_name v
         then Inl (Target_Error ''PRIVATE_TARGET'' ''Private and reserved SSH targets are disabled'')
         else if list_ex (\<lambda>l. \<not> is_label l) (split_on CHR ''.'' v)
         then Inl (Target_Error ''INVALID_HOST'' ''SSH target host is invalid'')
         else Inr v)"

definition isPrivateOrReservedAddress :: "string \<Rightarrow> bool" where
  "isPrivateOrReservedAddress host =
     (case normalizeHost host of
        Inl _ \<Rightarrow> True
      | Inr v \<Rightarrow>
          (case parseIpv4 v of
             Some b \<Rightarrow> isReservedIpv4 b
           | None \<Rightarrow>
               (case parseIpv6 v of
                  Some b \<Rightarrow> isReservedIpv6 b
                | None \<Rightarrow> is_local_name v \<or> v = ''metadata.google.internal'')))"

definition PROHIBITED_SSH_PORTS :: "rat list" where
  "PROHIBITED_SSH_PORTS = [25]"

definition assertAllowedSshPort :: "rat \<Rightarrow> rat list option \<Rightarrow> target_error + unit" where
  "assertAllowedSshPort port allowedPorts =
     (if \<not> is_safe_integer port \<or> port < 1 \<or> port > 65535
      then Inl (Target_Error ''INVALID_PORT'' ''SSH target port is invalid'')
      else if port \<in> set PROHIBITED_SSH_PORTS \<or> (case allowedPorts of None \<Rightarrow> False | Some ps \<Rightarrow> port \<notin> set ps)
      then Inl (Target_Error ''PROHIBITED_PORT'' ''SSH target port is not allowed'')
      else Inr ())"

text \<open>
  The DNS-over-HTTPS service is a parameter: for a name and a record type, the response, or
  \<open>None\<close> where \<open>fetch\<close> rejects. Nothing is assumed of it.
\<close>

record dns_response =
  dns_ok :: bool
  dns_content_type :: "string option"
  dns_json :: "json option"

type_synonym dns = "string \<Rightarrow> string \<Rightarrow> dns_response option"

definition dns_failed :: target_error where
  "dns_failed = Target_Error ''DNS_FAILED'' ''Unable to verify the SSH target DNS records''"

definition candidate_address :: "json \<Rightarrow> target_error + string option" where
  "candidate_address answer =
     (case js_get answer ''type'' of
        Inl _ \<Rightarrow> Inl Rejected
      | Inr t \<Rightarrow>
          if t \<noteq> Some (JNum 1) \<and> t \<noteq> Some (JNum 28) then Inr None
          else (case js_get answer ''data'' of
              Inr (Some (JStr d)) \<Rightarrow>
                let candidate = lower d
                in if (t = Some (JNum 1) \<and> parseIpv4 candidate \<noteq> None) \<or> (t = Some (JNum 28) \<and> parseIpv6 candidate \<noteq> None)
                   then Inr (Some candidate) else Inr None
            | _ \<Rightarrow> Inr None))"

fun collect_addresses :: "json list \<Rightarrow> target_error + string list" where
  "collect_addresses [] = Inr []"
| "collect_addresses (a # as) =
     try_bind (candidate_address a) (\<lambda>c. try_bind (collect_addresses as)
       (\<lambda>cs. Inr (case c of None \<Rightarrow> cs | Some x \<Rightarrow> x # cs)))"

text \<open>
  \<open>result.Answer ?? []\<close>: an array, or nothing to iterate over. A string iterates over characters,
  which have no \<open>type\<close>; any other value is not iterable and throws.
\<close>

definition answers_of :: "json option \<Rightarrow> target_error + json list" where
  "answers_of v =
     (case v of
        None \<Rightarrow> Inr [] | Some JNull \<Rightarrow> Inr []
      | Some (JArr xs) \<Rightarrow>
          if length xs > 64 then Inl (Target_Error ''DNS_LIMIT'' ''SSH target DNS response has too many records'') else Inr xs
      | Some (JStr s) \<Rightarrow>
          if length s > 64 then Inl (Target_Error ''DNS_LIMIT'' ''SSH target DNS response has too many records'') else Inr []
      | Some _ \<Rightarrow> Inl Rejected)"

definition response_addresses :: "dns_response \<Rightarrow> target_error + string list" where
  "response_addresses r =
     (if \<not> dns_ok r \<or> (case dns_content_type r of None \<Rightarrow> True | Some t \<Rightarrow> \<not> starts_with ''application/dns-json'' (lower t))
      then Inl dns_failed
      else case dns_json r of
        None \<Rightarrow> Inl Rejected
      | Some j \<Rightarrow>
          (case js_get j ''Status'' of
             Inl _ \<Rightarrow> Inl Rejected
           | Inr st \<Rightarrow>
               if st \<noteq> Some (JNum 0) \<and> st \<noteq> Some (JNum 3) then Inl dns_failed
               else (case js_get j ''Answer'' of
                   Inl _ \<Rightarrow> Inl Rejected
                 | Inr ans \<Rightarrow> try_bind (answers_of ans) collect_addresses)))"

text \<open>\<open>[...new Set(xs)]\<close>\<close>

fun uniq :: "'a list \<Rightarrow> 'a list" where
  "uniq [] = []"
| "uniq (x # xs) = x # uniq (filter (\<lambda>y. y \<noteq> x) xs)"

definition resolvePublicAddresses :: "dns \<Rightarrow> string \<Rightarrow> target_error + string list" where
  "resolvePublicAddresses dns host =
     try_bind (normalizeHost host) (\<lambda>normalized.
       if isPrivateOrReservedAddress normalized
       then Inl (Target_Error ''PRIVATE_TARGET'' ''Private and reserved SSH targets are disabled'')
       else if parseIpv4 normalized \<noteq> None \<or> parseIpv6 normalized \<noteq> None then Inr [normalized]
       else case (dns normalized ''A'', dns normalized ''AAAA'') of
         (Some ra, Some raaaa) \<Rightarrow>
           try_bind (response_addresses ra) (\<lambda>xs. try_bind (response_addresses raaaa) (\<lambda>ys.
             let unique = uniq (xs @ ys) in
             if unique = [] then Inl (Target_Error ''DNS_EMPTY'' ''SSH target did not resolve to an address'')
             else if length unique > 16
             then Inl (Target_Error ''DNS_LIMIT'' ''SSH target resolves to too many addresses'')
             else if list_ex isPrivateOrReservedAddress unique
             then Inl (Target_Error ''PRIVATE_TARGET'' ''SSH target DNS resolves to a private or reserved address'')
             else Inr unique))
       | _ \<Rightarrow> Inl Rejected)"

record public_target =
  pt_host :: string
  pt_port :: rat
  pt_addresses :: "string list"

definition assertPublicTarget :: "dns \<Rightarrow> string \<Rightarrow> rat \<Rightarrow> rat list option \<Rightarrow> target_error + public_target" where
  "assertPublicTarget dns host port allowedPorts =
     try_bind (assertAllowedSshPort port allowedPorts) (\<lambda>_.
     try_bind (normalizeHost host) (\<lambda>normalized.
     try_bind (resolvePublicAddresses dns normalized) (\<lambda>addresses.
       Inr \<lparr>pt_host = normalized, pt_port = port, pt_addresses = addresses\<rparr>)))"

definition toSocketHostname :: "string \<Rightarrow> string" where
  "toSocketHostname address =
     (if str_includes '':'' address \<and> \<not> starts_with ''['' address then ''['' @ address @ '']'' else address)"

section \<open>The connect loop\<close>

text \<open>
  \<open>dial hostname port now remaining\<close> is the platform's \<open>connect\<close> raced against the timer: the
  time when it settles and the error or the socket. The loop returns what it dialled, in order,
  with the time of each dial.
\<close>

type_synonym 'k dialler = "string \<Rightarrow> rat \<Rightarrow> millis \<Rightarrow> int \<Rightarrow> millis \<times> (string + 'k)"

fun dial_loop :: "'k dialler \<Rightarrow> rat \<Rightarrow> millis \<Rightarrow> string list \<Rightarrow> millis \<Rightarrow> string \<Rightarrow> (string \<times> millis) list \<times> (string + 'k)" where
  "dial_loop dial port deadline [] now lastError = ([], Inl lastError)"
| "dial_loop dial port deadline (address # rest) now lastError =
     (let remainingMs = deadline - now in
      if remainingMs \<le> 0 then ([], Inl lastError)
      else case dial (toSocketHostname address) port now remainingMs of
        (later, Inr socket) \<Rightarrow> ([(toSocketHostname address, now)], Inr socket)
      | (later, Inl e) \<Rightarrow>
          (case dial_loop dial port deadline rest later e of (trace, r) \<Rightarrow> ((toSocketHostname address, now) # trace, r)))"

definition transport_connect ::
    "dns \<Rightarrow> 'k dialler \<Rightarrow> rat list option \<Rightarrow> string \<Rightarrow> rat \<Rightarrow> int \<Rightarrow> millis
      \<Rightarrow> (string \<times> millis) list \<times> ((target_error + string) + 'k)" where
  "transport_connect dns dial allowedPorts host port timeoutMs now =
     (case assertPublicTarget dns host port allowedPorts of
        Inl e \<Rightarrow> ([], Inl (Inl e))
      | Inr target \<Rightarrow>
          (case dial_loop dial port (now + timeoutMs) (pt_addresses target) now ''No verified SSH address is available'' of
             (trace, Inl e) \<Rightarrow> (trace, Inl (Inr e))
           | (trace, Inr socket) \<Rightarrow> (trace, Inr socket)))"


section \<open>Prefixes as bits\<close>

text \<open>The bits of an address, most significant first, and what it means to lie in a CIDR block.\<close>

definition octet_bits :: "nat \<Rightarrow> bool list" where
  "octet_bits x = map (\<lambda>i. bit x (7 - i)) [0..<8]"

definition addr_bits :: "bytes \<Rightarrow> bool list" where
  "addr_bits bs = concat (map (octet_bits \<circ> unat) bs)"

definition in_block :: "bytes \<Rightarrow> nat list \<times> nat \<Rightarrow> bool" where
  "in_block bs blk \<longleftrightarrow> take (snd blk) (addr_bits bs) = take (snd blk) (concat (map octet_bits (fst blk)))"

lemma length_octet_bits [simp]: "length (octet_bits x) = 8"
  by (simp add: octet_bits_def)

lemma bit_small: "x < 256 \<Longrightarrow> 8 \<le> i \<Longrightarrow> \<not> bit (x :: nat) i"
proof -
  assume "x < 256" "8 \<le> i"
  then have "x < 2 ^ i" using power_increasing [of 8 i "2 :: nat"] by simp
  then show ?thesis by (simp add: bit_iff_odd)
qed

text \<open>Equal leading bits of an octet, equal after masking, equal quotients: all the same.\<close>

lemma take_octet_bits_iff:
  assumes "r \<le> 8"
  shows "take r (octet_bits x) = take r (octet_bits y) \<longleftrightarrow> (\<forall>j. 8 - r \<le> j \<and> j < 8 \<longrightarrow> bit x j = bit y j)"
proof -
  have "take r (octet_bits x) = take r (octet_bits y) \<longleftrightarrow> (\<forall>i < r. bit x (7 - i) = bit y (7 - i))"
    using assms by (auto simp: octet_bits_def take_map list_eq_iff_nth_eq)
  also have "\<dots> \<longleftrightarrow> (\<forall>j. 8 - r \<le> j \<and> j < 8 \<longrightarrow> bit x j = bit y j)"
  proof
    assume h: "\<forall>i < r. bit x (7 - i) = bit y (7 - i)"
    show "\<forall>j. 8 - r \<le> j \<and> j < 8 \<longrightarrow> bit x j = bit y j"
    proof (intro allI impI)
      fix j assume "8 - r \<le> j \<and> j < 8"
      then have "7 - j < r" "7 - (7 - j) = j" using assms by auto
      with h show "bit x j = bit y j" by metis
    qed
  next
    assume h: "\<forall>j. 8 - r \<le> j \<and> j < 8 \<longrightarrow> bit x j = bit y j"
    show "\<forall>i < r. bit x (7 - i) = bit y (7 - i)"
      using assms by (intro allI impI h [rule_format]) auto
  qed
  finally show ?thesis .
qed

lemma bit_prefix_mask: "bit (prefix_mask r) j \<longleftrightarrow> 8 - r \<le> j \<and> j < 8"
proof -
  have m: "(255 :: nat) = mask 8" by (simp add: mask_eq_exp_minus_1)
  show ?thesis
    unfolding prefix_mask_def m by (auto simp: bit_and_iff bit_push_bit_iff bit_mask_iff)
qed

lemma masked_eq_iff:
  "x AND prefix_mask r = y AND prefix_mask r \<longleftrightarrow> (\<forall>j. 8 - r \<le> j \<and> j < 8 \<longrightarrow> bit x j = bit y j)"
  by (auto simp: bit_eq_iff bit_and_iff bit_prefix_mask)

lemma masked_eq_div:
  assumes "x < 256" "y < 256"
  shows "x AND prefix_mask r = y AND prefix_mask r \<longleftrightarrow> x div 2 ^ (8 - r) = y div 2 ^ (8 - r)"
proof -
  have "x div 2 ^ (8 - r) = y div 2 ^ (8 - r) \<longleftrightarrow> (\<forall>i. bit x (8 - r + i) = bit y (8 - r + i))"
    unfolding drop_bit_eq_div [symmetric] by (simp add: bit_eq_iff bit_drop_bit_eq)
  also have "\<dots> \<longleftrightarrow> (\<forall>j. 8 - r \<le> j \<longrightarrow> bit x j = bit y j)"
    by (metis le_add1 le_add_diff_inverse)
  also have "\<dots> \<longleftrightarrow> (\<forall>j. 8 - r \<le> j \<and> j < 8 \<longrightarrow> bit x j = bit y j)"
    using bit_small assms by (metis not_le)
  finally show ?thesis by (simp add: masked_eq_iff)
qed

lemma octet_bits_inject: "x < 256 \<Longrightarrow> y < 256 \<Longrightarrow> octet_bits x = octet_bits y \<longleftrightarrow> x = y"
  using take_octet_bits_iff [of 8 x y] by (auto simp: bit_eq_iff) (metis bit_small not_le)+

lemma hasPrefix_Cons:
  "hasPrefix (b # bs) (p # pre) (8 + n) \<longleftrightarrow> unat b = p \<and> hasPrefix bs pre n"
proof -
  have d: "(8 + n) div 8 = Suc (n div 8)" "(8 + n) mod 8 = n mod 8" by simp_all
  have "list_all (\<lambda>i. map_option unat (nth_opt (b # bs) i) = nth_opt (p # pre) i) [0..<Suc (n div 8)] \<longleftrightarrow>
      unat b = p \<and> list_all (\<lambda>i. map_option unat (nth_opt bs i) = nth_opt pre i) [0..<n div 8]"
    by (simp add: upt_conv_Cons map_Suc_upt [symmetric] list.pred_map comp_def nth_opt_def del: upt_Suc)
  moreover have "byte_at (b # bs) (Suc k) = byte_at bs k" "nat_at (p # pre) (Suc k) = nat_at pre k" for k
    by (simp_all add: byte_at_def nat_at_def)
  ultimately show ?thesis by (auto simp: hasPrefix_def Let_def d)
qed

lemma hasPrefix_iff:
  assumes "n \<le> 8 * length pre" "n \<le> 8 * length bs" "\<forall>p \<in> set pre. p < 256"
  shows "hasPrefix bs pre n \<longleftrightarrow> in_block bs (pre, n)"
  using assms
proof (induction pre arbitrary: bs n)
  case Nil
  then show ?case by (simp add: hasPrefix_def in_block_def)
next
  case (Cons p pre)
  show ?case
  proof (cases bs)
    case Nil
    with Cons.prems show ?thesis by (simp add: hasPrefix_def in_block_def)
  next
    case bs: (Cons b bs')
    show ?thesis
    proof (cases "n < 8")
      case True
      then show ?thesis
        using take_octet_bits_iff [of n "unat b" p]
        by (auto simp: hasPrefix_def Let_def bs byte_at_def nat_at_def masked_eq_iff in_block_def addr_bits_def)
    next
      case False
      then obtain m where n: "n = 8 + m" using le_Suc_ex not_less by blast
      have "hasPrefix bs (p # pre) n \<longleftrightarrow> unat b = p \<and> in_block bs' (pre, m)"
        using Cons.IH [of m bs'] Cons.prems by (simp add: bs n hasPrefix_Cons)
      then show ?thesis
        using Cons.prems octet_bits_inject [of "unat b" p] by (simp add: bs n in_block_def addr_bits_def)
    qed
  qed
qed


section \<open>The reserved ranges as CIDR blocks\<close>

definition reserved_v4_blocks :: "(nat list \<times> nat) list" where
  "reserved_v4_blocks =
     [([0], 8), ([10], 8), ([127], 8), ([100, 64], 10), ([169, 254], 16), ([172, 16], 12), ([192, 0, 0], 24),
      ([192, 0, 2], 24), ([192, 88, 99], 24), ([192, 168], 16), ([198, 18], 15), ([198, 51, 100], 24),
      ([203, 0, 113], 24), ([224], 3)]"

definition reserved_v6_blocks :: "(nat list \<times> nat) list" where
  "reserved_v6_blocks =
     [(replicate 16 0, 128), (replicate 15 0 @ [1], 128), ([0xfc], 7), ([0xfe, 0x80], 10), ([0xff], 8),
      ([0x20, 0x01, 0x0d, 0xb8], 32), ([0x3f, 0xff, 0], 20), ([0x5f, 0x00], 16)]"

text \<open>The blocks whose addresses carry an IPv4 address, with its offset.\<close>

definition embedding_blocks :: "((nat list \<times> nat) \<times> nat) list" where
  "embedding_blocks =
     [(([0, 0, 0, 0, 0, 0, 0, 0, 0, 0, 0xff, 0xff], 96), 12), (([0x00, 0x64, 0xff, 0x9b, 0, 0, 0, 0, 0, 0, 0, 0], 96), 12),
      (([0x20, 0x02], 16), 2)]"

lemma list_of_4: "length bs = 4 \<Longrightarrow> \<exists>a b c d. bs = [a, b, c, d]"
  by (auto simp: eval_nat_numeral length_Suc_conv)

lemma masked_const:
  "y < 256 \<Longrightarrow> unat (b :: 8 word) AND prefix_mask r = y AND prefix_mask r \<longleftrightarrow> unat b div 2 ^ (8 - r) = y div 2 ^ (8 - r)"
  by (rule masked_eq_div) simp_all

lemma isReservedIpv4_iff:
  assumes "length bs = 4"
  shows "isReservedIpv4 bs \<longleftrightarrow> (\<exists>blk \<in> set reserved_v4_blocks. in_block bs blk)"
proof -
  obtain a b c d where bs: "bs = [a, b, c, d]" using list_of_4 [OF assms] by blast
  have blocks: "in_block bs (pre, n) \<longleftrightarrow> hasPrefix bs pre n"
    if "n \<le> 8 * length pre" "n \<le> 32" "\<forall>p \<in> set pre. p < 256" for pre n
    using hasPrefix_iff [of n pre bs] that assms by simp
  have div: "unat b div 64 = Suc 0 \<longleftrightarrow> 64 \<le> unat b \<and> unat b \<le> 127" "unat b div 16 = Suc 0 \<longleftrightarrow> 16 \<le> unat b \<and> unat b \<le> 31"
    "unat b div 2 = 9 \<longleftrightarrow> unat b = 18 \<or> unat b = 19" "unat a div 32 = 7 \<longleftrightarrow> 224 \<le> unat a"
    using unat8_less [of a] by linarith+
  show ?thesis
    unfolding reserved_v4_blocks_def
    by (simp add: blocks [unfolded bs] isReservedIpv4_def bs hasPrefix_def Let_def byte_at_def nat_at_def nth_opt_def
        upt_rec masked_const div)
qed


lemma hasPrefix_nth: "hasPrefix bs pre n \<Longrightarrow> i < n div 8 \<Longrightarrow> map_option unat (nth_opt bs i) = nth_opt pre i"
  by (simp add: hasPrefix_def Let_def list_all_iff)

lemma hasPrefix_full:
  assumes "length bs = length pre"
  shows "hasPrefix bs pre (8 * length pre) \<longleftrightarrow> map unat bs = pre"
proof -
  have "hasPrefix bs pre (8 * length pre) \<longleftrightarrow> (\<forall>i < length pre. unat (bs ! i) = pre ! i)"
    using assms by (auto simp: hasPrefix_def list_all_iff nth_opt_def)
  also have "\<dots> \<longleftrightarrow> map unat bs = pre"
    by (subst list_eq_iff_nth_eq) (use assms in auto)
  finally show ?thesis .
qed

text \<open>
  The test for the discard-only prefix reads six bytes past the end of its two-byte constant,
  so it never holds.
\<close>

lemma discard_prefix_never: "length bs = 16 \<Longrightarrow> \<not> hasPrefix bs [0x01, 0x00] 64"
  using hasPrefix_nth [of bs "[1, 0]" 64 2] by (auto simp: nth_opt_def)

lemma unat_eq_Suc_0: "unat (b :: 8 word) = Suc 0 \<longleftrightarrow> b = 1"
  by (metis One_nat_def unsigned_1 word_unat_eq_iff)

lemma zero_or_loopback:
  assumes "length bs = 16"
  shows "list_all (\<lambda>b. b = 0) bs \<longleftrightarrow> in_block bs (replicate 16 0, 128)"
    and "list_all (\<lambda>b. b = 0) (take 15 bs) \<and> nth_opt bs 15 = Some 1 \<longleftrightarrow> in_block bs (replicate 15 0 @ [1], 128)"
proof -
  have m: "in_block bs (pre, 128) \<longleftrightarrow> map unat bs = pre" if "length pre = 16" "\<forall>p \<in> set pre. p < 256" for pre
    using hasPrefix_full [of bs pre] hasPrefix_iff [of 128 pre bs] assms that by simp
  have "map unat bs = replicate 16 0 \<longleftrightarrow> list_all (\<lambda>b. b = 0) bs"
    using assms by (auto simp: list_eq_iff_nth_eq list_all_length unsigned_eq_0_iff)
  then show "list_all (\<lambda>b. b = 0) bs \<longleftrightarrow> in_block bs (replicate 16 0, 128)"
    using m [of "replicate 16 0"] by simp
  have "drop 16 bs = []" using assms by simp
  then have split: "bs = take 15 bs @ [bs ! 15]"
    using id_take_nth_drop [of 15 bs] assms by simp
  have "map unat bs = replicate 15 0 @ [1] \<longleftrightarrow> map unat (take 15 bs) = replicate 15 0 \<and> unat (bs ! 15) = 1"
    by (subst split) simp
  also have "\<dots> \<longleftrightarrow> list_all (\<lambda>b. b = 0) (take 15 bs) \<and> nth_opt bs 15 = Some 1"
    using assms
    by (auto simp: list_eq_iff_nth_eq list_all_length unsigned_eq_0_iff nth_opt_def unat_eq_Suc_0)
  finally show "list_all (\<lambda>b. b = 0) (take 15 bs) \<and> nth_opt bs 15 = Some 1 \<longleftrightarrow> in_block bs (replicate 15 0 @ [1], 128)"
    using m [of "replicate 15 0 @ [1]"] by simp
qed

lemma isReservedIpv6_iff:
  assumes "length bs = 16"
  shows "isReservedIpv6 bs \<longleftrightarrow> (\<exists>blk \<in> set reserved_v6_blocks. in_block bs blk) \<or>
    (\<exists>(blk, off) \<in> set embedding_blocks. in_block bs blk \<and> isReservedIpv4 (embeddedIpv4 bs off))"
proof -
  have blocks: "hasPrefix bs pre n \<longleftrightarrow> in_block bs (pre, n)"
    if "n \<le> 8 * length pre" "n \<le> 128" "\<forall>p \<in> set pre. p < 256" for pre n
    using hasPrefix_iff [of n pre bs] that assms by simp
  have doc: "hasPrefix bs [0x3f, 0xff] 20 \<longleftrightarrow> hasPrefix bs [0x3f, 0xff, 0] 20"
    by (simp add: hasPrefix_def nat_at_def nth_opt_def upt_rec)
  note at = hasPrefix_nth [of bs "[0, 0, 0, 0, 0, 0, 0, 0, 0, 0, 0xff, 0xff]" 96]
    hasPrefix_nth [of bs "[0x00, 0x64, 0xff, 0x9b, 0, 0, 0, 0, 0, 0, 0, 0]" 96] hasPrefix_nth [of bs "[0x20, 0x02]" 16]
  have "\<not> (hasPrefix bs [0, 0, 0, 0, 0, 0, 0, 0, 0, 0, 0xff, 0xff] 96 \<and> hasPrefix bs [0x00, 0x64, 0xff, 0x9b, 0, 0, 0, 0, 0, 0, 0, 0] 96)"
    "\<not> (hasPrefix bs [0, 0, 0, 0, 0, 0, 0, 0, 0, 0, 0xff, 0xff] 96 \<and> hasPrefix bs [0x20, 0x02] 16)"
    "\<not> (hasPrefix bs [0x00, 0x64, 0xff, 0x9b, 0, 0, 0, 0, 0, 0, 0, 0] 96 \<and> hasPrefix bs [0x20, 0x02] 16)"
    using at(1) [of 1] at(2) [of 1] at(1) [of 0] at(2) [of 0] at(3) [of 0] by (auto simp: nth_opt_def)
  then show ?thesis
    unfolding isReservedIpv6_def reserved_v6_blocks_def embedding_blocks_def
    by (simp add: zero_or_loopback [OF assms] discard_prefix_never [OF assms, simplified] doc blocks)
qed


section \<open>IPv4 texts are canonical\<close>

definition show_ipv4 :: "bytes \<Rightarrow> string" where
  "show_ipv4 bs = join_with ''.'' (map (show_nat \<circ> unat) bs)"

lemma octet_text_show: "n < 1000 \<Longrightarrow> is_octet_text (show_nat n)"
proof (cases "n = 0")
  case True
  then show ?thesis by (simp add: is_octet_text_def show_nat_digit) (simp add: char_eq_iff_cu del: cu_inject)
next
  case False
  assume "n < 1000"
  then have "length (show_nat n) \<le> 3" using length_show_nat [of n 3] by simp
  moreover have "1 \<le> length (show_nat n)" by (simp add: Suc_le_eq)
  ultimately show ?thesis using False hd_show_nat [of n] by (simp add: is_octet_text_def show_nat_digits)
qed

lemma octet_text_canonical: "is_octet_text s \<Longrightarrow> show_nat (dec_val s) = s"
  by (rule show_nat_dec_val) (auto simp: is_octet_text_def is_digit_def in_range_def)

lemma show_nat_no_dot: "CHR ''.'' \<notin> set (show_nat n)"
  using show_nat_digits [of n] by (auto simp: list_all_iff is_digit_def in_range_def)

text \<open>An IPv4 address has one spelling only: no leading zeros, no octal, no short forms.\<close>

lemma parseIpv4_iff: "parseIpv4 v = Some bs \<longleftrightarrow> length bs = 4 \<and> v = show_ipv4 bs"
proof
  assume h: "parseIpv4 v = Some bs"
  let ?p = "split_on CHR ''.'' v"
  have p: "length ?p = 4" "list_all is_octet_text ?p" "\<forall>n \<in> set (map dec_val ?p). n \<le> 255" "bs = map byte (map dec_val ?p)"
    using h by (auto simp: parseIpv4_def Let_def list_ex_iff not_less split: if_splits)
  have "map (show_nat \<circ> unat) bs = map (show_nat \<circ> dec_val) ?p"
    using p(3) unfolding p(4) by (auto simp: le_imp_less_Suc)
  also have "\<dots> = ?p" using p(2) by (intro map_idI) (simp add: list_all_iff octet_text_canonical)
  finally show "length bs = 4 \<and> v = show_ipv4 bs"
    using p(1,4) join_split_on [of "CHR ''.''" v] by (simp add: show_ipv4_def)
next
  assume h: "length bs = 4 \<and> v = show_ipv4 bs"
  then have s: "split_on CHR ''.'' v = map (show_nat \<circ> unat) bs"
    unfolding show_ipv4_def by (auto intro!: split_join_on simp: show_nat_no_dot)
  have "is_octet_text (show_nat (unat b))" for b :: "8 word"
    using unat8_less [of b] by (intro octet_text_show) linarith
  moreover have "\<not> unat b > 255" for b :: "8 word" using unat8_less [of b] by linarith
  ultimately show "parseIpv4 v = Some bs"
    using conjunct1 [OF h] by (simp add: parseIpv4_def s list_all_iff list_ex_iff o_def)
qed

section \<open>From candidates to addresses\<close>

lemma parseIpv4_chars:
  assumes "parseIpv4 v = Some bs"
  shows "CHR ''.'' \<in> set v" "\<forall>c \<in> set v. is_digit c \<or> c = CHR ''.''"
proof -
  from assms have l: "length bs = 4" and v: "v = show_ipv4 bs" by (simp_all add: parseIpv4_iff)
  obtain a b c d where bs: "bs = [a, b, c, d]" using list_of_4 [OF l] by blast
  show "CHR ''.'' \<in> set v" by (simp add: v show_ipv4_def bs)
  show "\<forall>c \<in> set v. is_digit c \<or> c = CHR ''.''"
    using show_nat_digits by (auto simp: v show_ipv4_def bs list_all_iff)
qed

lemma not_digit [simp]:
  "\<not> is_digit CHR '':''" "\<not> is_digit CHR ''.''" "\<not> is_digit CHR ''[''" "\<not> is_hex_lower CHR ''[''" "\<not> is_digit CHR '']''"
  "\<not> is_hex_lower CHR '']''" "\<not> is_hex_lower CHR '':''" "\<not> is_hex_lower CHR ''.''"
  by (simp_all add: is_digit_def is_hex_lower_def in_range_def)

lemma lower_char_id: "is_digit c \<or> is_hex_lower c \<or> c = CHR ''.'' \<or> c = CHR '':'' \<or> c = CHR ''['' \<or> c = CHR '']'' \<Longrightarrow> lower_char c = c"
  by (auto simp: lower_char_def is_upper_def is_digit_def is_hex_lower_def in_range_def)

lemma lower_char_idem: "lower_char (lower_char c) = lower_char c"
  using cu_less [of c] by (auto simp: lower_char_def is_upper_def in_range_def)

lemma lower_idem [simp]: "lower (lower s) = lower s"
  by (simp add: lower_def lower_char_idem)

lemma is_ws_not: "is_digit c \<or> is_hex_lower c \<or> c = CHR ''.'' \<or> c = CHR '':'' \<or> c = CHR ''['' \<or> c = CHR '']'' \<Longrightarrow> \<not> is_ws c"
  by (auto simp: is_ws_def is_digit_def is_hex_lower_def in_range_def)

lemma trim_id: "\<forall>c \<in> set s. \<not> is_ws c \<Longrightarrow> trim s = s"
proof -
  assume h: "\<forall>c \<in> set s. \<not> is_ws c"
  then have "dropWhile is_ws s = s" by (cases s) auto
  moreover have "dropWhile is_ws (rev s) = rev s" using h by (cases "rev s") (auto dest: arg_cong [of _ _ set])
  ultimately show ?thesis by (simp add: trim_def)
qed

lemma parseIpv4_no_final_dot: "parseIpv4 (t @ ''.'') = None"
proof -
  have "split_on CHR ''.'' (t @ ''.'') = split_on CHR ''.'' t @ [[]]"
    by (induction t) (auto split: list.splits)
  then have "[] \<in> set (split_on CHR ''.'' (t @ ''.''))" by simp
  then show ?thesis by (auto simp: parseIpv4_def Let_def list_all_iff is_octet_text_def)
qed

text \<open>An IPv4 text is its own normal form.\<close>

lemma normalizeHost_ipv4:
  assumes "parseIpv4 v = Some bs" "normalizeHost v = Inr w"
  shows "w = v"
proof -
  note c = parseIpv4_chars [OF assms(1)]
  have "lower v = v" unfolding lower_def by (rule map_idI) (use c(2) lower_char_id in blast)
  moreover have "trim v = v" by (rule trim_id) (use c(2) is_ws_not in blast)
  moreover have "strip_brackets v = v"
    using c(2) by (auto simp: strip_brackets_def starts_with_iff)
  moreover have "\<not> ends_with ''.'' v"
  proof
    assume "ends_with ''.'' v"
    then obtain t where t: "v = t @ ''.''" by (auto simp: ends_with_iff)
    with assms(1) show False by (simp add: parseIpv4_no_final_dot)
  qed
  ultimately show ?thesis using assms(2) by (auto simp: normalizeHost_def Let_def split: if_splits)
qed


text \<open>What \<open>parseIpv6\<close> accepts has a bracket-free body of hexadecimal digits, colons and dots.\<close>

definition ipv6_body :: "string \<Rightarrow> string" where
  "ipv6_body v = strip_brackets (lower v)"

lemma strip_brackets_cases:
  "strip_brackets s = s \<and> \<not> (starts_with ''['' s \<and> ends_with '']'' s) \<or>
    s = ''['' @ strip_brackets s @ '']''"
proof (cases "starts_with ''['' s \<and> ends_with '']'' s")
  case True
  obtain t where t: "s = CHR ''['' # t" using True by (auto simp: starts_with_iff)
  obtain u where u: "s = u @ '']''" using True by (auto simp: ends_with_iff)
  have "t \<noteq> []" using t u by auto
  then have "t = butlast t @ [last t]" "last t = CHR '']''"
    using t u by (simp, metis last_ConsR last_snoc)
  then show ?thesis using t True by (simp add: strip_brackets_def)
next
  case False
  then show ?thesis by (auto simp: strip_brackets_def)
qed

lemma parseIpv6_body:
  assumes "parseIpv6 v = Some bs"
  shows "ipv6_body v \<noteq> []" "\<forall>c \<in> set (ipv6_body v). is_hex_lower c \<or> c = CHR '':'' \<or> c = CHR ''.''"
  using assms by (auto simp: parseIpv6_def ipv6_body_def Let_def list_all_iff split: if_splits)

lemma body_no_brackets:
  assumes "\<forall>c \<in> set t. is_hex_lower c \<or> c = CHR '':'' \<or> c = CHR ''.''"
  shows "strip_brackets t = t" "lower t = t" "\<forall>c \<in> set t. \<not> is_ws c"
proof -
  show "strip_brackets t = t" using assms by (auto simp: strip_brackets_def starts_with_iff)
  show "lower t = t" unfolding lower_def by (rule map_idI) (use assms lower_char_id in blast)
  show "\<forall>c \<in> set t. \<not> is_ws c" using assms is_ws_not by blast
qed

lemma parseIpv6_of_body:
  assumes "parseIpv6 v = Some bs"
  shows "parseIpv6 (ipv6_body v) = Some bs"
  using assms body_no_brackets [OF parseIpv6_body(2) [OF assms]] by (simp add: parseIpv6_def ipv6_body_def)

lemma lower_eq_bracketed:
  assumes "strip_brackets (lower v) = t" "\<forall>c \<in> set t. is_hex_lower c \<or> c = CHR '':'' \<or> c = CHR ''.''" "t \<noteq> []"
  shows "lower v = t \<or> lower v = ''['' @ t @ '']''"
  using strip_brackets_cases [of "lower v"] assms by auto


lemma is_ws_lower_char: "is_ws (lower_char c) \<longleftrightarrow> is_ws c"
  using cu_less [of c] by (auto simp: lower_char_def is_ws_def is_upper_def in_range_def)

lemma parseIpv6_parseIpv4: "parseIpv6 v = Some bs \<Longrightarrow> parseIpv4 (ipv6_body v) = None"
proof (rule ccontr)
  assume v: "parseIpv6 v = Some bs" and "parseIpv4 (ipv6_body v) \<noteq> None"
  then obtain b4 where b4: "parseIpv4 (ipv6_body v) = Some b4" by auto
  then have "CHR ''.'' \<in> set (ipv6_body v)" "CHR '':'' \<notin> set (ipv6_body v)"
    using parseIpv4_chars(1) [OF b4] by (auto dest: parseIpv4_chars(2) [OF b4, rule_format])
  with v show False
    by (auto simp: parseIpv6_def ipv6_body_def [symmetric] Let_def split_last_colon_def split: if_splits)
qed

lemma ipv6_body_no_final_dot: "parseIpv6 v = Some bs \<Longrightarrow> \<not> ends_with ''.'' (ipv6_body v)"
proof
  assume v: "parseIpv6 v = Some bs" and "ends_with ''.'' (ipv6_body v)"
  then obtain t where t: "ipv6_body v = t @ ''.''" by (auto simp: ends_with_iff)
  then have "\<exists>f u. split_last_colon (ipv6_body v) = Some (f, u @ ''.'') \<or> split_last_colon (ipv6_body v) = None"
    by (auto simp: split_last_colon_def)
  with v t show False
    by (auto simp: parseIpv6_def ipv6_body_def [symmetric] Let_def parseIpv4_no_final_dot split: if_splits)
qed

lemma normalizeHost_ipv6:
  assumes "parseIpv6 v = Some bs" "normalizeHost v = Inr w"
  shows "w = ipv6_body v"
proof -
  let ?t = "ipv6_body v"
  note body = parseIpv6_body [OF assms(1)]
  have "lower v = ?t \<or> lower v = ''['' @ ?t @ '']''"
    by (rule lower_eq_bracketed) (use body in \<open>simp_all add: ipv6_body_def\<close>)
  then have "set (lower v) \<subseteq> insert CHR ''['' (insert CHR '']'' (set ?t))" by (elim disjE) auto
  then have "\<forall>c \<in> set (lower v). \<not> is_ws c" using body(2) is_ws_not by blast
  then have "\<forall>c \<in> set v. \<not> is_ws c" by (auto simp: lower_def is_ws_lower_char)
  then have "trim v = v" by (rule trim_id)
  then show ?thesis
    using assms(2) ipv6_body_no_final_dot [OF assms(1)]
    unfolding normalizeHost_def Let_def ipv6_body_def [symmetric]
    by (simp only: if_False split: if_splits) simp_all
qed

text \<open>The abstract test: an address literal none of whose readings lies in a reserved block.\<close>

definition public_literal :: "string \<Rightarrow> bool" where
  "public_literal a \<longleftrightarrow>
     (\<exists>bs. parseIpv4 a = Some bs \<and> \<not> (\<exists>blk \<in> set reserved_v4_blocks. in_block bs blk)) \<or>
     (\<exists>bs. parseIpv4 a = None \<and> parseIpv6 a = Some bs \<and> \<not> (\<exists>blk \<in> set reserved_v6_blocks. in_block bs blk) \<and>
        (\<forall>(blk, off) \<in> set embedding_blocks. in_block bs blk \<longrightarrow>
           \<not> (\<exists>blk4 \<in> set reserved_v4_blocks. in_block (embeddedIpv4 bs off) blk4)))"

lemma length_groups_bytes: "length (groups_bytes gs) = 2 * length gs"
  by (induction gs) (simp_all add: groups_bytes_def)

lemma length_parse_groups: "parse_groups s = Some bs \<Longrightarrow> length bs = 16"
  by (auto simp: parse_groups_def Let_def length_groups_bytes split: if_splits)

lemma length_parseIpv6: "parseIpv6 v = Some bs \<Longrightarrow> length bs = 16"
  by (auto simp: parseIpv6_def Let_def length_parse_groups split: if_splits option.splits prod.splits)

lemma length_parseIpv4: "parseIpv4 v = Some bs \<Longrightarrow> length bs = 4"
  by (simp add: parseIpv4_iff)

lemma embedded_length: "length bs = 16 \<Longrightarrow> (blk, off) \<in> set embedding_blocks \<Longrightarrow> length (embeddedIpv4 bs off) = 4"
  by (auto simp: embedding_blocks_def embeddedIpv4_def)

lemma public_literal_iff:
  assumes "parseIpv4 a \<noteq> None \<or> parseIpv6 a \<noteq> None" "\<not> isPrivateOrReservedAddress a"
  shows "public_literal a"
proof -
  obtain w where w: "normalizeHost a = Inr w"
    using assms(2) by (cases "normalizeHost a") (auto simp: isPrivateOrReservedAddress_def)
  show ?thesis
  proof (cases "parseIpv4 a")
    case (Some bs)
    from Some w have "w = a" by (rule normalizeHost_ipv4)
    then have "\<not> isReservedIpv4 bs" using assms(2) w Some by (simp add: isPrivateOrReservedAddress_def)
    then show ?thesis using Some isReservedIpv4_iff [OF length_parseIpv4 [OF Some]] by (auto simp: public_literal_def)
  next
    case None
    then obtain bs where bs: "parseIpv6 a = Some bs" using assms(1) by auto
    have "w = ipv6_body a" using bs w by (rule normalizeHost_ipv6)
    then have "\<not> isReservedIpv6 bs"
      using assms(2) w parseIpv6_of_body [OF bs] parseIpv6_parseIpv4 [OF bs]
      by (simp add: isPrivateOrReservedAddress_def)
    then show ?thesis
      using bs None isReservedIpv6_iff [OF length_parseIpv6 [OF bs]]
      by (fastforce simp: public_literal_def isReservedIpv4_iff [OF embedded_length [OF length_parseIpv6 [OF bs]]])
  qed
qed


section \<open>IPv6 texts\<close>

lemma hex_char_class: "n < 16 \<Longrightarrow> is_hex_lower (hex_char n)"
  by (auto simp: is_hex_lower_def is_digit_def in_range_def hex_char_def)

lemma hex_digit_val_char: "n < 16 \<Longrightarrow> hex_digit_val (hex_char n) = n"
  by (auto simp: hex_digit_val_def is_digit_def in_range_def hex_char_def)

lemma hex_val_show_hex [simp]: "hex_val (show_hex n) = n"
proof (induction n rule: show_hex.induct)
  case (1 n)
  show ?case
  proof (cases "n < 16")
    case True
    then show ?thesis by (subst show_hex.simps) (simp add: hex_val_def hex_digit_val_char)
  next
    case False
    then have "hex_val (show_hex n) = 16 * hex_val (show_hex (n div 16)) + n mod 16"
      by (subst show_hex.simps) (simp add: hex_val_def hex_digit_val_char)
    with 1 False show ?thesis by simp
  qed
qed

lemma show_hex_class: "list_all is_hex_lower (show_hex n)"
proof (induction n rule: show_hex.induct)
  case (1 n)
  then show ?case by (subst show_hex.simps) (auto simp: hex_char_class)
qed

lemma show_hex_nonempty [simp]: "show_hex n \<noteq> []"
  by (subst show_hex.simps) simp

lemma length_show_hex: "n < 16 ^ k \<Longrightarrow> 1 \<le> k \<Longrightarrow> length (show_hex n) \<le> k"
proof (induction n arbitrary: k rule: show_hex.induct)
  case (1 n)
  show ?case
  proof (cases "n < 16")
    case True
    then show ?thesis using 1 by (subst show_hex.simps) simp
  next
    case False
    then obtain j where k: "k = Suc j" "1 \<le> j" using 1 by (cases k; cases "k - 1") auto
    have "n div 16 < 16 ^ j" using 1 k by (simp add: less_mult_imp_div_less mult.commute)
    then have "length (show_hex (n div 16)) \<le> j" using 1 False k by simp
    then show ?thesis using False k by (subst show_hex.simps) simp
  qed
qed

lemma group_text_show_hex: "n < 65536 \<Longrightarrow> is_group_text (show_hex n)"
  using length_show_hex [of n 4] show_hex_class [of n] by (simp add: is_group_text_def Suc_le_eq)

lemma show_hex_no_colon: "CHR '':'' \<notin> set (show_hex n)" "CHR ''.'' \<notin> set (show_hex n)"
  using show_hex_class [of n] by (auto simp: list_all_iff)

definition show_groups :: "nat list \<Rightarrow> string" where
  "show_groups gs = join_with '':'' (map show_hex gs)"

lemma groups_of_show: "groups_of (show_groups gs) = map show_hex gs"
proof (cases gs)
  case (Cons g gs')
  then have "show_groups gs \<noteq> []" by (cases gs') (auto simp: show_groups_def)
  moreover have "split_on CHR '':'' (show_groups gs) = map show_hex gs"
    unfolding show_groups_def using Cons by (intro split_join_on) (auto simp: show_hex_no_colon)
  ultimately show ?thesis by (simp add: groups_of_def)
qed (simp add: groups_of_def show_groups_def)

text \<open>A text of groups has no empty group, so \<open>split("::")\<close> finds only the separator written between two.\<close>

fun single_colons :: "string \<Rightarrow> bool" where
  "single_colons (c # d # s) \<longleftrightarrow> \<not> (c = CHR '':'' \<and> d = CHR '':'') \<and> single_colons (d # s)"
| "single_colons [c] \<longleftrightarrow> c \<noteq> CHR '':''"
| "single_colons [] \<longleftrightarrow> True"

lemma split_dcolon_none: "single_colons s \<Longrightarrow> split_dcolon s = [s]"
  by (induction s rule: split_dcolon.induct) auto

lemma split_dcolon_two: "single_colons u \<Longrightarrow> split_dcolon (u @ CHR '':'' # CHR '':'' # v) = u # split_dcolon v"
  by (induction u rule: single_colons.induct) auto

lemma single_colons_append: "CHR '':'' \<notin> set w \<Longrightarrow> w \<noteq> [] \<Longrightarrow> single_colons v \<Longrightarrow> single_colons (w @ v)"
proof (induction w)
  case (Cons c w)
  then show ?case by (cases "w = []"; cases "w @ v") auto
qed simp

lemma single_colons_groups: "single_colons (show_groups gs)"
proof (induction gs)
  case (Cons g gs)
  show ?case
  proof (cases gs)
    case Nil
    then show ?thesis
      using single_colons_append [of "show_hex g" "[]"] show_hex_no_colon(1) [of g] by (simp add: show_groups_def)
  next
    case (Cons h hs)
    let ?rest = "show_groups gs"
    have "?rest \<noteq> []" "hd ?rest \<noteq> CHR '':''"
      using show_hex_nonempty [of h] show_hex_no_colon(1) [of h] Cons
      by (cases hs; cases "show_hex h"; auto simp: show_groups_def)+
    then have "single_colons (CHR '':'' # ?rest)" using Cons.IH by (cases ?rest) auto
    then have "single_colons (show_hex g @ CHR '':'' # ?rest)"
      using single_colons_append [of "show_hex g" "CHR '':'' # ?rest"] show_hex_no_colon(1) [of g] by simp
    then show ?thesis using Cons by (simp add: show_groups_def)
  qed
qed (simp add: show_groups_def)

lemma show_groups_chars: "c \<in> set (show_groups gs) \<Longrightarrow> is_hex_lower c \<or> c = CHR '':''"
proof -
  have "set (show_groups gs) \<subseteq> insert CHR '':'' (\<Union>g \<in> set gs. set (show_hex g))"
    unfolding show_groups_def
    by (induction gs) (simp, rename_tac g gs, case_tac gs, auto)
  then show "c \<in> set (show_groups gs) \<Longrightarrow> ?thesis" using show_hex_class by (auto simp: list_all_iff)
qed

lemma show_groups_empty: "show_groups gs = [] \<longleftrightarrow> gs = []"
  by (cases gs rule: list.exhaust; cases "tl gs") (auto simp: show_groups_def)

text \<open>Both forms of an address, in full and with one run of zero groups left out.\<close>

lemma parse_groups_full:
  assumes "length gs = 8" "\<forall>g \<in> set gs. g < 65536"
  shows "parse_groups (show_groups gs) = Some (groups_bytes gs)"
  using assms
  by (simp add: parse_groups_def split_dcolon_none single_colons_groups groups_of_show Let_def list_ex_iff
      group_text_show_hex comp_def)

lemma parse_groups_compressed:
  assumes "length gs + length hs \<le> 7" "\<forall>g \<in> set (gs @ hs). g < 65536"
  shows "parse_groups (show_groups gs @ ''::'' @ show_groups hs)
    = Some (groups_bytes (gs @ replicate (8 - length gs - length hs) 0 @ hs))"
proof -
  have n: "nat (8 - int (length gs) - int (length hs)) = 8 - length gs - length hs" by linarith
  have z: "hex_val ''0'' = 0" by (simp add: hex_val_def hex_digit_val_def is_digit_def in_range_def)
  show ?thesis
    using assms
    by (auto simp: parse_groups_def split_dcolon_two split_dcolon_none single_colons_groups groups_of_show Let_def
        list_ex_iff group_text_show_hex comp_def n z)
qed

lemma parseIpv6_no_dot:
  assumes "\<forall>c \<in> set s. is_hex_lower c \<or> c = CHR '':''" "s \<noteq> []"
  shows "parseIpv6 s = parse_groups s"
proof -
  have b: "strip_brackets s = s" "lower s = s" using body_no_brackets [of s] assms(1) by blast+
  have p: "CHR ''%'' \<notin> set s" using assms(1) by (auto simp: is_hex_lower_def is_digit_def in_range_def)
  have d: "CHR ''.'' \<notin> set s" using assms(1) by auto
  show ?thesis using assms p d by (auto simp: parseIpv6_def b Let_def list_all_iff)
qed

lemma parseIpv6_full:
  "length gs = 8 \<Longrightarrow> \<forall>g \<in> set gs. g < 65536 \<Longrightarrow> parseIpv6 (show_groups gs) = Some (groups_bytes gs)"
  using parseIpv6_no_dot [of "show_groups gs"] show_groups_chars parse_groups_full show_groups_empty
  by (metis list.size(3) zero_neq_numeral)

lemma parseIpv6_compressed:
  assumes "length gs + length hs \<le> 7" "\<forall>g \<in> set (gs @ hs). g < 65536"
  shows "parseIpv6 (show_groups gs @ ''::'' @ show_groups hs)
    = Some (groups_bytes (gs @ replicate (8 - length gs - length hs) 0 @ hs))"
proof -
  have "\<forall>c \<in> set (show_groups gs @ ''::'' @ show_groups hs). is_hex_lower c \<or> c = CHR '':''"
    using show_groups_chars by auto
  from parseIpv6_no_dot [OF this] parse_groups_compressed [OF assms] show ?thesis by simp
qed

section \<open>Resolution and dialling\<close>

lemma set_uniq [simp]: "set (uniq xs) = set xs"
  by (induction xs rule: uniq.induct) auto

lemma distinct_uniq [simp]: "distinct (uniq xs)"
  by (induction xs rule: uniq.induct) auto

lemma candidate_address_literal:
  "candidate_address a = Inr (Some c) \<Longrightarrow> parseIpv4 c \<noteq> None \<or> parseIpv6 c \<noteq> None"
  by (auto simp: candidate_address_def Let_def split: sum.splits option.splits json.splits if_splits)

lemma collect_addresses_literal:
  "collect_addresses as = Inr cs \<Longrightarrow> c \<in> set cs \<Longrightarrow> parseIpv4 c \<noteq> None \<or> parseIpv6 c \<noteq> None"
proof (induction as arbitrary: cs)
  case (Cons a as)
  then obtain x ys where x: "candidate_address a = Inr x" "collect_addresses as = Inr ys"
    "cs = (case x of None \<Rightarrow> ys | Some x \<Rightarrow> x # ys)"
    by (auto simp: try_bind_eq_Inr)
  show ?case
    using Cons.IH [OF x(2)] Cons.prems(2) x(1,3) candidate_address_literal [of a c] by (cases x) auto
qed simp

lemma response_addresses_literal:
  "response_addresses r = Inr cs \<Longrightarrow> c \<in> set cs \<Longrightarrow> parseIpv4 c \<noteq> None \<or> parseIpv6 c \<noteq> None"
  by (auto simp: response_addresses_def try_bind_eq_Inr dest: collect_addresses_literal
      split: if_splits option.splits sum.splits)

lemma resolve_public_literals:
  assumes "resolvePublicAddresses dns host = Inr addrs"
  shows "addrs \<noteq> []" "length addrs \<le> 16" "distinct addrs" "\<forall>a \<in> set addrs. public_literal a"
proof -
  obtain n where n: "normalizeHost host = Inr n" using assms by (auto simp: resolvePublicAddresses_def try_bind_eq_Inr)
  have "addrs \<noteq> [] \<and> length addrs \<le> 16 \<and> distinct addrs \<and> (\<forall>a \<in> set addrs. public_literal a)"
  proof (cases "parseIpv4 n \<noteq> None \<or> parseIpv6 n \<noteq> None")
    case True
    then show ?thesis
      using assms n by (auto simp: resolvePublicAddresses_def intro: public_literal_iff split: if_splits)
  next
    case False
    then obtain ra rb xs ys where r: "response_addresses ra = Inr xs" "response_addresses rb = Inr ys" "addrs = uniq (xs @ ys)"
      "addrs \<noteq> []" "length addrs \<le> 16" "\<forall>a \<in> set addrs. \<not> isPrivateOrReservedAddress a"
      using assms n
      by (auto simp: resolvePublicAddresses_def try_bind_eq_Inr Let_def list_ex_iff split: if_splits option.splits)
    have "public_literal a" if "a \<in> set addrs" for a
      using that r response_addresses_literal [OF r(1), of a] response_addresses_literal [OF r(2), of a]
      by (intro public_literal_iff) auto
    then show ?thesis using r by simp
  qed
  then show "addrs \<noteq> []" "length addrs \<le> 16" "distinct addrs" "\<forall>a \<in> set addrs. public_literal a" by blast+
qed

lemma dial_loop_trace:
  "dial_loop dial port deadline as now e = (trace, r) \<Longrightarrow>
    length trace \<le> length as \<and> map fst trace = map toSocketHostname (take (length trace) as) \<and>
    (\<forall>(h, t) \<in> set trace. t < deadline)"
proof (induction as arbitrary: now e trace r)
  case (Cons a as)
  show ?case
  proof (cases "deadline - now \<le> 0")
    case True
    with Cons.prems show ?thesis by simp
  next
    case False
    obtain later out where d: "dial (toSocketHostname a) port now (deadline - now) = (later, out)" by force
    show ?thesis
    proof (cases out)
      case (Inr k)
      with Cons.prems False d show ?thesis by (auto simp: Let_def)
    next
      case (Inl err)
      obtain tr r' where rest: "dial_loop dial port deadline as later err = (tr, r')" by force
      from Cons.IH [OF rest] Cons.prems False d Inl rest show ?thesis by (auto simp: Let_def)
    qed
  qed
qed simp

text \<open>
  resolution returns between 1 and 16 distinct address literals, and none of them, read as an
  IPv4 address, as an IPv6 address, or as an IPv6 address that carries an IPv4 one (mapped,
  NAT64, 6to4), lies in a reserved CIDR block, whatever the DNS service answers.
\<close>

theorem resolved_addresses_public:
  assumes "resolvePublicAddresses dns host = Inr addrs"
  shows "1 \<le> length addrs \<and> length addrs \<le> 16 \<and> distinct addrs \<and> (\<forall>a \<in> set addrs. public_literal a)"
  using resolve_public_literals [OF assms] by (cases addrs) auto

text \<open>
  C4: the Worker opens a TCP connection only to addresses that passed that test in the same
  call, each at most once, 16 at most, in order, before the deadline, and only to a whole port from
  1 to 65535 that is not 25 and is on the allow list where there is one.
\<close>

theorem dials_only_public:
  assumes "transport_connect dns dial allowedPorts host port timeoutMs now = (trace, r)"
  shows "\<exists>addrs. map fst trace = map toSocketHostname addrs \<and> length addrs \<le> 16 \<and> distinct addrs
    \<and> (\<forall>a \<in> set addrs. public_literal a) \<and> (\<forall>(h, t) \<in> set trace. t < now + timeoutMs)
    \<and> (trace \<noteq> [] \<longrightarrow> is_integer port \<and> 1 \<le> port \<and> port \<le> 65535 \<and> port \<noteq> 25
        \<and> (\<forall>ps. allowedPorts = Some ps \<longrightarrow> port \<in> set ps))"
proof (cases "assertPublicTarget dns host port allowedPorts")
  case (Inl e)
  with assms show ?thesis by (auto simp: transport_connect_def intro: exI [of _ "[]"])
next
  case (Inr target)
  then obtain n where t: "assertAllowedSshPort port allowedPorts = Inr ()"
    "resolvePublicAddresses dns n = Inr (pt_addresses target)"
    by (auto simp: assertPublicTarget_def try_bind_eq_Inr)
  obtain tr out where loop: "dial_loop dial port (now + timeoutMs) (pt_addresses target) now
      ''No verified SSH address is available'' = (tr, out)" by force
  have tr: "tr = trace"
    using assms Inr loop by (auto simp: transport_connect_def split: sum.splits)
  note pub = resolve_public_literals [OF t(2)]
  note dl = dial_loop_trace [OF loop, unfolded tr]
  have "\<forall>a \<in> set (take (length trace) (pt_addresses target)). public_literal a"
    using pub(4) by (auto dest: in_set_takeD)
  moreover have "is_integer port \<and> 1 \<le> port \<and> port \<le> 65535 \<and> port \<noteq> 25 \<and> (\<forall>ps. allowedPorts = Some ps \<longrightarrow> port \<in> set ps)"
    using t(1) by (auto simp: assertAllowedSshPort_def is_safe_integer_def PROHIBITED_SSH_PORTS_def split: if_splits)
  ultimately show ?thesis
    using dl pub(2,3) by (intro exI [of _ "take (length trace) (pt_addresses target)"]) (auto simp: distinct_take)
qed


lemma demo_ipv4: "parseIpv4 ''8.8.8.8'' = Some [8, 8, 8, 8]"
  by (simp add: parseIpv4_iff show_ipv4_def show_nat_digit char_eq_iff_cu del: cu_inject)

lemma demo_normal: "normalizeHost ''8.8.8.8'' = Inr ''8.8.8.8''"
  by (simp add: normalizeHost_def trim_def is_ws_def lower_def lower_char_def is_upper_def in_range_def
      strip_brackets_def starts_with_def ends_with_def host_forbidden_def demo_ipv4 char_eq_iff_cu del: cu_inject)

lemma demo_resolve: "resolvePublicAddresses dns ''8.8.8.8'' = Inr [''8.8.8.8'']"
  by (simp add: resolvePublicAddresses_def demo_normal isPrivateOrReservedAddress_def demo_ipv4 isReservedIpv4_def
      byte_at_def Let_def)

lemma resolved_addresses_public_witness: "public_literal ''8.8.8.8''"
  using resolved_addresses_public [OF demo_resolve [of "\<lambda>_ _. None"]] by simp

definition demo_dialler :: "nat dialler" where
  "demo_dialler hostname port now remaining = (now + 5, Inr 7)"

lemma demo_connect:
  "transport_connect (\<lambda>_ _. None) demo_dialler None ''8.8.8.8'' 22 100 0 = ([(''8.8.8.8'', 0)], Inr 7)"
proof -
  have "toSocketHostname ''8.8.8.8'' = ''8.8.8.8''"
    by (simp add: toSocketHostname_def starts_with_def char_eq_iff_cu del: cu_inject)
  moreover have "assertAllowedSshPort 22 None = Inr ()"
    using is_integer_of_int [of 22]
    by (simp add: assertAllowedSshPort_def is_safe_integer_def max_safe_def PROHIBITED_SSH_PORTS_def)
  ultimately show ?thesis
    by (simp add: transport_connect_def assertPublicTarget_def demo_normal demo_resolve demo_dialler_def Let_def)
qed

lemma dials_only_public_witness:
  "\<exists>a. toSocketHostname a = ''8.8.8.8'' \<and> public_literal a \<and> is_integer 22 \<and> (22 :: rat) \<noteq> 25"
  using dials_only_public [OF demo_connect] by auto

text \<open>
  an IPv4 literal has exactly one spelling: the parser accepts a text as an address if and
  only if the text is the dotted decimal form of its four octets.
\<close>

theorem ipv4_single_spelling:
  "parseIpv4 v = Some bs \<longleftrightarrow> length bs = 4 \<and> v = join_with ''.'' (map (\<lambda>b. show_nat (unat b)) bs)"
  by (simp add: parseIpv4_iff show_ipv4_def comp_def)

text \<open>
  no address of the discard-only prefix 100::/64 is classed as reserved: the constant the
  code compares with has two bytes where the comparison reads eight.
\<close>

theorem discard_only_not_reserved:
  assumes "length bs = 16" "in_block bs ([0x01, 0, 0, 0, 0, 0, 0, 0], 64)"
  shows "\<not> isReservedIpv6 bs"
proof -
  have blocks: "in_block bs (pre, n) \<longleftrightarrow> hasPrefix bs pre n"
    if "n \<le> 8 * length pre" "n \<le> 128" "\<forall>p \<in> set pre. p < 256" for pre n
    using hasPrefix_iff [of n pre bs] that assms by simp
  have "hasPrefix bs [0x01, 0, 0, 0, 0, 0, 0, 0] 64" using assms(2) by (simp add: blocks)
  from hasPrefix_nth [OF this, of 0] have first: "byte_at bs 0 = 1" "bs ! 0 \<noteq> 0" "unat (bs ! 0) = 1"
    using assms(1) by (auto simp: nth_opt_def byte_at_def)
  have no: "\<not> hasPrefix bs (p # pre) (8 + n)" if "p \<noteq> 1" for p pre n
    using hasPrefix_nth [of bs "p # pre" "8 + n" 0] that first(3) assms(1) by (auto simp: nth_opt_def)
  have "\<not> list_all (\<lambda>b. b = 0) bs" "\<not> list_all (\<lambda>b. b = 0) (take 15 bs)"
    using first(2) assms(1) by (auto simp: list_all_length intro!: exI [of _ 0])
  moreover have "\<not> hasPrefix bs [0xfc] 7" using masked_eq_div [of 1 252 7] first(1) by (simp add: hasPrefix_def nat_at_def)
  ultimately show ?thesis
    using discard_prefix_never [OF assms(1)] no [of "0xfe" "[0x80]" 2] no [of "0xff" "[]" 0] no [of "0x20" "[0x01, 0x0d, 0xb8]" 24]
      no [of "0x3f" "[0xff]" 12] no [of "0x5f" "[0]" 8] no [of 0 _ 88] no [of "0x20" "[0x02]" 8]
    by (simp add: isReservedIpv6_def)
qed

lemma discard_only_not_reserved_witness: "\<not> isReservedIpv6 [1, 0, 0, 0, 0, 0, 0, 0, 0, 0, 0, 0, 0, 0, 0, 1]"
  by (rule discard_only_not_reserved) (simp_all add: in_block_def addr_bits_def)


text \<open>
  the IPv6 parser reads back the groups of an address written in full, and of one written with
  a run of zero groups left out at any place, whatever the lengths of the two sides.
\<close>

theorem ipv6_reads_back:
  assumes "\<forall>g \<in> set (gs @ hs). g < 65536"
  shows "(length gs = 8 \<longrightarrow> parseIpv6 (join_with '':'' (map show_hex gs)) = Some (groups_bytes gs)) \<and>
    (length gs + length hs \<le> 7 \<longrightarrow>
      parseIpv6 (join_with '':'' (map show_hex gs) @ ''::'' @ join_with '':'' (map show_hex hs))
        = Some (groups_bytes (gs @ replicate (8 - length gs - length hs) 0 @ hs)))"
  using assms parseIpv6_full [of gs] parseIpv6_compressed [of gs hs] by (simp add: show_groups_def)

lemma ipv6_reads_back_witness:
  "parseIpv6 (join_with '':'' (map show_hex [0x2001, 0xdb8]) @ ''::'' @ join_with '':'' (map show_hex [1]))
    = Some (groups_bytes ([0x2001, 0xdb8] @ replicate 5 0 @ [1]))"
  using ipv6_reads_back [of "[0x2001, 0xdb8]" "[1]"] by simp

end
