(* ===== verification/Contracts.thy ===== *)
theory Contracts
  imports Encoding "HOL-Library.Monad_Syntax"
begin

text \<open>
  The protocol between browser and Worker: \<open>packages/contracts/src/common.ts\<close>, the field
  schemas of \<open>profiles.ts\<close>, \<open>settings.ts\<close> and \<open>history.ts\<close>, \<open>tickets.ts\<close>, and the client messages
  and binary frame header of \<open>websocket.ts\<close>. A schema is a decoder from JSON to the model's data
  that follows the documented meaning of the \<open>zod\<close> combinators it is built from (a strict
  object refuses unknown keys, lengths and ranges are inclusive, a default replaces
  \<open>undefined\<close>). What \<open>zod\<close> accepts as a UUID or as a date is not defined in this repository, so
  these two are parameters. The lemmas show that what the encoder of a message writes is read
  back as that message.
\<close>

record zod =
  z_uuid :: "string \<Rightarrow> bool"
  z_datetime :: "string \<Rightarrow> bool"

section \<open>Combinators\<close>

definition z_str :: "nat \<Rightarrow> nat \<Rightarrow> json option \<Rightarrow> string option" where
  "z_str lo hi v = do { s \<leftarrow> as_string v; if lo \<le> length s \<and> length s \<le> hi then Some s else None }"

definition z_int :: "int \<Rightarrow> int \<Rightarrow> json option \<Rightarrow> int option" where
  "z_int lo hi v = do { n \<leftarrow> as_int v; if lo \<le> n \<and> n \<le> hi then Some n else None }"

definition z_bool :: "json option \<Rightarrow> bool option" where
  "z_bool v = (case v of Some (JBool b) \<Rightarrow> Some b | _ \<Rightarrow> None)"

definition z_enum :: "string list \<Rightarrow> json option \<Rightarrow> string option" where
  "z_enum ws v = do { s \<leftarrow> as_string v; if s \<in> set ws then Some s else None }"

definition z_test :: "(string \<Rightarrow> bool) \<Rightarrow> json option \<Rightarrow> string option" where
  "z_test P v = do { s \<leftarrow> as_string v; if P s then Some s else None }"

definition z_optional :: "(json option \<Rightarrow> 'a option) \<Rightarrow> json option \<Rightarrow> 'a option option" where
  "z_optional p v = (case v of None \<Rightarrow> Some None | Some _ \<Rightarrow> map_option Some (p v))"

definition z_default :: "'a \<Rightarrow> (json option \<Rightarrow> 'a option) \<Rightarrow> json option \<Rightarrow> 'a option" where
  "z_default d p v = (case v of None \<Rightarrow> Some d | Some _ \<Rightarrow> p v)"

text \<open>\<open>z.object(...).strict()\<close>: the fields of an object without unknown keys.\<close>

definition z_strict :: "string list \<Rightarrow> json option \<Rightarrow> (string \<times> json) list option" where
  "z_strict ks v =
     (case v of Some (JObj kvs) \<Rightarrow> if fst ` set kvs \<subseteq> set ks then Some kvs else None | _ \<Rightarrow> None)"

section \<open>Shared fields\<close>

definition WS_PROTOCOL_VERSION :: int where "WS_PROTOCOL_VERSION = 2"
definition MAX_JSON_MESSAGE_BYTES :: nat where "MAX_JSON_MESSAGE_BYTES = 64 * 1024"
definition MAX_TERMINAL_CHUNK_BYTES :: nat where "MAX_TERMINAL_CHUNK_BYTES = 64 * 1024"

definition ProtocolVersionSchema :: "json option \<Rightarrow> int option" where
  "ProtocolVersionSchema v = z_int WS_PROTOCOL_VERSION WS_PROTOCOL_VERSION v"

definition EntityIdSchema :: "zod \<Rightarrow> json option \<Rightarrow> string option" where
  "EntityIdSchema z = z_test (z_uuid z)"

definition RequestIdSchema :: "zod \<Rightarrow> json option \<Rightarrow> string option" where
  "RequestIdSchema z = z_test (z_uuid z)"

definition TimestampSchema :: "zod \<Rightarrow> json option \<Rightarrow> string option" where
  "TimestampSchema z = z_test (z_datetime z)"

definition TerminalEncodingSchema :: "json option \<Rightarrow> string option" where
  "TerminalEncodingSchema = z_enum [''utf-8'', ''gb18030'', ''big5'']"

definition TerminalTypeSchema :: "json option \<Rightarrow> string option" where
  "TerminalTypeSchema = z_enum [''xterm-256color'', ''xterm'', ''screen-256color'']"

definition is_fingerprint :: "string \<Rightarrow> bool" where
  "is_fingerprint s \<longleftrightarrow> starts_with ''SHA256:'' s \<and> length s = 50 \<and>
     list_all (\<lambda>c. is_alnum c \<or> c = CHR ''+'' \<or> c = CHR ''/'') (drop 7 s)"

definition HostKeyFingerprintSchema :: "json option \<Rightarrow> string option" where
  "HostKeyFingerprintSchema = z_test is_fingerprint"

definition nul :: char where "nul = char_of (0 :: nat)"

definition RemotePathSchema :: "json option \<Rightarrow> string option" where
  "RemotePathSchema v = do { s \<leftarrow> z_str 1 4096 v; if nul \<in> set s then None else Some s }"

definition FileModeSchema :: "json option \<Rightarrow> int option" where
  "FileModeSchema = z_int 0 4095"

section \<open>Tickets\<close>

datatype ephemeral_credential = Ephemeral_Password string | Ephemeral_Private_Key string "string option"

record terminal_size =
  ts_columns :: int
  ts_rows :: int
  ts_type :: string
  ts_encoding :: string

record ticket_request =
  tr_profileId :: string
  tr_attemptId :: string
  tr_terminal :: terminal_size
  tr_ephemeral :: "ephemeral_credential option"

definition TerminalObjectSchema :: "json option \<Rightarrow> terminal_size option" where
  "TerminalObjectSchema v = do {
     kvs \<leftarrow> z_strict [''columns'', ''rows'', ''type'', ''encoding''] v;
     c \<leftarrow> z_int 2 1000 (map_of kvs ''columns'');
     r \<leftarrow> z_int 1 500 (map_of kvs ''rows'');
     t \<leftarrow> TerminalTypeSchema (map_of kvs ''type'');
     e \<leftarrow> TerminalEncodingSchema (map_of kvs ''encoding'');
     Some \<lparr>ts_columns = c, ts_rows = r, ts_type = t, ts_encoding = e\<rparr> }"

definition EphemeralPasswordCredentialSchema :: "json option \<Rightarrow> ephemeral_credential option" where
  "EphemeralPasswordCredentialSchema v = do {
     kvs \<leftarrow> z_strict [''method'', ''password''] v;
     _ \<leftarrow> z_enum [''password''] (map_of kvs ''method'');
     p \<leftarrow> z_str 1 4096 (map_of kvs ''password'');
     Some (Ephemeral_Password p) }"

definition EphemeralPrivateKeyCredentialSchema :: "json option \<Rightarrow> ephemeral_credential option" where
  "EphemeralPrivateKeyCredentialSchema v = do {
     kvs \<leftarrow> z_strict [''method'', ''privateKey'', ''passphrase''] v;
     _ \<leftarrow> z_enum [''private_key''] (map_of kvs ''method'');
     k \<leftarrow> z_str 32 (1024 * 1024) (map_of kvs ''privateKey'');
     p \<leftarrow> z_optional (z_str 1 4096) (map_of kvs ''passphrase'');
     Some (Ephemeral_Private_Key k p) }"

definition EphemeralCredentialSchema :: "json option \<Rightarrow> ephemeral_credential option" where
  "EphemeralCredentialSchema v =
     (case EphemeralPasswordCredentialSchema v of Some c \<Rightarrow> Some c | None \<Rightarrow> EphemeralPrivateKeyCredentialSchema v)"

definition SshTicketRequestSchema :: "zod \<Rightarrow> json option \<Rightarrow> ticket_request option" where
  "SshTicketRequestSchema z v = do {
     kvs \<leftarrow> z_strict [''profileId'', ''attemptId'', ''terminal'', ''ephemeralCredential''] v;
     p \<leftarrow> EntityIdSchema z (map_of kvs ''profileId'');
     a \<leftarrow> EntityIdSchema z (map_of kvs ''attemptId'');
     t \<leftarrow> TerminalObjectSchema (map_of kvs ''terminal'');
     e \<leftarrow> z_optional EphemeralCredentialSchema (map_of kvs ''ephemeralCredential'');
     Some \<lparr>tr_profileId = p, tr_attemptId = a, tr_terminal = t, tr_ephemeral = e\<rparr> }"

section \<open>Client messages\<close>

datatype client_body =
    Hello
  | Connect terminal_size
  | Host_Key_Decision string string
  | Input int string
  | Resize int int "int option" "int option"
  | Disconnect
  | Activity bool bool bool bool int
  | Shell_History int
  | Sftp_List string "string option"
  | Sftp_Read string int
  | Sftp_Write string int int string
  | Sftp_Mkdir string int
  | Sftp_Rename string string
  | Sftp_Delete string string
  | Sftp_Chmod string int
  | Sftp_Upload_Start string int "string option"
  | Sftp_Download_Start string
  | Transfer_Control string string

record client_message =
  cm_requestId :: string
  cm_attemptId :: string
  cm_body :: client_body

definition base_keys :: "string list" where
  "base_keys = [''protocolVersion'', ''requestId'', ''attemptId'', ''type'']"

text \<open>A message schema: the base, a literal type and the message's own fields.\<close>

definition z_message ::
    "zod \<Rightarrow> string \<Rightarrow> string list \<Rightarrow> ((string \<Rightarrow> json option) \<Rightarrow> client_body option) \<Rightarrow> json \<Rightarrow> client_message option" where
  "z_message z ty ks body j = do {
     kvs \<leftarrow> z_strict (base_keys @ ks) (Some j);
     _ \<leftarrow> ProtocolVersionSchema (map_of kvs ''protocolVersion'');
     r \<leftarrow> RequestIdSchema z (map_of kvs ''requestId'');
     a \<leftarrow> EntityIdSchema z (map_of kvs ''attemptId'');
     _ \<leftarrow> z_enum [ty] (map_of kvs ''type'');
     b \<leftarrow> body (map_of kvs);
     Some \<lparr>cm_requestId = r, cm_attemptId = a, cm_body = b\<rparr> }"

definition ClientHelloMessageSchema where
  "ClientHelloMessageSchema z = z_message z ''hello'' [] (\<lambda>f. Some Hello)"

definition ClientConnectMessageSchema where
  "ClientConnectMessageSchema z = z_message z ''connect'' [''terminal'']
     (\<lambda>f. do { t \<leftarrow> TerminalObjectSchema (f ''terminal''); Some (Connect t) })"

definition ClientHostKeyDecisionMessageSchema where
  "ClientHostKeyDecisionMessageSchema z = z_message z ''host-key-decision'' [''fingerprint'', ''decision'']
     (\<lambda>f. do { p \<leftarrow> HostKeyFingerprintSchema (f ''fingerprint'');
              d \<leftarrow> z_enum [''trust_once'', ''trust_and_save'', ''reject''] (f ''decision'');
              Some (Host_Key_Decision p d) })"

definition ClientTerminalInputMessageSchema where
  "ClientTerminalInputMessageSchema z = z_message z ''input'' [''sequence'', ''data'']
     (\<lambda>f. do { n \<leftarrow> z_int 0 max_safe (f ''sequence''); d \<leftarrow> z_str 1 65536 (f ''data''); Some (Input n d) })"

definition ClientResizeMessageSchema where
  "ClientResizeMessageSchema z = z_message z ''resize'' [''columns'', ''rows'', ''pixelWidth'', ''pixelHeight'']
     (\<lambda>f. do { c \<leftarrow> z_int 2 1000 (f ''columns''); r \<leftarrow> z_int 1 500 (f ''rows'');
              w \<leftarrow> z_optional (z_int 0 100000) (f ''pixelWidth'');
              h \<leftarrow> z_optional (z_int 0 100000) (f ''pixelHeight'');
              Some (Resize c r w h) })"

definition ClientDisconnectMessageSchema where
  "ClientDisconnectMessageSchema z = z_message z ''disconnect'' [] (\<lambda>f. Some Disconnect)"

definition ClientSessionActivityMessageSchema where
  "ClientSessionActivityMessageSchema z = z_message z ''activity''
     [''active'', ''visible'', ''monitoring'', ''reduceWhenHidden'', ''refreshIntervalSeconds'']
     (\<lambda>f. do { a \<leftarrow> z_bool (f ''active''); v \<leftarrow> z_bool (f ''visible''); m \<leftarrow> z_bool (f ''monitoring'');
              r \<leftarrow> z_bool (f ''reduceWhenHidden''); s \<leftarrow> z_int 5 60 (f ''refreshIntervalSeconds'');
              Some (Activity a v m r s) })"

definition ClientShellHistoryMessageSchema where
  "ClientShellHistoryMessageSchema z = z_message z ''shell-history'' [''limit'']
     (\<lambda>f. do { n \<leftarrow> z_default 50 (z_int 1 50) (f ''limit''); Some (Shell_History n) })"

definition ClientSftpListMessageSchema where
  "ClientSftpListMessageSchema z = z_message z ''sftp-list'' [''path'', ''cursor'']
     (\<lambda>f. do { p \<leftarrow> RemotePathSchema (f ''path''); c \<leftarrow> z_optional (z_str 1 512) (f ''cursor''); Some (Sftp_List p c) })"

definition ClientSftpReadMessageSchema where
  "ClientSftpReadMessageSchema z = z_message z ''sftp-read'' [''path'', ''maxBytes'']
     (\<lambda>f. do { p \<leftarrow> RemotePathSchema (f ''path'');
              n \<leftarrow> z_default (2 * 1024 * 1024) (z_int 1 (2 * 1024 * 1024)) (f ''maxBytes'');
              Some (Sftp_Read p n) })"

definition ClientSftpWriteMessageSchema where
  "ClientSftpWriteMessageSchema z = z_message z ''sftp-write'' [''path'', ''size'', ''expectedSize'', ''expectedModifiedAt'']
     (\<lambda>f. do { p \<leftarrow> RemotePathSchema (f ''path'');
              n \<leftarrow> z_int 0 (2 * 1024 * 1024) (f ''size'');
              e \<leftarrow> z_int 0 (2 * 1024 * 1024) (f ''expectedSize'');
              m \<leftarrow> TimestampSchema z (f ''expectedModifiedAt'');
              Some (Sftp_Write p n e m) })"

definition ClientSftpMkdirMessageSchema where
  "ClientSftpMkdirMessageSchema z = z_message z ''sftp-mkdir'' [''path'', ''mode'']
     (\<lambda>f. do { p \<leftarrow> RemotePathSchema (f ''path''); m \<leftarrow> z_default 493 FileModeSchema (f ''mode''); Some (Sftp_Mkdir p m) })"

definition ClientSftpRenameMessageSchema where
  "ClientSftpRenameMessageSchema z = z_message z ''sftp-rename'' [''sourcePath'', ''destinationPath'']
     (\<lambda>f. do { p \<leftarrow> RemotePathSchema (f ''sourcePath''); q \<leftarrow> RemotePathSchema (f ''destinationPath''); Some (Sftp_Rename p q) })"

definition ClientSftpDeleteMessageSchema where
  "ClientSftpDeleteMessageSchema z = z_message z ''sftp-delete'' [''path'', ''kind'']
     (\<lambda>f. do { p \<leftarrow> RemotePathSchema (f ''path''); k \<leftarrow> z_enum [''file'', ''empty_directory''] (f ''kind''); Some (Sftp_Delete p k) })"

definition ClientSftpChmodMessageSchema where
  "ClientSftpChmodMessageSchema z = z_message z ''sftp-chmod'' [''path'', ''mode'']
     (\<lambda>f. do { p \<leftarrow> RemotePathSchema (f ''path''); m \<leftarrow> FileModeSchema (f ''mode''); Some (Sftp_Chmod p m) })"

definition ClientSftpUploadStartMessageSchema where
  "ClientSftpUploadStartMessageSchema z = z_message z ''sftp-upload-start'' [''path'', ''size'', ''modifiedAt'']
     (\<lambda>f. do { p \<leftarrow> RemotePathSchema (f ''path''); n \<leftarrow> z_int 0 (100 * 1024 * 1024) (f ''size'');
              m \<leftarrow> z_optional (TimestampSchema z) (f ''modifiedAt''); Some (Sftp_Upload_Start p n m) })"

definition ClientSftpDownloadStartMessageSchema where
  "ClientSftpDownloadStartMessageSchema z = z_message z ''sftp-download-start'' [''path'']
     (\<lambda>f. do { p \<leftarrow> RemotePathSchema (f ''path''); Some (Sftp_Download_Start p) })"

definition ClientTransferControlMessageSchema where
  "ClientTransferControlMessageSchema z = z_message z ''transfer-control'' [''transferId'', ''action'']
     (\<lambda>f. do { t \<leftarrow> EntityIdSchema z (f ''transferId'');
              a \<leftarrow> z_enum [''pause'', ''resume'', ''cancel''] (f ''action''); Some (Transfer_Control t a) })"

text \<open>\<open>z.union\<close>: the first schema that accepts.\<close>

fun z_union :: "(json \<Rightarrow> 'a option) list \<Rightarrow> json \<Rightarrow> 'a option" where
  "z_union [] j = None"
| "z_union (p # ps) j = (case p j of Some x \<Rightarrow> Some x | None \<Rightarrow> z_union ps j)"

definition client_schemas :: "zod \<Rightarrow> (json \<Rightarrow> client_message option) list" where
  "client_schemas z =
     [ClientHelloMessageSchema z, ClientConnectMessageSchema z, ClientHostKeyDecisionMessageSchema z,
      ClientTerminalInputMessageSchema z, ClientResizeMessageSchema z, ClientDisconnectMessageSchema z,
      ClientSessionActivityMessageSchema z, ClientShellHistoryMessageSchema z, ClientSftpListMessageSchema z,
      ClientSftpReadMessageSchema z, ClientSftpWriteMessageSchema z, ClientSftpMkdirMessageSchema z,
      ClientSftpRenameMessageSchema z, ClientSftpDeleteMessageSchema z, ClientSftpChmodMessageSchema z,
      ClientSftpUploadStartMessageSchema z, ClientSftpDownloadStartMessageSchema z, ClientTransferControlMessageSchema z]"


text \<open>The object a parsed message is, in the order of the schema's shape, and its size as JSON.\<close>

abbreviation jopt :: "string \<Rightarrow> ('a \<Rightarrow> json) \<Rightarrow> 'a option \<Rightarrow> (string \<times> json) list" where
  "jopt k f v \<equiv> (case v of None \<Rightarrow> [] | Some x \<Rightarrow> [(k, f x)])"

abbreviation jnum :: "int \<Rightarrow> json" where
  "jnum n \<equiv> JNum (of_int n)"

definition terminal_json :: "terminal_size \<Rightarrow> json" where
  "terminal_json t = JObj [(''columns'', jnum (ts_columns t)), (''rows'', jnum (ts_rows t)),
     (''type'', JStr (ts_type t)), (''encoding'', JStr (ts_encoding t))]"

fun body_type :: "client_body \<Rightarrow> string" where
  "body_type Hello = ''hello''"
| "body_type (Connect _) = ''connect''"
| "body_type (Host_Key_Decision _ _) = ''host-key-decision''"
| "body_type (Input _ _) = ''input''"
| "body_type (Resize _ _ _ _) = ''resize''"
| "body_type Disconnect = ''disconnect''"
| "body_type (Activity _ _ _ _ _) = ''activity''"
| "body_type (Shell_History _) = ''shell-history''"
| "body_type (Sftp_List _ _) = ''sftp-list''"
| "body_type (Sftp_Read _ _) = ''sftp-read''"
| "body_type (Sftp_Write _ _ _ _) = ''sftp-write''"
| "body_type (Sftp_Mkdir _ _) = ''sftp-mkdir''"
| "body_type (Sftp_Rename _ _) = ''sftp-rename''"
| "body_type (Sftp_Delete _ _) = ''sftp-delete''"
| "body_type (Sftp_Chmod _ _) = ''sftp-chmod''"
| "body_type (Sftp_Upload_Start _ _ _) = ''sftp-upload-start''"
| "body_type (Sftp_Download_Start _) = ''sftp-download-start''"
| "body_type (Transfer_Control _ _) = ''transfer-control''"

fun body_fields :: "client_body \<Rightarrow> (string \<times> json) list" where
  "body_fields Hello = []"
| "body_fields (Connect t) = [(''terminal'', terminal_json t)]"
| "body_fields (Host_Key_Decision p d) = [(''fingerprint'', JStr p), (''decision'', JStr d)]"
| "body_fields (Input n d) = [(''sequence'', jnum n), (''data'', JStr d)]"
| "body_fields (Resize c r w h) =
     [(''columns'', jnum c), (''rows'', jnum r)] @ jopt ''pixelWidth'' jnum w @ jopt ''pixelHeight'' jnum h"
| "body_fields Disconnect = []"
| "body_fields (Activity a v m r s) =
     [(''active'', JBool a), (''visible'', JBool v), (''monitoring'', JBool m), (''reduceWhenHidden'', JBool r),
      (''refreshIntervalSeconds'', jnum s)]"
| "body_fields (Shell_History n) = [(''limit'', jnum n)]"
| "body_fields (Sftp_List p c) = (''path'', JStr p) # jopt ''cursor'' JStr c"
| "body_fields (Sftp_Read p n) = [(''path'', JStr p), (''maxBytes'', jnum n)]"
| "body_fields (Sftp_Write p n e m) =
     [(''path'', JStr p), (''size'', jnum n), (''expectedSize'', jnum e), (''expectedModifiedAt'', JStr m)]"
| "body_fields (Sftp_Mkdir p m) = [(''path'', JStr p), (''mode'', jnum m)]"
| "body_fields (Sftp_Rename p q) = [(''sourcePath'', JStr p), (''destinationPath'', JStr q)]"
| "body_fields (Sftp_Delete p k) = [(''path'', JStr p), (''kind'', JStr k)]"
| "body_fields (Sftp_Chmod p m) = [(''path'', JStr p), (''mode'', jnum m)]"
| "body_fields (Sftp_Upload_Start p n m) = [(''path'', JStr p), (''size'', jnum n)] @ jopt ''modifiedAt'' JStr m"
| "body_fields (Sftp_Download_Start p) = [(''path'', JStr p)]"
| "body_fields (Transfer_Control t a) = [(''transferId'', JStr t), (''action'', JStr a)]"

definition message_json :: "client_message \<Rightarrow> json" where
  "message_json m = JObj ([(''protocolVersion'', jnum WS_PROTOCOL_VERSION), (''requestId'', JStr (cm_requestId m)),
     (''attemptId'', JStr (cm_attemptId m)), (''type'', JStr (body_type (cm_body m)))] @ body_fields (cm_body m))"

definition hasValidJsonSize :: "json \<Rightarrow> bool" where
  "hasValidJsonSize j =
     (case json_text j of None \<Rightarrow> False | Some t \<Rightarrow> length (utf8 t) \<le> MAX_JSON_MESSAGE_BYTES)"

definition ClientWebSocketMessageSchema :: "zod \<Rightarrow> json \<Rightarrow> client_message option" where
  "ClientWebSocketMessageSchema z j = do {
     m \<leftarrow> z_union (client_schemas z) j;
     if hasValidJsonSize (message_json m) then Some m else None }"

section \<open>Accepted messages are well formed, and read back\<close>

fun opt_ok :: "('a \<Rightarrow> bool) \<Rightarrow> 'a option \<Rightarrow> bool" where
  "opt_ok P None \<longleftrightarrow> True"
| "opt_ok P (Some x) \<longleftrightarrow> P x"

definition path_ok :: "string \<Rightarrow> bool" where
  "path_ok p \<longleftrightarrow> 1 \<le> length p \<and> length p \<le> 4096 \<and> nul \<notin> set p"

definition terminal_ok :: "terminal_size \<Rightarrow> bool" where
  "terminal_ok t \<longleftrightarrow> 2 \<le> ts_columns t \<and> ts_columns t \<le> 1000 \<and> 1 \<le> ts_rows t \<and> ts_rows t \<le> 500 \<and>
     ts_type t \<in> {''xterm-256color'', ''xterm'', ''screen-256color''} \<and> ts_encoding t \<in> {''utf-8'', ''gb18030'', ''big5''}"

fun body_ok :: "zod \<Rightarrow> client_body \<Rightarrow> bool" where
  "body_ok z (Connect t) \<longleftrightarrow> terminal_ok t"
| "body_ok z (Host_Key_Decision p d) \<longleftrightarrow> is_fingerprint p \<and> d \<in> {''trust_once'', ''trust_and_save'', ''reject''}"
| "body_ok z (Input n d) \<longleftrightarrow> 0 \<le> n \<and> n \<le> max_safe \<and> 1 \<le> length d \<and> length d \<le> 65536"
| "body_ok z (Resize c r w h) \<longleftrightarrow> 2 \<le> c \<and> c \<le> 1000 \<and> 1 \<le> r \<and> r \<le> 500 \<and>
     opt_ok (\<lambda>n. 0 \<le> n \<and> n \<le> 100000) w \<and> opt_ok (\<lambda>n. 0 \<le> n \<and> n \<le> 100000) h"
| "body_ok z (Activity a v m r s) \<longleftrightarrow> 5 \<le> s \<and> s \<le> 60"
| "body_ok z (Shell_History n) \<longleftrightarrow> 1 \<le> n \<and> n \<le> 50"
| "body_ok z (Sftp_List p c) \<longleftrightarrow> path_ok p \<and> opt_ok (\<lambda>s. 1 \<le> length s \<and> length s \<le> 512) c"
| "body_ok z (Sftp_Read p n) \<longleftrightarrow> path_ok p \<and> 1 \<le> n \<and> n \<le> 2097152"
| "body_ok z (Sftp_Write p n e m) \<longleftrightarrow> path_ok p \<and> 0 \<le> n \<and> n \<le> 2097152 \<and> 0 \<le> e \<and> e \<le> 2097152 \<and> z_datetime z m"
| "body_ok z (Sftp_Mkdir p m) \<longleftrightarrow> path_ok p \<and> 0 \<le> m \<and> m \<le> 4095"
| "body_ok z (Sftp_Rename p q) \<longleftrightarrow> path_ok p \<and> path_ok q"
| "body_ok z (Sftp_Delete p k) \<longleftrightarrow> path_ok p \<and> k \<in> {''file'', ''empty_directory''}"
| "body_ok z (Sftp_Chmod p m) \<longleftrightarrow> path_ok p \<and> 0 \<le> m \<and> m \<le> 4095"
| "body_ok z (Sftp_Upload_Start p n m) \<longleftrightarrow> path_ok p \<and> 0 \<le> n \<and> n \<le> 104857600 \<and> opt_ok (z_datetime z) m"
| "body_ok z (Sftp_Download_Start p) \<longleftrightarrow> path_ok p"
| "body_ok z (Transfer_Control t a) \<longleftrightarrow> z_uuid z t \<and> a \<in> {''pause'', ''resume'', ''cancel''}"
| "body_ok z _ \<longleftrightarrow> True"

definition message_ok :: "zod \<Rightarrow> client_message \<Rightarrow> bool" where
  "message_ok z m \<longleftrightarrow> z_uuid z (cm_requestId m) \<and> z_uuid z (cm_attemptId m) \<and> body_ok z (cm_body m)"

lemma z_str_iff: "z_str lo hi v = Some s \<longleftrightarrow> v = Some (JStr s) \<and> lo \<le> length s \<and> length s \<le> hi"
  by (auto simp: z_str_def bind_eq_Some_conv split: if_splits)

lemma z_int_iff: "z_int lo hi v = Some n \<longleftrightarrow> v = Some (jnum n) \<and> lo \<le> n \<and> n \<le> hi"
  by (auto simp: z_int_def bind_eq_Some_conv as_int_eq_Some split: if_splits)

lemma z_bool_iff: "z_bool v = Some b \<longleftrightarrow> v = Some (JBool b)"
  by (auto simp: z_bool_def split: option.splits json.splits)

lemma z_enum_iff: "z_enum ws v = Some s \<longleftrightarrow> v = Some (JStr s) \<and> s \<in> set ws"
  by (auto simp: z_enum_def bind_eq_Some_conv split: if_splits)

lemma z_test_iff: "z_test P v = Some s \<longleftrightarrow> v = Some (JStr s) \<and> P s"
  by (auto simp: z_test_def bind_eq_Some_conv split: if_splits)

lemma z_optional_iff: "z_optional p v = Some x \<longleftrightarrow> (v = None \<and> x = None) \<or> (\<exists>j y. v = Some j \<and> x = Some y \<and> p (Some j) = Some y)"
  by (auto simp: z_optional_def split: option.splits)

lemma z_default_iff: "z_default d p v = Some x \<longleftrightarrow> (v = None \<and> x = d) \<or> (\<exists>j. v = Some j \<and> p (Some j) = Some x)"
  by (auto simp: z_default_def split: option.splits)

lemma RemotePathSchema_iff: "RemotePathSchema v = Some p \<longleftrightarrow> v = Some (JStr p) \<and> path_ok p"
  by (auto simp: RemotePathSchema_def bind_eq_Some_conv z_str_iff path_ok_def split: if_splits)

lemma z_strict_iff: "z_strict ks v = Some kvs \<longleftrightarrow> v = Some (JObj kvs) \<and> fst ` set kvs \<subseteq> set ks"
  by (auto simp: z_strict_def split: option.splits json.splits)

lemmas field_schemas = EntityIdSchema_def RequestIdSchema_def TimestampSchema_def ProtocolVersionSchema_def
  TerminalEncodingSchema_def TerminalTypeSchema_def HostKeyFingerprintSchema_def FileModeSchema_def

lemmas z_iffs = z_str_iff z_int_iff z_bool_iff z_enum_iff z_test_iff z_optional_iff z_default_iff RemotePathSchema_iff
  z_strict_iff bind_eq_Some_conv

lemma TerminalObjectSchema_iff:
  "TerminalObjectSchema v = Some t \<longleftrightarrow> (\<exists>kvs. v = Some (JObj kvs) \<and> fst ` set kvs \<subseteq> {''columns'', ''rows'', ''type'', ''encoding''} \<and>
     map_of kvs ''columns'' = Some (jnum (ts_columns t)) \<and> map_of kvs ''rows'' = Some (jnum (ts_rows t)) \<and>
     map_of kvs ''type'' = Some (JStr (ts_type t)) \<and> map_of kvs ''encoding'' = Some (JStr (ts_encoding t)) \<and> terminal_ok t)"
  by (cases t) (auto simp: TerminalObjectSchema_def z_iffs field_schemas terminal_ok_def)

lemma TerminalObjectSchema_json: "terminal_ok t \<Longrightarrow> TerminalObjectSchema (Some (terminal_json t)) = Some t"
  unfolding TerminalObjectSchema_iff terminal_json_def by simp

lemmas client_schema_defs =
  ClientHelloMessageSchema_def ClientConnectMessageSchema_def ClientHostKeyDecisionMessageSchema_def
  ClientTerminalInputMessageSchema_def ClientResizeMessageSchema_def ClientDisconnectMessageSchema_def
  ClientSessionActivityMessageSchema_def ClientShellHistoryMessageSchema_def ClientSftpListMessageSchema_def
  ClientSftpReadMessageSchema_def ClientSftpWriteMessageSchema_def ClientSftpMkdirMessageSchema_def
  ClientSftpRenameMessageSchema_def ClientSftpDeleteMessageSchema_def ClientSftpChmodMessageSchema_def
  ClientSftpUploadStartMessageSchema_def ClientSftpDownloadStartMessageSchema_def ClientTransferControlMessageSchema_def

lemma z_union_Some: "z_union ps j = Some x \<Longrightarrow> \<exists>p \<in> set ps. p j = Some x"
  by (induction ps) (auto split: option.splits)

lemma z_message_ok:
  assumes "z_message z ty ks body j = Some m" "\<And>f b. body f = Some b \<Longrightarrow> body_ok z b"
  shows "message_ok z m"
  using assms by (cases j) (auto simp: z_message_def z_iffs field_schemas message_ok_def)

lemma client_schema_ok: "p \<in> set (client_schemas z) \<Longrightarrow> p j = Some m \<Longrightarrow> message_ok z m"
  unfolding client_schemas_def client_schema_defs
  by (simp only: list.set insert_iff empty_iff, elim disjE)
    (simp_all, (erule z_message_ok, auto simp: z_iffs field_schemas TerminalObjectSchema_iff)+)

lemma client_message_ok: "ClientWebSocketMessageSchema z j = Some m \<Longrightarrow> message_ok z m"
  by (auto simp: ClientWebSocketMessageSchema_def bind_eq_Some_conv dest!: z_union_Some client_schema_ok split: if_splits)


lemma z_message_other:
  "ty \<noteq> body_type (cm_body m) \<Longrightarrow> z_message z ty ks body (message_json m) = None"
  by (cases "z_message z ty ks body (message_json m)")
    (auto simp: z_message_def message_json_def z_iffs)

lemma z_message_same:
  assumes "z_uuid z (cm_requestId m)" "z_uuid z (cm_attemptId m)"
    and "fst ` set (body_fields (cm_body m)) \<subseteq> set ks"
    and "body (map_of ([(''protocolVersion'', jnum WS_PROTOCOL_VERSION), (''requestId'', JStr (cm_requestId m)),
     (''attemptId'', JStr (cm_attemptId m)), (''type'', JStr (body_type (cm_body m)))] @ body_fields (cm_body m))) = Some (cm_body m)"
    and "ty = body_type (cm_body m)"
  shows "z_message z ty ks body (message_json m) = Some m"
proof -
  have "z_strict (base_keys @ ks) (Some (message_json m)) = Some ([(''protocolVersion'', jnum WS_PROTOCOL_VERSION), (''requestId'', JStr (cm_requestId m)),
     (''attemptId'', JStr (cm_attemptId m)), (''type'', JStr (body_type (cm_body m)))] @ body_fields (cm_body m))"
    using assms(3) by (auto simp: z_strict_iff message_json_def base_keys_def)
  then show ?thesis
    unfolding z_message_def
    using assms(1,2,4,5)
    by (auto simp: bind_eq_Some_conv field_schemas z_int_iff z_test_iff z_enum_iff)
qed

text \<open>The schemas as a table from message types, which are distinct, so one row decides each message.\<close>

definition client_table :: "zod \<Rightarrow> (string \<times> string list \<times> ((string \<Rightarrow> json option) \<Rightarrow> client_body option)) list" where
  "client_table z =
     [(''hello'', [],
       (\<lambda>f. Some Hello)),
      (''connect'', [''terminal''],
       (\<lambda>f. do { t \<leftarrow> TerminalObjectSchema (f ''terminal''); Some (Connect t) })),
      (''host-key-decision'', [''fingerprint'', ''decision''],
       (\<lambda>f. do { p \<leftarrow> HostKeyFingerprintSchema (f ''fingerprint'');
              d \<leftarrow> z_enum [''trust_once'', ''trust_and_save'', ''reject''] (f ''decision'');
              Some (Host_Key_Decision p d) })),
      (''input'', [''sequence'', ''data''],
       (\<lambda>f. do { n \<leftarrow> z_int 0 max_safe (f ''sequence''); d \<leftarrow> z_str 1 65536 (f ''data''); Some (Input n d) })),
      (''resize'', [''columns'', ''rows'', ''pixelWidth'', ''pixelHeight''],
       (\<lambda>f. do { c \<leftarrow> z_int 2 1000 (f ''columns''); r \<leftarrow> z_int 1 500 (f ''rows'');
              w \<leftarrow> z_optional (z_int 0 100000) (f ''pixelWidth'');
              h \<leftarrow> z_optional (z_int 0 100000) (f ''pixelHeight'');
              Some (Resize c r w h) })),
      (''disconnect'', [],
       (\<lambda>f. Some Disconnect)),
      (''activity'', [''active'', ''visible'', ''monitoring'', ''reduceWhenHidden'', ''refreshIntervalSeconds''],
       (\<lambda>f. do { a \<leftarrow> z_bool (f ''active''); v \<leftarrow> z_bool (f ''visible''); m \<leftarrow> z_bool (f ''monitoring'');
              r \<leftarrow> z_bool (f ''reduceWhenHidden''); s \<leftarrow> z_int 5 60 (f ''refreshIntervalSeconds'');
              Some (Activity a v m r s) })),
      (''shell-history'', [''limit''],
       (\<lambda>f. do { n \<leftarrow> z_default 50 (z_int 1 50) (f ''limit''); Some (Shell_History n) })),
      (''sftp-list'', [''path'', ''cursor''],
       (\<lambda>f. do { p \<leftarrow> RemotePathSchema (f ''path''); c \<leftarrow> z_optional (z_str 1 512) (f ''cursor''); Some (Sftp_List p c) })),
      (''sftp-read'', [''path'', ''maxBytes''],
       (\<lambda>f. do { p \<leftarrow> RemotePathSchema (f ''path'');
              n \<leftarrow> z_default (2 * 1024 * 1024) (z_int 1 (2 * 1024 * 1024)) (f ''maxBytes'');
              Some (Sftp_Read p n) })),
      (''sftp-write'', [''path'', ''size'', ''expectedSize'', ''expectedModifiedAt''],
       (\<lambda>f. do { p \<leftarrow> RemotePathSchema (f ''path'');
              n \<leftarrow> z_int 0 (2 * 1024 * 1024) (f ''size'');
              e \<leftarrow> z_int 0 (2 * 1024 * 1024) (f ''expectedSize'');
              m \<leftarrow> TimestampSchema z (f ''expectedModifiedAt'');
              Some (Sftp_Write p n e m) })),
      (''sftp-mkdir'', [''path'', ''mode''],
       (\<lambda>f. do { p \<leftarrow> RemotePathSchema (f ''path''); m \<leftarrow> z_default 493 FileModeSchema (f ''mode''); Some (Sftp_Mkdir p m) })),
      (''sftp-rename'', [''sourcePath'', ''destinationPath''],
       (\<lambda>f. do { p \<leftarrow> RemotePathSchema (f ''sourcePath''); q \<leftarrow> RemotePathSchema (f ''destinationPath''); Some (Sftp_Rename p q) })),
      (''sftp-delete'', [''path'', ''kind''],
       (\<lambda>f. do { p \<leftarrow> RemotePathSchema (f ''path''); k \<leftarrow> z_enum [''file'', ''empty_directory''] (f ''kind''); Some (Sftp_Delete p k) })),
      (''sftp-chmod'', [''path'', ''mode''],
       (\<lambda>f. do { p \<leftarrow> RemotePathSchema (f ''path''); m \<leftarrow> FileModeSchema (f ''mode''); Some (Sftp_Chmod p m) })),
      (''sftp-upload-start'', [''path'', ''size'', ''modifiedAt''],
       (\<lambda>f. do { p \<leftarrow> RemotePathSchema (f ''path''); n \<leftarrow> z_int 0 (100 * 1024 * 1024) (f ''size'');
              m \<leftarrow> z_optional (TimestampSchema z) (f ''modifiedAt''); Some (Sftp_Upload_Start p n m) })),
      (''sftp-download-start'', [''path''],
       (\<lambda>f. do { p \<leftarrow> RemotePathSchema (f ''path''); Some (Sftp_Download_Start p) })),
      (''transfer-control'', [''transferId'', ''action''],
       (\<lambda>f. do { t \<leftarrow> EntityIdSchema z (f ''transferId'');
              a \<leftarrow> z_enum [''pause'', ''resume'', ''cancel''] (f ''action''); Some (Transfer_Control t a) }))]"

lemma client_schemas_table: "client_schemas z = map (\<lambda>(ty, ks, b). z_message z ty ks b) (client_table z)"
  unfolding client_schemas_def client_schema_defs client_table_def by (simp only: list.map case_prod_conv)

lemma z_union_none: "ty \<notin> fst ` set tbl \<Longrightarrow> ty = body_type (cm_body m) \<Longrightarrow>
    z_union (map (\<lambda>(ty, ks, b). z_message z ty ks b) tbl) (message_json m) = None"
proof (induction tbl)
  case (Cons e tbl)
  then show ?case by (cases e) (auto simp: z_message_other)
qed simp

lemma z_union_table:
  assumes "distinct (map fst tbl)" "map_of tbl ty = Some (ks, b)" "ty = body_type (cm_body m)"
  shows "z_union (map (\<lambda>(ty, ks, b). z_message z ty ks b) tbl) (message_json m) = z_message z ty ks b (message_json m)"
  using assms
proof (induction tbl)
  case (Cons e tbl)
  obtain ty' ks' b' where e: "e = (ty', ks', b')" by (cases e) auto
  show ?case
  proof (cases "ty' = ty")
    case True
    then show ?thesis
      using Cons.prems e z_union_none [of ty tbl m z] by (auto split: option.splits)
  next
    case False
    then show ?thesis using Cons e by (simp add: z_message_other)
  qed
qed simp

lemma client_table_types: "distinct (map fst (client_table z))"
  by (simp add: client_table_def)

lemma union_message_json_row:
  assumes "message_ok z m"
    and "case map_of (client_table z) (body_type (cm_body m)) of None \<Rightarrow> False
      | Some (ks, b) \<Rightarrow> fst ` set (body_fields (cm_body m)) \<subseteq> set ks \<and>
          b (map_of ([(''protocolVersion'', jnum WS_PROTOCOL_VERSION), (''requestId'', JStr (cm_requestId m)),
             (''attemptId'', JStr (cm_attemptId m)), (''type'', JStr (body_type (cm_body m)))] @ body_fields (cm_body m)))
          = Some (cm_body m)"
  shows "z_union (client_schemas z) (message_json m) = Some m"
proof -
  obtain ks b where row: "map_of (client_table z) (body_type (cm_body m)) = Some (ks, b)"
    using assms(2) by (auto split: option.splits)
  have "z_message z (body_type (cm_body m)) ks b (message_json m) = Some m"
    by (rule z_message_same) (use assms row in \<open>auto simp: message_ok_def\<close>)
  then show ?thesis using z_union_table [OF client_table_types row refl] by (simp add: client_schemas_table)
qed

lemma union_message_json: "message_ok z m \<Longrightarrow> z_union (client_schemas z) (message_json m) = Some m"
proof (cases "cm_body m")
  case (Connect t)
  assume ok: "message_ok z m"
  show ?thesis
    by (rule union_message_json_row [OF ok])
      (use ok Connect in \<open>simp_all add: client_table_def message_ok_def TerminalObjectSchema_json\<close>)
next
  case (Input n d)
  assume ok: "message_ok z m"
  show ?thesis
    by (rule union_message_json_row [OF ok])
      (use ok Input in \<open>simp_all add: client_table_def message_ok_def z_iffs field_schemas\<close>)
next
  case (Hello)
  assume ok: "message_ok z m"
  show ?thesis
    by (rule union_message_json_row [OF ok])
      (use ok Hello in \<open>auto simp: client_table_def message_ok_def z_iffs field_schemas split: option.splits\<close>)
next
  case (Host_Key_Decision p d)
  assume ok: "message_ok z m"
  show ?thesis
    by (rule union_message_json_row [OF ok])
      (use ok Host_Key_Decision in \<open>auto simp: client_table_def message_ok_def z_iffs field_schemas split: option.splits\<close>)
next
  case (Resize c r w h)
  assume ok: "message_ok z m"
  show ?thesis
    by (rule union_message_json_row [OF ok])
      (use ok Resize in \<open>auto simp: client_table_def message_ok_def z_iffs field_schemas split: option.splits\<close>)
next
  case (Disconnect)
  assume ok: "message_ok z m"
  show ?thesis
    by (rule union_message_json_row [OF ok])
      (use ok Disconnect in \<open>auto simp: client_table_def message_ok_def z_iffs field_schemas split: option.splits\<close>)
next
  case (Activity a v mm r s)
  assume ok: "message_ok z m"
  show ?thesis
    by (rule union_message_json_row [OF ok])
      (use ok Activity in \<open>auto simp: client_table_def message_ok_def z_iffs field_schemas split: option.splits\<close>)
next
  case (Shell_History n)
  assume ok: "message_ok z m"
  show ?thesis
    by (rule union_message_json_row [OF ok])
      (use ok Shell_History in \<open>auto simp: client_table_def message_ok_def z_iffs field_schemas split: option.splits\<close>)
next
  case (Sftp_List p c)
  assume ok: "message_ok z m"
  show ?thesis
    by (rule union_message_json_row [OF ok])
      (use ok Sftp_List in \<open>auto simp: client_table_def message_ok_def z_iffs field_schemas split: option.splits\<close>)
next
  case (Sftp_Read p n)
  assume ok: "message_ok z m"
  show ?thesis
    by (rule union_message_json_row [OF ok])
      (use ok Sftp_Read in \<open>auto simp: client_table_def message_ok_def z_iffs field_schemas split: option.splits\<close>)
next
  case (Sftp_Write p n e mm)
  assume ok: "message_ok z m"
  show ?thesis
    by (rule union_message_json_row [OF ok])
      (use ok Sftp_Write in \<open>auto simp: client_table_def message_ok_def z_iffs field_schemas split: option.splits\<close>)
next
  case (Sftp_Mkdir p mm)
  assume ok: "message_ok z m"
  show ?thesis
    by (rule union_message_json_row [OF ok])
      (use ok Sftp_Mkdir in \<open>auto simp: client_table_def message_ok_def z_iffs field_schemas split: option.splits\<close>)
next
  case (Sftp_Rename p q)
  assume ok: "message_ok z m"
  show ?thesis
    by (rule union_message_json_row [OF ok])
      (use ok Sftp_Rename in \<open>auto simp: client_table_def message_ok_def z_iffs field_schemas split: option.splits\<close>)
next
  case (Sftp_Delete p k)
  assume ok: "message_ok z m"
  show ?thesis
    by (rule union_message_json_row [OF ok])
      (use ok Sftp_Delete in \<open>auto simp: client_table_def message_ok_def z_iffs field_schemas split: option.splits\<close>)
next
  case (Sftp_Chmod p mm)
  assume ok: "message_ok z m"
  show ?thesis
    by (rule union_message_json_row [OF ok])
      (use ok Sftp_Chmod in \<open>auto simp: client_table_def message_ok_def z_iffs field_schemas split: option.splits\<close>)
next
  case (Sftp_Upload_Start p n mm)
  assume ok: "message_ok z m"
  show ?thesis
    by (rule union_message_json_row [OF ok])
      (use ok Sftp_Upload_Start in \<open>auto simp: client_table_def message_ok_def z_iffs field_schemas split: option.splits\<close>)
next
  case (Sftp_Download_Start p)
  assume ok: "message_ok z m"
  show ?thesis
    by (rule union_message_json_row [OF ok])
      (use ok Sftp_Download_Start in \<open>auto simp: client_table_def message_ok_def z_iffs field_schemas split: option.splits\<close>)
next
  case (Transfer_Control t a)
  assume ok: "message_ok z m"
  show ?thesis
    by (rule union_message_json_row [OF ok])
      (use ok Transfer_Control in \<open>auto simp: client_table_def message_ok_def z_iffs field_schemas split: option.splits\<close>)
qed


text \<open>
  every message the Worker accepts is within the bounds of its schema, and what the schema
  returns, written as JSON again, is accepted again with the same result: defaults are
  filled in once, and nothing is lost or reinterpreted on the second reading.
\<close>

theorem client_message_reads_back:
  assumes "ClientWebSocketMessageSchema z j = Some m"
  shows "message_ok z m \<and> ClientWebSocketMessageSchema z (message_json m) = Some m"
proof -
  have "message_ok z m" by (rule client_message_ok [OF assms])
  moreover have "hasValidJsonSize (message_json m)"
    using assms by (auto simp: ClientWebSocketMessageSchema_def bind_eq_Some_conv split: if_splits)
  ultimately show ?thesis
    by (simp add: ClientWebSocketMessageSchema_def union_message_json)
qed

definition demo_zod :: zod where
  "demo_zod = \<lparr>z_uuid = (\<lambda>s. length s = 1), z_datetime = (\<lambda>s. s \<noteq> [])\<rparr>"

lemma plain_char: "32 \<le> cu c \<Longrightarrow> cu c \<noteq> 34 \<Longrightarrow> cu c \<noteq> 92 \<Longrightarrow> esc_char c = [c]"
  by (auto simp: esc_char_def quote_char_def bs_char_def)

lemma length_utf8_le: "length (utf8 s) \<le> 2 * length s"
  by (induction s) auto

definition demo_message :: client_message where
  "demo_message = \<lparr>cm_requestId = ''a'', cm_attemptId = ''b'', cm_body = Disconnect\<rparr>"

lemma demo_message_accepted: "ClientWebSocketMessageSchema demo_zod (message_json demo_message) = Some demo_message"
proof -
  have "\<exists>t. json_text (message_json demo_message) = Some t \<and> length t \<le> 1000"
    by (simp add: message_json_def demo_message_def json_str_def plain_char show_int_def show_nat_digit is_safe_integer_def
        max_safe_def WS_PROTOCOL_VERSION_def)
  then obtain t where t: "json_text (message_json demo_message) = Some t" "length t \<le> 1000" by blast
  then have "hasValidJsonSize (message_json demo_message)"
    using length_utf8_le [of t] by (simp add: hasValidJsonSize_def MAX_JSON_MESSAGE_BYTES_def)
  moreover have "message_ok demo_zod demo_message" by (simp add: message_ok_def demo_message_def demo_zod_def)
  ultimately show ?thesis by (simp add: ClientWebSocketMessageSchema_def union_message_json)
qed

lemma client_message_reads_back_witness:
  "message_ok demo_zod demo_message \<and> ClientWebSocketMessageSchema demo_zod (message_json demo_message) = Some demo_message"
  by (rule client_message_reads_back [OF demo_message_accepted])

end
