(* ===== verification/Binary_Frame.thy ===== *)
theory Binary_Frame
  imports Contracts
begin

text \<open>
  Binary WebSocket frames: a big-endian 32-bit length, a JSON header, the payload. The header is
  \<open>BinaryFrameHeaderSchema\<close> of \<open>packages/contracts/src/websocket.ts\<close>; encoder and decoder exist
  twice, in \<open>apps/worker/src/durable/ssh-session.ts\<close> and in \<open>apps/web/src/lib/binary-frame.ts\<close>.
  The lemmas show that each side reads what the other writes and that a decoded frame is
  exactly the bytes received, with the declared payload length.
\<close>

section \<open>The header\<close>

record frame_header =
  fh_kind :: string
  fh_sessionId :: string
  fh_attemptId :: string
  fh_transferId :: "string option"
  fh_sequence :: int
  fh_offset :: "int option"
  fh_payloadBytes :: int

definition frame_kinds :: "string list" where
  "frame_kinds = [''terminal-input'', ''terminal-output'', ''sftp-upload-chunk'', ''sftp-download-chunk'']"

definition header_keys :: "string list" where
  "header_keys = [''protocolVersion'', ''kind'', ''sessionId'', ''attemptId'', ''transferId'', ''sequence'', ''offset'', ''payloadBytes'']"

text \<open>\<open>!value\<close> on an optional string.\<close>

definition falsy :: "string option \<Rightarrow> bool" where
  "falsy v \<longleftrightarrow> v = None \<or> v = Some []"

text \<open>The \<open>superRefine\<close>: transfer fields exactly on SFTP frames.\<close>

definition transfer_fields_ok :: "frame_header \<Rightarrow> bool" where
  "transfer_fields_ok h =
     (let isTransfer = starts_with ''sftp-'' (fh_kind h) in
      \<not> (isTransfer \<and> (falsy (fh_transferId h) \<or> fh_offset h = None)) \<and>
      \<not> (\<not> isTransfer \<and> (\<not> falsy (fh_transferId h) \<or> fh_offset h \<noteq> None)))"

definition BinaryFrameHeaderSchema :: "zod \<Rightarrow> json \<Rightarrow> frame_header option" where
  "BinaryFrameHeaderSchema z j = do {
     kvs \<leftarrow> z_strict header_keys (Some j);
     _ \<leftarrow> ProtocolVersionSchema (map_of kvs ''protocolVersion'');
     k \<leftarrow> z_enum frame_kinds (map_of kvs ''kind'');
     s \<leftarrow> EntityIdSchema z (map_of kvs ''sessionId'');
     a \<leftarrow> EntityIdSchema z (map_of kvs ''attemptId'');
     t \<leftarrow> z_optional (EntityIdSchema z) (map_of kvs ''transferId'');
     n \<leftarrow> z_int 0 max_safe (map_of kvs ''sequence'');
     off \<leftarrow> z_optional (z_int 0 max_safe) (map_of kvs ''offset'');
     b \<leftarrow> z_int 1 65536 (map_of kvs ''payloadBytes'');
     let h = \<lparr>fh_kind = k, fh_sessionId = s, fh_attemptId = a, fh_transferId = t, fh_sequence = n, fh_offset = off,
              fh_payloadBytes = b\<rparr>;
     if transfer_fields_ok h then Some h else None }"

definition header_json :: "frame_header \<Rightarrow> json" where
  "header_json h = JObj ([(''protocolVersion'', jnum WS_PROTOCOL_VERSION), (''kind'', JStr (fh_kind h)),
     (''sessionId'', JStr (fh_sessionId h)), (''attemptId'', JStr (fh_attemptId h))]
     @ jopt ''transferId'' JStr (fh_transferId h) @ [(''sequence'', jnum (fh_sequence h))]
     @ jopt ''offset'' jnum (fh_offset h) @ [(''payloadBytes'', jnum (fh_payloadBytes h))])"

section \<open>Frames\<close>

text \<open>\<open>setUint32(0, n)\<close> and \<open>getUint32(0)\<close>\<close>

definition be32 :: "nat \<Rightarrow> bytes" where
  "be32 n = [byte (n div 16777216 mod 256), byte (n div 65536 mod 256), byte (n div 256 mod 256), byte (n mod 256)]"

definition get32 :: "bytes \<Rightarrow> nat" where
  "get32 bs = unat (bs ! 0) * 16777216 + unat (bs ! 1) * 65536 + unat (bs ! 2) * 256 + unat (bs ! 3)"

text \<open>The Worker's encoder; \<open>None\<close> where the header has no JSON text in the model.\<close>

definition encodeBinaryFrame :: "frame_header \<Rightarrow> bytes \<Rightarrow> bytes option" where
  "encodeBinaryFrame h payload = do {
     t \<leftarrow> json_text (header_json h);
     let encodedHeader = utf8 t;
     Some (be32 (length encodedHeader) @ encodedHeader @ payload) }"

definition decodeBinaryFrame :: "zod \<Rightarrow> bytes \<Rightarrow> (frame_header \<times> bytes) throws" where
  "decodeBinaryFrame z bs =
     (if length bs < 5 then Inl ''Binary frame is truncated''
      else
        let headerBytes = get32 bs in
        if headerBytes < 2 \<or> headerBytes > 16 * 1024 \<or> 4 + headerBytes \<ge> length bs then Inl ''Binary frame header is invalid''
        else case Option.bind (utf8_decode (take headerBytes (drop 4 bs))) json_parse of
          None \<Rightarrow> Inl ''Binary frame header is invalid''
        | Some decoded \<Rightarrow>
            (case BinaryFrameHeaderSchema z decoded of
               None \<Rightarrow> Inl ''Binary frame header is invalid''
             | Some h \<Rightarrow>
                 let payload = drop (4 + headerBytes) bs in
                 if int (length payload) \<noteq> fh_payloadBytes h then Inl ''Binary frame payload size mismatch''
                 else Inr (h, payload)))"

text \<open>The browser's pair: the encoder checks the payload, and the decoder lets decoding errors through.\<close>

definition web_encodeBinaryFrame :: "frame_header \<Rightarrow> bytes \<Rightarrow> bytes throws" where
  "web_encodeBinaryFrame h payload =
     (if int (length payload) \<noteq> fh_payloadBytes h then Inl ''Binary frame payload size does not match its header''
      else case encodeBinaryFrame h payload of None \<Rightarrow> Inl ''JSON'' | Some f \<Rightarrow> Inr f)"

definition web_decodeBinaryFrame :: "zod \<Rightarrow> bytes \<Rightarrow> (frame_header \<times> bytes) throws" where
  "web_decodeBinaryFrame z bs =
     (if length bs < 5 then Inl ''Binary frame is truncated''
      else
        let headerLength = get32 bs in
        if headerLength < 2 \<or> headerLength > 16 * 1024 \<or> 4 + headerLength \<ge> length bs then Inl ''Binary frame header is invalid''
        else case utf8_decode (take headerLength (drop 4 bs)) of
          None \<Rightarrow> Inl ''TextDecoder''
        | Some rawHeader \<Rightarrow>
            (case json_parse rawHeader of
               None \<Rightarrow> Inl ''JSON''
             | Some decoded \<Rightarrow>
                 (case BinaryFrameHeaderSchema z decoded of
                    None \<Rightarrow> Inl ''Binary frame header is invalid''
                  | Some h \<Rightarrow>
                      let payload = drop (4 + headerLength) bs in
                      if int (length payload) \<noteq> fh_payloadBytes h
                      then Inl ''Binary frame payload size does not match its header''
                      else Inr (h, payload))))"

section \<open>The header reads back\<close>

definition header_ok :: "zod \<Rightarrow> frame_header \<Rightarrow> bool" where
  "header_ok z h \<longleftrightarrow> fh_kind h \<in> set frame_kinds \<and> z_uuid z (fh_sessionId h) \<and> z_uuid z (fh_attemptId h) \<and>
     opt_ok (z_uuid z) (fh_transferId h) \<and> 0 \<le> fh_sequence h \<and> fh_sequence h \<le> max_safe \<and>
     opt_ok (\<lambda>n. 0 \<le> n \<and> n \<le> max_safe) (fh_offset h) \<and> 1 \<le> fh_payloadBytes h \<and> fh_payloadBytes h \<le> 65536 \<and>
     transfer_fields_ok h"

lemma header_schema_ok: "BinaryFrameHeaderSchema z j = Some h \<Longrightarrow> header_ok z h"
  by (auto simp: BinaryFrameHeaderSchema_def z_iffs field_schemas header_ok_def Let_def split: if_splits)

lemma header_json_keys: "fst ` set (case header_json h of JObj kvs \<Rightarrow> kvs | _ \<Rightarrow> []) \<subseteq> set header_keys"
  by (auto simp: header_json_def header_keys_def split: option.splits)

lemma header_schema_json:
  assumes "header_ok z h"
  shows "BinaryFrameHeaderSchema z (header_json h) = Some h"
  unfolding BinaryFrameHeaderSchema_def
  using assms
  by (cases "fh_transferId h"; cases "fh_offset h";
      auto simp: z_iffs field_schemas header_ok_def Let_def header_json_def header_keys_def transfer_fields_ok_def)

lemma header_json_ok: "json_ok (header_json h)"
  by (auto simp: header_json_def split: option.splits)

lemma safe_text: "0 \<le> n \<Longrightarrow> n \<le> max_safe \<Longrightarrow> is_safe_integer (of_int n)"
  by (simp add: is_safe_integer_def)

lemma header_text: "header_ok z h \<Longrightarrow> \<exists>t. json_text (header_json h) = Some t \<and> 2 \<le> length t"
  by (auto simp: header_json_def header_ok_def safe_text max_safe_def WS_PROTOCOL_VERSION_def is_safe_integer_def
      split: option.splits)

lemma length_utf8: "length s \<le> length (utf8 s)"
  by (induction s) auto

lemma be32_get32: "n < 4294967296 \<Longrightarrow> get32 (be32 n @ bs) = n"
proof -
  assume "n < 4294967296"
  then have "n div 16777216 < 256" by linarith
  moreover have "n = n div 16777216 * 16777216 + n div 65536 mod 256 * 65536 + n div 256 mod 256 * 256 + n mod 256"
  proof -
    have "n = n div 256 * 256 + n mod 256" by simp
    moreover have "n div 256 = n div 65536 * 256 + n div 256 mod 256"
      using div_mult2_eq [of n 256 256] by simp
    moreover have "n div 65536 = n div 16777216 * 256 + n div 65536 mod 256"
      using div_mult2_eq [of n 65536 256] by simp
    ultimately show ?thesis by linarith
  qed
  ultimately show ?thesis by (simp add: get32_def be32_def)
qed

lemma get32_be32:
  assumes "4 \<le> length bs"
  shows "be32 (get32 bs) = take 4 bs"
proof -
  obtain a b c d r where bs: "bs = a # b # c # d # r"
    using assms by (auto simp: numeral_eq_Suc Suc_le_length_iff)
  let ?x = "unat a * 256 + unat b" and ?y = "(unat a * 256 + unat b) * 256 + unat c"
  have e: "get32 bs = ?y * 256 + unat d" by (simp add: get32_def bs)
  have dm: "(m * 256 + unat (w :: 8 word)) div 256 = m" "(m * 256 + unat w) mod 256 = unat w" for m w
    by simp_all
  have q: "get32 bs div 256 = ?y" "?y div 256 = ?x" "?x div 256 = unat a"
    unfolding e by (rule dm(1))+
  moreover have "get32 bs div 65536 = get32 bs div 256 div 256" "get32 bs div 16777216 = get32 bs div 256 div 256 div 256"
    by (simp_all only: div_mult2_eq [symmetric]) simp_all
  ultimately have "get32 bs div 16777216 mod 256 = unat a" "get32 bs div 65536 mod 256 = unat b" "get32 bs div 256 mod 256 = unat c"
    "get32 bs mod 256 = unat d"
    by (simp_all only: q dm e mod_less unat8_less)
  then show ?thesis by (simp add: be32_def bs)
qed


section \<open>Frames read back\<close>

lemma decode_split:
  "5 \<le> length bs \<Longrightarrow> 4 + n < length bs \<Longrightarrow> n = get32 bs \<Longrightarrow> be32 n @ take n (drop 4 bs) @ drop (4 + n) bs = bs"
  using get32_be32 [of bs] append_take_drop_id [of 4 bs] append_take_drop_id [of n "drop 4 bs"]
  by (simp add: add.commute)

lemma decode_sound:
  assumes "decodeBinaryFrame z bs = Inr (h, p)"
  shows "header_ok z h" "int (length p) = fh_payloadBytes h"
    "\<exists>hd_bytes t. bs = be32 (length hd_bytes) @ hd_bytes @ p \<and> utf8_decode hd_bytes = Some t \<and>
       (\<exists>j. json_parse t = Some j \<and> BinaryFrameHeaderSchema z j = Some h)"
proof -
  let ?n = "get32 bs"
  have c: "5 \<le> length bs" "4 + ?n < length bs" using assms by (auto simp: decodeBinaryFrame_def Let_def split: if_splits)
  obtain t j where d: "utf8_decode (take ?n (drop 4 bs)) = Some t" "json_parse t = Some j"
    "BinaryFrameHeaderSchema z j = Some h" "p = drop (4 + ?n) bs" "int (length p) = fh_payloadBytes h"
    using assms c by (auto simp: decodeBinaryFrame_def Let_def bind_eq_Some_conv split: if_splits option.splits)
  show "header_ok z h" by (rule header_schema_ok) (rule d(3))
  show "int (length p) = fh_payloadBytes h" by (rule d(5))
  have "length (take ?n (drop 4 bs)) = ?n" using c by simp
  then show "\<exists>hd_bytes t. bs = be32 (length hd_bytes) @ hd_bytes @ p \<and> utf8_decode hd_bytes = Some t \<and>
       (\<exists>j. json_parse t = Some j \<and> BinaryFrameHeaderSchema z j = Some h)"
    using decode_split [OF c refl] d by (intro exI [of _ "take ?n (drop 4 bs)"] exI [of _ t]) auto
qed

text \<open>Both decoders accept the same frames with the same result.\<close>

lemma web_decode_eq: "(web_decodeBinaryFrame z bs = Inr r) = (decodeBinaryFrame z bs = Inr r)"
  by (auto simp: web_decodeBinaryFrame_def decodeBinaryFrame_def Let_def split: option.splits if_splits)

lemma decode_encode:
  assumes "header_ok z h" "int (length p) = fh_payloadBytes h" "encodeBinaryFrame h p = Some f" "length f \<le> length p + 16388"
  shows "decodeBinaryFrame z f = Inr (h, p)"
proof -
  obtain t where t: "json_text (header_json h) = Some t" "2 \<le> length t" using header_text [OF assms(1)] by blast
  let ?e = "utf8 t"
  have f: "f = be32 (length ?e) @ ?e @ p" using assms(3) t(1) by (simp add: encodeBinaryFrame_def Let_def)
  have b: "length (be32 n) = 4" for n by (simp add: be32_def)
  have len: "2 \<le> length ?e" "length ?e \<le> 16384" using t(2) length_utf8 [of t] assms(4) by (auto simp: f b)
  have g: "get32 f = length ?e" unfolding f using len by (intro be32_get32) linarith
  have p: "0 < length p" using assms(1,2) by (auto simp: header_ok_def)
  have "take (length ?e) (drop 4 f) = ?e" "drop (4 + length ?e) f = p" by (simp_all add: f b)
  moreover have "json_parse t = Some (header_json h)" by (rule json_parse_text [OF header_json_ok t(1)])
  ultimately show ?thesis
    using len p assms(1,2) header_schema_json [OF assms(1)] by (simp add: decodeBinaryFrame_def g) (simp add: f b)
qed

section \<open>Properties\<close>

text \<open>
  a frame written by either side, with a header the schema allows whose text is within the
  limit of 16 KiB and with the declared payload, is read back by both decoders as that header and payload.
\<close>

theorem frame_round_trip:
  assumes "header_ok z h" "web_encodeBinaryFrame h p = Inr f" "length f \<le> length p + 16388"
  shows "encodeBinaryFrame h p = Some f \<and> decodeBinaryFrame z f = Inr (h, p) \<and> web_decodeBinaryFrame z f = Inr (h, p)"
proof -
  have e: "encodeBinaryFrame h p = Some f" "int (length p) = fh_payloadBytes h"
    using assms(2) by (auto simp: web_encodeBinaryFrame_def split: if_splits option.splits)
  from decode_encode [OF assms(1) e(2,1) assms(3)] e(1) show ?thesis by (simp add: web_decode_eq)
qed

definition demo_header :: frame_header where
  "demo_header = \<lparr>fh_kind = ''terminal-input'', fh_sessionId = ''a'', fh_attemptId = ''b'', fh_transferId = None,
     fh_sequence = 0, fh_offset = None, fh_payloadBytes = 1\<rparr>"

lemma demo_header_ok: "header_ok demo_zod demo_header"
  by (simp add: header_ok_def demo_header_def demo_zod_def frame_kinds_def transfer_fields_ok_def falsy_def starts_with_def
      max_safe_def)

lemma demo_header_text: "\<exists>t. json_text (header_json demo_header) = Some t \<and> length t \<le> 1000"
  by (simp add: header_json_def demo_header_def json_str_def plain_char show_int_def show_nat_digit is_safe_integer_def
      max_safe_def WS_PROTOCOL_VERSION_def is_integer_def)

lemma frame_round_trip_witness:
  "\<exists>f. decodeBinaryFrame demo_zod f = Inr (demo_header, [7]) \<and> web_decodeBinaryFrame demo_zod f = Inr (demo_header, [7])"
proof -
  obtain t where t: "json_text (header_json demo_header) = Some t" "length t \<le> 1000" using demo_header_text by blast
  have "web_encodeBinaryFrame demo_header [7] = Inr (be32 (length (utf8 t)) @ utf8 t @ [7])"
    by (simp add: web_encodeBinaryFrame_def encodeBinaryFrame_def t(1) Let_def) (simp add: demo_header_def)
  from frame_round_trip [OF demo_header_ok this] length_utf8_le [of t] t(2) show ?thesis
    by (auto simp: be32_def)
qed

text \<open>
  a frame the Worker accepts consists of the length, the header bytes and a payload of exactly the
  declared 1 to 65536 bytes, and carries a transfer and an offset exactly when it is an SFTP frame.
\<close>

theorem frame_accepted_exact:
  assumes "decodeBinaryFrame z bs = Inr (h, p)"
  shows "(\<exists>hb. bs = be32 (length hb) @ hb @ p) \<and> int (length p) = fh_payloadBytes h \<and> 1 \<le> length p \<and> length p \<le> 65536
    \<and> (starts_with ''sftp-'' (fh_kind h) \<longleftrightarrow> fh_offset h \<noteq> None) \<and> (starts_with ''sftp-'' (fh_kind h) \<longrightarrow> fh_transferId h \<noteq> None)"
  using decode_sound [OF assms]
  by (auto simp: header_ok_def transfer_fields_ok_def Let_def falsy_def)

lemma frame_accepted_exact_witness:
  "\<exists>bs. decodeBinaryFrame demo_zod bs = Inr (demo_header, [7])
    \<and> (\<exists>hb. bs = be32 (length hb) @ hb @ [7]) \<and> int (length [7 :: 8 word]) = fh_payloadBytes demo_header"
proof -
  obtain t where t: "json_text (header_json demo_header) = Some t" "length t \<le> 1000" using demo_header_text by blast
  let ?f = "be32 (length (utf8 t)) @ utf8 t @ [7]"
  have "encodeBinaryFrame demo_header [7] = Some ?f" by (simp add: encodeBinaryFrame_def t(1) Let_def)
  from decode_encode [OF demo_header_ok _ this] length_utf8_le [of t] t(2)
  have d: "decodeBinaryFrame demo_zod ?f = Inr (demo_header, [7])" by (auto simp: be32_def) (simp add: demo_header_def)
  from frame_accepted_exact [OF d] d show ?thesis by blast
qed

end
