(* ===== verification/Ticket.thy ===== *)
theory Ticket
  imports Lease_Registry Contracts
begin

text \<open>
  The one-shot SSH ticket of \<open>apps/worker/src/durable/ssh-session.ts\<close>: \<open>issueTicket\<close>,
  \<open>consumeTicket\<close>, the checks of \<open>upgrade\<close> and the alarm. A ticket is 32 random bytes; the object
  stores their hash and the profile encrypted under them. The platform's cryptography and URL
  parser are parameters. The locale \<open>one_shot\<close> says what the ticket's storage promises, and its
  interpretation rests on the storage transactions of the two handlers.
\<close>

section \<open>One-shot storage\<close>

datatype 'v shot_op = Put 'v | Take | Drop

locale one_shot =
  fixes put :: "'v \<Rightarrow> 's \<Rightarrow> 's \<times> bool"
    and take :: "'s \<Rightarrow> 's \<times> 'v option"
    and drop :: "'s \<Rightarrow> 's"
    and held :: "'s \<Rightarrow> 'v option"
  assumes put_free: "held s = None \<Longrightarrow> held (fst (put v s)) = Some v \<and> snd (put v s)"
    and put_taken: "held s = Some w \<Longrightarrow> fst (put v s) = s \<and> \<not> snd (put v s)"
    and take_value: "snd (take s) = held s"
    and take_empties: "held (fst (take s)) = None"
    and drop_empties: "held (drop s) = None"
begin

fun shot_step :: "'s \<Rightarrow> 'v shot_op \<Rightarrow> 's" where
  "shot_step s (Put v) = fst (put v s)"
| "shot_step s Take = fst (take s)"
| "shot_step s Drop = drop s"

fun yields :: "'s \<Rightarrow> 'v shot_op list \<Rightarrow> 'v list" where
  "yields s [] = []"
| "yields s (p # ps) =
     (case p of Take \<Rightarrow> (case snd (take s) of None \<Rightarrow> [] | Some v \<Rightarrow> [v]) | _ \<Rightarrow> []) @ yields (shot_step s p) ps"

fun accepted :: "'s \<Rightarrow> 'v shot_op list \<Rightarrow> 'v list" where
  "accepted s [] = []"
| "accepted s (p # ps) = (case p of Put v \<Rightarrow> (if snd (put v s) then [v] else []) | _ \<Rightarrow> []) @ accepted (shot_step s p) ps"

text \<open>What is handed out is a subsequence of what was stored: nothing is handed out twice.\<close>

lemma yields_subseq:
  "subseq (yields s ps) ((case held s of None \<Rightarrow> [] | Some v \<Rightarrow> [v]) @ accepted s ps)"
proof (induction ps arbitrary: s)
  case (Cons p ps)
  show ?case
  proof (cases p)
    case (Put v)
    show ?thesis
    proof (cases "held s")
      case None
      then show ?thesis using Cons.IH [of "fst (put v s)"] put_free [OF None, of v] Put by simp
    next
      case (Some w)
      then show ?thesis using Cons.IH [of s] put_taken [OF Some, of v] Put by simp
    qed
  next
    case Take
    then show ?thesis
      using Cons.IH [of "fst (take s)"] take_value [of s] take_empties [of s] by (cases "held s") auto
  next
    case Drop
    then show ?thesis using Cons.IH [of "drop s"] drop_empties [of s] by (cases "held s") auto
  qed
qed (auto split: option.splits)

lemma no_yield_without_put: "held s = None \<Longrightarrow> accepted s ps = [] \<Longrightarrow> yields s ps = []"
  using yields_subseq [of s ps] by simp

end

section \<open>The stored ticket\<close>

record ticket_envelope =
  te_iv :: string
  te_ciphertext :: string

record stored_ticket =
  tk_ticketHash :: string
  tk_expiresAt :: int
  tk_ownerId :: string
  tk_profileId :: string
  tk_attemptId :: string
  tk_sessionId :: string
  tk_origin :: string
  tk_profile :: ticket_envelope

text \<open>The connection profile is passed through as a JSON value; \<open>openProfile\<close> does not validate it.\<close>

record authorization =
  au_expiresAt :: int
  au_attemptId :: string
  au_sessionId :: string
  au_origin :: string
  au_profile :: json

record ticket_do =
  td_ticket :: "stored_ticket option"
  td_alarm :: "int option"

definition TICKET_TTL_MS :: int where "TICKET_TTL_MS = 60000"

text \<open>
  The platform: SHA-256, AES-256-GCM with a 128-bit tag (key, iv, additional data, text), and the
  protocol and origin of a URL.
\<close>

record platform =
  pf_sha256 :: "bytes \<Rightarrow> bytes"
  pf_encrypt :: "bytes \<Rightarrow> bytes \<Rightarrow> bytes \<Rightarrow> bytes \<Rightarrow> bytes"
  pf_decrypt :: "bytes \<Rightarrow> bytes \<Rightarrow> bytes \<Rightarrow> bytes \<Rightarrow> bytes option"
  pf_url :: "string \<Rightarrow> (string \<times> string) option"

text \<open>What is documented of them: decryption undoes encryption, a SHA-256 digest has 32 bytes.\<close>

definition crypto_law :: "platform \<Rightarrow> bool" where
  "crypto_law pf \<longleftrightarrow> (\<forall>k iv aad p. pf_decrypt pf k iv aad (pf_encrypt pf k iv aad p) = Some p) \<and>
     (\<forall>b. length (pf_sha256 pf b) = 32)"

definition sha256Base64Url :: "platform \<Rightarrow> bytes \<Rightarrow> string" where
  "sha256Base64Url pf v = encodeBase64Url (pf_sha256 pf v)"

definition ticketAdditionalData :: "string \<Rightarrow> string \<Rightarrow> int \<Rightarrow> string \<Rightarrow> bytes" where
  "ticketAdditionalData sessionId attemptId expiresAt origin =
     utf8 (''edgesh-ticket-v1:'' @ sessionId @ '':'' @ attemptId @ '':'' @ show_int expiresAt @ '':'' @ origin)"

definition sealProfile :: "platform \<Rightarrow> bytes \<Rightarrow> bytes \<Rightarrow> json \<Rightarrow> bytes \<Rightarrow> ticket_envelope option" where
  "sealProfile pf key iv profile aad =
     map_option (\<lambda>t. \<lparr>te_iv = encodeBase64Url iv, te_ciphertext = encodeBase64Url (pf_encrypt pf key iv aad (utf8 t))\<rparr>)
       (json_text profile)"

definition openProfile :: "platform \<Rightarrow> bytes \<Rightarrow> ticket_envelope \<Rightarrow> bytes \<Rightarrow> json option" where
  "openProfile pf key env aad =
     (case (decodeBase64Url (te_iv env), decodeBase64Url (te_ciphertext env)) of
        (Inr iv, Inr ciphertext) \<Rightarrow>
          Option.bind (pf_decrypt pf key iv aad ciphertext) (\<lambda>p. Option.bind (utf8_decode p) json_parse)
      | _ \<Rightarrow> None)"

definition parseVerifiedOrigin :: "platform \<Rightarrow> string option \<Rightarrow> string option" where
  "parseVerifiedOrigin pf v =
     (case v of
        None \<Rightarrow> None
      | Some s \<Rightarrow>
          if s = [] \<or> length s > 512 then None
          else (case pf_url pf s of
              None \<Rightarrow> None
            | Some (protocol, origin) \<Rightarrow>
                if (protocol = ''http:'' \<or> protocol = ''https:'') \<and> origin = s then Some s else None))"

section \<open>Issuing\<close>

definition js_field :: "json \<Rightarrow> string \<Rightarrow> json option" where
  "js_field j k = (case js_get j k of Inr v \<Rightarrow> v | Inl _ \<Rightarrow> None)"

definition ticket_candidate :: "json \<Rightarrow> json option" where
  "ticket_candidate raw =
     (let fields = concat (map (\<lambda>k. opt_field k (js_field raw k)) [''profileId'', ''attemptId'', ''terminal'', ''ephemeralCredential''])
      in case js_field raw ''request'' of
        Some r \<Rightarrow> Some (if r \<noteq> JNull then r else JObj fields)
      | None \<Rightarrow> Some (JObj fields))"

text \<open>Owner, session and request of the internal body; \<open>fresh_id\<close> is \<open>crypto.randomUUID()\<close>.\<close>

definition parse_ticket_body :: "zod \<Rightarrow> string \<Rightarrow> json option \<Rightarrow> (string \<times> string \<times> ticket_request) option" where
  "parse_ticket_body z fresh_id body = do {
     raw \<leftarrow> body;
     if raw = JNull then None else do {
       owner \<leftarrow> EntityIdSchema z (js_field raw ''ownerId'');
       session \<leftarrow> (case js_field raw ''sessionId'' of None \<Rightarrow> Some fresh_id | v \<Rightarrow> EntityIdSchema z v);
       ticket \<leftarrow> SshTicketRequestSchema z (ticket_candidate raw);
       Some (owner, session, ticket) } }"

definition credential_required :: "string \<Rightarrow> bool" where
  "credential_required message =
     (let m = lower message in
      str_includes ''credential is missing'' m \<or> str_includes ''credential required'' m
      \<or> str_includes ''requires an ephemeral credential'' m)"

definition profile_error :: "string \<Rightarrow> do_response" where
  "profile_error message =
     (if credential_required message then respond 422 (error_body ''Credential required'')
      else if str_includes ''tailscale ssh profile'' (lower message)
        then respond 400 (error_body ''Tailscale SSH profile configuration is invalid'')
      else respond 404 (error_body ''Profile not found''))"

text \<open>The transaction: \<open>false\<close> when a ticket is stored already.\<close>

definition store_ticket :: "stored_ticket \<Rightarrow> ticket_do \<Rightarrow> ticket_do \<times> bool" where
  "store_ticket t d =
     (case td_ticket d of
        Some _ \<Rightarrow> (d, False)
      | None \<Rightarrow> (d\<lparr>td_ticket := Some t, td_alarm := Some (tk_expiresAt t)\<rparr>, True))"

record ticket_env =
  ev_hmac_key :: string
  ev_now :: millis
  ev_random :: bytes
  ev_iv :: bytes
  ev_uuid :: string
  ev_iso :: "int \<Rightarrow> string"

type_synonym profile_resolver = "string \<Rightarrow> string \<Rightarrow> ephemeral_credential option \<Rightarrow> string + json"

definition make_ticket :: "platform \<Rightarrow> ticket_env \<Rightarrow> string \<Rightarrow> string \<Rightarrow> string \<Rightarrow> ticket_request \<Rightarrow> json \<Rightarrow> stored_ticket option" where
  "make_ticket pf ev owner sessionId origin rq profile =
     (let expiresAt = ev_now ev + TICKET_TTL_MS;
          aad = ticketAdditionalData sessionId (tr_attemptId rq) expiresAt origin
      in map_option (\<lambda>env.
           \<lparr>tk_ticketHash = sha256Base64Url pf (ev_random ev), tk_expiresAt = expiresAt, tk_ownerId = owner,
            tk_profileId = tr_profileId rq, tk_attemptId = tr_attemptId rq, tk_sessionId = sessionId, tk_origin = origin,
            tk_profile = env\<rparr>)
         (sealProfile pf (ev_random ev) (ev_iv ev) profile aad))"

text \<open>
  \<open>issueTicket\<close> up to its transaction: the refusal, or what will be stored. Sealing fails only on
  a profile without JSON text, which surfaces as a 500.
\<close>

definition prepare_ticket ::
    "platform \<Rightarrow> zod \<Rightarrow> profile_resolver \<Rightarrow> ticket_env \<Rightarrow> do_request \<Rightarrow> do_response + stored_ticket" where
  "prepare_ticket pf z resolve ev rq =
     (if \<not> constantTimeTextEqual (header_or_empty rq ''x-internal-auth'') (ev_hmac_key ev)
      then Inl (respond 401 (error_body ''Unauthorized internal request''))
      else case parseVerifiedOrigin pf (header rq ''x-verified-origin'') of
        None \<Rightarrow> Inl (respond 400 (error_body ''A verified origin is required''))
      | Some origin \<Rightarrow>
          (case parse_ticket_body z (ev_uuid ev) (rq_json rq) of
             None \<Rightarrow> Inl (respond 400 (error_body ''Invalid internal ticket request''))
           | Some (owner, sessionId, request) \<Rightarrow>
               (case resolve owner (tr_profileId request) (tr_ephemeral request) of
                  Inl message \<Rightarrow> Inl (profile_error message)
                | Inr profile \<Rightarrow>
                    (case make_ticket pf ev owner sessionId origin request profile of
                       None \<Rightarrow> Inl (respond 500 (error_body ''Internal error''))
                     | Some stored \<Rightarrow> Inr stored))))"

definition issueTicket ::
    "platform \<Rightarrow> zod \<Rightarrow> profile_resolver \<Rightarrow> ticket_env \<Rightarrow> do_request \<Rightarrow> ticket_do \<Rightarrow> ticket_do \<times> do_response" where
  "issueTicket pf z resolve ev rq d =
     (case prepare_ticket pf z resolve ev rq of
        Inl resp \<Rightarrow> (d, resp)
      | Inr stored \<Rightarrow>
          (case store_ticket stored d of
             (d', created) \<Rightarrow>
               if \<not> created then (d', respond 409 (error_body ''A ticket has already been issued for this session''))
               else (d', respond 200 (JObj [(''ticket'', JStr (encodeBase64Url (ev_random ev))),
                      (''expiresAt'', JStr (ev_iso ev (tk_expiresAt stored))), (''sessionId'', JStr (tk_sessionId stored))]))))"

section \<open>Consuming\<close>

text \<open>The transaction of \<open>consumeTicket\<close>: whatever is stored is taken out.\<close>

definition take_ticket :: "ticket_do \<Rightarrow> ticket_do \<times> stored_ticket option" where
  "take_ticket d =
     (case td_ticket d of
        None \<Rightarrow> (d, None)
      | Some v \<Rightarrow> (d\<lparr>td_ticket := None, td_alarm := None\<rparr>, Some v))"

definition consumeTicket ::
    "platform \<Rightarrow> millis \<Rightarrow> string \<Rightarrow> string \<Rightarrow> string \<Rightarrow> ticket_do \<Rightarrow> ticket_do \<times> authorization option" where
  "consumeTicket pf now ticket origin ownerId d =
     (case decodeBase64Url ticket of
        Inl _ \<Rightarrow> (d, None)
      | Inr ticketBytes \<Rightarrow>
          if length ticketBytes \<noteq> 32 then (d, None)
          else
            let presentedHash = sha256Base64Url pf ticketBytes
            in case take_ticket d of
                (d', None) \<Rightarrow> (d', None)
              | (d', Some stored) \<Rightarrow>
                  if tk_expiresAt stored < now \<or> tk_expiresAt stored > now + TICKET_TTL_MS + 5000
                     \<or> tk_origin stored \<noteq> origin \<or> \<not> constantTimeTextEqual (tk_ownerId stored) ownerId
                     \<or> \<not> constantTimeTextEqual (tk_ticketHash stored) presentedHash
                  then (d', None)
                  else
                    (d', map_option (\<lambda>profile.
                        \<lparr>au_expiresAt = tk_expiresAt stored, au_attemptId = tk_attemptId stored,
                         au_sessionId = tk_sessionId stored, au_origin = tk_origin stored, au_profile = profile\<rparr>)
                      (openProfile pf ticketBytes (tk_profile stored)
                        (ticketAdditionalData (tk_sessionId stored) (tk_attemptId stored) (tk_expiresAt stored) (tk_origin stored)))))"

definition ticket_alarm :: "ticket_do \<Rightarrow> ticket_do" where
  "ticket_alarm d = d\<lparr>td_ticket := None, td_alarm := None\<rparr>"

text \<open>The checks of \<open>upgrade\<close>: the status without a socket, or the authorization for the new socket.\<close>

definition upgrade ::
    "platform \<Rightarrow> millis \<Rightarrow> do_request \<Rightarrow> string option \<Rightarrow> ticket_do \<Rightarrow> ticket_do \<times> (nat + authorization)" where
  "upgrade pf now rq query_ticket d =
     (if map_option lower (header rq ''upgrade'') \<noteq> Some ''websocket'' then (d, Inl 426)
      else
        let origin = parseVerifiedOrigin pf (header rq ''x-verified-origin'');
            ownerId = header rq ''x-owner-id'';
            ticket = (case query_ticket of Some t \<Rightarrow> Some t | None \<Rightarrow> header rq ''x-session-ticket'')
        in case (ticket, origin, ownerId) of
          (Some t, Some org, Some owner) \<Rightarrow>
            if t = [] \<or> owner = [] then (d, Inl 401)
            else (case consumeTicket pf now t org owner d of
                (d', None) \<Rightarrow> (d', Inl 401)
              | (d', Some au) \<Rightarrow> (d', Inr au))
        | _ \<Rightarrow> (d, Inl 401))"

interpretation ticket_store: one_shot store_ticket take_ticket ticket_alarm td_ticket
  by unfold_locales (simp_all add: store_ticket_def take_ticket_def ticket_alarm_def split: option.splits)


section \<open>Histories of the ticket\<close>

datatype ticket_event =
    Issue profile_resolver ticket_env do_request
  | Consume millis string string string
  | Ticket_Alarm

fun ticket_step :: "platform \<Rightarrow> zod \<Rightarrow> ticket_do \<Rightarrow> ticket_event \<Rightarrow> ticket_do" where
  "ticket_step pf z d (Issue resolve ev rq) = fst (issueTicket pf z resolve ev rq d)"
| "ticket_step pf z d (Consume now t org owner) = fst (consumeTicket pf now t org owner d)"
| "ticket_step pf z d Ticket_Alarm = ticket_alarm d"

text \<open>The tickets a history stores, and the authorizations it hands out.\<close>

fun issued :: "platform \<Rightarrow> zod \<Rightarrow> ticket_do \<Rightarrow> ticket_event list \<Rightarrow> stored_ticket list" where
  "issued pf z d [] = []"
| "issued pf z d (e # es) =
     (case e of
        Issue resolve ev rq \<Rightarrow>
          (case prepare_ticket pf z resolve ev rq of Inr t \<Rightarrow> (if td_ticket d = None then [t] else []) | Inl _ \<Rightarrow> [])
      | _ \<Rightarrow> []) @ issued pf z (ticket_step pf z d e) es"

fun authorized :: "platform \<Rightarrow> zod \<Rightarrow> ticket_do \<Rightarrow> ticket_event list \<Rightarrow> authorization list" where
  "authorized pf z d [] = []"
| "authorized pf z d (e # es) =
     (case e of
        Consume now t org owner \<Rightarrow> (case snd (consumeTicket pf now t org owner d) of Some au \<Rightarrow> [au] | None \<Rightarrow> [])
      | _ \<Rightarrow> []) @ authorized pf z (ticket_step pf z d e) es"

fun event_shot :: "platform \<Rightarrow> zod \<Rightarrow> ticket_event \<Rightarrow> stored_ticket shot_op list" where
  "event_shot pf z (Issue resolve ev rq) = (case prepare_ticket pf z resolve ev rq of Inr t \<Rightarrow> [Put t] | Inl _ \<Rightarrow> [])"
| "event_shot pf z (Consume now t org owner) =
     (case decodeBase64Url t of Inr b \<Rightarrow> (if length b = 32 then [Take] else []) | Inl _ \<Rightarrow> [])"
| "event_shot pf z Ticket_Alarm = [Drop]"

type_synonym ticket_key = "int \<times> string \<times> string \<times> string"

definition ticket_key :: "stored_ticket \<Rightarrow> ticket_key" where
  "ticket_key t = (tk_expiresAt t, tk_attemptId t, tk_sessionId t, tk_origin t)"

definition auth_key :: "authorization \<Rightarrow> ticket_key" where
  "auth_key a = (au_expiresAt a, au_attemptId a, au_sessionId a, au_origin a)"

lemma consume_step:
  assumes "decodeBase64Url t = Inr b" "length b = 32"
  shows "fst (consumeTicket pf now t org owner d) = fst (take_ticket d)"
    "snd (consumeTicket pf now t org owner d) = Some au \<Longrightarrow> \<exists>s. snd (take_ticket d) = Some s \<and> auth_key au = ticket_key s"
  using assms
  by (auto simp: consumeTicket_def Let_def auth_key_def ticket_key_def split: prod.splits option.splits if_splits)

lemma consume_malformed:
  assumes "\<nexists>b. decodeBase64Url t = Inr b \<and> length b = 32"
  shows "consumeTicket pf now t org owner d = (d, None)"
  using assms by (auto simp: consumeTicket_def split: sum.splits)

lemma step_shots: "ticket_step pf z d e = foldl ticket_store.shot_step d (event_shot pf z e)"
proof (cases e)
  case (Issue resolve ev rq)
  then show ?thesis by (auto simp: issueTicket_def split: sum.splits prod.splits)
next
  case (Consume now t org owner)
  then show ?thesis
    using consume_step(1) [of t] consume_malformed [of t] by (cases "decodeBase64Url t") (auto split: if_splits)
qed simp

lemma store_ticket_created: "snd (store_ticket t d) \<longleftrightarrow> td_ticket d = None"
  by (simp add: store_ticket_def split: option.splits)

lemma issued_accepted: "issued pf z d es = ticket_store.accepted d (concat (map (event_shot pf z) es))"
proof (induction es arbitrary: d)
  case (Cons e es)
  show ?case
    using Cons.IH step_shots [of pf z d e]
    by (cases e) (auto simp: store_ticket_created split: sum.splits)
qed simp

lemma authorized_yields:
  "subseq (map auth_key (authorized pf z d es)) (map ticket_key (ticket_store.yields d (concat (map (event_shot pf z) es))))"
proof (induction es arbitrary: d)
  case (Cons e es)
  note IH = Cons.IH [of "ticket_step pf z d e"]
  show ?case
  proof (cases e)
    case (Consume now t org owner)
    show ?thesis
    proof (cases "\<exists>b. decodeBase64Url t = Inr b \<and> length b = 32")
      case True
      then obtain b where b: "decodeBase64Url t = Inr b" "length b = 32" by blast
      show ?thesis
        using IH consume_step [OF b, of pf now org owner d] b Consume
        by (cases "snd (consumeTicket pf now t org owner d)"; cases "snd (take_ticket d)")
          (auto intro: list_emb_append_mono)
    next
      case False
      then show ?thesis using IH consume_malformed [OF False] Consume by (cases "decodeBase64Url t") auto
    qed
  next
    case (Issue resolve ev rq)
    then show ?thesis using IH step_shots [of pf z d e] by (auto split: sum.splits)
  next
    case Ticket_Alarm
    then show ?thesis using IH by simp
  qed
qed simp

lemma subseq_mapI: "subseq xs ys \<Longrightarrow> subseq (map f xs) (map f ys)"
  by (rule subseq_map)

lemma encodeBase64Url_nonempty: "length bs = 32 \<Longrightarrow> encodeBase64Url bs \<noteq> []"
  by (cases bs rule: sextets.cases) (auto simp: encodeBase64Url_eq b64_digits_def)

lemma open_seal:
  assumes "crypto_law pf" "json_ok profile" "sealProfile pf key iv profile aad = Some env"
  shows "openProfile pf key env aad = Some profile"
  using assms by (auto simp: sealProfile_def openProfile_def crypto_law_def json_parse_text)

lemma prepared_ticket:
  assumes "prepare_ticket pf z resolve ev rq = Inr t"
  shows "\<exists>origin owner request profile. parseVerifiedOrigin pf (header rq ''x-verified-origin'') = Some origin
    \<and> parse_ticket_body z (ev_uuid ev) (rq_json rq) = Some (owner, tk_sessionId t, request)
    \<and> resolve owner (tr_profileId request) (tr_ephemeral request) = Inr profile
    \<and> make_ticket pf ev owner (tk_sessionId t) origin request profile = Some t"
proof -
  have "\<exists>origin owner sid request profile. parseVerifiedOrigin pf (header rq ''x-verified-origin'') = Some origin
    \<and> parse_ticket_body z (ev_uuid ev) (rq_json rq) = Some (owner, sid, request)
    \<and> resolve owner (tr_profileId request) (tr_ephemeral request) = Inr profile
    \<and> make_ticket pf ev owner sid origin request profile = Some t"
    using assms by (auto simp: prepare_ticket_def split: if_splits option.splits sum.splits)
  moreover have "make_ticket pf ev owner sid origin request profile = Some t \<Longrightarrow> tk_sessionId t = sid" for owner sid origin request profile
    by (auto simp: make_ticket_def Let_def)
  ultimately show ?thesis by blast
qed

section \<open>Properties\<close>

text \<open>
  C16: a ticket opens one session at most. In any history of requests, attempts and alarms from an
  empty object, the authorizations handed out are, in order and without repetition, among the
  tickets that were stored: the same session, attempt, origin and expiry.
\<close>

theorem ticket_used_once:
  assumes "td_ticket d = None"
  shows "subseq (map auth_key (authorized pf z d es)) (map ticket_key (issued pf z d es))"
proof -
  have "subseq (ticket_store.yields d (concat (map (event_shot pf z) es))) (issued pf z d es)"
    using ticket_store.yields_subseq [of d "concat (map (event_shot pf z) es)"] assms by (simp add: issued_accepted)
  from subseq_order.order_trans [OF authorized_yields subseq_mapI [OF this]] show ?thesis .
qed

text \<open>
  C18: what an authorization proves: the stored ticket has the presented secret's hash, the
  verified origin and the owner of the request, it has not expired, and it is gone afterwards.
\<close>

theorem ticket_authorization_sound:
  assumes "consumeTicket pf now ticket origin ownerId d = (d', Some au)"
  shows "\<exists>s b. td_ticket d = Some s \<and> decodeBase64Url ticket = Inr b \<and> length b = 32 \<and> tk_ticketHash s = sha256Base64Url pf b
    \<and> tk_origin s = origin \<and> tk_ownerId s = ownerId \<and> now \<le> tk_expiresAt s \<and> tk_expiresAt s \<le> now + 65000
    \<and> auth_key au = ticket_key s \<and> td_ticket d' = None \<and> td_alarm d' = None"
  using assms
  by (auto simp: consumeTicket_def Let_def take_ticket_def auth_key_def ticket_key_def TICKET_TTL_MS_def
      split: sum.splits if_splits option.splits)


text \<open>
  an issued ticket is honoured. If issuing answered 200, then presenting that ticket with the
  same origin and owner within the next 60 seconds yields an authorization with the very profile
  that was resolved, provided decryption undoes encryption.
\<close>

theorem ticket_honoured:
  assumes "crypto_law pf" and "length (ev_random ev) = 32" and "\<not> z_uuid z []"
    and "\<And>own p e j. resolve own p e = Inr j \<Longrightarrow> json_ok j"
    and "issueTicket pf z resolve ev rq d = (d', resp)" and "rs_status resp = 200"
    and "ev_now ev \<le> now" and "now \<le> ev_now ev + 60000"
  shows "\<exists>origin owner sessionId request profile au.
    parseVerifiedOrigin pf (header rq ''x-verified-origin'') = Some origin
    \<and> parse_ticket_body z (ev_uuid ev) (rq_json rq) = Some (owner, sessionId, request)
    \<and> resolve owner (tr_profileId request) (tr_ephemeral request) = Inr profile
    \<and> snd (consumeTicket pf now (encodeBase64Url (ev_random ev)) origin owner d') = Some au
    \<and> au_profile au = profile \<and> au_attemptId au = tr_attemptId request \<and> au_sessionId au = sessionId"
proof -
  obtain t where t: "prepare_ticket pf z resolve ev rq = Inr t"
  proof (cases "prepare_ticket pf z resolve ev rq")
    case (Inl r)
    then have "rs_status r \<noteq> 200"
      by (auto simp: prepare_ticket_def profile_error_def split: if_splits option.splits sum.splits)
    with Inl assms(5,6) show ?thesis by (simp add: issueTicket_def)
  qed (use that in blast)
  have d': "td_ticket d' = Some t"
    using assms(5,6) t by (auto simp: issueTicket_def store_ticket_def split: option.splits)
  obtain origin owner request profile where p: "parseVerifiedOrigin pf (header rq ''x-verified-origin'') = Some origin"
    "parse_ticket_body z (ev_uuid ev) (rq_json rq) = Some (owner, tk_sessionId t, request)"
    "resolve owner (tr_profileId request) (tr_ephemeral request) = Inr profile"
    "make_ticket pf ev owner (tk_sessionId t) origin request profile = Some t"
    using prepared_ticket [OF t] by blast
  obtain env where seal: "sealProfile pf (ev_random ev) (ev_iv ev) profile
      (ticketAdditionalData (tk_sessionId t) (tr_attemptId request) (ev_now ev + TICKET_TTL_MS) origin) = Some env"
    and te: "\<lparr>tk_ticketHash = sha256Base64Url pf (ev_random ev), tk_expiresAt = ev_now ev + TICKET_TTL_MS, tk_ownerId = owner,
      tk_profileId = tr_profileId request, tk_attemptId = tr_attemptId request, tk_sessionId = tk_sessionId t,
      tk_origin = origin, tk_profile = env\<rparr> = t"
    using p(4) by (auto simp: make_ticket_def Let_def)
  note fields = arg_cong [OF te, of tk_profile] arg_cong [OF te, of tk_expiresAt] arg_cong [OF te, of tk_origin]
    arg_cong [OF te, of tk_ownerId] arg_cong [OF te, of tk_attemptId] arg_cong [OF te, of tk_ticketHash]
  have "owner \<noteq> []" using p(2) assms(3)
    by (auto simp: parse_ticket_body_def EntityIdSchema_def z_test_iff bind_eq_Some_conv split: if_splits)
  moreover have "sha256Base64Url pf (ev_random ev) \<noteq> []"
    using assms(1) encodeBase64Url_nonempty [of "pf_sha256 pf (ev_random ev)"]
    by (auto simp: crypto_law_def sha256Base64Url_def)
  moreover have "openProfile pf (ev_random ev) (tk_profile t)
      (ticketAdditionalData (tk_sessionId t) (tk_attemptId t) (tk_expiresAt t) (tk_origin t)) = Some profile"
    using open_seal [OF assms(1) assms(4) [OF p(3)] seal] by (simp flip: fields)
  ultimately show ?thesis
    using p(1-3) d' assms(2,7,8)
    by (simp add: consumeTicket_def Let_def take_ticket_def TICKET_TTL_MS_def flip: fields)
qed


section \<open>Concrete runs\<close>

definition demo_platform :: platform where
  "demo_platform = \<lparr>pf_sha256 = (\<lambda>_. replicate 32 0), pf_encrypt = (\<lambda>k iv aad p. p), pf_decrypt = (\<lambda>k iv aad c. Some c),
     pf_url = (\<lambda>s. Some (''https:'', s))\<rparr>"

definition demo_env :: ticket_env where
  "demo_env = \<lparr>ev_hmac_key = ''key'', ev_now = 0, ev_random = replicate 32 7, ev_iv = [], ev_uuid = ''u'', ev_iso = (\<lambda>_. ''t'')\<rparr>"

definition demo_terminal :: terminal_size where
  "demo_terminal = \<lparr>ts_columns = 80, ts_rows = 24, ts_type = ''xterm'', ts_encoding = ''utf-8''\<rparr>"

definition demo_issue :: do_request where
  "demo_issue = \<lparr>rq_method = ''POST'', rq_path = ''/ticket'',
     rq_headers = [(''x-internal-auth'', ''key''), (''x-verified-origin'', ''o'')],
     rq_json = Some (JObj [(''ownerId'', JStr ''a''), (''sessionId'', JStr ''s''), (''profileId'', JStr ''p''),
       (''attemptId'', JStr ''b''), (''terminal'', terminal_json demo_terminal)])\<rparr>"

definition demo_resolver :: profile_resolver where
  "demo_resolver owner profileId ephemeral = Inr JNull"

definition demo_object :: ticket_do where
  "demo_object = \<lparr>td_ticket = None, td_alarm = None\<rparr>"

definition demo_ticket :: stored_ticket where
  "demo_ticket = \<lparr>tk_ticketHash = encodeBase64Url (replicate 32 0), tk_expiresAt = 60000, tk_ownerId = ''a'', tk_profileId = ''p'',
     tk_attemptId = ''b'', tk_sessionId = ''s'', tk_origin = ''o'',
     tk_profile = \<lparr>te_iv = encodeBase64Url [], te_ciphertext = encodeBase64Url (utf8 ''null'')\<rparr>\<rparr>"

definition demo_request_data :: ticket_request where
  "demo_request_data = \<lparr>tr_profileId = ''p'', tr_attemptId = ''b'', tr_terminal = demo_terminal, tr_ephemeral = None\<rparr>"

lemma demo_body: "parse_ticket_body demo_zod ''u'' (rq_json demo_issue) = Some (''a'', ''s'', demo_request_data)"
proof -
  have t: "TerminalObjectSchema (Some (terminal_json demo_terminal)) = Some demo_terminal"
    by (rule TerminalObjectSchema_json) (simp add: terminal_ok_def demo_terminal_def)
  show ?thesis
    unfolding parse_ticket_body_def demo_issue_def ticket_candidate_def
    by (simp add: js_field_def opt_field_def EntityIdSchema_def z_test_def as_string_def demo_zod_def SshTicketRequestSchema_def
        z_strict_def z_optional_def t demo_request_data_def)
qed

lemma demo_simps:
  "ev_hmac_key demo_env = ''key''" "ev_now demo_env = 0" "ev_random demo_env = replicate 32 7" "ev_iv demo_env = []"
  "ev_uuid demo_env = ''u''" "ev_iso demo_env = (\<lambda>_. ''t'')" "pf_sha256 demo_platform = (\<lambda>_. replicate 32 0)"
  "pf_encrypt demo_platform = (\<lambda>k iv aad p. p)" "pf_decrypt demo_platform = (\<lambda>k iv aad c. Some c)"
  by (simp_all add: demo_env_def demo_platform_def)

lemma demo_prepared: "prepare_ticket demo_platform demo_zod demo_resolver demo_env demo_issue = Inr demo_ticket"
proof -
  have o: "parseVerifiedOrigin demo_platform (header demo_issue ''x-verified-origin'') = Some ''o''"
    by (simp add: parseVerifiedOrigin_def header_def demo_issue_def demo_platform_def)
  have a: "header_or_empty demo_issue ''x-internal-auth'' = ''key''"
    by (simp add: header_or_empty_def header_def demo_issue_def)
  show ?thesis
    by (simp add: prepare_ticket_def o a demo_simps demo_body demo_resolver_def make_ticket_def sealProfile_def
        sha256Base64Url_def demo_request_data_def demo_ticket_def TICKET_TTL_MS_def)
qed

lemma demo_issued:
  "issueTicket demo_platform demo_zod demo_resolver demo_env demo_issue demo_object
    = (\<lparr>td_ticket = Some demo_ticket, td_alarm = Some 60000\<rparr>,
       respond 200 (JObj [(''ticket'', JStr (encodeBase64Url (replicate 32 7))), (''expiresAt'', JStr ''t''), (''sessionId'', JStr ''s'')]))"
  unfolding issueTicket_def demo_prepared
  by (simp add: store_ticket_def demo_object_def) (simp add: demo_env_def demo_ticket_def)

lemma demo_crypto_law: "crypto_law demo_platform"
  by (simp add: crypto_law_def demo_platform_def)

lemma ticket_honoured_witness:
  "\<exists>origin owner. snd (consumeTicket demo_platform 500 (encodeBase64Url (ev_random demo_env)) origin owner
      \<lparr>td_ticket = Some demo_ticket, td_alarm = Some 60000\<rparr>) \<noteq> None"
proof -
  have "ev_now demo_env \<le> 500" "500 \<le> ev_now demo_env + 60000" "length (ev_random demo_env) = 32" "\<not> z_uuid demo_zod []"
    by (simp_all add: demo_env_def demo_zod_def)
  moreover have "json_ok j" if "demo_resolver own p e = Inr j" for own p e j
    using that by (simp add: demo_resolver_def)
  ultimately show ?thesis
    using ticket_honoured [OF demo_crypto_law _ _ _ demo_issued, of 500] by fastforce
qed

lemma ticket_used_once_witness:
  "subseq (map auth_key (authorized demo_platform demo_zod demo_object [Issue demo_resolver demo_env demo_issue,
       Consume 1 (encodeBase64Url (replicate 32 7)) ''o'' ''a'', Consume 2 (encodeBase64Url (replicate 32 7)) ''o'' ''a'']))
     [ticket_key demo_ticket]"
  using ticket_used_once [of demo_object demo_platform demo_zod "[Issue demo_resolver demo_env demo_issue,
       Consume 1 (encodeBase64Url (replicate 32 7)) ''o'' ''a'', Consume 2 (encodeBase64Url (replicate 32 7)) ''o'' ''a'']"]
  by (simp add: demo_prepared del: authorized.simps) (simp add: demo_object_def)

lemma demo_opened: "openProfile demo_platform (replicate 32 7) (tk_profile demo_ticket) aad = Some JNull"
proof -
  have "json_parse ''null'' = Some JNull" by (rule json_parse_text) simp_all
  then show ?thesis by (simp add: openProfile_def demo_ticket_def demo_platform_def del: utf8.simps)
qed

lemma demo_consumed:
  "consumeTicket demo_platform 1 (encodeBase64Url (replicate 32 7)) ''o'' ''a'' \<lparr>td_ticket = Some demo_ticket, td_alarm = Some 60000\<rparr>
    = (demo_object, Some \<lparr>au_expiresAt = 60000, au_attemptId = ''b'', au_sessionId = ''s'', au_origin = ''o'', au_profile = JNull\<rparr>)"
proof -
  have "tk_ticketHash demo_ticket = sha256Base64Url demo_platform (replicate 32 7)" "tk_ticketHash demo_ticket \<noteq> []"
    using encodeBase64Url_nonempty [of "replicate 32 0"] by (simp_all add: demo_ticket_def sha256Base64Url_def demo_platform_def)
  moreover have "tk_expiresAt demo_ticket = 60000" "tk_origin demo_ticket = ''o''" "tk_ownerId demo_ticket = ''a''"
    "tk_attemptId demo_ticket = ''b''" "tk_sessionId demo_ticket = ''s''" by (simp_all add: demo_ticket_def)
  ultimately show ?thesis
    by (simp add: consumeTicket_def take_ticket_def TICKET_TTL_MS_def demo_opened demo_object_def)
qed

lemma ticket_authorization_sound_witness:
  "\<exists>s b. Some demo_ticket = Some s \<and> decodeBase64Url (encodeBase64Url (replicate 32 7)) = Inr b \<and> length b = 32
    \<and> tk_ticketHash s = sha256Base64Url demo_platform b \<and> td_ticket demo_object = None"
  using ticket_authorization_sound [OF demo_consumed] by auto

end
