(* ===== verification/Server_Messages.thy ===== *)
theory Server_Messages
  imports Contracts
begin

text \<open>
  The messages of the session object to the browser: the server half of
  \<open>packages/contracts/src/websocket.ts\<close>. A message is a typed value; each schema is the predicate
  that says when \<open>safeParse\<close> accepts its JSON object, and the refinement on the size is taken over
  that object's text. How JavaScript prints a number that is not a whole number is a parameter.
  The lemmas bound the text of a message, so that the builders of the session object can be shown
  to send messages their own schema accepts.
\<close>

section \<open>Data\<close>

record connection_info =
  ci_host :: string
  ci_port :: int
  ci_username :: string
  ci_latencyMs :: rat
  ci_keyExchange :: string
  ci_hostKeyAlgorithm :: string
  ci_cipher :: string
  ci_mac :: string

datatype 'a metric_value = Supported 'a | Not_Supported string

record usage_metric =
  us_usedBytes :: int
  us_totalBytes :: int
  us_percent :: rat

record process_metric =
  pm_pid :: int
  pm_user :: string
  pm_cpuPercent :: rat
  pm_memoryPercent :: rat
  pm_command :: string

record firewall_rule =
  fr_destination :: string
  fr_action :: string
  fr_source :: string

record firewall_metric =
  fm_status :: string
  fm_logging :: "string option"
  fm_defaultIncoming :: "string option"
  fm_defaultOutgoing :: "string option"
  fm_rules :: "firewall_rule list"

record metrics_message =
  mm_sampledAt :: string
  mm_cpu :: "rat metric_value"
  mm_memory :: "usage_metric metric_value"
  mm_swap :: "usage_metric metric_value"
  mm_rootDisk :: "usage_metric metric_value"
  mm_processes :: "process_metric list metric_value"
  mm_firewall :: "firewall_metric metric_value"

record history_entry =
  he_command :: string
  he_executedAt :: "string option"

record sftp_entry =
  se_name :: string
  se_path :: string
  se_kind :: string
  se_size :: int
  se_mode :: int
  se_modifiedAt :: string

record transfer_progress =
  tp_transferId :: string
  tp_direction :: string
  tp_status :: string
  tp_path :: string
  tp_transferredBytes :: int
  tp_totalBytes :: int
  tp_bytesPerSecond :: rat
  tp_estimatedSecondsRemaining :: "rat option"
  tp_acknowledgedOffset :: int
  tp_updatedAt :: string

datatype server_body =
    Sv_Status string string string "string option" "connection_info option"
  | Sv_Host_Key string int string string bool "string option" string
  | Sv_Output int string string
  | Sv_Metrics metrics_message
  | Sv_Shell_History "history_entry list"
  | Sv_List string "sftp_entry list" "string option"
  | Sv_Read string int int string
  | Sv_Mutation string string "string option"
  | Sv_Transfer_Ready string string string int int int
  | Sv_Transfer_Progress transfer_progress
  | Sv_Error string string bool bool

record server_message =
  sm_requestId :: "string option"
  sm_sessionId :: string
  sm_attemptId :: string
  sm_body :: server_body

section \<open>Schemas\<close>

text \<open>\<open>z.number().int().nonnegative()\<close>; whole numbers are safe integers.\<close>

definition nonneg_int :: "int \<Rightarrow> bool" where
  "nonneg_int n \<longleftrightarrow> 0 \<le> n \<and> n \<le> max_safe"

definition len_ok :: "nat \<Rightarrow> nat \<Rightarrow> string \<Rightarrow> bool" where
  "len_ok lo hi s \<longleftrightarrow> lo \<le> length s \<and> length s \<le> hi"

definition SessionStateSchema :: "string list" where
  "SessionStateSchema = [''idle'', ''authorizing'', ''tcp_connecting'', ''ssh_handshake'', ''host_confirmation'',
     ''authenticating'', ''connected'', ''disconnecting'', ''closed'', ''error'']"

definition SessionCloseReasonSchema :: "string list" where
  "SessionCloseReasonSchema = [''user_disconnect'', ''remote_closed'', ''authentication_failed'', ''host_key_rejected'',
     ''connection_timeout'', ''idle_timeout'', ''keepalive_failed'', ''network_error'', ''worker_restart'', ''internal_error'']"

definition ApiErrorCodeSchema :: "string list" where
  "ApiErrorCodeSchema = [''BAD_REQUEST'', ''VALIDATION_FAILED'', ''UNAUTHENTICATED'', ''UNAUTHORIZED'', ''CSRF_REJECTED'',
     ''RATE_LIMITED'', ''NOT_FOUND'', ''CONFLICT'', ''PROTOCOL_VERSION_UNSUPPORTED'', ''AUTH_CONFIGURATION_MISSING'',
     ''INVALID_CREDENTIALS'', ''TOTP_REQUIRED'', ''TOTP_INVALID'', ''TOTP_ENROLLMENT_EXPIRED'', ''PROFILE_NOT_FOUND'',
     ''PROFILE_CREDENTIAL_REQUIRED'', ''SSH_TICKET_INVALID'', ''SSH_TICKET_EXPIRED'', ''SSH_TICKET_REPLAYED'',
     ''SSH_TARGET_REJECTED'', ''SSH_CONNECTION_FAILED'', ''SSH_HOST_KEY_REJECTED'', ''SSH_HOST_KEY_CHANGED'',
     ''SSH_AUTHENTICATION_FAILED'', ''SSH_SESSION_CLOSED'', ''SFTP_NOT_AVAILABLE'', ''SFTP_PATH_INVALID'',
     ''SFTP_FILE_TOO_LARGE'', ''SFTP_CONFLICT'', ''TRANSFER_NOT_FOUND'', ''TRANSFER_QUOTA_EXCEEDED'',
     ''SERVICE_UNAVAILABLE'', ''INTERNAL_ERROR'']"

text \<open>What \<open>HostSchema\<close>, \<open>PortSchema\<close> and \<open>UsernameSchema\<close> accept without changing it (a host is trimmed first).\<close>

definition host_char_ok :: "char \<Rightarrow> bool" where
  "host_char_ok c \<longleftrightarrow> 32 < cu c \<and> c \<notin> {CHR ''/'', bs_char, CHR ''?'', CHR ''#'', CHR ''@''}"

definition HostSchema :: "string \<Rightarrow> string option" where
  "HostSchema h = (let t = trim h in if len_ok 1 253 t \<and> list_all host_char_ok t then Some t else None)"

definition port_ok :: "int \<Rightarrow> bool" where
  "port_ok n \<longleftrightarrow> 1 \<le> n \<and> n \<le> 65535"

definition username_ok :: "string \<Rightarrow> bool" where
  "username_ok u \<longleftrightarrow> len_ok 1 128 u \<and> list_all (\<lambda>c. cu c \<notin> {0, 10, 13}) u"

definition connection_ok :: "connection_info \<Rightarrow> bool" where
  "connection_ok c \<longleftrightarrow> HostSchema (ci_host c) = Some (ci_host c) \<and> port_ok (ci_port c) \<and> username_ok (ci_username c) \<and>
     0 \<le> ci_latencyMs c \<and> ci_latencyMs c \<le> 3600000 \<and> len_ok 1 128 (ci_keyExchange c) \<and>
     len_ok 1 128 (ci_hostKeyAlgorithm c) \<and> len_ok 1 128 (ci_cipher c) \<and> len_ok 1 128 (ci_mac c)"

definition ServerStatusMessageSchema ::
    "zod \<Rightarrow> string \<Rightarrow> string \<Rightarrow> string \<Rightarrow> string option \<Rightarrow> connection_info option \<Rightarrow> bool" where
  "ServerStatusMessageSchema z st msg occurred reason conn \<longleftrightarrow> st \<in> set SessionStateSchema \<and> len_ok 1 512 msg \<and>
     z_datetime z occurred \<and> opt_ok (\<lambda>r. r \<in> set SessionCloseReasonSchema) reason \<and> opt_ok connection_ok conn"

definition ServerHostKeyMessageSchema ::
    "zod \<Rightarrow> string \<Rightarrow> int \<Rightarrow> string \<Rightarrow> string \<Rightarrow> string option \<Rightarrow> string \<Rightarrow> bool" where
  "ServerHostKeyMessageSchema z host port algorithm fingerprint previous expires \<longleftrightarrow>
     HostSchema host = Some host \<and> port_ok port \<and> len_ok 1 128 algorithm \<and> is_fingerprint fingerprint \<and>
     opt_ok is_fingerprint previous \<and> z_datetime z expires"

definition ServerTerminalOutputMessageSchema :: "int \<Rightarrow> string \<Rightarrow> string \<Rightarrow> bool" where
  "ServerTerminalOutputMessageSchema sequence stream data \<longleftrightarrow>
     nonneg_int sequence \<and> stream \<in> {''stdout'', ''stderr''} \<and> len_ok 1 65536 data"

fun MetricValueSchema :: "('a \<Rightarrow> bool) \<Rightarrow> 'a metric_value \<Rightarrow> bool" where
  "MetricValueSchema P (Supported v) \<longleftrightarrow> P v"
| "MetricValueSchema P (Not_Supported s) \<longleftrightarrow> s \<in> {''unsupported'', ''error''}"

definition ProcessMetricSchema :: "process_metric \<Rightarrow> bool" where
  "ProcessMetricSchema p \<longleftrightarrow> 0 < pm_pid p \<and> pm_pid p \<le> max_safe \<and> len_ok 1 128 (pm_user p) \<and>
     0 \<le> pm_cpuPercent p \<and> pm_cpuPercent p \<le> 100000 \<and> 0 \<le> pm_memoryPercent p \<and> pm_memoryPercent p \<le> 100 \<and>
     len_ok 1 512 (pm_command p)"

definition FirewallRuleSchema :: "firewall_rule \<Rightarrow> bool" where
  "FirewallRuleSchema r \<longleftrightarrow> len_ok 1 256 (fr_destination r) \<and> len_ok 1 32 (fr_action r) \<and> len_ok 1 256 (fr_source r)"

definition FirewallMetricSchema :: "firewall_metric \<Rightarrow> bool" where
  "FirewallMetricSchema f \<longleftrightarrow> fm_status f \<in> {''active'', ''inactive''} \<and> opt_ok (len_ok 1 64) (fm_logging f) \<and>
     opt_ok (len_ok 1 32) (fm_defaultIncoming f) \<and> opt_ok (len_ok 1 32) (fm_defaultOutgoing f) \<and>
     length (fm_rules f) \<le> 50 \<and> list_all FirewallRuleSchema (fm_rules f)"

definition UsageMetricSchema :: "usage_metric \<Rightarrow> bool" where
  "UsageMetricSchema u \<longleftrightarrow> nonneg_int (us_usedBytes u) \<and> nonneg_int (us_totalBytes u) \<and> 0 \<le> us_percent u \<and> us_percent u \<le> 100"

definition ServerMetricsMessageSchema :: "zod \<Rightarrow> metrics_message \<Rightarrow> bool" where
  "ServerMetricsMessageSchema z m \<longleftrightarrow> z_datetime z (mm_sampledAt m) \<and>
     MetricValueSchema (\<lambda>q. 0 \<le> q \<and> q \<le> 100) (mm_cpu m) \<and> MetricValueSchema UsageMetricSchema (mm_memory m) \<and>
     MetricValueSchema UsageMetricSchema (mm_swap m) \<and> MetricValueSchema UsageMetricSchema (mm_rootDisk m) \<and>
     MetricValueSchema (\<lambda>ps. length ps \<le> 8 \<and> list_all ProcessMetricSchema ps) (mm_processes m) \<and>
     MetricValueSchema FirewallMetricSchema (mm_firewall m)"

definition ShellHistoryEntrySchema :: "zod \<Rightarrow> history_entry \<Rightarrow> bool" where
  "ShellHistoryEntrySchema z e \<longleftrightarrow> len_ok 1 768 (he_command e) \<and> opt_ok (z_datetime z) (he_executedAt e)"

definition ServerShellHistoryResultMessageSchema :: "zod \<Rightarrow> history_entry list \<Rightarrow> bool" where
  "ServerShellHistoryResultMessageSchema z es \<longleftrightarrow> length es \<le> 50 \<and> list_all (ShellHistoryEntrySchema z) es"

definition mode_ok :: "int \<Rightarrow> bool" where
  "mode_ok m \<longleftrightarrow> 0 \<le> m \<and> m \<le> 4095"

definition SftpEntrySchema :: "zod \<Rightarrow> sftp_entry \<Rightarrow> bool" where
  "SftpEntrySchema z e \<longleftrightarrow> len_ok 1 1024 (se_name e) \<and> nul \<notin> set (se_name e) \<and> path_ok (se_path e) \<and>
     se_kind e \<in> {''file'', ''directory'', ''symlink'', ''other''} \<and> nonneg_int (se_size e) \<and> mode_ok (se_mode e) \<and>
     z_datetime z (se_modifiedAt e)"

definition ServerSftpListResultMessageSchema :: "zod \<Rightarrow> string \<Rightarrow> sftp_entry list \<Rightarrow> string option \<Rightarrow> bool" where
  "ServerSftpListResultMessageSchema z path es cursor \<longleftrightarrow>
     path_ok path \<and> length es \<le> 500 \<and> list_all (SftpEntrySchema z) es \<and> opt_ok (len_ok 1 512) cursor"

definition ServerSftpReadResultMessageSchema :: "zod \<Rightarrow> string \<Rightarrow> int \<Rightarrow> int \<Rightarrow> string \<Rightarrow> bool" where
  "ServerSftpReadResultMessageSchema z path bytes mode modified \<longleftrightarrow>
     path_ok path \<and> 0 \<le> bytes \<and> bytes \<le> 2 * 1024 * 1024 \<and> mode_ok mode \<and> z_datetime z modified"

definition ServerSftpMutationResultMessageSchema :: "string \<Rightarrow> string \<Rightarrow> string option \<Rightarrow> bool" where
  "ServerSftpMutationResultMessageSchema operation path dest \<longleftrightarrow>
     operation \<in> {''write'', ''mkdir'', ''rename'', ''delete'', ''chmod''} \<and> path_ok path \<and> opt_ok path_ok dest"

definition direction_ok :: "string \<Rightarrow> bool" where
  "direction_ok d \<longleftrightarrow> d \<in> {''upload'', ''download''}"

definition ServerTransferReadyMessageSchema ::
    "zod \<Rightarrow> string \<Rightarrow> string \<Rightarrow> string \<Rightarrow> int \<Rightarrow> int \<Rightarrow> int \<Rightarrow> bool" where
  "ServerTransferReadyMessageSchema z transferId direction path totalBytes chunk resume \<longleftrightarrow>
     z_uuid z transferId \<and> direction_ok direction \<and> path_ok path \<and> nonneg_int totalBytes \<and> 1024 \<le> chunk \<and> chunk \<le> 65536 \<and>
     nonneg_int resume \<and> resume \<le> totalBytes"

definition TransferStatusSchema :: "string list" where
  "TransferStatusSchema = [''queued'', ''uploading_to_r2'', ''transferring'', ''paused'', ''completed'', ''failed'', ''cancelled'', ''expired'']"

definition ServerTransferProgressMessageSchema :: "zod \<Rightarrow> transfer_progress \<Rightarrow> bool" where
  "ServerTransferProgressMessageSchema z t \<longleftrightarrow> z_uuid z (tp_transferId t) \<and> direction_ok (tp_direction t) \<and>
     tp_status t \<in> set TransferStatusSchema \<and> path_ok (tp_path t) \<and> nonneg_int (tp_transferredBytes t) \<and>
     nonneg_int (tp_totalBytes t) \<and> 0 \<le> tp_bytesPerSecond t \<and> opt_ok (\<lambda>q. 0 \<le> q) (tp_estimatedSecondsRemaining t) \<and>
     nonneg_int (tp_acknowledgedOffset t) \<and> z_datetime z (tp_updatedAt t) \<and>
     tp_transferredBytes t \<le> tp_totalBytes t \<and> tp_acknowledgedOffset t \<le> tp_totalBytes t"

definition ServerErrorMessageSchema :: "string \<Rightarrow> string \<Rightarrow> bool" where
  "ServerErrorMessageSchema code msg \<longleftrightarrow> code \<in> set ApiErrorCodeSchema \<and> len_ok 1 512 msg"

fun server_body_ok :: "zod \<Rightarrow> server_body \<Rightarrow> bool" where
  "server_body_ok z (Sv_Status st msg occurred reason conn) = ServerStatusMessageSchema z st msg occurred reason conn"
| "server_body_ok z (Sv_Host_Key host port algorithm fingerprint changed previous expires) =
     ServerHostKeyMessageSchema z host port algorithm fingerprint previous expires"
| "server_body_ok z (Sv_Output sequence stream data) = ServerTerminalOutputMessageSchema sequence stream data"
| "server_body_ok z (Sv_Metrics m) = ServerMetricsMessageSchema z m"
| "server_body_ok z (Sv_Shell_History es) = ServerShellHistoryResultMessageSchema z es"
| "server_body_ok z (Sv_List path es cursor) = ServerSftpListResultMessageSchema z path es cursor"
| "server_body_ok z (Sv_Read path bytes mode modified) = ServerSftpReadResultMessageSchema z path bytes mode modified"
| "server_body_ok z (Sv_Mutation operation path dest) = ServerSftpMutationResultMessageSchema operation path dest"
| "server_body_ok z (Sv_Transfer_Ready transferId direction path totalBytes chunk resume) =
     ServerTransferReadyMessageSchema z transferId direction path totalBytes chunk resume"
| "server_body_ok z (Sv_Transfer_Progress t) = ServerTransferProgressMessageSchema z t"
| "server_body_ok z (Sv_Error code msg retryable fatal) = ServerErrorMessageSchema code msg"

definition server_ok :: "zod \<Rightarrow> server_message \<Rightarrow> bool" where
  "server_ok z m \<longleftrightarrow> opt_ok (z_uuid z) (sm_requestId m) \<and> z_uuid z (sm_sessionId m) \<and> z_uuid z (sm_attemptId m) \<and>
     server_body_ok z (sm_body m)"

section \<open>The JSON of a message\<close>

definition connection_json :: "connection_info \<Rightarrow> json" where
  "connection_json c = JObj [(''host'', JStr (ci_host c)), (''port'', jnum (ci_port c)), (''username'', JStr (ci_username c)),
     (''latencyMs'', JNum (ci_latencyMs c)), (''keyExchange'', JStr (ci_keyExchange c)),
     (''hostKeyAlgorithm'', JStr (ci_hostKeyAlgorithm c)), (''cipher'', JStr (ci_cipher c)), (''mac'', JStr (ci_mac c))]"

fun metric_json :: "('a \<Rightarrow> json) \<Rightarrow> 'a metric_value \<Rightarrow> json" where
  "metric_json f (Supported v) = JObj [(''support'', JStr ''supported''), (''value'', f v)]"
| "metric_json f (Not_Supported s) = JObj [(''support'', JStr s), (''value'', JNull)]"

definition usage_json :: "usage_metric \<Rightarrow> json" where
  "usage_json u = JObj [(''usedBytes'', jnum (us_usedBytes u)), (''totalBytes'', jnum (us_totalBytes u)), (''percent'', JNum (us_percent u))]"

definition process_json :: "process_metric \<Rightarrow> json" where
  "process_json p = JObj [(''pid'', jnum (pm_pid p)), (''user'', JStr (pm_user p)), (''cpuPercent'', JNum (pm_cpuPercent p)),
     (''memoryPercent'', JNum (pm_memoryPercent p)), (''command'', JStr (pm_command p))]"

definition rule_json :: "firewall_rule \<Rightarrow> json" where
  "rule_json r = JObj [(''destination'', JStr (fr_destination r)), (''action'', JStr (fr_action r)), (''source'', JStr (fr_source r))]"

definition firewall_json :: "firewall_metric \<Rightarrow> json" where
  "firewall_json f = JObj ([(''backend'', JStr ''ufw''), (''status'', JStr (fm_status f))] @ jopt ''logging'' JStr (fm_logging f) @
     jopt ''defaultIncoming'' JStr (fm_defaultIncoming f) @ jopt ''defaultOutgoing'' JStr (fm_defaultOutgoing f) @
     [(''rules'', JArr (map rule_json (fm_rules f)))])"

definition metrics_fields :: "metrics_message \<Rightarrow> (string \<times> json) list" where
  "metrics_fields m = [(''sampledAt'', JStr (mm_sampledAt m)), (''cpu'', metric_json JNum (mm_cpu m)),
     (''memory'', metric_json usage_json (mm_memory m)), (''swap'', metric_json usage_json (mm_swap m)),
     (''rootDisk'', metric_json usage_json (mm_rootDisk m)),
     (''processes'', metric_json (\<lambda>ps. JArr (map process_json ps)) (mm_processes m)),
     (''firewall'', metric_json firewall_json (mm_firewall m))]"

definition history_entry_json :: "history_entry \<Rightarrow> json" where
  "history_entry_json e = JObj ((''command'', JStr (he_command e)) # jopt ''executedAt'' JStr (he_executedAt e))"

definition sftp_entry_json :: "sftp_entry \<Rightarrow> json" where
  "sftp_entry_json e = JObj [(''name'', JStr (se_name e)), (''path'', JStr (se_path e)), (''kind'', JStr (se_kind e)),
     (''size'', jnum (se_size e)), (''mode'', jnum (se_mode e)), (''modifiedAt'', JStr (se_modifiedAt e))]"

definition null_or :: "('a \<Rightarrow> json) \<Rightarrow> 'a option \<Rightarrow> json" where
  "null_or f v = (case v of None \<Rightarrow> JNull | Some x \<Rightarrow> f x)"

definition progress_fields :: "transfer_progress \<Rightarrow> (string \<times> json) list" where
  "progress_fields t = [(''transferId'', JStr (tp_transferId t)), (''direction'', JStr (tp_direction t)),
     (''status'', JStr (tp_status t)), (''path'', JStr (tp_path t)), (''transferredBytes'', jnum (tp_transferredBytes t)),
     (''totalBytes'', jnum (tp_totalBytes t)), (''bytesPerSecond'', JNum (tp_bytesPerSecond t)),
     (''estimatedSecondsRemaining'', null_or JNum (tp_estimatedSecondsRemaining t)),
     (''acknowledgedOffset'', jnum (tp_acknowledgedOffset t)), (''updatedAt'', JStr (tp_updatedAt t))]"

fun server_type :: "server_body \<Rightarrow> string" where
  "server_type (Sv_Status _ _ _ _ _) = ''status''"
| "server_type (Sv_Host_Key _ _ _ _ _ _ _) = ''host-key''"
| "server_type (Sv_Output _ _ _) = ''output''"
| "server_type (Sv_Metrics _) = ''metrics''"
| "server_type (Sv_Shell_History _) = ''shell-history-result''"
| "server_type (Sv_List _ _ _) = ''file-result''"
| "server_type (Sv_Read _ _ _ _) = ''file-result''"
| "server_type (Sv_Mutation _ _ _) = ''file-result''"
| "server_type (Sv_Transfer_Ready _ _ _ _ _ _) = ''transfer-ready''"
| "server_type (Sv_Transfer_Progress _) = ''transfer-progress''"
| "server_type (Sv_Error _ _ _ _) = ''error''"

fun server_fields :: "server_body \<Rightarrow> (string \<times> json) list" where
  "server_fields (Sv_Status st msg occurred reason conn) =
     [(''state'', JStr st), (''message'', JStr msg), (''occurredAt'', JStr occurred)] @
     jopt ''closeReason'' JStr reason @ jopt ''connection'' connection_json conn"
| "server_fields (Sv_Host_Key host port algorithm fingerprint changed previous expires) =
     [(''host'', JStr host), (''port'', jnum port), (''algorithm'', JStr algorithm), (''fingerprint'', JStr fingerprint),
      (''changed'', JBool changed)] @ jopt ''previousFingerprint'' JStr previous @ [(''confirmationExpiresAt'', JStr expires)]"
| "server_fields (Sv_Output sequence stream data) =
     [(''sequence'', jnum sequence), (''stream'', JStr stream), (''data'', JStr data)]"
| "server_fields (Sv_Metrics m) = metrics_fields m"
| "server_fields (Sv_Shell_History es) =
     [(''shell'', JStr ''bash''), (''source'', JStr ''~/.bash_history''), (''entries'', JArr (map history_entry_json es))]"
| "server_fields (Sv_List path es cursor) =
     [(''operation'', JStr ''list''), (''path'', JStr path), (''entries'', JArr (map sftp_entry_json es)),
      (''nextCursor'', null_or JStr cursor)]"
| "server_fields (Sv_Read path bytes mode modified) =
     [(''operation'', JStr ''read''), (''path'', JStr path), (''size'', jnum bytes), (''mode'', jnum mode), (''modifiedAt'', JStr modified)]"
| "server_fields (Sv_Mutation operation path dest) =
     [(''operation'', JStr operation), (''path'', JStr path)] @ jopt ''destinationPath'' JStr dest"
| "server_fields (Sv_Transfer_Ready transferId direction path totalBytes chunk resume) =
     [(''transferId'', JStr transferId), (''direction'', JStr direction), (''path'', JStr path), (''totalBytes'', jnum totalBytes),
      (''chunkSize'', jnum chunk), (''resumeOffset'', jnum resume)]"
| "server_fields (Sv_Transfer_Progress t) = progress_fields t"
| "server_fields (Sv_Error code msg retryable fatal) =
     [(''code'', JStr code), (''message'', JStr msg), (''retryable'', JBool retryable), (''fatal'', JBool fatal)]"

definition server_json :: "server_message \<Rightarrow> json" where
  "server_json m = JObj ([(''protocolVersion'', jnum WS_PROTOCOL_VERSION)] @ jopt ''requestId'' JStr (sm_requestId m) @
     [(''sessionId'', JStr (sm_sessionId m)), (''attemptId'', JStr (sm_attemptId m)), (''type'', JStr (server_type (sm_body m)))] @
     server_fields (sm_body m))"

text \<open>\<open>JSON.stringify\<close> with the printer of the numbers that are not safe integers as a parameter.\<close>

record js_platform = zod +
  js_number :: "rat \<Rightarrow> string"

definition print_number :: "(rat \<Rightarrow> string) \<Rightarrow> rat \<Rightarrow> string" where
  "print_number num q = (if is_safe_integer q then show_int \<lfloor>q\<rfloor> else num q)"

fun json_print :: "(rat \<Rightarrow> string) \<Rightarrow> json \<Rightarrow> string" where
  "json_print num JNull = ''null''"
| "json_print num (JBool b) = (if b then ''true'' else ''false'')"
| "json_print num (JNum q) = print_number num q"
| "json_print num (JStr s) = json_str s"
| "json_print num (JArr xs) = ''['' @ join_with '','' (map (json_print num) xs) @ '']''"
| "json_print num (JObj kvs) =
     ''{'' @ join_with '','' (map (\<lambda>(k, v). json_str k @ '':'' @ json_print num v) kvs) @ ''}''"

definition json_bytes :: "(rat \<Rightarrow> string) \<Rightarrow> json \<Rightarrow> nat" where
  "json_bytes num j = length (utf8 (json_print num j))"

definition ServerWebSocketMessageSchema :: "js_platform \<Rightarrow> server_message \<Rightarrow> bool" where
  "ServerWebSocketMessageSchema p m \<longleftrightarrow>
     server_ok (zod.truncate p) m \<and> json_bytes (js_number p) (server_json m) \<le> MAX_JSON_MESSAGE_BYTES"

section \<open>Bounds on the text\<close>

lemma utf8_append [simp]: "utf8 (s @ t) = utf8 s @ utf8 t"
  by (induction s) auto

lemma utf8_concat: "length (utf8 (concat ws)) = (\<Sum>w\<leftarrow>ws. length (utf8 w))"
  by (induction ws) auto

lemma utf8_ascii: "list_all (\<lambda>d. cu d < 128) s \<Longrightarrow> length (utf8 s) = length s"
  by (induction s) auto

lemma utf8_esc: "length (utf8 (esc_char c)) \<le> 6"
proof -
  have "length (esc_char c) \<le> 2 \<or> (length (esc_char c) = 6 \<and> list_all (\<lambda>d. cu d < 128) (esc_char c))"
    by (auto simp: esc_char_def bs_char_def quote_char_def hex2_def)
  then show ?thesis using length_utf8_le [of "esc_char c"] utf8_ascii [of "esc_char c"] by fastforce
qed

lemma json_str_bytes: "length (utf8 (json_str s)) \<le> 2 + 6 * length s"
proof -
  have "(\<Sum>w\<leftarrow>map esc_char s. length (utf8 w)) \<le> 6 * length s"
  proof (induction s)
    case (Cons c s)
    then show ?case using utf8_esc [of c] by simp
  qed simp
  then show ?thesis by (simp add: json_str_def utf8_concat quote_char_def)
qed

lemma join_bytes: "length (utf8 (join_with '','' ws)) \<le> (\<Sum>w\<leftarrow>ws. Suc (length (utf8 w)))"
  by (induction "'',''" ws rule: join_with.induct) auto

lemma show_nat_ascii: "list_all (\<lambda>d. cu d < 128) (show_nat n)"
  using show_nat_digits [of n] by (rule list.pred_mono_strong) (simp add: is_digit_def in_range_def)

text \<open>The longest text of a value: 6 bytes for a character of a string, 32 for a number.\<close>

fun json_max :: "json \<Rightarrow> nat" where
  "json_max JNull = 4"
| "json_max (JBool b) = 5"
| "json_max (JNum q) = 32"
| "json_max (JStr s) = 2 + 6 * length s"
| "json_max (JArr xs) = 2 + (\<Sum>x\<leftarrow>xs. Suc (json_max x))"
| "json_max (JObj kvs) = 2 + (\<Sum>(k, v)\<leftarrow>kvs. 4 + 6 * length k + json_max v)"

definition number_law :: "(rat \<Rightarrow> string) \<Rightarrow> bool" where
  "number_law num \<longleftrightarrow> (\<forall>q. length (utf8 (num q)) \<le> 32)"

lemma print_number_bytes: "number_law num \<Longrightarrow> length (utf8 (print_number num q)) \<le> 32"
proof (cases "is_safe_integer q")
  case True
  then have "\<bar>\<lfloor>q\<rfloor>\<bar> \<le> max_safe" by (simp add: is_safe_integer_def)
  then have "nat \<bar>\<lfloor>q\<rfloor>\<bar> < 10 ^ 16" by (simp add: max_safe_def)
  then have "length (show_nat (nat \<bar>\<lfloor>q\<rfloor>\<bar>)) \<le> 16" by (rule length_show_nat) simp
  then have "length (show_int \<lfloor>q\<rfloor>) \<le> 17 \<and> list_all (\<lambda>d. cu d < 128) (show_int \<lfloor>q\<rfloor>)"
    using show_nat_ascii [of "nat \<bar>\<lfloor>q\<rfloor>\<bar>"] by (auto simp: show_int_def split: if_splits)
  then show ?thesis using True utf8_ascii [of "show_int \<lfloor>q\<rfloor>"] by (simp add: print_number_def)
qed (simp add: number_law_def print_number_def)

lemma json_print_bytes:
  assumes "number_law num"
  shows "length (utf8 (json_print num j)) \<le> json_max j"
proof (induction j)
  case (JArr xs)
  have "(\<Sum>w\<leftarrow>map (json_print num) xs. Suc (length (utf8 w))) \<le> (\<Sum>x\<leftarrow>xs. Suc (json_max x))"
    using JArr by (simp add: o_def) (rule sum_list_mono, simp)
  then show ?case using join_bytes [of "map (json_print num) xs"] by simp
next
  case (JObj kvs)
  have "(\<Sum>w\<leftarrow>map (\<lambda>(k, v). json_str k @ '':'' @ json_print num v) kvs. Suc (length (utf8 w)))
      \<le> (\<Sum>(k, v)\<leftarrow>kvs. 4 + 6 * length k + json_max v)"
    unfolding map_map o_def
  proof (rule sum_list_mono, clarify)
    fix k v assume "(k, v) \<in> set kvs"
    then have "length (utf8 (json_print num v)) \<le> json_max v" using JObj by force
    then show "Suc (length (utf8 (json_str k @ '':'' @ json_print num v))) \<le> 4 + 6 * length k + json_max v"
      using json_str_bytes [of k] by simp
  qed
  then show ?case using join_bytes [of "map (\<lambda>(k, v). json_str k @ '':'' @ json_print num v) kvs"] by simp
qed (use assms print_number_bytes json_str_bytes in auto)

text \<open>What a UUID and a date of \<open>zod\<close> can be long.\<close>

definition zod_law :: "zod \<Rightarrow> bool" where
  "zod_law z \<longleftrightarrow> (\<forall>s. z_uuid z s \<longrightarrow> length s \<le> 36) \<and> (\<forall>s. z_datetime z s \<longrightarrow> length s \<le> 64)"

lemma zod_law_uuid: "zod_law z \<Longrightarrow> z_uuid z s \<Longrightarrow> length s \<le> 36"
  and zod_law_datetime: "zod_law z \<Longrightarrow> z_datetime z s \<Longrightarrow> length s \<le> 64"
  by (simp_all add: zod_law_def)

text \<open>The messages with bounded fields fit in a frame whatever characters they hold.\<close>

fun small_body :: "server_body \<Rightarrow> bool" where
  "small_body (Sv_Output n stream data) \<longleftrightarrow> length data \<le> 8192"
| "small_body (Sv_Status st msg occurred reason conn) \<longleftrightarrow> conn = None"
| "small_body (Sv_Metrics _) \<longleftrightarrow> False"
| "small_body (Sv_Shell_History _) \<longleftrightarrow> False"
| "small_body (Sv_List _ _ _) \<longleftrightarrow> False"
| "small_body _ \<longleftrightarrow> True"

lemma enum_length: "x \<in> set ws \<Longrightarrow> list_all (\<lambda>w. length w \<le> n) ws \<Longrightarrow> length x \<le> n"
  by (induction ws) auto

lemma state_length: "x \<in> set SessionStateSchema \<Longrightarrow> length x \<le> 40"
  and reason_length: "x \<in> set SessionCloseReasonSchema \<Longrightarrow> length x \<le> 40"
  and code_length: "x \<in> set ApiErrorCodeSchema \<Longrightarrow> length x \<le> 40"
  and transfer_status_length: "x \<in> set TransferStatusSchema \<Longrightarrow> length x \<le> 40"
  by (rule enum_length, assumption,
      simp add: SessionStateSchema_def SessionCloseReasonSchema_def ApiErrorCodeSchema_def TransferStatusSchema_def)+

definition fields_max :: "(string \<times> json) list \<Rightarrow> nat" where
  "fields_max kvs = (\<Sum>(k, v)\<leftarrow>kvs. 4 + 6 * length k + json_max v)"

lemma fields_max_simps [simp]:
  "fields_max [] = 0" "fields_max ((k, v) # kvs) = 4 + 6 * length k + json_max v + fields_max kvs"
  "fields_max (xs @ ys) = fields_max xs + fields_max ys"
  by (simp_all add: fields_max_def)

lemma host_length: "HostSchema h = Some h \<Longrightarrow> length h \<le> 253"
  by (auto simp: HostSchema_def Let_def len_ok_def split: if_splits)

lemma small_fields:
  assumes "zod_law z" "server_body_ok z b" "small_body b"
  shows "fields_max (server_fields b) \<le> 62000"
proof (cases b)
  case (Sv_Status st msg occurred reason conn)
  then have "length st \<le> 40" "length msg \<le> 512" "length occurred \<le> 64" "opt_ok (\<lambda>r. length r \<le> 40) reason" "conn = None"
    using assms by (auto simp: ServerStatusMessageSchema_def len_ok_def state_length reason_length zod_law_datetime
        elim: opt_ok.elims)
  then show ?thesis by (cases reason) (auto simp: Sv_Status)
next
  case (Sv_Host_Key host port algorithm fingerprint changed previous expires)
  then have "length host \<le> 253" "length algorithm \<le> 128" "length fingerprint \<le> 50" "length expires \<le> 64"
      "opt_ok (\<lambda>r. length r \<le> 50) previous"
    using assms by (auto simp: ServerHostKeyMessageSchema_def len_ok_def host_length is_fingerprint_def zod_law_datetime
        elim: opt_ok.elims)
  then show ?thesis by (cases previous) (auto simp: Sv_Host_Key)
next
  case (Sv_Output n stream data)
  then show ?thesis using assms by (auto simp: ServerTerminalOutputMessageSchema_def)
next
  case (Sv_Read path bytes mode modified)
  then show ?thesis using assms by (auto simp: ServerSftpReadResultMessageSchema_def path_ok_def dest: zod_law_datetime)
next
  case (Sv_Mutation operation path dest)
  then show ?thesis using assms
    by (cases dest) (auto simp: ServerSftpMutationResultMessageSchema_def path_ok_def)
next
  case (Sv_Transfer_Ready transferId direction path totalBytes chunk resume)
  then have "length transferId \<le> 36" "length direction \<le> 8" "length path \<le> 4096"
    using assms by (auto simp: ServerTransferReadyMessageSchema_def path_ok_def direction_ok_def zod_law_uuid)
  then show ?thesis by (simp add: Sv_Transfer_Ready)
next
  case (Sv_Transfer_Progress t)
  then have "length (tp_transferId t) \<le> 36" "length (tp_direction t) \<le> 8" "length (tp_status t) \<le> 40" "length (tp_path t) \<le> 4096"
      "length (tp_updatedAt t) \<le> 64" "json_max (null_or JNum (tp_estimatedSecondsRemaining t)) \<le> 32"
    using assms by (auto simp: ServerTransferProgressMessageSchema_def path_ok_def direction_ok_def zod_law_uuid
        zod_law_datetime transfer_status_length null_or_def split: option.splits)
  then show ?thesis by (simp add: Sv_Transfer_Progress progress_fields_def)
next
  case (Sv_Error code msg retryable fatal)
  then have "length code \<le> 40" "length msg \<le> 512"
    using assms by (auto simp: ServerErrorMessageSchema_def len_ok_def code_length)
  then show ?thesis by (simp add: Sv_Error)
qed (use assms in auto)

lemma server_type_length: "length (server_type b) \<le> 20"
  by (cases b) auto

lemma small_message_valid:
  assumes "zod_law (zod.truncate p)" "number_law (js_number p)" "server_ok (zod.truncate p) m" "small_body (sm_body m)"
  shows "ServerWebSocketMessageSchema p m"
proof -
  have "opt_ok (\<lambda>r. length r \<le> 36) (sm_requestId m)" "length (sm_sessionId m) \<le> 36" "length (sm_attemptId m) \<le> 36"
    using assms(1,3) by (auto simp: server_ok_def zod_law_uuid elim: opt_ok.elims)
  moreover have "fields_max (server_fields (sm_body m)) \<le> 62000"
    using small_fields assms by (simp add: server_ok_def)
  ultimately have "json_max (server_json m) \<le> MAX_JSON_MESSAGE_BYTES"
    using server_type_length [of "sm_body m"]
    by (cases "sm_requestId m") (simp_all add: server_json_def fields_max_def [symmetric] MAX_JSON_MESSAGE_BYTES_def)
  then show ?thesis
    using assms(3) json_print_bytes [OF assms(2), of "server_json m"]
    by (simp add: ServerWebSocketMessageSchema_def json_bytes_def)
qed

text \<open>An instance of the parameters, for concrete inputs.\<close>

definition demo_js :: js_platform where
  "demo_js = \<lparr>z_uuid = (\<lambda>s. length s = 1), z_datetime = (\<lambda>s. 1 \<le> length s \<and> length s \<le> 64), js_number = (\<lambda>q. ''0.5'')\<rparr>"

lemma demo_js_simps [simp]:
  "z_uuid (zod.truncate demo_js) s \<longleftrightarrow> length s = 1" "z_datetime (zod.truncate demo_js) s \<longleftrightarrow> 1 \<le> length s \<and> length s \<le> 64"
  "js_number demo_js q = ''0.5''"
  by (simp_all add: demo_js_def zod.truncate_def)

lemma demo_js_laws: "zod_law (zod.truncate demo_js)" "number_law (js_number demo_js)"
  by (simp_all add: zod_law_def number_law_def)

end
