(* ===== verification/File_Transfer.thy ===== *)
theory File_Transfer
  imports Binary_Frame Server_Messages
begin

text \<open>
  File transfer. The engine's \<open>upload\<close> and \<open>download\<close> (\<open>apps/worker/src/ssh/ssh2-engine.ts\<close>) and
  the session object's side of them (\<open>startUpload\<close>, the upload part of \<open>handleBinaryFrame\<close>,
  \<open>startDownload\<close>, \<open>sendTransferProgress\<close> and the directory pages of
  \<open>apps/worker/src/durable/ssh-session.ts\<close>). Remote streams are an argument: each call is given
  whether opening SFTP, writing and ending succeed. The locale \<open>upload_sink\<close> is the contract between the two;
  the lemmas show that a transfer reported complete has written exactly the announced bytes, and that
  pages and download frames cut their input without loss.
\<close>

section \<open>The engine's uploads\<close>

definition MAX_UPLOAD_CHUNK_BYTES :: nat where "MAX_UPLOAD_CHUNK_BYTES = 256 * 1024"
definition MAX_DOWNLOAD_BYTES :: int where "MAX_DOWNLOAD_BYTES = 100 * 1024 * 1024"

text \<open>\<open>up_written\<close> is what the write stream of the upload has accepted.\<close>

record upload_state =
  up_path :: string
  up_offset :: nat
  up_written :: bytes

text \<open>Open uploads by request, and the streams that were ended, with their contents.\<close>

record engine_uploads =
  eu_open :: "(string \<times> upload_state) list"
  eu_ended :: "(string \<times> string \<times> bytes) list"

record stream_io =
  io_sftp :: bool
  io_write :: bool
  io_end :: bool

definition engine_drop :: "string \<Rightarrow> engine_uploads \<Rightarrow> engine_uploads" where
  "engine_drop rid e = e\<lparr>eu_open := AList.delete rid (eu_open e)\<rparr>"

definition engine_upload ::
    "stream_io \<Rightarrow> string \<Rightarrow> string \<Rightarrow> nat \<Rightarrow> bytes \<Rightarrow> bool \<Rightarrow> engine_uploads \<Rightarrow> engine_uploads \<times> nat throws" where
  "engine_upload io rid path offset chunk done e =
     (if rid = [] \<or> length chunk > MAX_UPLOAD_CHUNK_BYTES then (e, Inl ''Invalid SFTP upload chunk'')
      else if \<not> io_sftp io then (e, Inl ''SFTP'')
      else
        let e = (if offset = 0
                 then e\<lparr>eu_open := AList.update rid \<lparr>up_path = path, up_offset = 0, up_written = []\<rparr> (eu_open e)\<rparr> else e)
        in case map_of (eu_open e) rid of
          None \<Rightarrow> (e, Inl ''Unexpected SFTP upload offset'')
        | Some u \<Rightarrow>
            if up_path u \<noteq> path \<or> offset \<noteq> up_offset u then (e, Inl ''Unexpected SFTP upload offset'')
            else if chunk \<noteq> [] \<and> \<not> io_write io then (engine_drop rid e, Inl ''write'')
            else
              let u = u\<lparr>up_offset := up_offset u + length chunk, up_written := up_written u @ chunk\<rparr>;
                  e = e\<lparr>eu_open := AList.update rid u (eu_open e)\<rparr>
              in if done then
                   (if \<not> io_end io then (engine_drop rid e, Inl ''end'')
                    else (engine_drop rid e\<lparr>eu_ended := (rid, path, up_written u) # eu_ended e\<rparr>, Inr (up_offset u)))
                 else (e, Inr (up_offset u)))"

section \<open>What the session relies on\<close>

text \<open>
  \<open>sent e rid\<close> is what the stream open for \<open>rid\<close> has accepted, \<open>ended e\<close> the finished streams. A
  call that succeeds continues the stream (or opens a new one at offset 0) by exactly its
  chunk, and ends it exactly when asked to.
\<close>

locale upload_sink =
  fixes upload :: "'io \<Rightarrow> string \<Rightarrow> string \<Rightarrow> nat \<Rightarrow> bytes \<Rightarrow> bool \<Rightarrow> 'e \<Rightarrow> 'e \<times> nat throws"
    and sent :: "'e \<Rightarrow> string \<Rightarrow> (string \<times> bytes) option"
    and ended :: "'e \<Rightarrow> (string \<times> string \<times> bytes) list"
    and ok :: "'e \<Rightarrow> bool"
  assumes ok_upload: "ok e \<Longrightarrow> ok (fst (upload io rid path off chunk done e))"
    and upload_result: "ok e \<Longrightarrow> upload io rid path off chunk done e = (e', Inr n) \<Longrightarrow> n = off + length chunk"
    and upload_fresh: "ok e \<Longrightarrow> upload io rid path 0 chunk done e = (e', Inr n) \<Longrightarrow>
      (if done then ended e' = (rid, path, chunk) # ended e else ended e' = ended e \<and> sent e' rid = Some (path, chunk))"
    and upload_more: "ok e \<Longrightarrow> 0 < off \<Longrightarrow> upload io rid path off chunk done e = (e', Inr n) \<Longrightarrow>
      \<exists>w. sent e rid = Some (path, w) \<and> length w = off \<and>
        (if done then ended e' = (rid, path, w @ chunk) # ended e else ended e' = ended e \<and> sent e' rid = Some (path, w @ chunk))"
    and upload_other: "ok e \<Longrightarrow> rid' \<noteq> rid \<Longrightarrow> sent (fst (upload io rid path off chunk done e)) rid' = sent e rid'"
    and upload_failed: "ok e \<Longrightarrow> upload io rid path off chunk done e = (e', Inl m) \<Longrightarrow> ended e' = ended e"
begin

text \<open>Sending chunks one after another, each where the previous one ended, stopping at the first error.\<close>

fun send_all :: "'io \<Rightarrow> string \<Rightarrow> string \<Rightarrow> nat \<Rightarrow> bytes list \<Rightarrow> 'e \<Rightarrow> 'e \<times> nat throws" where
  "send_all io rid path off [] e = (e, Inr off)"
| "send_all io rid path off (c # cs) e =
     (case upload io rid path off c (cs = []) e of
        (e', Inr n) \<Rightarrow> send_all io rid path n cs e'
      | (e', Inl m) \<Rightarrow> (e', Inl m))"

lemma send_more:
  assumes "ok e" "0 < off" "sent e rid = Some (path, w)" "cs \<noteq> []" "send_all io rid path off cs e = (e', Inr n)"
    "\<forall>c \<in> set cs. c \<noteq> []"
  shows "\<exists>v. ended e' = (rid, path, v) # ended e \<and> v = w @ concat cs \<and> n = off + length (concat cs)"
  using assms
proof (induction cs arbitrary: e off w)
  case (Cons c cs)
  obtain e1 k where u: "upload io rid path off c (cs = []) e = (e1, Inr k)" "send_all io rid path k cs e1 = (e', Inr n)"
    using Cons.prems(5) by (auto split: prod.splits sum.splits)
  have k: "k = off + length c" by (rule upload_result [OF Cons.prems(1) u(1)])
  have m: "if cs = [] then ended e1 = (rid, path, w @ c) # ended e else ended e1 = ended e \<and> sent e1 rid = Some (path, w @ c)"
    using upload_more [OF Cons.prems(1,2) u(1)] Cons.prems(3) by auto
  show ?case
  proof (cases "cs = []")
    case True
    then show ?thesis using m u(2) k by simp
  next
    case False
    have "ok e1" using ok_upload [OF Cons.prems(1), of io rid path off c "cs = []"] u(1) by simp
    then show ?thesis
      using Cons.IH [of e1 k "w @ c"] m u(2) k False Cons.prems(2,6) by auto
  qed
qed simp

text \<open>A transfer sent in full from offset 0 ends one stream that holds the concatenation of its chunks.\<close>

lemma send_complete:
  assumes "ok e" "cs \<noteq> []" "send_all io rid path 0 cs e = (e', Inr n)" "\<forall>c \<in> set cs. c \<noteq> []"
  shows "ended e' = (rid, path, concat cs) # ended e \<and> n = length (concat cs)"
proof -
  obtain c cs' where cs: "cs = c # cs'" using assms(2) by (cases cs) auto
  obtain e1 k where u: "upload io rid path 0 c (cs' = []) e = (e1, Inr k)" "send_all io rid path k cs' e1 = (e', Inr n)"
    using assms(3) unfolding cs by (auto split: prod.splits sum.splits)
  have k: "k = length c" using upload_result [OF assms(1) u(1)] by simp
  note f = upload_fresh [OF assms(1) u(1)]
  show ?thesis
  proof (cases "cs' = []")
    case True
    then show ?thesis using f u(2) k cs by simp
  next
    case False
    have "ok e1" using ok_upload [OF assms(1), of io rid path 0 c "cs' = []"] u(1) by simp
    moreover have "0 < k" using assms(4) cs k by simp
    ultimately show ?thesis
      using send_more [of e1 k rid path c cs' io e' n] f u(2) k cs False assms(4) by auto
  qed
qed

end

section \<open>The engine provides it\<close>

definition engine_ok :: "engine_uploads \<Rightarrow> bool" where
  "engine_ok e \<longleftrightarrow> distinct (map fst (eu_open e)) \<and> (\<forall>(rid, u) \<in> set (eu_open e). up_offset u = length (up_written u))"

definition engine_sent :: "engine_uploads \<Rightarrow> string \<Rightarrow> (string \<times> bytes) option" where
  "engine_sent e rid = map_option (\<lambda>u. (up_path u, up_written u)) (map_of (eu_open e) rid)"

lemma engine_ok_lookup: "engine_ok e \<Longrightarrow> map_of (eu_open e) rid = Some u \<Longrightarrow> up_offset u = length (up_written u)"
  by (auto simp: engine_ok_def dest: map_of_SomeD)

lemma engine_ok_update:
  "engine_ok e \<Longrightarrow> up_offset u = length (up_written u) \<Longrightarrow> engine_ok (e\<lparr>eu_open := AList.update rid u (eu_open e)\<rparr>)"
  by (auto simp: engine_ok_def distinct_update set_AList_update)

lemma engine_ok_drop: "engine_ok e \<Longrightarrow> engine_ok (engine_drop rid e)"
  by (auto simp: engine_ok_def engine_drop_def distinct_delete set_AList_delete)

lemma engine_ok_ended [simp]: "engine_ok (e\<lparr>eu_ended := x\<rparr>) = engine_ok e"
  by (simp add: engine_ok_def)

lemma engine_drop_simps [simp]:
  "eu_ended (engine_drop rid e) = eu_ended e" "eu_open (engine_drop rid e) = AList.delete rid (eu_open e)"
  by (simp_all add: engine_drop_def)

lemma map_of_AList_update: "map_of (AList.update k v kvs) k' = (if k' = k then Some v else map_of kvs k')"
  by (simp add: update_conv')

lemma map_of_AList_delete: "map_of (AList.delete k kvs) k' = (if k' = k then None else map_of kvs k')"
  by (simp add: delete_conv')

interpretation engine: upload_sink engine_upload engine_sent eu_ended engine_ok
proof unfold_locales
  fix e e' :: engine_uploads and io rid rid' path off chunk "done" n m
  assume e: "engine_ok e"
  have e0: "engine_ok (e\<lparr>eu_open := AList.update rid \<lparr>up_path = path, up_offset = 0, up_written = []\<rparr> (eu_open e)\<rparr>)"
    by (rule engine_ok_update [OF e]) simp
  show "engine_ok (fst (engine_upload io rid path off chunk done e))"
    using e e0
    by (auto simp: engine_upload_def Let_def map_of_AList_update dest: engine_ok_lookup
        intro!: engine_ok_drop engine_ok_update split: option.splits)
  show "engine_upload io rid path off chunk done e = (e', Inr n) \<Longrightarrow> n = off + length chunk"
    by (auto simp: engine_upload_def Let_def split: if_splits option.splits)
  show "engine_upload io rid path 0 chunk done e = (e', Inr n) \<Longrightarrow>
      (if done then eu_ended e' = (rid, path, chunk) # eu_ended e
       else eu_ended e' = eu_ended e \<and> engine_sent e' rid = Some (path, chunk))"
    by (auto simp: engine_upload_def Let_def map_of_AList_update engine_sent_def split: if_splits)
  show "0 < off \<Longrightarrow> engine_upload io rid path off chunk done e = (e', Inr n) \<Longrightarrow>
      \<exists>w. engine_sent e rid = Some (path, w) \<and> length w = off \<and>
        (if done then eu_ended e' = (rid, path, w @ chunk) # eu_ended e
         else eu_ended e' = eu_ended e \<and> engine_sent e' rid = Some (path, w @ chunk))"
    using engine_ok_lookup [OF e, of rid]
    by (auto simp: engine_upload_def Let_def map_of_AList_update engine_sent_def split: if_splits option.splits)
  show "rid' \<noteq> rid \<Longrightarrow> engine_sent (fst (engine_upload io rid path off chunk done e)) rid' = engine_sent e rid'"
    by (auto simp: engine_upload_def Let_def map_of_AList_update map_of_AList_delete engine_sent_def split: option.splits)
  show "engine_upload io rid path off chunk done e = (e', Inl m) \<Longrightarrow> eu_ended e' = eu_ended e"
    by (auto simp: engine_upload_def Let_def split: if_splits option.splits)
qed

section \<open>The session object's uploads\<close>

text \<open>\<open>ProtocolError\<close> with its code, message, fatality and close code, and every other error.\<close>

datatype failure = Protocol_Error string string bool int | Plain_Error string

definition MESSAGE_INVALID :: int where "MESSAGE_INVALID = 4400"
definition MESSAGE_TOO_LARGE :: int where "MESSAGE_TOO_LARGE = 4409"
definition SESSION_TERMINATED :: int where "SESSION_TERMINATED = 4500"

definition invalid :: "string \<Rightarrow> bool \<Rightarrow> failure" where
  "invalid msg fatal = Protocol_Error ''VALIDATION_FAILED'' msg fatal MESSAGE_INVALID"

record upload_transfer =
  ut_requestId :: string
  ut_path :: string
  ut_size :: nat
  ut_offset :: nat
  ut_startedAt :: millis
  ut_kind :: string

text \<open>
  The part of the session a transfer works on: \<open>live.uploads\<close>, the engine's uploads, and the messages
  handed to \<open>sendServer\<close> with their request ids, newest first.
\<close>

record transfer_side =
  tf_uploads :: "(string \<times> upload_transfer) list"
  tf_engine :: engine_uploads
  tf_sent :: "(string \<times> server_body) list"

definition tf_send :: "string \<Rightarrow> server_body \<Rightarrow> transfer_side \<Rightarrow> transfer_side" where
  "tf_send rid b s = s\<lparr>tf_sent := (rid, b) # tf_sent s\<rparr>"

text \<open>The clock of one operation: \<open>Date.now()\<close> and the date it prints as.\<close>

record clock =
  ck_now :: millis
  ck_iso :: string

definition progress_body :: "clock \<Rightarrow> string \<Rightarrow> string \<Rightarrow> string \<Rightarrow> upload_transfer \<Rightarrow> server_body" where
  "progress_body ck transferId direction status t =
     (let elapsedSeconds = max (1 / 1000) (of_int (ck_now ck - ut_startedAt t) / 1000);
          rate = of_nat (ut_offset t) / elapsedSeconds in
      Sv_Transfer_Progress \<lparr>tp_transferId = transferId, tp_direction = direction, tp_status = status, tp_path = ut_path t,
        tp_transferredBytes = int (ut_offset t), tp_totalBytes = int (ut_size t), tp_bytesPerSecond = rate,
        tp_estimatedSecondsRemaining =
          (if ut_offset t > 0 then Some (max 0 (of_int (int (ut_size t) - int (ut_offset t)) / rate)) else None),
        tp_acknowledgedOffset = int (ut_offset t), tp_updatedAt = ck_iso ck\<rparr>)"

definition sendTransferProgress ::
    "clock \<Rightarrow> string \<Rightarrow> string \<Rightarrow> string \<Rightarrow> upload_transfer \<Rightarrow> transfer_side \<Rightarrow> transfer_side" where
  "sendTransferProgress ck transferId direction status t s =
     tf_send (ut_requestId t) (progress_body ck transferId direction status t) s"

definition send_written :: "upload_transfer \<Rightarrow> transfer_side \<Rightarrow> transfer_side" where
  "send_written t s = (if ut_kind t = ''write'' then tf_send (ut_requestId t) (Sv_Mutation ''write'' (ut_path t) None) s else s)"

definition startUpload ::
    "stream_io \<Rightarrow> clock \<Rightarrow> string \<Rightarrow> string \<Rightarrow> string \<Rightarrow> nat \<Rightarrow> string \<Rightarrow> transfer_side \<Rightarrow> transfer_side \<times> (failure + unit)" where
  "startUpload io ck transferId requestId path bytes kind s =
     (let t = \<lparr>ut_requestId = requestId, ut_path = path, ut_size = bytes, ut_offset = 0, ut_startedAt = ck_now ck, ut_kind = kind\<rparr>;
          s = s\<lparr>tf_uploads := AList.update transferId t (tf_uploads s)\<rparr>;
          s = tf_send requestId (Sv_Transfer_Ready transferId ''upload'' path (int bytes) (int MAX_TERMINAL_CHUNK_BYTES) 0) s in
      if bytes = 0 then
        (case engine_upload io transferId path 0 [] True (tf_engine s) of
           (e, Inl m) \<Rightarrow> (s\<lparr>tf_engine := e\<rparr>, Inl (Plain_Error m))
         | (e, Inr _) \<Rightarrow>
             let s = s\<lparr>tf_engine := e, tf_uploads := AList.delete transferId (tf_uploads s)\<rparr>;
                 s = send_written t s
             in (sendTransferProgress ck transferId ''upload'' ''completed'' t s, Inr ()))
      else (sendTransferProgress ck transferId ''upload'' ''transferring'' t s, Inr ()))"

text \<open>The upload part of \<open>handleBinaryFrame\<close>, after the session and attempt of the header were checked.\<close>

definition upload_frame ::
    "stream_io \<Rightarrow> clock \<Rightarrow> frame_header \<Rightarrow> bytes \<Rightarrow> transfer_side \<Rightarrow> transfer_side \<times> (failure + unit)" where
  "upload_frame io ck h payload s =
     (if fh_kind h \<noteq> ''sftp-upload-chunk'' \<or> falsy (fh_transferId h) \<or> fh_offset h = None
      then (s, Inl (invalid ''Unsupported client binary frame'' True))
      else
        let tid = the (fh_transferId h) in
        case map_of (tf_uploads s) tid of
          None \<Rightarrow> (s, Inl (invalid ''Unexpected upload offset'' False))
        | Some t \<Rightarrow>
            if Some (int (ut_offset t)) \<noteq> fh_offset h then (s, Inl (invalid ''Unexpected upload offset'' False))
            else if ut_offset t + length payload > ut_size t then (s, Inl (invalid ''Upload exceeds declared size'' False))
            else
              let done = (ut_offset t + length payload = ut_size t) in
              (case engine_upload io tid (ut_path t) (ut_offset t) payload done (tf_engine s) of
                 (e, Inl m) \<Rightarrow> (s\<lparr>tf_engine := e\<rparr>, Inl (Plain_Error m))
               | (e, Inr n) \<Rightarrow>
                   let t = t\<lparr>ut_offset := n\<rparr>;
                       s = s\<lparr>tf_engine := e, tf_uploads := AList.update tid t (tf_uploads s)\<rparr>;
                       s = (if done then send_written t (s\<lparr>tf_uploads := AList.delete tid (tf_uploads s)\<rparr>) else s)
                   in (sendTransferProgress ck tid ''upload'' (if done then ''completed'' else ''transferring'') t s, Inr ())))"

section \<open>A completed upload is complete\<close>

text \<open>Every state the uploads of a session can reach; each \<open>crypto.randomUUID()\<close> of a start is new.\<close>

inductive transfers :: "string set \<Rightarrow> transfer_side \<Rightarrow> bool" where
  idle: "transfers {} \<lparr>tf_uploads = [], tf_engine = \<lparr>eu_open = [], eu_ended = []\<rparr>, tf_sent = []\<rparr>"
| start: "transfers ids s \<Longrightarrow> tid \<notin> ids \<Longrightarrow>
    transfers (insert tid ids) (fst (startUpload io ck tid requestId path bytes kind s))"
| frame: "transfers ids s \<Longrightarrow> transfers ids (fst (upload_frame io ck h payload s))"

definition completed_upload :: "engine_uploads \<Rightarrow> server_body \<Rightarrow> bool" where
  "completed_upload e b =
     (case b of Sv_Transfer_Progress t \<Rightarrow>
        tp_status t = ''completed'' \<longrightarrow>
          (\<exists>v. (tp_transferId t, tp_path t, v) \<in> set (eu_ended e) \<and> int (length v) = tp_totalBytes t \<and>
             tp_transferredBytes t = tp_totalBytes t)
      | _ \<Rightarrow> True)"

definition uploads_ok :: "transfer_side \<Rightarrow> bool" where
  "uploads_ok s \<longleftrightarrow> engine_ok (tf_engine s) \<and> (\<forall>(rid, b) \<in> set (tf_sent s). completed_upload (tf_engine s) b)"

lemma completed_upload_mono: "completed_upload e b \<Longrightarrow> set (eu_ended e) \<subseteq> set (eu_ended e') \<Longrightarrow> completed_upload e' b"
  by (auto simp: completed_upload_def split: server_body.splits)

text \<open>The engine never forgets an ended stream, and a last chunk that succeeds ends one of the right length.\<close>

lemma engine_upload_keeps:
  "engine_ok e \<Longrightarrow> engine_upload io rid path off chunk done e = (e', r) \<Longrightarrow> set (eu_ended e) \<subseteq> set (eu_ended e')"
proof (cases r)
  case (Inr n)
  assume e: "engine_ok e" and u: "engine_upload io rid path off chunk done e = (e', r)"
  show ?thesis
    using engine.upload_fresh [of e io rid path chunk "done" e' n] engine.upload_more [of e off io rid path chunk "done" e' n] e u Inr
    by (cases "off = 0"; cases "done") auto
next
  case (Inl m)
  assume "engine_ok e" "engine_upload io rid path off chunk done e = (e', r)"
  then show ?thesis using engine.upload_failed [of e io rid path off chunk "done" e' m] Inl by simp
qed

lemma engine_upload_last:
  assumes "engine_ok e" "engine_upload io rid path off chunk True e = (e', Inr n)"
  shows "\<exists>v. (rid, path, v) \<in> set (eu_ended e') \<and> length v = off + length chunk \<and> n = off + length chunk"
proof (cases "off = 0")
  case True
  then show ?thesis using engine.upload_fresh [of e io rid path chunk True e' n] engine.upload_result assms by fastforce
next
  case False
  then obtain w where "length w = off" "eu_ended e' = (rid, path, w @ chunk) # eu_ended e"
    using engine.upload_more [of e off io rid path chunk True e' n] assms by auto
  moreover have "n = off + length chunk" using engine.upload_result assms by blast
  ultimately show ?thesis by auto
qed

lemma engine_upload_ok: "engine_ok e \<Longrightarrow> engine_upload io rid path off chunk done e = (e', r) \<Longrightarrow> engine_ok e'"
  using engine.ok_upload [of e io rid path off chunk "done"] by simp

lemma tf_send_simps [simp]:
  "tf_uploads (tf_send r b s) = tf_uploads s" "tf_engine (tf_send r b s) = tf_engine s"
  "tf_sent (tf_send r b s) = (r, b) # tf_sent s"
  by (simp_all add: tf_send_def)

lemma uploads_ok_send: "uploads_ok s \<Longrightarrow> completed_upload (tf_engine s) b \<Longrightarrow> uploads_ok (tf_send r b s)"
  by (simp add: uploads_ok_def)

lemma uploads_ok_uploads [simp]: "uploads_ok (s\<lparr>tf_uploads := x\<rparr>) = uploads_ok s"
  by (simp add: uploads_ok_def)

lemma uploads_ok_engine:
  "uploads_ok s \<Longrightarrow> engine_upload io rid path off chunk done (tf_engine s) = (e, r) \<Longrightarrow> uploads_ok (s\<lparr>tf_engine := e\<rparr>)"
  using engine_upload_ok [of "tf_engine s" io rid path off chunk "done" e r]
    engine_upload_keeps [of "tf_engine s" io rid path off chunk "done" e r]
  by (auto simp: uploads_ok_def intro: completed_upload_mono)

lemma send_written_simps [simp]:
  "tf_uploads (send_written t s) = tf_uploads s" "tf_engine (send_written t s) = tf_engine s"
  by (simp_all add: send_written_def)

lemma uploads_ok_written: "uploads_ok s \<Longrightarrow> uploads_ok (send_written t s)"
  by (simp add: send_written_def uploads_ok_send completed_upload_def)

lemma uploads_ok_progress:
  assumes "uploads_ok s"
    and "status = ''completed'' \<Longrightarrow> \<exists>v. (tid, ut_path t, v) \<in> set (eu_ended (tf_engine s)) \<and> length v = ut_size t \<and> ut_offset t = ut_size t"
  shows "uploads_ok (sendTransferProgress ck tid dir status t s)"
  unfolding sendTransferProgress_def
  by (rule uploads_ok_send [OF assms(1)]) (use assms(2) in \<open>auto simp: progress_body_def completed_upload_def Let_def\<close>)

lemma startUpload_ok:
  assumes s: "uploads_ok s"
  shows "uploads_ok (fst (startUpload io ck tid rid path bytes kind s))"
proof -
  define t where "t = \<lparr>ut_requestId = rid, ut_path = path, ut_size = bytes, ut_offset = 0, ut_startedAt = ck_now ck, ut_kind = kind\<rparr>"
  define s1 where "s1 = tf_send rid (Sv_Transfer_Ready tid ''upload'' path (int bytes) (int MAX_TERMINAL_CHUNK_BYTES) 0)
      (s\<lparr>tf_uploads := AList.update tid t (tf_uploads s)\<rparr>)"
  have s1: "uploads_ok s1" unfolding s1_def by (rule uploads_ok_send) (simp_all add: s completed_upload_def)
  obtain e r where u: "engine_upload io tid path 0 [] True (tf_engine s1) = (e, r)" by (metis surj_pair)
  have e: "uploads_ok (s1\<lparr>tf_engine := e\<rparr>)" by (rule uploads_ok_engine [OF s1 u])
  have eq: "startUpload io ck tid rid path bytes kind s =
    (if bytes = 0 then (case r of Inl m \<Rightarrow> (s1\<lparr>tf_engine := e\<rparr>, Inl (Plain_Error m))
        | Inr _ \<Rightarrow> (sendTransferProgress ck tid ''upload'' ''completed'' t
            (send_written t (s1\<lparr>tf_engine := e, tf_uploads := AList.delete tid (tf_uploads s1)\<rparr>)), Inr ()))
     else (sendTransferProgress ck tid ''upload'' ''transferring'' t s1, Inr ()))"
    using u by (simp add: startUpload_def s1_def t_def Let_def split: sum.splits)
  show ?thesis
  proof (cases "bytes = 0")
    case True
    show ?thesis
    proof (cases r)
      case (Inr n)
      then have "\<exists>v. (tid, path, v) \<in> set (eu_ended e) \<and> length v = 0"
        using engine_upload_last [of "tf_engine s1"] s1 u by (fastforce simp: uploads_ok_def)
      moreover have "uploads_ok (s1\<lparr>tf_engine := e, tf_uploads := AList.delete tid (tf_uploads s1)\<rparr>)"
        using e by simp
      ultimately show ?thesis using True Inr unfolding eq
        by (auto simp: t_def intro!: uploads_ok_progress uploads_ok_written)
    qed (use True e eq in simp)
  qed (auto simp: eq s1 intro: uploads_ok_progress)
qed

lemma upload_frame_ok:
  assumes s: "uploads_ok s"
  shows "uploads_ok (fst (upload_frame io ck h payload s))"
proof (cases "fh_kind h \<noteq> ''sftp-upload-chunk'' \<or> falsy (fh_transferId h) \<or> fh_offset h = None")
  case False
  then obtain off where h: "fh_kind h = ''sftp-upload-chunk''" "\<not> falsy (fh_transferId h)" "fh_offset h = Some off" by auto
  define tid where "tid = the (fh_transferId h)"
  show ?thesis
  proof (cases "map_of (tf_uploads s) tid")
    case (Some t)
    define d where "d = (ut_offset t + length payload = ut_size t)"
    obtain e r where u: "engine_upload io tid (ut_path t) (ut_offset t) payload d (tf_engine s) = (e, r)" by (metis surj_pair)
    have e: "uploads_ok (s\<lparr>tf_engine := e\<rparr>)" by (rule uploads_ok_engine [OF s u])
    show ?thesis
    proof (cases "Some (int (ut_offset t)) \<noteq> fh_offset h \<or> ut_offset t + length payload > ut_size t")
      case True
      then show ?thesis using h Some s by (auto simp: upload_frame_def Let_def tid_def [symmetric])
    next
      case False
      show ?thesis
      proof (cases r)
        case (Inl m)
        then show ?thesis using h Some False u e
          by (simp add: upload_frame_def Let_def tid_def [symmetric] d_def)
      next
        case (Inr n)
        define t' where "t' = t\<lparr>ut_offset := n\<rparr>"
        define s' where "s' = s\<lparr>tf_engine := e, tf_uploads := AList.update tid t' (tf_uploads s)\<rparr>"
        define s'' where "s'' = (if d then send_written t' (s'\<lparr>tf_uploads := AList.delete tid (tf_uploads s')\<rparr>) else s')"
        have s': "uploads_ok s'"
          using e by (simp add: s'_def)
        then have s'': "uploads_ok s''" "tf_engine s'' = e"
          by (simp_all add: s''_def uploads_ok_written) (simp_all add: s'_def)
        have "d \<Longrightarrow> \<exists>v. (tid, ut_path t', v) \<in> set (eu_ended e) \<and> length v = ut_size t' \<and> ut_offset t' = ut_size t'"
          using engine_upload_last [of "tf_engine s"] s u Inr by (fastforce simp: uploads_ok_def d_def t'_def)
        then have "uploads_ok (sendTransferProgress ck tid ''upload'' (if d then ''completed'' else ''transferring'') t' s'')"
          using s'' by (intro uploads_ok_progress) (auto split: if_splits)
        moreover have "fst (upload_frame io ck h payload s) =
            sendTransferProgress ck tid ''upload'' (if d then ''completed'' else ''transferring'') t' s''"
          using h Some False u Inr
          by (simp add: upload_frame_def Let_def tid_def [symmetric] d_def [symmetric] s''_def s'_def t'_def)
        ultimately show ?thesis by simp
      qed
    qed
  qed (use h s in \<open>simp add: upload_frame_def Let_def tid_def [symmetric]\<close>)
qed (use s in \<open>auto simp: upload_frame_def\<close>)

lemma transfers_ok: "transfers ids s \<Longrightarrow> uploads_ok s"
proof (induction rule: transfers.induct)
  case idle
  show ?case by (simp add: uploads_ok_def engine_ok_def)
qed (simp_all add: startUpload_ok upload_frame_ok)

text \<open>
  C32: Whatever starts and chunks a session has processed, and whichever writes failed, an upload that was
  reported completed has ended a remote stream on the announced path holding exactly the announced number of bytes.
\<close>

theorem completed_upload_exact:
  assumes "transfers ids s" "(rid, Sv_Transfer_Progress t) \<in> set (tf_sent s)" "tp_status t = ''completed''"
  shows "\<exists>v. (tp_transferId t, tp_path t, v) \<in> set (eu_ended (tf_engine s)) \<and> int (length v) = tp_totalBytes t \<and>
    tp_transferredBytes t = tp_totalBytes t"
  using transfers_ok [OF assms(1)] assms(2,3) by (fastforce simp: uploads_ok_def completed_upload_def)

text \<open>A witness history: one empty file, then three bytes in two chunks.\<close>

definition good_io :: stream_io where
  "good_io = \<lparr>io_sftp = True, io_write = True, io_end = True\<rparr>"

definition demo_clock :: clock where
  "demo_clock = \<lparr>ck_now = 1000, ck_iso = ''t''\<rparr>"

definition upload_header :: "string \<Rightarrow> string \<Rightarrow> string \<Rightarrow> nat \<Rightarrow> bytes \<Rightarrow> frame_header" where
  "upload_header sid aid tid off chunk = \<lparr>fh_kind = ''sftp-upload-chunk'', fh_sessionId = sid, fh_attemptId = aid,
     fh_transferId = Some tid, fh_sequence = 0, fh_offset = Some (int off), fh_payloadBytes = int (length chunk)\<rparr>"

definition demo_side :: transfer_side where
  "demo_side = fst (startUpload good_io demo_clock ''a'' ''r'' ''/x'' 0 ''upload''
     \<lparr>tf_uploads = [], tf_engine = \<lparr>eu_open = [], eu_ended = []\<rparr>, tf_sent = []\<rparr>)"

lemmas transfer_eval = startUpload_def upload_frame_def engine_upload_def engine_drop_def tf_send_def sendTransferProgress_def
  progress_body_def send_written_def good_io_def demo_clock_def upload_header_def falsy_def MAX_UPLOAD_CHUNK_BYTES_def
  MAX_TERMINAL_CHUNK_BYTES_def Let_def

lemma demo_side_sent: "\<exists>t. (''r'', Sv_Transfer_Progress t) \<in> set (tf_sent demo_side) \<and> tp_status t = ''completed'' \<and>
    tp_transferId t = ''a'' \<and> tp_path t = ''/x''"
  by (simp add: demo_side_def transfer_eval)

lemma completed_upload_exact_witness:
  "\<exists>v. (''a'', ''/x'', v) \<in> set (eu_ended (tf_engine demo_side))"
proof -
  have "transfers {''a''} demo_side"
    unfolding demo_side_def by (rule transfers.start [OF transfers.idle]) simp
  moreover obtain t where "(''r'', Sv_Transfer_Progress t) \<in> set (tf_sent demo_side)" "tp_status t = ''completed''"
      "tp_transferId t = ''a''" "tp_path t = ''/x''"
    using demo_side_sent by blast
  ultimately show ?thesis using completed_upload_exact [of "{''a''}" demo_side "''r''" t] by auto
qed

section \<open>An upload sent in order arrives\<close>

text \<open>The browser's chunks, each at the offset where the previous one ended.\<close>

fun send_frames :: "stream_io \<Rightarrow> clock \<Rightarrow> string \<Rightarrow> nat \<Rightarrow> bytes list \<Rightarrow> transfer_side \<Rightarrow> transfer_side \<times> (failure + unit)" where
  "send_frames io ck tid off [] s = (s, Inr ())"
| "send_frames io ck tid off (c # cs) s =
     (case upload_frame io ck (upload_header [] [] tid off c) c s of
        (s', Inl f) \<Rightarrow> (s', Inl f)
      | (s', Inr _) \<Rightarrow> send_frames io ck tid (off + length c) cs s')"

lemma send_frames_simulate:
  assumes "tid \<noteq> []" "map_of (tf_uploads s) tid = Some t" "ut_offset t + length (concat cs) = ut_size t" "cs \<noteq> []"
    "\<forall>c \<in> set cs. c \<noteq> []" "engine_ok (tf_engine s)"
    "engine.send_all io tid (ut_path t) (ut_offset t) cs (tf_engine s) = (e', Inr n)"
  shows "\<exists>s' p. send_frames io ck tid (ut_offset t) cs s = (s', Inr ()) \<and> tf_engine s' = e' \<and>
    map_of (tf_uploads s') tid = None \<and> hd (tf_sent s') = (ut_requestId t, Sv_Transfer_Progress p) \<and> tp_status p = ''completed''"
  using assms
proof (induction cs arbitrary: s t)
  case (Cons c cs)
  obtain e1 k where u: "engine_upload io tid (ut_path t) (ut_offset t) c (cs = []) (tf_engine s) = (e1, Inr k)"
      "engine.send_all io tid (ut_path t) k cs e1 = (e', Inr n)"
    using Cons.prems(7) by (auto split: prod.splits sum.splits)
  have k: "k = ut_offset t + length c" by (rule engine.upload_result [OF Cons.prems(6) u(1)])
  have len: "ut_offset t + length c \<le> ut_size t" using Cons.prems(3) by simp
  have done_iff: "(ut_offset t + length c = ut_size t) = (cs = [])"
  proof (cases cs)
    case (Cons a as)
    then have "0 < length a" using Cons.prems(5) by simp
    then show ?thesis using Cons.prems(3) Cons by (simp del: length_greater_0_conv)
  qed (use Cons.prems(3) in simp)
  have off: "\<not> falsy (Some tid)" using Cons.prems(1) by (simp add: falsy_def)
  show ?case
  proof (cases "cs = []")
    case True
    then show ?thesis using u Cons.prems(2) k len done_iff off
      by (simp add: upload_frame_def upload_header_def Let_def sendTransferProgress_def progress_body_def send_written_def
          map_of_AList_delete)
  next
    case False
    define t' where "t' = t\<lparr>ut_offset := k\<rparr>"
    define s' where "s' = sendTransferProgress ck tid ''upload'' ''transferring'' t'
      (s\<lparr>tf_engine := e1, tf_uploads := AList.update tid t' (tf_uploads s)\<rparr>)"
    have step: "upload_frame io ck (upload_header [] [] tid (ut_offset t) c) c s = (s', Inr ())"
      using u Cons.prems(2) k len done_iff off False
      by (simp add: upload_frame_def upload_header_def Let_def s'_def t'_def)
    have "engine_ok (tf_engine s')" "tf_engine s' = e1" "map_of (tf_uploads s') tid = Some t'"
      using engine_upload_ok [OF Cons.prems(6) u(1)] by (simp_all add: s'_def sendTransferProgress_def map_of_AList_update)
    moreover have "ut_offset t' + length (concat cs) = ut_size t'" using Cons.prems(3) k by (simp add: t'_def)
    ultimately have "\<exists>s'' p. send_frames io ck tid (ut_offset t') cs s' = (s'', Inr ()) \<and> tf_engine s'' = e' \<and>
        map_of (tf_uploads s'') tid = None \<and> hd (tf_sent s'') = (ut_requestId t', Sv_Transfer_Progress p) \<and> tp_status p = ''completed''"
      using Cons.IH [of s' t'] Cons.prems(1,5) u(2) False by (simp add: t'_def)
    then show ?thesis using step k by (simp add: t'_def)
  qed
qed simp

lemma engine_accepts:
  assumes "rid \<noteq> []" "io = good_io" "engine_ok e" "\<forall>c \<in> set cs. length c \<le> MAX_UPLOAD_CHUNK_BYTES \<and> c \<noteq> []"
    "off = 0 \<or> (\<exists>w. engine_sent e rid = Some (path, w) \<and> length w = off)"
  shows "\<exists>e' n. engine.send_all io rid path off cs e = (e', Inr n)"
  using assms
proof (induction cs arbitrary: e off)
  case (Cons c cs)
  have "\<exists>e1 k. engine_upload io rid path off c (cs = []) e = (e1, Inr k)"
    using Cons.prems engine_ok_lookup [OF Cons.prems(3), of rid]
    by (auto simp: engine_upload_def good_io_def Let_def engine_sent_def map_of_AList_update)
  then obtain e1 k where u: "engine_upload io rid path off c (cs = []) e = (e1, Inr k)" by blast
  have k: "k = off + length c" by (rule engine.upload_result [OF Cons.prems(3) u])
  show ?case
  proof (cases "cs = []")
    case False
    have "\<exists>w. engine_sent e1 rid = Some (path, w) \<and> length w = k"
    proof (cases "off = 0")
      case True
      then show ?thesis using engine.upload_fresh [OF Cons.prems(3)] u False k by fastforce
    next
      case off: False
      then show ?thesis using engine.upload_more [OF Cons.prems(3) _ u] False k by fastforce
    qed
    then show ?thesis
      using Cons.IH [of e1 k] Cons.prems engine_upload_ok [OF Cons.prems(3) u] u by simp
  qed (use u in simp)
qed simp

lemma startUpload_nonempty:
  "0 < m \<Longrightarrow> startUpload io ck tid rid path m kind s = (s1, r1) \<Longrightarrow>
    r1 = Inr () \<and> tf_engine s1 = tf_engine s \<and> (\<exists>t. map_of (tf_uploads s1) tid = Some t \<and> ut_offset t = 0 \<and>
      ut_size t = m \<and> ut_path t = path \<and> ut_requestId t = rid)"
  by (auto simp: startUpload_def Let_def sendTransferProgress_def map_of_AList_update)

text \<open>
  C33: An upload announced with the size of its content and sent in order, in chunks of any size up to the engine's limit,
  over a stream that keeps working, is reported completed, closes its transfer and leaves exactly its content
  in one ended remote stream.
\<close>

theorem upload_in_order_arrives:
  assumes "tid \<noteq> []" "engine_ok (tf_engine s)" "cs \<noteq> []" "\<forall>c \<in> set cs. length c \<le> MAX_UPLOAD_CHUNK_BYTES \<and> c \<noteq> []"
    "startUpload good_io ck0 tid rid path (length (concat cs)) kind s = (s1, r1)" "send_frames good_io ck tid 0 cs s1 = (s2, r2)"
  shows "r1 = Inr () \<and> r2 = Inr () \<and> eu_ended (tf_engine s2) = (tid, path, concat cs) # eu_ended (tf_engine s) \<and>
    map_of (tf_uploads s2) tid = None \<and> (\<exists>p. hd (tf_sent s2) = (rid, Sv_Transfer_Progress p) \<and> tp_status p = ''completed'')"
proof -
  have ne: "0 < length (concat cs)" using assms(3,4) by (cases cs) auto
  obtain t where t: "map_of (tf_uploads s1) tid = Some t" "ut_offset t = 0" "ut_size t = length (concat cs)" "ut_path t = path"
      "ut_requestId t = rid" and e: "tf_engine s1 = tf_engine s" and r1: "r1 = Inr ()"
    using startUpload_nonempty [OF ne assms(5)] by blast
  obtain e' n where run: "engine.send_all good_io tid path 0 cs (tf_engine s) = (e', Inr n)"
    using engine_accepts [OF assms(1) refl assms(2,4)] by blast
  have "\<exists>s' p. send_frames good_io ck tid 0 cs s1 = (s', Inr ()) \<and> tf_engine s' = e' \<and>
      map_of (tf_uploads s') tid = None \<and> hd (tf_sent s') = (rid, Sv_Transfer_Progress p) \<and> tp_status p = ''completed''"
    using send_frames_simulate [of tid s1 t cs good_io e' n ck] t e run assms(1-4) by simp
  moreover have "eu_ended e' = (tid, path, concat cs) # eu_ended (tf_engine s)"
    using engine.send_complete [OF assms(2,3) run] assms(4) by simp
  ultimately show ?thesis using r1 assms(6) by auto
qed

lemma upload_in_order_arrives_witness:
  "eu_ended (tf_engine (fst (send_frames good_io demo_clock ''b'' 0 [[1, 2], [3]]
      (fst (startUpload good_io demo_clock ''b'' ''r'' ''/y'' (length (concat [[1, 2], [3 :: 8 word]])) ''write'' demo_side))))) =
    (''b'', ''/y'', concat [[1, 2], [3]]) # eu_ended (tf_engine demo_side)"
proof -
  have ok: "engine_ok (tf_engine demo_side)"
    by (simp add: demo_side_def transfer_eval engine_ok_def)
  obtain s1 r1 where s1: "startUpload good_io demo_clock ''b'' ''r'' ''/y'' (length (concat [[1, 2], [3 :: 8 word]])) ''write'' demo_side = (s1, r1)"
    by (metis surj_pair)
  obtain s2 r2 where s2: "send_frames good_io demo_clock ''b'' 0 [[1, 2], [3]] s1 = (s2, r2)" by (metis surj_pair)
  have "eu_ended (tf_engine s2) = (''b'', ''/y'', concat [[1, 2], [3]]) # eu_ended (tf_engine demo_side)"
    using upload_in_order_arrives [OF _ ok _ _ s1 s2] by (simp add: MAX_UPLOAD_CHUNK_BYTES_def)
  then show ?thesis by (simp only: s1 s2 fst_conv)
qed

section \<open>Downloads\<close>

text \<open>
  The engine's \<open>download\<close>: \<open>fileSize\<close> is what \<open>stat\<close> reports, \<open>chunks\<close> what the read stream of the range
  yields. The calls of \<open>onChunk\<close> are listed with their offsets.
\<close>

definition download_range :: "int \<Rightarrow> int option \<Rightarrow> int option \<Rightarrow> (int \<times> int) throws" where
  "download_range fileSize offset len =
     (let off = (case offset of None \<Rightarrow> 0 | Some n \<Rightarrow> n) in
      if \<bar>off\<bar> > max_safe \<or> off < 0 \<or> off > fileSize then Inl ''Invalid SFTP download offset''
      else
        let remaining = fileSize - off;
            n = (case len of None \<Rightarrow> remaining | Some l \<Rightarrow> min remaining l) in
        if \<bar>n\<bar> > max_safe \<or> n < 0 \<or> n > MAX_DOWNLOAD_BYTES then Inl ''SFTP download is limited to 104857600 bytes per request''
        else Inr (off, n))"

fun chunk_calls :: "int \<Rightarrow> bytes list \<Rightarrow> (bytes \<times> int) list" where
  "chunk_calls cursor [] = []"
| "chunk_calls cursor (c # cs) = (c, cursor) # chunk_calls (cursor + int (length c)) cs"

definition engine_download :: "int \<Rightarrow> int option \<Rightarrow> int option \<Rightarrow> (int \<Rightarrow> int \<Rightarrow> bytes list) \<Rightarrow> (int \<times> int \<times> (bytes \<times> int) list \<times> int) throws" where
  "engine_download fileSize offset len stream =
     try_bind (download_range fileSize offset len) (\<lambda>(off, n).
       if n = 0 then Inr (n, off, [], off)
       else let cs = stream off (off + n - 1)
            in Inr (n, off, chunk_calls off cs, off + int (length (concat cs))))"

text \<open>The loop of \<open>onChunk\<close>: the parts of a chunk with their cursors.\<close>

function chunk_parts :: "nat \<Rightarrow> bytes \<Rightarrow> (nat \<times> bytes) list" where
  "chunk_parts cursor chunk =
     (if cursor < length chunk
      then (cursor, take (min (length chunk) (cursor + MAX_TERMINAL_CHUNK_BYTES) - cursor) (drop cursor chunk)) #
           chunk_parts (cursor + MAX_TERMINAL_CHUNK_BYTES) chunk
      else [])"
  by pat_completeness auto
termination by (relation "measure (\<lambda>(cursor, chunk). length chunk - cursor)") (auto simp: MAX_TERMINAL_CHUNK_BYTES_def)

declare chunk_parts.simps [simp del]

text \<open>
  \<open>waitForBackpressure\<close> over what the socket shows at each turn of its loop (buffered bytes, whether it is open,
  the time): it returns, throws, or is still waiting when the samples end.
\<close>

definition MAX_BUFFERED_BYTES :: int where "MAX_BUFFERED_BYTES = 4 * 1024 * 1024"

fun waitForBackpressure :: "millis \<Rightarrow> (int \<times> bool \<times> millis) list \<Rightarrow> unit throws option" where
  "waitForBackpressure deadline [] = None"
| "waitForBackpressure deadline ((buffered, isOpen, now) # turns) =
     (if buffered \<le> MAX_BUFFERED_BYTES then Some (Inr ())
      else if \<not> isOpen \<or> now \<ge> deadline then Some (Inl ''WebSocket backpressure limit exceeded'')
      else waitForBackpressure deadline turns)"

text \<open>Every turn waits at least 10 ms, so a thousand turns decide.\<close>

lemma waitForBackpressure_returns:
  assumes "\<forall>i. Suc i < length turns \<longrightarrow> snd (snd (turns ! i)) + 10 \<le> snd (snd (turns ! Suc i))" "turns \<noteq> []"
    "deadline \<le> snd (snd (hd turns)) + 10 * int (length turns - 1)"
  shows "waitForBackpressure deadline turns \<noteq> None"
  using assms
proof (induction turns)
  case (Cons u us)
  obtain b o' t where u: "u = (b, o', t)" by (metis prod_cases3)
  show ?case
  proof (cases us)
    case Nil
    then show ?thesis using Cons.prems(3) u by simp
  next
    case (Cons v vs)
    have "\<forall>i. Suc i < length us \<longrightarrow> snd (snd (us ! i)) + 10 \<le> snd (snd (us ! Suc i))"
      using Cons.prems(1) by (metis Suc_less_eq length_Cons nth_Cons_Suc)
    moreover have "t + 10 \<le> snd (snd v)" using Cons.prems(1) [rule_format, of 0] Cons u by simp
    then have "deadline \<le> snd (snd (hd us)) + 10 * int (length us - 1)" using Cons.prems(3) Cons u by simp
    ultimately show ?thesis using Cons.IH Cons u by simp
  qed
qed simp

text \<open>
  The frames of one download. \<open>ready n\<close> says whether the wait before the n-th frame succeeds; the
  first that does not ends the download with its error. Frames carry the running sequence number and the absolute offset.
\<close>

record frame_ids =
  fi_sessionId :: string
  fi_attemptId :: string
  fi_transferId :: string

definition download_header :: "frame_ids \<Rightarrow> nat \<Rightarrow> int \<Rightarrow> bytes \<Rightarrow> frame_header" where
  "download_header ids n off part = \<lparr>fh_kind = ''sftp-download-chunk'', fh_sessionId = fi_sessionId ids,
     fh_attemptId = fi_attemptId ids, fh_transferId = Some (fi_transferId ids), fh_sequence = int n, fh_offset = Some off,
     fh_payloadBytes = int (length part)\<rparr>"

fun send_parts :: "frame_ids \<Rightarrow> (nat \<Rightarrow> bool) \<Rightarrow> nat \<Rightarrow> (int \<times> bytes) list \<Rightarrow> (frame_header \<times> bytes) list \<times> nat throws" where
  "send_parts ids ready n [] = ([], Inr n)"
| "send_parts ids ready n ((off, part) # ps) =
     (if \<not> ready n then ([], Inl ''WebSocket backpressure limit exceeded'')
      else (case send_parts ids ready (Suc n) ps of (fs, r) \<Rightarrow> ((download_header ids n off part, part) # fs, r)))"

definition absolute_parts :: "bytes \<times> int \<Rightarrow> (int \<times> bytes) list" where
  "absolute_parts call = map (\<lambda>(cursor, part). (snd call + int cursor, part)) (chunk_parts 0 (fst call))"

text \<open>The messages and frames of \<open>startDownload\<close>, and how it ends.\<close>

record download_run =
  dr_sent :: "server_body list"
  dr_frames :: "(frame_header \<times> bytes) list"
  dr_result :: "unit throws"

definition startDownload ::
    "clock \<Rightarrow> clock \<Rightarrow> frame_ids \<Rightarrow> string \<Rightarrow> string \<Rightarrow> int throws \<Rightarrow> (int \<Rightarrow> int \<Rightarrow> bytes list) \<Rightarrow> (nat \<Rightarrow> bool) \<Rightarrow> download_run" where
  "startDownload start_ck end_ck ids requestId path fileSize stream ready =
     (case try_bind fileSize (\<lambda>n. engine_download n None None stream) of
        Inl m \<Rightarrow> \<lparr>dr_sent = [], dr_frames = [], dr_result = Inl m\<rparr>
      | Inr (totalBytes, off, calls, finalOffset) \<Rightarrow>
          let sent = [Sv_Transfer_Ready (fi_transferId ids) ''download'' path totalBytes (int MAX_TERMINAL_CHUNK_BYTES) off] in
          case send_parts ids ready 0 (concat (map absolute_parts calls)) of
            (fs, Inl m) \<Rightarrow> \<lparr>dr_sent = sent, dr_frames = fs, dr_result = Inl m\<rparr>
          | (fs, Inr n) \<Rightarrow>
              let t = \<lparr>ut_requestId = requestId, ut_path = path, ut_size = nat totalBytes, ut_offset = nat finalOffset,
                       ut_startedAt = ck_now start_ck, ut_kind = ''upload''\<rparr>
              in \<lparr>dr_sent = sent @ [progress_body end_ck (fi_transferId ids) ''download'' ''completed'' t],
                  dr_frames = fs, dr_result = Inr ()\<rparr>)"

section \<open>The frames are the file\<close>

text \<open>Parts that follow one another from a start.\<close>

fun contiguous :: "int \<Rightarrow> (int \<times> bytes) list \<Rightarrow> bool" where
  "contiguous off [] \<longleftrightarrow> True"
| "contiguous off ((o', part) # ps) \<longleftrightarrow> o' = off \<and> contiguous (off + int (length part)) ps"

lemma contiguous_append:
  "contiguous off (xs @ ys) \<longleftrightarrow> contiguous off xs \<and> contiguous (off + int (length (concat (map snd xs)))) ys"
  by (induction off xs rule: contiguous.induct) (auto simp: add.assoc)

lemma chunk_parts_concat: "concat (map snd (chunk_parts cursor chunk)) = drop cursor chunk"
proof (induction cursor chunk rule: chunk_parts.induct)
  case (1 cursor chunk)
  show ?case
  proof (cases "cursor < length chunk")
    case True
    have "take (min (length chunk) (cursor + MAX_TERMINAL_CHUNK_BYTES) - cursor) (drop cursor chunk) =
        take MAX_TERMINAL_CHUNK_BYTES (drop cursor chunk)"
      by (simp add: min_def)
    then show ?thesis
      using 1 True by (subst chunk_parts.simps) (simp add: drop_drop [symmetric] add.commute del: drop_drop)
  qed (simp add: chunk_parts.simps)
qed

lemma chunk_parts_size: "(c, part) \<in> set (chunk_parts cursor chunk) \<Longrightarrow> 1 \<le> length part \<and> length part \<le> MAX_TERMINAL_CHUNK_BYTES"
proof (induction cursor chunk rule: chunk_parts.induct)
  case (1 cursor chunk)
  then show ?case
    by (cases "cursor < length chunk") (auto simp: chunk_parts.simps [of cursor chunk] MAX_TERMINAL_CHUNK_BYTES_def)
qed

lemma chunk_parts_contiguous:
  "contiguous (off + int cursor) (map (\<lambda>(c, part). (off + int c, part)) (chunk_parts cursor chunk))"
proof (induction cursor chunk rule: chunk_parts.induct)
  case (1 cursor chunk)
  show ?case
  proof (cases "cursor < length chunk")
    case True
    show ?thesis
    proof (cases "cursor + MAX_TERMINAL_CHUNK_BYTES < length chunk")
      case small: True
      then show ?thesis using 1 True by (subst chunk_parts.simps) (simp add: add.assoc)
    next
      case False
      then have "chunk_parts (cursor + MAX_TERMINAL_CHUNK_BYTES) chunk = []" by (subst chunk_parts.simps) simp
      then show ?thesis using True by (subst chunk_parts.simps) simp
    qed
  qed (simp add: chunk_parts.simps)
qed

lemma absolute_parts_facts:
  "concat (map snd (absolute_parts (c, off))) = c" "contiguous off (absolute_parts (c, off))"
  "(n, part) \<in> set (absolute_parts (c, off)) \<Longrightarrow> 1 \<le> length part \<and> length part \<le> MAX_TERMINAL_CHUNK_BYTES"
proof -
  have "map snd (absolute_parts (c, off)) = map snd (chunk_parts 0 c)" by (simp add: absolute_parts_def case_prod_unfold o_def)
  then show "concat (map snd (absolute_parts (c, off))) = c" by (simp add: chunk_parts_concat)
  show "contiguous off (absolute_parts (c, off))"
    using chunk_parts_contiguous [of off 0 c] by (simp add: absolute_parts_def)
  show "(n, part) \<in> set (absolute_parts (c, off)) \<Longrightarrow> 1 \<le> length part \<and> length part \<le> MAX_TERMINAL_CHUNK_BYTES"
    by (auto simp: absolute_parts_def dest: chunk_parts_size)
qed

lemma calls_parts:
  "concat (map snd (concat (map absolute_parts (chunk_calls off cs)))) = concat cs \<and>
   contiguous off (concat (map absolute_parts (chunk_calls off cs)))"
  by (induction cs arbitrary: off) (auto simp: absolute_parts_facts contiguous_append)

lemma calls_parts_size:
  "(n, part) \<in> set (concat (map absolute_parts (chunk_calls off cs))) \<Longrightarrow> 1 \<le> length part \<and> length part \<le> MAX_TERMINAL_CHUNK_BYTES"
  by (induction cs arbitrary: off) (auto dest: absolute_parts_facts(3))

lemma send_parts_frames:
  assumes "fi_transferId ids \<noteq> []" "send_parts ids ready n ps = (fs, Inr m)"
  shows "map (fh_sequence \<circ> fst) fs = map int [n..<n + length ps]" "map (\<lambda>(h, p). (the (fh_offset h), p)) fs = ps"
    "\<forall>(h, p) \<in> set fs. h = download_header ids (nat (fh_sequence h)) (the (fh_offset h)) p"
  using assms
proof (induction ids ready n ps arbitrary: fs rule: send_parts.induct)
  case (2 ids ready n off part ps)
  obtain fs' r where r: "send_parts ids ready (Suc n) ps = (fs', r)" by (metis surj_pair)
  note IH = 2
  { case 1
    then have fs: "fs = (download_header ids n off part, part) # fs'" "r = Inr m" "ready n" using r by (auto split: if_splits)
    have "[n..<n + length ((off, part) # ps)] = n # [Suc n..<Suc n + length ps]" by (simp add: upt_conv_Cons del: upt_Suc)
    moreover have "map (fh_sequence \<circ> fst) fs' = map int [Suc n..<Suc n + length ps]" using IH(1) [of fs'] fs 1 r by (simp add: o_def del: upt_Suc)
    ultimately show ?case by (simp add: fs download_header_def o_def del: upt_Suc)
  next
    case 2
    then show ?case using IH(2) r by (auto simp: download_header_def split: if_splits)
  next
    case 3
    then show ?case using IH(3) r by (auto simp: download_header_def split: if_splits)
  }
qed simp_all

lemma contiguous_bound:
  "contiguous off ps \<Longrightarrow> (o', p) \<in> set ps \<Longrightarrow> off \<le> o' \<and> o' + int (length p) \<le> off + int (length (concat (map snd ps)))"
  by (induction off ps rule: contiguous.induct) force+

lemma parts_count: "\<forall>(o', p) \<in> set ps. 1 \<le> length p \<Longrightarrow> length ps \<le> length (concat (map snd ps))"
  by (induction ps) force+

text \<open>
  The frames of a download that ran to its end carry, in order, exactly the bytes the remote stream gave: sequence
  numbers count from 0, each frame starts where the previous one ended, and every header is one the browser's decoder
  accepts, as long as the stream gives no more bytes than asked for.
\<close>

theorem download_frames_are_file:
  assumes "startDownload ck0 ck ids rid path (Inr n) stream ready = run" "dr_result run = Inr ()" "0 < n"
    "length (concat (stream 0 (n - 1))) \<le> nat n" "fi_transferId ids \<noteq> []"
    "z_uuid z (fi_sessionId ids)" "z_uuid z (fi_attemptId ids)" "z_uuid z (fi_transferId ids)"
  shows "concat (map snd (dr_frames run)) = concat (stream 0 (n - 1)) \<and>
    contiguous 0 (map (\<lambda>(h, p). (the (fh_offset h), p)) (dr_frames run)) \<and>
    map (fh_sequence \<circ> fst) (dr_frames run) = map int [0..<length (dr_frames run)] \<and>
    list_all (\<lambda>(h, p). header_ok z h \<and> fh_payloadBytes h = int (length p)) (dr_frames run)"
proof -
  define cs where "cs = stream 0 (n - 1)"
  define ps where "ps = concat (map absolute_parts (chunk_calls 0 cs))"
  obtain fs r where sp: "send_parts ids ready 0 ps = (fs, r)" by (metis surj_pair)
  have n: "n \<le> MAX_DOWNLOAD_BYTES \<and> dr_frames run = fs \<and> (\<exists>m. r = Inr m)"
    using assms(1-3) sp
    by (auto simp: startDownload_def engine_download_def download_range_def Let_def try_bind_def ps_def cs_def
        split: if_splits sum.splits)
  then obtain m where r: "r = Inr m" by blast
  note facts = send_parts_frames [OF assms(5) sp [unfolded r]]
  have len: "length fs = length ps" using facts(2) by (metis length_map)
  have ps: "concat (map snd ps) = concat cs" "contiguous 0 ps"
    using calls_parts [of 0 cs] by (simp_all add: ps_def)
  have size: "\<forall>(o', p) \<in> set ps. 1 \<le> length p \<and> length p \<le> MAX_TERMINAL_CHUNK_BYTES"
    using calls_parts_size unfolding ps_def by blast
  have "nat n \<le> 104857600" using n by (simp add: MAX_DOWNLOAD_BYTES_def nat_le_iff)
  then have total: "length (concat cs) \<le> 104857600" using assms(4) unfolding cs_def by linarith
  have count: "length fs \<le> 104857600"
    using parts_count [of ps] size total ps(1) len by fastforce
  have "header_ok z h \<and> fh_payloadBytes h = int (length p)" if "(h, p) \<in> set fs" for h p
  proof -
    have "(the (fh_offset h), p) \<in> set ps" using facts(2) that by force
    then have b: "0 \<le> the (fh_offset h)" "the (fh_offset h) + int (length p) \<le> 104857600"
        "1 \<le> length p" "length p \<le> 65536"
      using contiguous_bound [OF ps(2)] size total ps(1) by (fastforce simp: MAX_TERMINAL_CHUNK_BYTES_def)+
    have "fh_sequence h \<in> set (map (fh_sequence \<circ> fst) fs)" using that by force
    then have s: "0 \<le> fh_sequence h" "fh_sequence h \<le> 104857600" unfolding facts(1) using count len by auto
    have "h = download_header ids (nat (fh_sequence h)) (the (fh_offset h)) p" using facts(3) that by blast
    moreover have "header_ok z (download_header ids (nat (fh_sequence h)) (the (fh_offset h)) p)"
      using b s assms(5-8)
      by (simp add: header_ok_def download_header_def frame_kinds_def max_safe_def transfer_fields_ok_def Let_def falsy_def starts_with_def)
    moreover have "fh_payloadBytes (download_header ids (nat (fh_sequence h)) (the (fh_offset h)) p) = int (length p)"
      by (simp add: download_header_def)
    ultimately show ?thesis by metis
  qed
  then have "list_all (\<lambda>(h, p). header_ok z h \<and> fh_payloadBytes h = int (length p)) fs"
    by (auto simp: list_all_iff)
  moreover have "concat (map snd fs) = concat cs"
  proof -
    have "map snd fs = map snd ps" unfolding facts(2) [symmetric] by (simp add: case_prod_unfold o_def)
    then show ?thesis using ps(1) by simp
  qed
  ultimately show ?thesis using n facts(1,2) ps(2) len by (simp add: cs_def)
qed

definition demo_ids :: frame_ids where
  "demo_ids = \<lparr>fi_sessionId = ''s'', fi_attemptId = ''a'', fi_transferId = ''t''\<rparr>"

lemma download_frames_are_file_witness:
  "concat (map snd (dr_frames (startDownload demo_clock demo_clock demo_ids ''r'' ''/x'' (Inr 3) (\<lambda>a b. [[1, 2], [3]]) (\<lambda>n. True)))) = [1, 2, 3]"
proof -
  define run where "run = startDownload demo_clock demo_clock demo_ids ''r'' ''/x'' (Inr 3) (\<lambda>a b. [[1, 2], [3]]) (\<lambda>n. True)"
  have "\<exists>fs m. send_parts demo_ids (\<lambda>n. True) k ps = (fs, Inr m)" for k ps
  proof (induction ps arbitrary: k)
    case (Cons p ps)
    then obtain fs m where "send_parts demo_ids (\<lambda>n. True) (Suc k) ps = (fs, Inr m)" by blast
    then show ?case by (cases p) simp
  qed simp
  then have "dr_result run = Inr ()"
    by (auto simp: run_def startDownload_def engine_download_def download_range_def Let_def max_safe_def MAX_DOWNLOAD_BYTES_def
        split: prod.splits sum.splits) (metis Inl_Inr_False prod.inject)
  then show ?thesis
    using download_frames_are_file [OF run_def [symmetric], of demo_zod] unfolding run_def
    by (simp add: demo_ids_def demo_zod_def)
qed

end
