(* ===== verification/Directory_Listing.thy ===== *)
theory Directory_Listing
  imports File_Transfer "HOL-Library.Multiset"
begin

text \<open>
  Listing a remote directory: the engine's \<open>listDirectory\<close> (\<open>apps/worker/src/ssh/ssh2-engine.ts\<close>) and the pages the
  session object cuts from it (\<open>createDirectoryPage\<close> and the \<open>sftp-list\<close> case of \<open>handleClientMessage\<close> in
  \<open>apps/worker/src/durable/ssh-session.ts\<close>). The remote server's entries and the printing of dates are
  arguments; the engine's sort is an argument too, because its comparison is not a consistent order
  (shown below), so that only the set of its results is fixed by the language. The lemmas show that the cursors lead
  through the whole directory, once, in order, and that a page fits in a message.
\<close>

section \<open>The engine's entries\<close>

record remote_attrs =
  at_filename :: string
  at_isDirectory :: bool
  at_isFile :: bool
  at_isSymbolicLink :: bool
  at_size :: int
  at_mode :: int
  at_mtime :: int

record remote_file =
  rf_name :: string
  rf_path :: string
  rf_type :: string
  rf_size :: int
  rf_mode :: int
  rf_modifiedAt :: string

definition strip_slashes :: "string \<Rightarrow> string" where
  "strip_slashes p = rev (dropWhile (\<lambda>c. c = CHR ''/'') (rev p))"

definition entry_kind :: "remote_attrs \<Rightarrow> string" where
  "entry_kind a = (if at_isDirectory a then ''directory'' else if at_isFile a then ''file''
     else if at_isSymbolicLink a then ''symlink'' else ''other'')"

definition remote_entry :: "(millis \<Rightarrow> string) \<Rightarrow> string \<Rightarrow> remote_attrs \<Rightarrow> remote_file throws" where
  "remote_entry isoDate path a =
     (let parent = (if path = ''/'' then [] else strip_slashes path);
          p = parent @ ''/'' @ at_filename a;
          entryPath = (if p = [] then ''/'' else p) in
      if at_filename a = [] \<or> length (at_filename a) > 1024 \<or> nul \<in> set (at_filename a) \<or> length entryPath > 4096
      then Inl ''Remote directory contains an invalid entry name''
      else Inr \<lparr>rf_name = at_filename a, rf_path = entryPath, rf_type = entry_kind a, rf_size = at_size a,
                rf_mode = at_mode a mod 4096, rf_modifiedAt = isoDate (at_mtime a * 1000)\<rparr>)"

fun map_entries :: "('a \<Rightarrow> 'b throws) \<Rightarrow> 'a list \<Rightarrow> 'b list throws" where
  "map_entries f [] = Inr []"
| "map_entries f (x # xs) = try_bind (f x) (\<lambda>y. try_bind (map_entries f xs) (\<lambda>ys. Inr (y # ys)))"

text \<open>The sign of the comparison; \<open>cmp\<close> is \<open>localeCompare\<close>.\<close>

definition compare_entries :: "(string \<Rightarrow> string \<Rightarrow> int) \<Rightarrow> remote_file \<Rightarrow> remote_file \<Rightarrow> int" where
  "compare_entries cmp left right =
     (if rf_type left \<noteq> rf_type right
      then (if rf_type left = ''directory'' then - 1 else if rf_type right = ''directory'' then 1 else 0)
      else cmp (rf_name left) (rf_name right))"

definition listDirectory ::
    "(millis \<Rightarrow> string) \<Rightarrow> (remote_file list \<Rightarrow> remote_file list) \<Rightarrow> string \<Rightarrow> remote_attrs list throws \<Rightarrow> remote_file list throws" where
  "listDirectory isoDate jsort path entries = try_bind entries (\<lambda>es.
     if length es > 10000 then Inl ''Remote directory contains too many entries''
     else try_bind (map_entries (remote_entry isoDate path) es) (\<lambda>fs. Inr (jsort fs)))"

text \<open>\<open>Array.prototype.sort\<close> permutes, whatever the comparison.\<close>

definition sort_law :: "(remote_file list \<Rightarrow> remote_file list) \<Rightarrow> bool" where
  "sort_law jsort \<longleftrightarrow> (\<forall>fs. mset (jsort fs) = mset fs)"

section \<open>Pages\<close>

function page_loop :: "('a \<Rightarrow> nat) \<Rightarrow> 'a list \<Rightarrow> nat \<Rightarrow> 'a list \<Rightarrow> nat \<Rightarrow> 'a list" where
  "page_loop sz es index page encodedBytes =
     (if index < length es \<and> length page < 500
      then let s = sz (es ! index) in
           if page \<noteq> [] \<and> encodedBytes + s > 48 * 1024 then page
           else page_loop sz es (Suc index) (page @ [es ! index]) (encodedBytes + s)
      else page)"
  by pat_completeness auto
termination by (relation "measure (\<lambda>(sz, es, index, page, encodedBytes). length es - index)") auto

declare page_loop.simps [simp del]

definition createDirectoryPage :: "('a \<Rightarrow> nat) \<Rightarrow> 'a list \<Rightarrow> nat \<Rightarrow> 'a list" where
  "createDirectoryPage sz es offset = page_loop sz es offset [] 0"

definition remote_file_json :: "remote_file \<Rightarrow> json" where
  "remote_file_json f = JObj [(''name'', JStr (rf_name f)), (''path'', JStr (rf_path f)), (''type'', JStr (rf_type f)),
     (''size'', jnum (rf_size f)), (''mode'', jnum (rf_mode f)), (''modifiedAt'', JStr (rf_modifiedAt f))]"

definition sftp_entry_of :: "remote_file \<Rightarrow> sftp_entry" where
  "sftp_entry_of f = \<lparr>se_name = rf_name f, se_path = rf_path f, se_kind = rf_type f, se_size = rf_size f, se_mode = rf_mode f,
     se_modifiedAt = rf_modifiedAt f\<rparr>"

text \<open>\<open>/^\d{1,10}$/\<close>\<close>

definition cursor_format :: "string \<Rightarrow> bool" where
  "cursor_format c \<longleftrightarrow> list_all is_digit c \<and> 1 \<le> length c \<and> length c \<le> 10"

definition sftp_list_page :: "('a \<Rightarrow> nat) \<Rightarrow> 'a list \<Rightarrow> string option \<Rightarrow> failure + 'a list \<times> string option" where
  "sftp_list_page sz es cursor =
     (if \<not> opt_ok cursor_format cursor then Inl (invalid ''Invalid directory cursor'' False)
      else
        let pageStart = (case cursor of None \<Rightarrow> 0 | Some c \<Rightarrow> dec_val c) in
        if int pageStart > max_safe \<or> pageStart > length es then Inl (invalid ''Invalid directory cursor'' False)
        else
          let page = createDirectoryPage sz es pageStart;
              nextOffset = pageStart + length page
          in Inr (page, if nextOffset < length es then Some (show_nat nextOffset) else None))"

definition sftp_list :: "(rat \<Rightarrow> string) \<Rightarrow> string \<Rightarrow> string option \<Rightarrow> remote_file list throws \<Rightarrow> failure + server_body" where
  "sftp_list num path cursor entries =
     (case entries of
        Inl m \<Rightarrow> Inl (Plain_Error m)
      | Inr es \<Rightarrow>
          try_bind (sftp_list_page (\<lambda>f. json_bytes num (remote_file_json f)) es cursor)
            (\<lambda>(page, next). Inr (Sv_List path (map sftp_entry_of page) next)))"

section \<open>A page\<close>

lemma page_loop_take:
  "\<exists>k. page_loop sz es index page enc = page @ take k (drop index es) \<and>
     (page = [] \<and> index < length es \<longrightarrow> 1 \<le> k) \<and> length page + k \<le> max 500 (length page) \<and>
     enc + (\<Sum>e\<leftarrow>take k (drop index es). sz e) \<le> max (enc + (if page = [] then sz (es ! index) else 0)) 49152"
proof (induction sz es index page enc rule: page_loop.induct)
  case (1 sz es index page enc)
  let ?s = "sz (es ! index)"
  show ?case
  proof (cases "index < length es \<and> length page < 500 \<and> \<not> (page \<noteq> [] \<and> enc + ?s > 48 * 1024)")
    case False
    then have "page_loop sz es index page enc = page" by (subst page_loop.simps) (auto simp: Let_def)
    moreover have "page = [] \<Longrightarrow> \<not> index < length es" using False by auto
    ultimately show ?thesis by (intro exI [of _ 0]) auto
  next
    case True
    then have eq: "page_loop sz es index page enc = page_loop sz es (Suc index) (page @ [es ! index]) (enc + ?s)"
      by (subst page_loop.simps) (auto simp: Let_def)
    obtain k where k: "page_loop sz es (Suc index) (page @ [es ! index]) (enc + ?s) = (page @ [es ! index]) @ take k (drop (Suc index) es)"
        "length (page @ [es ! index]) + k \<le> max 500 (length (page @ [es ! index]))"
        "enc + ?s + (\<Sum>e\<leftarrow>take k (drop (Suc index) es). sz e) \<le> max (enc + ?s) 49152"
      using 1 [OF _ refl] True by auto
    have d: "take (Suc k) (drop index es) = es ! index # take k (drop (Suc index) es)"
      using True by (simp add: Cons_nth_drop_Suc [symmetric])
    show ?thesis
      using k True unfolding eq by (intro exI [of _ "Suc k"]) (auto simp: d max_def split: if_splits)
  qed
qed

lemma page_take:
  obtains k where "createDirectoryPage sz es offset = take k (drop offset es)" "offset < length es \<Longrightarrow> 1 \<le> k" "k \<le> 500"
    "(\<Sum>e\<leftarrow>take k (drop offset es). sz e) \<le> max (sz (es ! offset)) 49152"
  using page_loop_take [of sz es offset "[]" 0] unfolding createDirectoryPage_def by auto

section \<open>Following the cursors\<close>

text \<open>What the browser does: ask with no cursor, then with each \<open>nextCursor\<close>, until it is null.\<close>

fun follow_cursors :: "('a \<Rightarrow> nat) \<Rightarrow> 'a list \<Rightarrow> string option \<Rightarrow> nat \<Rightarrow> (failure + 'a list list) option" where
  "follow_cursors sz es cursor 0 = None"
| "follow_cursors sz es cursor (Suc fuel) =
     (case sftp_list_page sz es cursor of
        Inl f \<Rightarrow> Some (Inl f)
      | Inr (page, None) \<Rightarrow> Some (Inr [page])
      | Inr (page, Some c) \<Rightarrow> map_option (map_sum id (Cons page)) (follow_cursors sz es (Some c) fuel))"

lemma length_le_nat_show: "n \<le> 10000 \<Longrightarrow> length (show_nat n) \<le> 10"
  by (rule length_show_nat) simp_all

lemma cursor_format_show: "n \<le> 10000 \<Longrightarrow> cursor_format (show_nat n)"
  using length_le_nat_show [of n] show_nat_digits [of n] by (simp add: cursor_format_def Suc_le_eq)

lemma page_at:
  assumes "length es \<le> 10000" "n \<le> length es" "cursor = Some (show_nat n) \<or> cursor = None \<and> n = 0"
  obtains page where "sftp_list_page sz es cursor =
      Inr (page, if n + length page < length es then Some (show_nat (n + length page)) else None)"
    "page @ drop (n + length page) es = drop n es" "n < length es \<Longrightarrow> page \<noteq> []"
proof -
  obtain k where k: "createDirectoryPage sz es n = take k (drop n es)" "n < length es \<Longrightarrow> 1 \<le> k"
    using page_take [of sz es n] by blast
  define page where "page = take k (drop n es)"
  have "opt_ok cursor_format cursor" using assms by (auto simp: cursor_format_show)
  then have "sftp_list_page sz es cursor =
      Inr (page, if n + length page < length es then Some (show_nat (n + length page)) else None)"
    using assms k(1) by (auto simp: sftp_list_page_def Let_def max_safe_def page_def)
  moreover have "drop (n + length page) es = drop k (drop n es)"
    by (cases "k \<le> length (drop n es)") (auto simp: page_def min_def add.commute)
  then have "page @ drop (n + length page) es = drop n es" by (simp only: page_def append_take_drop_id)
  moreover have "n < length es \<Longrightarrow> page \<noteq> []" using k(2) by (auto simp: page_def)
  ultimately show ?thesis by (rule that)
qed

lemma follow_from:
  assumes "length es \<le> 10000" "n \<le> length es" "cursor = Some (show_nat n) \<or> cursor = None \<and> n = 0" "length es - n < fuel"
  shows "\<exists>pages. follow_cursors sz es cursor fuel = Some (Inr pages) \<and> concat pages = drop n es"
  using assms
proof (induction fuel arbitrary: n cursor)
  case (Suc fuel)
  obtain page where page: "sftp_list_page sz es cursor =
      Inr (page, if n + length page < length es then Some (show_nat (n + length page)) else None)"
    "page @ drop (n + length page) es = drop n es" "n < length es \<Longrightarrow> page \<noteq> []"
    using page_at [OF Suc.prems(1-3), of sz] by blast
  define m where "m = n + length page"
  show ?case
  proof (cases "m < length es")
    case True
    then have "0 < length page" using page(3) by (simp add: m_def)
    then have "m \<le> length es" "length es - m < fuel" using True Suc.prems(4) by (simp_all add: m_def del: length_greater_0_conv)
    then obtain pages where "follow_cursors sz es (Some (show_nat m)) fuel = Some (Inr pages)" "concat pages = drop m es"
      using Suc.IH [of m "Some (show_nat m)"] Suc.prems(1) by auto
    then show ?thesis using page(1,2) True by (simp add: m_def [symmetric])
  next
    case False
    then show ?thesis using page(1,2) by (simp add: m_def [symmetric])
  qed
qed simp

lemma map_entries_length: "map_entries f xs = Inr ys \<Longrightarrow> length ys = length xs"
  by (induction xs arbitrary: ys) (auto simp: try_bind_eq_Inr)

lemma listDirectory_limit: "listDirectory isoDate jsort path entries = Inr es \<Longrightarrow> sort_law jsort \<Longrightarrow> length es \<le> 10000"
  by (auto simp: listDirectory_def try_bind_eq_Inr sort_law_def dest!: map_entries_length split: if_splits)
    (metis size_mset not_le)

text \<open>
  In a directory the engine lists (at most 10000 entries), starting without a cursor and following every
  \<open>nextCursor\<close> ends after finitely many pages and has then given every entry once, in the order of the
  listing; no cursor the session object hands out is ever refused.
\<close>

theorem directory_pages_complete:
  assumes "listDirectory isoDate jsort path entries = Inr es" "sort_law jsort"
  shows "\<exists>fuel pages. follow_cursors sz es None fuel = Some (Inr pages) \<and> concat pages = es"
proof -
  have "length es \<le> 10000" by (rule listDirectory_limit [OF assms])
  then obtain pages where "follow_cursors sz es None (Suc (length es)) = Some (Inr pages)" "concat pages = es"
    using follow_from [of es 0 None "Suc (length es)" sz] by auto
  then show ?thesis by blast
qed

definition demo_attrs :: "string \<Rightarrow> remote_attrs" where
  "demo_attrs name = \<lparr>at_filename = name, at_isDirectory = False, at_isFile = True, at_isSymbolicLink = False,
     at_size = 1, at_mode = 33188, at_mtime = 0\<rparr>"

lemma directory_pages_complete_witness:
  "\<exists>es fuel pages. listDirectory (\<lambda>t. ''t'') rev ''/'' (Inr [demo_attrs ''a'', demo_attrs ''b'']) = Inr es \<and> length es = 2 \<and>
    follow_cursors (\<lambda>e. 30000) es None fuel = Some (Inr pages) \<and> concat pages = es"
proof -
  obtain es where es: "listDirectory (\<lambda>t. ''t'') rev ''/'' (Inr [demo_attrs ''a'', demo_attrs ''b'']) = Inr es" "length es = 2"
    by (simp add: listDirectory_def remote_entry_def demo_attrs_def Let_def nul_def char_eq_iff_cu)
  have "sort_law rev" by (simp add: sort_law_def)
  then show ?thesis using directory_pages_complete [OF es(1), of "\<lambda>e. 30000"] es by blast
qed

section \<open>A page fits in a message\<close>

text \<open>The text of an entry as sent is as long as the text the page was measured with.\<close>

lemma json_bytes_entry: "json_bytes num (sftp_entry_json (sftp_entry_of f)) = json_bytes num (remote_file_json f)"
  by (simp add: json_bytes_def sftp_entry_json_def sftp_entry_of_def remote_file_json_def json_str_def plain_char)

lemma join_bytes_eq: "ws \<noteq> [] \<Longrightarrow> length (utf8 (join_with '','' ws)) + 1 = (\<Sum>w\<leftarrow>ws. Suc (length (utf8 w)))"
  by (induction "'',''" ws rule: join_with.induct) auto

lemma array_bytes: "json_bytes num (JArr xs) \<le> 2 + length xs + (\<Sum>x\<leftarrow>xs. json_bytes num x)"
proof -
  have "(\<Sum>w\<leftarrow>map (json_print num) xs. Suc (length (utf8 w))) = length xs + (\<Sum>x\<leftarrow>xs. json_bytes num x)"
    by (induction xs) (simp_all add: json_bytes_def)
  then show ?thesis using join_bytes [of "map (json_print num) xs"] by (simp add: json_bytes_def)
qed

definition remote_file_ok :: "zod \<Rightarrow> remote_file \<Rightarrow> bool" where
  "remote_file_ok z f \<longleftrightarrow> SftpEntrySchema z (sftp_entry_of f)"

lemma remote_file_bytes:
  assumes "zod_law z" "number_law num" "remote_file_ok z f"
  shows "json_bytes num (remote_file_json f) \<le> 32000"
proof -
  have "length (rf_name f) \<le> 1024" "length (rf_path f) \<le> 4096" "length (rf_type f) \<le> 9" "length (rf_modifiedAt f) \<le> 64"
    using assms by (auto simp: remote_file_ok_def SftpEntrySchema_def sftp_entry_of_def len_ok_def path_ok_def zod_law_datetime)
  then have "json_max (remote_file_json f) \<le> 32000" by (simp add: remote_file_json_def)
  then show ?thesis using json_print_bytes [OF assms(2), of "remote_file_json f"] by (simp add: json_bytes_def)
qed

lemma object_bytes:
  "json_bytes num (JObj kvs) \<le> 2 + (\<Sum>(k, v)\<leftarrow>kvs. 4 + 6 * length k + json_bytes num v)"
proof -
  have "(\<Sum>w\<leftarrow>map (\<lambda>(k, v). json_str k @ '':'' @ json_print num v) kvs. Suc (length (utf8 w)))
      \<le> (\<Sum>(k, v)\<leftarrow>kvs. 4 + 6 * length k + json_bytes num v)"
    unfolding map_map o_def
    by (rule sum_list_mono) (use json_str_bytes [simplified] in \<open>auto simp: json_bytes_def\<close>)
  then show ?thesis using join_bytes [of "map (\<lambda>(k, v). json_str k @ '':'' @ json_print num v) kvs"]
    by (simp add: json_bytes_def)
qed

lemma sftp_list_body:
  assumes "sftp_list num path cursor (Inr es) = Inr body" "length es \<le> 10000"
  obtains page nxt where "body = Sv_List path (map sftp_entry_of page) nxt" "length page \<le> 500" "set page \<subseteq> set es"
    "opt_ok (\<lambda>c. 1 \<le> length c \<and> length c \<le> 10) nxt"
    "page = [] \<or> (\<exists>f \<in> set es. (\<Sum>f\<leftarrow>page. json_bytes num (remote_file_json f)) \<le> max (json_bytes num (remote_file_json f)) 49152)"
proof -
  define sz where "sz = (\<lambda>f. json_bytes num (remote_file_json f))"
  define n where "n = (case cursor of None \<Rightarrow> 0 | Some c \<Rightarrow> dec_val c)"
  define page where "page = createDirectoryPage sz es n"
  define nxt where "nxt = (if n + length page < length es then Some (show_nat (n + length page)) else None)"
  have b: "body = Sv_List path (map sftp_entry_of page) nxt" "n \<le> length es"
    using assms(1) by (auto simp: sftp_list_def sftp_list_page_def Let_def try_bind_eq_Inr sz_def n_def page_def nxt_def split: if_splits)
  obtain k where k: "page = take k (drop n es)" "k \<le> 500" "(\<Sum>e\<leftarrow>page. sz e) \<le> max (sz (es ! n)) 49152"
    using page_take [of sz es n] unfolding page_def by metis
  have "opt_ok (\<lambda>c. 1 \<le> length c \<and> length c \<le> 10) nxt"
    using length_le_nat_show [of "n + length page"] assms(2) by (auto simp: nxt_def Suc_le_eq)
  moreover have "page = [] \<or> es ! n \<in> set es" using k(1) b(2) by (cases "n < length es") auto
  ultimately show ?thesis using that b(1) k set_take_subset set_drop_subset unfolding sz_def by fastforce
qed

text \<open>
  A page of a directory whose path is at most 2000 characters long is a message the schema accepts: at most 500 entries
  and, with every character escaped at its worst, at most 64 KiB of text.
\<close>

theorem directory_page_fits:
  assumes "sftp_list (js_number p) path cursor (Inr es) = Inr body"
    "zod_law (zod.truncate p)" "number_law (js_number p)" "list_all (remote_file_ok (zod.truncate p)) es"
    "1 \<le> length path" "length path \<le> 2000" "nul \<notin> set path" "length es \<le> 10000"
    "z_uuid (zod.truncate p) rid" "z_uuid (zod.truncate p) sid" "z_uuid (zod.truncate p) aid"
  shows "ServerWebSocketMessageSchema p \<lparr>sm_requestId = Some rid, sm_sessionId = sid, sm_attemptId = aid, sm_body = body\<rparr>"
proof -
  let ?num = "js_number p" and ?m = "\<lparr>sm_requestId = Some rid, sm_sessionId = sid, sm_attemptId = aid, sm_body = body\<rparr>"
  obtain page nxt where b: "body = Sv_List path (map sftp_entry_of page) nxt" "length page \<le> 500" "set page \<subseteq> set es"
      "opt_ok (\<lambda>c. 1 \<le> length c \<and> length c \<le> 10) nxt"
      "page = [] \<or> (\<exists>f \<in> set es. (\<Sum>f\<leftarrow>page. json_bytes ?num (remote_file_json f)) \<le> max (json_bytes ?num (remote_file_json f)) 49152)"
    by (rule sftp_list_body [OF assms(1,8)])
  have "(\<Sum>f\<leftarrow>page. json_bytes ?num (remote_file_json f)) \<le> 49152"
    using b(5) assms(4) remote_file_bytes [OF assms(2,3)] by (fastforce simp: list_all_iff)
  then have arr: "json_bytes ?num (JArr (map sftp_entry_json (map sftp_entry_of page))) \<le> 49654"
    using array_bytes [of ?num "map sftp_entry_json (map sftp_entry_of page)"] b(2) by (simp add: o_def json_bytes_entry)
  have small: "json_bytes ?num v \<le> json_max v" for v
    using json_print_bytes [OF assms(3)] by (simp add: json_bytes_def)
  have cur: "json_bytes ?num (null_or JStr nxt) \<le> 62"
    using small [of "null_or JStr nxt"] b(4) by (auto simp: null_or_def split: option.splits)
  have "length rid \<le> 36" "length sid \<le> 36" "length aid \<le> 36" using assms(2,9-11) by (simp_all add: zod_law_uuid)
  then have "json_bytes ?num (server_json ?m) \<le> MAX_JSON_MESSAGE_BYTES"
    using object_bytes [of ?num "case server_json ?m of JObj kvs \<Rightarrow> kvs"] arr cur assms(6)
      small [of "JStr rid"] small [of "JStr sid"] small [of "JStr aid"] small [of "JStr path"] small [of "jnum WS_PROTOCOL_VERSION"]
      small [of "JStr ''file-result''"] small [of "JStr ''list''"]
    by (simp add: server_json_def b(1) MAX_JSON_MESSAGE_BYTES_def)
  moreover have "server_ok (zod.truncate p) ?m"
    using b assms(4-7,9-11)
    by (auto simp: server_ok_def ServerSftpListResultMessageSchema_def path_ok_def len_ok_def list_all_iff remote_file_ok_def
        elim!: opt_ok.elims)
  ultimately show ?thesis by (simp add: ServerWebSocketMessageSchema_def)
qed

definition demo_file :: remote_file where
  "demo_file = \<lparr>rf_name = ''a'', rf_path = ''/a'', rf_type = ''file'', rf_size = 1, rf_mode = 420, rf_modifiedAt = ''t''\<rparr>"

lemma demo_page: "sftp_list num ''/'' None (Inr [demo_file]) = Inr (Sv_List ''/'' [sftp_entry_of demo_file] None)"
  by (simp add: sftp_list_def sftp_list_page_def createDirectoryPage_def Let_def max_safe_def page_loop.simps)

lemma directory_page_fits_witness:
  "ServerWebSocketMessageSchema demo_js \<lparr>sm_requestId = Some ''r'', sm_sessionId = ''s'', sm_attemptId = ''a'',
     sm_body = Sv_List ''/'' [sftp_entry_of demo_file] None\<rparr>"
  by (rule directory_page_fits [OF demo_page])
    (simp_all add: demo_js_laws demo_js_simps remote_file_ok_def SftpEntrySchema_def sftp_entry_of_def demo_file_def len_ok_def
      path_ok_def nonneg_int_def max_safe_def mode_ok_def nul_def char_eq_iff_cu)

section \<open>The order of entries is not an order\<close>

text \<open>
  The comparison \<open>listDirectory\<close> sorts with is not transitive as soon as files and symbolic links are mixed: a file after a
  link and the link after another file compare as equal, while the two files compare by name.
\<close>

theorem entry_order_inconsistent:
  assumes "cmp ''b'' ''a'' > 0"
  shows "\<exists>f g h. compare_entries cmp f g \<le> 0 \<and> compare_entries cmp g h \<le> 0 \<and> compare_entries cmp f h > 0"
proof -
  define mk where "mk = (\<lambda>name ty. \<lparr>rf_name = name, rf_path = name, rf_type = ty, rf_size = 0, rf_mode = 0, rf_modifiedAt = []\<rparr>)"
  have "compare_entries cmp (mk ''b'' ''file'') (mk ''l'' ''symlink'') = 0"
    "compare_entries cmp (mk ''l'' ''symlink'') (mk ''a'' ''file'') = 0"
    "compare_entries cmp (mk ''b'' ''file'') (mk ''a'' ''file'') = cmp ''b'' ''a''"
    by (simp_all add: compare_entries_def mk_def)
  then show ?thesis using assms by (metis order_refl)
qed

definition demo_compare :: "string \<Rightarrow> string \<Rightarrow> int" where
  "demo_compare a b = (if a = b then 0 else if a = ''a'' then - 1 else 1)"

lemma entry_order_inconsistent_witness:
  "\<exists>f g h. compare_entries demo_compare f g \<le> 0 \<and> compare_entries demo_compare g h \<le> 0 \<and> compare_entries demo_compare f h > 0"
  by (rule entry_order_inconsistent) (simp add: demo_compare_def)

end
