(* ===== verification/Js_Regex.thy ===== *)
theory Js_Regex
  imports Wb_Prelude
begin

text \<open>
  The regular expressions of the program, as JavaScript matches them. \<open>ends r s i\<close> lists the positions a match of
  \<open>r\<close> that starts at \<open>i\<close> can end at, in the order a backtracking matcher tries them, so the head of the list is the match
  \<open>exec\<close> reports. A repetition never takes an empty turn. The \<open>i\<close> flag is spelled out in the character classes
  of an expression.
\<close>

datatype rx =
    Cc "char \<Rightarrow> bool"
  | Eps
  | Seq rx rx
  | Alt rx rx
  | Star rx
  | Star_Lazy rx
  | At_Start
  | At_End
  | Line_Start
  | Line_End
  | Word_Boundary

definition is_word :: "char \<Rightarrow> bool" where
  "is_word c \<longleftrightarrow> is_alnum c \<or> c = CHR ''_''"

definition is_newline :: "char \<Rightarrow> bool" where
  "is_newline c \<longleftrightarrow> cu c = 10 \<or> cu c = 13"

definition word_at :: "string \<Rightarrow> nat \<Rightarrow> bool" where
  "word_at s i \<longleftrightarrow> i < length s \<and> is_word (s ! i)"

fun star_ends :: "(nat \<Rightarrow> nat list) \<Rightarrow> nat \<Rightarrow> nat \<Rightarrow> nat list" where
  "star_ends f 0 i = [i]"
| "star_ends f (Suc n) i = concat (map (\<lambda>j. if i < j then star_ends f n j else []) (f i)) @ [i]"

fun lazy_ends :: "(nat \<Rightarrow> nat list) \<Rightarrow> nat \<Rightarrow> nat \<Rightarrow> nat list" where
  "lazy_ends f 0 i = [i]"
| "lazy_ends f (Suc n) i = i # concat (map (\<lambda>j. if i < j then lazy_ends f n j else []) (f i))"

primrec ends :: "rx \<Rightarrow> string \<Rightarrow> nat \<Rightarrow> nat list" where
  "ends (Cc P) s i = (if i < length s \<and> P (s ! i) then [Suc i] else [])"
| "ends Eps s i = [i]"
| "ends (Seq a b) s i = concat (map (ends b s) (ends a s i))"
| "ends (Alt a b) s i = ends a s i @ ends b s i"
| "ends (Star a) s i = star_ends (ends a s) (length s - i) i"
| "ends (Star_Lazy a) s i = lazy_ends (ends a s) (length s - i) i"
| "ends At_Start s i = (if i = 0 then [i] else [])"
| "ends At_End s i = (if i = length s then [i] else [])"
| "ends Line_Start s i = (if i = 0 \<or> is_newline (s ! (i - 1)) then [i] else [])"
| "ends Line_End s i = (if i = length s \<or> i < length s \<and> is_newline (s ! i) then [i] else [])"
| "ends Word_Boundary s i = (if (0 < i \<and> word_at s (i - 1)) \<noteq> word_at s i then [i] else [])"

definition rx_test :: "rx \<Rightarrow> string \<Rightarrow> bool" where
  "rx_test r s \<longleftrightarrow> list_ex (\<lambda>i. ends r s i \<noteq> []) [0..<Suc (length s)]"

text \<open>\<open>exec\<close> from a position: start and end of the first match.\<close>

definition rx_find :: "rx \<Rightarrow> string \<Rightarrow> nat \<Rightarrow> (nat \<times> nat) option" where
  "rx_find r s p = (case filter (\<lambda>i. ends r s i \<noteq> []) [p..<Suc (length s)] of [] \<Rightarrow> None | i # _ \<Rightarrow> Some (i, hd (ends r s i)))"

section \<open>Expressions\<close>

definition Plus :: "rx \<Rightarrow> rx" where "Plus r = Seq r (Star r)"
definition Opt :: "rx \<Rightarrow> rx" where "Opt r = Alt r Eps"

fun Times :: "nat \<Rightarrow> rx \<Rightarrow> rx" where
  "Times 0 r = Eps"
| "Times (Suc n) r = Seq r (Times n r)"

fun Up_To :: "nat \<Rightarrow> rx \<Rightarrow> rx" where
  "Up_To 0 r = Eps"
| "Up_To (Suc n) r = Alt (Seq r (Up_To n r)) Eps"

fun seqs :: "rx list \<Rightarrow> rx" where
  "seqs [] = Eps"
| "seqs [r] = r"
| "seqs (r # r' # rs) = Seq r (seqs (r' # rs))"

fun alts :: "rx list \<Rightarrow> rx" where
  "alts [] = Cc (\<lambda>c. False)"
| "alts [r] = r"
| "alts (r # r' # rs) = Alt r (alts (r' # rs))"

definition chr_is :: "char \<Rightarrow> rx" where "chr_is c = Cc (\<lambda>d. d = c)"

fun rx_lit :: "string \<Rightarrow> rx" where
  "rx_lit [] = Eps"
| "rx_lit (c # w) = Seq (chr_is c) (rx_lit w)"

text \<open>A literal under the \<open>i\<close> flag, given in lower case.\<close>

definition fold_char :: "char \<Rightarrow> char" where
  "fold_char c = (if is_upper c then char_of (cu c + 32) else c)"

fun rx_lit_i :: "string \<Rightarrow> rx" where
  "rx_lit_i [] = Eps"
| "rx_lit_i (c # w) = Seq (Cc (\<lambda>d. fold_char d = c)) (rx_lit_i w)"

definition one_of :: "string \<Rightarrow> rx" where "one_of w = Cc (\<lambda>c. c \<in> set w)"
definition spaces :: rx where "spaces = Star (Cc is_ws)"
definition spaces1 :: rx where "spaces1 = Plus (Cc is_ws)"
definition non_space :: rx where "non_space = Cc (\<lambda>c. \<not> is_ws c)"
definition letter :: "char \<Rightarrow> bool" where "letter c \<longleftrightarrow> is_lower c \<or> is_upper c"

lemmas rx_defs = Plus_def Opt_def chr_is_def one_of_def spaces_def spaces1_def non_space_def

section \<open>Matching\<close>

lemma rx_test_iff: "rx_test r s \<longleftrightarrow> (\<exists>i j. i \<le> length s \<and> j \<in> set (ends r s i))"
proof -
  have "rx_test r s \<longleftrightarrow> (\<exists>i. i \<le> length s \<and> ends r s i \<noteq> [])"
    by (auto simp: rx_test_def list_ex_iff less_Suc_eq_le simp del: upt_Suc)
  then show ?thesis by (metis all_not_in_conv set_empty)
qed

lemma star_ends_bounds: "(\<And>i j. j \<in> set (f i) \<Longrightarrow> i \<le> length s \<Longrightarrow> i \<le> j \<and> j \<le> length s) \<Longrightarrow> i \<le> length s \<Longrightarrow>
    j \<in> set (star_ends f n i) \<Longrightarrow> i \<le> j \<and> j \<le> length s"
proof (induction n arbitrary: i)
  case (Suc n)
  then consider "j = i" | k where "k \<in> set (f i)" "i < k" "j \<in> set (star_ends f n k)" by (auto split: if_splits)
  then show ?case
  proof cases
    case 2
    then show ?thesis using Suc.IH [of k] Suc.prems(1) [of k i] Suc.prems(1,2) by fastforce
  qed (use Suc.prems in simp)
qed simp

lemma lazy_ends_set: "set (lazy_ends f n i) = set (star_ends f n i)"
  by (induction n arbitrary: i) auto

lemma ends_bounds: "j \<in> set (ends r s i) \<Longrightarrow> i \<le> length s \<Longrightarrow> i \<le> j \<and> j \<le> length s"
proof (induction r arbitrary: i j)
  case (Seq a b)
  then show ?case by fastforce
next
  case (Star a)
  then show ?case using star_ends_bounds [of "ends a s" s i j] by simp
next
  case (Star_Lazy a)
  then show ?case using star_ends_bounds [of "ends a s" s i j] by (simp add: lazy_ends_set)
qed (auto split: if_splits)

lemma ends_rx_lit: "i \<le> length s \<Longrightarrow> ends (rx_lit w) s i = (if starts_with w (drop i s) then [i + length w] else [])"
proof (induction w arbitrary: i)
  case (Cons c w)
  show ?case
  proof (cases "i < length s \<and> s ! i = c")
    case True
    then have "drop i s = c # drop (Suc i) s" by (metis Cons_nth_drop_Suc)
    then show ?thesis using Cons.IH [of "Suc i"] True by (simp add: chr_is_def starts_with_def)
  next
    case False
    have "\<not> starts_with (c # w) (drop i s)"
    proof (cases "i < length s")
      case True
      then show ?thesis using False by (simp add: starts_with_def Cons_nth_drop_Suc [symmetric])
    qed (simp add: starts_with_def)
    then show ?thesis using False by (auto simp: chr_is_def)
  qed
qed (simp add: starts_with_def)

text \<open>A repeated class matches any run of its characters.\<close>

lemma star_class:
  assumes "\<And>i. f i = (if i < length s \<and> P (s ! i) then [Suc i] else [])"
  shows "i \<le> j \<Longrightarrow> j \<le> length s \<Longrightarrow> (\<forall>k. i \<le> k \<and> k < j \<longrightarrow> P (s ! k)) \<Longrightarrow> j - i \<le> n \<Longrightarrow> j \<in> set (star_ends f n i)"
proof (induction n arbitrary: i)
  case (Suc n)
  show ?case
  proof (cases "i = j")
    case False
    then have "i < length s" "P (s ! i)" using Suc.prems by auto
    moreover have "j \<in> set (star_ends f n (Suc i))" using Suc.IH [of "Suc i"] Suc.prems False by simp
    ultimately show ?thesis by (simp add: assms [of i])
  qed simp
qed simp

lemma ends_star_class:
  "i \<le> j \<Longrightarrow> j \<le> length s \<Longrightarrow> (\<And>k. i \<le> k \<Longrightarrow> k < j \<Longrightarrow> P (s ! k)) \<Longrightarrow> j \<in> set (ends (Star (Cc P)) s i)"
  using star_class [of "ends (Cc P) s" s P i j "length s - i"] by simp

lemma ends_plus_class:
  assumes "i < j" "j \<le> length s" "\<And>k. i \<le> k \<Longrightarrow> k < j \<Longrightarrow> P (s ! k)"
  shows "j \<in> set (ends (Plus (Cc P)) s i)"
proof -
  have "j \<in> set (ends (Star (Cc P)) s (Suc i))" using assms by (intro ends_star_class) auto
  then show ?thesis using assms by (simp add: Plus_def)
qed

lemma ends_seq: "k \<in> set (ends a s i) \<Longrightarrow> j \<in> set (ends b s k) \<Longrightarrow> j \<in> set (ends (Seq a b) s i)"
  by auto

lemma rx_test_mem: "j \<in> set (ends r s i) \<Longrightarrow> i \<le> length s \<Longrightarrow> rx_test r s"
  by (auto simp: rx_test_iff)

end
