(* ===== verification/Command_Capture.thy ===== *)
theory Command_Capture
  imports Js_Regex Server_Messages
begin

text \<open>
  What of a terminal reaches the command history: \<open>apps/worker/src/ssh/command-capture.ts\<close> (the filter
  \<open>isSafeCommandForHistory\<close> and \<open>TerminalCommandCapture\<close>) and \<open>apps/worker/src/ssh/shell-history.ts\<close>. The text
  \<open>feed\<close> works on is what its streaming UTF-8 decoder returned for the bytes; replacement characters lie outside the
  characters of the model. The lemmas show that only a line that was typed from its start to its line end, passed the filter
  and was then echoed is reported, and what the filter keeps out; after a pasted text of several lines a new line counts as
  started, and \<open>pasted_line_splits\<close> shows what this lets through.
\<close>

section \<open>The filter\<close>

definition MAX_CAPTURED_COMMAND_CHARS :: nat where "MAX_CAPTURED_COMMAND_CHARS = 2048"
definition MAX_PENDING_COMMANDS :: nat where "MAX_PENDING_COMMANDS = 8"
definition MAX_OUTPUT_CHARS :: nat where "MAX_OUTPUT_CHARS = 32 * 1024"
definition CANDIDATE_TTL_MS :: int where "CANDIDATE_TTL_MS = 15000"

definition SENSITIVE_COMMAND :: rx where
  "SENSITIVE_COMMAND = seqs [
     alts [At_Start, Seq (one_of '';&|'') spaces, seqs [Word_Boundary, rx_lit_i ''sudo'', spaces1]],
     alts [rx_lit_i ''passwd'', rx_lit_i ''chpasswd'', rx_lit_i ''sshpass'', rx_lit_i ''gpg'',
       seqs [rx_lit_i ''openssl'', spaces1, alts [rx_lit_i ''enc'', rx_lit_i ''pkcs'', rx_lit_i ''rsa'']],
       seqs [rx_lit_i ''docker'', spaces1, rx_lit_i ''login''],
       seqs [rx_lit_i ''npm'', spaces1, alts [rx_lit_i ''login'', rx_lit_i ''adduser'']],
       seqs [rx_lit_i ''kubectl'', spaces1, alts [rx_lit_i ''create'', rx_lit_i ''apply''], spaces1, rx_lit_i ''secret''],
       seqs [rx_lit_i ''read'', spaces1, rx_lit_i ''-s'']],
     Word_Boundary]"

definition secret_flags :: "string list" where
  "secret_flags = [''password'', ''passphrase'', ''token'', ''secret'', ''api-key'', ''access-key'']"

definition SENSITIVE_FLAG :: rx where
  "SENSITIVE_FLAG = seqs [rx_lit ''--'', alts (map rx_lit_i secret_flags), Alt (rx_lit ''='') spaces1]"

text \<open>\<open>ASSIGNMENT\<close> in its three parts: what may precede the name, the name, and the sign.\<close>

definition assignment_prefix :: rx where
  "assignment_prefix = Seq (Alt At_Start (Cc (\<lambda>c. is_ws c \<or> c \<in> set '';&|''))) (Opt (Seq (rx_lit_i ''export'') spaces1))"

definition assignment_name :: rx where
  "assignment_name = Seq (Cc (\<lambda>c. letter c \<or> c = CHR ''_'')) (Star (Cc (\<lambda>c. is_alnum c \<or> c \<in> set ''_-'')))"

definition assignment_sign :: rx where
  "assignment_sign = Seq spaces (rx_lit ''='')"

definition SENSITIVE_NAME_PART :: rx where
  "SENSITIVE_NAME_PART = seqs [Alt At_Start (one_of ''_-''),
     alts [rx_lit_i ''password'', rx_lit_i ''passwd'', rx_lit_i ''passphrase'', rx_lit_i ''token'', rx_lit_i ''secret'',
       seqs [rx_lit_i ''api'', Opt (one_of ''_-''), rx_lit_i ''key''],
       seqs [rx_lit_i ''access'', Opt (one_of ''_-''), rx_lit_i ''key''],
       seqs [rx_lit_i ''private'', Opt (one_of ''_-''), rx_lit_i ''key'']],
     Alt (one_of ''_-'') At_End]"

text \<open>The matches at one start: begin and end of the name, and the end of the match, in order of trial.\<close>

definition assignment_at :: "string \<Rightarrow> nat \<Rightarrow> (nat \<times> nat \<times> nat) list" where
  "assignment_at s i = [(a, b, e). a \<leftarrow> ends assignment_prefix s i, b \<leftarrow> ends assignment_name s a, e \<leftarrow> ends assignment_sign s b]"

text \<open>\<open>matchAll\<close>: from each match on to its end; no match is empty.\<close>

fun assignment_names :: "string \<Rightarrow> nat \<Rightarrow> nat \<Rightarrow> string list" where
  "assignment_names s i 0 = []"
| "assignment_names s i (Suc fuel) =
     (if i > length s then []
      else case assignment_at s i of
        [] \<Rightarrow> assignment_names s (Suc i) fuel
      | (a, b, e) # _ \<Rightarrow> take (b - a) (drop a s) # assignment_names s e fuel)"

definition hasSensitiveAssignment :: "string \<Rightarrow> bool" where
  "hasSensitiveAssignment s = list_ex (rx_test SENSITIVE_NAME_PART) (assignment_names s 0 (Suc (length s)))"

definition mysql_password :: rx where
  "mysql_password = seqs [Word_Boundary, rx_lit_i ''mysql'', Word_Boundary, Star (Cc (\<lambda>c. cu c \<noteq> 10)), Cc is_ws,
     rx_lit_i ''-p'', Plus non_space]"

definition authorization_header :: rx where
  "authorization_header = seqs [Word_Boundary, Alt (rx_lit_i ''authorization'') (rx_lit_i ''proxy-authorization''), spaces, rx_lit '':'']"

definition url_user_char :: "char \<Rightarrow> bool" where "url_user_char c \<longleftrightarrow> \<not> is_ws c \<and> c \<notin> set ''/@:''"
definition url_password_char :: "char \<Rightarrow> bool" where "url_password_char c \<longleftrightarrow> \<not> is_ws c \<and> c \<notin> set ''/@''"

definition url_credentials :: rx where
  "url_credentials = seqs [rx_lit ''://'', Plus (Cc url_user_char), rx_lit '':'', Plus (Cc url_password_char), rx_lit ''@'']"

definition private_key_block :: rx where
  "private_key_block = seqs [rx_lit_i ''-----begin '', Star (Cc (\<lambda>c. letter c \<or> c = CHR '' '')), rx_lit_i ''private key-----'']"

definition here_document :: rx where
  "here_document = seqs [rx_lit ''<<'', Opt (rx_lit ''-''), spaces, Opt (Cc (\<lambda>c. cu c = 39 \<or> cu c = 34)), Plus (Cc is_word)]"

definition forbidden_control :: "char \<Rightarrow> bool" where
  "forbidden_control c \<longleftrightarrow> cu c \<le> 8 \<or> cu c = 10 \<or> cu c = 13 \<or> cu c = 11 \<or> cu c = 12 \<or> (14 \<le> cu c \<and> cu c \<le> 31) \<or> cu c = 127"

definition isSafeCommandForHistory :: "string \<Rightarrow> bool" where
  "isSafeCommandForHistory command \<longleftrightarrow> 0 < length command \<and> length command \<le> MAX_CAPTURED_COMMAND_CHARS \<and>
     \<not> list_ex forbidden_control command \<and> \<not> rx_test SENSITIVE_COMMAND command \<and> \<not> hasSensitiveAssignment command \<and>
     \<not> rx_test SENSITIVE_FLAG command \<and> \<not> rx_test mysql_password command \<and> \<not> rx_test authorization_header command \<and>
     \<not> rx_test url_credentials command \<and> \<not> rx_test private_key_block command \<and> \<not> rx_test here_document command"

section \<open>The capture\<close>

record pending_command =
  pc_command :: string
  pc_queuedAt :: millis
  pc_searchFrom :: nat
  pc_minimumMatchEnd :: nat

record capture =
  tc_buffer :: string
  tc_unsafeLine :: bool
  tc_output :: string
  tc_pending :: "pending_command list"

definition capture_new :: capture where
  "capture_new = \<lparr>tc_buffer = [], tc_unsafeLine = False, tc_output = [], tc_pending = []\<rparr>"

definition resetLine :: "capture \<Rightarrow> capture" where
  "resetLine c = c\<lparr>tc_buffer := [], tc_unsafeLine := False\<rparr>"

definition capture_reset :: "capture \<Rightarrow> capture" where
  "capture_reset c = (resetLine c)\<lparr>tc_output := [], tc_pending := []\<rparr>"

definition prunePending :: "millis \<Rightarrow> capture \<Rightarrow> capture" where
  "prunePending now c = c\<lparr>tc_pending := filter (\<lambda>p. now - pc_queuedAt p \<le> CANDIDATE_TTL_MS) (tc_pending c)\<rparr>"

text \<open>\<open>text.matchAll(/\r\n|\r|\n/g)\<close>: start and length of each line end.\<close>

fun terminators :: "nat \<Rightarrow> string \<Rightarrow> (nat \<times> nat) list" where
  "terminators i [] = []"
| "terminators i [c] = (if is_newline c then [(i, 1)] else [])"
| "terminators i (c # d # s) =
     (if cu c = 13 \<and> cu d = 10 then (i, 2) # terminators (i + 2) s
      else if is_newline c then (i, 1) # terminators (Suc i) (d # s)
      else terminators (Suc i) (d # s))"

definition queue_command :: "millis \<Rightarrow> string \<Rightarrow> capture \<Rightarrow> capture" where
  "queue_command now command c =
     (let c = prunePending now c;
          n = length (tc_output c);
          ps = tc_pending c @ [\<lparr>pc_command = command, pc_queuedAt = now, pc_searchFrom = n - length command - 512,
                                 pc_minimumMatchEnd = n + 1\<rparr>]
      in c\<lparr>tc_pending := (if length ps > MAX_PENDING_COMMANDS then tl ps else ps)\<rparr>)"

definition feed_char :: "millis \<Rightarrow> char option \<Rightarrow> char \<Rightarrow> capture \<Rightarrow> capture" where
  "feed_char now prev ch c =
     (if is_newline ch then
        (if cu ch = 10 \<and> (case prev of None \<Rightarrow> False | Some d \<Rightarrow> cu d = 13) then c
         else
           let command = trim (tc_buffer c) in
           resetLine (if \<not> tc_unsafeLine c \<and> isSafeCommandForHistory command then queue_command now command c else c))
      else if cu ch = 8 \<or> cu ch = 127 then c\<lparr>tc_buffer := butlast (tc_buffer c)\<rparr>
      else if cu ch = 3 \<or> cu ch = 21 then capture_reset c
      else if cu ch = 27 \<or> cu ch < 32 then c\<lparr>tc_unsafeLine := True\<rparr>
      else if length (tc_buffer c) < MAX_CAPTURED_COMMAND_CHARS then c\<lparr>tc_buffer := tc_buffer c @ [ch]\<rparr>
      else c\<lparr>tc_unsafeLine := True\<rparr>)"

fun feed_chars :: "millis \<Rightarrow> char option \<Rightarrow> string \<Rightarrow> capture \<Rightarrow> capture" where
  "feed_chars now prev [] c = c"
| "feed_chars now prev (ch # s) c = feed_chars now (Some ch) s (feed_char now prev ch c)"

definition feed :: "string \<Rightarrow> millis \<Rightarrow> capture \<Rightarrow> capture" where
  "feed input now c =
     (if input = [] then c
      else case terminators 0 input of
        [] \<Rightarrow> feed_chars now None input c
      | (i, n) # rest \<Rightarrow> if rest \<noteq> [] \<or> i + n < length input then resetLine c else feed_chars now None input c)"

text \<open>The end of a match of the command and a line end that starts at \<open>p\<close>.\<close>

definition echo_at :: "string \<Rightarrow> string \<Rightarrow> nat \<Rightarrow> nat option" where
  "echo_at command s p =
     (if starts_with command (drop p s) then
        (let e = p + length command in
         if e + 1 < length s \<and> cu (s ! e) = 13 \<and> cu (s ! (e + 1)) = 10 then Some (e + 2)
         else if e < length s \<and> is_newline (s ! e) then Some (e + 1) else None)
      else None)"

text \<open>The ends of the successive matches of \<open>pattern.exec\<close>.\<close>

fun echo_ends :: "string \<Rightarrow> string \<Rightarrow> nat \<Rightarrow> nat \<Rightarrow> nat list" where
  "echo_ends command s p 0 = []"
| "echo_ends command s p (Suc fuel) =
     (if p > length s then []
      else case echo_at command s p of
        None \<Rightarrow> echo_ends command s (Suc p) fuel
      | Some e \<Rightarrow> e # echo_ends command s e fuel)"

definition match_end :: "string \<Rightarrow> nat \<Rightarrow> pending_command \<Rightarrow> nat option" where
  "match_end output start p =
     (let search = drop start output in
      find (\<lambda>e. e \<ge> pc_minimumMatchEnd p) (map (\<lambda>e. start + e) (echo_ends (pc_command p) search 0 (Suc (length search)))))"

fun confirm :: "string \<Rightarrow> nat \<Rightarrow> pending_command list \<Rightarrow> string list \<times> pending_command list \<times> nat" where
  "confirm output consumed [] = ([], [], consumed)"
| "confirm output consumed (p # ps) =
     (case match_end output (max (pc_searchFrom p) consumed) p of
        None \<Rightarrow> (case confirm output consumed ps of (cs, rs, k) \<Rightarrow> (cs, p # rs, k))
      | Some e \<Rightarrow> (case confirm output e ps of (cs, rs, k) \<Rightarrow> (pc_command p # cs, rs, k)))"

definition shift_pending :: "nat \<Rightarrow> pending_command \<Rightarrow> pending_command" where
  "shift_pending n p = p\<lparr>pc_searchFrom := pc_searchFrom p - n, pc_minimumMatchEnd := pc_minimumMatchEnd p - n\<rparr>"

definition observe_append :: "string \<Rightarrow> capture \<Rightarrow> capture" where
  "observe_append output c =
     (let all = tc_output c @ output;
          removed = length all - MAX_OUTPUT_CHARS
      in c\<lparr>tc_output := drop removed all, tc_pending := map (shift_pending removed) (tc_pending c)\<rparr>)"

definition observeOutput :: "string \<Rightarrow> millis \<Rightarrow> capture \<Rightarrow> string list \<times> capture" where
  "observeOutput output now c =
     (if output = [] then ([], c)
      else
        let c = prunePending now (observe_append output c);
            (confirmed, remaining, consumed) = confirm (tc_output c) 0 (tc_pending c)
        in (confirmed, c\<lparr>tc_pending := map (shift_pending consumed) remaining, tc_output := drop consumed (tc_output c)\<rparr>))"

section \<open>What is reported was echoed\<close>

definition line_end :: "string \<Rightarrow> bool" where
  "line_end w \<longleftrightarrow> w = [char_of (13 :: nat), char_of (10 :: nat)] \<or> (\<exists>c. w = [c] \<and> is_newline c)"

lemma echo_at_sound:
  assumes "echo_at command s p = Some e" "p \<le> length s"
  shows "\<exists>pre nl post. s = pre @ command @ nl @ post \<and> line_end nl \<and> length (pre @ command @ nl) = e \<and> length pre = p"
proof -
  obtain t where t: "drop p s = command @ t"
    using assms(1) by (auto simp: echo_at_def starts_with_iff split: if_splits)
  define q where "q = p + length command"
  have s: "s = take p s @ command @ t" by (metis append_take_drop_id t)
  have nth: "s ! (q + k) = t ! k" if "q + k < length s" for k
    using that assms(2) by (subst s) (simp add: nth_append q_def)
  have len: "length s = q + length t" using assms(2) by (subst s) (simp add: q_def)
  have n0: "0 < length t \<Longrightarrow> s ! q = t ! 0" "1 < length t \<Longrightarrow> s ! q = t ! 0" using nth [of 0] len by (auto simp del: length_greater_0_conv)
  have n1: "1 < length t \<Longrightarrow> s ! (q + 1) = t ! 1" using nth [of 1] len by simp
  have "(1 < length t \<and> cu (t ! 0) = 13 \<and> cu (t ! 1) = 10 \<and> e = q + 2) \<or> (0 < length t \<and> is_newline (t ! 0) \<and> e = q + 1)"
    using assms(1) n0 n1 len
    by (auto simp: echo_at_def Let_def q_def [symmetric] split: if_splits)
  then obtain nl post where "t = nl @ post" "line_end nl" "e = q + length nl"
  proof
    assume a: "1 < length t \<and> cu (t ! 0) = 13 \<and> cu (t ! 1) = 10 \<and> e = q + 2"
    then obtain x y u where u: "t = x # y # u" by (cases t; cases "tl t") auto
    with a have "x = char_of (13 :: nat)" "y = char_of (10 :: nat)" by (simp_all add: char_eq_iff_cu)
    then show thesis using that [of "[x, y]" u] a u by (simp add: line_end_def)
  next
    assume a: "0 < length t \<and> is_newline (t ! 0) \<and> e = q + 1"
    then obtain x u where "t = x # u" by (cases t) auto
    then show thesis using that [of "[x]" u] a by (simp add: line_end_def)
  qed
  then show ?thesis using s assms(2) by (intro exI [of _ "take p s"] exI [of _ nl] exI [of _ post]) (auto simp: q_def)
qed

lemma echo_at_more: "echo_at command s p = Some e \<Longrightarrow> p \<le> length s \<Longrightarrow> p < e \<and> e \<le> length s"
  using echo_at_sound [of command s p e] by (auto simp: line_end_def)

lemma echo_ends_sound:
  "e \<in> set (echo_ends command s p fuel) \<Longrightarrow> \<exists>q. q \<le> length s \<and> echo_at command s q = Some e"
  by (induction command s p fuel rule: echo_ends.induct) (auto simp: not_less split: if_splits option.splits)

lemma find_some: "find P xs = Some x \<Longrightarrow> x \<in> set xs \<and> P x"
  by (induction xs) (auto split: if_splits)

lemma match_end_sound:
  assumes "match_end out start p = Some e" "start \<le> length out"
  shows "\<exists>pre nl post. out = pre @ pc_command p @ nl @ post \<and> line_end nl \<and> length (pre @ pc_command p @ nl) = e \<and>
    start \<le> length pre \<and> pc_minimumMatchEnd p \<le> e"
proof -
  obtain d where d: "d \<in> set (echo_ends (pc_command p) (drop start out) 0 (Suc (length (drop start out))))" "e = start + d" "pc_minimumMatchEnd p \<le> e"
    using find_some [OF assms(1) [unfolded match_end_def Let_def]] by auto
  then obtain q where q: "q \<le> length (drop start out)" "echo_at (pc_command p) (drop start out) q = Some d"
    using echo_ends_sound by blast
  then obtain pre nl post where s: "drop start out = pre @ pc_command p @ nl @ post" "line_end nl" "length (pre @ pc_command p @ nl) = d"
    using echo_at_sound by blast
  then have "out = (take start out @ pre) @ pc_command p @ nl @ post" by (metis append.assoc append_take_drop_id)
  then show ?thesis using s d assms(2)
    by (intro exI [of _ "take start out @ pre"] exI [of _ nl] exI [of _ post]) auto
qed

lemma match_end_bound: "match_end out start p = Some e \<Longrightarrow> start \<le> length out \<Longrightarrow> start < e \<and> e \<le> length out"
  using match_end_sound [of out start p e] by (auto simp: line_end_def)

text \<open>
  Every confirmed command is that of a candidate whose echo, line end included, lies in the output and ends past the
  candidate's mark; the echoes of different candidates follow one another.
\<close>

lemma confirm_sound:
  "confirm out k ps = (cs, rs, k') \<Longrightarrow> k \<le> length out \<Longrightarrow> \<forall>p \<in> set ps. pc_searchFrom p \<le> length out \<Longrightarrow>
    k \<le> k' \<and> k' \<le> length out \<and> set rs \<subseteq> set ps \<and> length cs + length rs = length ps \<and>
    (\<forall>c \<in> set cs. \<exists>p \<in> set ps. pc_command p = c \<and> (\<exists>pre nl post. out = pre @ c @ nl @ post \<and> line_end nl \<and>
      k \<le> length pre \<and> length (pre @ c @ nl) \<le> k' \<and> pc_minimumMatchEnd p \<le> length (pre @ c @ nl)))"
proof (induction out k ps arbitrary: cs rs k' rule: confirm.induct)
  case (2 out k p ps)
  show ?case
  proof (cases "match_end out (max (pc_searchFrom p) k) p")
    case None
    then obtain cs' rs' where "confirm out k ps = (cs', rs', k')" "cs = cs'" "rs = p # rs'"
      using 2(3) by (auto split: prod.splits)
    then show ?thesis using 2(1) [OF None] 2(4,5) by fastforce
  next
    case (Some e)
    then obtain cs' where c: "confirm out e ps = (cs', rs, k')" "cs = pc_command p # cs'"
      using 2(3) by (auto split: prod.splits)
    have le: "max (pc_searchFrom p) k \<le> length out" using 2(4,5) by simp
    obtain pre nl post where m: "out = pre @ pc_command p @ nl @ post" "line_end nl" "length (pre @ pc_command p @ nl) = e"
        "max (pc_searchFrom p) k \<le> length pre" "pc_minimumMatchEnd p \<le> e"
      using match_end_sound [OF Some le] by blast
    have e: "k < e" "e \<le> length out" using match_end_bound [OF Some le] by simp_all
    note IH = 2(2) [OF Some c(1) e(2)]
    have "e \<le> k'" using IH 2(5) by simp
    then have head: "\<exists>pre nl post. out = pre @ pc_command p @ nl @ post \<and> line_end nl \<and> k \<le> length pre \<and>
        length (pre @ pc_command p @ nl) \<le> k' \<and> pc_minimumMatchEnd p \<le> length (pre @ pc_command p @ nl)"
      using m by (intro exI [of _ pre] exI [of _ nl] exI [of _ post]) auto
    show ?thesis using IH head 2(5) e c(2) by fastforce
  qed
qed auto

text \<open>
  What happened to a capture since it was made or reset: the texts typed, and the texts shown, with their times.
\<close>

datatype capture_event = Typed string millis | Shown string millis

fun typed_texts :: "capture_event list \<Rightarrow> string list" where
  "typed_texts [] = []"
| "typed_texts (Typed s t # h) = s # typed_texts h"
| "typed_texts (Shown s t # h) = typed_texts h"

fun shown_text :: "capture_event list \<Rightarrow> string" where
  "shown_text [] = []"
| "shown_text (Typed s t # h) = shown_text h"
| "shown_text (Shown s t # h) = s @ shown_text h"

lemma log_append [simp]:
  "typed_texts (h @ h') = typed_texts h @ typed_texts h'" "shown_text (h @ h') = shown_text h @ shown_text h'"
  by (induction h rule: typed_texts.induct) simp_all

inductive captured :: "capture_event list \<Rightarrow> capture \<Rightarrow> bool" where
  new: "captured [] capture_new"
| typed: "captured h c \<Longrightarrow> captured (h @ [Typed input now]) (feed input now c)"
| observed: "captured h c \<Longrightarrow> observeOutput out now c = (cs, c') \<Longrightarrow> captured (h @ [Shown out now]) c'"
| reset: "captured h c \<Longrightarrow> captured [] (capture_reset c)"

definition capture_ok :: "capture \<Rightarrow> bool" where
  "capture_ok c \<longleftrightarrow> length (tc_buffer c) \<le> MAX_CAPTURED_COMMAND_CHARS \<and> length (tc_output c) \<le> MAX_OUTPUT_CHARS \<and>
     length (tc_pending c) \<le> MAX_PENDING_COMMANDS \<and>
     (\<forall>p \<in> set (tc_pending c). isSafeCommandForHistory (pc_command p) \<and> pc_searchFrom p \<le> length (tc_output c))"

lemma capture_ok_reset: "capture_ok c \<Longrightarrow> capture_ok (resetLine c)" "capture_ok (capture_reset c)"
  by (simp_all add: capture_ok_def resetLine_def capture_reset_def)

lemma capture_ok_prune: "capture_ok c \<Longrightarrow> capture_ok (prunePending now c)"
  by (auto simp: capture_ok_def prunePending_def intro: order_trans [OF length_filter_le])

lemma queue_ok: "capture_ok c \<Longrightarrow> isSafeCommandForHistory w \<Longrightarrow> capture_ok (queue_command now w c)"
  using capture_ok_prune [of c now]
  by (cases "tc_pending (prunePending now c)") (auto simp: queue_command_def capture_ok_def Let_def)

lemma feed_char_ok: "capture_ok c \<Longrightarrow> capture_ok (feed_char now prev ch c)"
  using capture_ok_reset [of c]
  by (auto simp: feed_char_def Let_def queue_ok intro!: capture_ok_reset) (auto simp: capture_ok_def)

lemma feed_chars_ok: "capture_ok c \<Longrightarrow> capture_ok (feed_chars now prev s c)"
  by (induction now prev s c rule: feed_chars.induct) (simp_all add: feed_char_ok)

lemma feed_ok: "capture_ok c \<Longrightarrow> capture_ok (feed input now c)"
  by (auto simp: feed_def feed_chars_ok capture_ok_reset split: list.splits)

lemma observe_append_ok: "capture_ok c \<Longrightarrow> capture_ok (observe_append out c)"
  by (auto simp: observe_append_def Let_def capture_ok_def shift_pending_def MAX_OUTPUT_CHARS_def)

lemma observe_ok:
  assumes "capture_ok c" "observeOutput out now c = (cs, c')"
  shows "capture_ok c'"
proof (cases "out = []")
  case False
  define d where "d = prunePending now (observe_append out c)"
  obtain rs k where k: "confirm (tc_output d) 0 (tc_pending d) = (cs, rs, k)"
      "c' = d\<lparr>tc_pending := map (shift_pending k) rs, tc_output := drop k (tc_output d)\<rparr>"
    using assms(2) False by (auto simp: observeOutput_def Let_def d_def split: prod.splits)
  have d: "capture_ok d" using assms(1) by (simp add: d_def capture_ok_prune observe_append_ok)
  then have "set rs \<subseteq> set (tc_pending d)" "length rs \<le> length (tc_pending d)" "k \<le> length (tc_output d)"
    using confirm_sound [OF k(1)] by (auto simp: capture_ok_def)
  then show ?thesis using d by (auto simp: capture_ok_def k(2) shift_pending_def intro: diff_le_mono)
qed (use assms in \<open>simp add: observeOutput_def\<close>)

lemma captured_ok: "captured h c \<Longrightarrow> capture_ok c"
proof (induction rule: captured.induct)
  case new
  show ?case by (simp add: capture_new_def capture_ok_def)
qed (simp_all add: feed_ok capture_ok_reset observe_ok)

lemma in_set_tl: "x \<in> set (tl xs) \<Longrightarrow> x \<in> set xs"
  by (cases xs) auto

text \<open>
  A line typed whole. A text that is pasted holds several lines, or a line and more; anything else is typed, with at most one
  line end, its last. A line starts at the beginning, after a line end, after an interrupt or a kill of the line (the
  characters 3 and 21), or after a pasted text; it is made of printable characters and of the two keys that take
  the last one back, and a line end enters it.
\<close>

definition single_line :: "string \<Rightarrow> bool" where
  "single_line s \<longleftrightarrow> (\<exists>u nl. s = u @ nl \<and> list_all (\<lambda>c. \<not> is_newline c) u \<and> (nl = [] \<or> line_end nl))"

definition line_start :: "string list \<Rightarrow> string \<Rightarrow> bool" where
  "line_start ts b \<longleftrightarrow> b = [] \<or> is_newline (last b) \<or> cu (last b) = 3 \<or> cu (last b) = 21 \<or>
     (\<exists>before pasted after. ts = before @ pasted # after \<and> b = concat before @ pasted \<and> \<not> single_line pasted)"

definition takes_back :: "char \<Rightarrow> bool" where "takes_back c \<longleftrightarrow> cu c = 8 \<or> cu c = 127"

definition edited :: "string \<Rightarrow> string" where
  "edited w = foldl (\<lambda>b c. if takes_back c then butlast b else b @ [c]) [] w"

definition whole_line :: "string list \<Rightarrow> string \<Rightarrow> string \<Rightarrow> bool" where
  "whole_line ts s cmd \<longleftrightarrow> (\<exists>u nl b w. s = u @ nl \<and> list_all (\<lambda>c. \<not> is_newline c) u \<and> line_end nl \<and> concat ts @ u = b @ w \<and>
     line_start ts b \<and> list_all (\<lambda>c. 32 \<le> cu c \<or> takes_back c) w \<and> cmd = trim (edited w))"

lemma line_start_later: "line_start ts b \<Longrightarrow> line_start (ts @ ts') b"
  unfolding line_start_def by (metis append.assoc append_Cons)

lemma edited_snoc: "edited (w @ [c]) = (if takes_back c then butlast (edited w) else edited w @ [c])"
  by (simp add: edited_def)

lemma terminators_none: "terminators i s = [] \<Longrightarrow> list_all (\<lambda>c. \<not> is_newline c) s"
  by (induction i s rule: terminators.induct) (auto split: if_splits)

lemma terminators_one:
  "terminators i s = [(j, n)] \<Longrightarrow> i + length s \<le> j + n \<Longrightarrow>
    \<exists>u nl. s = u @ nl \<and> list_all (\<lambda>c. \<not> is_newline c) u \<and> line_end nl"
proof (induction i s rule: terminators.induct)
  case (2 i c)
  then show ?case by (intro exI [of _ "[]"] exI [of _ "[c]"]) (auto simp: line_end_def split: if_splits)
next
  case (3 i c d s)
  show ?case
  proof (cases "cu c = 13 \<and> cu d = 10")
    case True
    then have "s = []" using 3 by simp
    moreover have "line_end [c, d]" using True by (simp add: line_end_def char_eq_iff_cu)
    ultimately show ?thesis by (intro exI [of _ "[]"] exI [of _ "[c, d]"]) simp
  next
    case False
    have nl: "\<not> is_newline c" using 3(4,5) False by (auto split: if_splits)
    then obtain u nl where "d # s = u @ nl" "list_all (\<lambda>c. \<not> is_newline c) u" "line_end nl"
      using 3(3) [OF False nl] 3(4,5) False by auto
    then show ?thesis using nl by (intro exI [of _ "c # u"] exI [of _ nl]) simp
  qed
qed simp

lemma terminators_cons: "\<not> is_newline c \<Longrightarrow> terminators i (c # s) = terminators (Suc i) s"
  by (cases s) (auto simp: is_newline_def)

lemma terminators_single:
  "list_all (\<lambda>c. \<not> is_newline c) u \<Longrightarrow> terminators i (u @ nl) = terminators (i + length u) nl"
  by (induction u arbitrary: i) (simp_all add: terminators_cons)

lemma terminators_line_end: "line_end nl \<Longrightarrow> terminators i nl = [(i, length nl)]"
  by (auto simp: line_end_def)

text \<open>A text is dropped as pasted, or typed character by character.\<close>

lemma feed_cases:
  obtains (pasted) "feed s now c = resetLine c" "\<not> single_line s"
  | (typed) u nl where "feed s now c = feed_chars now None s c" "s = u @ nl" "list_all (\<lambda>c. \<not> is_newline c) u" "nl = [] \<or> line_end nl"
proof (cases "terminators 0 s")
  case Nil
  show thesis by (rule typed [of s "[]"]) (use Nil terminators_none [OF Nil] in \<open>auto simp: feed_def\<close>)
next
  case (Cons t rest)
  obtain i n where t: "t = (i, n)" by force
  show thesis
  proof (cases "rest \<noteq> [] \<or> i + n < length s")
    case True
    have "\<not> single_line s"
      using True Cons t terminators_single [of _ 0] terminators_single [of s 0 "[]"] terminators_line_end by (auto simp: single_line_def)
    then show thesis using pasted Cons True t by (cases "s = []") (auto simp: feed_def)
  next
    case False
    then obtain u nl where "s = u @ nl" "list_all (\<lambda>c. \<not> is_newline c) u" "line_end nl"
      using terminators_one [of 0 s i n] Cons t by auto
    then show thesis using typed [of u nl] Cons False t by (auto simp: feed_def)
  qed
qed

lemma feed_chars_append:
  "feed_chars now prev (a @ b) c = feed_chars now (if a = [] then prev else Some (last a)) b (feed_chars now prev a c)"
  by (induction a arbitrary: prev c) simp_all

text \<open>The line of a capture is what was typed since the line started.\<close>

definition line_state :: "string list \<Rightarrow> string \<Rightarrow> capture \<Rightarrow> bool" where
  "line_state ts u c \<longleftrightarrow> (\<exists>b w. concat ts @ u = b @ w \<and> line_start ts b \<and>
     (\<not> tc_unsafeLine c \<longrightarrow> list_all (\<lambda>c. 32 \<le> cu c \<or> takes_back c) w \<and> tc_buffer c = edited w))"

lemma line_state_fresh: "line_start ts (concat ts @ u) \<Longrightarrow> tc_buffer c = [] \<Longrightarrow> line_state ts u c"
  unfolding line_state_def by (intro exI [of _ "concat ts @ u"] exI [of _ "[]"]) (simp add: edited_def)

lemma line_state_key:
  assumes "line_state ts u c" "\<not> is_newline ch"
  shows "line_state ts (u @ [ch]) (feed_char now prev ch c)"
proof (cases "cu ch = 3 \<or> cu ch = 21")
  case True
  then show ?thesis using assms(2)
    by (intro line_state_fresh) (auto simp: line_start_def feed_char_def capture_reset_def resetLine_def)
next
  case False
  obtain b w where w: "concat ts @ u = b @ w" "line_start ts b"
      "\<not> tc_unsafeLine c \<longrightarrow> list_all (\<lambda>c. 32 \<le> cu c \<or> takes_back c) w \<and> tc_buffer c = edited w"
    using assms(1) unfolding line_state_def by blast
  have "\<not> tc_unsafeLine (feed_char now prev ch c) \<Longrightarrow>
      list_all (\<lambda>c. 32 \<le> cu c \<or> takes_back c) (w @ [ch]) \<and> tc_buffer (feed_char now prev ch c) = edited (w @ [ch])"
    using w(3) False assms(2) by (auto simp: feed_char_def takes_back_def edited_snoc split: if_splits)
  then show ?thesis using w(1,2) unfolding line_state_def by (intro exI [of _ b] exI [of _ "w @ [ch]"]) auto
qed

lemma line_state_keys:
  "line_state ts u c \<Longrightarrow> list_all (\<lambda>c. \<not> is_newline c) v \<Longrightarrow> line_state ts (u @ v) (feed_chars now prev v c)"
proof (induction v arbitrary: u c prev)
  case (Cons ch v)
  then show ?case using Cons.IH [of "u @ [ch]" "feed_char now prev ch c"] line_state_key [of ts u c ch now prev] by simp
qed simp

lemma line_state_text: "line_state ts s c \<Longrightarrow> line_state (ts @ [s]) [] c"
  unfolding line_state_def using line_start_later [of ts] by simp blast

text \<open>
  Every pending command was typed whole as a line and passed the filter; what is retained is the last part of what was
  shown, and the mark lies past what had been shown when the line was entered.
\<close>

definition entered :: "capture_event list \<Rightarrow> nat \<Rightarrow> pending_command \<Rightarrow> bool" where
  "entered h k p \<longleftrightarrow> (\<exists>h1 s h2. h = h1 @ Typed s (pc_queuedAt p) # h2 \<and> whole_line (typed_texts h1) s (pc_command p) \<and>
     length (shown_text h1) < k + pc_minimumMatchEnd p)"

definition pending_state :: "capture_event list \<Rightarrow> capture \<Rightarrow> bool" where
  "pending_state h c \<longleftrightarrow> (\<exists>k \<le> length (shown_text h). tc_output c = drop k (shown_text h) \<and> (\<forall>p \<in> set (tc_pending c). entered h k p))"

lemma entered_later: "entered h k p \<Longrightarrow> entered (h @ h') k p"
  unfolding entered_def by (metis append.assoc append_Cons)

lemma pending_later: "pending_state h c \<Longrightarrow> pending_state (h @ [Typed s t]) c"
  unfolding pending_state_def using entered_later by fastforce

lemma pending_fewer: "pending_state h c \<Longrightarrow> set (tc_pending c') \<subseteq> set (tc_pending c) \<Longrightarrow> tc_output c' = tc_output c \<Longrightarrow> pending_state h c'"
  unfolding pending_state_def by force

lemma pending_reset: "pending_state h (capture_reset c)"
  unfolding pending_state_def by (intro exI [of _ "length (shown_text h)"]) (simp add: capture_reset_def)

lemma pending_keys:
  "pending_state h c \<Longrightarrow> list_all (\<lambda>c. \<not> is_newline c) v \<Longrightarrow> pending_state h (feed_chars now prev v c)"
proof (induction v arbitrary: c prev)
  case (Cons ch v)
  then have "pending_state h (feed_char now prev ch c)"
    using pending_fewer [OF Cons.prems(1), of "feed_char now prev ch c"] by (auto simp: feed_char_def pending_reset)
  then show ?case using Cons by simp
qed simp

lemma pending_queue:
  assumes "pending_state h c" "whole_line (typed_texts h) s cmd"
  shows "pending_state (h @ [Typed s now]) (queue_command now cmd c)"
proof -
  obtain k where k: "k \<le> length (shown_text h)" "tc_output c = drop k (shown_text h)" "\<forall>p \<in> set (tc_pending c). entered h k p"
    using assms(1) unfolding pending_state_def by blast
  have "entered (h @ [Typed s now]) k p" if "p \<in> set (tc_pending (queue_command now cmd c))" for p
  proof -
    have "p \<in> set (tc_pending c) \<or> pc_command p = cmd \<and> pc_queuedAt p = now \<and> pc_minimumMatchEnd p = length (tc_output c) + 1"
      using that by (auto simp: queue_command_def prunePending_def Let_def dest: in_set_tl split: if_splits)
    then show ?thesis
    proof
      assume "p \<in> set (tc_pending c)"
      then show ?thesis using k(3) entered_later by blast
    next
      assume "pc_command p = cmd \<and> pc_queuedAt p = now \<and> pc_minimumMatchEnd p = length (tc_output c) + 1"
      then show ?thesis unfolding entered_def using assms(2) k(1,2)
        by (intro exI [of _ h] exI [of _ s] exI [of _ "[]"]) simp
    qed
  qed
  then show ?thesis unfolding pending_state_def using k(1,2)
    by (intro exI [of _ k]) (simp add: queue_command_def prunePending_def Let_def)
qed

lemma feed_line_end:
  assumes "line_end nl" "\<And>d. prev = Some d \<Longrightarrow> \<not> is_newline d"
  shows "feed_chars now prev nl c = resetLine
    (if \<not> tc_unsafeLine c \<and> isSafeCommandForHistory (trim (tc_buffer c)) then queue_command now (trim (tc_buffer c)) c else c)"
  using assms by (cases prev) (auto simp: line_end_def feed_char_def is_newline_def Let_def)

lemma feed_state:
  assumes "line_state (typed_texts h) [] c" "pending_state h c"
  shows "line_state (typed_texts (h @ [Typed s now])) [] (feed s now c) \<and> pending_state (h @ [Typed s now]) (feed s now c)"
proof (cases rule: feed_cases [where s = s and now = now and c = c])
  case pasted
  have "line_start (typed_texts h @ [s]) (concat (typed_texts h) @ s)"
    unfolding line_start_def using pasted(2) by blast
  then have "line_state (typed_texts h @ [s]) [] (resetLine c)"
    by (intro line_state_fresh) (simp_all add: resetLine_def)
  moreover have "pending_state (h @ [Typed s now]) (resetLine c)"
    by (rule pending_fewer [OF pending_later [OF assms(2)]]) (simp_all add: resetLine_def)
  ultimately show ?thesis by (simp add: pasted(1))
next
  case (typed u nl)
  define d where "d = feed_chars now None u c"
  have line: "line_state (typed_texts h) u d" using line_state_keys [OF assms(1) typed(3)] by (simp add: d_def)
  have pend: "pending_state h d" unfolding d_def by (rule pending_keys [OF assms(2) typed(3)])
  show ?thesis
  proof (cases "nl = []")
    case True
    then show ?thesis using line_state_text [OF line] pending_later [OF pend] typed(1,2) by (simp add: d_def)
  next
    case False
    then have nl: "line_end nl" using typed(4) by simp
    have f0: "feed s now c = feed_chars now (if u = [] then None else Some (last u)) nl d"
      using typed(1) by (simp only: typed(2) feed_chars_append d_def)
    have f: "feed s now c = resetLine
        (if \<not> tc_unsafeLine d \<and> isSafeCommandForHistory (trim (tc_buffer d)) then queue_command now (trim (tc_buffer d)) d else d)"
      unfolding f0 using typed(3) by (intro feed_line_end [OF nl]) (auto simp: list_all_iff split: if_splits)
    have "line_start (typed_texts h @ [s]) (concat (typed_texts h) @ s)"
      using nl typed(2) by (auto simp: line_start_def line_end_def is_newline_def)
    then have "line_state (typed_texts (h @ [Typed s now])) [] (feed s now c)"
      unfolding f by (intro line_state_fresh) (simp_all add: resetLine_def)
    moreover have "pending_state (h @ [Typed s now]) (feed s now c)"
    proof (cases "\<not> tc_unsafeLine d \<and> isSafeCommandForHistory (trim (tc_buffer d))")
      case True
      obtain b w where "concat (typed_texts h) @ u = b @ w" "line_start (typed_texts h) b"
          "list_all (\<lambda>c. 32 \<le> cu c \<or> takes_back c) w" "tc_buffer d = edited w"
        using line True unfolding line_state_def by blast
      then have "whole_line (typed_texts h) s (trim (tc_buffer d))"
        unfolding whole_line_def using typed(2,3) nl by metis
      from pending_queue [OF pend this] show ?thesis unfolding f using True
        by (intro pending_fewer [OF pending_queue [OF pend \<open>whole_line (typed_texts h) s (trim (tc_buffer d))\<close>, of now]])
          (simp_all add: resetLine_def)
    next
      case False
      show ?thesis unfolding f using False by (intro pending_fewer [OF pending_later [OF pend]]) (auto simp: resetLine_def)
    qed
    ultimately show ?thesis by blast
  qed
qed

lemma entered_shift: "entered h k p \<Longrightarrow> entered h (k + n) (shift_pending n p)"
  unfolding entered_def shift_pending_def by fastforce

lemma observe_append_state:
  assumes "pending_state h c"
  shows "pending_state (h @ [Shown out t]) (observe_append out c)"
proof -
  obtain k where k: "k \<le> length (shown_text h)" "tc_output c = drop k (shown_text h)" "\<forall>p \<in> set (tc_pending c). entered h k p"
    using assms unfolding pending_state_def by blast
  have all: "tc_output c @ out = drop k (shown_text h @ out)" using k(1,2) by simp
  let ?n = "length (drop k (shown_text h @ out)) - MAX_OUTPUT_CHARS"
  have "\<forall>p \<in> set (tc_pending (observe_append out c)). entered (h @ [Shown out t]) (k + ?n) p"
    using k(3) entered_shift entered_later by (auto simp: observe_append_def Let_def all)
  moreover have "tc_output (observe_append out c) = drop (k + ?n) (shown_text (h @ [Shown out t]))"
    unfolding observe_append_def Let_def capture.simps all drop_drop by (simp add: add.commute)
  ultimately show ?thesis unfolding pending_state_def using k(1,2) by (intro exI [of _ "k + ?n"]) auto
qed

lemma observe_state:
  assumes "pending_state h c" "capture_ok c" "observeOutput out now c = (cs, c')"
  shows "pending_state (h @ [Shown out t]) c'"
proof (cases "out = []")
  case True
  then show ?thesis using assms(1,3) entered_later [of h _ _ "[Shown out t]"] unfolding pending_state_def observeOutput_def by fastforce
next
  case False
  define d where "d = prunePending now (observe_append out c)"
  obtain rs k where k: "confirm (tc_output d) 0 (tc_pending d) = (cs, rs, k)"
      "c' = d\<lparr>tc_pending := map (shift_pending k) rs, tc_output := drop k (tc_output d)\<rparr>"
    using assms(3) False by (auto simp: observeOutput_def Let_def d_def split: prod.splits)
  have "pending_state (h @ [Shown out t]) d"
    by (rule pending_fewer [OF observe_append_state [OF assms(1)]]) (auto simp: d_def prunePending_def)
  then obtain j where j: "j \<le> length (shown_text (h @ [Shown out t]))" "tc_output d = drop j (shown_text (h @ [Shown out t]))"
      "\<forall>p \<in> set (tc_pending d). entered (h @ [Shown out t]) j p"
    unfolding pending_state_def by blast
  have "capture_ok d" using assms(2) by (simp add: d_def capture_ok_prune observe_append_ok)
  then have rs: "set rs \<subseteq> set (tc_pending d)" "k \<le> length (tc_output d)"
    using confirm_sound [OF k(1)] by (auto simp: capture_ok_def)
  have "\<forall>p \<in> set (tc_pending c'). entered (h @ [Shown out t]) (j + k) p"
    using j(3) rs(1) entered_shift by (auto simp: k(2))
  moreover have "tc_output c' = drop (j + k) (shown_text (h @ [Shown out t]))"
    by (simp add: k(2) j(2) add.commute del: log_append)
  moreover have "j + k \<le> length (shown_text (h @ [Shown out t]))" using rs(2) j(1,2) by simp
  ultimately show ?thesis unfolding pending_state_def by blast
qed

lemma captured_state: "captured h c \<Longrightarrow> line_state (typed_texts h) [] c \<and> pending_state h c"
proof (induction rule: captured.induct)
  case new
  show ?case by (auto simp: capture_new_def line_start_def pending_state_def intro!: line_state_fresh)
next
  case (typed h c input now)
  then show ?case using feed_state by blast
next
  case (observed h c out now cs c')
  have "tc_buffer c' = tc_buffer c" "tc_unsafeLine c' = tc_unsafeLine c"
    using observed(2) by (auto simp: observeOutput_def observe_append_def prunePending_def Let_def split: if_splits prod.splits)
  then show ?case using observed(3) observe_state [OF _ captured_ok [OF observed(1)] observed(2)] by (simp add: line_state_def)
next
  case (reset h c)
  show ?case using pending_reset [of "[]" c] by (auto simp: capture_reset_def resetLine_def line_start_def intro!: line_state_fresh)
qed

text \<open>
  C35: Whatever was typed and shown since the capture was made or reset, a command handed to the history passes the filter and
  was typed whole: from the start of a line to the line end that entered it, at most 15 seconds ago, only printable
  characters and keys that take one back were typed, and they spell the command; and the terminal has shown the command
  followed by a line end, ending after everything it had shown when the line was entered.
\<close>

theorem captured_commands_echoed:
  assumes "captured h c" "observeOutput out now c = (cs, c')" "cmd \<in> set cs"
  shows "isSafeCommandForHistory cmd \<and> (\<exists>h1 s t h2. h = h1 @ Typed s t # h2 \<and> now - t \<le> CANDIDATE_TTL_MS \<and>
    whole_line (typed_texts h1) s cmd \<and>
    (\<exists>pre nl post. shown_text h @ out = pre @ cmd @ nl @ post \<and> line_end nl \<and> length (shown_text h1) < length (pre @ cmd @ nl)))"
proof -
  have ne: "out \<noteq> []" using assms(2,3) by (auto simp: observeOutput_def)
  define d where "d = prunePending now (observe_append out c)"
  obtain rs k where k: "confirm (tc_output d) 0 (tc_pending d) = (cs, rs, k)"
    using assms(2) ne by (auto simp: observeOutput_def Let_def d_def split: prod.splits)
  have d: "capture_ok d" using captured_ok [OF assms(1)] by (simp add: d_def capture_ok_prune observe_append_ok)
  have "pending_state (h @ [Shown out now]) d"
    by (rule pending_fewer [OF observe_append_state [OF captured_state [OF assms(1), THEN conjunct2], of out now]])
      (auto simp: d_def prunePending_def)
  then obtain j where j: "j \<le> length (shown_text h @ out)" "tc_output d = drop j (shown_text h @ out)"
      "\<forall>p \<in> set (tc_pending d). entered (h @ [Shown out now]) j p"
    unfolding pending_state_def by auto
  obtain p pre nl post where p: "p \<in> set (tc_pending d)" "pc_command p = cmd" "tc_output d = pre @ cmd @ nl @ post" "line_end nl"
      "pc_minimumMatchEnd p \<le> length (pre @ cmd @ nl)"
    using confirm_sound [OF k] d assms(3) by (fastforce simp: capture_ok_def)
  obtain h1 s h2 where h: "h @ [Shown out now] = h1 @ Typed s (pc_queuedAt p) # h2" "whole_line (typed_texts h1) s cmd"
      "length (shown_text h1) < j + pc_minimumMatchEnd p"
    using j(3) p(1,2) unfolding entered_def by blast
  obtain h3 where "h = h1 @ Typed s (pc_queuedAt p) # h3" using h(1) by (cases h2 rule: rev_cases) auto
  moreover have "now - pc_queuedAt p \<le> CANDIDATE_TTL_MS" using p(1) by (auto simp: d_def prunePending_def)
  moreover have "shown_text h @ out = (take j (shown_text h @ out) @ pre) @ cmd @ nl @ post"
    using p(3) j(2) by (metis append.assoc append_take_drop_id)
  moreover have "length (shown_text h1) < length ((take j (shown_text h @ out) @ pre) @ cmd @ nl)"
    using h(3) p(5) j(1) by simp
  moreover have "isSafeCommandForHistory cmd" using d p(1,2) by (auto simp: capture_ok_def)
  ultimately show ?thesis using h(2) p(4) by blast
qed

section \<open>What the filter keeps out\<close>

lemma ends_alts: "j \<in> set (ends (alts rs) s i) \<longleftrightarrow> (\<exists>r \<in> set rs. j \<in> set (ends r s i))"
  by (induction rs rule: alts.induct) auto

lemma ends_rx_lit_i:
  "map fold_char w = v \<Longrightarrow> drop i s = w @ t \<Longrightarrow> i \<le> length s \<Longrightarrow> i + length w \<in> set (ends (rx_lit_i v) s i)"
proof (induction w arbitrary: v i)
  case (Cons c w)
  have i: "i < length s" "s ! i = c" "drop (Suc i) s = w @ t"
    using Cons.prems(2,3) by (metis Cons_eq_appendI drop_all list.distinct(1) not_le, metis Cons_eq_appendI nth_via_drop,
        metis Cons_eq_appendI drop_Suc list.sel(3) tl_drop)
  then show ?case using Cons.IH [of "map fold_char w" "Suc i"] Cons.prems(1) by auto
qed auto

text \<open>
  C39: A command the filter lets through contains no secret option (\<open>--password\<close>, \<open>--passphrase\<close>, \<open>--token\<close>, \<open>--secret\<close>,
  \<open>--api-key\<close> or \<open>--access-key\<close>, in either case of letters) that an equals sign or white space follows, no URL with a
  user name and password, and no control character but the tabulator.
\<close>

theorem safe_commands_hold_no_secrets:
  assumes "isSafeCommandForHistory c"
  shows "(\<nexists>a flag sep b. c = a @ ''--'' @ flag @ sep # b \<and> map fold_char flag \<in> set secret_flags \<and> (sep = CHR ''='' \<or> is_ws sep)) \<and>
    (\<nexists>a user password b. c = a @ ''://'' @ user @ '':'' @ password @ ''@'' @ b \<and> user \<noteq> [] \<and> password \<noteq> [] \<and>
      list_all url_user_char user \<and> list_all url_password_char password) \<and>
    list_all (\<lambda>ch. (32 \<le> cu ch \<and> cu ch \<noteq> 127) \<or> cu ch = 9) c"
proof (intro conjI notI)
  assume "\<exists>a flag sep b. c = a @ ''--'' @ flag @ sep # b \<and> map fold_char flag \<in> set secret_flags \<and> (sep = CHR ''='' \<or> is_ws sep)"
  then obtain a flag sep b where c: "c = a @ ''--'' @ flag @ sep # b" "map fold_char flag \<in> set secret_flags"
    "sep = CHR ''='' \<or> is_ws sep" by blast
  let ?i = "length a"
  have "?i + 2 \<in> set (ends (rx_lit ''--'') c ?i)"
    using ends_rx_lit [of ?i c "''--''"] by (simp add: c(1) starts_with_def del: rx_lit.simps)
  moreover have "?i + 2 + length flag \<in> set (ends (alts (map rx_lit_i secret_flags)) c (?i + 2))"
    unfolding ends_alts using c(2) ends_rx_lit_i [OF refl, of "?i + 2" c flag "sep # b"] by (auto simp: c(1))
  moreover have "?i + 2 + length flag + 1 \<in> set (ends (Alt (rx_lit ''='') spaces1) c (?i + 2 + length flag))"
    using c(3)
  proof
    assume "sep = CHR ''=''"
    then show ?thesis using ends_rx_lit [of "?i + 2 + length flag" c "''=''"] by (simp add: c(1) starts_with_def del: rx_lit.simps)
  next
    assume "is_ws sep"
    then have "?i + 2 + length flag + 1 \<in> set (ends spaces1 c (?i + 2 + length flag))"
      unfolding spaces1_def
    proof (intro ends_plus_class)
      fix k assume "?i + 2 + length flag \<le> k" "k < ?i + 2 + length flag + 1"
      then have "k = ?i + 2 + length flag" by simp
      then show "is_ws (c ! k)" using \<open>is_ws sep\<close> by (simp add: c(1) nth_append)
    qed (simp_all add: c(1))
    then show ?thesis by simp
  qed
  ultimately have "?i + 2 + length flag + 1 \<in> set (ends SENSITIVE_FLAG c ?i)"
    unfolding SENSITIVE_FLAG_def seqs.simps by (blast intro: ends_seq)
  then have "rx_test SENSITIVE_FLAG c" by (rule rx_test_mem) (simp add: c(1))
  then show False using assms by (simp add: isSafeCommandForHistory_def)
next
  assume "\<exists>a user password b. c = a @ ''://'' @ user @ '':'' @ password @ ''@'' @ b \<and> user \<noteq> [] \<and> password \<noteq> [] \<and>
      list_all url_user_char user \<and> list_all url_password_char password"
  then obtain a user password b where c: "c = a @ ''://'' @ user @ '':'' @ password @ ''@'' @ b" "user \<noteq> []" "password \<noteq> []"
      "list_all url_user_char user" "list_all url_password_char password" by blast
  define i1 i2 where "i1 = length a + 3" and "i2 = i1 + length user"
  define x y where "x = a @ ''://'' @ user" and "y = x @ '':'' @ password"
  have cx: "c = x @ '':'' @ password @ ''@'' @ b" "length x = i2" by (simp_all add: x_def c(1) i1_def i2_def)
  have cy: "c = y @ ''@'' @ b" "length y = i2 + 1 + length password" by (simp_all add: y_def cx)
  have "drop i2 c = '':'' @ password @ ''@'' @ b" unfolding cx(1) cx(2) [symmetric] by simp
  then have d2: "starts_with '':'' (drop i2 c)" "i2 \<le> length c" using cx by (simp_all add: starts_with_def)
  have "drop (i2 + 1 + length password) c = ''@'' @ b" unfolding cy(1) cy(2) [symmetric] by simp
  then have d3: "starts_with ''@'' (drop (i2 + 1 + length password) c)" "i2 + 1 + length password \<le> length c"
    using cy by (simp_all add: starts_with_def)
  have "i1 \<in> set (ends (rx_lit ''://'') c (length a))"
    using ends_rx_lit [of "length a" c "''://''"] by (simp add: c(1) starts_with_def i1_def del: rx_lit.simps)
  moreover have "i2 \<in> set (ends (Plus (Cc url_user_char)) c i1)"
    using c(2,4) by (intro ends_plus_class) (auto simp: i1_def i2_def c(1) nth_append list_all_length)
  moreover have "i2 + 1 \<in> set (ends (rx_lit '':'') c i2)"
    using ends_rx_lit [OF d2(2), of "'':''"] d2(1) by (simp del: rx_lit.simps)
  moreover have "i2 + 1 + length password \<in> set (ends (Plus (Cc url_password_char)) c (i2 + 1))"
    using c(3,5) by (intro ends_plus_class) (auto simp: i1_def i2_def c(1) nth_append list_all_length)
  moreover have "i2 + 1 + length password + 1 \<in> set (ends (rx_lit ''@'') c (i2 + 1 + length password))"
    using ends_rx_lit [OF d3(2), of "''@''"] d3(1) by (simp del: rx_lit.simps)
  ultimately have "i2 + 1 + length password + 1 \<in> set (ends url_credentials c (length a))"
    unfolding url_credentials_def seqs.simps by (blast intro: ends_seq)
  then have "rx_test url_credentials c" by (rule rx_test_mem) (simp add: c(1))
  then show False using assms by (simp add: isSafeCommandForHistory_def)
next
  show "list_all (\<lambda>ch. (32 \<le> cu ch \<and> cu ch \<noteq> 127) \<or> cu ch = 9) c"
    using assms by (auto simp: isSafeCommandForHistory_def forbidden_control_def list_ex_iff list_all_iff)
qed

section \<open>Shell history\<close>

definition MAX_HISTORY_COMMAND_CHARS :: nat where "MAX_HISTORY_COMMAND_CHARS = 768"

text \<open>The limit is a finite number; \<open>Math.floor\<close> and the clamp.\<close>

definition safe_limit :: "rat \<Rightarrow> nat" where
  "safe_limit n = nat (max 1 (min 50 \<lfloor>n\<rfloor>))"

definition shellHistoryCommand :: "rat \<Rightarrow> string" where
  "shellHistoryCommand limit =
     (let q = [char_of (34 :: nat)]; file = q @ ''$HOME/.bash_history'' @ q in
      ''if [ -r '' @ file @ '' ]; then tail -n '' @ show_nat (safe_limit limit * 2 + 20) @ '' -- '' @ file @ ''; fi'')"

text \<open>\<open>raw.split(/\r?\n/)\<close>\<close>

fun split_lines :: "string \<Rightarrow> string list" where
  "split_lines [] = [[]]"
| "split_lines (c # s) =
     (if cu c = 10 then [] # split_lines s
      else if cu c = 13 \<and> s \<noteq> [] \<and> cu (hd s) = 10 then [] # split_lines (tl s)
      else (case split_lines s of [] \<Rightarrow> [[c]] | w # ws \<Rightarrow> (c # w) # ws))"

text \<open>\<open>/^#(\d{9,11})$/\<close>: the digits.\<close>

definition history_timestamp :: "string \<Rightarrow> string option" where
  "history_timestamp line =
     (case line of c # ds \<Rightarrow> if c = CHR ''#'' \<and> 9 \<le> length ds \<and> length ds \<le> 11 \<and> list_all is_digit ds then Some ds else None
      | [] \<Rightarrow> None)"

text \<open>\<open>isoDate ms\<close> is the ISO text of a time, \<open>None\<close> where the date is invalid.\<close>

fun history_loop :: "(int \<Rightarrow> string option) \<Rightarrow> string list \<Rightarrow> string option \<Rightarrow> history_entry list" where
  "history_loop isoDate [] executedAt = []"
| "history_loop isoDate (rawLine # rest) executedAt =
     (case history_timestamp rawLine of
        Some ds \<Rightarrow> history_loop isoDate rest (isoDate (int (dec_val ds) * 1000))
      | None \<Rightarrow>
          let command = trim rawLine; entries = history_loop isoDate rest None in
          if length command \<le> MAX_HISTORY_COMMAND_CHARS \<and> isSafeCommandForHistory command
          then \<lparr>he_command = command, he_executedAt = executedAt\<rparr> # entries else entries)"

definition parseBashHistory :: "(int \<Rightarrow> string option) \<Rightarrow> string \<Rightarrow> rat \<Rightarrow> history_entry list" where
  "parseBashHistory isoDate raw limit =
     (let entries = history_loop isoDate (split_lines raw) None
      in rev (drop (length entries - safe_limit limit) entries))"

lemma history_loop_entries:
  "e \<in> set (history_loop isoDate ls stamp) \<Longrightarrow>
    length (he_command e) \<le> MAX_HISTORY_COMMAND_CHARS \<and> isSafeCommandForHistory (he_command e) \<and>
    (he_executedAt e = stamp \<or> he_executedAt e = None \<or> (\<exists>n. he_executedAt e = isoDate n))"
  by (induction isoDate ls stamp rule: history_loop.induct) (auto simp: Let_def split: option.splits if_splits)

text \<open>
  C40: Whatever the remote shell returns and whatever limit is asked for, the history handed to the browser has between
  0 and 50 entries and no more than the limit, every entry passes the filter of the command history, and the list is one the
  schema of the reply accepts, given that the printed dates are dates.
\<close>

theorem shell_history_accepted:
  assumes "\<And>n t. isoDate n = Some t \<Longrightarrow> z_datetime z t"
  shows "ServerShellHistoryResultMessageSchema z (parseBashHistory isoDate raw limit) \<and>
    length (parseBashHistory isoDate raw limit) \<le> safe_limit limit \<and>
    list_all (\<lambda>e. isSafeCommandForHistory (he_command e)) (parseBashHistory isoDate raw limit)"
proof -
  have lim: "safe_limit limit \<le> 50" by (simp add: safe_limit_def nat_le_iff)
  have len: "length (parseBashHistory isoDate raw limit) \<le> safe_limit limit"
    by (simp add: parseBashHistory_def Let_def)
  have "ShellHistoryEntrySchema z e \<and> isSafeCommandForHistory (he_command e)"
    if "e \<in> set (parseBashHistory isoDate raw limit)" for e
  proof -
    have "e \<in> set (history_loop isoDate (split_lines raw) None)"
      using that by (auto simp: parseBashHistory_def Let_def dest: in_set_dropD)
    from history_loop_entries [OF this] have h: "length (he_command e) \<le> 768" "isSafeCommandForHistory (he_command e)"
        "he_executedAt e = None \<or> (\<exists>n. he_executedAt e = isoDate n)"
      by (auto simp: MAX_HISTORY_COMMAND_CHARS_def)
    have "z_datetime z t" if "he_executedAt e = Some t" for t
      using h(3) that by (metis assms option.distinct(1))
    then have "opt_ok (z_datetime z) (he_executedAt e)" by (cases "he_executedAt e") simp_all
    then show ?thesis using h(1,2) by (auto simp: ShellHistoryEntrySchema_def len_ok_def isSafeCommandForHistory_def Suc_le_eq)
  qed
  then show ?thesis
    using len lim by (auto simp: ServerShellHistoryResultMessageSchema_def list_all_iff)
qed

lemma shell_history_accepted_witness:
  "ServerShellHistoryResultMessageSchema demo_zod (parseBashHistory (\<lambda>n. Some ''t'') ''ls'' 5) \<and>
    length (parseBashHistory (\<lambda>n. Some ''t'') ''ls'' 5) \<le> 5"
  using shell_history_accepted [of "\<lambda>n. Some ''t''" demo_zod "''ls''" 5] by (simp add: demo_zod_def safe_limit_def)

section \<open>Examples\<close>

definition cr :: char where "cr = char_of (13 :: nat)"

definition demo_typed :: capture where
  "demo_typed = feed [CHR ''l'', CHR ''s'', cr] 1000 capture_new"

lemma demo_safe: "isSafeCommandForHistory ''ls''"
  by code_simp

lemma cr_newline: "is_newline cr" "cu cr = 13"
  by (simp_all add: cr_def is_newline_def)

lemma demo_observed:
  "observeOutput [CHR ''l'', CHR ''s'', cr] 1001 demo_typed = ([''ls''], (snd (observeOutput [CHR ''l'', CHR ''s'', cr] 1001 demo_typed)))"
  "tc_pending demo_typed = [\<lparr>pc_command = ''ls'', pc_queuedAt = 1000, pc_searchFrom = 0, pc_minimumMatchEnd = 1\<rparr>]"
  by (simp_all add: demo_typed_def feed_def capture_new_def feed_char_def cr_newline is_newline_def queue_command_def trim_def is_ws_def
      demo_safe resetLine_def prunePending_def observeOutput_def observe_append_def MAX_OUTPUT_CHARS_def shift_pending_def match_end_def
      echo_at_def starts_with_def Let_def MAX_CAPTURED_COMMAND_CHARS_def MAX_PENDING_COMMANDS_def CANDIDATE_TTL_MS_def)

lemma demo_captured: "captured [Typed [CHR ''l'', CHR ''s'', cr] 1000] demo_typed"
  unfolding demo_typed_def using captured.typed [OF captured.new, of "[CHR ''l'', CHR ''s'', cr]" 1000] by simp

lemma captured_commands_echoed_witness:
  "isSafeCommandForHistory ''ls'' \<and> (\<exists>h1 s t h2. [Typed [CHR ''l'', CHR ''s'', cr] 1000] = h1 @ Typed s t # h2 \<and> 1001 - t \<le> CANDIDATE_TTL_MS \<and>
    whole_line (typed_texts h1) s ''ls'' \<and>
    (\<exists>pre nl post. shown_text [Typed [CHR ''l'', CHR ''s'', cr] 1000] @ [CHR ''l'', CHR ''s'', cr] = pre @ ''ls'' @ nl @ post \<and> line_end nl \<and>
      length (shown_text h1) < length (pre @ ''ls'' @ nl)))"
  by (rule captured_commands_echoed [OF demo_captured demo_observed(1)]) simp

text \<open>
  A pasted text that ends inside a line is forgotten, that end included, and what is typed after it is taken for a line of
  its own: after the paste of \<open>x\<close> and of \<open>export TOKEN=\<close> on the next line, the typed value is reported as a command, and
  no filter sees the name it belongs to.
\<close>

definition demo_pasted :: capture where
  "demo_pasted = feed (CHR ''x'' # char_of (10 :: nat) # ''export TOKEN='') 1000 capture_new"

lemma demo_pasted_fresh: "demo_pasted = capture_new"
  by (simp add: demo_pasted_def feed_def is_newline_def resetLine_def capture_new_def)

lemma pasted_line_splits:
  "prod.fst (observeOutput (''export TOKEN=ls'' @ [cr]) 1002 (feed [CHR ''l'', CHR ''s'', cr] 1001 demo_pasted)) = [''ls'']"
  unfolding demo_pasted_fresh
  by (simp add: feed_def capture_new_def feed_char_def cr_newline is_newline_def queue_command_def trim_def is_ws_def
      demo_safe resetLine_def prunePending_def observeOutput_def observe_append_def MAX_OUTPUT_CHARS_def shift_pending_def match_end_def
      echo_at_def starts_with_def Let_def MAX_CAPTURED_COMMAND_CHARS_def MAX_PENDING_COMMANDS_def CANDIDATE_TTL_MS_def)

lemma safe_commands_hold_no_secrets_witness: "list_all (\<lambda>ch. (32 \<le> cu ch \<and> cu ch \<noteq> 127) \<or> cu ch = 9) ''ls''"
  using safe_commands_hold_no_secrets [OF demo_safe] by blast

end
