(* ===== verification/Ssh_Types.thy ===== *)
theory Ssh_Types
  imports Wb_Prelude
begin

text \<open>The data of the SSH side of the Worker: \<open>apps/worker/src/ssh/types.ts\<close>.\<close>

datatype authentication = Auth_Password string | Auth_Private_Key string "string option" | Auth_Tailscale

record connection_profile =
  cp_ownerId :: string
  cp_profileId :: string
  cp_profileName :: string
  cp_host :: string
  cp_port :: int
  cp_username :: string
  cp_authentication :: authentication
  cp_collectHistory :: bool
  cp_collectCommands :: bool
  cp_expectedFingerprint :: "string option"

record terminal_options =
  to_cols :: rat
  to_rows :: rat
  to_term :: string

record host_key_reference =
  hr_ownerId :: string
  hr_profileId :: string
  hr_host :: string
  hr_port :: int

record host_key_record = host_key_reference +
  hk_fingerprint :: string
  hk_keyType :: string
  hk_keyBlob :: string
  hk_pinnedAt :: string

record host_key_decision =
  hd_fingerprint :: string
  hd_accept :: bool
  hd_remember :: bool

datatype engine_event =
    Ev_Status string string
  | Ev_Banner string
  | Ev_Output string
  | Ev_Host_Key string string bool "string option"
  | Ev_Handshake bool string string string string string string
  | Ev_Error string string
  | Ev_Closed string

datatype engine_phase = Idle | Connecting | Ready | Closed

definition demo_profile :: connection_profile where
  "demo_profile = \<lparr>cp_ownerId = ''o'', cp_profileId = ''p'', cp_profileName = ''n'', cp_host = ''h'', cp_port = 22,
     cp_username = ''u'', cp_authentication = Auth_Password ''x'', cp_collectHistory = True, cp_collectCommands = True,
     cp_expectedFingerprint = None\<rparr>"

lemma demo_profile_simps [simp]:
  "cp_ownerId demo_profile = ''o''" "cp_profileId demo_profile = ''p''" "cp_profileName demo_profile = ''n''"
  "cp_host demo_profile = ''h''" "cp_port demo_profile = 22" "cp_username demo_profile = ''u''"
  "cp_authentication demo_profile = Auth_Password ''x''" "cp_collectHistory demo_profile" "cp_collectCommands demo_profile"
  "cp_expectedFingerprint demo_profile = None"
  by (simp_all add: demo_profile_def)

end
