(* ===== verification/Redaction.thy ===== *)
theory Redaction
  imports Js_Regex
begin

text \<open>
  The redaction of commands and event messages before they are stored (\<open>redactCommand\<close> and \<open>safeEventMessage\<close> of
  \<open>apps/worker/src/storage/history.ts\<close>). A replacement with groups is the list of the group boundaries of its matches in
  the matcher's order; \<open>replace_all\<close> walks over the text as \<open>String.prototype.replace\<close> with a global expression does.
\<close>

section \<open>Replacement\<close>

text \<open>\<open>m i\<close>: where the match that starts at \<open>i\<close> ends and what replaces it. No match of the program is empty.\<close>

fun replace_loop :: "(nat \<Rightarrow> (nat \<times> string) option) \<Rightarrow> string \<Rightarrow> nat \<Rightarrow> nat \<Rightarrow> string" where
  "replace_loop m s i 0 = drop i s"
| "replace_loop m s i (Suc fuel) =
     (if i \<ge> length s then []
      else case m i of
        None \<Rightarrow> s ! i # replace_loop m s (Suc i) fuel
      | Some (e, r) \<Rightarrow> r @ replace_loop m s e fuel)"

definition replace_all :: "(string \<Rightarrow> nat \<Rightarrow> (nat \<times> string) option) \<Rightarrow> string \<Rightarrow> string" where
  "replace_all m s = replace_loop (m s) s 0 (Suc (length s))"

definition slice :: "nat \<Rightarrow> nat \<Rightarrow> string \<Rightarrow> string" where
  "slice a b s = take (b - a) (drop a s)"

definition first_of :: "'a list \<Rightarrow> 'a option" where
  "first_of xs = (case xs of [] \<Rightarrow> None | x # _ \<Rightarrow> Some x)"

section \<open>The expressions\<close>

definition dq :: char where "dq = char_of (34 :: nat)"
definition sq :: char where "sq = char_of (39 :: nat)"

definition secret_value :: rx where
  "secret_value = alts [seqs [chr_is dq, Star (Cc (\<lambda>c. c \<noteq> dq)), chr_is dq],
     seqs [chr_is sq, Star (Cc (\<lambda>c. c \<noteq> sq)), chr_is sq], Plus non_space]"

definition secret_name :: rx where
  "secret_name = alts [rx_lit_i ''password'', rx_lit_i ''passwd'', rx_lit_i ''passphrase'', rx_lit_i ''token'', rx_lit_i ''secret'',
     seqs [rx_lit_i ''api'', Opt (one_of ''_-''), rx_lit_i ''key''],
     seqs [rx_lit_i ''access'', Opt (one_of ''_-''), rx_lit_i ''key''], rx_lit_i ''authorization'']"

text \<open>\<open>SECRET_ASSIGNMENT\<close>: the name and the separator are kept.\<close>

definition secret_assignment :: "string \<Rightarrow> nat \<Rightarrow> (nat \<times> string) option" where
  "secret_assignment s i = map_option (\<lambda>(a, b, c, d, e). (e, slice a b s @ slice c d s @ ''[REDACTED]''))
     (first_of [(a, b, c, d, e). a \<leftarrow> ends Word_Boundary s i, b \<leftarrow> ends secret_name s a, c \<leftarrow> ends spaces s b,
        d \<leftarrow> ends (one_of ''=:'') s c, v \<leftarrow> ends spaces s d, e \<leftarrow> ends secret_value s v])"

definition keep_group :: "rx \<Rightarrow> rx \<Rightarrow> string \<Rightarrow> nat \<Rightarrow> (nat \<times> string) option" where
  "keep_group kept rest s i = map_option (\<lambda>(a, e). (e, slice i a s @ ''[REDACTED]''))
     (first_of [(a, e). a \<leftarrow> ends kept s i, e \<leftarrow> ends rest s a])"

definition secret_flag :: rx where
  "secret_flag = seqs [rx_lit ''--'', alts [rx_lit_i ''password'', rx_lit_i ''passphrase'', rx_lit_i ''token'', rx_lit_i ''secret'',
     rx_lit_i ''api-key'', rx_lit_i ''access-key''], Alt (rx_lit ''='') spaces1]"

definition curl_user :: rx where
  "curl_user = seqs [Word_Boundary, rx_lit_i ''curl'', Word_Boundary, Star_Lazy (Cc (\<lambda>c. cu c \<noteq> 10)),
     Alt (rx_lit_i ''-u'') (rx_lit_i ''--user''), Alt (rx_lit ''='') spaces1]"

definition authorization_prefix :: rx where
  "authorization_prefix = seqs [Word_Boundary, rx_lit_i ''authorization'', spaces, rx_lit '':'', spaces]"

definition authorization_value :: rx where
  "authorization_value = seqs [Alt (rx_lit_i ''bearer'') (rx_lit_i ''basic''), spaces1, Plus non_space]"

definition key_block :: rx where
  "key_block = seqs [rx_lit_i ''-----begin '', Star (Cc (\<lambda>c. letter c \<or> c = CHR '' '')), rx_lit_i ''private key-----'']"

definition password_tool :: rx where
  "password_tool = seqs [Word_Boundary, Alt (rx_lit_i ''sshpass'') (rx_lit_i ''set-password''), Word_Boundary]"

definition mysql_option :: rx where
  "mysql_option = seqs [Word_Boundary, rx_lit_i ''mysql'', Word_Boundary, Star (Cc (\<lambda>c. cu c \<noteq> 10)), Cc is_ws,
     rx_lit_i ''-p'', Plus non_space]"

section \<open>The operations\<close>

definition redactCommand :: "string \<Rightarrow> string throws" where
  "redactCommand command =
     (let trimmed = take 8192 (trim command) in
      if trimmed = [] then Inl ''Command is empty''
      else if rx_test key_block trimmed \<or> rx_test password_tool trimmed \<or> rx_test mysql_option trimmed then Inr ''[REDACTED]''
      else Inr (replace_all (keep_group authorization_prefix authorization_value)
             (replace_all (keep_group curl_user (Plus non_space))
               (replace_all (keep_group secret_flag secret_value)
                 (replace_all secret_assignment trimmed)))))"

definition safeEventMessage :: "string \<Rightarrow> string throws" where
  "safeEventMessage message =
     (let v = take 512 (trim message) in
      if v = [] then Inl ''Session event message is empty'' else Inr (replace_all secret_assignment v))"

text \<open>Text without a separator of an assignment passes unchanged.\<close>

lemma secret_assignment_none:
  assumes "CHR ''='' \<notin> set s" "CHR '':'' \<notin> set s"
  shows "secret_assignment s i = None"
proof -
  have "ends (one_of ''=:'') s c = []" for c
    using assms nth_mem by (fastforce simp: one_of_def)
  then have "[(a, b, c, d, e). a \<leftarrow> ends Word_Boundary s i, b \<leftarrow> ends secret_name s a, c \<leftarrow> ends spaces s b,
        d \<leftarrow> ends (one_of ''=:'') s c, v \<leftarrow> ends spaces s d, e \<leftarrow> ends secret_value s v] = []"
    by simp
  then show ?thesis unfolding secret_assignment_def by (simp only: first_of_def) simp
qed

lemma replace_loop_none: "(\<And>i. m i = None) \<Longrightarrow> replace_loop m s i fuel = drop i s"
  by (induction fuel arbitrary: i) (simp_all add: Cons_nth_drop_Suc)

lemma replace_all_none: "(\<And>i. m s i = None) \<Longrightarrow> replace_all m s = s"
  by (simp add: replace_all_def replace_loop_none del: replace_loop.simps)

lemma safeEventMessage_plain:
  "trim m = m \<Longrightarrow> m \<noteq> [] \<Longrightarrow> length m \<le> 512 \<Longrightarrow> CHR ''='' \<notin> set m \<Longrightarrow> CHR '':'' \<notin> set m \<Longrightarrow> safeEventMessage m = Inr m"
  by (simp add: safeEventMessage_def replace_all_none secret_assignment_none)

lemma demo_trim: "trim ''authorization:basic a'' = ''authorization:basic a''"
  by (simp add: trim_def is_ws_def)

lemma demo_key_block: "\<not> rx_test key_block ''authorization:basic a''"
  by code_simp

lemma demo_password_tool: "\<not> rx_test password_tool ''authorization:basic a''"
  by code_simp

lemma demo_mysql: "\<not> rx_test mysql_option ''authorization:basic a''"
  by code_simp

lemma demo_assignment: "replace_all secret_assignment ''authorization:basic a'' = ''authorization:[REDACTED] a''"
  by code_simp

lemma demo_flag: "replace_all (keep_group secret_flag secret_value) ''authorization:[REDACTED] a'' = ''authorization:[REDACTED] a''"
  by code_simp

lemma demo_curl: "replace_all (keep_group curl_user (Plus non_space)) ''authorization:[REDACTED] a'' = ''authorization:[REDACTED] a''"
  by code_simp

lemma demo_authorization:
  "replace_all (keep_group authorization_prefix authorization_value) ''authorization:[REDACTED] a'' = ''authorization:[REDACTED] a''"
  by code_simp

text \<open>
  The credentials of an Authorization header survive the redaction: the assignment pattern, which runs first, takes the
  scheme for the secret, and the pattern written for the header no longer applies to what is left.
\<close>

theorem header_credentials_not_redacted:
  "redactCommand ''authorization:basic a'' = Inr ''authorization:[REDACTED] a''"
  by (simp add: redactCommand_def Let_def demo_trim demo_key_block demo_password_tool demo_mysql demo_assignment demo_flag
      demo_curl demo_authorization)

end
