(* ===== verification/Session_Audit.thy ===== *)
theory Session_Audit
  imports Ssh_Types Redaction
begin

text \<open>
  The audit trail of a session: \<open>SSHSessionAudit\<close> (\<open>apps/worker/src/ssh/session-audit.ts\<close>) over the rows its
  repositories write (\<open>ConnectionSessionRepository\<close>, \<open>SessionEventRepository\<close>, \<open>CommandHistoryRepository\<close> of
  \<open>apps/worker/src/storage/history.ts\<close>). The methods put operations on a chain; the chain runs them one after another,
  each up to its first failing statement. Whether a statement reaches the database is an argument of each step. The
  lemmas show that the row is closed exactly once, whatever fails, and ends in the last state that was written.
\<close>

section \<open>The rows\<close>

record session_row =
  sr_profileId :: string
  sr_authKind :: string
  sr_tailscale :: bool
  sr_status :: string
  sr_closeCode :: "string option"
  sr_connectedAt :: "string option"
  sr_closedAt :: "string option"
  sr_hostKeyType :: "string option"
  sr_hostFingerprint :: "string option"
  sr_kexAlgorithm :: "string option"
  sr_cipherIn :: "string option"
  sr_cipherOut :: "string option"

record finish_input =
  fi_finalState :: string
  fi_closeReason :: string
  fi_connectedAt :: "string option"
  fi_hostKeyType :: "string option"
  fi_hostFingerprint :: "string option"
  fi_kex :: "string option"
  fi_cipherIn :: "string option"
  fi_cipherOut :: "string option"

datatype audit_call =
    Call_State string "string option"
  | Call_Event string string
  | Call_Command string
  | Call_Prune
  | Call_Security string string
  | Call_Mark_Connected string string
  | Call_Finish finish_input

text \<open>
  The session's row, its events, the owner's commands newest first, and the statements tried so far (newest first) with
  their success.
\<close>

record audit_db =
  db_row :: "session_row option"
  db_events :: "(string \<times> string) list"
  db_commands :: "string list"
  db_security :: "(string \<times> string) list"
  db_connected :: "(string \<times> string) list"
  db_log :: "(audit_call \<times> bool) list"

definition MAX_COMMAND_HISTORY :: nat where "MAX_COMMAND_HISTORY = 100000"

definition stored_auth_kind :: "authentication \<Rightarrow> string" where
  "stored_auth_kind a = (case a of Auth_Password _ \<Rightarrow> ''password'' | Auth_Private_Key _ _ \<Rightarrow> ''private_key'' | Auth_Tailscale \<Rightarrow> ''password'')"

definition start_row :: "connection_profile \<Rightarrow> session_row" where
  "start_row p = \<lparr>sr_profileId = cp_profileId p, sr_authKind = stored_auth_kind (cp_authentication p),
     sr_tailscale = (cp_authentication p = Auth_Tailscale), sr_status = ''authorizing'', sr_closeCode = None,
     sr_connectedAt = None, sr_closedAt = None, sr_hostKeyType = None, sr_hostFingerprint = None, sr_kexAlgorithm = None,
     sr_cipherIn = None, sr_cipherOut = None\<rparr>"

text \<open>\<open>COALESCE(old, new)\<close>\<close>

definition coalesce :: "'a option \<Rightarrow> 'a option \<Rightarrow> 'a option" where
  "coalesce x y = (case x of None \<Rightarrow> y | Some _ \<Rightarrow> x)"

definition setState :: "string \<Rightarrow> string option \<Rightarrow> session_row \<Rightarrow> session_row" where
  "setState st connectedAt r = r\<lparr>sr_status := st, sr_connectedAt := coalesce (sr_connectedAt r) connectedAt\<rparr>"

definition finish_row :: "string \<Rightarrow> finish_input \<Rightarrow> session_row \<Rightarrow> session_row" where
  "finish_row now f r = r\<lparr>sr_status := fi_finalState f, sr_closeCode := Some (fi_closeReason f),
     sr_connectedAt := coalesce (sr_connectedAt r) (fi_connectedAt f), sr_closedAt := Some now,
     sr_hostKeyType := fi_hostKeyType f, sr_hostFingerprint := fi_hostFingerprint f, sr_kexAlgorithm := fi_kex f,
     sr_cipherIn := fi_cipherIn f, sr_cipherOut := fi_cipherOut f\<rparr>"

text \<open>One statement of a repository: an error of its own (no such session, an empty message), or its effect.\<close>

definition apply_call :: "string \<Rightarrow> audit_call \<Rightarrow> audit_db \<Rightarrow> audit_db option" where
  "apply_call now c db =
     (case c of
        Call_State st t \<Rightarrow> Some (db\<lparr>db_row := map_option (setState st t) (db_row db)\<rparr>)
      | Call_Event code msg \<Rightarrow>
          (case (safeEventMessage msg, db_row db) of
             (Inr m, Some r) \<Rightarrow> Some (db\<lparr>db_events := db_events db @ [(code, m)]\<rparr>)
           | _ \<Rightarrow> None)
      | Call_Command cmd \<Rightarrow>
          (case (redactCommand cmd, db_row db) of
             (Inr m, Some r) \<Rightarrow> Some (db\<lparr>db_commands := m # db_commands db\<rparr>)
           | _ \<Rightarrow> None)
      | Call_Prune \<Rightarrow> Some (db\<lparr>db_commands := take MAX_COMMAND_HISTORY (db_commands db) @ drop (MAX_COMMAND_HISTORY + 500) (db_commands db)\<rparr>)
      | Call_Security code msg \<Rightarrow> Some (db\<lparr>db_security := db_security db @ [(code, msg)]\<rparr>)
      | Call_Mark_Connected user fp \<Rightarrow> Some (db\<lparr>db_connected := db_connected db @ [(user, fp)]\<rparr>)
      | Call_Finish f \<Rightarrow> Some (db\<lparr>db_row := map_option (finish_row now f) (db_row db)\<rparr>))"

definition try_call :: "string \<Rightarrow> bool \<Rightarrow> audit_call \<Rightarrow> audit_db \<Rightarrow> audit_db \<times> bool" where
  "try_call now ok c db =
     (case (if ok then apply_call now c db else None) of
        Some db' \<Rightarrow> (db'\<lparr>db_log := (c, True) # db_log db'\<rparr>, True)
      | None \<Rightarrow> (db\<lparr>db_log := (c, False) # db_log db\<rparr>, False))"

text \<open>Statements in sequence, up to the first that fails; \<open>ok n\<close> says whether the n-th reaches the database.\<close>

fun try_calls :: "string \<Rightarrow> (nat \<Rightarrow> bool) \<Rightarrow> audit_call list \<Rightarrow> audit_db \<Rightarrow> audit_db" where
  "try_calls now ok [] db = db"
| "try_calls now ok (c # cs) db =
     (case try_call now (ok 0) c db of (db', b) \<Rightarrow> if b then try_calls now (\<lambda>n. ok (Suc n)) cs db' else db')"

section \<open>The audit\<close>

datatype audit_op =
    Op_State string string string "string option"
  | Op_Rekey
  | Op_Connected
  | Op_Command string
  | Op_Security string string
  | Op_Finish string string string

record audit =
  ad_profile :: connection_profile
  ad_finalized :: bool
  ad_connectedAt :: "string option"
  ad_hostKeyType :: "string option"
  ad_hostFingerprint :: "string option"
  ad_negotiated :: "(string \<times> string \<times> string) option"
  ad_chain :: "audit_op list"

definition enqueue :: "audit_op \<Rightarrow> audit \<Rightarrow> audit" where
  "enqueue op a = a\<lparr>ad_chain := ad_chain a @ [op]\<rparr>"

definition audit_new :: "connection_profile \<Rightarrow> audit" where
  "audit_new p = \<lparr>ad_profile = p, ad_finalized = False, ad_connectedAt = None, ad_hostKeyType = None, ad_hostFingerprint = None,
     ad_negotiated = None, ad_chain = []\<rparr>"

text \<open>\<open>SSHSessionAudit.start\<close>; the three flags say which of its statements reach the database.\<close>

definition audit_start :: "string \<Rightarrow> bool \<Rightarrow> bool \<Rightarrow> bool \<Rightarrow> connection_profile \<Rightarrow> audit_db \<Rightarrow> audit_db \<times> audit option" where
  "audit_start now ok_row ok_event ok_finish p db =
     (if \<not> ok_row then (db, None)
      else
        let db = db\<lparr>db_row := Some (start_row p)\<rparr> in
        case try_call now ok_event (Call_Event ''authorized'' ''SSH session authorization accepted'') db of
          (db', True) \<Rightarrow> (db', Some (audit_new p))
        | (db', False) \<Rightarrow>
            (fst (try_call now ok_finish (Call_Finish \<lparr>fi_finalState = ''error'', fi_closeReason = ''internal_error'', fi_connectedAt = None,
               fi_hostKeyType = None, fi_hostFingerprint = None, fi_kex = None, fi_cipherIn = None, fi_cipherOut = None\<rparr>) db'), None))"

definition audit_state :: "string \<Rightarrow> string \<Rightarrow> string \<Rightarrow> audit \<Rightarrow> audit" where
  "audit_state st event msg a = enqueue (Op_State st event msg (ad_connectedAt a)) a"

definition audit_hostKey :: "string \<Rightarrow> string \<Rightarrow> audit \<Rightarrow> audit" where
  "audit_hostKey fingerprint keyType a = a\<lparr>ad_hostFingerprint := Some fingerprint, ad_hostKeyType := Some keyType\<rparr>"

definition audit_algorithms :: "string \<Rightarrow> string \<Rightarrow> string \<Rightarrow> bool \<Rightarrow> audit \<Rightarrow> audit" where
  "audit_algorithms kex cipherIn cipherOut rekey a =
     (let a = a\<lparr>ad_negotiated := Some (kex, cipherIn, cipherOut)\<rparr> in
      if rekey then enqueue Op_Rekey a
      else audit_state ''ssh_handshake'' ''ssh_handshake_complete'' ''SSH transport handshake completed'' a)"

definition audit_connected :: "string \<Rightarrow> audit \<Rightarrow> audit" where
  "audit_connected now a = enqueue Op_Connected (a\<lparr>ad_connectedAt := coalesce (ad_connectedAt a) (Some now)\<rparr>)"

definition audit_command :: "string \<Rightarrow> audit \<Rightarrow> audit" where
  "audit_command cmd a =
     (if \<not> cp_collectHistory (ad_profile a) \<or> \<not> cp_collectCommands (ad_profile a) then a else enqueue (Op_Command cmd) a)"

definition audit_security :: "string \<Rightarrow> string \<Rightarrow> audit \<Rightarrow> audit" where
  "audit_security code msg a = enqueue (Op_Security code msg) a"

definition audit_finish :: "string \<Rightarrow> string \<Rightarrow> string \<Rightarrow> audit \<Rightarrow> audit" where
  "audit_finish finalState closeReason msg a =
     (if ad_finalized a then a else enqueue (Op_Finish finalState closeReason msg) (a\<lparr>ad_finalized := True\<rparr>))"

text \<open>What an operation does when its turn comes; it reads the audit's fields then.\<close>

definition finish_of :: "audit \<Rightarrow> string \<Rightarrow> string \<Rightarrow> finish_input" where
  "finish_of a finalState closeReason = \<lparr>fi_finalState = finalState, fi_closeReason = closeReason, fi_connectedAt = ad_connectedAt a,
     fi_hostKeyType = ad_hostKeyType a, fi_hostFingerprint = ad_hostFingerprint a, fi_kex = map_option fst (ad_negotiated a),
     fi_cipherIn = map_option (fst \<circ> snd) (ad_negotiated a), fi_cipherOut = map_option (snd \<circ> snd) (ad_negotiated a)\<rparr>"

definition run_op :: "string \<Rightarrow> (nat \<Rightarrow> bool) \<Rightarrow> audit \<Rightarrow> audit_op \<Rightarrow> audit_db \<Rightarrow> audit_db" where
  "run_op now ok a op db =
     (case op of
        Op_State st event msg t \<Rightarrow> try_calls now ok [Call_State st t, Call_Event event msg] db
      | Op_Rekey \<Rightarrow> try_calls now ok [Call_Event ''rekey_started'' ''SSH transport key renegotiation started'',
          Call_Event ''rekey_completed'' ''SSH transport keys renegotiated''] db
      | Op_Connected \<Rightarrow> try_calls now ok ([Call_State ''connected'' (ad_connectedAt a),
          Call_Event ''authentication_succeeded'' ''SSH authentication succeeded'',
          Call_Event ''pty_opened'' ''SSH pseudo-terminal opened'', Call_Event ''shell_opened'' ''SSH interactive shell opened''] @
          (case ad_hostFingerprint a of None \<Rightarrow> []
           | Some fp \<Rightarrow> if fp = [] then [] else [Call_Mark_Connected (cp_username (ad_profile a)) fp])) db
      | Op_Command cmd \<Rightarrow> try_calls now ok [Call_Command cmd, Call_Prune] db
      | Op_Security code msg \<Rightarrow> try_calls now ok [Call_Security code msg] db
      | Op_Finish finalState closeReason msg \<Rightarrow>
          (let db = fst (try_call now (ok 0) (Call_Event (if finalState = ''error'' then ''error'' else ''disconnected'') msg) db)
           in fst (try_call now (ok 1) (Call_Finish (finish_of a finalState closeReason)) db)))"

section \<open>Runs\<close>

datatype audit_method =
    M_State string string string
  | M_Host_Key string string
  | M_Algorithms string string string bool
  | M_Connected string
  | M_Command string
  | M_Security string string
  | M_Finish string string string

fun audit_do :: "audit_method \<Rightarrow> audit \<Rightarrow> audit" where
  "audit_do (M_State st event msg) a = audit_state st event msg a"
| "audit_do (M_Host_Key fp ty) a = audit_hostKey fp ty a"
| "audit_do (M_Algorithms kex ci co rekey) a = audit_algorithms kex ci co rekey a"
| "audit_do (M_Connected now) a = audit_connected now a"
| "audit_do (M_Command cmd) a = audit_command cmd a"
| "audit_do (M_Security code msg) a = audit_security code msg a"
| "audit_do (M_Finish fs reason msg) a = audit_finish fs reason msg a"

text \<open>Method calls and turns of the chain, in any order; the list holds the calls made, oldest first.\<close>

inductive audit_run :: "audit_method list \<Rightarrow> audit \<Rightarrow> audit_db \<Rightarrow> bool" where
  started: "audit_start now True True ok_finish p db = (db', Some a) \<Longrightarrow> db_log db = [] \<Longrightarrow> audit_run [] a db'"
| called: "audit_run ms a db \<Longrightarrow> audit_run (ms @ [m]) (audit_do m a) db"
| turn: "audit_run ms a db \<Longrightarrow> ad_chain a = op # ops \<Longrightarrow> audit_run ms (a\<lparr>ad_chain := ops\<rparr>) (run_op now ok a op db)"

section \<open>What is written to the row\<close>

datatype row_key = K_State string | K_Finish string string

fun call_key :: "audit_call \<Rightarrow> row_key list" where
  "call_key (Call_State st t) = [K_State st]"
| "call_key (Call_Finish f) = [K_Finish (fi_finalState f) (fi_closeReason f)]"
| "call_key _ = []"

fun op_key :: "audit_op \<Rightarrow> row_key list" where
  "op_key (Op_State st event msg t) = [K_State st]"
| "op_key Op_Connected = [K_State ''connected'']"
| "op_key (Op_Finish fs reason msg) = [K_Finish fs reason]"
| "op_key _ = []"

fun method_key :: "bool \<Rightarrow> audit_method \<Rightarrow> row_key list" where
  "method_key fin (M_State st event msg) = [K_State st]"
| "method_key fin (M_Algorithms kex ci co rekey) = (if rekey then [] else [K_State ''ssh_handshake''])"
| "method_key fin (M_Connected now) = [K_State ''connected'']"
| "method_key fin (M_Finish fs reason msg) = (if fin then [] else [K_Finish fs reason])"
| "method_key fin _ = []"

definition is_finish :: "audit_method \<Rightarrow> bool" where
  "is_finish m \<longleftrightarrow> (case m of M_Finish _ _ _ \<Rightarrow> True | _ \<Rightarrow> False)"

fun method_keys :: "bool \<Rightarrow> audit_method list \<Rightarrow> row_key list" where
  "method_keys fin [] = []"
| "method_keys fin (m # ms) = method_key fin m @ method_keys (fin \<or> is_finish m) ms"

text \<open>The statements on the row tried so far, oldest first, with their success.\<close>

definition row_log :: "(audit_call \<times> bool) list \<Rightarrow> (row_key \<times> bool) list" where
  "row_log l = concat (map (\<lambda>(c, b). map (\<lambda>k. (k, b)) (call_key c)) (rev l))"

definition written :: "(row_key \<times> bool) list \<Rightarrow> row_key list" where
  "written kl = map fst (filter snd kl)"

fun row_matches :: "row_key list \<Rightarrow> session_row \<Rightarrow> bool" where
  "row_matches [] r \<longleftrightarrow> sr_status r = ''authorizing'' \<and> sr_closeCode r = None"
| "row_matches ks r \<longleftrightarrow>
     (case List.last ks of K_State st \<Rightarrow> sr_status r = st
      | K_Finish fs reason \<Rightarrow> sr_status r = fs \<and> sr_closeCode r = Some reason \<and> sr_closedAt r \<noteq> None)"

lemma row_log_Cons: "row_log ((c, b) # l) = row_log l @ map (\<lambda>k. (k, b)) (call_key c)"
  by (simp add: row_log_def)

lemma written_append [simp]: "written (xs @ ys) = written xs @ written ys"
  by (simp add: written_def)

lemma row_matches_snoc:
  "row_matches (ks @ [k]) r \<longleftrightarrow> (case k of K_State st \<Rightarrow> sr_status r = st
      | K_Finish fs reason \<Rightarrow> sr_status r = fs \<and> sr_closeCode r = Some reason \<and> sr_closedAt r \<noteq> None)"
  by (cases ks) simp_all

lemma method_keys_append: "method_keys fin (ms @ ns) = method_keys fin ms @ method_keys (fin \<or> list_ex is_finish ms) ns"
  by (induction fin ms rule: method_keys.induct) (auto simp: disj_assoc)

definition row_ok :: "audit_db \<Rightarrow> bool" where
  "row_ok db \<longleftrightarrow> (\<exists>r. db_row db = Some r \<and> row_matches (written (row_log (db_log db))) r)"

lemma apply_call_log: "apply_call now c db = Some db' \<Longrightarrow> db_log db' = db_log db"
  by (auto simp: apply_call_def split: audit_call.splits sum.splits option.splits)

lemma try_call_ok:
  assumes "row_ok db" "try_call now ok c db = (db', b)"
  shows "row_ok db' \<and> db_log db' = (c, b) # db_log db"
proof (cases "if ok then apply_call now c db else None")
  case None
  then have "db' = db\<lparr>db_log := (c, False) # db_log db\<rparr>" "b = False" using assms(2) by (auto simp: try_call_def)
  then show ?thesis using assms(1) by (auto simp: row_ok_def row_log_Cons written_def o_def)
next
  case (Some d)
  then have d: "apply_call now c db = Some d" "db' = d\<lparr>db_log := (c, True) # db_log d\<rparr>" "b = True"
    using assms(2) by (auto simp: try_call_def split: if_splits)
  have log: "db_log d = db_log db" by (rule apply_call_log [OF d(1)])
  obtain r where r: "db_row db = Some r" "row_matches (written (row_log (db_log db))) r" using assms(1) by (auto simp: row_ok_def)
  have "\<exists>r'. db_row d = Some r' \<and> row_matches (written (row_log (db_log db)) @ call_key c) r'"
    using d(1) r by (cases c)
      (auto simp: apply_call_def row_matches_snoc setState_def finish_row_def split: sum.splits option.splits)
  moreover have "written (map (\<lambda>k. (k, True)) ks) = ks" for ks by (simp add: written_def o_def)
  ultimately show ?thesis by (auto simp: row_ok_def d(2,3) log row_log_Cons)
qed

lemma try_calls_ok:
  "row_ok db \<Longrightarrow> row_ok (try_calls now ok cs db) \<and> (\<exists>l. db_log (try_calls now ok cs db) = l @ db_log db \<and> map fst (rev l) = take (length l) cs \<and> (cs \<noteq> [] \<longrightarrow> l \<noteq> []))"
proof (induction now ok cs db rule: try_calls.induct)
  case (2 now ok c cs db)
  obtain db' b where t: "try_call now (ok 0) c db = (db', b)" by (metis surj_pair)
  have r: "row_ok db'" "db_log db' = (c, b) # db_log db" using try_call_ok [OF 2(2) t] by simp_all
  show ?case
  proof (cases b)
    case True
    from 2(1) [OF t [symmetric] True r(1)] obtain l where l: "row_ok (try_calls now (\<lambda>n. ok (Suc n)) cs db')"
        "db_log (try_calls now (\<lambda>n. ok (Suc n)) cs db') = l @ db_log db'" "map fst (rev l) = take (length l) cs" by blast
    then show ?thesis using t True r(2) by (auto intro!: exI [of _ "l @ [(c, b)]"])
  qed (use t r in auto)
qed simp

definition row_keys :: "audit_db \<Rightarrow> row_key list" where
  "row_keys db = map fst (row_log (db_log db))"

lemma row_log_append: "row_log (l @ m) = row_log m @ row_log l"
  by (simp add: row_log_def)

lemma row_log_keys: "map fst (row_log l) = concat (map call_key (map fst (rev l)))"
  by (induction l) (auto simp: row_log_Cons row_log_def o_def map_concat)

lemma keyless_rest: "concat (map call_key cs) = [] \<Longrightarrow> 0 < n \<Longrightarrow> concat (map call_key (take n (c # cs))) = call_key c"
  by (cases n) (auto dest: in_set_takeD)

text \<open>An operation tries its statement on the row, whatever else fails.\<close>

lemma try_calls_keys:
  assumes "row_ok db" "concat (map call_key cs) = []"
  shows "row_ok (try_calls now ok (c # cs) db) \<and> row_keys (try_calls now ok (c # cs) db) = row_keys db @ call_key c"
proof -
  obtain l where l: "row_ok (try_calls now ok (c # cs) db)" "db_log (try_calls now ok (c # cs) db) = l @ db_log db"
      "map fst (rev l) = take (length l) (c # cs)" "l \<noteq> []"
    using try_calls_ok [OF assms(1), of now ok "c # cs"] by blast
  have "0 < length l" using l(4) by simp
  then have "map fst (row_log l) = call_key c"
    unfolding row_log_keys l(3) by (rule keyless_rest [OF assms(2)])
  then show ?thesis using l(1,2) by (simp add: row_keys_def row_log_append)
qed

lemma try_call_keys:
  assumes "row_ok db"
  shows "row_ok (fst (try_call now ok c db)) \<and> row_keys (fst (try_call now ok c db)) = row_keys db @ call_key c"
proof -
  obtain d b where "try_call now ok c db = (d, b)" by (metis surj_pair)
  then show ?thesis using try_call_ok [OF assms] by (fastforce simp: row_keys_def row_log_Cons o_def)
qed

lemma run_op_keys:
  assumes "row_ok db"
  shows "row_ok (run_op now ok a op db) \<and> row_keys (run_op now ok a op db) = row_keys db @ op_key op"
proof (cases op)
  case (Op_Finish fs reason msg)
  then show ?thesis using try_call_keys [OF assms] try_call_keys by (simp add: run_op_def Let_def finish_of_def)
qed (use try_calls_keys [OF assms] in \<open>auto simp: run_op_def split: option.splits\<close>)

lemma audit_do_chain:
  "concat (map op_key (ad_chain (audit_do m a))) = concat (map op_key (ad_chain a)) @ method_key (ad_finalized a) m"
  "ad_finalized (audit_do m a) \<longleftrightarrow> ad_finalized a \<or> is_finish m"
  by (cases m; simp add: audit_state_def enqueue_def audit_hostKey_def audit_algorithms_def audit_connected_def audit_command_def
      audit_security_def audit_finish_def is_finish_def Let_def)+

lemma audit_run_keys:
  "audit_run ms a db \<Longrightarrow> row_ok db \<and> ad_finalized a = list_ex is_finish ms \<and>
    row_keys db @ concat (map op_key (ad_chain a)) = method_keys False ms"
proof (induction rule: audit_run.induct)
  case (started now ok_finish p db db' a)
  define db0 where "db0 = db\<lparr>db_row := Some (start_row p)\<rparr>"
  have r0: "row_ok db0" using started(2) by (simp add: row_ok_def row_log_def written_def start_row_def db0_def)
  obtain d b where t: "try_call now True (Call_Event ''authorized'' ''SSH session authorization accepted'') db0 = (d, b)"
    by (metis surj_pair)
  have "(case (d, b) of (db', True) \<Rightarrow> (db', Some (audit_new p)) | (db', False) \<Rightarrow> (fst (try_call now ok_finish (Call_Finish
      \<lparr>fi_finalState = ''error'', fi_closeReason = ''internal_error'', fi_connectedAt = None, fi_hostKeyType = None,
        fi_hostFingerprint = None, fi_kex = None, fi_cipherIn = None, fi_cipherOut = None\<rparr>) db'), None)) = (db', Some a)"
    using started(1) unfolding audit_start_def Let_def db0_def [symmetric] t by simp
  then have "b" "d = db'" "a = audit_new p" by (cases b; simp)+
  moreover have "row_ok d \<and> db_log d = [(Call_Event ''authorized'' ''SSH session authorization accepted'', b)]"
    using try_call_ok [OF r0 t] started(2) by (simp add: db0_def)
  ultimately show ?case by (simp add: audit_new_def row_keys_def row_log_Cons, simp add: row_log_def)
next
  case (called ms a db m)
  then show ?case by (simp add: audit_do_chain method_keys_append)
next
  case (turn ms a db op ops now ok)
  then show ?case using run_op_keys [of db now ok a op] by simp
qed

text \<open>
  C26: In every run, once the chain is empty, the statement that closes the session's row has been tried exactly once if
  \<open>finish\<close> was called at all, with the state and reason of its first call, and never otherwise, whichever other statements failed.
\<close>

theorem audit_closes_once:
  assumes "audit_run ms a db" "ad_chain a = []"
  shows "[(fi_finalState f, fi_closeReason f). (Call_Finish f, ok) \<leftarrow> db_log db] =
    (case filter is_finish ms of M_Finish fs reason msg # _ \<Rightarrow> [(fs, reason)] | _ \<Rightarrow> [])"
proof -
  have keys: "map fst (row_log (db_log db)) = method_keys False ms"
    using audit_run_keys [OF assms(1)] assms(2) by (simp add: row_keys_def)
  define fin where "fin = (\<lambda>ks. [(fs, reason). K_Finish fs reason \<leftarrow> ks])"
  have fin_append: "fin (xs @ ys) = fin xs @ fin ys" for xs ys by (simp add: fin_def)
  have "fin (map fst (row_log l)) = rev [(fi_finalState f, fi_closeReason f). (Call_Finish f, ok) \<leftarrow> l]" for l
  proof (induction l)
    case (Cons x l)
    obtain c b where "x = (c, b)" by force
    then show ?case using Cons by (cases c) (simp_all add: row_log_Cons fin_append, simp_all add: fin_def)
  qed (simp add: row_log_def fin_def)
  moreover have "fin (method_key True m) = []" for m by (cases m) (simp_all add: fin_def)
  then have "fin (method_keys True ns) = []" for ns by (induction ns) (simp_all add: fin_append, simp add: fin_def)
  then have "fin (method_keys False ms) = (case filter is_finish ms of M_Finish fs reason msg # _ \<Rightarrow> [(fs, reason)] | _ \<Rightarrow> [])"
  proof (induction ms)
    case (Cons m ms)
    then show ?case by (cases m) (simp_all add: fin_append is_finish_def, simp_all add: fin_def)
  qed (simp add: fin_def)
  ultimately have "rev [(fi_finalState f, fi_closeReason f). (Call_Finish f, ok) \<leftarrow> db_log db] =
    (case filter is_finish ms of M_Finish fs reason msg # _ \<Rightarrow> [(fs, reason)] | _ \<Rightarrow> [])"
    using keys by metis
  then show ?thesis by (simp add: rev_swap split: list.splits audit_method.splits)
qed

definition demo_db :: audit_db where
  "demo_db = \<lparr>db_row = None, db_events = [], db_commands = [], db_security = [], db_connected = [], db_log = []\<rparr>"

text \<open>A run: started, closed by the user, and the chain drained, with every statement failing but the last.\<close>

definition demo_finish :: audit_method where
  "demo_finish = M_Finish ''closed'' ''user_disconnect'' ''bye''"

lemma demo_start_message: "safeEventMessage ''SSH session authorization accepted'' = Inr ''SSH session authorization accepted''"
  by (rule safeEventMessage_plain) (simp_all add: trim_def is_ws_def)

lemma demo_run:
  "\<exists>a db. audit_run [demo_finish] a db \<and> ad_chain a = [] \<and> (\<exists>f. (Call_Finish f, True) \<in> set (db_log db))"
proof -
  obtain db where "audit_start ''t'' True True True demo_profile demo_db = (db, Some (audit_new demo_profile))"
    by (simp add: audit_start_def try_call_def apply_call_def demo_db_def demo_start_message)
  then have r: "audit_run [] (audit_new demo_profile) db" by (rule audit_run.started) (simp add: demo_db_def)
  have "audit_run [demo_finish] (audit_do demo_finish (audit_new demo_profile)) db"
    using audit_run.called [OF r, of demo_finish] by simp
  then have "audit_run [demo_finish] ((audit_do demo_finish (audit_new demo_profile))\<lparr>ad_chain := []\<rparr>)
      (run_op ''t'' (\<lambda>n. n = 1) (audit_do demo_finish (audit_new demo_profile)) (Op_Finish ''closed'' ''user_disconnect'' ''bye'') db)"
    by (rule audit_run.turn) (simp add: demo_finish_def audit_finish_def enqueue_def audit_new_def)
  then show ?thesis by (fastforce simp: run_op_def try_call_def apply_call_def Let_def)
qed

lemma audit_closes_once_witness:
  "\<exists>db :: audit_db. [(fi_finalState f, fi_closeReason f). (Call_Finish f, ok) \<leftarrow> db_log db] = [(''closed'', ''user_disconnect'')]"
proof -
  obtain a db where "audit_run [demo_finish] a db" "ad_chain a = []" using demo_run by blast
  from audit_closes_once [OF this] show ?thesis by (intro exI [of _ db]) (simp add: demo_finish_def is_finish_def)
qed

text \<open>
  If the statement that closes the row reached the database, and no state was reported after \<open>finish\<close>, the row ends
  with the state, the reason and a closing time of the first \<open>finish\<close>, whatever was written before.
\<close>

theorem audit_row_closed:
  assumes "audit_run ms a db" "ad_chain a = []" "ms = ms1 @ M_Finish fs reason msg # ms2"
    "\<not> list_ex is_finish ms1" "method_keys True ms2 = []" "(Call_Finish f, True) \<in> set (db_log db)"
  shows "\<exists>r. db_row db = Some r \<and> sr_status r = fs \<and> sr_closeCode r = Some reason \<and> sr_closedAt r \<noteq> None"
proof -
  note run = audit_run_keys [OF assms(1)]
  have keys: "map fst (row_log (db_log db)) = method_keys False ms1 @ [K_Finish fs reason]"
    using run assms(2,3,4,5) by (simp add: row_keys_def method_keys_append is_finish_def)
  then obtain kl k where kl: "row_log (db_log db) = kl @ [k]" "map fst kl = method_keys False ms1" "fst k = K_Finish fs reason"
    by (auto simp: map_eq_append_conv)
  have none: "K_Finish x y \<notin> set (method_keys False ms1)" for x y
    using assms(4)
  proof (induction ms1)
    case (Cons m ns)
    then show ?case by (cases m) (auto simp: is_finish_def)
  qed simp
  have "(Call_Finish f, True) \<in> set l \<Longrightarrow> (K_Finish (fi_finalState f) (fi_closeReason f), True) \<in> set (row_log l)" for l
    by (induction l) (auto simp: row_log_Cons)
  then have mem: "(K_Finish (fi_finalState f) (fi_closeReason f), True) \<in> set (kl @ [k])" using assms(6) kl(1) by metis
  have "K_Finish (fi_finalState f) (fi_closeReason f) \<notin> set (map fst kl)" unfolding kl(2) by (rule none)
  then have "(K_Finish (fi_finalState f) (fi_closeReason f), True) \<notin> set kl" by (metis fst_conv image_eqI set_map)
  then have "k = (K_Finish (fi_finalState f) (fi_closeReason f), True)" using mem by simp
  then have "snd k" by simp
  then have "written (row_log (db_log db)) = written kl @ [K_Finish fs reason]"
    using kl by (simp add: written_def)
  then show ?thesis using run by (auto simp: row_ok_def row_matches_snoc)
qed

lemma audit_row_closed_witness:
  "\<exists>a db r. audit_run [demo_finish] a db \<and> db_row db = Some r \<and> sr_status r = ''closed'' \<and> sr_closeCode r = Some ''user_disconnect''"
proof -
  obtain a db f where d: "audit_run [demo_finish] a db" "ad_chain a = []" "(Call_Finish f, True) \<in> set (db_log db)"
    using demo_run by blast
  have "\<exists>r. db_row db = Some r \<and> sr_status r = ''closed'' \<and> sr_closeCode r = Some ''user_disconnect'' \<and> sr_closedAt r \<noteq> None"
    by (rule audit_row_closed [OF d(1,2) _ _ _ d(3), of "[]" _ _ "''bye''" "[]"]) (simp_all add: demo_finish_def)
  then show ?thesis using d(1) by blast
qed

end
