(* ===== verification/Known_Hosts.thy ===== *)
theory Known_Hosts
  imports Ssh_Types Network
begin

text \<open>
  The host keys the Worker has pinned: the tables \<open>known_hosts\<close> and \<open>profiles\<close>, the repository of the SSH
  engine (\<open>D1HostKeyRepository\<close> in \<open>durable/ssh-session.ts\<close>) and the repository of \<open>storage/known-hosts.ts\<close>. A
  statement of SQL is a function on the rows; \<open>rid\<close>, \<open>now\<close> and the text \<open>violated\<close> of the database's constraint
  error are arguments. The locale \<open>host_key_repo\<close> is the contract \<open>HostKeyRepository\<close> of \<open>ssh/types.ts\<close>.
\<close>

record known_host_row =
  kh_id :: string
  kh_profile_id :: string
  kh_host :: string
  kh_port :: int
  kh_key_type :: string
  kh_fingerprint :: string
  kh_key_blob :: string
  kh_first_seen_at :: string
  kh_last_seen_at :: string
  kh_replaced_at :: "string option"

record profile_pin =
  pp_id :: string
  pp_owner_id :: string
  pp_last_host_fingerprint :: "string option"
  pp_updated_at :: string

record host_db =
  hb_profiles :: "profile_pin list"
  hb_known_hosts :: "known_host_row list"

section \<open>The tables\<close>

definition owns_profile :: "string \<Rightarrow> string \<Rightarrow> host_db \<Rightarrow> bool" where
  "owns_profile owner profile db \<longleftrightarrow> list_ex (\<lambda>p. pp_id p = profile \<and> pp_owner_id p = owner) (hb_profiles db)"

definition same_target :: "host_key_reference \<Rightarrow> known_host_row \<Rightarrow> bool" where
  "same_target ref r \<longleftrightarrow> kh_profile_id r = hr_profileId ref \<and> kh_host r = hr_host ref \<and> kh_port r = hr_port ref"

abbreviation reference_of :: "host_key_record \<Rightarrow> host_key_reference" where
  "reference_of r \<equiv> \<lparr>hr_ownerId = hr_ownerId r, hr_profileId = hr_profileId r, hr_host = hr_host r, hr_port = hr_port r\<rparr>"

definition to_host_key_record :: "host_key_reference \<Rightarrow> known_host_row \<Rightarrow> host_key_record" where
  "to_host_key_record ref r = \<lparr>hr_ownerId = hr_ownerId ref, hr_profileId = hr_profileId ref, hr_host = hr_host ref,
     hr_port = hr_port ref, hk_fingerprint = kh_fingerprint r, hk_keyType = kh_key_type r, hk_keyBlob = kh_key_blob r,
     hk_pinnedAt = kh_first_seen_at r\<rparr>"

definition host_key_get :: "host_key_reference \<Rightarrow> host_db \<Rightarrow> host_key_record option" where
  "host_key_get ref db = map_option (to_host_key_record ref)
     (find (\<lambda>r. same_target ref r \<and> owns_profile (hr_ownerId ref) (kh_profile_id r) db \<and> kh_replaced_at r = None)
        (hb_known_hosts db))"

text \<open>
  \<open>INSERT ... SELECT ... FROM profiles ... ON CONFLICT(profile_id, host, port) DO UPDATE SET last_seen_at ...\<close>: no row
  without the profile, a row for a new target, and for a known one only the time of its last sight, if the
  fingerprint is the same.
\<close>

definition pin_statement :: "string \<Rightarrow> string \<Rightarrow> string \<Rightarrow> host_key_record \<Rightarrow> host_db \<Rightarrow> host_db throws" where
  "pin_statement violated rid now rec db =
     (if \<not> owns_profile (hr_ownerId rec) (hr_profileId rec) db then Inr db
      else if hr_port rec < 1 \<or> 65535 < hr_port rec \<or> list_ex (\<lambda>r. kh_id r = rid) (hb_known_hosts db) then Inl violated
      else if list_ex (same_target (reference_of rec)) (hb_known_hosts db)
      then Inr (db\<lparr>hb_known_hosts := map (\<lambda>r. if same_target (reference_of rec) r \<and> kh_fingerprint r = hk_fingerprint rec
                  \<and> kh_replaced_at r = None then r\<lparr>kh_last_seen_at := now\<rparr> else r) (hb_known_hosts db)\<rparr>)
      else Inr (db\<lparr>hb_known_hosts := hb_known_hosts db @
             [\<lparr>kh_id = rid, kh_profile_id = hr_profileId rec, kh_host = hr_host rec, kh_port = hr_port rec,
               kh_key_type = hk_keyType rec, kh_fingerprint = hk_fingerprint rec, kh_key_blob = hk_keyBlob rec,
               kh_first_seen_at = now, kh_last_seen_at = now, kh_replaced_at = None\<rparr>]\<rparr>))"

definition note_fingerprint :: "string \<Rightarrow> host_key_record \<Rightarrow> host_db \<Rightarrow> host_db" where
  "note_fingerprint now rec db = db\<lparr>hb_profiles := map (\<lambda>p. if pp_id p = hr_profileId rec \<and> pp_owner_id p = hr_ownerId rec
      then p\<lparr>pp_last_host_fingerprint := Some (hk_fingerprint rec), pp_updated_at := now\<rparr> else p) (hb_profiles db)\<rparr>"

definition pinIfAbsent :: "string \<Rightarrow> string \<Rightarrow> string \<Rightarrow> host_key_record \<Rightarrow> host_db \<Rightarrow> host_key_record throws \<times> host_db" where
  "pinIfAbsent violated rid now rec db =
     (case pin_statement violated rid now rec db of
        Inl e \<Rightarrow> (Inl e, db)
      | Inr db' \<Rightarrow>
          (case host_key_get (reference_of rec) db' of
             None \<Rightarrow> (Inl ''Unable to persist the SSH host key'', db')
           | Some pinned \<Rightarrow>
               (Inr pinned, if hk_fingerprint pinned = hk_fingerprint rec then note_fingerprint now rec db' else db')))"

section \<open>The repository of \<open>storage/known-hosts.ts\<close>\<close>

record presented_host_key =
  pk_keyType :: string
  pk_fingerprint :: string
  pk_keyBlob :: string

datatype host_key_check = Host_Unknown | Host_Match known_host_row | Host_Changed known_host_row

definition same_key :: "presented_host_key \<Rightarrow> known_host_row \<Rightarrow> bool" where
  "same_key k r \<longleftrightarrow> kh_key_type r = pk_keyType k \<and> kh_fingerprint r = pk_fingerprint k \<and> kh_key_blob r = pk_keyBlob k"

definition target_message :: "target_error + 'a \<Rightarrow> 'a throws" where
  "target_message r = (case r of Inl (Target_Error code msg) \<Rightarrow> Inl msg | Inl Rejected \<Rightarrow> Inl [] | Inr a \<Rightarrow> Inr a)"

definition known_host_get :: "string \<Rightarrow> string \<Rightarrow> string \<Rightarrow> int \<Rightarrow> host_db \<Rightarrow> known_host_row option throws" where
  "known_host_get owner profile host port db =
     try_bind (target_message (assertAllowedSshPort (of_int port) None)) (\<lambda>_.
     try_bind (target_message (normalizeHost host)) (\<lambda>h.
     Inr (find (\<lambda>r. kh_profile_id r = profile \<and> kh_host r = h \<and> kh_port r = port \<and> owns_profile owner profile db)
            (hb_known_hosts db))))"

definition touch_known_host :: "string \<Rightarrow> string \<Rightarrow> host_db \<Rightarrow> host_db" where
  "touch_known_host now rid db =
     db\<lparr>hb_known_hosts := map (\<lambda>r. if kh_id r = rid then r\<lparr>kh_last_seen_at := now\<rparr> else r) (hb_known_hosts db)\<rparr>"

definition known_host_check ::
  "string \<Rightarrow> string \<Rightarrow> string \<Rightarrow> string \<Rightarrow> int \<Rightarrow> presented_host_key \<Rightarrow> host_db \<Rightarrow> (host_key_check \<times> host_db) throws" where
  "known_host_check now owner profile host port k db =
     try_bind (known_host_get owner profile host port db) (\<lambda>known.
     Inr (case known of
        None \<Rightarrow> (Host_Unknown, db)
      | Some r \<Rightarrow> if \<not> same_key k r then (Host_Changed r, db)
          else (Host_Match (r\<lparr>kh_last_seen_at := now\<rparr>), touch_known_host now (kh_id r) db)))"

definition known_host_pin ::
  "string \<Rightarrow> string \<Rightarrow> string \<Rightarrow> string \<Rightarrow> string \<Rightarrow> string \<Rightarrow> int \<Rightarrow> presented_host_key \<Rightarrow> host_db
     \<Rightarrow> (known_host_row \<times> host_db) throws" where
  "known_host_pin violated rid now owner profile host port k db =
     try_bind (target_message (normalizeHost host)) (\<lambda>h.
     try_bind (target_message (assertAllowedSshPort (of_int port) None)) (\<lambda>_.
     try_bind (known_host_get owner profile h port db) (\<lambda>current.
     case current of
       Some r \<Rightarrow> if \<not> same_key k r then Inl ''SSH host key changed''
         else Inr (r\<lparr>kh_last_seen_at := now\<rparr>, touch_known_host now (kh_id r) db)
     | None \<Rightarrow>
         if \<not> owns_profile owner profile db then Inl ''Profile not found''
         else if list_ex (\<lambda>r. kh_id r = rid \<or> (kh_profile_id r = profile \<and> kh_host r = h \<and> kh_port r = port)) (hb_known_hosts db)
         then Inl violated
         else let r = \<lparr>kh_id = rid, kh_profile_id = profile, kh_host = h, kh_port = port, kh_key_type = pk_keyType k,
                kh_fingerprint = pk_fingerprint k, kh_key_blob = pk_keyBlob k, kh_first_seen_at = now,
                kh_last_seen_at = now, kh_replaced_at = None\<rparr>
              in Inr (r, db\<lparr>hb_known_hosts := hb_known_hosts db @ [r]\<rparr>))))"

definition known_host_delete :: "string \<Rightarrow> string \<Rightarrow> host_db \<Rightarrow> host_db" where
  "known_host_delete owner profile db =
     db\<lparr>hb_known_hosts := filter (\<lambda>r. \<not> (kh_profile_id r = profile \<and> owns_profile owner profile db)) (hb_known_hosts db)\<rparr>"

section \<open>The contract of the engine\<close>

text \<open>
  \<open>ready r db\<close>: the pin of \<open>r\<close> can be stored at all. The first pin of a target is stored, a later one changes
  nothing but leaves and returns the first, and no pin touches another target.
\<close>

locale host_key_repo =
  fixes ok :: "'db \<Rightarrow> bool"
    and ready :: "host_key_record \<Rightarrow> 'db \<Rightarrow> bool"
    and get :: "host_key_reference \<Rightarrow> 'db \<Rightarrow> host_key_record option"
    and pin :: "host_key_record \<Rightarrow> 'db \<Rightarrow> host_key_record throws \<times> 'db"
  assumes pin_ok: "ok db \<Longrightarrow> ok (snd (pin r db))"
    and pin_first: "ok db \<Longrightarrow> ready r db \<Longrightarrow> get (reference_of r) db = None \<Longrightarrow>
      \<exists>s. fst (pin r db) = Inr s \<and> hk_fingerprint s = hk_fingerprint r \<and> get (reference_of r) (snd (pin r db)) = Some s"
    and pin_kept: "ok db \<Longrightarrow> ready r db \<Longrightarrow> get (reference_of r) db = Some s \<Longrightarrow>
      fst (pin r db) = Inr s \<and> get (reference_of r) (snd (pin r db)) = Some s"
    and pin_other: "ok db \<Longrightarrow> ref \<noteq> reference_of r \<Longrightarrow> get ref (snd (pin r db)) = get ref db"
begin

text \<open>What the pin returns is what later lookups find, and it is the first pin if there was one.\<close>

lemma pin_result:
  assumes "ok db" "ready r db"
  shows "\<exists>s. fst (pin r db) = Inr s \<and> get (reference_of r) (snd (pin r db)) = Some s \<and>
    (get (reference_of r) db = None \<longrightarrow> hk_fingerprint s = hk_fingerprint r) \<and>
    (get (reference_of r) db = None \<or> get (reference_of r) db = Some s)"
  using pin_first [OF assms] pin_kept [OF assms] by (cases "get (reference_of r) db") auto

lemma pin_keeps_others:
  assumes "ok db" "ready r db" "get ref db = Some s"
  shows "get ref (snd (pin r db)) = Some s"
  using pin_kept [OF assms(1,2)] pin_other [OF assms(1), of ref r] assms(3) by (cases "ref = reference_of r") auto

end

section \<open>The tables keep the contract\<close>

text \<open>Primary keys, the unique targets, and no row is ever marked as replaced: nothing in the program does so.\<close>

definition host_db_ok :: "host_db \<Rightarrow> bool" where
  "host_db_ok db \<longleftrightarrow> distinct (map pp_id (hb_profiles db)) \<and> distinct (map kh_id (hb_known_hosts db)) \<and>
     distinct (map (\<lambda>r. (kh_profile_id r, kh_host r, kh_port r)) (hb_known_hosts db)) \<and>
     list_all (\<lambda>r. kh_replaced_at r = None) (hb_known_hosts db)"

definition pin_ready :: "string \<Rightarrow> host_key_record \<Rightarrow> host_db \<Rightarrow> bool" where
  "pin_ready rid r db \<longleftrightarrow> owns_profile (hr_ownerId r) (hr_profileId r) db \<and> 1 \<le> hr_port r \<and> hr_port r \<le> 65535 \<and>
     \<not> list_ex (\<lambda>k. kh_id k = rid) (hb_known_hosts db)"

definition put_if_absent :: "'k \<Rightarrow> 'v \<Rightarrow> ('k \<rightharpoonup> 'v) \<Rightarrow> ('k \<rightharpoonup> 'v)" where
  "put_if_absent k v m = (case m k of None \<Rightarrow> m(k \<mapsto> v) | Some _ \<Rightarrow> m)"

lemma find_append_cases: "find P (xs @ ys) = (case find P xs of None \<Rightarrow> find P ys | Some x \<Rightarrow> Some x)"
  by (induction xs) auto

lemma find_map_same:
  "(\<And>x. P (f x) = P x) \<Longrightarrow> find P (map f xs) = map_option f (find P xs)"
  by (induction xs) auto

lemma find_filter_same: "(\<And>x. P x \<Longrightarrow> Q x) \<Longrightarrow> find P (filter Q xs) = find P xs"
  by (induction xs) auto

lemma list_ex_map_same: "(\<And>x. P (f x) = P x) \<Longrightarrow> list_ex P (map f xs) = list_ex P xs"
  by (induction xs) auto

lemma to_host_key_record_seen [simp]: "to_host_key_record ref (r\<lparr>kh_last_seen_at := t\<rparr>) = to_host_key_record ref r"
  by (simp add: to_host_key_record_def)

lemma owns_profile_simps [simp]:
  "owns_profile o' p (db\<lparr>hb_known_hosts := x\<rparr>) = owns_profile o' p db"
  "owns_profile o' p (note_fingerprint now r db) = owns_profile o' p db"
  by (simp_all add: owns_profile_def note_fingerprint_def list_ex_map_same)

lemma host_key_get_note [simp]: "host_key_get ref (note_fingerprint now r db) = host_key_get ref db"
  by (simp add: host_key_get_def) (simp add: note_fingerprint_def)

lemma host_db_ok_note [simp]: "host_db_ok (note_fingerprint now r db) = host_db_ok db"
proof -
  have "map pp_id (hb_profiles (note_fingerprint now r db)) = map pp_id (hb_profiles db)"
    by (simp add: note_fingerprint_def)
  moreover have "hb_known_hosts (note_fingerprint now r db) = hb_known_hosts db" by (simp add: note_fingerprint_def)
  ultimately show ?thesis by (simp add: host_db_ok_def)
qed

lemma owner_unique: "host_db_ok db \<Longrightarrow> owns_profile o1 p db \<Longrightarrow> owns_profile o2 p db \<Longrightarrow> o1 = o2"
proof -
  assume "host_db_ok db" "owns_profile o1 p db" "owns_profile o2 p db"
  then obtain x y where xy: "x \<in> set (hb_profiles db)" "pp_id x = p" "pp_owner_id x = o1"
      "y \<in> set (hb_profiles db)" "pp_id y = p" "pp_owner_id y = o2"
    unfolding owns_profile_def list_ex_iff by blast
  have "inj_on pp_id (set (hb_profiles db))" using \<open>host_db_ok db\<close> by (simp add: host_db_ok_def distinct_map)
  then have "x = y" by (rule inj_onD) (use xy in simp_all)
  then show "o1 = o2" using xy by simp
qed

lemma host_key_get_none:
  assumes "host_db_ok db" "owns_profile (hr_ownerId ref) (hr_profileId ref) db"
  shows "host_key_get ref db = None \<longleftrightarrow> \<not> list_ex (same_target ref) (hb_known_hosts db)"
  using assms by (auto simp: host_key_get_def host_db_ok_def list_ex_iff list_all_iff find_None_iff same_target_def)

text \<open>The statement of the pin on the lookups.\<close>

lemma host_key_get_seen:
  "host_key_get ref (db\<lparr>hb_known_hosts := map (\<lambda>r. if P r then r\<lparr>kh_last_seen_at := now\<rparr> else r) (hb_known_hosts db)\<rparr>)
    = host_key_get ref db"
  by (simp add: host_key_get_def find_map_same same_target_def option.map_comp comp_def if_distrib [of "to_host_key_record ref"]
      cong: if_cong)

lemma host_key_get_new:
  assumes "\<not> list_ex (same_target (reference_of r)) (hb_known_hosts db)" "owns_profile (hr_ownerId r) (hr_profileId r) db"
    "host_db_ok db" "kh_replaced_at k = None" "same_target (reference_of r) k"
  shows "host_key_get ref (db\<lparr>hb_known_hosts := hb_known_hosts db @ [k]\<rparr>) =
    (if ref = reference_of r then Some (to_host_key_record ref k) else host_key_get ref db)"
proof (cases "ref = reference_of r")
  case True
  have "host_key_get (reference_of r) db = None" using host_key_get_none [of db "reference_of r"] assms(1,2,3) by simp
  then have "find (\<lambda>r'. same_target (reference_of r) r' \<and> owns_profile (hr_ownerId r) (kh_profile_id r') db \<and> kh_replaced_at r' = None)
      (hb_known_hosts db) = None"
    by (simp add: host_key_get_def)
  moreover have "kh_profile_id k = hr_profileId r" using assms(5) by (simp add: same_target_def)
  ultimately show ?thesis using assms(2,4,5) True by (simp add: host_key_get_def find_append_cases)
next
  case False
  have "\<not> (same_target ref k \<and> owns_profile (hr_ownerId ref) (kh_profile_id k) db)"
  proof
    assume a: "same_target ref k \<and> owns_profile (hr_ownerId ref) (kh_profile_id k) db"
    have "hr_ownerId ref = hr_ownerId r"
      using a owner_unique [OF assms(3) _ assms(2), of "hr_ownerId ref"] assms(5) by (auto simp: same_target_def)
    then show False using a assms(5) False by (simp add: same_target_def)
  qed
  then show ?thesis using False by (auto simp: host_key_get_def find_append_cases split: option.splits)
qed

lemma pin_statement_get:
  assumes "host_db_ok db" "pin_ready rid r db"
  obtains db' where "pin_statement violated rid now r db = Inr db'" "host_db_ok db'"
    "(\<lambda>ref. host_key_get ref db') = put_if_absent (reference_of r) (r\<lparr>hk_pinnedAt := now\<rparr>) (\<lambda>ref. host_key_get ref db)"
proof (cases "list_ex (same_target (reference_of r)) (hb_known_hosts db)")
  case True
  let ?seen = "\<lambda>k. if same_target (reference_of r) k \<and> kh_fingerprint k = hk_fingerprint r \<and> kh_replaced_at k = None
      then k\<lparr>kh_last_seen_at := now\<rparr> else k"
  let ?db = "db\<lparr>hb_known_hosts := map ?seen (hb_known_hosts db)\<rparr>"
  have "map kh_id (map ?seen xs) = map kh_id xs"
    "map (\<lambda>r. (kh_profile_id r, kh_host r, kh_port r)) (map ?seen xs) = map (\<lambda>r. (kh_profile_id r, kh_host r, kh_port r)) xs"
    "list_all (\<lambda>r. kh_replaced_at r = None) (map ?seen xs) = list_all (\<lambda>r. kh_replaced_at r = None) xs" for xs
    by (induction xs) auto
  then have "host_db_ok ?db" using assms(1) by (simp add: host_db_ok_def del: map_map)
  moreover have "host_key_get (reference_of r) db \<noteq> None"
    using host_key_get_none [of db "reference_of r"] assms True by (simp add: pin_ready_def)
  then have "host_key_get ref ?db = put_if_absent (reference_of r) (r\<lparr>hk_pinnedAt := now\<rparr>) (\<lambda>ref. host_key_get ref db) ref" for ref
    by (auto simp: host_key_get_seen put_if_absent_def)
  ultimately show ?thesis using that [of ?db] True assms(2) by (simp add: pin_statement_def pin_ready_def fun_eq_iff)
next
  case False
  let ?k = "\<lparr>kh_id = rid, kh_profile_id = hr_profileId r, kh_host = hr_host r, kh_port = hr_port r,
    kh_key_type = hk_keyType r, kh_fingerprint = hk_fingerprint r, kh_key_blob = hk_keyBlob r,
    kh_first_seen_at = now, kh_last_seen_at = now, kh_replaced_at = None\<rparr>"
  let ?db = "db\<lparr>hb_known_hosts := hb_known_hosts db @ [?k]\<rparr>"
  have "host_db_ok ?db"
    using assms False by (auto simp: host_db_ok_def pin_ready_def list_ex_iff same_target_def)
  moreover have "host_key_get (reference_of r) db = None"
    using host_key_get_none [of db "reference_of r"] assms False by (simp add: pin_ready_def)
  then have "host_key_get ref ?db = put_if_absent (reference_of r) (r\<lparr>hk_pinnedAt := now\<rparr>) (\<lambda>ref. host_key_get ref db) ref" for ref
    using assms host_key_get_new [OF False, of ?k ref]
    by (simp add: put_if_absent_def pin_ready_def same_target_def to_host_key_record_def)
  ultimately show ?thesis using that [of ?db] False assms(2) by (simp add: pin_statement_def pin_ready_def fun_eq_iff)
qed


lemma pin_without_profile:
  assumes "\<not> owns_profile (hr_ownerId r) (hr_profileId r) db"
  shows "pinIfAbsent violated rid now r db = (Inl ''Unable to persist the SSH host key'', db)"
proof -
  have "host_key_get (reference_of r) db = None"
    using assms by (auto simp: host_key_get_def find_None_iff same_target_def)
  then show ?thesis using assms by (simp add: pinIfAbsent_def pin_statement_def)
qed

lemma host_key_get_unowned: "\<not> owns_profile (hr_ownerId ref) (hr_profileId ref) db \<Longrightarrow> host_key_get ref db = None"
  by (auto simp: host_key_get_def find_None_iff same_target_def)

lemma host_key_get_deleted:
  assumes "host_db_ok db"
  shows "host_key_get ref (known_host_delete owner profile db) =
    (if hr_profileId ref = profile \<and> hr_ownerId ref = owner then None else host_key_get ref db)"
proof (cases "owns_profile owner profile db")
  case False
  then have "known_host_delete owner profile db = db" by (simp add: known_host_delete_def filter_True)
  then show ?thesis using False host_key_get_unowned [of ref db] by auto
next
  case True
  show ?thesis
  proof (cases "hr_profileId ref = profile")
    case same: True
    have "host_key_get ref (known_host_delete owner profile db) = None"
      using True same by (auto simp: host_key_get_def known_host_delete_def find_None_iff same_target_def)
    moreover have "hr_ownerId ref = owner" if "host_key_get ref db \<noteq> None"
      using that True same owner_unique [OF assms, of _ profile] host_key_get_unowned [of ref db] by fastforce
    ultimately show ?thesis using same by (cases "host_key_get ref db") auto
  next
    case other: False
    then show ?thesis
      by (simp add: host_key_get_def known_host_delete_def) (subst find_filter_same, auto simp: same_target_def)
  qed
qed

lemma pin_refines:
  assumes "host_db_ok db" "pin_ready rid r db" "pinIfAbsent violated rid now r db = (res, db')"
  shows "host_db_ok db'"
    and "host_key_get ref db' = put_if_absent (reference_of r) (r\<lparr>hk_pinnedAt := now\<rparr>) (\<lambda>ref. host_key_get ref db) ref"
    and "res = Inr (the (host_key_get (reference_of r) db'))"
proof -
  obtain db1 where db1: "pin_statement violated rid now r db = Inr db1" "host_db_ok db1"
    "(\<lambda>ref. host_key_get ref db1) = put_if_absent (reference_of r) (r\<lparr>hk_pinnedAt := now\<rparr>) (\<lambda>ref. host_key_get ref db)"
    by (rule pin_statement_get [OF assms(1,2), where violated = violated and now = now])
  obtain s where s: "host_key_get (reference_of r) db1 = Some s"
    using fun_cong [OF db1(3), of "reference_of r"]
    by (cases "host_key_get (reference_of r) db") (auto simp: put_if_absent_def)
  then have run: "res = Inr s" "db' = (if hk_fingerprint s = hk_fingerprint r then note_fingerprint now r db1 else db1)"
    using assms(3) db1(1) by (auto simp: pinIfAbsent_def)
  show "host_db_ok db'" using run(2) db1(2) by simp
  show "host_key_get ref db' = put_if_absent (reference_of r) (r\<lparr>hk_pinnedAt := now\<rparr>) (\<lambda>ref. host_key_get ref db) ref"
    using run(2) fun_cong [OF db1(3), of ref] by simp
  show "res = Inr (the (host_key_get (reference_of r) db'))" using run s by simp
qed

text \<open>
  C22: On the tables, the repository of the SSH engine is a map from targets to keys with put-if-absent: a pin that can
  be stored answers with the key the map then holds for the target and leaves every other target as it was; and the
  deletion of a profile's keys removes exactly the targets of that profile and owner.
\<close>

theorem known_hosts_refine_map:
  assumes "host_db_ok db" "pin_ready rid r db" "pinIfAbsent violated rid now r db = (res, db')"
  shows "(\<lambda>ref. host_key_get ref db') = put_if_absent (reference_of r) (r\<lparr>hk_pinnedAt := now\<rparr>) (\<lambda>ref. host_key_get ref db) \<and>
    res = Inr (the (host_key_get (reference_of r) db')) \<and> host_db_ok db' \<and>
    (\<lambda>ref. host_key_get ref (known_host_delete owner profile db')) =
      (\<lambda>ref. if hr_profileId ref = profile \<and> hr_ownerId ref = owner then None else host_key_get ref db')"
  using pin_refines [OF assms] host_key_get_deleted [of db' _ owner profile] by (auto simp: fun_eq_iff)

definition demo_hosts :: host_db where
  "demo_hosts = \<lparr>hb_profiles = [\<lparr>pp_id = ''p'', pp_owner_id = ''o'', pp_last_host_fingerprint = None, pp_updated_at = ''t''\<rparr>],
     hb_known_hosts = []\<rparr>"

definition demo_key :: host_key_record where
  "demo_key = \<lparr>hr_ownerId = ''o'', hr_profileId = ''p'', hr_host = ''h'', hr_port = 22, hk_fingerprint = ''SHA256:k'',
     hk_keyType = ''ssh-ed25519'', hk_keyBlob = ''AAAA'', hk_pinnedAt = ''t''\<rparr>"

lemma demo_hosts_ready [simp]: "host_db_ok demo_hosts" "pin_ready rid demo_key demo_hosts"
  by (simp_all add: host_db_ok_def pin_ready_def demo_hosts_def demo_key_def owns_profile_def)

lemma known_hosts_refine_map_witness:
  "\<exists>db'. (\<lambda>ref. host_key_get ref db') =
    put_if_absent (reference_of demo_key) (demo_key\<lparr>hk_pinnedAt := ''u''\<rparr>) (\<lambda>ref. host_key_get ref demo_hosts)"
proof -
  obtain res db' where "pinIfAbsent ''e'' ''k1'' ''u'' demo_key demo_hosts = (res, db')" by force
  then show ?thesis using known_hosts_refine_map [of demo_hosts "''k1''" demo_key "''e''" "''u''" res db' "[]" "[]"] by auto
qed

lemma pinIfAbsent_target_kept:
  assumes "host_db_ok db" "ref \<noteq> reference_of r"
  shows "host_db_ok (snd (pinIfAbsent violated rid now r db)) \<and>
    host_key_get ref (snd (pinIfAbsent violated rid now r db)) = host_key_get ref db"
proof (cases "pin_ready rid r db")
  case True
  obtain res db' where "pinIfAbsent violated rid now r db = (res, db')" by force
  then show ?thesis using pin_refines [OF assms(1) True] assms(2) by (simp add: put_if_absent_def split: option.split)
next
  case False
  then show ?thesis
    using assms pin_without_profile [of r db violated rid now]
    by (cases "owns_profile (hr_ownerId r) (hr_profileId r) db") (auto simp: pin_ready_def pinIfAbsent_def pin_statement_def)
qed

interpretation d1: host_key_repo host_db_ok "pin_ready rid" host_key_get "pinIfAbsent violated rid now" for violated rid now
proof (unfold_locales, goal_cases)
  case (1 db r)
  then show ?case
  proof (cases "pin_ready rid r db")
    case True
    obtain res db' where "pinIfAbsent violated rid now r db = (res, db')" by force
    then show ?thesis using pin_refines(1) [OF 1 True] by simp
  next
    case False
    then show ?thesis
      using 1 pin_without_profile [of r db violated rid now]
      by (cases "owns_profile (hr_ownerId r) (hr_profileId r) db") (auto simp: pin_ready_def pinIfAbsent_def pin_statement_def)
  qed
next
  case (2 db r)
  obtain res db' where "pinIfAbsent violated rid now r db = (res, db')" by force
  then show ?case using pin_refines [OF 2(1,2)] 2(3) by (auto simp: put_if_absent_def)
next
  case (3 db r s)
  obtain res db' where "pinIfAbsent violated rid now r db = (res, db')" by force
  then show ?case using pin_refines [OF 3(1,2)] 3(3) by (auto simp: put_if_absent_def)
next
  case (4 db ref r)
  then show ?case using pinIfAbsent_target_kept by blast
qed

end
