(* ===== verification/Ssh_Engine.thy ===== *)
theory Ssh_Engine
  imports Known_Hosts Encoding
begin

text \<open>
  \<open>SSH2Engine\<close> of \<open>apps/worker/src/ssh/ssh2-engine.ts\<close>: the start of a connection, the verification of host keys,
  the shell and the end of a connection, as the segments of code between two awaits. The client library \<open>ssh2\<close>, the
  transport and the repository appear as the steps in which they answer; every order of the answers is allowed. The
  transfers of the engine are in \<open>File_Transfer\<close>, its directory listing in \<open>Directory_Listing\<close>. The consumer of the
  events may close the engine from inside an error event, and does nothing else with it there, as the session does;
  \<open>react\<close> is the reason of such a call.
\<close>

section \<open>The arguments of a connection\<close>

definition MAX_INPUT_BYTES :: nat where "MAX_INPUT_BYTES = 256 * 1024"

definition clamp :: "rat \<Rightarrow> int \<Rightarrow> int \<Rightarrow> int" where
  "clamp v lo hi = min hi (max lo \<lfloor>v\<rfloor>)"

definition term_char :: "char \<Rightarrow> bool" where
  "term_char c \<longleftrightarrow> is_alnum c \<or> c \<in> set ''._+-''"

definition normalizeTerminal :: "terminal_options \<Rightarrow> terminal_options throws" where
  "normalizeTerminal t =
     (let cols = \<lfloor>to_cols t\<rfloor>; rows = \<lfloor>to_rows t\<rfloor>
      in if cols < 10 \<or> 1000 < cols \<or> rows < 5 \<or> 1000 < rows then Inl ''Invalid terminal size''
         else Inr \<lparr>to_cols = of_int cols, to_rows = of_int rows,
           to_term = (if 1 \<le> length (to_term t) \<and> length (to_term t) \<le> 64 \<and> list_all term_char (to_term t)
             then to_term t else ''xterm-256color'')\<rparr>)"

definition engine_host_forbidden :: "char \<Rightarrow> bool" where
  "engine_host_forbidden c \<longleftrightarrow> cu c \<le> 32 \<or> cu c = 92 \<or> c \<in> set ''/?#@%''"

definition fingerprint_text :: "string \<Rightarrow> bool" where
  "fingerprint_text s \<longleftrightarrow> starts_with ''SHA256:'' s \<and> length s = 50 \<and>
     list_all (\<lambda>c. is_alnum c \<or> c = CHR ''+'' \<or> c = CHR ''/'') (drop 7 s)"

definition validateProfile :: "connection_profile \<Rightarrow> unit throws" where
  "validateProfile p =
     try_bind (guard_that (cp_ownerId p \<noteq> [] \<and> cp_profileId p \<noteq> []) ''SSH profile identity is missing'') (\<lambda>_.
     try_bind (guard_that (cp_host p \<noteq> [] \<and> length (cp_host p) \<le> 253 \<and> \<not> list_ex engine_host_forbidden (cp_host p)) ''Invalid SSH host'') (\<lambda>_.
     try_bind (guard_that (1 \<le> cp_port p \<and> cp_port p \<le> 65535) ''Invalid SSH port'') (\<lambda>_.
     try_bind (guard_that (\<not> (cp_authentication p = Auth_Tailscale \<and> cp_port p \<noteq> 22)) ''Tailscale SSH profiles must use port 22'') (\<lambda>_.
     try_bind (guard_that (cp_username p \<noteq> [] \<and> length (cp_username p) \<le> 128 \<and> \<not> list_ex (\<lambda>c. cu c \<in> {0, 10, 13}) (cp_username p))
       ''Invalid SSH username'') (\<lambda>_.
     try_bind (guard_that (case cp_authentication p of Auth_Password pw \<Rightarrow> length pw \<le> 4096 | _ \<Rightarrow> True) ''SSH password is too large'') (\<lambda>_.
     try_bind (guard_that (case cp_authentication p of Auth_Private_Key k _ \<Rightarrow> length k \<le> 256 * 1024 | _ \<Rightarrow> True) ''SSH private key is too large'') (\<lambda>_.
     guard_that (case cp_expectedFingerprint p of None \<Rightarrow> True | Some f \<Rightarrow> f = [] \<or> fingerprint_text f)
       ''Invalid expected host-key fingerprint'')))))))"

record client_authentication =
  ca_authHandler :: "string list option"
  ca_password :: "string option"
  ca_privateKey :: "string option"
  ca_passphrase :: "string option"

definition sshClientAuthenticationOptions :: "authentication \<Rightarrow> client_authentication" where
  "sshClientAuthenticationOptions a =
     (case a of
        Auth_Tailscale \<Rightarrow> \<lparr>ca_authHandler = Some [''none''], ca_password = None, ca_privateKey = None, ca_passphrase = None\<rparr>
      | Auth_Password pw \<Rightarrow> \<lparr>ca_authHandler = None, ca_password = Some pw, ca_privateKey = None, ca_passphrase = None\<rparr>
      | Auth_Private_Key k ph \<Rightarrow> \<lparr>ca_authHandler = None, ca_password = None, ca_privateKey = Some k, ca_passphrase = ph\<rparr>)"

section \<open>Host keys\<close>

definition key_fingerprint :: "(bytes \<Rightarrow> bytes) \<Rightarrow> bytes \<Rightarrow> string" where
  "key_fingerprint sha256 key = ''SHA256:'' @ drop_pad (btoa (sha256 key))"

definition key_type_byte :: "8 word \<Rightarrow> bool" where
  "key_type_byte b \<longleftrightarrow> unat b < 128 \<and> (is_alnum (char_of (unat b)) \<or> (char_of (unat b) :: char) \<in> set ''@._+-'')"

definition drop_bom :: "bytes \<Rightarrow> bytes" where
  "drop_bom bs = (if take 3 bs = [0xef, 0xbb, 0xbf] then drop 3 bs else bs)"

definition readHostKeyType :: "bytes \<Rightarrow> string" where
  "readHostKeyType key =
     (if length key < 4 then ''unknown''
      else let len = ((unat (key ! 0) * 256 + unat (key ! 1)) * 256 + unat (key ! 2)) * 256 + unat (key ! 3);
               body = drop_bom (take len (drop 4 key))
           in if len < 1 \<or> 128 < len \<or> length key < len + 4 then ''unknown''
              else if body \<noteq> [] \<and> list_all key_type_byte body then map (\<lambda>b. char_of (unat b)) body else ''unknown'')"

text \<open>The segments of \<open>verifyHostKey\<close>, with the events they emit and how they go on.\<close>

datatype verify_next = Verdict_Is bool | Ask_User | Pin_Key

definition verification_failed :: "string \<Rightarrow> engine_event list \<times> verify_next" where
  "verification_failed msg = ([Ev_Error ''HOST_KEY_VERIFICATION_FAILED'' msg], Verdict_Is False)"

abbreviation authenticating :: engine_event where
  "authenticating \<equiv> Ev_Status ''authenticating'' ''Authenticating with the SSH server''"

definition expected_fingerprint :: "connection_profile \<Rightarrow> string option \<Rightarrow> string option" where
  "expected_fingerprint p stored =
     (case (case stored of Some f \<Rightarrow> Some f | None \<Rightarrow> cp_expectedFingerprint p) of Some [] \<Rightarrow> None | e \<Rightarrow> e)"

definition verify_lookup ::
  "connection_profile \<Rightarrow> string \<Rightarrow> string \<Rightarrow> host_key_record option throws \<Rightarrow> engine_event list \<times> verify_next" where
  "verify_lookup p fp kt stored =
     (case stored of
        Inl e \<Rightarrow> verification_failed e
      | Inr r \<Rightarrow>
          (case expected_fingerprint p (map_option hk_fingerprint r) of
             Some expected \<Rightarrow>
               if expected = fp then ([Ev_Host_Key fp kt True None, authenticating], Verdict_Is True)
               else ([Ev_Host_Key fp kt False (Some expected),
                      Ev_Error ''HOST_KEY_MISMATCH'' (''Host key mismatch: expected '' @ expected @ '', received '' @ fp)],
                     Verdict_Is False)
           | None \<Rightarrow> ([Ev_Host_Key fp kt False None], Ask_User)))"

definition verify_decided :: "host_key_decision throws \<Rightarrow> engine_event list \<times> verify_next" where
  "verify_decided d =
     (case d of
        Inl e \<Rightarrow> verification_failed e
      | Inr d \<Rightarrow>
          if \<not> hd_accept d then ([Ev_Error ''HOST_KEY_REJECTED'' ''SSH host key was rejected''], Verdict_Is False)
          else if \<not> hd_remember d then ([authenticating], Verdict_Is True)
          else ([], Pin_Key))"

definition verify_pinned :: "string \<Rightarrow> host_key_record throws \<Rightarrow> engine_event list \<times> verify_next" where
  "verify_pinned fp pinned =
     (case pinned of
        Inl e \<Rightarrow> verification_failed e
      | Inr r \<Rightarrow>
          if hk_fingerprint r = fp then ([authenticating], Verdict_Is True)
          else ([Ev_Error ''HOST_KEY_PIN_RACE'' ''The host key changed while it was being confirmed''], Verdict_Is False))"

section \<open>The state of the engine\<close>

text \<open>
  What the engine did, oldest first: the events it emitted, the transports it was given (by number) and closed, the end of
  the client, and for each verification (by number) what the repository and the user answered and the verdict passed to
  the client.
\<close>

datatype engine_obs =
    Emit engine_event
  | Dial string int int
  | Opened nat
  | Closing_Transport nat
  | Client_End
  | Looked_Up nat "host_key_record option throws"
  | Decided nat host_key_decision
  | Pinned nat "host_key_record throws"
  | Verdict nat bytes bool
  | Set_Window int int
  | Wrote bytes

text \<open>Where \<open>connect\<close> stands: the await it is in, or the way it goes on.\<close>

datatype connect_pc =
    Not_Started | Await_Transport | Await_Client | Client_Ready | Client_Failed string
  | Await_Shell | Shell_Open | Shell_Failed string | Await_Close string | Settled "string option"

datatype verify_pc = V_Lookup | V_Waiting | V_Resumed "host_key_decision throws" | V_Pinning

datatype close_pc = Not_Closing | Await_Transport_End string | Close_Done

record engine =
  en_phase :: engine_phase
  en_profile :: "connection_profile option"
  en_terminal :: terminal_options
  en_transport :: "nat option"
  en_shell :: bool
  en_pending :: "(string \<times> nat) option"
  en_closing :: close_pc
  en_close_sent :: bool
  en_handshakes :: nat
  en_client :: bool
  en_settled :: bool
  en_connect :: connect_pc
  en_verifying :: "nat \<Rightarrow> (bytes \<times> verify_pc) option"
  en_next :: nat
  en_trace :: "engine_obs list"

definition engine_new :: engine where
  "engine_new = \<lparr>en_phase = Idle, en_profile = None, en_terminal = \<lparr>to_cols = 120, to_rows = 40, to_term = ''xterm-256color''\<rparr>,
     en_transport = None, en_shell = False, en_pending = None, en_closing = Not_Closing, en_close_sent = False,
     en_handshakes = 0, en_client = False, en_settled = False, en_connect = Not_Started, en_verifying = Map.empty, en_next = 0, en_trace = []\<rparr>"

definition logs :: "engine_obs list \<Rightarrow> engine \<Rightarrow> engine" where
  "logs os s = s\<lparr>en_trace := en_trace s @ os\<rparr>"

abbreviation emit :: "engine_event \<Rightarrow> engine \<Rightarrow> engine" where
  "emit e \<equiv> logs [Emit e]"

section \<open>The end of a connection\<close>

definition finish_close :: "string \<Rightarrow> engine \<Rightarrow> engine" where
  "finish_close reason s =
     (let s = s\<lparr>en_closing := Close_Done\<rparr>
      in if en_close_sent s then s else emit (Ev_Closed reason) (s\<lparr>en_close_sent := True\<rparr>))"

text \<open>The part of \<open>close\<close> before its await; a second call returns the promise of the first.\<close>

definition reject_pending :: "engine \<Rightarrow> engine" where
  "reject_pending s =
     (case en_pending s of
        None \<Rightarrow> s
      | Some (fp, i) \<Rightarrow> s\<lparr>en_pending := None, en_verifying := (en_verifying s)(i := map_option
          (\<lambda>(key, _). (key, V_Resumed (Inl ''SSH session closed during host-key confirmation''))) (en_verifying s i))\<rparr>)"

definition start_close :: "string \<Rightarrow> engine \<Rightarrow> engine" where
  "start_close reason s =
     (if en_closing s \<noteq> Not_Closing then s
      else let s = logs [Client_End] ((reject_pending s)\<lparr>en_phase := Closed, en_shell := False\<rparr>)
           in case en_transport s of
                None \<Rightarrow> finish_close reason s
              | Some t \<Rightarrow> logs [Closing_Transport t] (s\<lparr>en_transport := None, en_closing := Await_Transport_End reason\<rparr>))"

definition react_close :: "string option \<Rightarrow> engine \<Rightarrow> engine" where
  "react_close react s = (case react of None \<Rightarrow> s | Some reason \<Rightarrow> start_close reason s)"

section \<open>The start of a connection\<close>

definition connect_begin :: "rat option \<Rightarrow> connection_profile \<Rightarrow> terminal_options \<Rightarrow> engine \<Rightarrow> engine throws" where
  "connect_begin timeout p t s =
     (if en_phase s \<noteq> Idle then Inl ''SSH engine has already been started''
      else try_bind (validateProfile p) (\<lambda>_.
           try_bind (normalizeTerminal t) (\<lambda>t.
           Inr (logs [Emit (Ev_Status ''tcp_connecting'' (''Connecting to '' @ cp_host p @ '':'' @ show_nat (nat (cp_port p)))),
                      Dial (cp_host p) (cp_port p) (clamp (case timeout of None \<Rightarrow> 10000 | Some ms \<Rightarrow> ms) 2000 30000)]
             (s\<lparr>en_terminal := t, en_profile := Some p, en_phase := Connecting, en_connect := Await_Transport\<rparr>)))))"

text \<open>The handler of the exceptions of \<open>connect\<close>: it reports the error and awaits the end of the engine.\<close>

definition connect_fail :: "string \<Rightarrow> string option \<Rightarrow> engine \<Rightarrow> engine" where
  "connect_fail msg react s =
     start_close ''SSH connection failed''
       (react_close react (emit (Ev_Error ''SSH_CONNECT_FAILED'' msg) (s\<lparr>en_connect := Await_Close msg\<rparr>)))"

definition transport_opened :: "string option \<Rightarrow> engine \<Rightarrow> engine" where
  "transport_opened react s =
     (let t = en_next s; s = logs [Opened t] (s\<lparr>en_transport := Some t, en_next := Suc t\<rparr>)
      in if en_phase s = Closed then connect_fail ''SSH connection was cancelled'' react s
         else emit (Ev_Status ''ssh_handshake'' ''Negotiating a secure SSH session'') (s\<lparr>en_connect := Await_Client, en_client := True\<rparr>))"

definition client_continue :: "string option \<Rightarrow> engine \<Rightarrow> engine" where
  "client_continue react s =
     (if en_phase s = Closed then connect_fail ''SSH connection was cancelled'' react s else s\<lparr>en_connect := Await_Shell\<rparr>)"

definition shell_continue :: "engine \<Rightarrow> engine" where
  "shell_continue s = emit (Ev_Status ''ready'' ''SSH terminal is ready'') (s\<lparr>en_phase := Ready, en_connect := Settled None\<rparr>)"

text \<open>
  The client reports an error: the listener of \<open>once\<close> settles the promise of \<open>connectClient\<close>, and the second listener,
  which runs after it, finds it settled.
\<close>

definition client_error :: "string \<Rightarrow> string option \<Rightarrow> engine \<Rightarrow> engine" where
  "client_error msg react s =
     (let s = (if en_settled s then s else s\<lparr>en_settled := True, en_connect := Client_Failed msg\<rparr>)
      in if \<not> en_settled s then s
         else start_close ''SSH transport error'' (react_close react (emit (Ev_Error ''SSH_CONNECTION_ERROR'' msg) s)))"

definition client_handshake :: "string \<Rightarrow> string \<Rightarrow> string \<Rightarrow> string \<Rightarrow> string \<Rightarrow> string \<Rightarrow> engine \<Rightarrow> engine" where
  "client_handshake kex hk ci co mi mo s =
     emit (Ev_Handshake (0 < en_handshakes s) kex hk ci co mi mo) (s\<lparr>en_handshakes := Suc (en_handshakes s)\<rparr>)"

definition channel_error :: "string \<Rightarrow> string option \<Rightarrow> engine \<Rightarrow> engine" where
  "channel_error msg react s = start_close ''SSH shell failed'' (react_close react (emit (Ev_Error ''SSH_CHANNEL_ERROR'' msg) s))"

section \<open>Calls\<close>

definition decideHostKey :: "host_key_decision \<Rightarrow> engine \<Rightarrow> engine throws" where
  "decideHostKey d s =
     (case en_pending s of
        Some (fp, i) \<Rightarrow>
          if hd_fingerprint d = fp
          then Inr (logs [Decided i d] (s\<lparr>en_pending := None, en_verifying := (en_verifying s)(i := map_option
                 (\<lambda>(key, _). (key, V_Resumed (Inr d))) (en_verifying s i))\<rparr>))
          else Inl ''No matching host-key decision is pending''
      | None \<Rightarrow> Inl ''No matching host-key decision is pending'')"

definition engine_input :: "bytes \<Rightarrow> engine \<Rightarrow> engine throws" where
  "engine_input data s =
     (if en_phase s \<noteq> Ready then Inl ''SSH session is not ready''
      else if \<not> en_shell s then Inl ''SSH shell is not available''
      else if data = [] then Inr s
      else if MAX_INPUT_BYTES < length data then Inl ''Terminal input exceeds 256 KiB''
      else Inr (logs [Wrote data] s))"

definition engine_resize :: "rat \<Rightarrow> rat \<Rightarrow> engine \<Rightarrow> engine throws" where
  "engine_resize cols rows s =
     try_bind (normalizeTerminal ((en_terminal s)\<lparr>to_cols := cols, to_rows := rows\<rparr>)) (\<lambda>t.
     Inr ((if en_shell s then logs [Set_Window \<lfloor>to_rows t\<rfloor> \<lfloor>to_cols t\<rfloor>] else id) (s\<lparr>en_terminal := t\<rparr>)))"

section \<open>The verifications in flight\<close>

text \<open>The events of a segment and where the verification goes from there.\<close>

definition verify_go :: "nat \<Rightarrow> bytes \<Rightarrow> string \<Rightarrow> engine_event list \<times> verify_next \<Rightarrow> engine \<Rightarrow> engine" where
  "verify_go i key fp r s =
     (case r of (evs, k) \<Rightarrow>
        let s = logs (map Emit evs) s
        in case k of
             Verdict_Is b \<Rightarrow> logs [Verdict i key b] (s\<lparr>en_verifying := (en_verifying s)(i := None)\<rparr>)
           | Ask_User \<Rightarrow>
               if en_pending s \<noteq> None
               then logs (map Emit (fst (verification_failed ''Another host key is already awaiting confirmation'')) @ [Verdict i key False])
                      (s\<lparr>en_verifying := (en_verifying s)(i := None)\<rparr>)
               else s\<lparr>en_pending := Some (fp, i), en_verifying := (en_verifying s)(i \<mapsto> (key, V_Waiting))\<rparr>
           | Pin_Key \<Rightarrow> s\<lparr>en_verifying := (en_verifying s)(i \<mapsto> (key, V_Pinning))\<rparr>)"

definition confirmation_timeout :: "nat \<Rightarrow> bytes \<Rightarrow> string \<Rightarrow> engine \<Rightarrow> engine" where
  "confirmation_timeout i key fp s =
     (let s = (if map_option prod.fst (en_pending s) = Some fp then s\<lparr>en_pending := None\<rparr> else s)
      in s\<lparr>en_verifying := (en_verifying s)(i \<mapsto> (key, V_Resumed (Inl ''Host-key confirmation timed out'')))\<rparr>)"

section \<open>The steps\<close>

text \<open>
  One rule for each way the engine goes on. \<open>sha256\<close> is the digest of the runtime; the names of the rules follow the
  source: what answers (the transport, the client, the channel, the repository, the user, the timer) or who calls.
\<close>

inductive engine_step :: "(bytes \<Rightarrow> bytes) \<Rightarrow> engine \<Rightarrow> engine \<Rightarrow> bool" for sha256 where
  call_connect: "connect_begin timeout p t s = Inr s' \<Longrightarrow> engine_step sha256 s s'"
| call_decide: "decideHostKey d s = Inr s' \<Longrightarrow> engine_step sha256 s s'"
| call_input: "engine_input data s = Inr s' \<Longrightarrow> engine_step sha256 s s'"
| call_resize: "engine_resize cols rows s = Inr s' \<Longrightarrow> engine_step sha256 s s'"
| call_close: "engine_step sha256 s (start_close reason s)"
| dial_succeeds: "en_connect s = Await_Transport \<Longrightarrow> engine_step sha256 s (transport_opened react s)"
| dial_fails: "en_connect s = Await_Transport \<Longrightarrow> engine_step sha256 s (connect_fail msg react s)"
| client_ready: "en_connect s = Await_Client \<Longrightarrow>
    engine_step sha256 s (s\<lparr>en_settled := True, en_connect := Client_Ready\<rparr>)"
| client_reports: "en_client s \<Longrightarrow> engine_step sha256 s (client_error msg react s)"
| client_negotiated: "en_client s \<Longrightarrow> engine_step sha256 s (client_handshake kex hk ci co mi mo s)"
| client_banner: "en_client s \<Longrightarrow> engine_step sha256 s (emit (Ev_Banner msg) s)"
| client_closed: "en_client s \<Longrightarrow> engine_step sha256 s (start_close ''SSH server closed the connection'' s)"
| connect_client: "en_connect s = Client_Ready \<Longrightarrow> engine_step sha256 s (client_continue react s)"
| connect_failed: "en_connect s = Client_Failed msg \<or> en_connect s = Shell_Failed msg \<Longrightarrow>
    engine_step sha256 s (connect_fail msg react s)"
| shell_opens: "en_connect s = Await_Shell \<Longrightarrow> engine_step sha256 s (s\<lparr>en_shell := True, en_connect := Shell_Open\<rparr>)"
| shell_refused: "en_connect s = Await_Shell \<Longrightarrow> engine_step sha256 s (s\<lparr>en_connect := Shell_Failed msg\<rparr>)"
| connect_ready: "en_connect s = Shell_Open \<Longrightarrow> engine_step sha256 s (shell_continue s)"
| connect_rejects: "en_connect s = Await_Close msg \<Longrightarrow> en_closing s = Close_Done \<Longrightarrow>
    engine_step sha256 s (s\<lparr>en_connect := Settled (Some msg)\<rparr>)"
| channel_data: "en_client s \<Longrightarrow> engine_step sha256 s (emit (Ev_Output txt') s)"
| channel_fails: "en_client s \<Longrightarrow> engine_step sha256 s (channel_error msg react s)"
| channel_closes: "en_client s \<Longrightarrow> engine_step sha256 s (start_close ''SSH shell closed'' s)"
| transport_ended: "en_closing s = Await_Transport_End reason \<Longrightarrow> engine_step sha256 s (finish_close reason s)"
| host_key_presented: "en_client s \<Longrightarrow>
    engine_step sha256 s (s\<lparr>en_verifying := (en_verifying s)(en_next s \<mapsto> (key, V_Lookup)), en_next := Suc (en_next s)\<rparr>)"
| repository_found: "en_verifying s i = Some (key, V_Lookup) \<Longrightarrow> en_profile s = Some p \<Longrightarrow>
    engine_step sha256 s (verify_go i key (key_fingerprint sha256 key)
      (verify_lookup p (key_fingerprint sha256 key) (readHostKeyType key) r) (logs [Looked_Up i r] s))"
| confirmation_expires: "en_verifying s i = Some (key, V_Waiting) \<Longrightarrow>
    engine_step sha256 s (confirmation_timeout i key (key_fingerprint sha256 key) s)"
| verification_resumes: "en_verifying s i = Some (key, V_Resumed d) \<Longrightarrow>
    engine_step sha256 s (verify_go i key (key_fingerprint sha256 key) (verify_decided d) s)"
| repository_pinned: "en_verifying s i = Some (key, V_Pinning) \<Longrightarrow>
    engine_step sha256 s (verify_go i key (key_fingerprint sha256 key) (verify_pinned (key_fingerprint sha256 key) r)
      (logs [Pinned i r] s))"

text \<open>The states a new engine reaches.\<close>

abbreviation engine_steps :: "(bytes \<Rightarrow> bytes) \<Rightarrow> engine \<Rightarrow> engine \<Rightarrow> bool" where
  "engine_steps sha256 \<equiv> (engine_step sha256)\<^sup>*\<^sup>*"

abbreviation engine_reach :: "(bytes \<Rightarrow> bytes) \<Rightarrow> engine \<Rightarrow> bool" where
  "engine_reach sha256 \<equiv> engine_steps sha256 engine_new"

section \<open>Verdicts on host keys\<close>

definition host_key_obs :: "engine_obs \<Rightarrow> bool" where
  "host_key_obs ob = (case ob of Looked_Up _ _ \<Rightarrow> True | Decided _ _ \<Rightarrow> True | Pinned _ _ \<Rightarrow> True | Verdict _ _ _ \<Rightarrow> True | _ \<Rightarrow> False)"

lemma host_key_obs_simps [simp]:
  "\<not> host_key_obs (Emit e)" "\<not> host_key_obs (Dial h p n)" "\<not> host_key_obs (Opened k)" "\<not> host_key_obs (Closing_Transport k)"
  "\<not> host_key_obs Client_End" "\<not> host_key_obs (Set_Window m n)" "\<not> host_key_obs (Wrote bs)"
  "host_key_obs (Looked_Up i r)" "host_key_obs (Decided i d)" "host_key_obs (Pinned i q)" "host_key_obs (Verdict i key b)"
  by (simp_all add: host_key_obs_def)

fun obs_number :: "engine_obs \<Rightarrow> nat option" where
  "obs_number (Looked_Up i _) = Some i"
| "obs_number (Decided i _) = Some i"
| "obs_number (Pinned i _) = Some i"
| "obs_number (Verdict i _ _) = Some i"
| "obs_number _ = None"

definition lookups :: "nat \<Rightarrow> engine_obs list \<Rightarrow> host_key_record option throws list" where
  "lookups i tr = List.map_filter (\<lambda>ob. case ob of Looked_Up j r \<Rightarrow> if j = i then Some r else None | _ \<Rightarrow> None) tr"

text \<open>
  What a verdict of trust rests on: the fingerprint stored for the target (or expected by the profile) is that of the
  key; or nothing is stored and the user accepted this fingerprint, and if the key was to be remembered the
  repository answered with this fingerprint.
\<close>

definition user_trusts :: "(bytes \<Rightarrow> bytes) \<Rightarrow> engine_obs list \<Rightarrow> nat \<Rightarrow> bytes \<Rightarrow> bool" where
  "user_trusts sha256 tr i key \<longleftrightarrow> (\<exists>d. Decided i d \<in> set tr \<and> hd_fingerprint d = key_fingerprint sha256 key \<and> hd_accept d \<and>
     (hd_remember d \<longrightarrow> (\<exists>r. Pinned i (Inr r) \<in> set tr \<and> hk_fingerprint r = key_fingerprint sha256 key)))"

definition key_trusted :: "(bytes \<Rightarrow> bytes) \<Rightarrow> connection_profile \<Rightarrow> engine_obs list \<Rightarrow> nat \<Rightarrow> bytes \<Rightarrow> bool" where
  "key_trusted sha256 p tr i key \<longleftrightarrow>
     (\<exists>r. lookups i tr = [Inr r] \<and>
        (case expected_fingerprint p (map_option hk_fingerprint r) of
           Some e \<Rightarrow> e = key_fingerprint sha256 key
         | None \<Rightarrow> user_trusts sha256 tr i key))"

definition asked :: "connection_profile \<Rightarrow> engine_obs list \<Rightarrow> nat \<Rightarrow> bool" where
  "asked p tr i \<longleftrightarrow> (\<exists>r. lookups i tr = [Inr r] \<and> expected_fingerprint p (map_option hk_fingerprint r) = None)"

definition decided_for :: "(bytes \<Rightarrow> bytes) \<Rightarrow> engine_obs list \<Rightarrow> nat \<Rightarrow> bytes \<Rightarrow> host_key_decision \<Rightarrow> bool" where
  "decided_for sha256 tr i key d \<longleftrightarrow> Decided i d \<in> set tr \<and> hd_fingerprint d = key_fingerprint sha256 key"

definition verify_ok :: "(bytes \<Rightarrow> bytes) \<Rightarrow> connection_profile \<Rightarrow> engine_obs list \<Rightarrow> nat \<Rightarrow> bytes \<Rightarrow> verify_pc \<Rightarrow> bool" where
  "verify_ok sha256 p tr i key pc =
     (case pc of
        V_Lookup \<Rightarrow> lookups i tr = []
      | V_Waiting \<Rightarrow> asked p tr i
      | V_Resumed (Inl e) \<Rightarrow> asked p tr i
      | V_Resumed (Inr d) \<Rightarrow> asked p tr i \<and> decided_for sha256 tr i key d
      | V_Pinning \<Rightarrow> asked p tr i \<and> (\<exists>d. decided_for sha256 tr i key d \<and> hd_accept d \<and> hd_remember d))"

definition verdicts_inv :: "(bytes \<Rightarrow> bytes) \<Rightarrow> engine \<Rightarrow> bool" where
  "verdicts_inv sha256 s \<longleftrightarrow>
     (\<forall>i ob. en_next s \<le> i \<longrightarrow> en_verifying s i = None \<and> (ob \<in> set (en_trace s) \<longrightarrow> obs_number ob \<noteq> Some i)) \<and>
     (\<forall>i key pc. en_verifying s i = Some (key, pc) \<longrightarrow> (\<exists>p. en_profile s = Some p \<and> verify_ok sha256 p (en_trace s) i key pc)) \<and>
     (\<forall>f i. en_pending s = Some (f, i) \<longrightarrow> (\<exists>key. en_verifying s i = Some (key, V_Waiting) \<and> f = key_fingerprint sha256 key)) \<and>
     (\<forall>i key. Verdict i key True \<in> set (en_trace s) \<longrightarrow> (\<exists>p. en_profile s = Some p \<and> key_trusted sha256 p (en_trace s) i key))"

lemma verdicts_invI:
  assumes "\<And>i. en_next s \<le> i \<Longrightarrow> en_verifying s i = None"
    and "\<And>i ob. en_next s \<le> i \<Longrightarrow> ob \<in> set (en_trace s) \<Longrightarrow> obs_number ob \<noteq> Some i"
    and "\<And>i key pc. en_verifying s i = Some (key, pc) \<Longrightarrow> \<exists>p. en_profile s = Some p \<and> verify_ok sha256 p (en_trace s) i key pc"
    and "\<And>f i. en_pending s = Some (f, i) \<Longrightarrow> \<exists>key. en_verifying s i = Some (key, V_Waiting) \<and> f = key_fingerprint sha256 key"
    and "\<And>i key. Verdict i key True \<in> set (en_trace s) \<Longrightarrow> \<exists>p. en_profile s = Some p \<and> key_trusted sha256 p (en_trace s) i key"
  shows "verdicts_inv sha256 s"
  using assms by (auto simp: verdicts_inv_def)

lemma verdicts_invD:
  assumes "verdicts_inv sha256 s"
  shows "en_next s \<le> i \<Longrightarrow> en_verifying s i = None"
    and "en_next s \<le> i \<Longrightarrow> ob \<in> set (en_trace s) \<Longrightarrow> obs_number ob \<noteq> Some i"
    and "en_verifying s i = Some (key, pc) \<Longrightarrow> \<exists>p. en_profile s = Some p \<and> verify_ok sha256 p (en_trace s) i key pc"
    and "en_pending s = Some (f, i) \<Longrightarrow> \<exists>key. en_verifying s i = Some (key, V_Waiting) \<and> f = key_fingerprint sha256 key"
    and "Verdict i key True \<in> set (en_trace s) \<Longrightarrow> \<exists>p. en_profile s = Some p \<and> key_trusted sha256 p (en_trace s) i key"
  using assms by (auto simp: verdicts_inv_def)

definition started_inv :: "engine \<Rightarrow> bool" where
  "started_inv s \<longleftrightarrow> (en_phase s = Idle \<longrightarrow> en_profile s = None) \<and> (en_profile s = None \<longrightarrow> en_connect s = Not_Started \<and> \<not> en_client s)"

subsection \<open>What the operations change\<close>

lemma lookups_append [simp]: "lookups i (xs @ ys) = lookups i xs @ lookups i ys"
  by (simp add: lookups_def List.map_filter_def)

lemma lookups_simps [simp]:
  "lookups i [] = []" "lookups i (Looked_Up j r # tr) = (if j = i then [r] else []) @ lookups i tr"
  "lookups i (Emit e # tr) = lookups i tr" "lookups i (Dial h p n # tr) = lookups i tr" "lookups i (Opened k # tr) = lookups i tr"
  "lookups i (Closing_Transport k # tr) = lookups i tr" "lookups i (Client_End # tr) = lookups i tr"
  "lookups i (Set_Window m n # tr) = lookups i tr" "lookups i (Wrote bs # tr) = lookups i tr"
  "lookups i (Decided j d # tr) = lookups i tr" "lookups i (Pinned j q # tr) = lookups i tr"
  "lookups i (Verdict j key b # tr) = lookups i tr"
  by (simp_all add: lookups_def List.map_filter_def)

lemma lookups_emits [simp]: "lookups i (map Emit evs) = []"
  by (induction evs) simp_all

lemma lookups_none: "\<forall>ob \<in> set tr. obs_number ob \<noteq> Some i \<Longrightarrow> lookups i tr = []"
  by (auto simp: lookups_def List.map_filter_def filter_empty_conv split: engine_obs.splits)

lemma logs_simps [simp]:
  "en_trace (logs os s) = en_trace s @ os" "en_profile (logs os s) = en_profile s" "en_pending (logs os s) = en_pending s"
  "en_verifying (logs os s) = en_verifying s" "en_next (logs os s) = en_next s" "en_phase (logs os s) = en_phase s"
  "en_connect (logs os s) = en_connect s" "en_client (logs os s) = en_client s" "en_transport (logs os s) = en_transport s"
  "en_closing (logs os s) = en_closing s" "en_close_sent (logs os s) = en_close_sent s" "en_settled (logs os s) = en_settled s"
  by (simp_all add: logs_def)

text \<open>A step is quiet if it changes nothing the verdicts depend on: it may emit, log other things and use up numbers.\<close>

definition quiet :: "engine \<Rightarrow> engine \<Rightarrow> bool" where
  "quiet s s' \<longleftrightarrow> en_profile s' = en_profile s \<and> en_pending s' = en_pending s \<and> en_verifying s' = en_verifying s \<and>
     en_next s \<le> en_next s' \<and> (\<exists>os. en_trace s' = en_trace s @ os \<and> (\<forall>ob \<in> set os. \<not> host_key_obs ob))"

lemma quiet_refl [simp]: "quiet s s"
  by (simp add: quiet_def)

lemma quiet_trans: "quiet s t \<Longrightarrow> quiet t u \<Longrightarrow> quiet s u"
  unfolding quiet_def by (metis append.assoc order.trans Un_iff set_append)

lemma quiet_logs: "\<forall>ob \<in> set os. \<not> host_key_obs ob \<Longrightarrow> quiet s t \<Longrightarrow> quiet s (logs os t)"
  unfolding quiet_def by auto

lemma quiet_updates:
  "quiet s (t\<lparr>en_phase := x1\<rparr>) = quiet s t" "quiet s (t\<lparr>en_shell := x2\<rparr>) = quiet s t" "quiet s (t\<lparr>en_transport := x3\<rparr>) = quiet s t"
  "quiet s (t\<lparr>en_closing := x4\<rparr>) = quiet s t" "quiet s (t\<lparr>en_close_sent := x5\<rparr>) = quiet s t" "quiet s (t\<lparr>en_connect := x6\<rparr>) = quiet s t"
  "quiet s (t\<lparr>en_client := x7\<rparr>) = quiet s t" "quiet s (t\<lparr>en_settled := x8\<rparr>) = quiet s t" "quiet s (t\<lparr>en_handshakes := x9\<rparr>) = quiet s t"
  "quiet s (t\<lparr>en_terminal := x10\<rparr>) = quiet s t"
  by (simp_all add: quiet_def)

lemma lookups_other: "\<forall>ob \<in> set os. \<not> host_key_obs ob \<Longrightarrow> lookups i os = []"
  by (induction os) (auto simp: host_key_obs_def split: engine_obs.splits)

lemma verify_ok_extend:
  "verify_ok sha256 p tr i key pc \<Longrightarrow> lookups i os = [] \<Longrightarrow> verify_ok sha256 p (tr @ os) i key pc"
  by (auto simp: verify_ok_def asked_def decided_for_def split: verify_pc.splits sum.splits)

lemma key_trusted_extend:
  "key_trusted sha256 p tr i key \<Longrightarrow> lookups i os = [] \<Longrightarrow> key_trusted sha256 p (tr @ os) i key"
  by (fastforce simp: key_trusted_def user_trusts_def split: option.splits)

lemma verdicts_inv_quiet:
  assumes inv: "verdicts_inv sha256 s" and q: "quiet s s'"
  shows "verdicts_inv sha256 s'"
proof -
  obtain os where os: "en_trace s' = en_trace s @ os" "\<forall>ob \<in> set os. \<not> host_key_obs ob" using q by (auto simp: quiet_def)
  have none: "lookups i os = []" for i using os(2) by (rule lookups_other)
  have num: "ob \<in> set os \<Longrightarrow> obs_number ob = None" for ob
    using os(2) by (cases ob) auto
  have same: "en_profile s' = en_profile s" "en_pending s' = en_pending s" "en_verifying s' = en_verifying s" "en_next s \<le> en_next s'"
    using q by (simp_all add: quiet_def)
  show ?thesis
  proof (rule verdicts_invI)
    fix i ob assume "en_next s' \<le> i" "ob \<in> set (en_trace s')"
    then show "obs_number ob \<noteq> Some i" using verdicts_invD(2) [OF inv, of i ob] num same(4) by (auto simp: os(1))
  next
    fix i key assume "Verdict i key True \<in> set (en_trace s')"
    then have "Verdict i key True \<in> set (en_trace s)" using num [of "Verdict i key True"] by (auto simp: os(1))
    then show "\<exists>p. en_profile s' = Some p \<and> key_trusted sha256 p (en_trace s') i key"
      using verdicts_invD(5) [OF inv] key_trusted_extend [OF _ none] same by (metis os(1))
  next
    fix i key pc assume "en_verifying s' i = Some (key, pc)"
    then show "\<exists>p. en_profile s' = Some p \<and> verify_ok sha256 p (en_trace s') i key pc"
      using verdicts_invD(3) [OF inv] verify_ok_extend [OF _ none] same by (metis os(1))
  qed (use verdicts_invD(1,4) [OF inv] same in auto)
qed

text \<open>A step that moves one verification, with observations of that verification only.\<close>

lemma verdicts_inv_at:
  assumes inv: "verdicts_inv sha256 s" and live: "en_verifying s i \<noteq> None"
    and s': "en_profile s' = en_profile s" "en_next s' = en_next s" "en_verifying s' = (en_verifying s)(i := x)"
      "en_trace s' = en_trace s @ os"
    and num: "\<forall>ob \<in> set os. obs_number ob \<noteq> None \<longrightarrow> obs_number ob = Some i"
    and pend: "en_pending s' = None \<or> (en_pending s' = en_pending s \<and> (\<forall>f. en_pending s \<noteq> Some (f, i))) \<or>
      (\<exists>key. en_pending s' = Some (key_fingerprint sha256 key, i) \<and> x = Some (key, V_Waiting))"
    and moved: "\<And>key pc. x = Some (key, pc) \<Longrightarrow> \<exists>p. en_profile s = Some p \<and> verify_ok sha256 p (en_trace s @ os) i key pc"
    and verdict: "\<And>key. Verdict i key True \<in> set (en_trace s @ os) \<Longrightarrow>
      \<exists>p. en_profile s = Some p \<and> key_trusted sha256 p (en_trace s @ os) i key"
  shows "verdicts_inv sha256 s'"
proof (rule verdicts_invI)
  have lt: "i < en_next s" using verdicts_invD(1) [OF inv, of i] live by (cases "i < en_next s") auto
  have none: "j \<noteq> i \<Longrightarrow> lookups j os = []" for j
    using num by (intro lookups_none) auto
  show "\<exists>p. en_profile s' = Some p \<and> verify_ok sha256 p (en_trace s') j key pc" if "en_verifying s' j = Some (key, pc)" for j key pc
    using that moved verdicts_invD(3) [OF inv, of j key pc] verify_ok_extend [OF _ none, of sha256 _ _ j]
    by (cases "j = i") (auto simp: s')
  show "\<exists>p. en_profile s' = Some p \<and> key_trusted sha256 p (en_trace s') j key" if v: "Verdict j key True \<in> set (en_trace s')" for j key
  proof (cases "j = i")
    case True
    then show ?thesis using verdict v by (simp add: s')
  next
    case False
    then have "Verdict j key True \<in> set (en_trace s)" using v num by (auto simp: s')
    then show ?thesis using verdicts_invD(5) [OF inv] key_trusted_extend [OF _ none [OF False]] s' by metis
  qed
  show "en_verifying s' j = None" if "en_next s' \<le> j" for j
    using that verdicts_invD(1) [OF inv, of j] lt by (auto simp: s')
  show "obs_number ob \<noteq> Some j" if "en_next s' \<le> j" "ob \<in> set (en_trace s')" for j ob
    using that verdicts_invD(2) [OF inv, of j ob] num lt by (auto simp: s')
  show "\<exists>key. en_verifying s' j = Some (key, V_Waiting) \<and> f = key_fingerprint sha256 key" if "en_pending s' = Some (f, j)" for f j
    using that pend verdicts_invD(4) [OF inv, of f j] by (auto simp: s' dest: sym)
qed

lemma no_verdict_before_lookup:
  "verdicts_inv sha256 s \<Longrightarrow> lookups i (en_trace s) = [] \<Longrightarrow> Verdict i key True \<notin> set (en_trace s)"
  using verdicts_invD(5) [of sha256 s i key] by (auto simp: key_trusted_def)

lemma pending_not_other:
  assumes "verdicts_inv sha256 s" "en_verifying s i = Some (key, pc)" "pc \<noteq> V_Waiting"
  shows "en_pending s \<noteq> Some (f, i)"
  using verdicts_invD(4) [OF assms(1), of f i] assms(2,3) by auto

lemma verify_go_fields [simp]:
  "en_profile (verify_go i key fp r s) = en_profile s" "en_next (verify_go i key fp r s) = en_next s"
  by (auto simp: verify_go_def Let_def split: prod.splits verify_next.splits)

lemma in_emits [simp]: "Verdict i key b \<notin> Emit ` A" "Looked_Up i r \<notin> Emit ` A" "Decided i d \<notin> Emit ` A" "Pinned i q \<notin> Emit ` A"
  by auto

lemma repository_found_inv:
  assumes inv: "verdicts_inv sha256 s" and pc: "en_verifying s i = Some (key, V_Lookup)" and p: "en_profile s = Some p"
  shows "verdicts_inv sha256 (verify_go i key (key_fingerprint sha256 key)
      (verify_lookup p (key_fingerprint sha256 key) kt r) (logs [Looked_Up i r] s))" (is "verdicts_inv _ ?s")
proof -
  have empty: "lookups i (en_trace s) = []" using verdicts_invD(3) [OF inv pc] by (simp add: verify_ok_def)
  note fresh = no_verdict_before_lookup [OF inv empty] and pend = pending_not_other [OF inv pc]
  obtain evs k where seg: "verify_lookup p (key_fingerprint sha256 key) kt r = (evs, k)" by force
  have outcome: "k \<noteq> Pin_Key"
    "k = Verdict_Is True \<Longrightarrow> \<exists>q. r = Inr q \<and> expected_fingerprint p (map_option hk_fingerprint q) = Some (key_fingerprint sha256 key)"
    "k = Ask_User \<Longrightarrow> \<exists>q. r = Inr q \<and> expected_fingerprint p (map_option hk_fingerprint q) = None"
    using seg by (auto simp: verify_lookup_def verification_failed_def split: sum.splits option.splits if_splits)
  show ?thesis
  proof (cases k)
    case (Verdict_Is b)
    then show ?thesis
      using outcome(2) fresh pend
      by (intro verdicts_inv_at [OF inv, of i ?s None "Looked_Up i r # map Emit evs @ [Verdict i key b]"])
         (auto simp: pc p seg verify_go_def key_trusted_def empty)
  next
    case Ask_User
    then show ?thesis
    proof (cases "en_pending s")
      case None
      then show ?thesis
        using outcome(3) fresh Ask_User
        by (intro verdicts_inv_at [OF inv, of i ?s "Some (key, V_Waiting)" "Looked_Up i r # map Emit evs"])
           (auto simp: pc p seg verify_go_def verify_ok_def asked_def empty)
    next
      case (Some q)
      then show ?thesis
        using fresh Ask_User pend
        by (intro verdicts_inv_at [OF inv, of i ?s None "Looked_Up i r # map Emit evs @
              map Emit (fst (verification_failed ''Another host key is already awaiting confirmation'')) @ [Verdict i key False]"])
           (auto simp: pc p seg verify_go_def)
    qed
  qed (use outcome in simp)
qed

lemma segment_inv:
  assumes inv: "verdicts_inv sha256 s" and pc: "en_verifying s i = Some (key, pc)" and p: "en_profile s = Some p"
    and "pc \<noteq> V_Waiting" "k \<noteq> Ask_User"
    and os: "\<forall>ob \<in> set os. obs_number ob = Some i" "lookups i os = []" "\<And>key. Verdict i key True \<notin> set os"
    and trust: "k = Verdict_Is True \<Longrightarrow> key_trusted sha256 p (en_trace s @ os) i key"
    and pin: "k = Pin_Key \<Longrightarrow> verify_ok sha256 p (en_trace s @ os) i key V_Pinning"
  shows "verdicts_inv sha256 (verify_go i key (key_fingerprint sha256 key) (evs, k) (logs os s))" (is "verdicts_inv _ ?s")
proof -
  note pend = pending_not_other [OF inv pc \<open>pc \<noteq> V_Waiting\<close>]
  have old: "\<exists>p. en_profile s = Some p \<and> key_trusted sha256 p (en_trace s @ os @ rest) i key'"
    if "Verdict i key' True \<in> set (en_trace s)" "lookups i rest = []" for key' rest
    using verdicts_invD(5) [OF inv that(1)] key_trusted_extend [of sha256 _ "en_trace s" i key' "os @ rest"] that(2) os(2) by auto
  show ?thesis
  proof (cases k)
    case (Verdict_Is b)
    have "b \<Longrightarrow> key_trusted sha256 p (en_trace s @ os @ map Emit evs @ [Verdict i key b]) i key"
      using key_trusted_extend [OF trust, of "map Emit evs @ [Verdict i key b]"] Verdict_Is by simp
    then show ?thesis
      using pend old os Verdict_Is
      by (intro verdicts_inv_at [OF inv, of i ?s None "os @ map Emit evs @ [Verdict i key b]"])
         (auto simp: pc p verify_go_def)
  next
    case Pin_Key
    then show ?thesis
      using pend old [where rest = "map Emit evs"] os verify_ok_extend [OF pin, of "map Emit evs"]
      by (intro verdicts_inv_at [OF inv, of i ?s "Some (key, V_Pinning)" "os @ map Emit evs"])
         (auto simp: pc p verify_go_def)
  qed (use \<open>k \<noteq> Ask_User\<close> in simp)
qed

lemma verify_decided_next:
  assumes "verify_decided d = (evs, k)"
  shows "k \<noteq> Ask_User" "k = Verdict_Is True \<Longrightarrow> \<exists>e. d = Inr e \<and> hd_accept e \<and> \<not> hd_remember e"
    "k = Pin_Key \<Longrightarrow> \<exists>e. d = Inr e \<and> hd_accept e \<and> hd_remember e"
  using assms by (auto simp: verify_decided_def verification_failed_def split: sum.splits if_splits)

lemma verification_resumes_inv:
  assumes inv: "verdicts_inv sha256 s" and pc: "en_verifying s i = Some (key, V_Resumed d)"
  shows "verdicts_inv sha256 (verify_go i key (key_fingerprint sha256 key) (verify_decided d) s)"
proof -
  obtain p where p: "en_profile s = Some p" "verify_ok sha256 p (en_trace s) i key (V_Resumed d)"
    using verdicts_invD(3) [OF inv pc] by auto
  obtain evs k where seg: "verify_decided d = (evs, k)" by force
  note go = verify_decided_next [OF seg]
  have "verdicts_inv sha256 (verify_go i key (key_fingerprint sha256 key) (evs, k) (logs [] s))"
    using go p(2)
    by (intro segment_inv [OF inv pc p(1)])
       (auto simp: verify_ok_def key_trusted_def asked_def decided_for_def user_trusts_def split: sum.splits)
  then show ?thesis by (simp add: seg logs_def)
qed

lemma repository_pinned_inv:
  assumes inv: "verdicts_inv sha256 s" and pc: "en_verifying s i = Some (key, V_Pinning)"
  shows "verdicts_inv sha256 (verify_go i key (key_fingerprint sha256 key)
    (verify_pinned (key_fingerprint sha256 key) r) (logs [Pinned i r] s))"
proof -
  obtain p where p: "en_profile s = Some p" "verify_ok sha256 p (en_trace s) i key V_Pinning"
    using verdicts_invD(3) [OF inv pc] by auto
  obtain evs k where seg: "verify_pinned (key_fingerprint sha256 key) r = (evs, k)" by force
  have go: "k \<noteq> Ask_User" "k \<noteq> Pin_Key" "k = Verdict_Is True \<Longrightarrow> \<exists>q. r = Inr q \<and> hk_fingerprint q = key_fingerprint sha256 key"
    using seg by (auto simp: verify_pinned_def verification_failed_def split: sum.splits if_splits)
  obtain d q where d: "lookups i (en_trace s) = [Inr q]" "expected_fingerprint p (map_option hk_fingerprint q) = None"
      "Decided i d \<in> set (en_trace s)" "hd_fingerprint d = key_fingerprint sha256 key" "hd_accept d"
    using p(2) by (auto simp: verify_ok_def asked_def decided_for_def)
  have trust: "k = Verdict_Is True \<Longrightarrow> key_trusted sha256 p (en_trace s @ [Pinned i r]) i key"
    using go(3) d by (auto simp: key_trusted_def user_trusts_def intro!: exI [of _ d])
  show ?thesis
    unfolding seg using go(1,2) trust by (intro segment_inv [OF inv pc p(1)]) auto
qed

lemma resumed_inv:
  assumes inv: "verdicts_inv sha256 s" and pc: "en_verifying s i = Some (key, V_Waiting)"
    and d: "case d of Inl e \<Rightarrow> os = [] | Inr e \<Rightarrow> os = [Decided i e] \<and> hd_fingerprint e = key_fingerprint sha256 key"
    and s': "en_profile s' = en_profile s" "en_next s' = en_next s" "en_verifying s' = (en_verifying s)(i \<mapsto> (key, V_Resumed d))"
      "en_trace s' = en_trace s @ os" "en_pending s' = None \<or> (en_pending s' = en_pending s \<and> (\<forall>f. en_pending s \<noteq> Some (f, i)))"
  shows "verdicts_inv sha256 s'"
proof -
  obtain p where p: "en_profile s = Some p" "asked p (en_trace s) i"
    using verdicts_invD(3) [OF inv pc] by (auto simp: verify_ok_def)
  show ?thesis
    using d verdicts_invD(5) [OF inv, of i] key_trusted_extend [of sha256 p "en_trace s" i _ os]
    by (intro verdicts_inv_at [OF inv, of i s' "Some (key, V_Resumed d)" os])
       (use pc s' p in \<open>auto simp: verify_ok_def asked_def decided_for_def split: sum.splits\<close>)
qed

lemma waiting_pending:
  assumes "verdicts_inv sha256 s" "en_pending s = Some (fp, i)"
  obtains key where "en_verifying s i = Some (key, V_Waiting)" "fp = key_fingerprint sha256 key"
  using verdicts_invD(4) [OF assms] by blast

lemma decide_inv:
  assumes "verdicts_inv sha256 s" "decideHostKey d s = Inr s'"
  shows "verdicts_inv sha256 s'"
proof -
  obtain i where i: "en_pending s = Some (hd_fingerprint d, i)"
    using assms(2) by (auto simp: decideHostKey_def split: option.splits if_splits)
  obtain key where key: "en_verifying s i = Some (key, V_Waiting)" "hd_fingerprint d = key_fingerprint sha256 key"
    using waiting_pending [OF assms(1) i] by blast
  show ?thesis
    by (rule resumed_inv [OF assms(1) key(1), where d = "Inr d" and os = "[Decided i d]"]) (use assms(2) i key in \<open>auto simp: decideHostKey_def\<close>)
qed

lemma reject_pending_inv:
  assumes "verdicts_inv sha256 s"
  shows "verdicts_inv sha256 (reject_pending s)"
proof (cases "en_pending s")
  case None
  then show ?thesis using assms by (simp add: reject_pending_def)
next
  case (Some q)
  then obtain fp i where i: "en_pending s = Some (fp, i)" by (cases q) simp
  obtain key where key: "en_verifying s i = Some (key, V_Waiting)" using waiting_pending [OF assms i] by blast
  show ?thesis
    by (rule resumed_inv [OF assms key(1), where d = "Inl ''SSH session closed during host-key confirmation''" and os = "[]"])
       (use i key in \<open>auto simp: reject_pending_def\<close>)
qed

lemma timeout_inv:
  assumes "verdicts_inv sha256 s" "en_verifying s i = Some (key, V_Waiting)"
  shows "verdicts_inv sha256 (confirmation_timeout i key (key_fingerprint sha256 key) s)"
proof -
  have "en_pending s = Some (f, i) \<Longrightarrow> f = key_fingerprint sha256 key" for f
    using verdicts_invD(4) [OF assms(1), of f i] assms(2) by auto
  then have "en_pending (confirmation_timeout i key (key_fingerprint sha256 key) s) = None \<or>
      (en_pending (confirmation_timeout i key (key_fingerprint sha256 key) s) = en_pending s \<and> (\<forall>f. en_pending s \<noteq> Some (f, i)))"
    by (auto simp: confirmation_timeout_def Let_def)
  then show ?thesis
    by (intro resumed_inv [OF assms, of "[]" "Inl ''Host-key confirmation timed out''"])
       (simp_all add: confirmation_timeout_def Let_def)
qed

lemma quiet_finish_close: "quiet s t \<Longrightarrow> quiet s (finish_close reason t)"
  by (auto simp: finish_close_def Let_def quiet_updates intro!: quiet_logs)

lemma start_close_quiet:
  "start_close reason s = s \<or> quiet (reject_pending s) (start_close reason s)"
  by (auto simp: start_close_def Let_def quiet_updates split: option.splits intro!: quiet_logs quiet_finish_close)

lemma start_close_inv: "verdicts_inv sha256 s \<Longrightarrow> verdicts_inv sha256 (start_close reason s)"
  using start_close_quiet [of reason s] reject_pending_inv verdicts_inv_quiet by metis

subsection \<open>Every reachable state\<close>

lemma start_close_started: "started_inv s \<Longrightarrow> started_inv (start_close reason s)"
  by (auto simp: started_inv_def start_close_def finish_close_def reject_pending_def Let_def split: option.splits)

lemma start_close_fields [simp]:
  "en_profile (start_close reason s) = en_profile s" "en_connect (start_close reason s) = en_connect s"
  "en_client (start_close reason s) = en_client s" "en_next (start_close reason s) = en_next s"
  "en_settled (start_close reason s) = en_settled s"
  by (auto simp: start_close_def finish_close_def reject_pending_def Let_def split: option.splits)

lemma react_close_fields [simp]:
  "en_profile (react_close react s) = en_profile s" "en_connect (react_close react s) = en_connect s"
  "en_client (react_close react s) = en_client s" "en_settled (react_close react s) = en_settled s"
  by (auto simp: react_close_def split: option.splits)

lemma react_close_keeps:
  "verdicts_inv sha256 s \<Longrightarrow> verdicts_inv sha256 (react_close react s)"
  "started_inv s \<Longrightarrow> started_inv (react_close react s)"
  by (auto simp: react_close_def start_close_inv start_close_started split: option.splits)

lemma start_close_not_idle: "en_phase s \<noteq> Idle \<Longrightarrow> en_phase (start_close reason s) \<noteq> Idle"
  by (auto simp: start_close_def finish_close_def Let_def split: option.splits)

lemma emit_inv: "verdicts_inv sha256 s \<Longrightarrow> verdicts_inv sha256 (emit e s)"
  by (rule verdicts_inv_quiet) (auto intro: quiet_logs)

lemma connect_fail_keeps:
  assumes "verdicts_inv sha256 s" "en_profile s \<noteq> None"
  shows "verdicts_inv sha256 (connect_fail msg react s)"
proof -
  have "quiet s (emit (Ev_Error ''SSH_CONNECT_FAILED'' msg) (s\<lparr>en_connect := Await_Close msg\<rparr>))"
    by (auto simp: quiet_updates intro: quiet_logs)
  then show ?thesis
    using assms(1) by (simp add: connect_fail_def start_close_inv react_close_keeps verdicts_inv_quiet)
qed

lemma connect_begin_ok:
  assumes "connect_begin timeout p t s = Inr s'"
  shows "en_phase s = Idle" "en_profile s' = Some p" "en_phase s' = Connecting" "en_pending s' = en_pending s"
    "en_verifying s' = en_verifying s" "en_next s' = en_next s" "en_connect s' = Await_Transport" "en_client s' = en_client s"
    "\<exists>os. en_trace s' = en_trace s @ os \<and> (\<forall>ob \<in> set os. \<not> host_key_obs ob)" "en_transport s' = en_transport s"
    "en_closing s' = en_closing s"
  using assms by (auto simp: connect_begin_def try_bind_eq_Inr split: if_splits)

lemma connect_begin_inv:
  assumes "verdicts_inv sha256 s" "started_inv s" "connect_begin timeout p t s = Inr s'"
  shows "verdicts_inv sha256 s'"
proof -
  note started = connect_begin_ok [OF assms(3)]
  have "en_profile s = None" using assms(2) started(1) by (simp add: started_inv_def)
  then have none: "en_verifying s i = None" "Verdict i key True \<notin> set (en_trace s)" for i key
    using verdicts_invD(3) [OF assms(1), of i] verdicts_invD(5) [OF assms(1), of i key] by (cases "en_verifying s i"; force)+
  obtain os where os: "en_trace s' = en_trace s @ os" "\<forall>ob \<in> set os. \<not> host_key_obs ob" using started(9) by blast
  have num: "ob \<in> set os \<Longrightarrow> obs_number ob = None" for ob using os(2) by (cases ob) auto
  show ?thesis
    using verdicts_invD(2,4) [OF assms(1)] none num os(2)
    by (intro verdicts_invI) (auto simp: started os(1))
qed

lemma transport_opened_keeps:
  assumes "verdicts_inv sha256 s" "en_profile s \<noteq> None"
  shows "verdicts_inv sha256 (transport_opened react s)"
proof -
  let ?t = "logs [Opened (en_next s)] (s\<lparr>en_transport := Some (en_next s), en_next := Suc (en_next s)\<rparr>)"
  have q: "quiet s ?t" by (auto simp: quiet_def)
  have "verdicts_inv sha256 ?t" using verdicts_inv_quiet [OF assms(1) q] .
  moreover have "quiet ?t (emit e (?t\<lparr>en_connect := c, en_client := b\<rparr>))" for e c b
    by (auto simp: quiet_updates intro: quiet_logs)
  ultimately show ?thesis
    using assms(2) verdicts_inv_quiet by (simp add: transport_opened_def Let_def connect_fail_keeps)
qed

lemma client_error_keeps:
  assumes "verdicts_inv sha256 s"
  shows "verdicts_inv sha256 (client_error msg react s)"
proof -
  have "verdicts_inv sha256 (s\<lparr>en_settled := True, en_connect := Client_Failed msg\<rparr>)"
    by (rule verdicts_inv_quiet [OF assms]) (simp add: quiet_updates)
  then show ?thesis using assms by (simp add: client_error_def Let_def start_close_inv react_close_keeps emit_inv)
qed

lemma host_key_presented_keeps:
  assumes inv: "verdicts_inv sha256 s" and p: "en_profile s \<noteq> None"
  shows "verdicts_inv sha256 (s\<lparr>en_verifying := (en_verifying s)(en_next s \<mapsto> (key, V_Lookup)), en_next := Suc (en_next s)\<rparr>)"
proof (rule verdicts_invI, goal_cases)
  case (3 i key pc)
  have "lookups (en_next s) (en_trace s) = []" by (rule lookups_none) (use verdicts_invD(2) [OF inv] in auto)
  then show ?case using 3 p verdicts_invD(3) [OF inv, of i key pc] by (auto simp: verify_ok_def split: if_splits)
next
  case (4 f i)
  then show ?case using verdicts_invD(4) [OF inv, of f i] verdicts_invD(1) [OF inv, of "en_next s"] by auto
qed (use verdicts_invD(1,2,5) [OF inv] in auto)

lemma engine_step_started:
  assumes "engine_step sha256 s s'" "started_inv s"
  shows "started_inv s'"
  using assms
proof (cases rule: engine_step.cases)
  case (call_connect timeout p t)
  then show ?thesis using connect_begin_ok [OF call_connect] by (simp add: started_inv_def)
next
  case (call_decide d)
  then show ?thesis using assms(2) by (auto simp: decideHostKey_def started_inv_def split: option.splits if_splits)
next
  case (call_input data)
  then show ?thesis using assms(2) by (auto simp: engine_input_def started_inv_def split: if_splits)
next
  case (call_resize cols rows)
  then show ?thesis using assms(2) by (auto simp: engine_resize_def started_inv_def try_bind_eq_Inr split: if_splits)
qed (use assms(2) in \<open>auto simp: start_close_started started_inv_def transport_opened_def connect_fail_def client_error_def
      client_handshake_def client_continue_def shell_continue_def channel_error_def finish_close_def verify_go_def
      confirmation_timeout_def Let_def start_close_not_idle react_close_def split: prod.splits verify_next.splits option.splits\<close>)

lemma engine_step_verdicts:
  assumes step: "engine_step sha256 s s'" and inv: "verdicts_inv sha256 s" and st: "started_inv s"
  shows "verdicts_inv sha256 s'"
proof -
  have prof: "en_client s \<or> en_connect s \<noteq> Not_Started \<Longrightarrow> en_profile s \<noteq> None" using st by (auto simp: started_inv_def)
  have keep: "quiet s t \<Longrightarrow> verdicts_inv sha256 t" for t by (rule verdicts_inv_quiet [OF inv])
  have log: "\<forall>ob \<in> set os. \<not> host_key_obs ob \<Longrightarrow> verdicts_inv sha256 (logs os s)" for os by (intro keep quiet_logs) simp_all
  from step show ?thesis
  proof (cases rule: engine_step.cases)
    case (call_connect timeout p t)
    then show ?thesis using connect_begin_inv [OF inv st] by simp
  next
    case (call_decide d)
    then show ?thesis using decide_inv [OF inv] by simp
  next
    case (call_input data)
    then show ?thesis using inv by (auto simp: engine_input_def split: if_splits intro!: log)
  next
    case (call_resize cols rows)
    then show ?thesis by (auto simp: engine_resize_def try_bind_eq_Inr quiet_updates split: if_splits intro!: keep quiet_logs)
  next
    case (dial_succeeds react)
    then show ?thesis using transport_opened_keeps [OF inv] prof by simp
  next
    case (dial_fails msg react)
    then show ?thesis using connect_fail_keeps [OF inv] prof by simp
  next
    case (client_reports msg react)
    then show ?thesis using client_error_keeps [OF inv] by simp
  next
    case (connect_client react)
    then show ?thesis using connect_fail_keeps [OF inv] prof keep [of "s\<lparr>en_connect := Await_Shell\<rparr>"]
      by (simp add: client_continue_def quiet_updates)
  next
    case (connect_failed msg react)
    then show ?thesis using connect_fail_keeps [OF inv] prof by auto
  next
    case (channel_fails msg react)
    then show ?thesis using inv by (simp add: channel_error_def start_close_inv react_close_keeps emit_inv)
  next
    case (host_key_presented key)
    then show ?thesis using host_key_presented_keeps [OF inv] prof by simp
  next
    case (repository_found i key p r)
    then show ?thesis using repository_found_inv [OF inv] by simp
  next
    case (confirmation_expires i key)
    then show ?thesis using timeout_inv [OF inv] by simp
  next
    case (verification_resumes i key d)
    then show ?thesis using verification_resumes_inv [OF inv] by simp
  next
    case (repository_pinned i key r)
    then show ?thesis using repository_pinned_inv [OF inv] by simp
  qed (auto simp: start_close_inv [OF inv] client_handshake_def shell_continue_def quiet_updates
        intro!: keep log quiet_logs quiet_finish_close)
qed

lemma engine_reach_inv:
  assumes "engine_reach sha256 s"
  shows "verdicts_inv sha256 s \<and> started_inv s"
  using assms
proof (induction rule: rtranclp_induct)
  case base
  show ?case by (simp add: verdicts_inv_def started_inv_def engine_new_def)
next
  case (step s t)
  then show ?case using engine_step_verdicts engine_step_started by blast
qed

text \<open>
  C11: Whatever the client, the repository, the user and the timers do, and in whatever order, a host key is accepted
  only if the fingerprint stored for the target, or else the one the profile expects, is that of the key; or, when there
  is none, if the user accepted exactly this fingerprint for this verification, and, if the key was to be remembered,
  the repository answered with this fingerprint.
\<close>

theorem host_key_verdicts_sound:
  assumes "engine_reach sha256 s" "Verdict i key True \<in> set (en_trace s)"
  shows "\<exists>p r. en_profile s = Some p \<and> lookups i (en_trace s) = [Inr r] \<and>
    (case expected_fingerprint p (map_option hk_fingerprint r) of
       Some e \<Rightarrow> e = key_fingerprint sha256 key
     | None \<Rightarrow> \<exists>d. Decided i d \<in> set (en_trace s) \<and> hd_fingerprint d = key_fingerprint sha256 key \<and> hd_accept d \<and>
         (hd_remember d \<longrightarrow> (\<exists>q. Pinned i (Inr q) \<in> set (en_trace s) \<and> hk_fingerprint q = key_fingerprint sha256 key)))"
  using verdicts_invD(5) [of sha256 s i key] engine_reach_inv [OF assms(1)] assms(2)
  by (auto simp: key_trusted_def user_trusts_def split: option.splits)

section \<open>Transports\<close>

text \<open>Before the end every transport opened is the one in use; the end closes those opened before it and no other.\<close>

definition transport_obs :: "engine_obs \<Rightarrow> bool" where
  "transport_obs ob = (case ob of Opened _ \<Rightarrow> True | Closing_Transport _ \<Rightarrow> True | Client_End \<Rightarrow> True | _ \<Rightarrow> False)"

definition ended :: "engine_obs list \<Rightarrow> bool" where
  "ended tr \<longleftrightarrow> (\<exists>a b. tr = a @ Client_End # b \<and> Client_End \<notin> set a \<and> Client_End \<notin> set b \<and>
     (\<forall>k. (Closing_Transport k \<in> set tr \<longleftrightarrow> Opened k \<in> set a) \<and> (Opened k \<in> set b \<longrightarrow> Opened k \<notin> set a)))"

definition transport_inv :: "engine \<Rightarrow> bool" where
  "transport_inv s \<longleftrightarrow>
     (\<forall>k. Opened k \<in> set (en_trace s) \<longrightarrow> k < en_next s) \<and>
     (en_connect s \<in> {Not_Started, Await_Transport} \<longrightarrow> en_transport s = None) \<and>
     (if en_closing s = Not_Closing
      then Client_End \<notin> set (en_trace s) \<and>
        (\<forall>k. Closing_Transport k \<notin> set (en_trace s) \<and> (Opened k \<in> set (en_trace s) \<longleftrightarrow> en_transport s = Some k))
      else ended (en_trace s))"

lemma ended_append:
  assumes "ended tr" "Client_End \<notin> set os" "\<forall>k. Closing_Transport k \<notin> set os" "\<forall>k. Opened k \<in> set os \<longrightarrow> Opened k \<notin> set tr"
  shows "ended (tr @ os)"
proof -
  obtain a b where ab: "tr = a @ Client_End # b" "Client_End \<notin> set a" "Client_End \<notin> set b"
    "\<forall>k. (Closing_Transport k \<in> set tr \<longleftrightarrow> Opened k \<in> set a) \<and> (Opened k \<in> set b \<longrightarrow> Opened k \<notin> set a)"
    using assms(1) by (auto simp: ended_def)
  show ?thesis unfolding ended_def
    by (rule exI [of _ a], rule exI [of _ "b @ os"]) (use ab assms(2-4) in auto)
qed

lemma transport_inv_extend:
  assumes "transport_inv s" "en_trace s' = en_trace s @ os" "\<forall>ob \<in> set os. \<not> transport_obs ob"
    "en_closing s' = Not_Closing \<longleftrightarrow> en_closing s = Not_Closing" "en_transport s' = en_transport s" "en_next s \<le> en_next s'"
    "en_connect s' \<in> {Not_Started, Await_Transport} \<longrightarrow> en_transport s = None"
  shows "transport_inv s'"
proof -
  have none: "Opened k \<notin> set os" "Closing_Transport k \<notin> set os" "Client_End \<notin> set os" for k
    using assms(3) by (auto simp: transport_obs_def)
  have "ended (en_trace s) \<Longrightarrow> ended (en_trace s')" using ended_append [of "en_trace s" os] none by (simp add: assms(2))
  then show ?thesis
    using assms(1,4-7) none by (force simp: transport_inv_def assms(2))
qed

definition still :: "engine \<Rightarrow> engine \<Rightarrow> bool" where
  "still s s' \<longleftrightarrow> (\<exists>os. en_trace s' = en_trace s @ os \<and> (\<forall>ob \<in> set os. \<not> transport_obs ob)) \<and>
     (en_closing s' = Not_Closing \<longleftrightarrow> en_closing s = Not_Closing) \<and> en_transport s' = en_transport s \<and> en_next s \<le> en_next s' \<and>
     (en_connect s' = en_connect s \<or> en_connect s' \<notin> {Not_Started, Await_Transport})"

lemma still_inv: "transport_inv s \<Longrightarrow> still s s' \<Longrightarrow> transport_inv s'"
  unfolding still_def by (elim conjE exE) (rule transport_inv_extend, auto simp: transport_inv_def)

lemma still_refl: "still s s"
  by (simp add: still_def)

lemma transport_obs_simps [simp]:
  "\<not> transport_obs (Emit e)" "\<not> transport_obs (Dial h p n)" "\<not> transport_obs (Looked_Up i r)" "\<not> transport_obs (Decided i d)"
  "\<not> transport_obs (Pinned i q)" "\<not> transport_obs (Verdict i key b)" "\<not> transport_obs (Set_Window m n)" "\<not> transport_obs (Wrote bs)"
  by (simp_all add: transport_obs_def)

lemma still_logs: "\<forall>ob \<in> set os. \<not> transport_obs ob \<Longrightarrow> still s t \<Longrightarrow> still s (logs os t)"
  unfolding still_def by auto

lemma emit_transport: "transport_inv s \<Longrightarrow> transport_inv (emit e s)"
  by (rule still_inv) (auto intro!: still_logs still_refl)

lemma still_updates:
  "still s (t\<lparr>en_phase := x1\<rparr>) = still s t" "still s (t\<lparr>en_shell := x2\<rparr>) = still s t" "still s (t\<lparr>en_pending := x3\<rparr>) = still s t"
  "still s (t\<lparr>en_verifying := x4\<rparr>) = still s t" "still s (t\<lparr>en_close_sent := x5\<rparr>) = still s t" "still s (t\<lparr>en_terminal := x6\<rparr>) = still s t"
  "still s (t\<lparr>en_client := x7\<rparr>) = still s t" "still s (t\<lparr>en_settled := x8\<rparr>) = still s t" "still s (t\<lparr>en_handshakes := x9\<rparr>) = still s t"
  by (simp_all add: still_def)

lemma still_connect: "x \<notin> {Not_Started, Await_Transport} \<Longrightarrow> still s t \<Longrightarrow> still s (t\<lparr>en_connect := x\<rparr>)"
  by (simp add: still_def)

lemma reject_pending_fields [simp]:
  "en_trace (reject_pending s) = en_trace s" "en_close_sent (reject_pending s) = en_close_sent s"
  "en_transport (reject_pending s) = en_transport s" "en_closing (reject_pending s) = en_closing s"
  "en_next (reject_pending s) = en_next s" "en_connect (reject_pending s) = en_connect s"
  by (auto simp: reject_pending_def split: option.splits)

lemma start_close_transport:
  assumes "transport_inv s"
  shows "transport_inv (start_close reason s)"
proof (cases "en_closing s = Not_Closing")
  case True
  have nocl: "Closing_Transport k \<notin> set (en_trace s)" "Client_End \<notin> set (en_trace s)"
    "Opened k \<in> set (en_trace s) \<longleftrightarrow> en_transport s = Some k" for k
    using assms True by (auto simp: transport_inv_def)
  define os where "os = (case en_transport s of None \<Rightarrow> if en_close_sent s then [] else [Emit (Ev_Closed reason)]
      | Some t \<Rightarrow> [Closing_Transport t])"
  have os: "en_trace (start_close reason s) = en_trace s @ Client_End # os" "Client_End \<notin> set os"
    "\<forall>k. Opened k \<notin> set os" "\<forall>k. Closing_Transport k \<in> set os \<longleftrightarrow> en_transport s = Some k"
    using True by (auto simp: os_def start_close_def finish_close_def Let_def split: option.splits)
  have "ended (en_trace (start_close reason s))"
    unfolding ended_def using os nocl
    by (intro exI [of _ "en_trace s"] exI [of _ os]) auto
  moreover have "en_closing (start_close reason s) \<noteq> Not_Closing" "en_connect s \<in> {Not_Started, Await_Transport} \<longrightarrow> en_transport (start_close reason s) = None"
    using True assms by (auto simp: start_close_def finish_close_def reject_pending_def transport_inv_def Let_def split: option.splits)
  ultimately show ?thesis using assms os(1,3) by (auto simp: transport_inv_def)
next
  case False
  then show ?thesis using assms by (simp add: start_close_def)
qed

lemma react_close_transport: "transport_inv s \<Longrightarrow> transport_inv (react_close react s)"
  by (simp add: react_close_def start_close_transport split: option.split)

lemma connect_fail_transport:
  assumes "transport_inv s"
  shows "transport_inv (connect_fail msg react s)"
proof -
  have "transport_inv (emit (Ev_Error ''SSH_CONNECT_FAILED'' msg) (s\<lparr>en_connect := Await_Close msg\<rparr>))"
    by (rule still_inv [OF assms]) (auto intro!: still_logs still_connect still_refl)
  then show ?thesis by (simp add: connect_fail_def start_close_transport react_close_transport)
qed

lemma transport_opened_transport:
  assumes inv: "transport_inv s" and pc: "en_connect s = Await_Transport"
  shows "transport_inv (transport_opened react s)"
proof -
  let ?t = "logs [Opened (en_next s)] (s\<lparr>en_transport := Some (en_next s), en_next := Suc (en_next s)\<rparr>)"
  have fresh: "Opened (en_next s) \<notin> set (en_trace s)" using inv by (auto simp: transport_inv_def)
  have base: "transport_inv u" if "en_trace u = en_trace ?t" "en_transport u = Some (en_next s)"
      "en_next u = Suc (en_next s)" "en_closing u = en_closing s" "en_connect u \<notin> {Not_Started, Await_Transport}" for u
    using inv pc fresh that ended_append [of "en_trace s" "[Opened (en_next s)]"]
    by (auto simp: transport_inv_def less_Suc_eq)
  have "transport_inv (emit e (?t\<lparr>en_connect := Await_Client, en_client := True\<rparr>))" for e
    by (intro emit_transport base) simp_all
  moreover have "transport_inv (emit e (?t\<lparr>en_connect := Await_Close msg\<rparr>))" for e msg
    by (intro emit_transport base) simp_all
  ultimately show ?thesis
    by (simp add: transport_opened_def Let_def connect_fail_def start_close_transport react_close_transport)
qed

lemma client_error_transport:
  assumes "transport_inv s"
  shows "transport_inv (client_error msg react s)"
proof -
  have "transport_inv (s\<lparr>en_settled := True, en_connect := Client_Failed msg\<rparr>)"
    by (rule still_inv [OF assms]) (auto simp: still_updates intro!: still_connect still_refl)
  then show ?thesis using assms by (simp add: emit_transport client_error_def Let_def start_close_transport react_close_transport)
qed

lemma verify_go_still: "\<forall>ob \<in> set os. \<not> transport_obs ob \<Longrightarrow> still s (verify_go i key fp r (logs os s))"
  by (auto simp: verify_go_def Let_def verification_failed_def still_updates still_refl intro!: still_logs
      split: prod.splits verify_next.splits)

lemma engine_step_transport:
  assumes step: "engine_step sha256 s s'" and inv: "transport_inv s" and st: "started_inv s"
  shows "transport_inv s'"
proof -
  have keep: "still s t \<Longrightarrow> transport_inv t" for t by (rule still_inv [OF inv])
  have log: "\<forall>ob \<in> set os. \<not> transport_obs ob \<Longrightarrow> transport_inv (logs os s)" for os by (intro keep still_logs still_refl) simp_all
  from step show ?thesis
  proof (cases rule: engine_step.cases)
    case (call_connect timeout p t)
    have "en_connect s = Not_Started" using connect_begin_ok(1) [OF call_connect] st by (simp add: started_inv_def)
    then have "en_transport s = None" using inv by (simp add: transport_inv_def)
    moreover obtain os where "en_trace s' = en_trace s @ os" "\<forall>ob \<in> set os. \<not> transport_obs ob"
      using call_connect by (auto simp: connect_begin_def try_bind_eq_Inr split: if_splits)
    ultimately show ?thesis
      using inv connect_begin_ok [OF call_connect] by (intro transport_inv_extend [of s s' os]) auto
  next
    case (call_decide d)
    then show ?thesis
      by (auto simp: decideHostKey_def still_updates still_refl split: option.splits if_splits intro!: keep still_logs)
  next
    case (call_input data)
    then show ?thesis using inv by (auto simp: engine_input_def split: if_splits intro!: log)
  next
    case (call_resize cols rows)
    then show ?thesis by (auto simp: engine_resize_def try_bind_eq_Inr still_updates still_refl split: if_splits intro!: keep still_logs)
  next
    case (client_reports msg react)
    then show ?thesis using client_error_transport [OF inv] by simp
  next
    case (connect_client react)
    then show ?thesis using connect_fail_transport [OF inv] keep [of "s\<lparr>en_connect := Await_Shell\<rparr>"]
      by (simp add: client_continue_def still_connect still_refl)
  next
    case (channel_fails msg react)
    then show ?thesis using log [of "[Emit (Ev_Error ''SSH_CHANNEL_ERROR'' msg)]"]
      by (simp add: channel_error_def start_close_transport react_close_transport)
  next
    case (transport_ended reason)
    then have "still s (finish_close reason s)" by (auto simp: finish_close_def Let_def still_def)
    then show ?thesis using transport_ended keep by simp
  next
    case (host_key_presented key)
    then show ?thesis by (auto simp: still_def intro!: keep)
  next
    case (repository_found i key p r)
    then show ?thesis by (auto intro!: keep verify_go_still)
  next
    case (verification_resumes i key d)
    then show ?thesis using verify_go_still [of "[]" s i key _ "verify_decided d"] by (simp add: logs_def keep)
  next
    case (repository_pinned i key r)
    then show ?thesis by (auto intro!: keep verify_go_still)
  qed (auto simp: start_close_transport [OF inv] connect_fail_transport [OF inv] transport_opened_transport [OF inv]
        client_handshake_def shell_continue_def confirmation_timeout_def still_updates still_refl Let_def
        intro!: keep log still_logs still_connect)
qed

lemma engine_reach_transport: "engine_reach sha256 s \<Longrightarrow> transport_inv s"
proof (induction rule: rtranclp_induct)
  case base
  show ?case by (simp add: transport_inv_def engine_new_def)
next
  case (step s t)
  then show ?case using engine_step_transport engine_reach_inv by blast
qed

text \<open>
  Once the engine has ended the client, it closes a transport if and only if the transport had been opened before
  that. So a transport that is opened afterwards, because the engine was closed while it was being dialed, is never
  closed.
\<close>

theorem transport_closed_iff_opened_before_end:
  assumes "engine_reach sha256 s" "en_trace s = a @ Client_End # b"
  shows "(Closing_Transport k \<in> set (en_trace s) \<longleftrightarrow> Opened k \<in> set a) \<and>
    (Opened k \<in> set b \<longrightarrow> Closing_Transport k \<notin> set (en_trace s))"
proof -
  have inv: "transport_inv s" by (rule engine_reach_transport [OF assms(1)])
  moreover have "Client_End \<in> set (en_trace s)" using assms(2) by simp
  ultimately have "ended (en_trace s)" by (auto simp: transport_inv_def split: if_splits)
  then obtain a' b' where ab: "en_trace s = a' @ Client_End # b'" "Client_End \<notin> set a'" "Client_End \<notin> set b'"
    "\<forall>k. (Closing_Transport k \<in> set (en_trace s) \<longleftrightarrow> Opened k \<in> set a') \<and> (Opened k \<in> set b' \<longrightarrow> Opened k \<notin> set a')"
    by (auto simp: ended_def)
  then have "a' = a" "b' = b" using assms(2) append_Cons_eq_iff [of Client_End a' b' a b] by auto
  then show ?thesis using ab(4) by blast
qed

definition demo_options :: terminal_options where
  "demo_options = \<lparr>to_cols = 80, to_rows = 24, to_term = ''xterm''\<rparr>"

definition demo_dialing :: engine where
  "demo_dialing = engine_new\<lparr>en_terminal := demo_options, en_profile := Some demo_profile, en_phase := Connecting,
     en_connect := Await_Transport,
     en_trace := [Emit (Ev_Status ''tcp_connecting'' ''Connecting to h:22''), Dial ''h'' 22 10000]\<rparr>"

lemma show_22: "show_nat 22 = ''22''"
  by code_simp

lemma demo_connect_begin: "connect_begin None demo_profile demo_options engine_new = Inr demo_dialing"
  by (simp add: connect_begin_def engine_new_def validateProfile_def normalizeTerminal_def demo_options_def demo_dialing_def
      engine_host_forbidden_def cu_Char term_char_def is_alnum_def is_lower_def in_range_def logs_def clamp_def show_22)

lemma demo_dialing_reach: "engine_reach sha256 demo_dialing"
  by (rule r_into_rtranclp, rule engine_step.call_connect, rule demo_connect_begin)

text \<open>The engine is closed while it dials, and the dial then succeeds: the transport stays open for good.\<close>

lemma transport_closed_iff_opened_before_end_witness:
  "\<exists>s. engine_reach (\<lambda>bs. bs) s \<and> en_phase s = Closed \<and> en_closing s = Close_Done \<and> Opened 0 \<in> set (en_trace s) \<and>
    Closing_Transport 0 \<notin> set (en_trace s)"
proof -
  let ?closed = "start_close ''bye'' demo_dialing"
  let ?s = "transport_opened None ?closed"
  have "engine_step (\<lambda>bs. bs) demo_dialing ?closed" by (rule engine_step.call_close)
  moreover have "engine_step (\<lambda>bs. bs) ?closed ?s" by (rule engine_step.dial_succeeds) (simp add: demo_dialing_def)
  ultimately have reach: "engine_reach (\<lambda>bs. bs) ?s" using demo_dialing_reach by (meson rtranclp.rtrancl_into_rtrancl)
  have tr: "en_trace ?s = en_trace demo_dialing @ Client_End # [Emit (Ev_Closed ''bye''), Opened 0,
      Emit (Ev_Error ''SSH_CONNECT_FAILED'' ''SSH connection was cancelled'')]"
    and "en_phase ?s = Closed" "en_closing ?s = Close_Done"
    by (simp_all add: transport_opened_def connect_fail_def react_close_def start_close_def reject_pending_def finish_close_def
        logs_def demo_dialing_def engine_new_def)
  then show ?thesis
    using reach transport_closed_iff_opened_before_end [OF reach tr, of 0] by (intro exI [of _ ?s]) (simp add: demo_dialing_def)
qed

text \<open>A run in which the user trusts the key of the server for this session.\<close>

lemma host_key_verdicts_sound_witness:
  "\<exists>s d. engine_reach (\<lambda>bs. bs) s \<and> Verdict 1 [7] True \<in> set (en_trace s) \<and> Decided 1 d \<in> set (en_trace s) \<and>
    hd_fingerprint d = key_fingerprint (\<lambda>bs. bs) [7]"
proof -
  let ?sha = "\<lambda>bs :: bytes. bs" and ?fp = "key_fingerprint (\<lambda>bs. bs) [7]"
  define d where "d = \<lparr>hd_fingerprint = ?fp, hd_accept = True, hd_remember = False\<rparr>"
  define s1 where "s1 = transport_opened None demo_dialing"
  define s2 where "s2 = s1\<lparr>en_verifying := (en_verifying s1)(en_next s1 \<mapsto> ([7], V_Lookup)), en_next := Suc (en_next s1)\<rparr>"
  define s3 where "s3 = verify_go 1 [7] ?fp (verify_lookup demo_profile ?fp (readHostKeyType [7]) (Inr None)) (logs [Looked_Up 1 (Inr None)] s2)"
  define s4 where "s4 = logs [Decided 1 d] (s3\<lparr>en_pending := None, en_verifying := (en_verifying s3)(1 := map_option
      (\<lambda>(key, _). (key, V_Resumed (Inr d))) (en_verifying s3 1))\<rparr>)"
  define s5 where "s5 = verify_go 1 [7] ?fp (verify_decided (Inr d)) s4"
  have f1: "en_client s1" "en_next s1 = 1" "en_profile s1 = Some demo_profile" "en_pending s1 = None"
    "en_trace s1 = en_trace demo_dialing @ [Opened 0, Emit (Ev_Status ''ssh_handshake'' ''Negotiating a secure SSH session'')]"
    by (simp_all add: s1_def transport_opened_def demo_dialing_def engine_new_def logs_def)
  have f2: "en_verifying s2 1 = Some ([7], V_Lookup)" "en_profile s2 = Some demo_profile" "en_pending s2 = None" "en_trace s2 = en_trace s1"
    using f1 by (simp_all add: s2_def)
  have look: "verify_lookup demo_profile ?fp (readHostKeyType [7]) (Inr None) = ([Ev_Host_Key ?fp (readHostKeyType [7]) False None], Ask_User)"
    by (simp add: verify_lookup_def expected_fingerprint_def)
  have f3: "en_pending s3 = Some (?fp, 1)" "en_verifying s3 1 = Some ([7], V_Waiting)" "en_profile s3 = Some demo_profile"
    "en_trace s3 = en_trace s1 @ [Looked_Up 1 (Inr None), Emit (Ev_Host_Key ?fp (readHostKeyType [7]) False None)]"
    using f2 by (simp_all add: s3_def look verify_go_def)
  have dec: "verify_decided (Inr d) = ([authenticating], Verdict_Is True)" by (simp add: verify_decided_def d_def)
  have f5: "en_profile s5 = Some demo_profile" "en_trace s5 = en_trace s3 @ [Decided 1 d, Emit authenticating, Verdict 1 [7] True]"
    using f3 by (simp_all add: s5_def s4_def dec verify_go_def)
  have "engine_step ?sha demo_dialing s1" unfolding s1_def by (rule engine_step.dial_succeeds) (simp add: demo_dialing_def)
  moreover have "engine_step ?sha s1 s2" unfolding s2_def by (rule engine_step.host_key_presented) (rule f1(1))
  moreover have "engine_step ?sha s2 s3" unfolding s3_def by (rule engine_step.repository_found [OF f2(1,2)])
  moreover have "engine_step ?sha s3 s4"
    by (rule engine_step.call_decide [of d]) (simp add: decideHostKey_def f3(1) d_def s4_def)
  moreover have "engine_step ?sha s4 s5"
    unfolding s5_def by (rule engine_step.verification_resumes) (use f3(2) in \<open>simp add: s4_def\<close>)
  ultimately have reach: "engine_reach ?sha s5" using demo_dialing_reach by (meson rtranclp.rtrancl_into_rtrancl)
  have v: "Verdict 1 [7] True \<in> set (en_trace s5)" by (simp add: f5)
  have l: "lookups 1 (en_trace s5) = [Inr None]" by (simp add: f5 f3 f1 demo_dialing_def)
  obtain p r where r: "en_profile s5 = Some p" "lookups 1 (en_trace s5) = [Inr r]"
    "case expected_fingerprint p (map_option hk_fingerprint r) of Some e \<Rightarrow> e = ?fp
      | None \<Rightarrow> \<exists>d. Decided 1 d \<in> set (en_trace s5) \<and> hd_fingerprint d = ?fp \<and> hd_accept d \<and>
          (hd_remember d \<longrightarrow> (\<exists>q. Pinned 1 (Inr q) \<in> set (en_trace s5) \<and> hk_fingerprint q = ?fp))"
    using host_key_verdicts_sound [OF reach v] by blast
  have "p = demo_profile" using r(1) f5(1) by simp
  then have "expected_fingerprint p (map_option hk_fingerprint r) = None" using r(2) l by (simp add: expected_fingerprint_def)
  then show ?thesis using r(3) reach v by auto
qed

section \<open>What a single error of the client reports\<close>

text \<open>
  The listener of \<open>connectClient\<close> that ignores errors before the promise is settled never does so: the listener
  registered before it has settled the promise. So the first error of a connection attempt is reported as an error of
  the connection, the engine is closed, and the exception is then reported again by \<open>connect\<close>.
\<close>

lemma client_error_reported:
  "\<exists>os. en_trace (client_error msg react s) = en_trace s @ Emit (Ev_Error ''SSH_CONNECTION_ERROR'' msg) # os"
proof -
  have close: "\<exists>os. en_trace (start_close r t) = en_trace t @ os" for r t
    by (auto simp: start_close_def finish_close_def Let_def split: option.splits)
  have react: "\<exists>os. en_trace (react_close react t) = en_trace t @ os" for t
    using close by (auto simp: react_close_def split: option.splits)
  have "\<exists>os. en_trace (start_close r (react_close react t)) = en_trace t @ os" for r t
    using close [of r "react_close react t"] react [of t] by auto
  from this [of "''SSH transport error''" "emit (Ev_Error ''SSH_CONNECTION_ERROR'' msg) s"]
    this [of "''SSH transport error''" "emit (Ev_Error ''SSH_CONNECTION_ERROR'' msg) (s\<lparr>en_settled := True, en_connect := Client_Failed msg\<rparr>)"]
  show ?thesis by (auto simp: client_error_def Let_def)
qed

section \<open>Trust on first use\<close>

text \<open>A verification that nothing interrupts, with the answer \<open>d\<close> the user gives if asked; \<open>at'\<close> is the time of the pin.\<close>

definition candidate_record :: "connection_profile \<Rightarrow> string \<Rightarrow> bytes \<Rightarrow> string \<Rightarrow> host_key_record" where
  "candidate_record p fp key at' = \<lparr>hr_ownerId = cp_ownerId p, hr_profileId = cp_profileId p, hr_host = cp_host p, hr_port = cp_port p,
     hk_fingerprint = fp, hk_keyType = readHostKeyType key, hk_keyBlob = btoa key, hk_pinnedAt = at'\<rparr>"

definition profile_reference :: "connection_profile \<Rightarrow> host_key_reference" where
  "profile_reference p = \<lparr>hr_ownerId = cp_ownerId p, hr_profileId = cp_profileId p, hr_host = cp_host p, hr_port = cp_port p\<rparr>"

definition verifyHostKey ::
  "(bytes \<Rightarrow> bytes) \<Rightarrow> (host_key_reference \<Rightarrow> 'db \<Rightarrow> host_key_record option) \<Rightarrow>
   (host_key_record \<Rightarrow> 'db \<Rightarrow> host_key_record throws \<times> 'db) \<Rightarrow> string \<Rightarrow> host_key_decision throws \<Rightarrow> connection_profile \<Rightarrow> bytes \<Rightarrow> 'db
     \<Rightarrow> engine_event list \<times> bool \<times> 'db" where
  "verifyHostKey sha256 get pin at' d p key db =
     (let fp = key_fingerprint sha256 key
      in case verify_lookup p fp (readHostKeyType key) (Inr (get (profile_reference p) db)) of
           (evs, Ask_User) \<Rightarrow>
             (case verify_decided d of
                (evs', Pin_Key) \<Rightarrow>
                  (case pin (candidate_record p fp key at') db of
                     (r, db') \<Rightarrow> (evs @ evs' @ prod.fst (verify_pinned fp r), snd (verify_pinned fp r) = Verdict_Is True, db'))
              | (evs', k) \<Rightarrow> (evs @ evs', k = Verdict_Is True, db))
         | (evs, k) \<Rightarrow> (evs, k = Verdict_Is True, db))"

lemma key_fingerprint_nonempty: "key_fingerprint sha256 key \<noteq> []"
  by (simp add: key_fingerprint_def)

context host_key_repo
begin

lemma stored_decides:
  assumes "get (profile_reference p) db = Some r" "hk_fingerprint r \<noteq> []"
  shows "snd (verifyHostKey sha256 get pin t d p key db) = (hk_fingerprint r = key_fingerprint sha256 key, db)"
  using assms by (cases "hk_fingerprint r") (auto simp: verifyHostKey_def verify_lookup_def expected_fingerprint_def Let_def)

lemma first_use_pins:
  assumes "ok db" "ready (candidate_record p (key_fingerprint sha256 key) key t) db"
    "get (profile_reference p) db = None" "cp_expectedFingerprint p = None" "hd_accept d" "hd_remember d"
  shows "\<exists>evs db' r. verifyHostKey sha256 get pin t (Inr d) p key db = (evs, True, db') \<and> ok db' \<and>
    get (profile_reference p) db' = Some r \<and> hk_fingerprint r = key_fingerprint sha256 key"
proof -
  let ?rec = "candidate_record p (key_fingerprint sha256 key) key t"
  have ref: "reference_of ?rec = profile_reference p" by (simp add: candidate_record_def profile_reference_def)
  obtain s where s: "fst (pin ?rec db) = Inr s" "hk_fingerprint s = key_fingerprint sha256 key"
      "get (profile_reference p) (snd (pin ?rec db)) = Some s"
    using pin_first [OF assms(1,2)] assms(3) ref by (auto simp: candidate_record_def)
  obtain db' where db': "pin ?rec db = (Inr s, db')" using s(1) by (cases "pin ?rec db") auto
  show ?thesis
    using assms(3-6) s db' pin_ok [OF assms(1), of ?rec]
    by (auto simp: verifyHostKey_def verify_lookup_def expected_fingerprint_def verify_decided_def verify_pinned_def)
qed

end

text \<open>
  On the tables: if no key is stored for a target and the user asks to remember the one presented, the verification
  succeeds, and from then on every verification for this profile succeeds for a key of this fingerprint and fails for
  any other, without the user being asked and whatever he would answer.
\<close>

theorem trust_on_first_use:
  assumes "host_db_ok db" "pin_ready rid (candidate_record p (key_fingerprint sha256 key) key t) db"
    "host_key_get (profile_reference p) db = None" "cp_expectedFingerprint p = None" "hd_accept d" "hd_remember d"
  shows "\<exists>evs db'. verifyHostKey sha256 host_key_get (pinIfAbsent violated rid now) t (Inr d) p key db = (evs, True, db') \<and>
    (\<forall>key' d' t' rid' now'. snd (verifyHostKey sha256 host_key_get (pinIfAbsent violated rid' now') t' d' p key' db') =
       (key_fingerprint sha256 key' = key_fingerprint sha256 key, db'))"
proof -
  obtain evs db' r where run: "verifyHostKey sha256 host_key_get (pinIfAbsent violated rid now) t (Inr d) p key db = (evs, True, db')"
      and r: "host_key_get (profile_reference p) db' = Some r" "hk_fingerprint r = key_fingerprint sha256 key"
    using d1.first_use_pins [OF assms] by blast
  then have "hk_fingerprint r \<noteq> []" by (simp add: key_fingerprint_nonempty)
  then have "snd (verifyHostKey sha256 host_key_get (pinIfAbsent violated rid' now') t' d' p key' db') =
      (key_fingerprint sha256 key' = key_fingerprint sha256 key, db')" for key' d' t' rid' now'
    using d1.stored_decides [OF r(1), of sha256 violated rid' now' t' d' key'] r(2) by simp argo
  then show ?thesis using run by (intro exI [of _ evs] exI [of _ db'] conjI allI)
qed

lemma trust_on_first_use_witness:
  "\<exists>evs db'. verifyHostKey (\<lambda>bs. bs) host_key_get (pinIfAbsent ''e'' ''k1'' ''u'') ''t''
      (Inr \<lparr>hd_fingerprint = ''x'', hd_accept = True, hd_remember = True\<rparr>) demo_profile [7] demo_hosts = (evs, True, db')"
  using trust_on_first_use [of demo_hosts "''k1''" demo_profile "\<lambda>bs. bs" "[7]" "''t''"
      "\<lparr>hd_fingerprint = ''x'', hd_accept = True, hd_remember = True\<rparr>" "''e''" "''u''"]
  by (auto simp: demo_hosts_def host_db_ok_def pin_ready_def candidate_record_def owns_profile_def host_key_get_def)

end
