(* ===== verification/Session_Events.thy ===== *)
theory Session_Events
  imports Server_Messages Session_Audit Command_Capture Ssh_Engine
begin

text \<open>
  What the session object does with the events of the SSH engine (\<open>handleEngineEvent\<close> of \<open>durable/ssh-session.ts\<close>)
  while the browser's socket is open: the messages it sends, the calls of the audit and the closing of the socket, in
  order. A message its schema refuses makes \<open>sendServer\<close> throw, which ends the handler; the engine swallows the
  exception. Dates come from a clock.
\<close>

definition MAX_JSON_OUTPUT_CHARS :: nat where "MAX_JSON_OUTPUT_CHARS = 8 * 1024"

record session_context =
  sc_sessionId :: string
  sc_attemptId :: string
  sc_profile :: connection_profile

record live_session =
  lv_context :: session_context
  lv_capture :: capture
  lv_outputSequence :: nat
  lv_requestId :: "string option"

record session_closure =
  sl_finalState :: string
  sl_closeReason :: string
  sl_message :: string

record session_clock =
  sk_now :: millis
  sk_iso :: string
  sk_expires :: string

datatype session_effect =
    Sent server_message
  | Audited audit_method
  | Closing int string session_closure

text \<open>The effects of a piece of code and the exception that ended it, if any.\<close>

type_synonym effects = "session_effect list \<times> string option"

definition and_then :: "effects \<Rightarrow> effects \<Rightarrow> effects" where
  "and_then x y = (case x of (es, None) \<Rightarrow> (es @ prod.fst y, snd y) | (es, Some e) \<Rightarrow> (es, Some e))"

definition act :: "session_effect list \<Rightarrow> effects" where
  "act es = (es, None)"

definition sendServer :: "js_platform \<Rightarrow> session_context \<Rightarrow> string option \<Rightarrow> server_body \<Rightarrow> effects" where
  "sendServer p c rid body =
     (let m = \<lparr>sm_requestId = rid, sm_sessionId = sc_sessionId c, sm_attemptId = sc_attemptId c, sm_body = body\<rparr>
      in if ServerWebSocketMessageSchema p m then act [Sent m]
         else ([], Some ''Attempted to send an invalid server WebSocket message''))"

definition or_default :: "string \<Rightarrow> string \<Rightarrow> string" where
  "or_default s d = (if s = [] then d else s)"

definition sendStatus ::
  "js_platform \<Rightarrow> session_clock \<Rightarrow> session_context \<Rightarrow> string \<Rightarrow> string \<Rightarrow> string option \<Rightarrow> string option \<Rightarrow> effects" where
  "sendStatus p ck c state msg rid reason =
     sendServer p c rid (Sv_Status state (or_default (take 512 msg) ''SSH session state changed'') (sk_iso ck) reason None)"

definition sendError :: "js_platform \<Rightarrow> session_context \<Rightarrow> string \<Rightarrow> string \<Rightarrow> bool \<Rightarrow> string option \<Rightarrow> effects" where
  "sendError p c code msg fatal rid =
     sendServer p c (if rid = Some [] then None else rid)
       (Sv_Error code (or_default (take 512 msg) ''SSH operation failed'')
          (code = ''SSH_CONNECTION_FAILED'' \<or> code = ''SERVICE_UNAVAILABLE'') fatal)"

section \<open>States and failures\<close>

definition mapEngineState :: "string \<Rightarrow> string" where
  "mapEngineState phase =
     (if phase = ''tcp_connecting'' then ''tcp_connecting''
      else if phase = ''ready'' then ''connected''
      else if str_includes ''auth'' phase then ''authenticating''
      else ''ssh_handshake'')"

definition classifyEngineFailure :: "string \<Rightarrow> string \<Rightarrow> session_closure" where
  "classifyEngineFailure code msg =
     (let v = lower (code @ '' '' @ msg) in
      if str_includes ''host_key'' v \<or> str_includes ''host key'' v
      then \<lparr>sl_finalState = ''error'', sl_closeReason = ''host_key_rejected'', sl_message = ''SSH host key validation failed''\<rparr>
      else if str_includes ''auth'' v \<or> str_includes ''permission denied'' v
      then \<lparr>sl_finalState = ''error'', sl_closeReason = ''authentication_failed'', sl_message = ''SSH authentication failed''\<rparr>
      else if str_includes ''keepalive'' v
      then \<lparr>sl_finalState = ''error'', sl_closeReason = ''keepalive_failed'', sl_message = ''SSH keepalive failed''\<rparr>
      else if str_includes ''timeout'' v \<or> str_includes ''timed out'' v
      then \<lparr>sl_finalState = ''error'', sl_closeReason = ''connection_timeout'', sl_message = ''SSH connection timed out''\<rparr>
      else \<lparr>sl_finalState = ''error'', sl_closeReason = ''network_error'', sl_message = ''SSH connection failed''\<rparr>)"

definition failure_event_code :: "string \<Rightarrow> string" where
  "failure_event_code reason =
     (if reason \<in> {''authentication_failed'', ''host_key_rejected'', ''keepalive_failed''} then reason else ''error'')"

definition failure_api_code :: "string \<Rightarrow> string" where
  "failure_api_code code =
     (if str_includes ''HOST_KEY'' code
      then if str_includes ''MISMATCH'' code then ''SSH_HOST_KEY_CHANGED'' else ''SSH_HOST_KEY_REJECTED''
      else ''SSH_CONNECTION_FAILED'')"

section \<open>The handler\<close>

function output_chunks :: "string \<Rightarrow> string list" where
  "output_chunks data =
     (if data = [] then [] else take MAX_JSON_OUTPUT_CHARS data # output_chunks (drop MAX_JSON_OUTPUT_CHARS data))"
  by auto
termination by (relation "measure length") (auto simp: MAX_JSON_OUTPUT_CHARS_def)

declare output_chunks.simps [simp del]

text \<open>The sequence number is taken before the message is checked.\<close>

fun send_chunks :: "js_platform \<Rightarrow> session_context \<Rightarrow> string list \<Rightarrow> nat \<Rightarrow> effects \<times> nat" where
  "send_chunks p c [] n = (act [], n)"
| "send_chunks p c (d # ds) n =
     (case sendServer p c None (Sv_Output (int n) ''stdout'' d) of
        (es, None) \<Rightarrow> (case send_chunks p c ds (Suc n) of (r, m) \<Rightarrow> (and_then (es, None) r, m))
      | (es, Some e) \<Rightarrow> ((es, Some e), Suc n))"

definition handle_output :: "js_platform \<Rightarrow> session_clock \<Rightarrow> string \<Rightarrow> live_session \<Rightarrow> effects \<times> live_session" where
  "handle_output p ck data live =
     (case observeOutput data (sk_now ck) (lv_capture live) of
        (commands, capture) \<Rightarrow>
          (case send_chunks p (lv_context live) (output_chunks data) (lv_outputSequence live) of
             (r, n) \<Rightarrow> (and_then (act (map (\<lambda>cmd. Audited (M_Command cmd)) commands)) r,
                        live\<lparr>lv_capture := capture, lv_outputSequence := n\<rparr>)))"

definition status_audit :: "session_clock \<Rightarrow> string \<Rightarrow> session_effect list" where
  "status_audit ck phase =
     (if phase = ''tcp_connecting'' then [Audited (M_State ''tcp_connecting'' ''tcp_connecting'' ''Opening the SSH TCP connection'')]
      else if phase = ''ssh_handshake'' then [Audited (M_State ''ssh_handshake'' ''ssh_handshake_started'' ''SSH transport handshake started'')]
      else if str_includes ''auth'' phase then [Audited (M_State ''authenticating'' ''authentication_started'' ''SSH authentication started'')]
      else if phase = ''ready'' then [Audited (M_Connected (sk_iso ck))]
      else [])"

definition handle_host_key ::
  "js_platform \<Rightarrow> session_clock \<Rightarrow> live_session \<Rightarrow> string \<Rightarrow> string \<Rightarrow> bool \<Rightarrow> string option \<Rightarrow> effects" where
  "handle_host_key p ck live fingerprint keyType trusted previous =
     (let c = lv_context live; known = (case previous of None \<Rightarrow> False | Some f \<Rightarrow> f \<noteq> []) in
      and_then (act [Audited (M_Host_Key fingerprint keyType)])
        (if trusted then act [Audited (M_State ''ssh_handshake'' ''host_key_accepted'' ''Stored SSH host key matched'')]
         else if known
         then act [Audited (M_Security ''ssh_host_key_changed'' (''SSH host key changed for profile '' @ cp_profileName (sc_profile c)))]
         else and_then (act [Audited (M_State ''host_confirmation'' ''host_key_confirmation_required'' ''SSH host key confirmation is required'')])
           (and_then (sendStatus p ck c ''host_confirmation'' ''SSH host key confirmation is required'' (lv_requestId live) None)
             (sendServer p c None (Sv_Host_Key (cp_host (sc_profile c)) (cp_port (sc_profile c)) keyType fingerprint known previous (sk_expires ck))))))"

definition handle_error :: "js_platform \<Rightarrow> live_session \<Rightarrow> string \<Rightarrow> string \<Rightarrow> effects" where
  "handle_error p live code msg =
     (let c = lv_context live; closure = classifyEngineFailure code msg; reason = sl_closeReason closure in
      and_then (act (Audited (M_State ''error'' (failure_event_code reason) (sl_message closure)) #
          (if reason = ''host_key_rejected''
           then [Audited (M_Security ''ssh_host_key_rejected'' (''SSH host key validation failed for profile '' @ cp_profileName (sc_profile c)))]
           else [])))
        (and_then (sendError p c (failure_api_code code) msg True None) (act [Closing 4500 msg closure])))"

definition handleEngineEvent :: "js_platform \<Rightarrow> session_clock \<Rightarrow> engine_event \<Rightarrow> live_session \<Rightarrow> effects \<times> live_session" where
  "handleEngineEvent p ck ev live =
     (case ev of
        Ev_Output data \<Rightarrow> handle_output p ck data live
      | Ev_Banner msg \<Rightarrow> if msg = [] then (act [], live) else handle_output p ck (msg @ [char_of (13 :: nat), char_of (10 :: nat)]) live
      | Ev_Status phase msg \<Rightarrow>
          (and_then (sendStatus p ck (lv_context live) (mapEngineState phase) msg (lv_requestId live) None) (act (status_audit ck phase)), live)
      | Ev_Handshake rekey kex hk ci co mi mo \<Rightarrow> (act [Audited (M_Algorithms kex ci co rekey)], live)
      | Ev_Host_Key fingerprint keyType trusted previous \<Rightarrow> (handle_host_key p ck live fingerprint keyType trusted previous, live)
      | Ev_Error code msg \<Rightarrow> (handle_error p live code msg, live)
      | Ev_Closed reason \<Rightarrow>
          (and_then (sendStatus p ck (lv_context live) ''closed'' reason (lv_requestId live) (Some ''remote_closed''))
             (act [Closing 1000 ''SSH session closed''
                \<lparr>sl_finalState = ''closed'', sl_closeReason = ''remote_closed'',
                  sl_message = or_default reason ''SSH server closed the connection''\<rparr>]), live))"

text \<open>
  The events of an engine in order; an exception ends the handler of its event only. An event that ends the session starts
  its cleanup, which takes the session out of the map of sessions before it waits for anything, so that the handler
  finds no session for every later event and does nothing.
\<close>

definition closes_session :: "effects \<Rightarrow> bool" where
  "closes_session r \<longleftrightarrow> list_ex (\<lambda>e. case e of Closing code reason closure \<Rightarrow> True | _ \<Rightarrow> False) (prod.fst r)"

fun engine_events :: "js_platform \<Rightarrow> (session_clock \<times> engine_event) list \<Rightarrow> live_session option \<Rightarrow>
    effects list \<times> live_session option" where
  "engine_events p [] live = ([], live)"
| "engine_events p ((ck, ev) # evs) None = (case engine_events p evs None of (rs, live') \<Rightarrow> (act [] # rs, live'))"
| "engine_events p ((ck, ev) # evs) (Some live) =
     (case handleEngineEvent p ck ev live of (r, live') \<Rightarrow>
       (case engine_events p evs (if closes_session r then None else Some live') of (rs, live'') \<Rightarrow> (r # rs, live'')))"

section \<open>Terminal output\<close>

definition outputs :: "session_effect list \<Rightarrow> (int \<times> string) list" where
  "outputs es = List.map_filter (\<lambda>e. case e of Sent m \<Rightarrow> (case sm_body m of Sv_Output n _ d \<Rightarrow> Some (n, d) | _ \<Rightarrow> None) | _ \<Rightarrow> None) es"

lemma outputs_simps [simp]:
  "outputs [] = []" "outputs (xs @ ys) = outputs xs @ outputs ys"
  "outputs (Audited a # es) = outputs es" "outputs (Closing c r cl # es) = outputs es"
  "outputs (map (\<lambda>cmd. Audited (f cmd)) cmds) = []"
  by (simp_all add: outputs_def List.map_filter_def filter_empty_conv)

lemma and_then_act [simp]: "and_then (act es) r = (es @ prod.fst r, snd r)" "and_then (es, None) r = (es @ prod.fst r, snd r)"
  by (simp_all add: and_then_def act_def)

lemma outputs_and_then: "outputs (prod.fst (and_then x y)) = outputs (prod.fst x) @ (if snd x = None then outputs (prod.fst y) else [])"
  by (auto simp: and_then_def split: prod.splits option.splits)

definition event_text :: "engine_event \<Rightarrow> string" where
  "event_text ev = (case ev of Ev_Output d \<Rightarrow> d
     | Ev_Banner msg \<Rightarrow> (if msg = [] then [] else msg @ [char_of (13 :: nat), char_of (10 :: nat)]) | _ \<Rightarrow> [])"

text \<open>Messages of another kind are no output.\<close>

lemma outputs_send:
  "(\<And>n s d. body \<noteq> Sv_Output n s d) \<Longrightarrow> outputs (prod.fst (sendServer p c rid body)) = []"
  by (cases body) (auto simp: sendServer_def act_def outputs_def List.map_filter_def Let_def)

lemma outputs_status [simp]: "outputs (prod.fst (sendStatus p ck c st msg rid reason)) = []"
  unfolding sendStatus_def by (rule outputs_send) simp

lemma outputs_error [simp]: "outputs (prod.fst (sendError p c code msg fatal rid)) = []"
  unfolding sendError_def by (rule outputs_send) simp

lemma outputs_host_key: "outputs (prod.fst (handle_host_key p ck live fp kt tr prev)) = []"
  by (auto simp: handle_host_key_def Let_def outputs_and_then outputs_send) (simp_all add: act_def)

lemma outputs_act: "outputs (prod.fst (act es)) = outputs es" "snd (act es) = None"
  by (simp_all add: act_def)

lemma outputs_status_audit [simp]: "outputs (status_audit ck phase) = []"
  by (simp add: status_audit_def)

lemma outputs_handle_error: "outputs (prod.fst (handle_error p live code msg)) = []"
  by (simp add: handle_error_def Let_def outputs_and_then outputs_act)

lemma outputs_other:
  assumes "event_text ev = []" "\<And>d. ev \<noteq> Ev_Output d"
  shows "outputs (prod.fst (prod.fst (handleEngineEvent p ck ev live))) = [] \<and> snd (handleEngineEvent p ck ev live) = live"
proof (cases ev)
  case (Ev_Banner msg)
  then show ?thesis using assms by (cases "msg = []") (simp_all add: event_text_def handleEngineEvent_def outputs_act)
next
  case (Ev_Status phase msg)
  then show ?thesis unfolding handleEngineEvent_def by (simp add: outputs_and_then outputs_act outputs_status outputs_status_audit)
next
  case (Ev_Host_Key fp kt tr prev)
  then show ?thesis unfolding handleEngineEvent_def by (simp add: outputs_host_key)
next
  case (Ev_Error code msg)
  then show ?thesis unfolding handleEngineEvent_def by (simp add: outputs_handle_error)
next
  case (Ev_Closed reason)
  then show ?thesis unfolding handleEngineEvent_def by (simp add: outputs_and_then outputs_act outputs_status)
next
  case (Ev_Handshake rekey kex hk ci co mi mo)
  then show ?thesis unfolding handleEngineEvent_def by (simp add: outputs_act)
next
  case (Ev_Output d)
  then show ?thesis using assms(2) by blast
qed

definition context_ok :: "js_platform \<Rightarrow> session_context \<Rightarrow> bool" where
  "context_ok p c \<longleftrightarrow> zod_law (zod.truncate p) \<and> number_law (js_number p) \<and> z_uuid (zod.truncate p) (sc_sessionId c) \<and>
     z_uuid (zod.truncate p) (sc_attemptId c)"

lemma send_output:
  assumes "context_ok p c" "d \<noteq> []" "length d \<le> 8192" "int n \<le> max_safe"
  shows "\<exists>m. sendServer p c None (Sv_Output (int n) ''stdout'' d) = ([Sent m], None) \<and> sm_body m = Sv_Output (int n) ''stdout'' d"
proof -
  let ?m = "\<lparr>sm_requestId = None, sm_sessionId = sc_sessionId c, sm_attemptId = sc_attemptId c, sm_body = Sv_Output (int n) ''stdout'' d\<rparr>"
  have "1 \<le> length d" using assms(2) by (cases d) auto
  then have "ServerWebSocketMessageSchema p ?m"
    using assms by (intro small_message_valid)
      (simp_all add: context_ok_def server_ok_def ServerTerminalOutputMessageSchema_def nonneg_int_def len_ok_def)
  then show ?thesis by (simp add: sendServer_def act_def Let_def)
qed

lemma output_chunks_facts:
  "concat (output_chunks data) = data \<and> (\<forall>d \<in> set (output_chunks data). d \<noteq> [] \<and> length d \<le> 8192) \<and>
    length (output_chunks data) \<le> length data"
proof (induction data rule: output_chunks.induct)
  case (1 data)
  show ?case
  proof (cases "data = []")
    case True
    then show ?thesis by (simp add: output_chunks.simps)
  next
    case False
    define rest where "rest = drop MAX_JSON_OUTPUT_CHARS data"
    have eq: "output_chunks data = take MAX_JSON_OUTPUT_CHARS data # output_chunks rest"
      using False by (subst output_chunks.simps) (simp add: rest_def)
    have IH: "concat (output_chunks rest) = rest" "\<forall>d \<in> set (output_chunks rest). d \<noteq> [] \<and> length d \<le> 8192"
      "length (output_chunks rest) \<le> length rest"
      using 1 False by (simp_all add: rest_def)
    have "take MAX_JSON_OUTPUT_CHARS data \<noteq> []" "length (take MAX_JSON_OUTPUT_CHARS data) \<le> 8192" "length rest < length data"
      using False by (simp_all add: MAX_JSON_OUTPUT_CHARS_def rest_def)
    moreover have "take MAX_JSON_OUTPUT_CHARS data @ rest = data" by (simp only: rest_def append_take_drop_id)
    ultimately show ?thesis using IH by (simp add: eq del: length_take)
  qed
qed

lemma send_chunks_all:
  assumes "context_ok p c" "\<forall>d \<in> set ds. d \<noteq> [] \<and> length d \<le> 8192" "int (n + length ds) \<le> max_safe"
  shows "\<exists>es. send_chunks p c ds n = ((es, None), n + length ds) \<and> outputs es = zip (map int [n..<n + length ds]) ds"
  using assms(2,3)
proof (induction ds arbitrary: n)
  case (Cons d ds)
  obtain m where m: "sendServer p c None (Sv_Output (int n) ''stdout'' d) = ([Sent m], None)" "sm_body m = Sv_Output (int n) ''stdout'' d"
    using send_output [OF assms(1), of d n] Cons.prems by auto
  obtain es where es: "send_chunks p c ds (Suc n) = ((es, None), Suc n + length ds)"
      "outputs es = zip (map int [Suc n..<Suc n + length ds]) ds"
    using Cons.IH [of "Suc n"] Cons.prems by auto
  have "outputs (Sent m # es) = (int n, d) # outputs es" by (simp add: outputs_def List.map_filter_def m(2))
  moreover have "[n..<n + length (d # ds)] = n # [Suc n..<Suc n + length ds]" by (simp add: upt_conv_Cons del: upt_Suc)
  ultimately show ?case using m(1) es by (simp del: upt_Suc)
qed (simp add: act_def)

text \<open>Pieces that are not empty and within the bound of a message.\<close>

definition bounded_data :: "(int \<times> string) list \<Rightarrow> bool" where
  "bounded_data os \<longleftrightarrow> list_all (\<lambda>(n, d). 0 < length d \<and> length d \<le> MAX_JSON_OUTPUT_CHARS) os"

lemma bounded_data_simps [simp]: "bounded_data []" "bounded_data (xs @ ys) \<longleftrightarrow> bounded_data xs \<and> bounded_data ys"
  by (simp_all add: bounded_data_def)

lemma handle_output_all:
  assumes "context_ok p (lv_context live)" "int (lv_outputSequence live + length data) \<le> max_safe"
  shows "\<exists>es k live'. handle_output p ck data live = ((es, None), live') \<and> lv_context live' = lv_context live \<and>
    lv_outputSequence live' = lv_outputSequence live + k \<and> k \<le> length data \<and>
    map prod.fst (outputs es) = map int [lv_outputSequence live..<lv_outputSequence live + k] \<and>
    concat (map snd (outputs es)) = data \<and> bounded_data (outputs es)"
proof -
  note c = output_chunks_facts [of data]
  obtain commands cap where obs: "observeOutput data (sk_now ck) (lv_capture live) = (commands, cap)" by force
  have "int (lv_outputSequence live + length (output_chunks data)) \<le> max_safe" using assms(2) c by linarith
  then obtain es where es: "send_chunks p (lv_context live) (output_chunks data) (lv_outputSequence live) =
      ((es, None), lv_outputSequence live + length (output_chunks data))"
    "outputs es = zip (map int [lv_outputSequence live..<lv_outputSequence live + length (output_chunks data)]) (output_chunks data)"
    using send_chunks_all [OF assms(1), of "output_chunks data" "lv_outputSequence live"] c by auto
  moreover have "bounded_data (outputs es)"
    unfolding es(2) bounded_data_def MAX_JSON_OUTPUT_CHARS_def using c by (auto simp: list_all_iff dest!: set_zip_rightD)
  ultimately show ?thesis
    using c obs by (simp add: handle_output_def del: upt_Suc)
qed

lemma event_output:
  assumes "context_ok p (lv_context live)" "int (lv_outputSequence live + length (event_text ev)) \<le> max_safe"
  shows "\<exists>r k live'. handleEngineEvent p ck ev live = (r, live') \<and> lv_context live' = lv_context live \<and>
    lv_outputSequence live' = lv_outputSequence live + k \<and> k \<le> length (event_text ev) \<and>
    map prod.fst (outputs (prod.fst r)) = map int [lv_outputSequence live..<lv_outputSequence live + k] \<and>
    concat (map snd (outputs (prod.fst r))) = event_text ev \<and> bounded_data (outputs (prod.fst r))"
proof (cases "event_text ev = [] \<and> (\<forall>d. ev \<noteq> Ev_Output d)")
  case True
  then show ?thesis using outputs_other [of ev p ck live] by (cases "handleEngineEvent p ck ev live") (auto simp: bounded_data_def)
next
  case False
  then have "handleEngineEvent p ck ev live = handle_output p ck (event_text ev) live"
    by (cases ev) (auto simp: handleEngineEvent_def event_text_def)
  then show ?thesis using handle_output_all [OF assms, of ck] by auto
qed

text \<open>The events that end a session, and what follows them.\<close>

definition ends_session :: "engine_event \<Rightarrow> bool" where
  "ends_session ev = (case ev of Ev_Error code msg \<Rightarrow> True | Ev_Closed reason \<Rightarrow> True | _ \<Rightarrow> False)"

lemma closes_act [simp]: "closes_session (act es) = list_ex (\<lambda>e. case e of Closing code reason closure \<Rightarrow> True | _ \<Rightarrow> False) es"
  "closes_session (es, x) = closes_session (act es)"
  by (simp_all add: closes_session_def act_def)

lemma closes_and_then: "closes_session (and_then x y) \<Longrightarrow> closes_session x \<or> closes_session y"
  by (auto simp: closes_session_def and_then_def split: prod.splits option.splits)

lemma closes_server: "\<not> closes_session (sendServer p c rid body)"
  by (simp add: sendServer_def Let_def)

lemma closes_chunks: "\<not> closes_session (prod.fst (send_chunks p c ds n))"
proof (induction ds arbitrary: n)
  case (Cons d ds)
  obtain es x where d: "sendServer p c None (Sv_Output (int n) ''stdout'' d) = (es, x)" by force
  then have "\<not> closes_session (act es)" using closes_server [of p c None "Sv_Output (int n) ''stdout'' d"] by simp
  then show ?case using Cons.IH [of "Suc n"] d
    by (cases x) (auto simp: and_then_def closes_session_def act_def split: prod.splits option.splits)
qed simp

lemma closes_output: "\<not> closes_session (prod.fst (handle_output p ck data live))"
  using closes_chunks [of p "lv_context live" "output_chunks data" "lv_outputSequence live"]
  by (auto simp: handle_output_def closes_session_def act_def list_ex_iff simp del: and_then_act split: prod.splits dest!: arg_cong [of _ _ prod.fst])
    (auto simp: and_then_def)

lemma closes_host_key: "\<not> closes_session (handle_host_key p ck live fp kt tr prev)"
  by (auto simp: handle_host_key_def sendStatus_def closes_server Let_def simp del: and_then_act dest!: closes_and_then split: if_splits)

lemma closes_final: "closes_session (prod.fst (handleEngineEvent p ck ev live)) \<Longrightarrow> ends_session ev"
  by (cases ev) (auto simp: handleEngineEvent_def closes_output closes_host_key closes_server ends_session_def sendStatus_def
      status_audit_def simp del: and_then_act dest!: closes_and_then split: if_splits)

lemma events_after: "engine_events p evs None = (map (\<lambda>e. act []) evs, None)"
proof (induction evs)
  case (Cons e evs)
  then show ?case by (cases e) simp
qed simp

lemma outputs_after: "outputs (concat (map prod.fst (map (\<lambda>e. act []) evs))) = []"
  by (induction evs) (simp_all add: act_def)

lemma events_output:
  assumes "context_ok p (lv_context live)" "int (lv_outputSequence live + length (concat (map (event_text \<circ> snd) evs))) \<le> max_safe"
    "engine_events p evs (Some live) = (rs, live')"
  shows "\<exists>k handled ignored. evs = handled @ ignored \<and>
    map prod.fst (outputs (concat (map prod.fst rs))) = map int [lv_outputSequence live..<lv_outputSequence live + k] \<and>
    concat (map snd (outputs (concat (map prod.fst rs)))) = concat (map (event_text \<circ> snd) handled) \<and>
    bounded_data (outputs (concat (map prod.fst rs))) \<and>
    (ignored = [] \<or> handled \<noteq> [] \<and> ends_session (snd (last handled)) \<and> live' = None)"
  using assms
proof (induction evs arbitrary: live rs)
  case (Cons ev evs)
  obtain ck e where ev: "ev = (ck, e)" by force
  obtain r k live1 where r: "handleEngineEvent p ck e live = (r, live1)" "lv_context live1 = lv_context live"
      "lv_outputSequence live1 = lv_outputSequence live + k" "k \<le> length (event_text e)"
      "map prod.fst (outputs (prod.fst r)) = map int [lv_outputSequence live..<lv_outputSequence live + k]"
      "concat (map snd (outputs (prod.fst r))) = event_text e" "bounded_data (outputs (prod.fst r))"
    using event_output [of p live e ck] Cons.prems(1,2) ev by auto
  show ?case
  proof (cases "closes_session r")
    case True
    have "rs = r # map (\<lambda>e. act []) evs" "live' = None"
      using Cons.prems(3) r(1) True ev by (simp_all add: events_after)
    moreover have "ends_session e" using closes_final [of p ck e live] r(1) True by simp
    ultimately show ?thesis using r(5-7) ev outputs_after [of evs]
      by (intro exI [of _ k] exI [of _ "[ev]"] exI [of _ evs]) simp
  next
    case False
    obtain rs' where rs: "engine_events p evs (Some live1) = (rs', live')" "rs = r # rs'"
      using Cons.prems(3) r(1) False ev by (auto split: prod.splits)
    have "context_ok p (lv_context live1)" "int (lv_outputSequence live1 + length (concat (map (event_text \<circ> snd) evs))) \<le> max_safe"
      using Cons.prems(1,2) r(2-4) ev by (auto simp: o_def)
    then obtain j handled ignored where j: "evs = handled @ ignored"
        "map prod.fst (outputs (concat (map prod.fst rs'))) = map int [lv_outputSequence live1..<lv_outputSequence live1 + j]"
        "concat (map snd (outputs (concat (map prod.fst rs')))) = concat (map (event_text \<circ> snd) handled)"
        "bounded_data (outputs (concat (map prod.fst rs')))"
        "ignored = [] \<or> handled \<noteq> [] \<and> ends_session (snd (last handled)) \<and> live' = None"
      using Cons.IH [OF _ _ rs(1)] by blast
    have "[lv_outputSequence live..<lv_outputSequence live + (k + j)] =
        [lv_outputSequence live..<lv_outputSequence live + k] @ [lv_outputSequence live1..<lv_outputSequence live1 + j]"
      unfolding r(3) add.assoc [symmetric] by (rule upt_add_eq_append) simp
    moreover have outs: "outputs (concat (map prod.fst rs)) = outputs (prod.fst r) @ outputs (concat (map prod.fst rs'))"
      by (simp add: rs(2))
    ultimately have "map prod.fst (outputs (concat (map prod.fst rs))) = map int [lv_outputSequence live..<lv_outputSequence live + (k + j)]"
      "concat (map snd (outputs (concat (map prod.fst rs)))) = concat (map (event_text \<circ> snd) (ev # handled))"
      by (simp_all only: map_append r(5,6) j(2,3) concat_append list.map concat.simps o_def ev prod.sel)
    moreover have "bounded_data (outputs (concat (map prod.fst rs)))" by (simp add: outs r(7) j(4))
    moreover have "ev # evs = (ev # handled) @ ignored" using j(1) by simp
    moreover have "ignored = [] \<or> ev # handled \<noteq> [] \<and> ends_session (snd (last (ev # handled))) \<and> live' = None" using j(5) by auto
    ultimately show ?thesis by blast
  qed
next
  case Nil
  then show ?case by (intro exI [of _ 0] exI [of _ "[]"]) simp
qed

text \<open>
  C31: Whatever events the engine reports, up to the one that ends the session the output messages sent to the browser carry, in order,
  exactly the text of the terminal and of the banners, in pieces that are not empty and hold at most 8192 characters, and
  their sequence numbers follow one another without a gap, as long as they stay safe integers; only what the engine reports
  after an error or its end is not sent.
\<close>

theorem terminal_output_lossless:
  assumes "context_ok p (lv_context live)" "engine_events p evs (Some live) = (rs, live')"
    "int (lv_outputSequence live + length (concat (map (event_text \<circ> snd) evs))) \<le> max_safe"
    "sent = outputs (concat (map prod.fst rs))"
  shows "\<exists>handled ignored. evs = handled @ ignored \<and>
    concat (map snd sent) = concat (map (event_text \<circ> snd) handled) \<and>
    map prod.fst sent = map int [lv_outputSequence live..<lv_outputSequence live + length sent] \<and>
    list_all (\<lambda>(n, d). 0 < length d \<and> length d \<le> MAX_JSON_OUTPUT_CHARS) sent \<and>
    (ignored = [] \<or> handled \<noteq> [] \<and> ends_session (snd (last handled)) \<and> live' = None)"
proof -
  obtain k handled ignored where k: "evs = handled @ ignored"
      "map prod.fst sent = map int [lv_outputSequence live..<lv_outputSequence live + k]"
      "concat (map snd sent) = concat (map (event_text \<circ> snd) handled)" "bounded_data sent"
      "ignored = [] \<or> handled \<noteq> [] \<and> ends_session (snd (last handled)) \<and> live' = None"
    using events_output [OF assms(1,3,2)] unfolding assms(4) by blast
  have "length sent = k" using arg_cong [OF k(2), of length] by simp
  then show ?thesis using k unfolding bounded_data_def by blast
qed

definition demo_live :: live_session where
  "demo_live = \<lparr>lv_context = \<lparr>sc_sessionId = ''s'', sc_attemptId = ''a'', sc_profile = demo_profile\<rparr>, lv_capture = capture_new,
     lv_outputSequence = 0, lv_requestId = None\<rparr>"

definition demo_session_clock :: session_clock where
  "demo_session_clock = \<lparr>sk_now = 0, sk_iso = ''t'', sk_expires = ''u''\<rparr>"

text \<open>The text that comes after the end of the session is not sent.\<close>

lemma terminal_output_lossless_witness:
  "concat (map snd (outputs (concat (map prod.fst (prod.fst (engine_events demo_js
      [(demo_session_clock, Ev_Banner ''hi''), (demo_session_clock, Ev_Output ''ok'')] (Some demo_live)))))))
    = ''hi'' @ [char_of (13 :: nat), char_of (10 :: nat)] @ ''ok''"
proof -
  let ?evs = "[(demo_session_clock, Ev_Banner ''hi''), (demo_session_clock, Ev_Output ''ok'')]"
  obtain rs live' where run: "engine_events demo_js ?evs (Some demo_live) = (rs, live')" by force
  have "context_ok demo_js (lv_context demo_live)" by (simp add: context_ok_def demo_js_laws demo_live_def)
  from terminal_output_lossless [OF this run _ refl]
  obtain handled ignored where h: "?evs = handled @ ignored"
      "concat (map snd (outputs (concat (map prod.fst rs)))) = concat (map (event_text \<circ> snd) handled)"
      "ignored = [] \<or> handled \<noteq> [] \<and> ends_session (snd (last handled)) \<and> live' = None"
    by (auto simp: event_text_def demo_live_def max_safe_def)
  have "last handled \<in> set ?evs" if "handled \<noteq> []" using that unfolding h(1) by simp
  then have "ignored = []" using h(3) by (auto simp: ends_session_def)
  then have "handled = ?evs" using h(1) by simp
  then have "concat (map snd (outputs (concat (map prod.fst rs)))) = ''hi'' @ [char_of (13 :: nat), char_of (10 :: nat)] @ ''ok''"
    unfolding h(2) by (simp add: event_text_def)
  then show ?thesis unfolding run by (simp only: prod.sel)
qed

end
