(* ===== verification/Ssh_Session.thy ===== *)
theory Ssh_Session
  imports Session_Events File_Transfer
begin

text \<open>
  The life of one browser socket in the session object (\<open>durable/ssh-session.ts\<close>): the ticket's authorization, the
  startup of a connection with its awaits, the live session, the renewal of its lease, the end of a socket and the
  recovery after a restart. Every map of the object is keyed by the socket and an operation touches only the entries of
  its own socket, so the state is that of one socket. A step is the code between two awaits; the answers of the lease
  registry, of the database and of the engine, the timers, the messages and the end of the socket come in any order.
  The messages of one socket wait for each other, so a startup ends before the next message is handled.
\<close>

section \<open>State\<close>

text \<open>What the object does to its resources: the calls it makes, and how they ended.\<close>

datatype lifecycle =
    Lease_Asked
  | Lease_Granted
  | Lease_Refused
  | Release_Asked
  | Release_Done bool
  | Audit_Started
  | Finish_Asked session_closure
  | Finish_Done bool
  | Engine_Created
  | Engine_Close_Asked string
  | Engine_Close_Done bool
  | Renewal_Asked
  | Told string string
  | Socket_Closed int string

text \<open>Where the handler of the connect message stands: the await it is in. The failing ones know the error to rethrow.\<close>

datatype startup_pc =
    Not_Starting | Await_Lease | Await_Limit_Record | Await_Gone_Release | Await_Audit_Start | Await_Abort
  | Await_Failed_Finish string | Await_Failed_Release string

record ssh_socket =
  so_attemptId :: string
  so_phase :: string
  so_open :: bool
  so_auth :: bool
  so_live :: bool
  so_deadline :: bool
  so_starting :: bool
  so_startup :: startup_pc
  so_lease_timer :: bool
  so_renewing :: bool
  so_expires :: millis
  so_settling :: bool
  so_closing :: "(int \<times> string) list"
  so_log :: "lifecycle list"

text \<open>A socket as \<open>upgrade\<close> leaves it: accepted, with its authorization and the deadline of the connect message.\<close>

definition socket_accepted :: "string \<Rightarrow> ssh_socket" where
  "socket_accepted attemptId = \<lparr>so_attemptId = attemptId, so_phase = ''waiting'', so_open = True, so_auth = True, so_live = False, so_deadline = True,
     so_starting = False, so_startup = Not_Starting, so_lease_timer = False, so_renewing = False, so_expires = 0,
     so_settling = False, so_closing = [], so_log = []\<rparr>"

definition record_step :: "lifecycle list \<Rightarrow> ssh_socket \<Rightarrow> ssh_socket" where
  "record_step ls s = s\<lparr>so_log := so_log s @ ls\<rparr>"

section \<open>The end of a socket\<close>

definition default_closure :: "string \<Rightarrow> session_closure" where
  "default_closure reason = \<lparr>sl_finalState = ''error'', sl_closeReason = ''internal_error'', sl_message = reason\<rparr>"

text \<open>
  \<open>cleanup\<close> takes the session out of the maps, asks for the three ends and waits until each of them succeeded or
  failed (\<open>Promise.allSettled\<close>), whatever the failures.
\<close>

definition cleanup :: "session_closure \<Rightarrow> ssh_socket \<Rightarrow> ssh_socket" where
  "cleanup closure s =
     (let s = s\<lparr>so_deadline := False, so_starting := False, so_auth := False\<rparr> in
      if \<not> so_live s then s
      else record_step [Engine_Close_Asked (sl_message closure), Release_Asked, Finish_Asked closure]
             (s\<lparr>so_live := False, so_lease_timer := False, so_settling := True\<rparr>))"

definition cleanup_settled :: "bool \<Rightarrow> bool \<Rightarrow> bool \<Rightarrow> ssh_socket \<Rightarrow> ssh_socket" where
  "cleanup_settled engine release finish s =
     record_step [Engine_Close_Done engine, Release_Done release, Finish_Done finish] (s\<lparr>so_settling := False\<rparr>)"

text \<open>
  \<open>closeSocket\<close> awaits the cleanup it called before it closes the socket; one whose cleanup found no session does not wait for
  another's, so the step \<open>close_done\<close> may come at any later time.
\<close>

definition closeSocket :: "int \<Rightarrow> string \<Rightarrow> session_closure \<Rightarrow> ssh_socket \<Rightarrow> ssh_socket" where
  "closeSocket code reason closure s = (cleanup closure s)\<lparr>so_closing := so_closing s @ [(code, reason)]\<rparr>"

definition webSocketClose :: "int \<Rightarrow> bool \<Rightarrow> ssh_socket \<Rightarrow> ssh_socket" where
  "webSocketClose code wasClean s =
     (let userInitiated = wasClean \<and> (code = 1000 \<or> code = 1001) in
      cleanup (if userInitiated
        then \<lparr>sl_finalState = ''closed'', sl_closeReason = ''user_disconnect'', sl_message = ''Browser WebSocket closed''\<rparr>
        else \<lparr>sl_finalState = ''error'', sl_closeReason = ''network_error'', sl_message = ''Browser WebSocket closed unexpectedly''\<rparr>)
        (s\<lparr>so_open := False\<rparr>))"

definition webSocketError :: "ssh_socket \<Rightarrow> ssh_socket" where
  "webSocketError s = cleanup \<lparr>sl_finalState = ''error'', sl_closeReason = ''network_error'', sl_message = ''Browser WebSocket failed''\<rparr>
     (s\<lparr>so_open := False\<rparr>)"

section \<open>Messages\<close>

text \<open>The handler of the exceptions of a message: the browser is told, and a fatal one closes the socket.\<close>

definition tell :: "bool \<Rightarrow> string \<Rightarrow> string \<Rightarrow> ssh_socket \<Rightarrow> ssh_socket" where
  "tell known code msg s = (if known \<and> so_open s then record_step [Told code (or_default (take 512 msg) ''SSH operation failed'')] s else s)"

definition message_failed :: "failure \<Rightarrow> ssh_socket \<Rightarrow> ssh_socket" where
  "message_failed f s =
     (case (case f of Protocol_Error code msg fatal closeCode \<Rightarrow> (code, msg, fatal, closeCode)
                    | Plain_Error msg \<Rightarrow> (''INTERNAL_ERROR'', msg, \<not> so_live s, MESSAGE_INVALID)) of
        (code, msg, fatal, closeCode) \<Rightarrow>
          let s = tell (so_live s \<or> so_auth s) code msg s in
          if fatal then closeSocket closeCode msg (default_closure msg) s else s)"

datatype dispatched = Answer_Hello | Begin_Connect | Run_Command

text \<open>The checks of \<open>handleClientMessage\<close> before the command itself.\<close>

definition dispatch :: "client_message \<Rightarrow> ssh_socket \<Rightarrow> failure + dispatched" where
  "dispatch m s =
     (if \<not> so_auth s \<and> \<not> so_live s
      then Inl (Protocol_Error ''SSH_TICKET_INVALID'' ''SSH session authorization is missing'' True MESSAGE_INVALID)
      else if cm_attemptId m \<noteq> so_attemptId s then Inl (invalid ''WebSocket attempt ID does not match the ticket'' True)
      else case cm_body m of
        Hello \<Rightarrow> if so_live s then Inl (invalid ''SSH session has already started'' True) else Inr Answer_Hello
      | Connect t \<Rightarrow> if so_live s \<or> \<not> so_auth s \<or> so_starting s then Inl (invalid ''SSH session has already started'' True)
          else Inr Begin_Connect
      | _ \<Rightarrow> if \<not> so_live s then Inl (invalid ''The first session command must be connect'' True) else Inr Run_Command)"

section \<open>The startup of a connection\<close>

datatype lease_reply = Granted_Until millis | Refused_Lease | Call_Failed string

definition finish_startup :: "ssh_socket \<Rightarrow> ssh_socket" where
  "finish_startup s = s\<lparr>so_starting := False, so_startup := Not_Starting\<rparr>"

definition startup_throws :: "string \<Rightarrow> ssh_socket \<Rightarrow> ssh_socket" where
  "startup_throws msg s = message_failed (Plain_Error msg) (finish_startup s)"

definition connect_start :: "ssh_socket \<Rightarrow> ssh_socket" where
  "connect_start s = record_step [Lease_Asked] (s\<lparr>so_deadline := False, so_starting := True, so_startup := Await_Lease\<rparr>)"

definition still_wanted :: "ssh_socket \<Rightarrow> bool" where
  "still_wanted s \<longleftrightarrow> so_open s \<and> so_auth s"

definition lease_answered :: "lease_reply \<Rightarrow> ssh_socket \<Rightarrow> ssh_socket" where
  "lease_answered r s =
     (case r of
        Granted_Until e \<Rightarrow>
          (let s = record_step [Lease_Granted] (s\<lparr>so_expires := e\<rparr>) in
           if still_wanted s then s\<lparr>so_startup := Await_Audit_Start\<rparr>
           else record_step [Release_Asked] (s\<lparr>so_startup := Await_Gone_Release\<rparr>))
      | Refused_Lease \<Rightarrow> record_step [Lease_Refused] (s\<lparr>so_startup := Await_Limit_Record\<rparr>)
      | Call_Failed msg \<Rightarrow> startup_throws msg s)"

definition limit_recorded :: "ssh_socket \<Rightarrow> ssh_socket" where
  "limit_recorded s = finish_startup (closeSocket SESSION_TERMINATED ''SSH session limit reached'' (default_closure ''SSH session limit reached'')
     (tell True ''RATE_LIMITED'' ''The active SSH session limit has been reached'' s))"

text \<open>A release that fails on the way out is an exception of the startup, which releases again.\<close>

definition gone_released :: "string option \<Rightarrow> ssh_socket \<Rightarrow> ssh_socket" where
  "gone_released failed s =
     (case failed of None \<Rightarrow> finish_startup (record_step [Release_Done True] s)
      | Some msg \<Rightarrow> record_step [Release_Done False, Release_Asked] (s\<lparr>so_startup := Await_Failed_Release msg\<rparr>))"

definition startup_closure :: session_closure where
  "startup_closure = \<lparr>sl_finalState = ''closed'', sl_closeReason = ''user_disconnect'', sl_message = ''Browser WebSocket closed during SSH startup''\<rparr>"

definition failed_closure :: session_closure where
  "failed_closure = \<lparr>sl_finalState = ''error'', sl_closeReason = ''internal_error'', sl_message = ''SSH session initialization failed''\<rparr>"

text \<open>The audit has started; \<open>failed\<close> is an exception of the code that creates the engine and the session.\<close>

definition audit_answered :: "string option \<Rightarrow> ssh_socket \<Rightarrow> ssh_socket" where
  "audit_answered failed s =
     (let s = record_step [Audit_Started] s in
      if \<not> still_wanted s
      then record_step [Release_Asked, Finish_Asked startup_closure] (s\<lparr>so_startup := Await_Abort\<rparr>)
      else case failed of
        Some msg \<Rightarrow> record_step [Finish_Asked failed_closure] (s\<lparr>so_startup := Await_Failed_Finish msg\<rparr>)
      | None \<Rightarrow> finish_startup (record_step [Engine_Created] (s\<lparr>so_phase := ''connecting'', so_live := True, so_auth := False, so_lease_timer := True\<rparr>)))"

definition audit_failed :: "string \<Rightarrow> ssh_socket \<Rightarrow> ssh_socket" where
  "audit_failed msg s = record_step [Release_Asked] (s\<lparr>so_startup := Await_Failed_Release msg\<rparr>)"

text \<open>The browser had gone: both calls have ended, each with success or failure.\<close>

definition abort_settled :: "bool \<Rightarrow> bool \<Rightarrow> ssh_socket \<Rightarrow> ssh_socket" where
  "abort_settled release finish s = finish_startup (record_step [Release_Done release, Finish_Done finish] s)"

text \<open>\<open>audit.finish\<close> never rejects: a failed statement is only logged. The release comes after it.\<close>

definition failed_finished :: "string \<Rightarrow> bool \<Rightarrow> ssh_socket \<Rightarrow> ssh_socket" where
  "failed_finished msg finish s = record_step [Finish_Done finish, Release_Asked] (s\<lparr>so_startup := Await_Failed_Release msg\<rparr>)"

text \<open>A release that fails replaces the error to rethrow.\<close>

definition failed_released :: "string \<Rightarrow> string option \<Rightarrow> ssh_socket \<Rightarrow> ssh_socket" where
  "failed_released msg failed s =
     (case failed of None \<Rightarrow> startup_throws msg (record_step [Release_Done True] s)
      | Some msg' \<Rightarrow> startup_throws msg' (record_step [Release_Done False] s))"

text \<open>The promise of \<open>engine.connect\<close>: its failure is dropped, the engine is expected to have reported it.\<close>

definition connect_settled :: "unit throws \<Rightarrow> ssh_socket \<Rightarrow> ssh_socket" where
  "connect_settled r s = (case r of Inl _ \<Rightarrow> s | Inr _ \<Rightarrow> if so_live s then s\<lparr>so_phase := ''connected''\<rparr> else s)"

section \<open>The lease of a live session\<close>

definition renewal_due :: "ssh_socket \<Rightarrow> ssh_socket" where
  "renewal_due s =
     (let s = s\<lparr>so_lease_timer := False\<rparr> in
      if \<not> so_live s \<or> so_renewing s then s else record_step [Renewal_Asked] (s\<lparr>so_renewing := True\<rparr>))"

definition lease_lost :: "string \<Rightarrow> string \<Rightarrow> ssh_socket \<Rightarrow> ssh_socket" where
  "lease_lost told msg s =
     closeSocket SESSION_TERMINATED msg (default_closure msg) (tell True ''SERVICE_UNAVAILABLE'' told s)"

definition renewal_answered :: "lease_reply \<Rightarrow> millis \<Rightarrow> ssh_socket \<Rightarrow> ssh_socket" where
  "renewal_answered r now s =
     (let s' = (case r of
          Granted_Until e \<Rightarrow> s\<lparr>so_expires := e, so_lease_timer := so_live s\<rparr>
        | Refused_Lease \<Rightarrow> if so_live s then lease_lost ''SSH session lease expired'' ''SSH session lease expired'' s
            else s\<lparr>so_expires := 0\<rparr>
        | Call_Failed msg \<Rightarrow>
            if \<not> so_live s then s
            else if so_expires s - now > 5000 then s\<lparr>so_lease_timer := True\<rparr>
            else lease_lost ''Unable to renew the SSH session lease'' ''SSH session lease renewal failed'' s)
      in s'\<lparr>so_renewing := False\<rparr>)"

section \<open>The steps of a socket\<close>

text \<open>The answers a startup waits for.\<close>

inductive startup_answer :: "ssh_socket \<Rightarrow> ssh_socket \<Rightarrow> bool" where
  lease: "so_startup s = Await_Lease \<Longrightarrow> startup_answer s (lease_answered r s)"
| limit: "so_startup s = Await_Limit_Record \<Longrightarrow> startup_answer s (limit_recorded s)"
| gone: "so_startup s = Await_Gone_Release \<Longrightarrow> startup_answer s (gone_released failed s)"
| audited: "so_startup s = Await_Audit_Start \<Longrightarrow> startup_answer s (audit_answered failed s)"
| audit_lost: "so_startup s = Await_Audit_Start \<Longrightarrow> startup_answer s (audit_failed msg s)"
| aborted: "so_startup s = Await_Abort \<Longrightarrow> startup_answer s (abort_settled release finish s)"
| finished: "so_startup s = Await_Failed_Finish msg \<Longrightarrow> startup_answer s (failed_finished msg finish s)"
| released: "so_startup s = Await_Failed_Release msg \<Longrightarrow> startup_answer s (failed_released msg failed s)"

inductive session_step :: "ssh_socket \<Rightarrow> ssh_socket \<Rightarrow> bool" where
  refused_message: "so_startup s = Not_Starting \<Longrightarrow> dispatch m s = Inl f \<Longrightarrow> session_step s (message_failed f s)"
| connect_message: "so_startup s = Not_Starting \<Longrightarrow> dispatch m s = Inr Begin_Connect \<Longrightarrow> session_step s (connect_start s)"
| connect_misconfigured: "so_startup s = Not_Starting \<Longrightarrow> dispatch m s = Inr Begin_Connect \<Longrightarrow>
    session_step s (startup_throws msg (s\<lparr>so_deadline := False\<rparr>))"
| command_fails: "so_startup s = Not_Starting \<Longrightarrow> session_step s (message_failed f s)"
| startup_goes_on: "startup_answer s s' \<Longrightarrow> session_step s s'"
| disconnect_message: "so_startup s = Not_Starting \<Longrightarrow> dispatch m s = Inr Run_Command \<Longrightarrow>
    session_step s (closeSocket 1000 ''User disconnected''
      \<lparr>sl_finalState = ''closed'', sl_closeReason = ''user_disconnect'', sl_message = ''SSH session disconnected by the user''\<rparr> s)"
| engine_reports: "so_live s \<Longrightarrow> so_open s \<Longrightarrow> handleEngineEvent p ck ev live = ((es, None), live') \<Longrightarrow>
    Closing code reason closure \<in> set es \<Longrightarrow> session_step s (closeSocket code reason closure s)"
| engine_settles: "session_step s (connect_settled r s)"
| socket_closed: "session_step s (webSocketClose code wasClean s)"
| socket_failed: "session_step s (webSocketError s)"
| socket_gone: "session_step s (s\<lparr>so_open := False\<rparr>)"
| cleanup_done: "so_settling s \<Longrightarrow> session_step s (cleanup_settled engine release finish s)"
| close_done: "so_closing s = (code, reason) # rest \<Longrightarrow>
    session_step s (record_step [Socket_Closed code (take 123 reason)] (s\<lparr>so_open := False, so_closing := rest\<rparr>))"
| deadline_passed: "so_deadline s \<Longrightarrow>
    session_step s (closeSocket MESSAGE_INVALID ''Connect message timed out'' (default_closure ''Connect message timed out'') (s\<lparr>so_deadline := False\<rparr>))"
| renewal_timer: "so_lease_timer s \<Longrightarrow> session_step s (renewal_due s)"
| renewal_reply: "so_renewing s \<Longrightarrow> session_step s (renewal_answered r now s)"

abbreviation session_reach :: "ssh_socket \<Rightarrow> bool" where
  "session_reach s \<equiv> session_step\<^sup>*\<^sup>* (socket_accepted (so_attemptId s)) s"

section \<open>Resources\<close>

text \<open>
  What a log leaves open: a lease granted whose release was not asked for since, an audit whose end was not asked for, an
  engine not told to close; and the same of the calls that succeeded.
\<close>

definition opened_by :: "(lifecycle \<Rightarrow> bool) \<Rightarrow> (lifecycle \<Rightarrow> bool) \<Rightarrow> lifecycle list \<Rightarrow> bool" where
  "opened_by opens closes ls = fold (\<lambda>l b. if opens l then True else if closes l then False else b) ls False"

definition lease_kept :: "lifecycle list \<Rightarrow> bool" where
  "lease_kept = opened_by (\<lambda>l. l = Lease_Granted) (\<lambda>l. l = Release_Asked)"

definition audit_kept :: "lifecycle list \<Rightarrow> bool" where
  "audit_kept = opened_by (\<lambda>l. l = Audit_Started) (\<lambda>l. case l of Finish_Asked _ \<Rightarrow> True | _ \<Rightarrow> False)"

definition engine_kept :: "lifecycle list \<Rightarrow> bool" where
  "engine_kept = opened_by (\<lambda>l. l = Engine_Created) (\<lambda>l. case l of Engine_Close_Asked _ \<Rightarrow> True | _ \<Rightarrow> False)"

definition lease_unreleased :: "lifecycle list \<Rightarrow> bool" where
  "lease_unreleased = opened_by (\<lambda>l. l = Lease_Granted) (\<lambda>l. l = Release_Done True)"

definition audit_unfinished :: "lifecycle list \<Rightarrow> bool" where
  "audit_unfinished = opened_by (\<lambda>l. l = Audit_Started) (\<lambda>l. l = Finish_Done True)"

definition engine_unclosed :: "lifecycle list \<Rightarrow> bool" where
  "engine_unclosed = opened_by (\<lambda>l. l = Engine_Created) (\<lambda>l. l = Engine_Close_Done True)"

lemma opened_by_append [simp]:
  "opened_by opens closes [] = False"
  "opened_by opens closes (ls @ ks) = fold (\<lambda>l b. if opens l then True else if closes l then False else b) ks (opened_by opens closes ls)"
  by (simp_all add: opened_by_def)

lemmas log_defs = lease_kept_def audit_kept_def engine_kept_def lease_unreleased_def audit_unfinished_def engine_unclosed_def

definition lease_pcs :: "startup_pc \<Rightarrow> bool" where
  "lease_pcs pc = (case pc of Await_Audit_Start \<Rightarrow> True | Await_Failed_Finish _ \<Rightarrow> True | _ \<Rightarrow> False)"

text \<open>The awaits in which a startup has still to learn how a release or the end of the audit went.\<close>

definition release_pcs :: "startup_pc \<Rightarrow> bool" where
  "release_pcs pc \<longleftrightarrow> pc \<notin> {Not_Starting, Await_Lease, Await_Limit_Record}"

definition finish_pcs :: "startup_pc \<Rightarrow> bool" where
  "finish_pcs pc = (case pc of Await_Abort \<Rightarrow> True | Await_Failed_Finish _ \<Rightarrow> True | _ \<Rightarrow> False)"

definition socket_inv :: "ssh_socket \<Rightarrow> bool" where
  "socket_inv s \<longleftrightarrow> (lease_kept (so_log s) \<longleftrightarrow> so_live s \<or> lease_pcs (so_startup s)) \<and>
     (audit_kept (so_log s) \<longleftrightarrow> so_live s) \<and> (engine_kept (so_log s) \<longleftrightarrow> so_live s) \<and>
     (so_live s \<longrightarrow> \<not> so_auth s \<and> so_startup s = Not_Starting) \<and>
     (so_startup s \<in> {Await_Abort, Await_Gone_Release} \<longrightarrow> \<not> still_wanted s) \<and>
     (lease_unreleased (so_log s) \<longrightarrow> so_live s \<or> so_settling s \<or> release_pcs (so_startup s) \<or> Release_Done False \<in> set (so_log s)) \<and>
     (audit_unfinished (so_log s) \<longrightarrow> so_live s \<or> so_settling s \<or> finish_pcs (so_startup s) \<or> Finish_Done False \<in> set (so_log s)) \<and>
     (engine_unclosed (so_log s) \<longrightarrow> so_live s \<or> so_settling s \<or> Engine_Close_Done False \<in> set (so_log s))"

lemmas pcs_defs = lease_pcs_def release_pcs_def finish_pcs_def

lemma record_step_fields [simp]:
  "so_log (record_step ls s) = so_log s @ ls" "so_live (record_step ls s) = so_live s" "so_auth (record_step ls s) = so_auth s"
  "so_startup (record_step ls s) = so_startup s" "so_open (record_step ls s) = so_open s" "so_closing (record_step ls s) = so_closing s"
  "so_settling (record_step ls s) = so_settling s"
  by (simp_all add: record_step_def)

lemma finish_startup_fields [simp]:
  "so_log (finish_startup s) = so_log s" "so_live (finish_startup s) = so_live s" "so_auth (finish_startup s) = so_auth s"
  "so_startup (finish_startup s) = Not_Starting" "so_open (finish_startup s) = so_open s" "so_closing (finish_startup s) = so_closing s"
  "so_settling (finish_startup s) = so_settling s"
  by (simp_all add: finish_startup_def)

lemma cleanup_fields [simp]:
  "\<not> so_live (cleanup c s)" "\<not> so_auth (cleanup c s)" "so_startup (cleanup c s) = so_startup s"
  "so_open (cleanup c s) = so_open s" "so_closing (cleanup c s) = so_closing s"
  by (simp_all add: cleanup_def Let_def)

lemma closeSocket_fields [simp]:
  "\<not> so_live (closeSocket k r c s)" "\<not> so_auth (closeSocket k r c s)" "so_startup (closeSocket k r c s) = so_startup s"
  "so_open (closeSocket k r c s) = so_open s" "so_closing (closeSocket k r c s) \<noteq> []"
  "so_log (closeSocket k r c s) = so_log (cleanup c s)"
  by (simp_all add: closeSocket_def)

lemma tell_fields [simp]:
  "so_live (tell b k m s) = so_live s" "so_auth (tell b k m s) = so_auth s" "so_startup (tell b k m s) = so_startup s"
  "so_open (tell b k m s) = so_open s" "so_settling (tell b k m s) = so_settling s"
  by (simp_all add: tell_def)

lemma tell_log [simp]:
  "lease_kept (so_log (tell b k m s)) = lease_kept (so_log s)" "audit_kept (so_log (tell b k m s)) = audit_kept (so_log s)"
  "engine_kept (so_log (tell b k m s)) = engine_kept (so_log s)"
  "lease_unreleased (so_log (tell b k m s)) = lease_unreleased (so_log s)" "audit_unfinished (so_log (tell b k m s)) = audit_unfinished (so_log s)"
  "engine_unclosed (so_log (tell b k m s)) = engine_unclosed (so_log s)"
  "Release_Done False \<in> set (so_log (tell b k m s)) \<longleftrightarrow> Release_Done False \<in> set (so_log s)"
  "Finish_Done False \<in> set (so_log (tell b k m s)) \<longleftrightarrow> Finish_Done False \<in> set (so_log s)"
  "Engine_Close_Done False \<in> set (so_log (tell b k m s)) \<longleftrightarrow> Engine_Close_Done False \<in> set (so_log s)"
  by (simp_all add: tell_def log_defs)

lemma tell_inv: "socket_inv s \<Longrightarrow> socket_inv (tell b k m s)"
  by (simp add: socket_inv_def still_wanted_def)

lemma cleanup_inv: "socket_inv s \<Longrightarrow> socket_inv (cleanup c s)"
  by (auto simp: socket_inv_def cleanup_def Let_def still_wanted_def log_defs pcs_defs)

lemma socket_inv_fields:
  "so_log t = so_log s \<Longrightarrow> so_live t = so_live s \<Longrightarrow> so_auth t = so_auth s \<Longrightarrow> so_startup t = so_startup s \<Longrightarrow>
    so_settling t = so_settling s \<Longrightarrow> (so_open t \<longrightarrow> so_open s) \<Longrightarrow> socket_inv s \<Longrightarrow> socket_inv t"
  by (auto simp: socket_inv_def still_wanted_def)

lemma closeSocket_inv: "socket_inv s \<Longrightarrow> socket_inv (closeSocket k r c s)"
  unfolding closeSocket_def by (rule socket_inv_fields [of _ "cleanup c s"]) (simp_all add: cleanup_inv)

lemma message_failed_inv: "socket_inv s \<Longrightarrow> socket_inv (message_failed f s)"
  by (simp add: message_failed_def Let_def closeSocket_inv tell_inv split: prod.split)

lemma startup_throws_inv:
  assumes "socket_inv s" "\<not> lease_pcs (so_startup s)" "\<not> finish_pcs (so_startup s)"
    "release_pcs (so_startup s) \<longrightarrow> \<not> lease_unreleased (so_log s) \<or> Release_Done False \<in> set (so_log s)"
  shows "socket_inv (startup_throws msg s)"
proof -
  have "socket_inv (finish_startup s)"
    unfolding socket_inv_def finish_startup_fields still_wanted_def
    using assms by (simp add: socket_inv_def pcs_defs) blast
  then show ?thesis unfolding startup_throws_def by (rule message_failed_inv)
qed

lemma startup_answer_inv:
  assumes "startup_answer s t" "socket_inv s"
  shows "socket_inv t"
  using assms
proof (cases rule: startup_answer.cases)
  case (lease r)
  then have idle: "\<not> so_live s" using assms(2) by (auto simp: socket_inv_def)
  show ?thesis
  proof (cases r)
    case (Granted_Until e)
    then show ?thesis
      using lease assms(2) idle
      by (auto simp: lease_answered_def Let_def socket_inv_def still_wanted_def log_defs pcs_defs)
  next
    case Refused_Lease
    then show ?thesis
      using lease assms(2) idle by (auto simp: lease_answered_def socket_inv_def log_defs pcs_defs)
  next
    case (Call_Failed msg)
    then show ?thesis using lease startup_throws_inv [OF assms(2)] by (simp add: lease_answered_def pcs_defs)
  qed
next
  case limit
  then have "socket_inv (closeSocket SESSION_TERMINATED ''SSH session limit reached'' (default_closure ''SSH session limit reached'')
     (tell True ''RATE_LIMITED'' ''The active SSH session limit has been reached'' s))"
    using assms(2) by (intro closeSocket_inv tell_inv)
  then show ?thesis using limit by (auto simp: limit_recorded_def socket_inv_def pcs_defs)
next
  case (gone failed)
  then show ?thesis using assms(2)
    by (cases failed) (auto simp: gone_released_def socket_inv_def log_defs pcs_defs)
next
  case (audited failed)
  then show ?thesis using assms(2)
    by (cases failed; cases "still_wanted s")
       (auto simp: audit_answered_def Let_def socket_inv_def still_wanted_def log_defs pcs_defs)
next
  case (audit_lost msg)
  then show ?thesis using assms(2) by (auto simp: audit_failed_def socket_inv_def log_defs pcs_defs)
next
  case (aborted release finish)
  then show ?thesis using assms(2) by (auto simp: abort_settled_def socket_inv_def log_defs pcs_defs)
next
  case (finished msg finish)
  then show ?thesis using assms(2) by (auto simp: failed_finished_def socket_inv_def log_defs pcs_defs)
next
  case (released msg failed)
  have "socket_inv (record_step [Release_Done b] s)" for b
    using assms(2) released by (auto simp: socket_inv_def still_wanted_def log_defs pcs_defs)
  then show ?thesis using released assms(2)
    by (cases failed) (auto simp: failed_released_def pcs_defs log_defs intro!: startup_throws_inv)
qed

lemma cleanup_settled_inv: "socket_inv s \<Longrightarrow> socket_inv (cleanup_settled engine release finish s)"
  by (auto simp: cleanup_settled_def socket_inv_def still_wanted_def log_defs)

lemma dispatch_connect: "dispatch m s = Inr Begin_Connect \<Longrightarrow> so_auth s \<and> \<not> so_live s \<and> \<not> so_starting s"
  by (auto simp: dispatch_def split: if_splits client_body.splits)

lemma lease_lost_inv: "socket_inv s \<Longrightarrow> socket_inv (lease_lost told msg s)"
  by (simp add: lease_lost_def closeSocket_inv tell_inv)

lemma renewal_answered_inv:
  assumes "socket_inv s"
  shows "socket_inv (renewal_answered r now s)"
proof -
  have keep: "socket_inv (u\<lparr>so_renewing := False\<rparr>)" if "socket_inv u" for u
    by (rule socket_inv_fields [OF _ _ _ _ _ _ that]) simp_all
  have "socket_inv (s\<lparr>so_expires := e, so_lease_timer := b\<rparr>)" "socket_inv (s\<lparr>so_expires := e\<rparr>)" "socket_inv (s\<lparr>so_lease_timer := b\<rparr>)" for e b
    by (rule socket_inv_fields [OF _ _ _ _ _ _ assms]; simp)+
  then show ?thesis
    unfolding renewal_answered_def Let_def
    by (intro keep) (simp add: assms lease_lost_inv split: lease_reply.split)
qed

lemma session_step_inv:
  assumes "session_step s t" "socket_inv s"
  shows "socket_inv t"
  using assms
proof (cases rule: session_step.cases)
  case (connect_message m)
  then show ?thesis
    using assms(2) dispatch_connect [OF connect_message(3)] by (auto simp: connect_start_def socket_inv_def log_defs pcs_defs)
next
  case (connect_misconfigured m msg)
  have "socket_inv (s\<lparr>so_deadline := False\<rparr>)" by (rule socket_inv_fields [OF _ _ _ _ _ _ assms(2)]) simp_all
  then show ?thesis using startup_throws_inv connect_misconfigured by (simp add: pcs_defs)
next
  case (startup_goes_on)
  then show ?thesis using startup_answer_inv assms(2) by blast
next
  case (engine_settles r)
  have "socket_inv (s\<lparr>so_phase := ''connected''\<rparr>)" by (rule socket_inv_fields [OF _ _ _ _ _ _ assms(2)]) simp_all
  then show ?thesis using engine_settles assms(2) by (simp add: connect_settled_def split: sum.split)
next
  case (socket_closed code wasClean)
  have "socket_inv (s\<lparr>so_open := False\<rparr>)" by (rule socket_inv_fields [OF _ _ _ _ _ _ assms(2)]) simp_all
  then show ?thesis using socket_closed by (simp add: webSocketClose_def Let_def cleanup_inv)
next
  case socket_failed
  have "socket_inv (s\<lparr>so_open := False\<rparr>)" by (rule socket_inv_fields [OF _ _ _ _ _ _ assms(2)]) simp_all
  then show ?thesis using socket_failed by (simp add: webSocketError_def cleanup_inv)
next
  case socket_gone
  then show ?thesis using socket_inv_fields [OF _ _ _ _ _ _ assms(2)] by simp
next
  case (close_done code reason rest)
  then show ?thesis using assms(2) by (auto simp: socket_inv_def still_wanted_def log_defs)
next
  case (cleanup_done engine release finish)
  then show ?thesis using cleanup_settled_inv assms(2) by blast
next
  case deadline_passed
  have "socket_inv (s\<lparr>so_deadline := False\<rparr>)" by (rule socket_inv_fields [OF _ _ _ _ _ _ assms(2)]) simp_all
  then show ?thesis using deadline_passed by (simp add: closeSocket_inv)
next
  case renewal_timer
  then show ?thesis using assms(2) by (auto simp: renewal_due_def Let_def socket_inv_def still_wanted_def log_defs)
next
  case (renewal_reply r now)
  then show ?thesis using renewal_answered_inv assms(2) by blast
qed (simp_all add: message_failed_inv closeSocket_inv)

lemma session_reach_inv: "session_reach s \<Longrightarrow> socket_inv s"
proof -
  have "session_step\<^sup>*\<^sup>* (socket_accepted a) t \<Longrightarrow> socket_inv t" for a t
  proof (induction rule: rtranclp_induct)
    case base
    show ?case by (simp add: socket_accepted_def socket_inv_def log_defs pcs_defs)
  next
    case (step t u)
    then show ?case using session_step_inv by blast
  qed
  then show "session_reach s \<Longrightarrow> socket_inv s" by blast
qed

text \<open>
  C9: In every state of a socket, whatever failed or interrupted it: a lease the registry granted is not yet asked back only
  while the session is live or its startup still works on it; the end of a started audit is not yet asked for
  exactly while the session is live, and so is the close of an engine. Once no session is live, no startup is under way and
  no cleanup is waited for, a lease that is still held, an audit that is still open and an engine that is still not closed
  are ones whose release, end or close was asked for and failed. And a live session has asked for none of the three,
  and holds no authorization to start another.
\<close>

theorem session_resources_released:
  assumes "session_reach s"
  shows "(lease_kept (so_log s) \<longleftrightarrow> so_live s \<or> so_startup s = Await_Audit_Start \<or> (\<exists>msg. so_startup s = Await_Failed_Finish msg)) \<and>
    (audit_kept (so_log s) \<longleftrightarrow> so_live s) \<and> (engine_kept (so_log s) \<longleftrightarrow> so_live s) \<and>
    (so_live s \<or> so_startup s \<noteq> Not_Starting \<or> so_settling s \<or>
      (\<not> lease_unreleased (so_log s) \<or> Release_Done False \<in> set (so_log s)) \<and>
      (\<not> audit_unfinished (so_log s) \<or> Finish_Done False \<in> set (so_log s)) \<and>
      (\<not> engine_unclosed (so_log s) \<or> Engine_Close_Done False \<in> set (so_log s))) \<and>
    (so_live s \<longrightarrow> \<not> so_auth s \<and> so_startup s = Not_Starting)"
  using session_reach_inv [OF assms] by (auto simp: socket_inv_def pcs_defs split: startup_pc.splits)

definition demo_connect :: client_message where
  "demo_connect = \<lparr>cm_requestId = ''r'', cm_attemptId = ''a'', cm_body = Connect \<lparr>ts_columns = 80, ts_rows = 24, ts_type = ''xterm'', ts_encoding = ''utf-8''\<rparr>\<rparr>"

text \<open>The browser goes away while the registry is asked: the lease is granted and given back.\<close>

lemma session_resources_released_witness:
  "\<exists>s. session_reach s \<and> Lease_Granted \<in> set (so_log s) \<and> \<not> lease_kept (so_log s) \<and> \<not> audit_kept (so_log s)"
proof -
  let ?s0 = "socket_accepted ''a''"
  let ?s1 = "connect_start ?s0"
  let ?s2 = "webSocketClose 1001 True ?s1"
  let ?s3 = "lease_answered (Granted_Until 5) ?s2"
  have "session_step ?s0 ?s1"
    by (rule session_step.connect_message [where m = demo_connect]) (simp_all add: socket_accepted_def dispatch_def demo_connect_def)
  moreover have "session_step ?s1 ?s2" by (rule session_step.socket_closed)
  moreover have "session_step ?s2 ?s3"
    by (intro session_step.startup_goes_on startup_answer.lease) (simp add: connect_start_def webSocketClose_def Let_def cleanup_def record_step_def)
  ultimately have "session_step\<^sup>*\<^sup>* ?s0 ?s3" by (meson converse_rtranclp_into_rtranclp rtranclp.rtrancl_refl)
  moreover have s3: "so_attemptId ?s3 = ''a''" "Lease_Granted \<in> set (so_log ?s3)" "\<not> so_live ?s3" "so_startup ?s3 = Await_Gone_Release"
    by (simp_all add: lease_answered_def Let_def connect_start_def webSocketClose_def cleanup_def record_step_def still_wanted_def socket_accepted_def)
  ultimately have "session_reach ?s3" by simp
  from session_resources_released [OF this] show ?thesis
    using \<open>session_reach ?s3\<close> s3 by (intro exI [of _ ?s3]) simp
qed

section \<open>Startups end\<close>

definition startup_rank :: "startup_pc \<Rightarrow> nat" where
  "startup_rank pc = (case pc of Not_Starting \<Rightarrow> 0 | Await_Lease \<Rightarrow> 4 | Await_Limit_Record \<Rightarrow> 1 | Await_Gone_Release \<Rightarrow> 2
     | Await_Audit_Start \<Rightarrow> 3 | Await_Abort \<Rightarrow> 1 | Await_Failed_Finish _ \<Rightarrow> 2 | Await_Failed_Release _ \<Rightarrow> 1)"

lemma message_failed_startup [simp]: "so_startup (message_failed f s) = so_startup s"
  by (simp add: message_failed_def Let_def split: prod.split)

lemma startup_answer_rank: "startup_answer s t \<Longrightarrow> startup_rank (so_startup t) < startup_rank (so_startup s)"
  by (cases rule: startup_answer.cases, assumption)
     (auto simp: startup_rank_def lease_answered_def limit_recorded_def gone_released_def abort_settled_def failed_finished_def audit_answered_def audit_failed_def
       failed_released_def startup_throws_def Let_def split: lease_reply.splits option.splits)

lemma startup_answer_exists: "so_startup s \<noteq> Not_Starting \<Longrightarrow> \<exists>t. startup_answer s t"
  using startup_answer.intros by (cases "so_startup s") blast+

lemma startup_unmoved [simp]:
  "so_startup (webSocketClose code wasClean s) = so_startup s" "so_startup (webSocketError s) = so_startup s"
  "so_startup (cleanup_settled engine release finish s) = so_startup s" "so_startup (renewal_due s) = so_startup s"
  "so_startup (connect_settled r s) = so_startup s"
  by (simp_all add: webSocketClose_def webSocketError_def cleanup_settled_def renewal_due_def connect_settled_def Let_def split: sum.split)

lemma renewal_unmoved [simp]: "so_startup (renewal_answered reply now s) = so_startup s"
  by (simp add: renewal_answered_def lease_lost_def Let_def split: lease_reply.split)

lemma other_steps_wait:
  assumes "session_step s t" "so_startup s \<noteq> Not_Starting"
  shows "so_startup t = so_startup s \<or> startup_answer s t"
  using assms
  by (cases rule: session_step.cases) simp_all

lemma plain_failure_closes: "\<not> so_live s \<Longrightarrow> so_closing (message_failed (Plain_Error msg) s) \<noteq> [] \<and> \<not> so_auth (message_failed (Plain_Error msg) s)"
  by (simp add: message_failed_def Let_def)

lemma startup_over:
  assumes "startup_answer s t" "socket_inv s" "so_startup t = Not_Starting"
  shows "so_live t \<or> so_closing t \<noteq> [] \<or> \<not> still_wanted t"
proof -
  have "so_startup s \<noteq> Not_Starting" using assms(1) by (cases rule: startup_answer.cases) simp_all
  then have idle: "\<not> so_live s" "so_startup s \<in> {Await_Abort, Await_Gone_Release} \<longrightarrow> \<not> so_open s \<or> \<not> so_auth s"
    using assms(2) unfolding socket_inv_def still_wanted_def by blast+
  show ?thesis
    using assms(1,3)
    by (cases rule: startup_answer.cases)
       (use idle in \<open>auto simp: lease_answered_def limit_recorded_def gone_released_def abort_settled_def failed_finished_def audit_answered_def audit_failed_def
          failed_released_def startup_throws_def Let_def plain_failure_closes still_wanted_def
          split: lease_reply.splits option.splits\<close>)
qed

text \<open>
  C28: A startup always ends: while it waits, an answer is due, nothing but the answer moves it, and after at most four
  answers it is over. Then the session is live, or the socket is being closed, or the browser had gone away before.
\<close>

theorem startup_always_ends:
  assumes "session_reach s" "so_startup s \<noteq> Not_Starting"
  shows "(\<exists>t. startup_answer s t) \<and> (\<forall>t. session_step s t \<longrightarrow> so_startup t = so_startup s \<or> startup_answer s t) \<and>
    (\<forall>n t. (startup_answer ^^ n) s t \<longrightarrow> n \<le> 4) \<and>
    (\<forall>t. startup_answer s t \<and> so_startup t = Not_Starting \<longrightarrow> so_live t \<or> so_closing t \<noteq> [] \<or> \<not> still_wanted t)"
proof -
  have "(startup_answer ^^ n) u t \<Longrightarrow> n + startup_rank (so_startup t) \<le> startup_rank (so_startup u)" for n u t
  proof (induction n arbitrary: t)
    case (Suc n)
    then obtain w where w: "(startup_answer ^^ n) u w" "startup_answer w t" by auto
    then show ?case using Suc.IH [OF w(1)] startup_answer_rank [OF w(2)] by simp
  qed simp
  moreover have "startup_rank pc \<le> 4" for pc by (simp add: startup_rank_def split: startup_pc.split)
  ultimately have "(startup_answer ^^ n) s t \<Longrightarrow> n \<le> 4" for n t by (meson add_leE le_trans)
  then show ?thesis
    using startup_answer_exists [OF assms(2)] other_steps_wait [OF _ assms(2)] startup_over [OF _ session_reach_inv [OF assms(1)]] by blast
qed

lemma startup_always_ends_witness: "\<exists>t. startup_answer (connect_start (socket_accepted ''a'')) t"
proof -
  have "session_step (socket_accepted ''a'') (connect_start (socket_accepted ''a''))"
    by (rule session_step.connect_message [where m = demo_connect]) (simp_all add: socket_accepted_def dispatch_def demo_connect_def)
  moreover have "so_attemptId (connect_start (socket_accepted ''a'')) = ''a''" "so_startup (connect_start (socket_accepted ''a'')) = Await_Lease"
    by (simp_all add: connect_start_def record_step_def socket_accepted_def)
  ultimately show ?thesis using startup_always_ends [of "connect_start (socket_accepted ''a'')"] by auto
qed

section \<open>A connection that is refused before it starts\<close>

definition terminal_of :: "terminal_size \<Rightarrow> terminal_options" where
  "terminal_of ts = \<lparr>to_cols = of_int (ts_columns ts), to_rows = of_int (ts_rows ts), to_term = ts_type ts\<rparr>"

text \<open>
  C37: The contract accepts terminals of 2 columns or 1 row, the engine starts from 10 columns and 5 rows only: for such a
  connect message the engine throws before it reports anything, the session drops the exception, and so the socket stays
  live, with its lease and its audit open and nothing told to the browser.
\<close>

theorem small_terminal_left_waiting:
  assumes "TerminalObjectSchema v = Some ts" "ts_columns ts < 10 \<or> ts_rows ts < 5" "session_reach s" "so_live s"
  shows "\<exists>msg. connect_begin timeout p (terminal_of ts) engine_new = Inl msg \<and> session_step s (connect_settled (Inl msg) s) \<and>
    (let s' = connect_settled (Inl msg) s in so_live s' \<and> so_log s' = so_log s \<and> lease_kept (so_log s') \<and> audit_kept (so_log s'))"
proof -
  have "\<exists>msg. connect_begin timeout p (terminal_of ts) engine_new = Inl msg"
    using assms(2) by (cases "validateProfile p") (auto simp: connect_begin_def engine_new_def normalizeTerminal_def terminal_of_def)
  moreover have "lease_kept (so_log s)" "audit_kept (so_log s)" using session_reach_inv [OF assms(3)] assms(4) by (auto simp: socket_inv_def)
  moreover have "session_step s (connect_settled (Inl msg) s)" for msg by (rule session_step.engine_settles)
  ultimately show ?thesis using assms(4) by (auto simp: connect_settled_def)
qed

definition demo_live_socket :: ssh_socket where
  "demo_live_socket = audit_answered None (lease_answered (Granted_Until 5) (connect_start (socket_accepted ''a'')))"

lemma demo_live_reach: "session_reach demo_live_socket" "so_live demo_live_socket"
proof -
  let ?s0 = "socket_accepted ''a''"
  let ?s1 = "connect_start ?s0"
  let ?s2 = "lease_answered (Granted_Until 5) ?s1"
  have "session_step ?s0 ?s1"
    by (rule session_step.connect_message [where m = demo_connect]) (simp_all add: socket_accepted_def dispatch_def demo_connect_def)
  moreover have "session_step ?s1 ?s2"
    by (intro session_step.startup_goes_on startup_answer.lease) (simp add: connect_start_def record_step_def)
  moreover have "session_step ?s2 demo_live_socket" unfolding demo_live_socket_def
    by (intro session_step.startup_goes_on startup_answer.audited)
      (simp add: lease_answered_def connect_start_def record_step_def still_wanted_def socket_accepted_def)
  ultimately have "session_step\<^sup>*\<^sup>* ?s0 demo_live_socket" by (meson converse_rtranclp_into_rtranclp rtranclp.rtrancl_refl)
  moreover have "so_attemptId demo_live_socket = ''a''" "so_live demo_live_socket"
    by (simp_all add: demo_live_socket_def audit_answered_def lease_answered_def connect_start_def record_step_def still_wanted_def
        socket_accepted_def finish_startup_def)
  ultimately show "session_reach demo_live_socket" "so_live demo_live_socket" by simp_all
qed

lemma small_terminal_left_waiting_witness:
  "\<exists>msg. connect_begin None demo_profile (terminal_of \<lparr>ts_columns = 2, ts_rows = 24, ts_type = ''xterm'', ts_encoding = ''utf-8''\<rparr>) engine_new = Inl msg"
proof -
  let ?ts = "\<lparr>ts_columns = 2, ts_rows = 24, ts_type = ''xterm'', ts_encoding = ''utf-8''\<rparr>"
  have "terminal_ok ?ts" by (simp add: terminal_ok_def)
  then have "TerminalObjectSchema (Some (terminal_json ?ts)) = Some ?ts" by (rule TerminalObjectSchema_json)
  from small_terminal_left_waiting [OF this _ demo_live_reach] show ?thesis by auto
qed

end
