(* ===== verification/Session_Commands.thy ===== *)
theory Session_Commands
  imports Ssh_Session
begin

text \<open>
  What a live session does with single messages (\<open>handleClientMessage\<close> and \<open>handleBinaryFrame\<close> of
  \<open>durable/ssh-session.ts\<close>), the timing of the server metrics, and the recovery of a socket after a restart of the
  object. Listing a directory is in \<open>Directory_Listing\<close>, the transfers are in \<open>File_Transfer\<close>.
\<close>

section \<open>Decisions on host keys\<close>

definition decision_of :: "string \<Rightarrow> string \<Rightarrow> host_key_decision" where
  "decision_of fingerprint decision =
     \<lparr>hd_fingerprint = fingerprint, hd_accept = (decision \<noteq> ''reject''), hd_remember = (decision = ''trust_and_save'')\<rparr>"

text \<open>The decision goes to the engine; if the engine takes it, the audit records it.\<close>

definition decide_command :: "session_context \<Rightarrow> string \<Rightarrow> string \<Rightarrow> engine \<Rightarrow> (engine \<times> audit_method list) throws" where
  "decide_command c fingerprint decision e =
     try_bind (decideHostKey (decision_of fingerprint decision) e) (\<lambda>e.
     Inr (e, if decision = ''reject''
       then [M_State ''error'' ''host_key_rejected'' ''SSH host key was rejected by the user'',
             M_Security ''ssh_host_key_rejected'' (''SSH host key rejected for profile '' @ cp_profileName (sc_profile c))]
       else [M_State ''ssh_handshake'' ''host_key_accepted'' ''SSH host key was accepted by the user'']))"

definition audited :: "session_effect list \<Rightarrow> audit_method list" where
  "audited es = List.map_filter (\<lambda>e. case e of Audited m \<Rightarrow> Some m | _ \<Rightarrow> None) es"

text \<open>
  The verification goes on, in its own microtask, before the handler of the message does. So the audit calls of a
  decision are those of the engine's event first and those of the handler after them.
\<close>

definition decision_audit :: "js_platform \<Rightarrow> session_clock \<Rightarrow> live_session \<Rightarrow> string \<Rightarrow> string \<Rightarrow> engine \<Rightarrow> audit_method list throws" where
  "decision_audit p ck live fingerprint decision e =
     try_bind (decide_command (lv_context live) fingerprint decision e) (\<lambda>r.
     Inr (concat (map (\<lambda>ev. audited (prod.fst (prod.fst (handleEngineEvent p ck ev live))))
            (prod.fst (verify_decided (Inr (decision_of fingerprint decision))))) @ snd r))"

text \<open>A rejection is written twice as a security event, and its state and event twice to the session.\<close>

lemma rejection_recorded_twice:
  assumes "decision_audit p ck live fp ''reject'' e = Inr ms"
  shows "length (filter (\<lambda>m. case m of M_Security code _ \<Rightarrow> code = ''ssh_host_key_rejected'' | _ \<Rightarrow> False) ms) = 2 \<and>
    length (filter (\<lambda>m. case m of M_State st event _ \<Rightarrow> st = ''error'' \<and> event = ''host_key_rejected'' | _ \<Rightarrow> False) ms) = 2"
proof -
  let ?c = "lv_context live"
  have "classifyEngineFailure ''HOST_KEY_REJECTED'' ''SSH host key was rejected'' =
      \<lparr>sl_finalState = ''error'', sl_closeReason = ''host_key_rejected'', sl_message = ''SSH host key validation failed''\<rparr>"
    by code_simp
  moreover have "audited (prod.fst (and_then (act es) r)) = audited es @ audited (prod.fst r)" for es r
    by (simp add: audited_def List.map_filter_def)
  moreover have "audited (prod.fst (and_then (sendError p ?c code msg fatal rid) (act [Closing k r cl]))) = []" for code msg fatal rid k r cl
    by (simp add: audited_def List.map_filter_def and_then_def sendError_def sendServer_def act_def Let_def)
  ultimately have "audited (prod.fst (handle_error p live ''HOST_KEY_REJECTED'' ''SSH host key was rejected'')) =
      [M_State ''error'' ''host_key_rejected'' ''SSH host key validation failed'',
       M_Security ''ssh_host_key_rejected'' (''SSH host key validation failed for profile '' @ cp_profileName (sc_profile ?c))]"
    by (simp add: handle_error_def failure_event_code_def Let_def audited_def List.map_filter_def)
  then show ?thesis
    using assms
    by (auto simp: decision_audit_def decide_command_def try_bind_eq_Inr verify_decided_def decision_of_def handleEngineEvent_def)
qed

text \<open>Trusting a key once sets the recorded state back from authenticating to the handshake.\<close>

lemma trust_once_sets_state_back:
  assumes "decision_audit p ck live fp ''trust_once'' e = Inr ms" "context_ok p (lv_context live)"
    "opt_ok (z_uuid (zod.truncate p)) (lv_requestId live)" "z_datetime (zod.truncate p) (sk_iso ck)"
  shows "map (\<lambda>m. case m of M_State st _ _ \<Rightarrow> st | _ \<Rightarrow> []) ms = [''authenticating'', ''ssh_handshake'']"
proof -
  let ?b = "Sv_Status ''authenticating'' ''Authenticating with the SSH server'' (sk_iso ck) None None"
  have map: "mapEngineState ''authenticating'' = ''authenticating''" by code_simp
  let ?m = "\<lparr>sm_requestId = lv_requestId live, sm_sessionId = sc_sessionId (lv_context live), sm_attemptId = sc_attemptId (lv_context live), sm_body = ?b\<rparr>"
  have "ServerWebSocketMessageSchema p ?m"
    using assms(2-4) by (intro small_message_valid)
      (simp_all add: context_ok_def server_ok_def ServerStatusMessageSchema_def SessionStateSchema_def len_ok_def)
  then have "sendStatus p ck (lv_context live) ''authenticating'' ''Authenticating with the SSH server'' (lv_requestId live) None = act [Sent ?m]"
    by (simp add: sendStatus_def sendServer_def or_default_def Let_def)
  moreover have "status_audit ck ''authenticating'' = [Audited (M_State ''authenticating'' ''authentication_started'' ''SSH authentication started'')]"
    by code_simp
  ultimately show ?thesis
    using assms(1)
    by (auto simp: decision_audit_def decide_command_def try_bind_eq_Inr verify_decided_def decision_of_def handleEngineEvent_def map
        audited_def List.map_filter_def act_def and_then_def)
qed

section \<open>Files\<close>

record file_metadata =
  md_size :: int
  md_mode :: int
  md_modifiedAt :: string

text \<open>\<open>engine.stat\<close> from what the SFTP server says: the permission bits, and the date its seconds print as.\<close>

definition engine_stat :: "(millis \<Rightarrow> string) \<Rightarrow> (int \<times> int \<times> int) throws \<Rightarrow> file_metadata throws" where
  "engine_stat print_date r = (case r of Inl e \<Rightarrow> Inl e
     | Inr (bytes, mode, mtime) \<Rightarrow> Inr \<lparr>md_size = bytes, md_mode = mode mod 4096, md_modifiedAt = print_date (mtime * 1000)\<rparr>)"

definition assertWriteVersion :: "file_metadata throws \<Rightarrow> int \<Rightarrow> string \<Rightarrow> failure + unit" where
  "assertWriteVersion r expectedSize expectedModifiedAt =
     (case r of
        Inl e \<Rightarrow> Inl (Plain_Error e)
      | Inr m \<Rightarrow> if md_size m \<noteq> expectedSize \<or> md_modifiedAt m \<noteq> expectedModifiedAt
          then Inl (Protocol_Error ''SFTP_CONFLICT'' ''Remote file changed after it was opened'' False MESSAGE_INVALID)
          else Inr ())"

text \<open>The checks and the first message of \<open>sftp-read\<close>; the download follows.\<close>

definition sftp_read :: "string \<Rightarrow> int \<Rightarrow> file_metadata throws \<Rightarrow> failure + server_body" where
  "sftp_read path maxBytes r =
     (case r of
        Inl e \<Rightarrow> Inl (Plain_Error e)
      | Inr m \<Rightarrow> if md_size m > maxBytes
          then Inl (Protocol_Error ''SFTP_FILE_TOO_LARGE'' (''Remote file exceeds the '' @ show_nat (nat maxBytes) @ '' byte text limit'') False MESSAGE_INVALID)
          else Inr (Sv_Read path (md_size m) (md_mode m) (md_modifiedAt m)))"

text \<open>The commands that change the remote tree, with the answer of the SFTP server, and their reply.\<close>

definition sendFileMutation :: "client_body \<Rightarrow> unit throws \<Rightarrow> failure + server_body" where
  "sendFileMutation b r =
     (case r of
        Inl e \<Rightarrow> Inl (Plain_Error e)
      | Inr _ \<Rightarrow>
          (case b of
             Sftp_Mkdir path mode \<Rightarrow> Inr (Sv_Mutation ''mkdir'' path None)
           | Sftp_Rename source dest \<Rightarrow> Inr (Sv_Mutation ''rename'' source (Some dest))
           | Sftp_Delete path kind \<Rightarrow> Inr (Sv_Mutation ''delete'' path None)
           | Sftp_Chmod path mode \<Rightarrow> Inr (Sv_Mutation ''chmod'' path None)
           | _ \<Rightarrow> Inl (Protocol_Error ''SFTP_NOT_AVAILABLE'' ''not implemented by the basic SFTP engine'' False MESSAGE_INVALID)))"

section \<open>Binary frames\<close>

datatype frame_action = Terminal_Input bytes | Transfer_Frame frame_header bytes

definition frame_dispatch :: "session_context option \<Rightarrow> (frame_header \<times> bytes) option \<Rightarrow> failure + frame_action" where
  "frame_dispatch live decoded =
     (case live of
        None \<Rightarrow> Inl (invalid ''SSH session is not ready'' True)
      | Some c \<Rightarrow>
          (case decoded of
             None \<Rightarrow> Inl (invalid ''Binary frame header is invalid'' True)
           | Some (h, payload) \<Rightarrow>
               if fh_sessionId h \<noteq> sc_sessionId c \<or> fh_attemptId h \<noteq> sc_attemptId c
               then Inl (invalid ''Binary frame identity mismatch'' True)
               else if fh_kind h = ''terminal-input'' then Inr (Terminal_Input payload)
               else Inr (Transfer_Frame h payload)))"

text \<open>Input of the terminal: the capture sees it before the engine, which may refuse it.\<close>

definition terminal_input :: "string \<Rightarrow> millis \<Rightarrow> bytes \<Rightarrow> capture \<times> engine \<Rightarrow> capture \<times> engine throws" where
  "terminal_input decoded now data s = (feed decoded now (prod.fst s), engine_input data (snd s))"

section \<open>The timing of the metrics\<close>

definition METRICS_INTERVAL_MS :: int where "METRICS_INTERVAL_MS = 8000"
definition BACKGROUND_METRICS_INTERVAL_MS :: int where "BACKGROUND_METRICS_INTERVAL_MS = 30000"

record metrics_state =
  ms_active :: bool
  ms_visible :: bool
  ms_monitoring :: bool
  ms_reduceWhenHidden :: bool
  ms_refreshIntervalMs :: int
  ms_timer :: "int option"
  ms_inFlight :: bool

definition metrics_new :: metrics_state where
  "metrics_new = \<lparr>ms_active = True, ms_visible = True, ms_monitoring = True, ms_reduceWhenHidden = True,
     ms_refreshIntervalMs = METRICS_INTERVAL_MS, ms_timer = None, ms_inFlight = False\<rparr>"

definition metricsInterval :: "metrics_state \<Rightarrow> int option" where
  "metricsInterval m =
     (if \<not> ms_monitoring m then None
      else if ms_active m \<and> (ms_visible m \<or> \<not> ms_reduceWhenHidden m) then Some (ms_refreshIntervalMs m)
      else Some (max BACKGROUND_METRICS_INTERVAL_MS (ms_refreshIntervalMs m * 4)))"

text \<open>\<open>current\<close>: the session is still that of its socket; \<open>ready\<close>: the state of its engine.\<close>

definition scheduleMetrics :: "bool \<Rightarrow> bool \<Rightarrow> int option \<Rightarrow> metrics_state \<Rightarrow> metrics_state" where
  "scheduleMetrics current ready delayOverride m =
     (let m = m\<lparr>ms_timer := None\<rparr> in
      case metricsInterval m of
        None \<Rightarrow> m
      | Some i \<Rightarrow> if \<not> current \<or> \<not> ready \<or> ms_inFlight m then m
          else m\<lparr>ms_timer := Some (case delayOverride of None \<Rightarrow> i | Some d \<Rightarrow> d)\<rparr>)"

definition activity_command :: "bool \<Rightarrow> bool \<Rightarrow> bool \<Rightarrow> bool \<Rightarrow> int \<Rightarrow> bool \<Rightarrow> bool \<Rightarrow> metrics_state \<Rightarrow> metrics_state" where
  "activity_command active visible monitoring reduce seconds current ready m =
     scheduleMetrics current ready (Some 0) (m\<lparr>ms_active := active, ms_visible := visible, ms_monitoring := monitoring,
       ms_reduceWhenHidden := reduce, ms_refreshIntervalMs := seconds * 1000\<rparr>)"

definition collectMetrics :: "bool \<Rightarrow> bool \<Rightarrow> metrics_state \<Rightarrow> metrics_state" where
  "collectMetrics current ready m =
     (let m = m\<lparr>ms_timer := None\<rparr> in if \<not> current \<or> \<not> ready \<or> ms_inFlight m then m else m\<lparr>ms_inFlight := True\<rparr>)"

definition metrics_collected :: "bool \<Rightarrow> bool \<Rightarrow> metrics_state \<Rightarrow> metrics_state" where
  "metrics_collected current ready m =
     (let m = m\<lparr>ms_inFlight := False\<rparr> in if current then scheduleMetrics current ready None m else m)"

text \<open>While the session is monitored and its engine ready, a sample is due or under way after each of these.\<close>

lemma metrics_never_stop:
  "monitoring \<Longrightarrow> ms_timer (activity_command a v monitoring r s True True m) \<noteq> None \<or> ms_inFlight (activity_command a v monitoring r s True True m)"
  "ms_inFlight (collectMetrics True True m)"
  "ms_monitoring m \<Longrightarrow> ms_timer (metrics_collected True True m) \<noteq> None"
  by (auto simp: activity_command_def scheduleMetrics_def metricsInterval_def collectMetrics_def metrics_collected_def Let_def)

lemma metrics_background:
  "metricsInterval m = Some i \<Longrightarrow> ms_reduceWhenHidden m \<Longrightarrow> \<not> (ms_active m \<and> ms_visible m) \<Longrightarrow> 30000 \<le> i"
  by (auto simp: metricsInterval_def BACKGROUND_METRICS_INTERVAL_MS_def split: if_splits)

section \<open>After a restart of the object\<close>

record socket_attachment =
  at_phase :: string
  at_sessionId :: string
  at_ownerId :: "string option"

datatype recovery =
    Append_Event string string string string
  | Finish_Row string string string string
  | Release_Lease string string
  | Close_Socket int string

text \<open>
  What \<open>recoverRestartedSocket\<close> attempts, whatever fails on the way: \<open>row\<close> is the owner of the unfinished row of the
  session, \<open>None\<close> if there is none and an error if the database cannot be asked.
\<close>

definition recoverRestartedSocket :: "socket_attachment option \<Rightarrow> string option throws \<Rightarrow> recovery list" where
  "recoverRestartedSocket attachment row =
     (case attachment of
        None \<Rightarrow> []
      | Some a \<Rightarrow>
          if at_phase a = ''waiting'' \<or> at_sessionId a = [] then []
          else case row of
            Inl e \<Rightarrow> []
          | Inr found \<Rightarrow>
              (case found of None \<Rightarrow> []
               | Some owner \<Rightarrow>
                   [Append_Event owner (at_sessionId a) ''error'' ''Worker restarted while the SSH session was active'',
                    Finish_Row owner (at_sessionId a) ''error'' ''worker_restart'']) @
              (case (case found of Some owner \<Rightarrow> Some owner | None \<Rightarrow> at_ownerId a) of
                 None \<Rightarrow> [] | Some owner \<Rightarrow> if owner = [] then [] else [Release_Lease owner (at_sessionId a)])) @
     [Close_Socket 1012 ''Worker restarted; reconnect required'']"

text \<open>A restart of a live session finishes its row and releases its lease.\<close>

lemma restart_recovers:
  assumes "at_phase a \<noteq> ''waiting''" "at_sessionId a \<noteq> []" "owner \<noteq> []"
  shows "{Finish_Row owner (at_sessionId a) ''error'' ''worker_restart'', Release_Lease owner (at_sessionId a)}
    \<subseteq> set (recoverRestartedSocket (Some a) (Inr (Some owner)))"
  using assms by (simp add: recoverRestartedSocket_def)

text \<open>
  The attachment says \<open>waiting\<close> until the engine exists. So a restart while the audit is being started finds nothing to
  recover, although the lease is held and the row of the session may be written: the row is never finished.
\<close>

definition phase_inv :: "ssh_socket \<Rightarrow> bool" where
  "phase_inv s \<longleftrightarrow> so_phase s = ''waiting'' \<or> (\<not> so_auth s \<and> so_startup s = Not_Starting)"

lemma end_keeps_phase [simp]:
  "so_phase (cleanup c s) = so_phase s" "so_phase (closeSocket k r c s) = so_phase s" "so_phase (tell b k2 m s) = so_phase s"
  "so_phase (record_step ls s) = so_phase s" "so_phase (finish_startup s) = so_phase s"
  "so_phase (message_failed f s) = so_phase s" "so_phase (startup_throws msg s) = so_phase s"
  by (simp_all add: cleanup_def closeSocket_def tell_def record_step_def finish_startup_def message_failed_def startup_throws_def Let_def
      split: prod.split)

lemma end_keeps_auth: "so_auth (message_failed f s) \<Longrightarrow> so_auth s"
  by (auto simp: message_failed_def Let_def split: prod.splits if_splits)

lemma startup_answer_phase:
  assumes "startup_answer s t" "phase_inv s"
  shows "phase_inv t"
proof -
  have w: "so_phase s = ''waiting''" using assms by (auto simp: phase_inv_def elim: startup_answer.cases)
  from assms(1) show ?thesis
  proof (cases rule: startup_answer.cases)
    case (audited failed)
    then show ?thesis using w
      by (auto simp: audit_answered_def Let_def phase_inv_def split: option.splits)
  qed (use w in \<open>auto simp: lease_answered_def limit_recorded_def gone_released_def abort_settled_def failed_finished_def audit_failed_def failed_released_def Let_def phase_inv_def
        split: lease_reply.splits option.splits\<close>)
qed

lemma session_step_phase:
  assumes "session_step s t" "socket_inv s" "phase_inv s"
  shows "phase_inv t"
  using assms(1)
proof (cases rule: session_step.cases)
  case (connect_message m)
  then show ?thesis using assms(3) dispatch_connect [OF connect_message(3)] by (simp add: phase_inv_def connect_start_def)
next
  case startup_goes_on
  then show ?thesis using startup_answer_phase assms(3) by blast
next
  case (engine_settles r)
  then show ?thesis using assms(2,3) by (auto simp: connect_settled_def socket_inv_def phase_inv_def split: sum.splits)
next
  case (refused_message m f)
  then show ?thesis using assms(3) end_keeps_auth [of f s] by (auto simp: phase_inv_def)
next
  case (command_fails f)
  then show ?thesis using assms(3) end_keeps_auth [of f s] by (auto simp: phase_inv_def)
next
  case (connect_misconfigured m msg)
  then have "so_phase s = ''waiting''" using assms(3) dispatch_connect [OF connect_misconfigured(3)] by (simp add: phase_inv_def)
  then show ?thesis using connect_misconfigured(1) by (simp add: phase_inv_def)
next
  case (renewal_reply r now)
  then show ?thesis using assms(3)
    by (cases r) (auto simp: phase_inv_def renewal_answered_def lease_lost_def Let_def)
qed (use assms(3) in \<open>auto simp: phase_inv_def webSocketClose_def webSocketError_def cleanup_settled_def renewal_due_def Let_def\<close>)

lemma session_reach_phase: "session_reach s \<Longrightarrow> phase_inv s"
proof -
  have "session_step\<^sup>*\<^sup>* (socket_accepted a) t \<Longrightarrow> socket_inv t \<and> phase_inv t" for a t
  proof (induction rule: rtranclp_induct)
    case base
    show ?case by (simp add: socket_accepted_def socket_inv_def log_defs pcs_defs phase_inv_def)
  next
    case (step t u)
    then show ?case using session_step_inv session_step_phase by blast
  qed
  then show "session_reach s \<Longrightarrow> phase_inv s" by blast
qed

lemma restart_misses_startup:
  assumes "session_reach s" "so_startup s = Await_Audit_Start" "at_phase a = so_phase s"
  shows "lease_kept (so_log s) \<and> recoverRestartedSocket (Some a) row = [Close_Socket 1012 ''Worker restarted; reconnect required'']"
  using session_reach_phase [OF assms(1)] session_reach_inv [OF assms(1)] assms(2,3)
  by (simp add: phase_inv_def socket_inv_def pcs_defs recoverRestartedSocket_def)

end
