(* ===== verification/Session_Leases.thy ===== *)
theory Session_Leases
  imports Ssh_Session Lease_Registry
begin

text \<open>
  The calls of the session object to the lease registry of the owner (\<open>updateSessionLease\<close> and \<open>releaseSessionLease\<close> of
  \<open>durable/ssh-session.ts\<close>), put together with the registry itself: the requests, the reading of the responses, and
  what a session gets from a registry that answers.
\<close>

definition lease_request :: "string \<Rightarrow> string \<Rightarrow> string \<Rightarrow> int option \<Rightarrow> do_request" where
  "lease_request operation secret sessionId maximum =
     \<lparr>rq_method = ''POST'', rq_path = CHR ''/'' # operation,
      rq_headers = [(''content-type'', ''application/json''), (''x-internal-auth'', secret)],
      rq_json = Some (JObj ((''sessionId'', JStr sessionId) # opt_field ''maximum'' (map_option jint maximum)))\<rparr>"

text \<open>The reading of a response; \<open>expiresAt\<close> is taken as a whole number, as the registry writes it.\<close>

definition lease_reply_of :: "string \<Rightarrow> do_response \<Rightarrow> lease_reply" where
  "lease_reply_of operation r =
     (if rs_status r = 409 then Refused_Lease
      else if \<not> (200 \<le> rs_status r \<and> rs_status r \<le> 299)
      then Call_Failed (''SSH session registry '' @ operation @ '' failed with status '' @ show_nat (rs_status r))
      else case (js_get (rs_body r) ''acquired'', js_get (rs_body r) ''expiresAt'') of
             (Inr (Some (JBool True)), Inr e) \<Rightarrow>
               (case as_int e of Some n \<Rightarrow> Granted_Until n
                | None \<Rightarrow> Call_Failed (''SSH session registry '' @ operation @ '' returned an invalid lease''))
           | _ \<Rightarrow> Call_Failed (''SSH session registry '' @ operation @ '' returned an invalid lease''))"

definition updateSessionLease ::
  "string option \<Rightarrow> string \<Rightarrow> string \<Rightarrow> int option \<Rightarrow> millis \<Rightarrow> registry_do \<Rightarrow> registry_do \<times> lease_reply" where
  "updateSessionLease key operation sessionId maximum now d =
     (case key of
        None \<Rightarrow> (d, Call_Failed ''SESSION_HMAC_KEY is required for SSH session coordination'')
      | Some k \<Rightarrow>
          if trim k = [] then (d, Call_Failed ''SESSION_HMAC_KEY is required for SSH session coordination'')
          else case registry_fetch k now (lease_request operation (trim k) sessionId maximum) d of
                 (d', r) \<Rightarrow> (d', lease_reply_of operation r))"

definition do_releaseSessionLease :: "string option \<Rightarrow> string \<Rightarrow> millis \<Rightarrow> registry_do \<Rightarrow> registry_do \<times> unit throws" where
  "do_releaseSessionLease key sessionId now d =
     (case key of
        None \<Rightarrow> (d, Inr ())
      | Some k \<Rightarrow>
          if trim k = [] then (d, Inr ())
          else case registry_fetch k now (lease_request ''release'' (trim k) sessionId None) d of
                 (d', r) \<Rightarrow> (d', if 200 \<le> rs_status r \<and> rs_status r \<le> 299 then Inr ()
                   else Inl (''SSH session registry release failed with status '' @ show_nat (rs_status r))))"

section \<open>The two objects together\<close>

lemma lease_request_simps [simp]:
  "rq_method (lease_request operation secret sid m) = ''POST''" "rq_path (lease_request operation secret sid m) = CHR ''/'' # operation"
  "header_or_empty (lease_request operation secret sid m) ''x-internal-auth'' = secret"
  "rq_json (lease_request operation secret sid m) = Some (JObj ((''sessionId'', JStr sid) # opt_field ''maximum'' (map_option jint m)))"
  by (simp_all add: lease_request_def header_or_empty_def header_def)

lemma lease_body_parsed:
  "is_session_id sid \<Longrightarrow> 1 \<le> m \<Longrightarrow> m \<le> 20 \<Longrightarrow>
    parse_lease_body (Some (JObj ((''sessionId'', JStr sid) # opt_field ''maximum'' (Some (jint m))))) = Some (sid, m)"
  "is_session_id sid \<Longrightarrow> parse_lease_body (Some (JObj ((''sessionId'', JStr sid) # opt_field ''maximum'' None))) = Some (sid, 1)"
  by (simp_all add: parse_lease_body_def opt_field_def)

lemma reply_refused: "lease_reply_of operation (respond 409 b) = Refused_Lease"
  by (simp add: lease_reply_of_def)

lemma reply_granted:
  "q = of_int e \<Longrightarrow>
    lease_reply_of operation (respond 200 (JObj ((''acquired'', JBool True) # (''active'', n) # opt_field ''expiresAt'' (Some (JNum q))))) =
      Granted_Until e"
  by (simp add: lease_reply_of_def opt_field_def as_int_def)

lemmas lease_call_simps =
  updateSessionLease_def do_releaseSessionLease_def registry_fetch_def lease_body_parsed reply_refused reply_granted Let_def

text \<open>
  With a key that needs no trimming, the registry's answers are never misread and never fail: a session that asks
  for a lease gets one until the end of the time to live exactly if it already holds one or fewer than the maximum are
  held; a renewal succeeds exactly if the session still holds its lease; and a release always succeeds.
\<close>

theorem lease_calls_answered:
  assumes "trim k = k" "k \<noteq> []" "is_session_id sid" "1 \<le> m" "m \<le> 20"
  shows "snd (updateSessionLease (Some k) ''acquire'' sid (Some m) now d) =
      (if map_of (freshLeases (reg_stored d) now) sid \<noteq> None \<or> int (length (freshLeases (reg_stored d) now)) < m
       then Granted_Until (now + SSH_SESSION_LEASE_TTL_MS) else Refused_Lease) \<and>
    snd (updateSessionLease (Some k) ''renew'' sid None now d) =
      (if map_of (freshLeases (reg_stored d) now) sid \<noteq> None then Granted_Until (now + SSH_SESSION_LEASE_TTL_MS) else Refused_Lease) \<and>
    snd (do_releaseSessionLease (Some k) sid now d) = Inr ()"
proof -
  have "snd (updateSessionLease (Some k) ''acquire'' sid (Some m) now d) =
      (if map_of (freshLeases (reg_stored d) now) sid \<noteq> None \<or> int (length (freshLeases (reg_stored d) now)) < m
       then Granted_Until (now + SSH_SESSION_LEASE_TTL_MS) else Refused_Lease)"
    using assms
    by (auto simp: lease_call_simps acquireSessionLease_def)
  moreover have "snd (updateSessionLease (Some k) ''renew'' sid None now d) =
      (if map_of (freshLeases (reg_stored d) now) sid \<noteq> None then Granted_Until (now + SSH_SESSION_LEASE_TTL_MS) else Refused_Lease)"
    using assms
    by (auto simp: lease_call_simps renewSessionLease_def)
  moreover have "snd (do_releaseSessionLease (Some k) sid now d) = Inr ()"
    using assms
    by (simp add: lease_call_simps releaseSessionLease_def)
  ultimately show ?thesis by blast
qed

definition demo_session_id :: string where "demo_session_id = replicate 36 CHR ''a''"

lemma demo_session_id_ok: "is_session_id demo_session_id"
  by (simp add: is_session_id_def demo_session_id_def list_all_iff is_hex_def is_hex_lower_def is_digit_def in_range_def)

lemma demo_key_trim: "trim ''k'' = ''k''"
  by code_simp

lemma lease_calls_answered_witness:
  "snd (updateSessionLease (Some ''k'') ''acquire'' demo_session_id (Some 1) 0 registry_empty) = Granted_Until SSH_SESSION_LEASE_TTL_MS"
  using lease_calls_answered [OF demo_key_trim _ demo_session_id_ok, of 1 0 registry_empty]
  by (simp add: registry_empty_def freshLeases_def fresh_entries_def)

text \<open>
  The session object trims the key it sends, the registry compares with the key as it is configured: with a key
  that has white space around it every acquire and every renewal fails with status 401 and leaves the registry as it
  was, so no session can be opened.
\<close>

theorem padded_key_refuses_sessions:
  assumes "trim k \<noteq> k" "trim k \<noteq> []"
  shows "updateSessionLease (Some k) operation sid m now d =
    (d, Call_Failed (''SSH session registry '' @ operation @ '' failed with status 401''))"
proof -
  have "show_nat 401 = ''401''" by code_simp
  then show ?thesis using assms by (simp add: updateSessionLease_def registry_fetch_def lease_reply_of_def)
qed

lemma padded_key_refuses_sessions_witness:
  "snd (updateSessionLease (Some '' k'') ''acquire'' demo_session_id (Some 1) 0 registry_empty) =
    Call_Failed ''SSH session registry acquire failed with status 401''"
proof -
  have "trim '' k'' \<noteq> '' k''" "trim '' k'' \<noteq> []" by code_simp+
  from padded_key_refuses_sessions [OF this] show ?thesis by simp
qed

end
