(* ===== verification/Envelope.thy ===== *)
theory Envelope
  imports Ticket
begin

text \<open>
  The encryption of stored secrets (\<open>apps/worker/src/security/envelope.ts\<close>): AES-GCM under the master key of the
  deployment, with the owner, the record and the field of the secret as additional data. The cipher is the argument
  \<open>platform\<close>; the lemmas say that a secret comes back in the record it was stored for and in no other.
\<close>

definition CREDENTIAL_ENVELOPE_VERSION :: int where "CREDENTIAL_ENVELOPE_VERSION = 1"

datatype secret_field =
    F_Password | F_PrivateKey | F_Passphrase | F_Totp | F_PendingTotp | F_OauthTransaction | F_TailscaleApiToken

fun field_text :: "secret_field \<Rightarrow> string" where
  "field_text F_Password = ''password''"
| "field_text F_PrivateKey = ''privateKey''"
| "field_text F_Passphrase = ''passphrase''"
| "field_text F_Totp = ''totp''"
| "field_text F_PendingTotp = ''pendingTotp''"
| "field_text F_OauthTransaction = ''oauthTransaction''"
| "field_text F_TailscaleApiToken = ''tailscaleApiToken''"

record envelope =
  env_version :: int
  env_iv :: string
  env_ciphertext :: string

record envelope_context =
  ec_ownerId :: string
  ec_recordId :: string
  ec_field :: secret_field

definition encodeContext :: "envelope_context \<Rightarrow> bytes throws" where
  "encodeContext c =
     (if ec_ownerId c = [] \<or> ec_recordId c = [] then Inl ''Envelope context is incomplete''
      else Inr (utf8 (''edgesh:v'' @ show_int CREDENTIAL_ENVELOPE_VERSION @ '':'' @ ec_ownerId c @ '':'' @ ec_recordId c @ '':''
        @ field_text (ec_field c))))"

definition importMasterKey :: "string \<Rightarrow> bytes throws" where
  "importMasterKey masterKey = decodeBase64Secret masterKey (Some 32)"

text \<open>The fresh initialisation vector is an argument: \<open>crypto.getRandomValues\<close> of 12 bytes.\<close>

definition encryptSecret :: "platform \<Rightarrow> bytes \<Rightarrow> string option \<Rightarrow> string \<Rightarrow> envelope_context \<Rightarrow> envelope throws" where
  "encryptSecret pf iv masterKey plaintext c =
     (if masterKey = None \<or> masterKey = Some [] then Inl ''CREDENTIAL_MASTER_KEY is required to store credentials''
      else try_bind (importMasterKey (the masterKey)) (\<lambda>key.
        try_bind (encodeContext c) (\<lambda>aad.
          Inr \<lparr>env_version = CREDENTIAL_ENVELOPE_VERSION, env_iv = encodeBase64Url iv,
               env_ciphertext = encodeBase64Url (pf_encrypt pf key iv aad (utf8 plaintext))\<rparr>)))"

definition open_ciphertext :: "platform \<Rightarrow> bytes \<Rightarrow> bytes \<Rightarrow> bytes \<Rightarrow> envelope_context \<Rightarrow> string option" where
  "open_ciphertext pf key iv ciphertext c =
     (case encodeContext c of
        Inl _ \<Rightarrow> None
      | Inr aad \<Rightarrow> Option.bind (pf_decrypt pf key iv aad ciphertext) utf8_decode)"

definition decryptSecret :: "platform \<Rightarrow> string option \<Rightarrow> envelope \<Rightarrow> envelope_context \<Rightarrow> string throws" where
  "decryptSecret pf masterKey env c =
     (if masterKey = None \<or> masterKey = Some [] then Inl ''CREDENTIAL_MASTER_KEY is required to decrypt credentials''
      else if env_version env \<noteq> CREDENTIAL_ENVELOPE_VERSION then Inl ''Unsupported credential envelope version''
      else try_bind (importMasterKey (the masterKey)) (\<lambda>key.
        try_bind (decodeBase64Url (env_iv env)) (\<lambda>iv.
        try_bind (decodeBase64Url (env_ciphertext env)) (\<lambda>ciphertext.
          if length iv \<noteq> 12 \<or> length ciphertext < 16 then Inl ''Invalid credential envelope''
          else case open_ciphertext pf key iv ciphertext c of
              Some p \<Rightarrow> Inr p
            | None \<Rightarrow> Inl ''Credential envelope authentication failed''))))"

section \<open>The cipher\<close>

text \<open>
  What the standard promises of AES-GCM with a tag of 128 bits, idealised: decryption undoes encryption, the tag makes
  a ciphertext at least 16 bytes long, and a ciphertext opens only with the vector and the additional data it was made with.
\<close>

definition aead_law :: "platform \<Rightarrow> bool" where
  "aead_law pf \<longleftrightarrow>
     (\<forall>k iv aad p. pf_decrypt pf k iv aad (pf_encrypt pf k iv aad p) = Some p \<and> 16 \<le> length (pf_encrypt pf k iv aad p)) \<and>
     (\<forall>k iv iv' aad aad' p. pf_decrypt pf k iv' aad' (pf_encrypt pf k iv aad p) \<noteq> None \<longrightarrow> iv' = iv \<and> aad' = aad)"

lemma aead_decrypt [simp]: "aead_law pf \<Longrightarrow> pf_decrypt pf k iv aad (pf_encrypt pf k iv aad p) = Some p"
  by (simp add: aead_law_def)

lemma aead_tag: "aead_law pf \<Longrightarrow> 16 \<le> length (pf_encrypt pf k iv aad p)"
  by (simp add: aead_law_def)

lemma aead_binds:
  "aead_law pf \<Longrightarrow> pf_decrypt pf k iv' aad' (pf_encrypt pf k iv aad p) = Some q \<Longrightarrow> iv' = iv \<and> aad' = aad"
  unfolding aead_law_def by (metis option.distinct(1))

section \<open>Round trip and binding\<close>

lemma encryptSecret_Inr:
  "encryptSecret pf iv mk p c = Inr env \<longleftrightarrow> (\<exists>m key aad. mk = Some m \<and> m \<noteq> [] \<and> importMasterKey m = Inr key \<and> encodeContext c = Inr aad \<and>
     env = \<lparr>env_version = CREDENTIAL_ENVELOPE_VERSION, env_iv = encodeBase64Url iv,
            env_ciphertext = encodeBase64Url (pf_encrypt pf key iv aad (utf8 p))\<rparr>)"
  by (cases mk) (auto simp: encryptSecret_def try_bind_eq_Inr)

lemma decryptSecret_of_encrypted:
  assumes "aead_law pf" "length iv = 12" "encryptSecret pf iv mk p c = Inr env"
  shows "decryptSecret pf mk env c = Inr p"
proof -
  obtain m key aad where e: "mk = Some m" "m \<noteq> []" "importMasterKey m = Inr key" "encodeContext c = Inr aad"
      "env = \<lparr>env_version = CREDENTIAL_ENVELOPE_VERSION, env_iv = encodeBase64Url iv,
            env_ciphertext = encodeBase64Url (pf_encrypt pf key iv aad (utf8 p))\<rparr>"
    using assms(3) by (auto simp: encryptSecret_Inr)
  have "16 \<le> length (pf_encrypt pf key iv aad (utf8 p))" by (rule aead_tag [OF assms(1)])
  moreover from this have "pf_encrypt pf key iv aad (utf8 p) \<noteq> []" by auto
  moreover have "iv \<noteq> []" using assms(2) by auto
  ultimately show ?thesis
    using e assms(1,2) by (simp add: decryptSecret_def try_bind_def decode_encodeBase64Url open_ciphertext_def not_less)
qed

lemma field_text_inject: "field_text f = field_text g \<longleftrightarrow> f = g"
  by (cases f; cases g) simp_all

lemma field_text_no_colon: "CHR '':'' \<notin> set (field_text f)"
  by (cases f) simp_all

lemma split_at_first_char:
  "c \<notin> set x \<Longrightarrow> c \<notin> set x' \<Longrightarrow> x @ c # y = x' @ c # y' \<longleftrightarrow> x = x' \<and> y = y'"
  by (induction x arbitrary: x') (case_tac x'; auto)+

lemma split_at_last_char:
  assumes "c \<notin> set y" "c \<notin> set y'"
  shows "x @ c # y = x' @ c # y' \<longleftrightarrow> x = x' \<and> y = y'"
proof -
  have "x @ c # y = x' @ c # y' \<longleftrightarrow> rev y @ c # rev x = rev y' @ c # rev x'"
    by (metis append.assoc append_Cons append_Nil rev.simps(2) rev_append rev_rev_ident)
  also have "\<dots> \<longleftrightarrow> rev y = rev y' \<and> rev x = rev x'"
    using assms by (intro split_at_first_char) simp_all
  finally show ?thesis by auto
qed

text \<open>The context is read unambiguously as long as owner identifiers hold no colon, as the generated ones do not.\<close>

lemma encodeContext_inject:
  assumes "encodeContext c = Inr a" "encodeContext c' = Inr a" "CHR '':'' \<notin> set (ec_ownerId c)" "CHR '':'' \<notin> set (ec_ownerId c')"
  shows "c = c'"
proof -
  have "ec_ownerId c @ CHR '':'' # ec_recordId c @ CHR '':'' # field_text (ec_field c) =
    ec_ownerId c' @ CHR '':'' # ec_recordId c' @ CHR '':'' # field_text (ec_field c')"
    using assms(1,2) by (auto simp: encodeContext_def split: if_splits)
  then have "ec_ownerId c = ec_ownerId c'" "ec_recordId c = ec_recordId c'" "ec_field c = ec_field c'"
    using assms(3,4) by (auto simp: split_at_first_char split_at_last_char field_text_no_colon field_text_inject)
  then show ?thesis by simp
qed

text \<open>
  C13: A secret stored for a field of a record of an owner decrypts to itself there, and with the same key the envelope
  opens for no other owner, record or field: moving a stored ciphertext to another row never yields the secret.
\<close>

theorem secret_opens_only_in_place:
  assumes "aead_law pf" "length iv = 12" "encryptSecret pf iv masterKey plaintext c = Inr env"
    "CHR '':'' \<notin> set (ec_ownerId c)" "CHR '':'' \<notin> set (ec_ownerId c')"
  shows "decryptSecret pf masterKey env c' = (if c' = c then Inr plaintext
    else Inl ''Credential envelope authentication failed'')"
proof (cases "c' = c")
  case True
  then show ?thesis using decryptSecret_of_encrypted [OF assms(1-3)] by simp
next
  case False
  obtain m key aad where e: "masterKey = Some m" "m \<noteq> []" "importMasterKey m = Inr key" "encodeContext c = Inr aad"
      "env = \<lparr>env_version = CREDENTIAL_ENVELOPE_VERSION, env_iv = encodeBase64Url iv,
            env_ciphertext = encodeBase64Url (pf_encrypt pf key iv aad (utf8 plaintext))\<rparr>"
    using assms(3) by (auto simp: encryptSecret_Inr)
  have "pf_decrypt pf key iv aad' (pf_encrypt pf key iv aad (utf8 plaintext)) = None" if "encodeContext c' = Inr aad'" for aad'
    using aead_binds [OF assms(1)] encodeContext_inject [OF that _ assms(5,4)] e(4) False by (metis not_Some_eq)
  then have "open_ciphertext pf key iv (pf_encrypt pf key iv aad (utf8 plaintext)) c' = None"
    by (auto simp: open_ciphertext_def split: sum.splits)
  moreover have "16 \<le> length (pf_encrypt pf key iv aad (utf8 plaintext))" by (rule aead_tag [OF assms(1)])
  moreover from this have "pf_encrypt pf key iv aad (utf8 plaintext) \<noteq> []" by auto
  moreover have "iv \<noteq> []" using assms(2) by auto
  ultimately show ?thesis
    using False e assms(2) by (simp add: decryptSecret_def try_bind_def decode_encodeBase64Url not_less)
qed

section \<open>A concrete cipher for the witnesses\<close>

text \<open>It spells the vector and the additional data out in front of the text: each byte after a one, the end marked by a zero.\<close>

fun marked :: "bytes \<Rightarrow> bytes" where
  "marked [] = [0]"
| "marked (b # bs) = 1 # b # marked bs"

fun unmarked :: "bytes \<Rightarrow> (bytes \<times> bytes) option" where
  "unmarked (m # r) = (if m = 0 then Some ([], r)
     else case r of [] \<Rightarrow> None | b # r' \<Rightarrow> map_option (\<lambda>(x, y). (b # x, y)) (unmarked r'))"
| "unmarked [] = None"

lemma unmarked_marked: "unmarked (marked bs @ r) = Some (bs, r)"
  by (induction bs) auto

definition demo_aead :: platform where
  "demo_aead = \<lparr>pf_sha256 = (\<lambda>b. replicate 32 0),
     pf_encrypt = (\<lambda>k iv aad p. replicate 16 0 @ marked iv @ marked aad @ p),
     pf_decrypt = (\<lambda>k iv aad c. case unmarked (drop 16 c) of
        Some (iv', r) \<Rightarrow> (case unmarked r of Some (aad', p) \<Rightarrow> if iv' = iv \<and> aad' = aad then Some p else None | None \<Rightarrow> None)
      | None \<Rightarrow> None),
     pf_url = (\<lambda>u. None)\<rparr>"

lemma demo_aead_law: "aead_law demo_aead"
  by (auto simp: aead_law_def demo_aead_def unmarked_marked split: if_splits)

definition demo_master_key :: string where "demo_master_key = replicate 43 CHR ''A'' @ ''=''"

lemma demo_master_key_bytes: "importMasterKey demo_master_key = Inr (replicate 32 0)"
  by code_simp

definition demo_context :: envelope_context where
  "demo_context = \<lparr>ec_ownerId = ''o'', ec_recordId = ''r'', ec_field = F_Password\<rparr>"

lemma demo_encrypted: "\<exists>env. encryptSecret demo_aead (replicate 12 0) (Some demo_master_key) ''s'' demo_context = Inr env"
  by (simp add: encryptSecret_Inr demo_master_key_bytes demo_context_def encodeContext_def) (simp add: demo_master_key_def)

lemma secret_opens_only_in_place_witness:
  "\<exists>env. decryptSecret demo_aead (Some demo_master_key) env demo_context = Inr ''s'' \<and>
    decryptSecret demo_aead (Some demo_master_key) env (demo_context\<lparr>ec_recordId := ''q''\<rparr>) =
      Inl ''Credential envelope authentication failed''"
proof -
  obtain env where e: "encryptSecret demo_aead (replicate 12 0) (Some demo_master_key) ''s'' demo_context = Inr env"
    using demo_encrypted by blast
  note t = secret_opens_only_in_place [OF demo_aead_law _ e]
  show ?thesis
    using t [of demo_context] t [of "demo_context\<lparr>ec_recordId := ''q''\<rparr>"] by (auto simp: demo_context_def intro!: exI [of _ env])
qed

end
