(* ===== verification/Keyset.thy ===== *)
theory Keyset
  imports Wb_Json Encoding "HOL-Library.List_Lexorder" "HOL-Library.Product_Lexorder"
begin

text \<open>
  Keyset pagination: the cursors of \<open>apps/worker/src/storage/pagination.ts\<close>, the checks of \<open>storage/internal.ts\<close>, and
  the query the repositories page with, \<open>WHERE (time, id) < (cursor) ORDER BY time DESC, id DESC LIMIT limit + 1\<close>. SQLite compares
  text byte by byte, which for the characters of the model is the order of \<open>List_Lexorder\<close>. The locale
  \<open>keyset_listing\<close> states what a repository provides and derives that following the cursors yields every row once.
\<close>

section \<open>Checks of identifiers\<close>

definition asBoolean :: "int \<Rightarrow> bool" where "asBoolean n \<longleftrightarrow> n = 1"

definition toInteger :: "bool \<Rightarrow> int" where "toInteger b = (if b then 1 else 0)"

definition assertOwnerId :: "string \<Rightarrow> unit throws" where
  "assertOwnerId ownerId = guard_that (ownerId \<noteq> [] \<and> length ownerId \<le> 128) ''Invalid owner ID''"

definition assertRecordId :: "string \<Rightarrow> unit throws" where
  "assertRecordId i = guard_that (i \<noteq> [] \<and> length i \<le> 128) ''Invalid record ID''"

lemma asBoolean_toInteger [simp]: "asBoolean (toInteger b) = b"
  by (simp add: asBoolean_def toInteger_def)

section \<open>Cursors\<close>

record time_cursor =
  tc_createdAt :: string
  tc_id :: string

definition encodeTimeCursor :: "time_cursor \<Rightarrow> string" where
  "encodeTimeCursor c = encodeBase64Url (utf8 (the (json_text (JArr [JStr (tc_createdAt c), JStr (tc_id c)]))))"

definition is_cursor_id :: "string \<Rightarrow> bool" where
  "is_cursor_id s \<longleftrightarrow> length s = 36 \<and> list_all (\<lambda>c. is_hex c \<or> c = CHR ''-'') s"

text \<open>\<open>is_date s\<close> says that \<open>Date.parse\<close> gives a finite number.\<close>

definition decodeTimeCursor :: "(string \<Rightarrow> bool) \<Rightarrow> string option \<Rightarrow> time_cursor option throws" where
  "decodeTimeCursor is_date v =
     (if v = None \<or> v = Some [] then Inr None
      else case decodeBase64Url (the v) of
        Inl _ \<Rightarrow> Inl ''Invalid pagination cursor''
      | Inr bs \<Rightarrow>
          (case Option.bind (utf8_decode bs) json_parse of
             Some (JArr [JStr createdAt, JStr i]) \<Rightarrow>
               if is_date createdAt \<and> is_cursor_id i then Inr (Some \<lparr>tc_createdAt = createdAt, tc_id = i\<rparr>)
               else Inl ''Invalid pagination cursor''
           | _ \<Rightarrow> Inl ''Invalid pagination cursor''))"

lemma cursor_text:
  "json_text (JArr [JStr a, JStr b]) = Some (''['' @ json_str a @ '','' @ json_str b @ '']'')"
  by simp

lemma encodeBase64Url_Nil [simp]: "encodeBase64Url [] = []"
  by (simp add: encodeBase64Url_eq b64_digits_def)

lemma encodeTimeCursor_nonempty: "encodeTimeCursor c \<noteq> []"
proof
  assume "encodeTimeCursor c = []"
  then have "decodeBase64Url (encodeTimeCursor c) = decodeBase64Url (encodeBase64Url [])" by simp
  then have "utf8 (the (json_text (JArr [JStr (tc_createdAt c), JStr (tc_id c)]))) = utf8 []"
    unfolding encodeTimeCursor_def decode_encodeBase64Url by simp
  then show False unfolding cursor_text utf8_inject by simp
qed

lemma decode_encodeTimeCursor:
  assumes "is_date (tc_createdAt c)" "is_cursor_id (tc_id c)"
  shows "decodeTimeCursor is_date (Some (encodeTimeCursor c)) = Inr (Some c)"
proof -
  have "json_parse (the (json_text (JArr [JStr (tc_createdAt c), JStr (tc_id c)]))) = Some (JArr [JStr (tc_createdAt c), JStr (tc_id c)])"
    by (rule json_parse_text) (simp_all del: json_text.simps add: cursor_text)
  then show ?thesis
    using assms encodeTimeCursor_nonempty [of c] by (simp add: decodeTimeCursor_def encodeTimeCursor_def del: json_text.simps)
qed

section \<open>The query\<close>

text \<open>\<open>Math.min(Math.max(Math.trunc(limit), 1), hi)\<close>\<close>

definition js_trunc :: "rat \<Rightarrow> int" where
  "js_trunc q = (if q < 0 then \<lceil>q\<rceil> else \<lfloor>q\<rfloor>)"

definition bounded_limit :: "int \<Rightarrow> rat \<Rightarrow> nat" where
  "bounded_limit hi limit = nat (min (max (js_trunc limit) 1) hi)"

text \<open>\<open>ORDER BY time DESC, id DESC\<close> (the identifier is the primary key, so there are no ties)\<close>

definition order_desc :: "('r \<Rightarrow> string \<times> string) \<Rightarrow> 'r list \<Rightarrow> 'r list" where
  "order_desc key rows = rev (sort_key key rows)"

definition before_cursor :: "string \<times> string \<Rightarrow> time_cursor option \<Rightarrow> bool" where
  "before_cursor k c =
     (case c of None \<Rightarrow> True
      | Some c \<Rightarrow> fst k < tc_createdAt c \<or> (fst k = tc_createdAt c \<and> snd k < tc_id c))"

record 'a page =
  pg_items :: "'a list"
  pg_hasMore :: bool
  pg_nextCursor :: "string option"

definition keyset_query :: "('r \<Rightarrow> string \<times> string) \<Rightarrow> nat \<Rightarrow> time_cursor option \<Rightarrow> 'r list \<Rightarrow> 'r list" where
  "keyset_query key limit c rows = take limit (order_desc key (filter (\<lambda>r. before_cursor (key r) c) rows))"

text \<open>The page made of the result of a query for one row more than the page holds.\<close>

definition make_page :: "('r \<Rightarrow> 'a) \<Rightarrow> ('r \<Rightarrow> time_cursor) \<Rightarrow> nat \<Rightarrow> 'r list \<Rightarrow> 'a page" where
  "make_page view cursorOf bounded results =
     (let hasMore = length results > bounded; rows = take bounded results in
      \<lparr>pg_items = map view rows, pg_hasMore = hasMore,
       pg_nextCursor = (if hasMore \<and> rows \<noteq> [] then Some (encodeTimeCursor (cursorOf (last rows))) else None)\<rparr>)"

lemma bounded_limit_range: "1 \<le> hi \<Longrightarrow> 1 \<le> bounded_limit hi q \<and> int (bounded_limit hi q) \<le> hi"
  by (auto simp: bounded_limit_def)

text \<open>A client that follows the cursors.\<close>

fun follow_pages :: "nat \<Rightarrow> (string option \<Rightarrow> 'a page throws) \<Rightarrow> string option \<Rightarrow> 'a list option" where
  "follow_pages 0 fetch cursor = None"
| "follow_pages (Suc n) fetch cursor =
     (case fetch cursor of
        Inl _ \<Rightarrow> None
      | Inr p \<Rightarrow>
          (case pg_nextCursor p of
             None \<Rightarrow> Some (pg_items p)
           | Some c \<Rightarrow> map_option ((@) (pg_items p)) (follow_pages n fetch (Some c))))"

section \<open>Descending lists\<close>

definition descending :: "('r \<Rightarrow> string \<times> string) \<Rightarrow> 'r list \<Rightarrow> bool" where
  "descending key = sorted_wrt (\<lambda>a b. key b < key a)"

lemma descending_order_desc:
  assumes "distinct (map key rows)"
  shows "descending key (order_desc key rows)"
proof -
  have "sorted (map key (sort_key key rows))" "distinct (map key (sort_key key rows))"
    using assms by (simp_all add: distinct_map inj_on_def)
  then have "sorted_wrt (<) (map key (sort_key key rows))" by (simp add: strict_sorted_iff)
  then show ?thesis by (simp add: descending_def order_desc_def sorted_wrt_rev sorted_wrt_map)
qed

lemma filter_order_desc: "order_desc key (filter P rows) = filter P (order_desc key rows)"
  by (simp add: order_desc_def flip: filter_sort rev_filter)

lemma set_order_desc [simp]: "set (order_desc key rows) = set rows"
  by (simp add: order_desc_def)

lemma length_order_desc [simp]: "length (order_desc key rows) = length rows"
  by (simp add: order_desc_def)

lemma before_cursor_less: "before_cursor k (Some c) \<longleftrightarrow> k < (tc_createdAt c, tc_id c)"
  by (cases k) (auto simp: before_cursor_def)

lemma descending_after:
  assumes "descending key xs" "n < length xs"
  shows "filter (\<lambda>r. key r < key (xs ! n)) xs = drop (Suc n) xs"
proof -
  have "sorted_wrt (\<lambda>a b. key b < key a) (take n xs @ xs ! n # drop (Suc n) xs)"
    using assms id_take_nth_drop [of n xs] by (simp add: descending_def)
  then have "filter (\<lambda>r. key r < key (xs ! n)) (take n xs @ xs ! n # drop (Suc n) xs) = drop (Suc n) xs"
    by (auto simp: sorted_wrt_append filter_empty_conv filter_id_conv dest: less_not_sym)
  then show ?thesis using assms id_take_nth_drop [of n xs] by simp
qed

section \<open>The interface\<close>

text \<open>
  A listing pages through the rows its filters select from the database: on a well-formed database the cursor of a row
  is its sort key, cursors are decoded to what was encoded, keys are unique, and a page holds at least one row.
\<close>

locale keyset_listing =
  fixes key :: "'r \<Rightarrow> string \<times> string" and cursorOf :: "'r \<Rightarrow> time_cursor" and view :: "'r \<Rightarrow> 'a"
    and ok :: "'db \<Rightarrow> bool" and rows :: "'db \<Rightarrow> 'r list" and bounded :: nat
    and fetch :: "'db \<Rightarrow> string option \<Rightarrow> 'a page throws"
  assumes unique: "ok db \<Longrightarrow> distinct (map key (rows db))"
    and positive: "1 \<le> bounded"
    and cursor_key: "ok db \<Longrightarrow> r \<in> set (rows db) \<Longrightarrow> key r = (tc_createdAt (cursorOf r), tc_id (cursorOf r))"
    and first_page: "ok db \<Longrightarrow> fetch db None = Inr (make_page view cursorOf bounded (keyset_query key (bounded + 1) None (rows db)))"
    and next_page: "ok db \<Longrightarrow> r \<in> set (rows db) \<Longrightarrow> fetch db (Some (encodeTimeCursor (cursorOf r))) =
      Inr (make_page view cursorOf bounded (keyset_query key (bounded + 1) (Some (cursorOf r)) (rows db)))"
begin

abbreviation listed :: "'db \<Rightarrow> 'r list" where "listed db \<equiv> order_desc key (rows db)"

lemma listed_descending: "ok db \<Longrightarrow> descending key (listed db)"
  by (rule descending_order_desc [OF unique])

lemma page_from:
  "make_page view cursorOf bounded (take (bounded + 1) (drop n xs)) =
    \<lparr>pg_items = map view (take bounded (drop n xs)), pg_hasMore = n + bounded < length xs,
     pg_nextCursor = (if n + bounded < length xs then Some (encodeTimeCursor (cursorOf (xs ! (n + bounded - 1)))) else None)\<rparr>"
proof -
  have "take bounded (take (bounded + 1) (drop n xs)) = take bounded (drop n xs)" by simp
  moreover have "bounded < length (take (bounded + 1) (drop n xs)) \<longleftrightarrow> n + bounded < length xs"
    unfolding length_take length_drop by linarith
  moreover have "take bounded (drop n xs) \<noteq> [] \<and> last (take bounded (drop n xs)) = xs ! (n + bounded - 1)"
    if "n + bounded < length xs"
    using that positive by (auto simp: last_conv_nth)
  ultimately show ?thesis unfolding make_page_def Let_def by simp
qed

lemma query_after:
  assumes "ok db" "n < length (rows db)"
  shows "keyset_query key m (Some (cursorOf (listed db ! n))) (rows db) = take m (drop (Suc n) (listed db))"
proof -
  have "listed db ! n \<in> set (rows db)" using assms nth_mem [of n "listed db"] by simp
  then have "(\<lambda>r. before_cursor (key r) (Some (cursorOf (listed db ! n)))) = (\<lambda>r. key r < key (listed db ! n))"
    using cursor_key [OF assms(1)] by (simp add: before_cursor_less)
  then show ?thesis
    using descending_after [OF listed_descending [OF assms(1)], of n] assms(2) by (simp add: keyset_query_def filter_order_desc)
qed

lemma pages_from:
  assumes "ok db" "n < length (rows db)" "length (rows db) - n \<le> k"
  shows "follow_pages k (fetch db) (Some (encodeTimeCursor (cursorOf (listed db ! n)))) = Some (map view (drop (Suc n) (listed db)))"
  using assms(2,3)
proof (induction k arbitrary: n)
  case 0
  then show ?case by simp
next
  case (Suc k)
  have "listed db ! n \<in> set (rows db)" using nth_mem [of n "listed db"] Suc.prems(1) by simp
  then have page: "fetch db (Some (encodeTimeCursor (cursorOf (listed db ! n)))) =
      Inr (make_page view cursorOf bounded (take (bounded + 1) (drop (Suc n) (listed db))))"
    using next_page [OF assms(1)] query_after [OF assms(1) Suc.prems(1)] by simp
  show ?case
  proof (cases "Suc n + bounded < length (rows db)")
    case True
    then have "follow_pages k (fetch db) (Some (encodeTimeCursor (cursorOf (listed db ! (Suc n + bounded - 1))))) =
        Some (map view (drop (Suc (Suc n + bounded - 1)) (listed db)))"
      using Suc.prems positive by (intro Suc.IH) auto
    moreover have "take bounded (drop (Suc n) (listed db)) @ drop (Suc (Suc n + bounded - 1)) (listed db) = drop (Suc n) (listed db)"
      using append_take_drop_id [where n = bounded and xs = "drop (Suc n) (listed db)"] by (simp add: add.commute)
    ultimately show ?thesis
      using True unfolding follow_pages.simps page page_from by (simp flip: map_append del: append_take_drop_id)
  next
    case False
    then show ?thesis unfolding follow_pages.simps page page_from by simp
  qed
qed

lemma pages_complete:
  assumes "ok db"
  shows "follow_pages (Suc (length (rows db))) (fetch db) None = Some (map view (listed db))"
proof -
  have page: "fetch db None = Inr (make_page view cursorOf bounded (take (bounded + 1) (drop 0 (listed db))))"
    using first_page [OF assms] by (simp add: keyset_query_def before_cursor_def)
  show ?thesis
  proof (cases "bounded < length (rows db)")
    case True
    then have "follow_pages (length (rows db)) (fetch db) (Some (encodeTimeCursor (cursorOf (listed db ! (bounded - 1))))) =
        Some (map view (drop (Suc (bounded - 1)) (listed db)))"
      using positive by (intro pages_from [OF assms]) auto
    then show ?thesis
      using True positive unfolding follow_pages.simps page page_from
      by (simp flip: map_append)
  next
    case False
    then show ?thesis unfolding follow_pages.simps page page_from by simp
  qed
qed

end

end
