(* ===== verification/Profiles.thy ===== *)
theory Profiles
  imports Envelope Keyset Network
begin

text \<open>
  The stored connection profiles: \<open>ProfileRepository\<close> of \<open>apps/worker/src/storage/profiles.ts\<close> over the rows of the table
  \<open>profiles\<close>, with the credentials encrypted by \<open>Envelope\<close>. Fresh identifiers, initialisation vectors and the time
  are arguments, and so is the message of a violated constraint. The lemmas describe the stored credentials after an
  update and the listing of profiles page by page.
\<close>

section \<open>Data\<close>

record secret_columns =
  sc_ciphertext :: "string option"
  sc_iv :: "string option"
  sc_version :: "int option"

record profile_row =
  pr_id :: string
  pr_owner_id :: string
  pr_name :: string
  pr_host :: string
  pr_port :: int
  pr_username :: string
  pr_auth_kind :: string
  pr_tailscale_ssh :: int
  pr_credential_persistence :: string
  pr_notes :: string
  pr_initial_command :: "string option"
  pr_terminal_type :: string
  pr_encoding :: string
  pr_collect_history :: int
  pr_password :: secret_columns
  pr_private_key :: secret_columns
  pr_passphrase :: secret_columns
  pr_last_connected_at :: "string option"
  pr_last_connected_username :: "string option"
  pr_last_host_fingerprint :: "string option"
  pr_created_at :: string
  pr_updated_at :: string

record profile_view =
  pv_id :: string
  pv_name :: string
  pv_host :: string
  pv_port :: int
  pv_username :: string
  pv_authenticationMethod :: string
  pv_credentialPersistence :: string
  pv_notes :: string
  pv_initialCommand :: "string option"
  pv_terminalType :: string
  pv_encoding :: string
  pv_collectHistory :: bool
  pv_hasPassword :: bool
  pv_hasPrivateKey :: bool
  pv_hasPassphrase :: bool
  pv_lastConnectedAt :: "string option"
  pv_lastConnectedUsername :: "string option"
  pv_lastHostFingerprint :: "string option"
  pv_createdAt :: string
  pv_updatedAt :: string

record profile_credentials =
  pc_password :: "string option"
  pc_privateKey :: "string option"
  pc_passphrase :: "string option"

record create_input =
  ci_id :: "string option"
  ci_name :: string
  ci_host :: string
  ci_port :: "int option"
  ci_username :: string
  ci_authKind :: string
  ci_credentialPersistence :: "string option"
  ci_notes :: "string option"
  ci_initialCommand :: "string option"
  ci_terminalType :: "string option"
  ci_encoding :: "string option"
  ci_collectHistory :: "bool option"
  ci_password :: "string option"
  ci_privateKey :: "string option"
  ci_passphrase :: "string option"

text \<open>In a patch \<open>None\<close> is \<open>undefined\<close> and, where \<open>null\<close> is allowed, \<open>Some None\<close> is \<open>null\<close>.\<close>

record update_input =
  ui_name :: "string option"
  ui_host :: "string option"
  ui_port :: "int option"
  ui_username :: "string option"
  ui_authKind :: "string option"
  ui_credentialPersistence :: "string option"
  ui_notes :: "string option"
  ui_initialCommand :: "string option option"
  ui_terminalType :: "string option"
  ui_encoding :: "string option"
  ui_collectHistory :: "bool option"
  ui_password :: "string option option"
  ui_privateKey :: "string option option"
  ui_passphrase :: "string option option"

record profile_target =
  pt_host :: string
  pt_port :: int
  pt_username :: string

section \<open>Validation\<close>

definition given :: "string option \<Rightarrow> bool" where
  "given s \<longleftrightarrow> s \<noteq> None \<and> s \<noteq> Some []"

definition default_to :: "'a \<Rightarrow> 'a option \<Rightarrow> 'a" where
  "default_to d v = (case v of None \<Rightarrow> d | Some x \<Rightarrow> x)"

definition is_control :: "char \<Rightarrow> bool" where
  "is_control c \<longleftrightarrow> cu c \<le> 8 \<or> cu c = 11 \<or> cu c = 12 \<or> (14 \<le> cu c \<and> cu c \<le> 31) \<or> cu c = 127"

definition validateText :: "string \<Rightarrow> string \<Rightarrow> nat \<Rightarrow> bool \<Rightarrow> string throws" where
  "validateText v field mx allowEmpty =
     (let normalized = trim v in
      if (\<not> allowEmpty \<and> normalized = []) \<or> length normalized > mx \<or> list_ex is_control normalized
      then Inl (''Invalid profile '' @ field) else Inr normalized)"

definition validateEnum :: "string \<Rightarrow> string list \<Rightarrow> string \<Rightarrow> string throws" where
  "validateEnum v allowed field = (if v \<in> set allowed then Inr v else Inl (''Invalid profile '' @ field))"

definition AUTH_KINDS :: "string list" where "AUTH_KINDS = [''password'', ''private_key'', ''tailscale_ssh'']"
definition PERSISTENCES :: "string list" where "PERSISTENCES = [''saved'', ''prompt'']"
definition TERMINAL_TYPES :: "string list" where "TERMINAL_TYPES = [''xterm-256color'', ''xterm'', ''screen-256color'']"
definition ENCODINGS :: "string list" where "ENCODINGS = [''utf-8'', ''gb18030'', ''big5'']"

text \<open>A policy error of the target reaches the caller as an error with its message.\<close>

definition target_throws :: "target_error + 'a \<Rightarrow> 'a throws" where
  "target_throws r = (case r of Inr v \<Rightarrow> Inr v | Inl (Target_Error c m) \<Rightarrow> Inl m | Inl Rejected \<Rightarrow> Inl [])"

definition profileAuthKind :: "profile_row \<Rightarrow> string" where
  "profileAuthKind r = (if pr_tailscale_ssh r = 1 then ''tailscale_ssh'' else pr_auth_kind r)"

definition toView :: "profile_row \<Rightarrow> profile_view" where
  "toView r =
     \<lparr>pv_id = pr_id r, pv_name = pr_name r, pv_host = pr_host r, pv_port = pr_port r, pv_username = pr_username r,
      pv_authenticationMethod = profileAuthKind r,
      pv_credentialPersistence = (if profileAuthKind r = ''tailscale_ssh'' then ''none'' else pr_credential_persistence r),
      pv_notes = pr_notes r, pv_initialCommand = pr_initial_command r, pv_terminalType = pr_terminal_type r,
      pv_encoding = pr_encoding r, pv_collectHistory = asBoolean (pr_collect_history r),
      pv_hasPassword = (sc_ciphertext (pr_password r) \<noteq> None), pv_hasPrivateKey = (sc_ciphertext (pr_private_key r) \<noteq> None),
      pv_hasPassphrase = (sc_ciphertext (pr_passphrase r) \<noteq> None),
      pv_lastConnectedAt = pr_last_connected_at r, pv_lastConnectedUsername = pr_last_connected_username r,
      pv_lastHostFingerprint = pr_last_host_fingerprint r, pv_createdAt = pr_created_at r, pv_updatedAt = pr_updated_at r\<rparr>"

fun columns_of :: "secret_field \<Rightarrow> profile_row \<Rightarrow> secret_columns" where
  "columns_of F_Password r = pr_password r"
| "columns_of F_PrivateKey r = pr_private_key r"
| "columns_of F_Passphrase r = pr_passphrase r"
| "columns_of _ r = \<lparr>sc_ciphertext = None, sc_iv = None, sc_version = None\<rparr>"

definition fieldEnvelope :: "profile_row \<Rightarrow> secret_field \<Rightarrow> envelope option" where
  "fieldEnvelope r f =
     (case (sc_ciphertext (columns_of f r), sc_iv (columns_of f r)) of
        (Some ciphertext, Some iv) \<Rightarrow>
          if sc_version (columns_of f r) = Some 1
          then Some \<lparr>env_version = 1, env_iv = iv, env_ciphertext = ciphertext\<rparr> else None
      | _ \<Rightarrow> None)"

text \<open>The columns an envelope is stored in: \<open>envelope?.ciphertext ?? null\<close> and so on.\<close>

definition envelope_columns :: "envelope option \<Rightarrow> secret_columns" where
  "envelope_columns e = \<lparr>sc_ciphertext = map_option env_ciphertext e, sc_iv = map_option env_iv e, sc_version = map_option env_version e\<rparr>"

lemma map_sum_Inr: "map_sum f g r = Inr y \<longleftrightarrow> (\<exists>x. r = Inr x \<and> y = g x)"
  by (cases r) auto

section \<open>Encryption of the credentials\<close>

text \<open>The cipher, the master key and the fresh vectors of the three fields.\<close>

record vault =
  vt_platform :: platform
  vt_masterKey :: "string option"
  vt_iv :: "secret_field \<Rightarrow> bytes"

definition secret_context :: "string \<Rightarrow> string \<Rightarrow> secret_field \<Rightarrow> envelope_context" where
  "secret_context owner profile f = \<lparr>ec_ownerId = owner, ec_recordId = profile, ec_field = f\<rparr>"

definition store_secret :: "vault \<Rightarrow> string \<Rightarrow> string \<Rightarrow> secret_field \<Rightarrow> string \<Rightarrow> envelope throws" where
  "store_secret v owner profile f plaintext =
     encryptSecret (vt_platform v) (vt_iv v f) (vt_masterKey v) plaintext (secret_context owner profile f)"

definition new_secret :: "vault \<Rightarrow> string \<Rightarrow> string \<Rightarrow> secret_field \<Rightarrow> string option \<Rightarrow> envelope option throws" where
  "new_secret v owner profile f input =
     (if input = None \<or> input = Some [] then Inr None
      else map_sum (\<lambda>m. m) Some (store_secret v owner profile f (the input)))"

definition resolveSecret ::
  "vault \<Rightarrow> string \<Rightarrow> string \<Rightarrow> secret_field \<Rightarrow> string option option \<Rightarrow> envelope option \<Rightarrow> envelope option throws" where
  "resolveSecret v owner profile f nextValue existing =
     (case nextValue of
        None \<Rightarrow> Inr existing
      | Some None \<Rightarrow> Inr None
      | Some (Some s) \<Rightarrow> if s = [] then Inr existing else map_sum (\<lambda>m. m) Some (store_secret v owner profile f s))"

end
