(* ===== verification/Profile_Repository.thy ===== *)
theory Profile_Repository
  imports Profiles
begin

text \<open>
  The operations of \<open>ProfileRepository\<close> (\<open>apps/worker/src/storage/profiles.ts\<close>) on the table of profiles, and what an
  update does to the stored credentials.
\<close>

record profile_db =
  pd_profiles :: "profile_row list"
  pd_active :: "(string \<times> string) list"

text \<open>
  \<open>pd_active\<close> holds the profile and owner of each connection session whose status is neither closed nor error.
\<close>

section \<open>Statements\<close>

text \<open>The unique index \<open>profiles_owner_identity_idx\<close>.\<close>

definition identity :: "profile_row \<Rightarrow> string \<times> string \<times> int \<times> string \<times> string" where
  "identity r = (pr_owner_id r, pr_host r, pr_port r, pr_username r, pr_name r)"

definition insert_profile :: "string \<Rightarrow> profile_row \<Rightarrow> profile_db \<Rightarrow> profile_db throws" where
  "insert_profile violated row db =
     (if list_ex (\<lambda>r. pr_id r = pr_id row \<or> identity r = identity row) (pd_profiles db) then Inl violated
      else Inr (db\<lparr>pd_profiles := pd_profiles db @ [row]\<rparr>))"

definition selects :: "string \<Rightarrow> string \<Rightarrow> profile_row \<Rightarrow> bool" where
  "selects ownerId profileId r \<longleftrightarrow> pr_id r = profileId \<and> pr_owner_id r = ownerId"

definition update_profile :: "string \<Rightarrow> profile_row \<Rightarrow> profile_db \<Rightarrow> profile_db throws" where
  "update_profile violated row db =
     (if list_ex (\<lambda>r. \<not> selects (pr_owner_id row) (pr_id row) r \<and> identity r = identity row) (pd_profiles db) then Inl violated
      else Inr (db\<lparr>pd_profiles := map (\<lambda>r. if selects (pr_owner_id row) (pr_id row) r then row else r) (pd_profiles db)\<rparr>))"

definition getRow :: "string \<Rightarrow> string \<Rightarrow> profile_db \<Rightarrow> profile_row option throws" where
  "getRow ownerId profileId db =
     try_bind (assertOwnerId ownerId) (\<lambda>_. try_bind (assertRecordId profileId) (\<lambda>_.
       Inr (find (selects ownerId profileId) (pd_profiles db))))"

section \<open>Operations\<close>

definition profile_get :: "string \<Rightarrow> string \<Rightarrow> profile_db \<Rightarrow> profile_view option throws" where
  "profile_get ownerId profileId db = map_sum (\<lambda>m. m) (map_option toView) (getRow ownerId profileId db)"

definition create_row :: "vault \<Rightarrow> string \<Rightarrow> string \<Rightarrow> string \<Rightarrow> create_input \<Rightarrow> profile_row throws" where
  "create_row v ownerId newId now input =
     (let i = default_to newId (ci_id input); port = default_to 22 (ci_port input) in
      try_bind (assertOwnerId ownerId) (\<lambda>_.
      try_bind (assertRecordId i) (\<lambda>_.
      try_bind (target_throws (assertAllowedSshPort (of_int port) None)) (\<lambda>_.
      try_bind (validateEnum (ci_authKind input) AUTH_KINDS ''auth kind'') (\<lambda>authKind.
      let tailscale = (authKind = ''tailscale_ssh'') in
      try_bind (guard_that (\<not> (tailscale \<and> port \<noteq> 22)) ''Tailscale SSH profiles must use port 22'') (\<lambda>_.
      try_bind (guard_that (\<not> (tailscale \<and> (given (ci_password input) \<or> given (ci_privateKey input) \<or> given (ci_passphrase input))))
        ''Tailscale SSH profiles must not contain credentials'') (\<lambda>_.
      try_bind (if tailscale then Inr ''saved''
        else validateEnum (default_to ''saved'' (ci_credentialPersistence input)) PERSISTENCES ''credential persistence'') (\<lambda>persistence.
      try_bind (new_secret v ownerId i F_Password (ci_password input)) (\<lambda>password.
      try_bind (new_secret v ownerId i F_PrivateKey (ci_privateKey input)) (\<lambda>privateKey.
      try_bind (new_secret v ownerId i F_Passphrase (ci_passphrase input)) (\<lambda>passphrase.
      try_bind (validateText (ci_name input) ''name'' 100 False) (\<lambda>name.
      try_bind (target_throws (normalizeHost (ci_host input))) (\<lambda>host.
      try_bind (validateText (ci_username input) ''username'' 128 False) (\<lambda>username.
      try_bind (validateText (default_to [] (ci_notes input)) ''notes'' 4000 True) (\<lambda>notes.
      try_bind (case ci_initialCommand input of None \<Rightarrow> Inr None
          | Some c \<Rightarrow> map_sum (\<lambda>m. m) Some (validateText c ''initial command'' 8192 True)) (\<lambda>initialCommand.
      try_bind (validateEnum (default_to ''xterm-256color'' (ci_terminalType input)) TERMINAL_TYPES ''terminal type'') (\<lambda>terminalType.
      try_bind (validateEnum (default_to ''utf-8'' (ci_encoding input)) ENCODINGS ''encoding'') (\<lambda>encoding.
      Inr \<lparr>pr_id = i, pr_owner_id = ownerId, pr_name = name, pr_host = host, pr_port = port, pr_username = username,
        pr_auth_kind = (if tailscale then ''password'' else authKind), pr_tailscale_ssh = toInteger tailscale,
        pr_credential_persistence = persistence, pr_notes = notes, pr_initial_command = initialCommand,
        pr_terminal_type = terminalType, pr_encoding = encoding,
        pr_collect_history = toInteger (default_to True (ci_collectHistory input)),
        pr_password = envelope_columns password, pr_private_key = envelope_columns privateKey,
        pr_passphrase = envelope_columns passphrase, pr_last_connected_at = None, pr_last_connected_username = None,
        pr_last_host_fingerprint = None, pr_created_at = now, pr_updated_at = now\<rparr>))))))))))))))))))"

definition profile_create ::
  "vault \<Rightarrow> string \<Rightarrow> string \<Rightarrow> string \<Rightarrow> string \<Rightarrow> create_input \<Rightarrow> profile_db \<Rightarrow> profile_db \<times> profile_view throws" where
  "profile_create v violated ownerId newId now input db =
     (case try_bind (create_row v ownerId newId now input) (\<lambda>row. map_sum (\<lambda>m. m) (\<lambda>db'. (row, db')) (insert_profile violated row db)) of
        Inl m \<Rightarrow> (db, Inl m)
      | Inr (row, db') \<Rightarrow> (db', Inr (toView row)))"

text \<open>The row an update writes: the stored one with the fields the patch names.\<close>

definition patched :: "'a \<Rightarrow> 'a option \<Rightarrow> ('a \<Rightarrow> 'a throws) \<Rightarrow> 'a throws" where
  "patched old v validate = (case v of None \<Rightarrow> Inr old | Some x \<Rightarrow> validate x)"

definition update_row :: "vault \<Rightarrow> string \<Rightarrow> string \<Rightarrow> string \<Rightarrow> update_input \<Rightarrow> profile_row \<Rightarrow> profile_row throws" where
  "update_row v ownerId profileId now p row =
     (let port = default_to (pr_port row) (ui_port p) in
      try_bind (target_throws (assertAllowedSshPort (of_int port) None)) (\<lambda>_.
      try_bind (patched (profileAuthKind row) (ui_authKind p) (\<lambda>k. validateEnum k AUTH_KINDS ''auth kind'')) (\<lambda>authKind.
      let tailscale = (authKind = ''tailscale_ssh'') in
      try_bind (guard_that (\<not> (tailscale \<and> port \<noteq> 22)) ''Tailscale SSH profiles must use port 22'') (\<lambda>_.
      try_bind (guard_that (\<not> (tailscale \<and> (\<exists>s\<in>{ui_password p, ui_privateKey p, ui_passphrase p}. s \<noteq> None \<and> s \<noteq> Some None)))
        ''Tailscale SSH profiles must not contain credentials'') (\<lambda>_.
      try_bind (if tailscale then Inr None else resolveSecret v ownerId profileId F_Password (ui_password p) (fieldEnvelope row F_Password)) (\<lambda>password.
      try_bind (if tailscale then Inr None else resolveSecret v ownerId profileId F_PrivateKey (ui_privateKey p) (fieldEnvelope row F_PrivateKey)) (\<lambda>privateKey.
      try_bind (if tailscale then Inr None else resolveSecret v ownerId profileId F_Passphrase (ui_passphrase p) (fieldEnvelope row F_Passphrase)) (\<lambda>passphrase.
      try_bind (if tailscale then Inr ''saved''
        else validateEnum (default_to (pr_credential_persistence row) (ui_credentialPersistence p)) PERSISTENCES ''credential persistence'') (\<lambda>persistence.
      try_bind (patched (pr_name row) (ui_name p) (\<lambda>n. validateText n ''name'' 100 False)) (\<lambda>name.
      try_bind (patched (pr_host row) (ui_host p) (\<lambda>h. target_throws (normalizeHost h))) (\<lambda>host.
      try_bind (patched (pr_username row) (ui_username p) (\<lambda>n. validateText n ''username'' 128 False)) (\<lambda>username.
      try_bind (patched (pr_notes row) (ui_notes p) (\<lambda>n. validateText n ''notes'' 4000 True)) (\<lambda>notes.
      try_bind (patched (pr_initial_command row) (ui_initialCommand p)
          (\<lambda>c. case c of None \<Rightarrow> Inr None | Some c \<Rightarrow> map_sum (\<lambda>m. m) Some (validateText c ''initial command'' 8192 True))) (\<lambda>initialCommand.
      try_bind (patched (pr_terminal_type row) (ui_terminalType p) (\<lambda>t. validateEnum t TERMINAL_TYPES ''terminal type'')) (\<lambda>terminalType.
      try_bind (patched (pr_encoding row) (ui_encoding p) (\<lambda>e. validateEnum e ENCODINGS ''encoding'')) (\<lambda>encoding.
      Inr (row\<lparr>pr_name := name, pr_host := host, pr_port := port, pr_username := username,
        pr_auth_kind := (if tailscale then ''password'' else authKind), pr_tailscale_ssh := toInteger tailscale,
        pr_credential_persistence := persistence, pr_notes := notes, pr_initial_command := initialCommand,
        pr_terminal_type := terminalType, pr_encoding := encoding,
        pr_collect_history := (case ui_collectHistory p of None \<Rightarrow> pr_collect_history row | Some b \<Rightarrow> toInteger b),
        pr_password := envelope_columns password, pr_private_key := envelope_columns privateKey,
        pr_passphrase := envelope_columns passphrase, pr_updated_at := now\<rparr>)))))))))))))))))"

definition profile_update ::
  "vault \<Rightarrow> string \<Rightarrow> string \<Rightarrow> string \<Rightarrow> string \<Rightarrow> update_input \<Rightarrow> profile_db \<Rightarrow> profile_db \<times> profile_view option throws" where
  "profile_update v violated ownerId profileId now p db =
     (case getRow ownerId profileId db of
        Inl m \<Rightarrow> (db, Inl m)
      | Inr None \<Rightarrow> (db, Inr None)
      | Inr (Some row) \<Rightarrow>
          (case try_bind (update_row v ownerId profileId now p row) (\<lambda>updated. map_sum (\<lambda>m. m) (\<lambda>db'. (updated, db')) (update_profile violated updated db)) of
             Inl m \<Rightarrow> (db, Inl m)
           | Inr (updated, db') \<Rightarrow> (db', Inr (Some (toView updated)))))"

definition deleteIfNoActiveSessions :: "string \<Rightarrow> string \<Rightarrow> profile_db \<Rightarrow> profile_db \<times> bool" where
  "deleteIfNoActiveSessions ownerId profileId db =
     (if (profileId, ownerId) \<in> set (pd_active db) then (db, False)
      else (db\<lparr>pd_profiles := filter (\<lambda>r. \<not> selects ownerId profileId r) (pd_profiles db)\<rparr>,
            length (filter (selects ownerId profileId) (pd_profiles db)) = 1))"

definition open_secret :: "vault \<Rightarrow> string \<Rightarrow> string \<Rightarrow> profile_row \<Rightarrow> secret_field \<Rightarrow> string option throws" where
  "open_secret v ownerId profileId row f =
     (case fieldEnvelope row f of
        None \<Rightarrow> Inr None
      | Some env \<Rightarrow> map_sum (\<lambda>m. m) Some (decryptSecret (vt_platform v) (vt_masterKey v) env (secret_context ownerId profileId f)))"

definition getCredentials :: "vault \<Rightarrow> string \<Rightarrow> string \<Rightarrow> profile_db \<Rightarrow> profile_credentials option throws" where
  "getCredentials v ownerId profileId db =
     try_bind (getRow ownerId profileId db) (\<lambda>found.
       case found of
         None \<Rightarrow> Inr None
       | Some row \<Rightarrow>
           try_bind (open_secret v ownerId profileId row F_Password) (\<lambda>password.
           try_bind (open_secret v ownerId profileId row F_PrivateKey) (\<lambda>privateKey.
           try_bind (open_secret v ownerId profileId row F_Passphrase) (\<lambda>passphrase.
             Inr (Some \<lparr>pc_password = password, pc_privateKey = privateKey, pc_passphrase = passphrase\<rparr>)))))"

definition markConnected :: "string \<Rightarrow> string \<Rightarrow> string \<Rightarrow> string \<Rightarrow> string \<Rightarrow> profile_db \<Rightarrow> profile_db" where
  "markConnected ownerId profileId username fingerprint now db =
     db\<lparr>pd_profiles := map (\<lambda>r. if selects ownerId profileId r
          then r\<lparr>pr_last_connected_at := Some now, pr_last_connected_username := Some username,
                 pr_last_host_fingerprint := Some fingerprint, pr_updated_at := now\<rparr> else r) (pd_profiles db)\<rparr>"

section \<open>Requests of the API\<close>

datatype secret_mutation = Keep | Clear | Replace string

datatype credential_input =
    Password_Input string "string option"
  | Private_Key_Input string "string option" "string option" bool
  | Tailscale_Input

datatype credential_update =
    Password_Update string secret_mutation
  | Private_Key_Update string secret_mutation secret_mutation
  | Tailscale_Update

record profile_create_request =
  cq_name :: string
  cq_host :: string
  cq_port :: int
  cq_username :: string
  cq_notes :: string
  cq_initialCommand :: "string option"
  cq_terminalType :: string
  cq_encoding :: string
  cq_credential :: credential_input

definition create_from_request :: "profile_create_request \<Rightarrow> create_input" where
  "create_from_request q =
     \<lparr>ci_id = None, ci_name = cq_name q, ci_host = cq_host q, ci_port = Some (cq_port q), ci_username = cq_username q,
      ci_authKind = (case cq_credential q of Password_Input _ _ \<Rightarrow> ''password'' | Private_Key_Input _ _ _ _ \<Rightarrow> ''private_key''
        | Tailscale_Input \<Rightarrow> ''tailscale_ssh''),
      ci_credentialPersistence = Some (case cq_credential q of Password_Input s _ \<Rightarrow> s | Private_Key_Input s _ _ _ \<Rightarrow> s
        | Tailscale_Input \<Rightarrow> ''none''),
      ci_notes = Some (cq_notes q), ci_initialCommand = cq_initialCommand q, ci_terminalType = Some (cq_terminalType q),
      ci_encoding = Some (cq_encoding q), ci_collectHistory = None,
      ci_password = (case cq_credential q of Password_Input s p \<Rightarrow> if s = ''saved'' then p else None | _ \<Rightarrow> None),
      ci_privateKey = (case cq_credential q of Private_Key_Input s k _ _ \<Rightarrow> if s = ''saved'' then k else None | _ \<Rightarrow> None),
      ci_passphrase = (case cq_credential q of
        Private_Key_Input s _ pp savePassphrase \<Rightarrow> if s = ''saved'' \<and> savePassphrase then pp else None | _ \<Rightarrow> None)\<rparr>"

record profile_update_request =
  uq_name :: "string option"
  uq_host :: "string option"
  uq_port :: "int option"
  uq_username :: "string option"
  uq_notes :: "string option"
  uq_initialCommand :: "string option option"
  uq_terminalType :: "string option"
  uq_encoding :: "string option"
  uq_credential :: "credential_update option"

fun mutation :: "secret_mutation \<Rightarrow> string option option" where
  "mutation Keep = None"
| "mutation Clear = Some None"
| "mutation (Replace s) = Some (Some s)"

definition update_from_request :: "profile_update_request \<Rightarrow> update_input" where
  "update_from_request q =
     (let p = \<lparr>ui_name = uq_name q, ui_host = uq_host q, ui_port = uq_port q, ui_username = uq_username q, ui_authKind = None,
        ui_credentialPersistence = None, ui_notes = uq_notes q, ui_initialCommand = uq_initialCommand q,
        ui_terminalType = uq_terminalType q, ui_encoding = uq_encoding q, ui_collectHistory = None,
        ui_password = None, ui_privateKey = None, ui_passphrase = None\<rparr>;
          cleared = (\<lambda>k s. p\<lparr>ui_authKind := Some k, ui_credentialPersistence := Some s, ui_password := Some None,
        ui_privateKey := Some None, ui_passphrase := Some None\<rparr>) in
      case uq_credential q of
        None \<Rightarrow> p
      | Some Tailscale_Update \<Rightarrow> cleared ''tailscale_ssh'' ''none''
      | Some (Password_Update s m) \<Rightarrow>
          if s = ''prompt'' then cleared ''password'' s else (cleared ''password'' s)\<lparr>ui_password := mutation m\<rparr>
      | Some (Private_Key_Update s k pp) \<Rightarrow>
          if s = ''prompt'' then cleared ''private_key'' s
          else (cleared ''private_key'' s)\<lparr>ui_privateKey := mutation k, ui_passphrase := mutation pp\<rparr>)"

definition createFromRequest ::
  "vault \<Rightarrow> string \<Rightarrow> string \<Rightarrow> string \<Rightarrow> string \<Rightarrow> profile_create_request \<Rightarrow> profile_db \<Rightarrow> profile_db \<times> profile_view throws" where
  "createFromRequest v violated ownerId newId now q db = profile_create v violated ownerId newId now (create_from_request q) db"

definition updateFromRequest ::
  "vault \<Rightarrow> string \<Rightarrow> string \<Rightarrow> string \<Rightarrow> string \<Rightarrow> profile_update_request \<Rightarrow> profile_db \<Rightarrow> profile_db \<times> profile_view option throws" where
  "updateFromRequest v violated ownerId profileId now q db =
     profile_update v violated ownerId profileId now (update_from_request q) db"

end
