(* ===== verification/Profile_Facts.thy ===== *)
theory Profile_Facts
  imports Profile_Repository
begin

text \<open>
  The listings of profiles and what the repository promises: pages that hold every profile once, and credentials that an
  update keeps, clears or replaces as it says, in the profile it names and in no other.
\<close>

section \<open>Listings\<close>

definition row_key :: "profile_row \<Rightarrow> string \<times> string" where
  "row_key r = (pr_updated_at r, pr_id r)"

definition row_cursor :: "profile_row \<Rightarrow> time_cursor" where
  "row_cursor r = \<lparr>tc_createdAt = pr_updated_at r, tc_id = pr_id r\<rparr>"

definition owned :: "string \<Rightarrow> profile_db \<Rightarrow> profile_row list" where
  "owned ownerId db = filter (\<lambda>r. pr_owner_id r = ownerId) (pd_profiles db)"

definition profile_list :: "string \<Rightarrow> rat \<Rightarrow> profile_db \<Rightarrow> profile_view list throws" where
  "profile_list ownerId limit db =
     try_bind (assertOwnerId ownerId) (\<lambda>_. Inr (map toView (keyset_query row_key (bounded_limit 500 limit) None (owned ownerId db))))"

definition listPage :: "(string \<Rightarrow> bool) \<Rightarrow> string \<Rightarrow> rat \<Rightarrow> string option \<Rightarrow> profile_db \<Rightarrow> profile_view page throws" where
  "listPage is_date ownerId limit cursorValue db =
     try_bind (assertOwnerId ownerId) (\<lambda>_.
     let bounded = bounded_limit 100 limit in
     try_bind (decodeTimeCursor is_date cursorValue) (\<lambda>cursor.
       Inr (make_page toView row_cursor bounded (keyset_query row_key (bounded + 1) cursor (owned ownerId db)))))"

fun each :: "('a \<Rightarrow> 'b throws) \<Rightarrow> 'a list \<Rightarrow> 'b list throws" where
  "each f [] = Inr []"
| "each f (x # xs) = try_bind (f x) (\<lambda>y. map_sum (\<lambda>m. m) ((#) y) (each f xs))"

definition target_of :: "profile_row \<Rightarrow> profile_target throws" where
  "target_of r = map_sum (\<lambda>m. m) (\<lambda>h. \<lparr>pt_host = h, pt_port = pr_port r, pt_username = pr_username r\<rparr>)
     (target_throws (normalizeHost (pr_host r)))"

definition listTargetsByHosts :: "string \<Rightarrow> string list \<Rightarrow> profile_db \<Rightarrow> profile_target list throws" where
  "listTargetsByHosts ownerId hosts db =
     try_bind (assertOwnerId ownerId) (\<lambda>_.
     try_bind (each (\<lambda>h. target_throws (normalizeHost h)) hosts) (\<lambda>normalized.
       if remdups normalized = [] then Inr []
       else if length (remdups normalized) > 50 then Inl ''Too many profile target hosts''
       else each target_of (filter (\<lambda>r. pr_host r \<in> set normalized) (owned ownerId db))))"

text \<open>
  The rows a listing relies on: identifiers are unique (the primary key), are UUIDs, and times are written by
  \<open>toISOString\<close>, which \<open>Date.parse\<close> reads.
\<close>

definition profiles_ok :: "(string \<Rightarrow> bool) \<Rightarrow> string \<Rightarrow> profile_db \<Rightarrow> bool" where
  "profiles_ok is_date ownerId db \<longleftrightarrow> assertOwnerId ownerId = Inr () \<and> distinct (map pr_id (pd_profiles db)) \<and>
     list_all (\<lambda>r. is_date (pr_updated_at r) \<and> is_cursor_id (pr_id r)) (owned ownerId db)"

lemma distinct_row_keys: "distinct (map pr_id rows) \<Longrightarrow> distinct (map row_key rows)"
  by (auto simp: distinct_map inj_on_def row_key_def)

interpretation profile_pages: keyset_listing row_key row_cursor toView "profiles_ok is_date ownerId" "owned ownerId"
  "bounded_limit 100 limit" "\<lambda>db cursor. listPage is_date ownerId limit cursor db"
  for is_date ownerId limit
proof
  show "1 \<le> bounded_limit 100 limit" using bounded_limit_range by simp
next
  fix db assume ok: "profiles_ok is_date ownerId db"
  show "distinct (map row_key (owned ownerId db))"
    using ok by (auto simp: profiles_ok_def owned_def intro!: distinct_row_keys distinct_map_filter)
  show "listPage is_date ownerId limit None db =
      Inr (make_page toView row_cursor (bounded_limit 100 limit) (keyset_query row_key (bounded_limit 100 limit + 1) None (owned ownerId db)))"
    using ok by (simp add: listPage_def profiles_ok_def decodeTimeCursor_def try_bind_def Let_def)
  fix r assume r: "r \<in> set (owned ownerId db)"
  show "row_key r = (tc_createdAt (row_cursor r), tc_id (row_cursor r))" by (simp add: row_key_def row_cursor_def)
  have "decodeTimeCursor is_date (Some (encodeTimeCursor (row_cursor r))) = Inr (Some (row_cursor r))"
    using ok r by (intro decode_encodeTimeCursor) (auto simp: profiles_ok_def list_all_iff row_cursor_def)
  then show "listPage is_date ownerId limit (Some (encodeTimeCursor (row_cursor r))) db =
      Inr (make_page toView row_cursor (bounded_limit 100 limit)
        (keyset_query row_key (bounded_limit 100 limit + 1) (Some (row_cursor r)) (owned ownerId db)))"
    using ok by (simp add: listPage_def profiles_ok_def try_bind_def Let_def)
qed

text \<open>
  Whatever limit a client asks for, following the cursors of the profile listing from the start ends and yields every
  profile of the owner exactly once, the last changed first.
\<close>

theorem profile_pages_complete:
  assumes "profiles_ok is_date ownerId db"
  shows "follow_pages (Suc (length (owned ownerId db))) (\<lambda>cursor. listPage is_date ownerId limit cursor db) None =
    Some (map toView (order_desc row_key (owned ownerId db)))"
  by (rule profile_pages.pages_complete [OF assms])

section \<open>Credentials\<close>

definition changed :: "string option \<Rightarrow> secret_mutation \<Rightarrow> string option" where
  "changed old m = (case m of Keep \<Rightarrow> old | Clear \<Rightarrow> None | Replace s \<Rightarrow> if s = [] then old else Some s)"

definition no_credentials :: profile_credentials where
  "no_credentials = \<lparr>pc_password = None, pc_privateKey = None, pc_passphrase = None\<rparr>"

text \<open>The credentials an update request promises; \<open>kind\<close> is the method the profile has afterwards.\<close>

definition changed_credentials :: "credential_update option \<Rightarrow> string \<Rightarrow> profile_credentials \<Rightarrow> profile_credentials" where
  "changed_credentials u kind old =
     (case u of
        None \<Rightarrow> if kind = ''tailscale_ssh'' then no_credentials else old
      | Some Tailscale_Update \<Rightarrow> no_credentials
      | Some (Password_Update s m) \<Rightarrow>
          if s = ''prompt'' then no_credentials else no_credentials\<lparr>pc_password := changed (pc_password old) m\<rparr>
      | Some (Private_Key_Update s k pp) \<Rightarrow>
          if s = ''prompt'' then no_credentials
          else no_credentials\<lparr>pc_privateKey := changed (pc_privateKey old) k, pc_passphrase := changed (pc_passphrase old) pp\<rparr>)"

definition opened :: "vault \<Rightarrow> string \<Rightarrow> string \<Rightarrow> secret_field \<Rightarrow> envelope option \<Rightarrow> string option throws" where
  "opened v ownerId profileId f e =
     (case e of None \<Rightarrow> Inr None
      | Some env \<Rightarrow> map_sum (\<lambda>m. m) Some (decryptSecret (vt_platform v) (vt_masterKey v) env (secret_context ownerId profileId f)))"

lemma open_secret_opened: "open_secret v ownerId profileId row f = opened v ownerId profileId f (fieldEnvelope row f)"
  by (simp add: open_secret_def opened_def split: option.splits)

definition vault_ok :: "vault \<Rightarrow> bool" where
  "vault_ok v \<longleftrightarrow> aead_law (vt_platform v) \<and> (\<forall>f. length (vt_iv v f) = 12)"

lemma store_secret_opened:
  assumes "vault_ok v" "store_secret v ownerId profileId f s = Inr env"
  shows "opened v ownerId profileId f (Some env) = Inr (Some s)" "env_version env = 1"
proof -
  have "decryptSecret (vt_platform v) (vt_masterKey v) env (secret_context ownerId profileId f) = Inr s"
    using assms by (intro decryptSecret_of_encrypted) (auto simp: vault_ok_def store_secret_def)
  then show "opened v ownerId profileId f (Some env) = Inr (Some s)" by (simp add: opened_def)
  show "env_version env = 1"
    using assms(2) by (auto simp: store_secret_def encryptSecret_Inr CREDENTIAL_ENVELOPE_VERSION_def)
qed

lemma resolveSecret_opened:
  assumes "vault_ok v" "resolveSecret v ownerId profileId f nextValue existing = Inr e" "opened v ownerId profileId f existing = Inr old"
    "\<And>x. existing = Some x \<Longrightarrow> env_version x = 1"
  shows "opened v ownerId profileId f e = Inr (case nextValue of None \<Rightarrow> old | Some None \<Rightarrow> None
      | Some (Some s) \<Rightarrow> if s = [] then old else Some s)" "\<And>x. e = Some x \<Longrightarrow> env_version x = 1"
  using assms store_secret_opened [OF assms(1)]
  by (auto simp: resolveSecret_def map_sum_Inr opened_def split: option.splits if_splits)

lemma fieldEnvelope_version: "fieldEnvelope r f = Some x \<Longrightarrow> env_version x = 1"
  by (auto simp: fieldEnvelope_def split: option.splits if_splits)

lemma fieldEnvelope_columns:
  assumes "columns_of f r = envelope_columns e" "\<And>x. e = Some x \<Longrightarrow> env_version x = 1"
  shows "fieldEnvelope r f = e"
  using assms by (cases e) (auto simp: fieldEnvelope_def envelope_columns_def)

lemma patched_Some [simp]: "patched old (Some x) f = f x"
  by (simp add: patched_def)

lemma validateEnum_Inr: "validateEnum v allowed field = Inr w \<longleftrightarrow> v \<in> set allowed \<and> w = v"
  by (auto simp: validateEnum_def)

text \<open>What an accepted patch does to the identity, the method and the secrets of the row.\<close>

lemma update_row_Inr:
  assumes "update_row v ownerId profileId now p row = Inr u"
  obtains kind pw pk pp where
    "patched (profileAuthKind row) (ui_authKind p) (\<lambda>k. validateEnum k AUTH_KINDS ''auth kind'') = Inr kind"
    "(if kind = ''tailscale_ssh'' then Inr None
      else resolveSecret v ownerId profileId F_Password (ui_password p) (fieldEnvelope row F_Password)) = Inr pw"
    "(if kind = ''tailscale_ssh'' then Inr None
      else resolveSecret v ownerId profileId F_PrivateKey (ui_privateKey p) (fieldEnvelope row F_PrivateKey)) = Inr pk"
    "(if kind = ''tailscale_ssh'' then Inr None
      else resolveSecret v ownerId profileId F_Passphrase (ui_passphrase p) (fieldEnvelope row F_Passphrase)) = Inr pp"
    "pr_id u = pr_id row" "pr_owner_id u = pr_owner_id row" "profileAuthKind u = kind"
    "columns_of F_Password u = envelope_columns pw" "columns_of F_PrivateKey u = envelope_columns pk"
    "columns_of F_Passphrase u = envelope_columns pp"
  using assms unfolding update_row_def Let_def try_bind_eq_Inr sum.inject
  by (elim exE conjE) (rule that, assumption+, auto simp: profileAuthKind_def toInteger_def split: if_splits)

lemma update_row_ids:
  assumes "update_row v ownerId profileId now p row = Inr u"
  shows "pr_id u = pr_id row" "pr_owner_id u = pr_owner_id row"
  by (rule update_row_Inr [OF assms], assumption)+

lemma find_updated:
  assumes "find (selects o1 p1) rows = Some row" "pr_id u = p1" "pr_owner_id u = o1"
  shows "find (selects o1 p1) (map (\<lambda>r. if selects o1 p1 r then u else r) rows) = Some u"
  using assms by (induction rows) (auto simp: selects_def split: if_splits)

lemma find_others:
  assumes "pr_id u = p1" "pr_owner_id u = o1" "(o1, p1) \<noteq> (o2, p2)"
  shows "find (selects o2 p2) (map (\<lambda>r. if selects o1 p1 r then u else r) rows) = find (selects o2 p2) rows"
  using assms by (induction rows) (auto simp: selects_def)

lemma getRow_Inr:
  "getRow ownerId profileId db = Inr r \<longleftrightarrow> assertOwnerId ownerId = Inr () \<and> assertRecordId profileId = Inr () \<and>
     r = find (selects ownerId profileId) (pd_profiles db)"
  by (auto simp: getRow_def try_bind_eq_Inr)

lemma find_selects: "find (selects o1 p1) rows = Some r \<Longrightarrow> pr_id r = p1 \<and> pr_owner_id r = o1"
  by (auto simp: find_Some_iff selects_def)

lemma profile_update_Inr:
  assumes "profile_update v violated ownerId profileId now p db = (db', Inr (Some view))"
  obtains row u where "getRow ownerId profileId db = Inr (Some row)" "update_row v ownerId profileId now p row = Inr u"
    "getRow ownerId profileId db' = Inr (Some u)" "view = toView u"
    "\<And>o2 p2. (o2, p2) \<noteq> (ownerId, profileId) \<Longrightarrow> getRow o2 p2 db' = getRow o2 p2 db"
proof -
  obtain row u where f: "getRow ownerId profileId db = Inr (Some row)" "update_row v ownerId profileId now p row = Inr u"
      "update_profile violated u db = Inr db'" "view = toView u"
    using assms by (auto simp: profile_update_def try_bind_eq_Inr map_sum_Inr split: sum.splits option.splits)
  have u: "pr_id u = profileId" "pr_owner_id u = ownerId"
    using update_row_ids [OF f(2)] f(1) find_selects [of ownerId profileId "pd_profiles db" row] by (auto simp: getRow_Inr)
  have db': "pd_profiles db' = map (\<lambda>r. if selects ownerId profileId r then u else r) (pd_profiles db)"
    using f(3) u by (auto simp: update_profile_def split: if_splits)
  have found: "find (selects ownerId profileId) (pd_profiles db) = Some row" using f(1) unfolding getRow_Inr by simp
  have "getRow ownerId profileId db' = Inr (Some u)"
    using f(1) find_updated [OF found u] unfolding getRow_Inr db' by simp
  moreover have "getRow o2 p2 db' = getRow o2 p2 db" if "(o2, p2) \<noteq> (ownerId, profileId)" for o2 p2
    using find_others [OF u that [symmetric]] by (simp add: getRow_def db')
  ultimately show ?thesis using that f by blast
qed

lemma getCredentials_Inr:
  "getCredentials v ownerId profileId db = Inr (Some c) \<longleftrightarrow>
    (\<exists>row. getRow ownerId profileId db = Inr (Some row) \<and>
      opened v ownerId profileId F_Password (fieldEnvelope row F_Password) = Inr (pc_password c) \<and>
      opened v ownerId profileId F_PrivateKey (fieldEnvelope row F_PrivateKey) = Inr (pc_privateKey c) \<and>
      opened v ownerId profileId F_Passphrase (fieldEnvelope row F_Passphrase) = Inr (pc_passphrase c))"
  by (cases c) (auto simp: getCredentials_def try_bind_eq_Inr open_secret_opened split: option.splits)

text \<open>One secret, before and after: the field opens to what the patch says.\<close>

lemma secret_after:
  assumes "vault_ok v" "columns_of f u = envelope_columns e" "opened v ownerId profileId f (fieldEnvelope row f) = Inr old"
    "(if kind = ''tailscale_ssh'' then Inr None else resolveSecret v ownerId profileId f nextValue (fieldEnvelope row f)) = Inr e"
  shows "opened v ownerId profileId f (fieldEnvelope u f) = Inr (if kind = ''tailscale_ssh'' then None
    else case nextValue of None \<Rightarrow> old | Some None \<Rightarrow> None | Some (Some s) \<Rightarrow> if s = [] then old else Some s)"
proof (cases "kind = ''tailscale_ssh''")
  case True
  with assms(2,4) have "fieldEnvelope u f = None" by (intro fieldEnvelope_columns) auto
  with True show ?thesis by (simp add: opened_def)
next
  case False
  with assms(4) have r: "resolveSecret v ownerId profileId f nextValue (fieldEnvelope row f) = Inr e" by simp
  have "fieldEnvelope row f = Some x \<Longrightarrow> env_version x = 1" for x by (rule fieldEnvelope_version)
  note o = resolveSecret_opened [OF assms(1) r assms(3) this]
  have "fieldEnvelope u f = e" by (rule fieldEnvelope_columns [OF assms(2)]) (rule o(2))
  with o(1) False show ?thesis by simp
qed

text \<open>
  C14: An accepted update of a profile leaves exactly the credentials it promises, kept, cleared or replaced as requested,
  cleared when the profile asks each time or uses Tailscale SSH, and it touches the credentials of no other profile.
\<close>

theorem update_changes_credentials:
  assumes "vault_ok v" "getCredentials v ownerId profileId db = Inr (Some old)"
    "updateFromRequest v violated ownerId profileId now q db = (db', Inr (Some view))"
  shows "getCredentials v ownerId profileId db' =
      Inr (Some (changed_credentials (uq_credential q) (pv_authenticationMethod view) old)) \<and>
    (\<forall>o2 p2. (o2, p2) \<noteq> (ownerId, profileId) \<longrightarrow> getCredentials v o2 p2 db' = getCredentials v o2 p2 db)"
proof -
  let ?p = "update_from_request q"
  obtain row u where f: "getRow ownerId profileId db = Inr (Some row)" "update_row v ownerId profileId now ?p row = Inr u"
    "getRow ownerId profileId db' = Inr (Some u)" "view = toView u"
    "\<And>o2 p2. (o2, p2) \<noteq> (ownerId, profileId) \<Longrightarrow> getRow o2 p2 db' = getRow o2 p2 db"
    by (rule profile_update_Inr [OF assms(3) [unfolded updateFromRequest_def]]) (rule that)
  obtain kind pw pk pp where u: "patched (profileAuthKind row) (ui_authKind ?p) (\<lambda>k. validateEnum k AUTH_KINDS ''auth kind'') = Inr kind"
    "(if kind = ''tailscale_ssh'' then Inr None
      else resolveSecret v ownerId profileId F_Password (ui_password ?p) (fieldEnvelope row F_Password)) = Inr pw"
    "(if kind = ''tailscale_ssh'' then Inr None
      else resolveSecret v ownerId profileId F_PrivateKey (ui_privateKey ?p) (fieldEnvelope row F_PrivateKey)) = Inr pk"
    "(if kind = ''tailscale_ssh'' then Inr None
      else resolveSecret v ownerId profileId F_Passphrase (ui_passphrase ?p) (fieldEnvelope row F_Passphrase)) = Inr pp"
    "profileAuthKind u = kind" "columns_of F_Password u = envelope_columns pw" "columns_of F_PrivateKey u = envelope_columns pk"
    "columns_of F_Passphrase u = envelope_columns pp"
    by (rule update_row_Inr [OF f(2)]) (rule that)
  have old: "opened v ownerId profileId F_Password (fieldEnvelope row F_Password) = Inr (pc_password old)"
    "opened v ownerId profileId F_PrivateKey (fieldEnvelope row F_PrivateKey) = Inr (pc_privateKey old)"
    "opened v ownerId profileId F_Passphrase (fieldEnvelope row F_Passphrase) = Inr (pc_passphrase old)"
    using assms(2) f(1) by (auto simp: getCredentials_Inr)
  have view: "pv_authenticationMethod view = kind" using f(4) u(5) by (simp add: toView_def)
  have "opened v ownerId profileId F_Password (fieldEnvelope u F_Password) = Inr (pc_password (changed_credentials (uq_credential q) kind old))"
    "opened v ownerId profileId F_PrivateKey (fieldEnvelope u F_PrivateKey) = Inr (pc_privateKey (changed_credentials (uq_credential q) kind old))"
    "opened v ownerId profileId F_Passphrase (fieldEnvelope u F_Passphrase) = Inr (pc_passphrase (changed_credentials (uq_credential q) kind old))"
    unfolding secret_after [OF assms(1) u(6) old(1) u(2)] secret_after [OF assms(1) u(7) old(2) u(3)]
      secret_after [OF assms(1) u(8) old(3) u(4)]
    using u(1)
    by (auto simp: update_from_request_def changed_credentials_def no_credentials_def changed_def validateEnum_Inr Let_def
        split: option.splits credential_update.splits secret_mutation.splits if_splits)
  then have "getCredentials v ownerId profileId db' = Inr (Some (changed_credentials (uq_credential q) kind old))"
    using f(3) by (simp add: getCredentials_Inr)
  moreover have "getCredentials v o2 p2 db' = getCredentials v o2 p2 db" if "(o2, p2) \<noteq> (ownerId, profileId)" for o2 p2
    using f(5) [OF that] by (simp add: getCredentials_def)
  ultimately show ?thesis using view by blast
qed

section \<open>Witnesses\<close>

definition demo_vault :: vault where
  "demo_vault = \<lparr>vt_platform = demo_aead, vt_masterKey = Some demo_master_key, vt_iv = (\<lambda>f. replicate 12 0)\<rparr>"

lemma demo_vault_ok: "vault_ok demo_vault"
  by (simp add: vault_ok_def demo_vault_def demo_aead_law)

definition demo_row :: profile_row where
  "demo_row = \<lparr>pr_id = replicate 36 CHR ''a'', pr_owner_id = ''o'', pr_name = ''n'', pr_host = ''h'', pr_port = 22, pr_username = ''u'',
     pr_auth_kind = ''password'', pr_tailscale_ssh = 0, pr_credential_persistence = ''saved'', pr_notes = [], pr_initial_command = None,
     pr_terminal_type = ''xterm'', pr_encoding = ''utf-8'', pr_collect_history = 1, pr_password = envelope_columns None,
     pr_private_key = envelope_columns None, pr_passphrase = envelope_columns None, pr_last_connected_at = None,
     pr_last_connected_username = None, pr_last_host_fingerprint = None, pr_created_at = ''t'', pr_updated_at = ''t''\<rparr>"

definition demo_profiles :: profile_db where
  "demo_profiles = \<lparr>pd_profiles = [demo_row, demo_row\<lparr>pr_id := replicate 36 CHR ''b'', pr_host := ''g''\<rparr>], pd_active = []\<rparr>"

lemma profile_pages_complete_witness:
  "map_option (map pv_id) (follow_pages 3 (\<lambda>cursor. listPage (\<lambda>d. True) ''o'' 1 cursor demo_profiles) None) =
    Some [replicate 36 CHR ''b'', replicate 36 CHR ''a'']"
proof -
  have ok: "profiles_ok (\<lambda>d. True) ''o'' demo_profiles"
    by (simp add: profiles_ok_def demo_profiles_def demo_row_def owned_def assertOwnerId_def guard_that_def is_cursor_id_def
        list_all_iff is_hex_def is_hex_lower_def in_range_def)
  have "Suc (length (owned ''o'' demo_profiles)) = 3" by (simp add: owned_def demo_profiles_def demo_row_def)
  moreover have "map pv_id (map toView (order_desc row_key (owned ''o'' demo_profiles))) = [replicate 36 CHR ''b'', replicate 36 CHR ''a'']"
    by code_simp
  ultimately show ?thesis using profile_pages_complete [OF ok, of 1] by simp
qed

definition demo_update :: profile_update_request where
  "demo_update = \<lparr>uq_name = None, uq_host = None, uq_port = None, uq_username = None, uq_notes = None, uq_initialCommand = None,
     uq_terminalType = None, uq_encoding = None, uq_credential = Some (Password_Update ''saved'' (Replace ''s''))\<rparr>"

lemma demo_credentials:
  "getCredentials demo_vault ''o'' (replicate 36 CHR ''a'') demo_profiles = Inr (Some no_credentials)"
  by (simp add: getCredentials_Inr getRow_Inr demo_profiles_def demo_row_def selects_def assertOwnerId_def assertRecordId_def
      guard_that_def fieldEnvelope_def envelope_columns_def opened_def no_credentials_def)

lemma demo_updated:
  "\<exists>db' view. updateFromRequest demo_vault ''v'' ''o'' (replicate 36 CHR ''a'') ''t'' demo_update demo_profiles = (db', Inr (Some view))"
proof -
  have "case updateFromRequest demo_vault ''v'' ''o'' (replicate 36 CHR ''a'') ''t'' demo_update demo_profiles of
      (db', Inr (Some view)) \<Rightarrow> True | _ \<Rightarrow> False"
    by code_simp
  then show ?thesis by (auto split: prod.splits sum.splits option.splits)
qed

lemma update_changes_credentials_witness:
  "\<exists>db' view. updateFromRequest demo_vault ''v'' ''o'' (replicate 36 CHR ''a'') ''t'' demo_update demo_profiles = (db', Inr (Some view)) \<and>
    getCredentials demo_vault ''o'' (replicate 36 CHR ''a'') db' = Inr (Some \<lparr>pc_password = Some ''s'', pc_privateKey = None, pc_passphrase = None\<rparr>)"
proof -
  obtain db' view where u: "updateFromRequest demo_vault ''v'' ''o'' (replicate 36 CHR ''a'') ''t'' demo_update demo_profiles = (db', Inr (Some view))"
    using demo_updated by blast
  have "changed_credentials (uq_credential demo_update) k no_credentials = \<lparr>pc_password = Some ''s'', pc_privateKey = None, pc_passphrase = None\<rparr>" for k
    by (simp add: demo_update_def changed_credentials_def no_credentials_def changed_def)
  then show ?thesis using update_changes_credentials [OF demo_vault_ok demo_credentials u] u by auto
qed

end
