(* ===== verification/Totp.thy ===== *)
theory Totp
  imports Encoding
begin

text \<open>
  Two-factor codes: \<open>apps/worker/src/auth/totp.ts\<close>. The base32 loops keep their accumulator in a 32-bit integer, as the
  bit operators of JavaScript do; the lemmas relate it to the bits it stands for. HMAC-SHA-1 is the argument \<open>hmac\<close>.
\<close>

unbundle bit_operations_syntax

section \<open>Base32\<close>

definition BASE32_ALPHABET :: string where "BASE32_ALPHABET = ''ABCDEFGHIJKLMNOPQRSTUVWXYZ234567''"

text \<open>The inner \<open>while (bits >= 5)\<close>: the characters written and the bits left.\<close>

fun emit_quintets :: "nat \<Rightarrow> 32 word \<Rightarrow> string \<times> nat" where
  "emit_quintets bits v =
     (if 5 \<le> bits
      then case emit_quintets (bits - 5) v of (s, b) \<Rightarrow> ((BASE32_ALPHABET ! unat (drop_bit (bits - 5) v AND 31)) # s, b)
      else ([], bits))"

declare emit_quintets.simps [simp del]

fun encode_loop :: "bytes \<Rightarrow> nat \<Rightarrow> 32 word \<Rightarrow> string" where
  "encode_loop [] bits v = (if bits > 0 then [BASE32_ALPHABET ! unat (push_bit (5 - bits) v AND 31)] else [])"
| "encode_loop (b # bs) bits v =
     (let v = push_bit 8 v OR ucast b in
      case emit_quintets (bits + 8) v of (s, bits) \<Rightarrow> s @ encode_loop bs bits v)"

definition base32Encode :: "bytes \<Rightarrow> string" where
  "base32Encode bs = encode_loop bs 0 0"

fun index_of :: "char \<Rightarrow> string \<Rightarrow> nat option" where
  "index_of c [] = None"
| "index_of c (d # s) = (if c = d then Some 0 else map_option Suc (index_of c s))"

fun decode_loop :: "string \<Rightarrow> nat \<Rightarrow> 32 word \<Rightarrow> bytes throws" where
  "decode_loop [] bits v =
     (if bits > 0 \<and> v AND (push_bit bits 1 - 1) \<noteq> 0 then Inl ''Non-canonical base32 secret'' else Inr [])"
| "decode_loop (c # cs) bits v =
     (case index_of c BASE32_ALPHABET of
        None \<Rightarrow> Inl ''Invalid base32 secret''
      | Some i \<Rightarrow>
          let v = push_bit 5 v OR of_nat i in
          if 8 \<le> bits + 5
          then map_sum (\<lambda>m. m) ((#) (ucast (drop_bit (bits + 5 - 8) v AND 255))) (decode_loop cs (bits + 5 - 8) v)
          else decode_loop cs (bits + 5) v)"

text \<open>
  \<open>toUpperCase\<close> on the code units of the model: the sharp s (U+00DF) becomes two letters; the accented letters are no
  base32 characters before or after and stay as they are.
\<close>

definition upper_chars :: "char \<Rightarrow> string" where
  "upper_chars c = (if is_lower c then [char_of (cu c - 32)] else if cu c = 223 then ''SS'' else [c])"

definition clean_secret :: "string \<Rightarrow> string" where
  "clean_secret secret = concat (map upper_chars (filter (\<lambda>c. \<not> is_ws c) (rev (dropWhile (\<lambda>c. c = CHR ''='') (rev secret)))))"

definition base32Decode :: "string \<Rightarrow> bytes throws" where
  "base32Decode secret = (if clean_secret secret = [] then Inl ''Invalid base32 secret'' else decode_loop (clean_secret secret) 0 0)"

section \<open>The bits of the accumulator\<close>

definition low_bits :: "nat \<Rightarrow> 'a :: len word \<Rightarrow> bool list" where
  "low_bits n w = map (\<lambda>i. bit w (n - 1 - i)) [0..<n]"

lemma length_low_bits [simp]: "length (low_bits n w) = n"
  by (simp add: low_bits_def)

lemma low_bits_nth: "i < n \<Longrightarrow> low_bits n w ! i = bit w (n - 1 - i)"
  by (simp add: low_bits_def)

lemma low_bits_eqI: "(\<And>i. i < n \<Longrightarrow> bit v i = bit w i) \<Longrightarrow> low_bits n v = low_bits n w"
  by (simp add: low_bits_def)

lemma low_bits_eqD: "low_bits n v = low_bits n w \<Longrightarrow> i < n \<Longrightarrow> bit v i = bit w i"
  by (drule arg_cong [where f = "\<lambda>l. l ! (n - 1 - i)"]) (simp add: low_bits_nth)

lemma low_bits_split: "low_bits (m + n) w = low_bits m (drop_bit n w) @ low_bits n w"
  by (rule nth_equalityI) (auto simp: low_bits_nth nth_append bit_drop_bit_eq ac_simps)

lemma bit_push_or: "bit (push_bit n v OR u) i \<longleftrightarrow> (n \<le> i \<and> i < LENGTH('a) \<and> bit v (i - n)) \<or> bit u i"
  for v u :: "'a :: len word"
  by (auto simp: bit_or_iff bit_push_bit_iff dest: bit_imp_le_length)

lemma low_bits_push_or:
  assumes "b + n \<le> LENGTH('a)" "\<And>i. n \<le> i \<Longrightarrow> \<not> bit u i"
  shows "low_bits (b + n) (push_bit n v OR u :: 'a :: len word) = low_bits b v @ low_bits n u"
proof -
  have "low_bits b (drop_bit n (push_bit n v OR u)) = low_bits b v"
    unfolding low_bits_def bit_drop_bit_eq using assms by (auto simp: bit_push_or)
  moreover have "low_bits n (push_bit n v OR u) = low_bits n u"
    using assms by (intro low_bits_eqI) (auto simp: bit_push_or)
  ultimately show ?thesis by (simp add: low_bits_split)
qed

lemma bit_and_mask: "bit (w AND (2 ^ n - 1)) i \<longleftrightarrow> i < n \<and> bit w i" for w :: "'a :: len word"
  by (auto simp: bit_and_iff mask_eq_exp_minus_1 [symmetric] bit_mask_iff dest: bit_imp_le_length)

lemma bit_and_31: "bit (w AND 31) i \<longleftrightarrow> i < 5 \<and> bit w i" for w :: "'a :: len word"
  using bit_and_mask [of w 5 i] by simp

lemma bit_and_255: "bit (w AND 255) i \<longleftrightarrow> i < 8 \<and> bit w i" for w :: "'a :: len word"
  using bit_and_mask [of w 8 i] by simp

lemma and_31_less: "unat (w AND 31 :: 32 word) < 32"
proof -
  have "w AND 31 \<le> 31" by (rule word_and_le1)
  then show ?thesis by (simp add: word_le_nat_alt)
qed

lemma low_bits_0 [simp]: "low_bits n 0 = replicate n False"
  by (simp add: low_bits_def map_replicate_const)

section \<open>The characters\<close>

lemma index_of_nth: "distinct s \<Longrightarrow> n < length s \<Longrightarrow> index_of (s ! n) s = Some n"
  by (induction s arbitrary: n) (auto simp: nth_Cons' in_set_conv_nth split: if_splits)

lemma alphabet_distinct: "distinct BASE32_ALPHABET" by code_simp
lemma alphabet_length: "length BASE32_ALPHABET = 32" by code_simp

lemma index_of_alphabet: "n < 32 \<Longrightarrow> index_of (BASE32_ALPHABET ! n) BASE32_ALPHABET = Some n"
  by (rule index_of_nth) (simp_all add: alphabet_distinct alphabet_length)

definition quintet :: "char \<Rightarrow> bool list" where
  "quintet c = low_bits 5 (of_nat (the (index_of c BASE32_ALPHABET)) :: 32 word)"

lemma quintet_char: "quintet (BASE32_ALPHABET ! unat (w AND 31 :: 32 word)) = low_bits 5 w"
  by (simp add: quintet_def index_of_alphabet and_31_less) (rule low_bits_eqI, simp add: bit_and_31)

abbreviation in_alphabet :: "string \<Rightarrow> bool" where
  "in_alphabet s \<equiv> set s \<subseteq> set BASE32_ALPHABET"

lemma char_in_alphabet: "BASE32_ALPHABET ! unat (w AND 31 :: 32 word) \<in> set BASE32_ALPHABET"
  by (rule nth_mem) (simp add: alphabet_length and_31_less)

section \<open>Encoding and decoding as regrouping of bits\<close>

lemma emit_quintets_bits:
  "emit_quintets n v = (s, b) \<Longrightarrow> b < 5 \<and> in_alphabet s \<and> concat (map quintet s) @ low_bits b v = low_bits n v"
proof (induction n v arbitrary: s b rule: emit_quintets.induct)
  case (1 n v)
  show ?case
  proof (cases "5 \<le> n")
    case True
    obtain s' where s: "emit_quintets (n - 5) v = (s', b)" "s = (BASE32_ALPHABET ! unat (drop_bit (n - 5) v AND 31)) # s'"
      using 1(2) True by (auto simp: emit_quintets.simps [of n] split: prod.splits)
    have "low_bits n v = low_bits 5 (drop_bit (n - 5) v) @ low_bits (n - 5) v"
      using low_bits_split [of 5 "n - 5" v] True by simp
    then show ?thesis using 1(1) [OF True s(1)] by (simp add: s quintet_char char_in_alphabet)
  next
    case False
    then show ?thesis using 1(2) by (simp add: emit_quintets.simps [of n])
  qed
qed

lemma encode_loop_bits:
  assumes "b < 5"
  shows "in_alphabet (encode_loop bs b v) \<and>
    (\<exists>z < 5. concat (map quintet (encode_loop bs b v)) = low_bits b v @ concat (map (low_bits 8) bs) @ replicate z False)"
  using assms
proof (induction bs arbitrary: b v)
  case Nil
  show ?case
  proof (cases "b = 0")
    case False
    have "low_bits 5 (push_bit (5 - b) v OR 0) = low_bits b v @ low_bits (5 - b) 0"
      using low_bits_push_or [of b "5 - b" 0 v] Nil by simp
    then show ?thesis
      using False by (auto simp: quintet_char char_in_alphabet intro!: exI [of _ "5 - b"])
  qed (simp add: low_bits_def)
next
  case (Cons x bs)
  obtain s b' where e: "emit_quintets (b + 8) (push_bit 8 v OR ucast x) = (s, b')" by force
  have "low_bits (b + 8) (push_bit 8 v OR ucast x) = low_bits b v @ low_bits 8 (ucast x :: 32 word)"
    using Cons.prems by (intro low_bits_push_or) (auto simp: bit_ucast_iff dest: bit_imp_le_length)
  moreover have "low_bits 8 (ucast x :: 32 word) = low_bits 8 x" by (auto simp: low_bits_def bit_ucast_iff)
  ultimately have s: "concat (map quintet s) @ low_bits b' (push_bit 8 v OR ucast x) = low_bits b v @ low_bits 8 x" "b' < 5" "in_alphabet s"
    using emit_quintets_bits [OF e] by auto
  obtain z where "z < 5" "concat (map quintet (encode_loop bs b' (push_bit 8 v OR ucast x))) =
      low_bits b' (push_bit 8 v OR ucast x) @ concat (map (low_bits 8) bs) @ replicate z False"
    using Cons.IH [OF s(2), of "push_bit 8 v OR ucast x"] by blast
  then show ?case
    using s Cons.IH [OF s(2), of "push_bit 8 v OR ucast x"]
    by (auto simp: e Let_def simp flip: append_assoc intro!: exI [of _ z])
qed

lemma ucast_low_byte: "low_bits 8 (ucast (w AND 255 :: 32 word) :: 8 word) = low_bits 8 w"
  by (rule nth_equalityI) (auto simp: low_bits_nth bit_ucast_iff bit_and_255)

lemma low_bits_byte_inject: "low_bits 8 v = low_bits 8 w \<longleftrightarrow> v = w" for v w :: "8 word"
  by (auto intro!: bit_word_eqI dest: low_bits_eqD)

lemma rest_zero: "low_bits b v = replicate b False \<Longrightarrow> v AND (2 ^ b - 1) = 0" for v :: "32 word"
  by (rule bit_eqI) (metis bit_0_eq bit_and_mask bot_apply bot_bool_def low_bits_0 low_bits_eqD)

lemma decode_loop_bits:
  assumes "low_bits b v @ concat (map quintet cs) = concat (map (low_bits 8) bs) @ replicate z False" "z < 8" "b < 8" "in_alphabet cs"
  shows "decode_loop cs b v = Inr bs"
  using assms
proof (induction cs arbitrary: b v bs)
  case Nil
  have "length (low_bits b v) = length (concat (map (low_bits 8) bs) @ replicate z False)" using Nil(1) by simp
  then have "bs = []" using Nil(2,3) by (cases bs) auto
  with Nil(1) have "low_bits b v = replicate b False" by (metis append_Nil append_Nil2 concat.simps(1) length_low_bits length_replicate list.map(1))
  then show ?case using rest_zero \<open>bs = []\<close> by (simp add: push_bit_eq_mult)
next
  case (Cons c cs)
  obtain i where i: "i < 32" "c = BASE32_ALPHABET ! i" using Cons.prems(4) by (auto simp: in_set_conv_nth alphabet_length)
  then have index: "index_of c BASE32_ALPHABET = Some i" by (simp add: index_of_alphabet)
  define w where "w = push_bit 5 v OR (of_nat i :: 32 word)"
  have "take_bit 5 (of_nat i :: 32 word) = of_nat i" using i(1) by (simp add: take_bit_of_nat take_bit_nat_eq_self)
  then have small: "\<not> bit (of_nat i :: 32 word) n" if "5 \<le> n" for n
    using that by (metis bit_take_bit_iff not_le)
  have q: "quintet c = low_bits 5 (of_nat i :: 32 word)" by (simp add: quintet_def index)
  have grown: "low_bits (b + 5) w @ concat (map quintet cs) = concat (map (low_bits 8) bs) @ replicate z False"
    using low_bits_push_or [of b 5 "of_nat i" v] Cons.prems(1,3) small by (simp add: w_def q)
  show ?case
  proof (cases "8 \<le> b + 5")
    case False
    then show ?thesis using Cons.IH [OF grown Cons.prems(2)] Cons.prems(4) by (simp add: index w_def [symmetric] Let_def)
  next
    case True
    have "low_bits (b + 5) w = low_bits 8 (drop_bit (b + 5 - 8) w) @ low_bits (b + 5 - 8) w"
      using low_bits_split [of 8 "b + 5 - 8" w] True by (simp add: add.commute)
    then have parts: "low_bits 8 (ucast (drop_bit (b + 5 - 8) w AND 255) :: 8 word) @ low_bits (b + 5 - 8) w @ concat (map quintet cs) =
        concat (map (low_bits 8) bs) @ replicate z False"
      using grown by (simp add: ucast_low_byte)
    then have "bs \<noteq> []" using Cons.prems(2) by (auto dest: arg_cong [where f = length])
    then obtain x xs where bs: "bs = x # xs" by (cases bs) auto
    with parts have "low_bits 8 (ucast (drop_bit (b + 5 - 8) w AND 255) :: 8 word) = low_bits 8 x"
      and rest: "low_bits (b + 5 - 8) w @ concat (map quintet cs) = concat (map (low_bits 8) xs) @ replicate z False"
      by simp_all
    then have "ucast (drop_bit (b + 5 - 8) w AND 255) = x" by (simp add: low_bits_byte_inject)
    moreover have "decode_loop cs (b + 5 - 8) w = Inr xs"
      using Cons.IH [OF rest Cons.prems(2)] Cons.prems(3,4) by simp
    ultimately show ?thesis using True by (simp add: index w_def [symmetric] Let_def bs)
  qed
qed

lemma clean_encoded: "in_alphabet s \<Longrightarrow> clean_secret s = s"
proof -
  assume s: "in_alphabet s"
  have "\<forall>c \<in> set BASE32_ALPHABET. c \<noteq> CHR ''='' \<and> \<not> is_ws c \<and> upper_chars c = [c]" by code_simp
  with s have c: "c \<in> set s \<Longrightarrow> c \<noteq> CHR ''='' \<and> \<not> is_ws c \<and> upper_chars c = [c]" for c by blast
  then have "dropWhile (\<lambda>c. c = CHR ''='') (rev s) = rev s" by (cases "rev s") (auto dest: arg_cong [of _ _ set])
  moreover have "concat (map upper_chars s) = s" using c by (induction s) auto
  moreover have "filter (\<lambda>c. \<not> is_ws c) s = s" using c by (simp add: filter_id_conv)
  ultimately show ?thesis by (simp add: clean_secret_def)
qed

text \<open>
  Encoding the bytes of a secret in base32 and decoding the text gives the bytes back, although both loops shift
  through a 32-bit accumulator that overflows.
\<close>

theorem base32_round_trip:
  assumes "bs \<noteq> []"
  shows "base32Decode (base32Encode bs) = Inr bs"
proof -
  obtain z where z: "z < 5" "in_alphabet (base32Encode bs)"
      "concat (map quintet (base32Encode bs)) = low_bits 0 (0 :: 32 word) @ concat (map (low_bits 8) bs) @ replicate z False"
    using encode_loop_bits [of 0 bs 0] by (auto simp: base32Encode_def)
  then have "decode_loop (base32Encode bs) 0 0 = Inr bs" by (intro decode_loop_bits [where z = z]) auto
  moreover have "base32Encode bs \<noteq> []"
    using z(3) assms by (cases bs) (auto dest: arg_cong [where f = length])
  ultimately show ?thesis using clean_encoded [OF z(2)] by (simp add: base32Decode_def)
qed

lemma base32_round_trip_witness: "base32Decode (base32Encode [255, 0, 171]) = Inr [255, 0, 171]"
  by (rule base32_round_trip) simp

section \<open>One-time codes\<close>

definition generateTotpSecret :: "bytes \<Rightarrow> string throws" where
  "generateTotpSecret random_bytes =
     (if length random_bytes < 16 \<or> 64 < length random_bytes then Inl ''Invalid TOTP secret length'' else Inr (base32Encode random_bytes))"

text \<open>The counter as \<open>setUint32(0, counter / 2 ** 32)\<close> and \<open>setUint32(4, counter >>> 0)\<close> write it.\<close>

definition uint32_bytes :: "nat \<Rightarrow> bytes" where
  "uint32_bytes n = [byte (n div 2 ^ 24 mod 256), byte (n div 2 ^ 16 mod 256), byte (n div 2 ^ 8 mod 256), byte (n mod 256)]"

definition counter_bytes :: "nat \<Rightarrow> bytes" where
  "counter_bytes counter = uint32_bytes (counter div 2 ^ 32 mod 2 ^ 32) @ uint32_bytes (counter mod 2 ^ 32)"

text \<open>The dynamic truncation of RFC 4226 on the signature, whose missing bytes read as zero.\<close>

definition at_or_zero :: "bytes \<Rightarrow> nat \<Rightarrow> nat" where
  "at_or_zero bs i = (if i < length bs then unat (bs ! i) else 0)"

definition truncate_code :: "bytes \<Rightarrow> nat" where
  "truncate_code signature =
     (let offset = (if signature = [] then 0 else unat (last signature) mod 16) in
      at_or_zero signature offset mod 128 * 2 ^ 24 + at_or_zero signature (offset + 1) * 2 ^ 16
        + at_or_zero signature (offset + 2) * 2 ^ 8 + at_or_zero signature (offset + 3))"

definition pad_start :: "nat \<Rightarrow> string \<Rightarrow> string" where
  "pad_start n s = replicate (n - length s) CHR ''0'' @ s"

definition generateHotpCode :: "(bytes \<Rightarrow> bytes \<Rightarrow> bytes) \<Rightarrow> string \<Rightarrow> int \<Rightarrow> nat \<Rightarrow> string throws" where
  "generateHotpCode hmac secret counter digits =
     (if \<bar>counter\<bar> > 2 ^ 53 - 1 \<or> counter < 0 \<or> digits < 6 \<or> digits > 8 then Inl ''Invalid HOTP parameters''
      else try_bind (base32Decode secret) (\<lambda>key.
        Inr (pad_start digits (show_nat (truncate_code (hmac key (counter_bytes (nat counter))) mod 10 ^ digits)))))"

definition generateTotpCode :: "(bytes \<Rightarrow> bytes \<Rightarrow> bytes) \<Rightarrow> string \<Rightarrow> millis \<Rightarrow> string throws" where
  "generateTotpCode hmac secret timestampMs = generateHotpCode hmac secret (timestampMs div 30000) 6"

fun try_counters :: "(bytes \<Rightarrow> bytes \<Rightarrow> bytes) \<Rightarrow> string \<Rightarrow> string \<Rightarrow> int list \<Rightarrow> bool throws" where
  "try_counters hmac code secret [] = Inr False"
| "try_counters hmac code secret (c # cs) =
     (if c < 0 then try_counters hmac code secret cs
      else try_bind (generateHotpCode hmac secret c 6) (\<lambda>expected.
        if constantTimeEqual (utf8 code) (utf8 expected) then Inr True else try_counters hmac code secret cs))"

definition is_totp_code :: "string \<Rightarrow> bool" where
  "is_totp_code s \<longleftrightarrow> length s = 6 \<and> list_all is_digit s"

text \<open>\<open>verifyTotp\<close> with the default window of one step and period of thirty seconds.\<close>

definition verifyTotp :: "(bytes \<Rightarrow> bytes \<Rightarrow> bytes) \<Rightarrow> string option \<Rightarrow> string option \<Rightarrow> millis \<Rightarrow> bool throws" where
  "verifyTotp hmac code secret timestampMs =
     (if code = None \<or> secret = None \<or> secret = Some [] \<or> \<not> is_totp_code (the code) then Inr False
      else let counter = timestampMs div 30000 in
        try_counters hmac (the code) (the secret) [counter - 1, counter, counter + 1])"

lemma length_pad_start: "length (pad_start n s) = max n (length s)"
  by (simp add: pad_start_def)

lemma hotp_code:
  assumes "base32Decode secret = Inr key" "0 \<le> c" "c < 2 ^ 53"
  shows "\<exists>code. generateHotpCode hmac secret c 6 = Inr code \<and> is_totp_code code"
proof -
  let ?n = "truncate_code (hmac key (counter_bytes (nat c))) mod 10 ^ 6"
  have "generateHotpCode hmac secret c 6 = Inr (pad_start 6 (show_nat ?n))"
    using assms by (simp add: generateHotpCode_def try_bind_def)
  moreover have "length (show_nat ?n) \<le> 6" by (rule length_show_nat) simp_all
  then have "is_totp_code (pad_start 6 (show_nat ?n))"
    using show_nat_digits [of ?n] by (auto simp: is_totp_code_def length_pad_start pad_start_def list_all_iff is_digit_def in_range_def)
  ultimately show ?thesis by blast
qed

lemma hotp_negative: "c < 0 \<Longrightarrow> generateHotpCode hmac secret c 6 = Inl ''Invalid HOTP parameters''"
  by (simp add: generateHotpCode_def)

lemma try_counters_iff:
  assumes "base32Decode secret = Inr key" "\<forall>c \<in> set cs. c < 2 ^ 53"
  shows "try_counters hmac code secret cs = Inr (\<exists>c \<in> set cs. generateHotpCode hmac secret c 6 = Inr code)"
  using assms(2)
proof (induction cs)
  case (Cons c cs)
  then show ?case
    using hotp_code [OF assms(1), of c hmac] hotp_negative [of c hmac secret]
    by (cases "c < 0") (auto simp: try_bind_def constantTimeEqual_iff)
qed simp

text \<open>
  C24: A code is six decimal digits, and a code verifies at a time exactly if it is the code of the thirty seconds around
  that time or of the ones just before or after.
\<close>

theorem totp_window:
  assumes "base32Decode secret = Inr key" "secret \<noteq> []" "0 \<le> t" "t < 2 ^ 50"
  shows "(\<exists>c. generateTotpCode hmac secret t = Inr c \<and> is_totp_code c) \<and>
    verifyTotp hmac (Some code) (Some secret) t = Inr (is_totp_code code \<and>
      (\<exists>d \<in> {-30000, 0, 30000}. generateTotpCode hmac secret (t + d) = Inr code))"
proof -
  have steps: "(t - 30000) div 30000 = t div 30000 - 1" "(t + 30000) div 30000 = t div 30000 + 1"
    using div_add_self2 [of 30000 t] div_add_self2 [of 30000 "t - 30000"] by simp_all
  have bound: "t div 30000 < 2 ^ 52" using assms(3,4) by (simp add: div_less_iff_less_mult)
  have "\<exists>c. generateTotpCode hmac secret t = Inr c \<and> is_totp_code c"
    using hotp_code [OF assms(1), of "t div 30000" hmac] assms(3) bound by (simp add: generateTotpCode_def pos_imp_zdiv_nonneg_iff)
  moreover have "verifyTotp hmac (Some code) (Some secret) t = Inr (is_totp_code code \<and>
      (\<exists>d \<in> {-30000, 0, 30000}. generateTotpCode hmac secret (t + d) = Inr code))"
    using try_counters_iff [OF assms(1), of "[t div 30000 - 1, t div 30000, t div 30000 + 1]" hmac code] bound assms(2)
    by (auto simp: verifyTotp_def Let_def generateTotpCode_def steps)
  ultimately show ?thesis by blast
qed

lemma totp_window_witness:
  "verifyTotp (\<lambda>k m. m) (Some ''000000'') (Some (base32Encode [1])) 45000 = Inr True"
proof -
  have secret: "base32Decode (base32Encode [1]) = Inr [1]" by (rule base32_round_trip) simp
  then have nonempty: "base32Encode [1] \<noteq> []" by (auto simp: base32Decode_def clean_secret_def)
  have "truncate_code (counter_bytes 1) = 0"
    by (simp add: counter_bytes_def uint32_bytes_def truncate_code_def at_or_zero_def Let_def byte_def)
  moreover have "pad_start 6 (show_nat 0) = ''000000''" by code_simp
  ultimately have "generateTotpCode (\<lambda>k m. m) (base32Encode [1]) 45000 = Inr ''000000''"
    by (simp add: generateTotpCode_def generateHotpCode_def secret try_bind_def del: show_nat.simps)
  then show ?thesis
    using totp_window [OF secret nonempty, of 45000 "\<lambda>k m. m" "''000000''"] by (simp add: is_totp_code_def is_digit_def in_range_def)
qed

end
