(* ===== verification/Password_Hash.thy ===== *)
theory Password_Hash
  imports Network
begin

text \<open>
  The administrator's password: \<open>apps/worker/src/auth/password.ts\<close>. PBKDF2 is the argument \<open>derive\<close> (the UTF-8 of the
  password, the salt, the number of iterations); the salt of a new hash is an argument as well.
\<close>

definition MIN_ITERATIONS :: nat where "MIN_ITERATIONS = 100000"
definition MAX_ITERATIONS :: nat where "MAX_ITERATIONS = 10000000"

record password_hash =
  ph_iterations :: nat
  ph_salt :: bytes
  ph_digest :: bytes

definition parsePasswordHash :: "string \<Rightarrow> password_hash throws" where
  "parsePasswordHash encoded =
     (case split_on CHR ''$'' encoded of
        [name, count, salt64, digest64] \<Rightarrow>
          if name \<noteq> ''pbkdf2-sha256'' \<or> count = [] \<or> \<not> list_all is_digit count
          then Inl ''Invalid ADMIN_PASSWORD_HASH format''
          else if dec_val count < MIN_ITERATIONS \<or> dec_val count > MAX_ITERATIONS
          then Inl ''Invalid PBKDF2 iteration count''
          else try_bind (decodeBase64Secret salt64 None) (\<lambda>salt.
            try_bind (decodeBase64Secret digest64 None) (\<lambda>digest.
              if length salt < 16 \<or> length digest \<noteq> 32 then Inl ''Invalid PBKDF2 hash parameters''
              else Inr \<lparr>ph_iterations = dec_val count, ph_salt = salt, ph_digest = digest\<rparr>))
      | _ \<Rightarrow> Inl ''Invalid ADMIN_PASSWORD_HASH format'')"

definition verifyPassword :: "(bytes \<Rightarrow> bytes \<Rightarrow> nat \<Rightarrow> bytes) \<Rightarrow> string \<Rightarrow> string option \<Rightarrow> bool" where
  "verifyPassword derive password encodedHash =
     (if encodedHash = None \<or> encodedHash = Some [] \<or> length password > 4096 then False
      else case parsePasswordHash (the encodedHash) of
          Inl _ \<Rightarrow> False
        | Inr h \<Rightarrow> constantTimeEqual (derive (utf8 password) (ph_salt h) (ph_iterations h)) (ph_digest h))"

definition hashPassword :: "(bytes \<Rightarrow> bytes \<Rightarrow> nat \<Rightarrow> bytes) \<Rightarrow> bytes \<Rightarrow> string \<Rightarrow> nat \<Rightarrow> string throws" where
  "hashPassword derive salt password iterations =
     (if length password < 12 \<or> length password > 4096 then Inl ''Password length is invalid''
      else if iterations < MIN_ITERATIONS \<or> iterations > MAX_ITERATIONS then Inl ''Invalid PBKDF2 iteration count''
      else Inr (''pbkdf2-sha256$'' @ show_nat iterations @ ''$'' @ encodeBase64Url salt @ ''$'' @
        encodeBase64Url (derive (utf8 password) salt iterations)))"

section \<open>A stored hash verifies its password\<close>

lemma base64url_char_class:
  "c \<in> set (encodeBase64Url bs) \<Longrightarrow> is_alnum c \<or> c = CHR ''_'' \<or> c = CHR ''-''"
  using is_base64url_encode [of bs] by (auto simp: is_base64url_def list_all_iff)

lemma base64url_no_dollar: "CHR ''$'' \<notin> set (encodeBase64Url bs)"
  using base64url_char_class [of "CHR ''$''" bs]
  by (auto simp: is_alnum_def is_upper_def is_lower_def is_digit_def in_range_def)

lemma base64url_no_ws: "c \<in> set (encodeBase64Url bs) \<Longrightarrow> \<not> is_ws c"
  by (drule base64url_char_class) (auto simp: is_ws_def is_alnum_def is_upper_def is_lower_def is_digit_def in_range_def)

lemma base64url_no_pad: "CHR ''='' \<notin> set (encodeBase64Url bs)"
  using base64url_char_class [of "CHR ''=''" bs] by auto

lemma trim_base64url: "trim (encodeBase64Url bs) = encodeBase64Url bs"
  using base64url_no_ws [of _ bs] by (intro trim_id) auto

lemma decodeBase64Secret_encode [simp]: "decodeBase64Secret (encodeBase64Url bs) None = Inr bs"
  by (simp add: decodeBase64Secret_def trim_base64url is_base64url_encode base64url_no_pad try_bind_def)

lemma digits_no_dollar: "CHR ''$'' \<notin> set (show_nat n)"
  using show_nat_digits [of n] by (auto simp: list_all_iff is_digit_def in_range_def)

lemma split_hash:
  "split_on CHR ''$'' (''pbkdf2-sha256$'' @ show_nat n @ ''$'' @ encodeBase64Url a @ ''$'' @ encodeBase64Url b) =
    [''pbkdf2-sha256'', show_nat n, encodeBase64Url a, encodeBase64Url b]"
proof -
  have "''pbkdf2-sha256$'' @ show_nat n @ ''$'' @ encodeBase64Url a @ ''$'' @ encodeBase64Url b =
    ''pbkdf2-sha256'' @ CHR ''$'' # (show_nat n @ CHR ''$'' # (encodeBase64Url a @ CHR ''$'' # encodeBase64Url b))"
    by simp
  then show ?thesis
    by (simp add: split_on_append split_on_single digits_no_dollar base64url_no_dollar)
qed

lemma parse_hashPassword:
  assumes "hashPassword derive salt password n = Inr h" "16 \<le> length salt" "\<And>p s i. length (derive p s i) = 32"
  shows "parsePasswordHash h = Inr \<lparr>ph_iterations = n, ph_salt = salt, ph_digest = derive (utf8 password) salt n\<rparr>" and "h \<noteq> []"
proof -
  have h: "h = ''pbkdf2-sha256$'' @ show_nat n @ ''$'' @ encodeBase64Url salt @ ''$'' @ encodeBase64Url (derive (utf8 password) salt n)"
    and n: "MIN_ITERATIONS \<le> n" "n \<le> MAX_ITERATIONS"
    using assms(1) by (auto simp: hashPassword_def split: if_splits)
  show "parsePasswordHash h = Inr \<lparr>ph_iterations = n, ph_salt = salt, ph_digest = derive (utf8 password) salt n\<rparr>"
    using n assms(2,3) show_nat_digits [of n] unfolding parsePasswordHash_def h split_hash
    by (simp add: try_bind_def not_less dec_val_show_nat)
  show "h \<noteq> []" by (simp add: h)
qed

text \<open>
  A hash that \<open>hashPassword\<close> makes verifies exactly the passwords (up to the length limit) that derive the same key from
  its salt and iteration count: the stored text loses nothing of them.
\<close>

theorem password_hash_verifies:
  assumes "hashPassword derive salt password n = Inr h" "16 \<le> length salt" "\<And>p s i. length (derive p s i) = 32"
  shows "verifyPassword derive candidate (Some h) \<longleftrightarrow>
    length candidate \<le> 4096 \<and> derive (utf8 candidate) salt n = derive (utf8 password) salt n"
  using parse_hashPassword [OF assms] by (auto simp: verifyPassword_def constantTimeEqual_iff)

lemma password_hash_verifies_witness:
  "\<exists>h. hashPassword (\<lambda>p s i. take 32 (p @ replicate 32 0)) (replicate 16 0) ''correct horse'' 600000 = Inr h \<and>
    verifyPassword (\<lambda>p s i. take 32 (p @ replicate 32 0)) ''correct horse'' (Some h) \<and>
    \<not> verifyPassword (\<lambda>p s i. take 32 (p @ replicate 32 0)) ''wrong'' (Some h)"
proof -
  let ?d = "\<lambda>p s i. take 32 (p @ replicate 32 0) :: bytes"
  obtain h where h: "hashPassword ?d (replicate 16 0) ''correct horse'' 600000 = Inr h"
    by (simp add: hashPassword_def MIN_ITERATIONS_def MAX_ITERATIONS_def)
  show ?thesis
    using password_hash_verifies [OF h, of "''correct horse''"] password_hash_verifies [OF h, of "''wrong''"] h
    by (auto simp: byte_def)
qed

end
