(* ===== verification/Auth_Store.thy ===== *)
theory Auth_Store
  imports Profiles Totp Password_Hash
begin

text \<open>
  Accounts and login sessions: the repositories \<open>storage/users.ts\<close> and \<open>storage/auth-sessions.ts\<close> of the Worker on the
  rows of their tables, and the tokens and cookies of \<open>auth/session.ts\<close>. Times are milliseconds; the columns hold
  the fixed-width text of \<open>toISOString\<close>, whose order is theirs. HMAC and PBKDF2 are arguments.
\<close>

record auth_platform =
  ap_derive :: "bytes \<Rightarrow> bytes \<Rightarrow> nat \<Rightarrow> bytes"
  ap_hmac1 :: "bytes \<Rightarrow> bytes \<Rightarrow> bytes"
  ap_hmac256 :: "bytes \<Rightarrow> bytes \<Rightarrow> bytes"
  ap_aead :: platform

section \<open>Tokens and cookies\<close>

definition SESSION_COOKIE_NAME :: string where "SESSION_COOKIE_NAME = ''__Host-edgesh_session''"
definition DEFAULT_SESSION_TTL_SECONDS :: int where "DEFAULT_SESSION_TTL_SECONDS = 12 * 60 * 60"

text \<open>\<open>/^[A-Za-z0-9_-]{43}$/\<close>\<close>

definition is_token :: "string \<Rightarrow> bool" where
  "is_token s \<longleftrightarrow> length s = 43 \<and> list_all (\<lambda>c. is_alnum c \<or> c = CHR ''_'' \<or> c = CHR ''-'') s"

definition createSessionToken :: "bytes \<Rightarrow> string" where
  "createSessionToken random_bytes = randomBase64Url random_bytes"

definition hashSessionToken :: "auth_platform \<Rightarrow> string \<Rightarrow> string option \<Rightarrow> string throws" where
  "hashSessionToken ap token hmacSecret =
     (if hmacSecret = None \<or> hmacSecret = Some [] then Inl ''SESSION_HMAC_KEY is required''
      else if \<not> is_token token then Inl ''Invalid session token''
      else try_bind (decodeBase64Secret (the hmacSecret) (Some 32)) (\<lambda>key.
        Inr (encodeBase64Url (ap_hmac256 ap key (utf8 (''edgesh:session:v1:'' @ token))))))"

definition hashSessionMetadata :: "auth_platform \<Rightarrow> string \<Rightarrow> string \<Rightarrow> string option \<Rightarrow> string throws" where
  "hashSessionMetadata ap v purpose hmacSecret =
     (if hmacSecret = None \<or> hmacSecret = Some [] then Inl ''SESSION_HMAC_KEY is required''
      else try_bind (decodeBase64Secret (the hmacSecret) (Some 32)) (\<lambda>key.
        Inr (encodeBase64Url (ap_hmac256 ap key (utf8 (''edgesh:'' @ purpose @ '':v1:'' @ v))))))"

text \<open>\<open>decodeURIComponent\<close>: percent escapes give bytes, the others stand for themselves; malformed sequences throw.\<close>

fun percent_bytes :: "string \<Rightarrow> bytes option" where
  "percent_bytes [] = Some []"
| "percent_bytes (c # s) =
     (if c = CHR ''%'' then
        (case s of a # b # r \<Rightarrow>
           if is_hex a \<and> is_hex b then map_option ((#) (byte (hex_of a * 16 + hex_of b))) (percent_bytes r) else None
         | _ \<Rightarrow> None)
      else map_option ((@) (utf8 [c])) (percent_bytes s))"

definition decodeURIComponent :: "string \<Rightarrow> string option" where
  "decodeURIComponent s = Option.bind (percent_bytes s) utf8_decode"

fun cookie_value :: "string \<Rightarrow> string list \<Rightarrow> string option" where
  "cookie_value name [] = None"
| "cookie_value name (item # items) =
     (if CHR ''='' \<in> set item \<and> trim (takeWhile (\<lambda>c. c \<noteq> CHR ''='') item) = name
      then decodeURIComponent (trim (tl (dropWhile (\<lambda>c. c \<noteq> CHR ''='') item)))
      else cookie_value name items)"

definition readCookie :: "string option \<Rightarrow> string \<Rightarrow> string option" where
  "readCookie cookies name =
     (if cookies = None \<or> cookies = Some [] then None else cookie_value name (split_on CHR '';'' (the cookies)))"

definition readSessionToken :: "string option \<Rightarrow> string option" where
  "readSessionToken cookies =
     (case readCookie cookies SESSION_COOKIE_NAME of
        Some token \<Rightarrow> if is_token token then Some token else None
      | None \<Rightarrow> None)"

definition sessionCookie :: "string \<Rightarrow> int \<Rightarrow> string throws" where
  "sessionCookie token ttlSeconds =
     (if \<not> is_token token then Inl ''Invalid session token''
      else if ttlSeconds < 1 \<or> ttlSeconds > 7 * 24 * 60 * 60 then Inl ''Invalid session TTL''
      else Inr (SESSION_COOKIE_NAME @ ''='' @ token @ ''; Path=/; Max-Age='' @ show_int ttlSeconds @ ''; HttpOnly; Secure; SameSite=Strict''))"

definition clearSessionCookie :: string where
  "clearSessionCookie = SESSION_COOKIE_NAME @ ''=; Path=/; Max-Age=0; HttpOnly; Secure; SameSite=Strict''"

section \<open>The tables\<close>

record user_row =
  us_id :: string
  us_username :: string
  us_password_hash :: string
  us_totp :: secret_columns
  us_pending_totp :: secret_columns
  us_pending_expires_at :: "millis option"
  us_created_at :: millis
  us_updated_at :: millis

record auth_session =
  as_idHash :: string
  as_ownerId :: string
  as_createdAt :: millis
  as_lastSeenAt :: millis
  as_expiresAt :: millis
  as_revokedAt :: "millis option"
  as_userAgentHash :: "string option"
  as_sourceIpHash :: "string option"

record auth_db =
  ab_users :: "user_row list"
  ab_sessions :: "auth_session list"

definition totpEnabled :: "user_row \<Rightarrow> bool" where
  "totpEnabled u \<longleftrightarrow> sc_ciphertext (us_totp u) \<noteq> None"

definition no_columns :: secret_columns where
  "no_columns = \<lparr>sc_ciphertext = None, sc_iv = None, sc_version = None\<rparr>"

definition envelope_of :: "secret_columns \<Rightarrow> envelope option" where
  "envelope_of c =
     (case (sc_ciphertext c, sc_iv c) of
        (Some ciphertext, Some iv) \<Rightarrow>
          if sc_version c = Some 1 then Some \<lparr>env_version = 1, env_iv = iv, env_ciphertext = ciphertext\<rparr> else None
      | _ \<Rightarrow> None)"

section \<open>Users\<close>

definition findByUsername :: "string \<Rightarrow> auth_db \<Rightarrow> user_row option" where
  "findByUsername username db = find (\<lambda>u. us_username u = username) (ab_users db)"

definition findById :: "string \<Rightarrow> auth_db \<Rightarrow> user_row option" where
  "findById i db = find (\<lambda>u. us_id u = i) (ab_users db)"

definition update_user :: "string \<Rightarrow> (user_row \<Rightarrow> user_row) \<Rightarrow> auth_db \<Rightarrow> auth_db" where
  "update_user i f db = db\<lparr>ab_users := map (\<lambda>u. if us_id u = i then f u else u) (ab_users db)\<rparr>"

definition ensureAdmin :: "string \<Rightarrow> string \<Rightarrow> millis \<Rightarrow> auth_db \<Rightarrow> auth_db \<times> user_row throws" where
  "ensureAdmin passwordHash newId now db =
     (if passwordHash = [] then (db, Inl ''Admin password hash is required'')
      else case findByUsername ''admin'' db of
          Some existing \<Rightarrow>
            if us_password_hash existing \<noteq> passwordHash
            then (update_user (us_id existing) (\<lambda>u. u\<lparr>us_password_hash := passwordHash, us_updated_at := now\<rparr>) db,
                  Inr (existing\<lparr>us_password_hash := passwordHash, us_updated_at := now\<rparr>))
            else (db, Inr existing)
        | None \<Rightarrow>
            let u = \<lparr>us_id = newId, us_username = ''admin'', us_password_hash = passwordHash, us_totp = no_columns,
              us_pending_totp = no_columns, us_pending_expires_at = None, us_created_at = now, us_updated_at = now\<rparr>
            in (db\<lparr>ab_users := ab_users db @ [u]\<rparr>, Inr u))"

definition savePendingTotp ::
  "auth_platform \<Rightarrow> bytes \<Rightarrow> string \<Rightarrow> string \<Rightarrow> string option \<Rightarrow> int \<Rightarrow> millis \<Rightarrow> auth_db \<Rightarrow> auth_db \<times> millis throws" where
  "savePendingTotp ap iv userId secret masterKey ttlSeconds now db =
     (if ttlSeconds < 60 \<or> ttlSeconds > 3600 then (db, Inl ''Invalid pending TOTP TTL'')
      else case encryptSecret (ap_aead ap) iv masterKey secret (secret_context userId userId F_PendingTotp) of
          Inl m \<Rightarrow> (db, Inl m)
        | Inr env \<Rightarrow>
            (update_user userId (\<lambda>u. u\<lparr>us_pending_totp := envelope_columns (Some env),
               us_pending_expires_at := Some (now + ttlSeconds * 1000), us_updated_at := now\<rparr>) db, Inr (now + ttlSeconds * 1000)))"

definition clearPendingTotp :: "string \<Rightarrow> millis \<Rightarrow> auth_db \<Rightarrow> auth_db" where
  "clearPendingTotp userId now =
     update_user userId (\<lambda>u. u\<lparr>us_pending_totp := no_columns, us_pending_expires_at := None, us_updated_at := now\<rparr>)"

definition getPendingTotp :: "auth_platform \<Rightarrow> string \<Rightarrow> string option \<Rightarrow> millis \<Rightarrow> auth_db \<Rightarrow> auth_db \<times> string option throws" where
  "getPendingTotp ap userId masterKey now db =
     (case findById userId db of
        None \<Rightarrow> (db, Inr None)
      | Some u \<Rightarrow>
          (case (envelope_of (us_pending_totp u), us_pending_expires_at u) of
             (Some env, Some expires) \<Rightarrow>
               if expires \<le> now then (clearPendingTotp userId now db, Inr None)
               else (db, map_sum (\<lambda>m. m) Some (decryptSecret (ap_aead ap) masterKey env (secret_context userId userId F_PendingTotp)))
           | _ \<Rightarrow> (db, Inr None)))"

definition enableTotp ::
  "auth_platform \<Rightarrow> bytes \<Rightarrow> string \<Rightarrow> string \<Rightarrow> string option \<Rightarrow> millis \<Rightarrow> auth_db \<Rightarrow> auth_db \<times> unit throws" where
  "enableTotp ap iv userId secret masterKey now db =
     (case encryptSecret (ap_aead ap) iv masterKey secret (secret_context userId userId F_Totp) of
        Inl m \<Rightarrow> (db, Inl m)
      | Inr env \<Rightarrow>
          (update_user userId (\<lambda>u. u\<lparr>us_totp := envelope_columns (Some env), us_pending_totp := no_columns,
             us_pending_expires_at := None, us_updated_at := now\<rparr>) db, Inr ()))"

definition getTotpSecret :: "auth_platform \<Rightarrow> string \<Rightarrow> string option \<Rightarrow> auth_db \<Rightarrow> string option throws" where
  "getTotpSecret ap userId masterKey db =
     (case Option.bind (findById userId db) (\<lambda>u. envelope_of (us_totp u)) of
        None \<Rightarrow> Inr None
      | Some env \<Rightarrow> map_sum (\<lambda>m. m) Some (decryptSecret (ap_aead ap) masterKey env (secret_context userId userId F_Totp)))"

definition disableTotp :: "string \<Rightarrow> millis \<Rightarrow> auth_db \<Rightarrow> auth_db" where
  "disableTotp userId now =
     update_user userId (\<lambda>u. u\<lparr>us_totp := no_columns, us_pending_totp := no_columns, us_pending_expires_at := None, us_updated_at := now\<rparr>)"

section \<open>Login sessions\<close>

definition create_session ::
  "string \<Rightarrow> string \<Rightarrow> string \<Rightarrow> millis \<Rightarrow> string option \<Rightarrow> string option \<Rightarrow> millis \<Rightarrow> auth_db \<Rightarrow> auth_db \<times> auth_session throws" where
  "create_session violated idHash ownerId expiresAt sourceIpHash userAgentHash now db =
     (case assertOwnerId ownerId of
        Inl m \<Rightarrow> (db, Inl m)
      | Inr _ \<Rightarrow>
          if idHash = [] \<or> expiresAt \<le> now then (db, Inl ''Invalid auth session'')
          else if list_ex (\<lambda>s. as_idHash s = idHash) (ab_sessions db) then (db, Inl violated)
          else
            let s = \<lparr>as_idHash = idHash, as_ownerId = ownerId, as_createdAt = now, as_lastSeenAt = now, as_expiresAt = expiresAt,
              as_revokedAt = None, as_userAgentHash = userAgentHash, as_sourceIpHash = sourceIpHash\<rparr>
            in (db\<lparr>ab_sessions := ab_sessions db @ [s]\<rparr>, Inr s))"

definition is_active :: "millis \<Rightarrow> auth_session \<Rightarrow> bool" where
  "is_active now s \<longleftrightarrow> as_revokedAt s = None \<and> as_expiresAt s > now"

definition findActive :: "string \<Rightarrow> bool \<Rightarrow> millis \<Rightarrow> auth_db \<Rightarrow> auth_db \<times> auth_session option" where
  "findActive idHash touch now db =
     (case find (\<lambda>s. as_idHash s = idHash \<and> is_active now s) (ab_sessions db) of
        None \<Rightarrow> (db, None)
      | Some s \<Rightarrow>
          if touch
          then (db\<lparr>ab_sessions := map (\<lambda>r. if as_idHash r = idHash then r\<lparr>as_lastSeenAt := now\<rparr> else r) (ab_sessions db)\<rparr>,
                Some (s\<lparr>as_lastSeenAt := now\<rparr>))
          else (db, Some s))"

definition listActive :: "string \<Rightarrow> rat \<Rightarrow> millis \<Rightarrow> auth_db \<Rightarrow> auth_session list" where
  "listActive ownerId limit now db =
     take (bounded_limit 100 limit) (rev (sort_key as_createdAt (filter (\<lambda>s. as_ownerId s = ownerId \<and> is_active now s) (ab_sessions db))))"

definition revoke_where :: "(auth_session \<Rightarrow> bool) \<Rightarrow> millis \<Rightarrow> auth_db \<Rightarrow> auth_db" where
  "revoke_where sel now db =
     db\<lparr>ab_sessions := map (\<lambda>s. if sel s \<and> as_revokedAt s = None then s\<lparr>as_revokedAt := Some now\<rparr> else s) (ab_sessions db)\<rparr>"

definition revoke :: "string \<Rightarrow> string option \<Rightarrow> millis \<Rightarrow> auth_db \<Rightarrow> auth_db" where
  "revoke idHash ownerId now =
     revoke_where (\<lambda>s. as_idHash s = idHash \<and> (case ownerId of None \<Rightarrow> True | Some o1 \<Rightarrow> o1 = [] \<or> as_ownerId s = o1)) now"

definition revokeAll :: "string \<Rightarrow> string option \<Rightarrow> millis \<Rightarrow> auth_db \<Rightarrow> auth_db" where
  "revokeAll ownerId exceptIdHash now =
     revoke_where (\<lambda>s. as_ownerId s = ownerId \<and> (case exceptIdHash of None \<Rightarrow> True | Some h \<Rightarrow> h = [] \<or> as_idHash s \<noteq> h)) now"

text \<open>The first rows in the order the table is read that are over.\<close>

definition deleteExpired :: "rat \<Rightarrow> millis \<Rightarrow> auth_db \<Rightarrow> auth_db \<times> nat" where
  "deleteExpired batchSize now db =
     (let over = take (bounded_limit 1000 batchSize) (filter (\<lambda>s. as_expiresAt s \<le> now \<or> as_revokedAt s \<noteq> None) (ab_sessions db)) in
      (db\<lparr>ab_sessions := filter (\<lambda>s. as_idHash s \<notin> as_idHash ` set over) (ab_sessions db)\<rparr>, length over))"

end
