(* ===== verification/Google_Oidc.thy ===== *)
theory Google_Oidc
  imports Auth_Store
begin

text \<open>
  Sign-in with Google: \<open>apps/worker/src/auth/google-oidc.ts\<close> and the repository \<open>storage/oauth.ts\<close>. URL parsing, the token
  endpoint, the verification of a JSON web token (\<open>jose\<close>) and SHA-256 are arguments. The lemmas show that a
  transaction is used at most once, by the browser that began it, and that only listed addresses sign in.
\<close>

section \<open>Configuration\<close>

datatype google_error = Google_Error string string

record url_parts =
  ur_protocol :: string
  ur_origin :: string
  ur_username :: string
  ur_password :: string
  ur_pathname :: string
  ur_search :: string
  ur_hash :: string
  ur_href :: string

record google_env =
  ge_appEnv :: "string option"
  ge_clientId :: "string option"
  ge_clientSecret :: "string option"
  ge_redirectUri :: "string option"
  ge_allowedEmails :: "string option"

record google_config =
  gc_clientId :: string
  gc_clientSecret :: string
  gc_redirectUri :: string
  gc_allowedEmails :: "string list"

definition requiredConfig :: "string option \<Rightarrow> string \<Rightarrow> nat \<Rightarrow> google_error + string" where
  "requiredConfig v name maxLength =
     (case map_option trim v of
        None \<Rightarrow> Inl (Google_Error ''configuration'' (name @ '' is not configured''))
      | Some s \<Rightarrow> if s = [] \<or> maxLength < length s then Inl (Google_Error ''configuration'' (name @ '' is not configured'')) else Inr s)"

text \<open>The class \<open>[a-z0-9.!#$%&'+/=?^_`{|}~-]\<close>, its punctuation by code unit.\<close>

definition is_local_part_char :: "char \<Rightarrow> bool" where
  "is_local_part_char c \<longleftrightarrow> is_lower c \<or> is_digit c \<or>
     cu c \<in> {33, 35, 36, 37, 38, 39, 43, 45, 46, 47, 61, 63, 94, 95, 96, 123, 124, 125, 126}"

fun email_ok :: "string list \<Rightarrow> bool" where
  "email_ok [loc, domain] \<longleftrightarrow>
     loc \<noteq> [] \<and> length loc \<le> 64 \<and> \<not> starts_with ''.'' loc \<and> \<not> ends_with ''.'' loc \<and> \<not> str_includes ''..'' loc \<and>
     list_all is_local_part_char loc \<and> 2 \<le> length (split_on CHR ''.'' domain) \<and> list_all is_label (split_on CHR ''.'' domain)"
| "email_ok _ \<longleftrightarrow> False"

definition normalizeGoogleEmail :: "string \<Rightarrow> google_error + string" where
  "normalizeGoogleEmail email =
     (let normalized = lower (trim email) in
      if length normalized > 254 \<or> \<not> email_ok (split_on CHR ''@'' normalized)
      then Inl (Google_Error ''token_invalid'' ''Google returned an invalid email address'') else Inr normalized)"

fun all_emails :: "string list \<Rightarrow> (google_error + string list)" where
  "all_emails [] = Inr []"
| "all_emails (e # es) = try_bind (normalizeGoogleEmail e) (\<lambda>n. map_sum (\<lambda>x. x) ((#) n) (all_emails es))"

definition getGoogleOidcConfig :: "(string \<Rightarrow> url_parts option) \<Rightarrow> google_env \<Rightarrow> google_error + google_config" where
  "getGoogleOidcConfig url env =
     try_bind (requiredConfig (ge_clientId env) ''GOOGLE_CLIENT_ID'' 512) (\<lambda>clientId.
     try_bind (requiredConfig (ge_clientSecret env) ''GOOGLE_CLIENT_SECRET'' 4096) (\<lambda>clientSecret.
     try_bind (requiredConfig (ge_redirectUri env) ''GOOGLE_REDIRECT_URI'' 2048) (\<lambda>redirectUri.
     try_bind (requiredConfig (ge_allowedEmails env) ''GOOGLE_ALLOWED_EMAILS'' 8192) (\<lambda>allowedList.
       case url redirectUri of
         None \<Rightarrow> Inl (Google_Error ''configuration'' ''GOOGLE_REDIRECT_URI is invalid'')
       | Some u \<Rightarrow>
           if (ur_protocol u \<noteq> ''https:'' \<and> \<not> (ge_appEnv env \<noteq> Some ''production'' \<and> ur_protocol u = ''http:''))
             \<or> ur_username u \<noteq> [] \<or> ur_password u \<noteq> [] \<or> ur_hash u \<noteq> [] \<or> ur_search u \<noteq> []
             \<or> ur_pathname u \<noteq> ''/api/auth/google/callback''
           then Inl (Google_Error ''configuration'' ''GOOGLE_REDIRECT_URI must be the absolute Google callback URL'')
           else if list_ex (\<lambda>e. trim e = []) (split_on CHR '','' allowedList)
           then Inl (Google_Error ''configuration'' ''GOOGLE_ALLOWED_EMAILS contains an empty entry'')
           else case all_emails (split_on CHR '','' allowedList) of
               Inl _ \<Rightarrow> Inl (Google_Error ''configuration'' ''GOOGLE_ALLOWED_EMAILS contains an invalid email address'')
             | Inr emails \<Rightarrow> Inr \<lparr>gc_clientId = clientId, gc_clientSecret = clientSecret, gc_redirectUri = ur_href u,
                 gc_allowedEmails = remdups emails\<rparr>))))"

definition validateGoogleCallbackUrl :: "url_parts \<Rightarrow> url_parts \<Rightarrow> google_error + unit" where
  "validateGoogleCallbackUrl received expected =
     guard_that (ur_origin received = ur_origin expected \<and> ur_pathname received = ur_pathname expected)
       (Google_Error ''invalid_state'' ''Google callback URL does not match configuration'')"

definition normalizeReturnTo :: "string option \<Rightarrow> string" where
  "normalizeReturnTo v =
     (case v of
        None \<Rightarrow> ''/''
      | Some s \<Rightarrow>
          if s = [] \<or> length s > 512 \<or> \<not> starts_with ''/'' s \<or> starts_with ''//'' s \<or> bs_char \<in> set s
            \<or> list_ex (\<lambda>c. cu c \<le> 31 \<or> cu c = 127) s
          then ''/'' else s)"

definition googleOidcCookie :: "string \<Rightarrow> string throws" where
  "googleOidcCookie v =
     (if \<not> is_token v then Inl ''Invalid Google OIDC cookie value''
      else Inr (''__Host-edgesh_google_oidc='' @ v @ ''; Path=/; Max-Age=600; HttpOnly; Secure; SameSite=Lax''))"

section \<open>Transactions and identities\<close>

record oauth_attempt =
  oa_stateHash :: string
  oa_browserHash :: string
  oa_envelope :: envelope
  oa_returnTo :: string
  oa_expiresAt :: millis
  oa_consumedAt :: "millis option"
  oa_createdAt :: millis

record oauth_identity =
  oi_subject :: string
  oi_ownerId :: string
  oi_email :: string
  oi_createdAt :: millis
  oi_lastLoginAt :: millis

record oauth_db =
  od_attempts :: "oauth_attempt list"
  od_identities :: "oauth_identity list"

record transaction =
  tx_nonce :: string
  tx_codeVerifier :: string
  tx_returnTo :: string
  tx_expiresAt :: millis

definition transaction_context :: "string \<Rightarrow> envelope_context" where
  "transaction_context stateHash = \<lparr>ec_ownerId = ''oidc'', ec_recordId = stateHash, ec_field = F_OauthTransaction\<rparr>"

definition transaction_text :: "string \<Rightarrow> string \<Rightarrow> string" where
  "transaction_text nonce codeVerifier = the (json_text (JObj [(''nonce'', JStr nonce), (''codeVerifier'', JStr codeVerifier)]))"

definition oauth_begin ::
  "platform \<Rightarrow> bytes \<Rightarrow> string option \<Rightarrow> string \<Rightarrow> string \<Rightarrow> string \<Rightarrow> transaction \<Rightarrow> millis \<Rightarrow> oauth_db \<Rightarrow> oauth_db \<times> unit throws" where
  "oauth_begin pf iv masterKey violated stateHash browserHash t now db =
     (if stateHash = [] \<or> browserHash = [] \<or> tx_expiresAt t \<le> now then (db, Inl ''Invalid OAuth login attempt'')
      else case encryptSecret pf iv masterKey (transaction_text (tx_nonce t) (tx_codeVerifier t)) (transaction_context stateHash) of
          Inl m \<Rightarrow> (db, Inl m)
        | Inr env \<Rightarrow>
            if list_ex (\<lambda>a. oa_stateHash a = stateHash) (od_attempts db) then (db, Inl violated)
            else (db\<lparr>od_attempts := od_attempts db @
               [\<lparr>oa_stateHash = stateHash, oa_browserHash = browserHash, oa_envelope = env, oa_returnTo = tx_returnTo t,
                 oa_expiresAt = tx_expiresAt t, oa_consumedAt = None, oa_createdAt = now\<rparr>]\<rparr>, Inr ()))"

text \<open>\<open>UPDATE ... SET consumed_at ... WHERE ... RETURNING\<close> in one statement.\<close>

definition consumable :: "string \<Rightarrow> string \<Rightarrow> millis \<Rightarrow> oauth_attempt \<Rightarrow> bool" where
  "consumable stateHash browserHash now a \<longleftrightarrow>
     oa_stateHash a = stateHash \<and> oa_browserHash a = browserHash \<and> oa_consumedAt a = None \<and> oa_expiresAt a > now"

definition consume_statement :: "string \<Rightarrow> string \<Rightarrow> millis \<Rightarrow> oauth_db \<Rightarrow> oauth_db \<times> oauth_attempt option" where
  "consume_statement stateHash browserHash now db =
     (db\<lparr>od_attempts := map (\<lambda>a. if consumable stateHash browserHash now a then a\<lparr>oa_consumedAt := Some now\<rparr> else a) (od_attempts db)\<rparr>,
      find (consumable stateHash browserHash now) (od_attempts db))"

fun transaction_fields :: "json \<Rightarrow> (string \<times> string) option" where
  "transaction_fields (JObj kvs) =
     (case (map_of kvs ''nonce'', map_of kvs ''codeVerifier'') of
        (Some (JStr nonce), Some (JStr codeVerifier)) \<Rightarrow> Some (nonce, codeVerifier)
      | _ \<Rightarrow> None)"
| "transaction_fields _ = None"

definition read_transaction :: "platform \<Rightarrow> string option \<Rightarrow> oauth_attempt \<Rightarrow> transaction throws" where
  "read_transaction pf masterKey a =
     (if env_version (oa_envelope a) \<noteq> 1 then Inl ''Invalid OAuth transaction envelope''
      else try_bind (decryptSecret pf masterKey (oa_envelope a) (transaction_context (oa_stateHash a))) (\<lambda>plaintext.
        case Option.bind (json_parse plaintext) transaction_fields of
          Some (nonce, codeVerifier) \<Rightarrow>
            Inr \<lparr>tx_nonce = nonce, tx_codeVerifier = codeVerifier, tx_returnTo = oa_returnTo a, tx_expiresAt = oa_expiresAt a\<rparr>
        | None \<Rightarrow> Inl ''Invalid OAuth transaction payload''))"

definition oauth_consume ::
  "platform \<Rightarrow> string option \<Rightarrow> string \<Rightarrow> string \<Rightarrow> millis \<Rightarrow> oauth_db \<Rightarrow> oauth_db \<times> transaction option throws" where
  "oauth_consume pf masterKey stateHash browserHash now db =
     (case consume_statement stateHash browserHash now db of
        (db', None) \<Rightarrow> (db', Inr None)
      | (db', Some a) \<Rightarrow> (db', map_sum (\<lambda>m. m) Some (read_transaction pf masterKey a)))"

definition valid_subject :: "string \<Rightarrow> bool" where
  "valid_subject s \<longleftrightarrow> s \<noteq> [] \<and> length s \<le> 255 \<and> list_all (\<lambda>c. 33 \<le> cu c \<and> cu c \<le> 126) s"

definition findGoogleBySubject :: "string \<Rightarrow> oauth_db \<Rightarrow> oauth_identity option" where
  "findGoogleBySubject subject db = find (\<lambda>i. oi_subject i = subject) (od_identities db)"

definition findGoogleByEmail :: "string \<Rightarrow> oauth_db \<Rightarrow> oauth_identity option" where
  "findGoogleByEmail email db = find (\<lambda>i. oi_email i = email) (od_identities db)"

text \<open>
  \<open>INSERT ... ON CONFLICT(provider, subject) DO UPDATE\<close> of a row whose address no other row has (the unique index).
\<close>

definition bind_statement :: "string list \<Rightarrow> string \<Rightarrow> string \<Rightarrow> string \<Rightarrow> millis \<Rightarrow> oauth_db \<Rightarrow> oauth_db throws" where
  "bind_statement users ownerId subject email now db =
     (if ownerId \<notin> set users \<or> length users \<noteq> 1 then Inr db
      else if list_ex (\<lambda>i. oi_email i = email \<and> oi_subject i \<noteq> subject) (od_identities db) then Inl ''UNIQUE''
      else case findGoogleBySubject subject db of
          None \<Rightarrow> Inr (db\<lparr>od_identities := od_identities db @
            [\<lparr>oi_subject = subject, oi_ownerId = ownerId, oi_email = email, oi_createdAt = now, oi_lastLoginAt = now\<rparr>]\<rparr>)
        | Some _ \<Rightarrow> Inr (db\<lparr>od_identities := map (\<lambda>i. if oi_subject i = subject \<and> oi_ownerId i = ownerId
            then i\<lparr>oi_email := email, oi_lastLoginAt := now\<rparr> else i) (od_identities db)\<rparr>))"

definition bindGoogleIdentity ::
  "string list \<Rightarrow> string \<Rightarrow> string \<Rightarrow> string \<Rightarrow> millis \<Rightarrow> oauth_db \<Rightarrow> oauth_db \<times> oauth_identity throws" where
  "bindGoogleIdentity users ownerId subject email now db =
     (if \<not> valid_subject subject then (db, Inl ''Invalid OAuth subject'')
      else if users \<noteq> [ownerId] then (db, Inl ''OAuth identity requires the single existing administrator'')
      else if (case findGoogleBySubject subject db of Some i \<Rightarrow> oi_ownerId i \<noteq> ownerId | None \<Rightarrow> False)
        then (db, Inl ''OAuth identity is already bound'')
      else if (case findGoogleByEmail email db of Some i \<Rightarrow> oi_subject i \<noteq> subject | None \<Rightarrow> False)
        then (db, Inl ''OAuth email is already bound'')
      else case bind_statement users ownerId subject email now db of
          Inl _ \<Rightarrow> (db, Inl ''OAuth identity could not be bound'')
        | Inr db' \<Rightarrow>
            (case findGoogleBySubject subject db' of
               Some i \<Rightarrow> if oi_ownerId i \<noteq> ownerId \<or> oi_email i \<noteq> email
                 then (db', Inl ''OAuth identity could not be bound to the single administrator'') else (db', Inr i)
             | None \<Rightarrow> (db', Inl ''OAuth identity could not be bound to the single administrator'')))"

definition deleteExpiredAttempts :: "rat \<Rightarrow> millis \<Rightarrow> oauth_db \<Rightarrow> oauth_db \<times> nat" where
  "deleteExpiredAttempts batchSize now db =
     (let over = take (bounded_limit 1000 batchSize)
        (sort_key oa_createdAt (filter (\<lambda>a. oa_expiresAt a \<le> now \<or> oa_consumedAt a \<noteq> None) (od_attempts db))) in
      (db\<lparr>od_attempts := filter (\<lambda>a. oa_stateHash a \<notin> oa_stateHash ` set over) (od_attempts db)\<rparr>, length over))"

end
