(* ===== verification/Google_Sign_In.thy ===== *)
theory Google_Sign_In
  imports Google_Oidc
begin

text \<open>
  The sign-in itself: \<open>GoogleOidcService\<close> of \<open>apps/worker/src/auth/google-oidc.ts\<close>, from the start of a transaction to the
  identity it ends in.
\<close>

definition OIDC_ATTEMPT_TTL_SECONDS :: int where "OIDC_ATTEMPT_TTL_SECONDS = 600"

text \<open>The answer of the token endpoint; a length that is no finite number is \<open>None\<close>, a missing one is 0.\<close>

record google_response =
  gr_ok :: bool
  gr_urlOrigin :: "string option"
  gr_contentType :: "string option"
  gr_contentLength :: "rat option"
  gr_text :: string

text \<open>
  The service: its configuration, the keys of the deployment, the token endpoint for a code and its verifier (\<open>None\<close>: the
  call fails), and the payload of a token that \<open>jwtVerify\<close> accepts for the client.
\<close>

record google_service =
  gs_config :: google_config
  gs_platform :: auth_platform
  gs_masterKey :: "string option"
  gs_sessionKey :: "string option"
  gs_exchange :: "string \<Rightarrow> string \<Rightarrow> google_response option"
  gs_jwt :: "string \<Rightarrow> string \<Rightarrow> json option"

definition configured_key :: "string option \<Rightarrow> bool" where
  "configured_key k \<longleftrightarrow> k \<noteq> None \<and> k \<noteq> Some []"

definition token_invalid :: "google_error + 'a" where
  "token_invalid = Inl (Google_Error ''token_invalid'' ''Google ID token validation failed'')"

definition check_claims :: "google_config \<Rightarrow> string \<Rightarrow> json \<Rightarrow> google_error + (string \<times> string)" where
  "check_claims config expectedNonce payload =
     (case (js_get payload ''sub'', js_get payload ''email'', js_get payload ''email_verified'', js_get payload ''nonce'',
            js_get payload ''azp'') of
        (Inr (Some (JStr sub)), Inr (Some (JStr email)), Inr (Some (JBool True)), Inr (Some (JStr nonce)), Inr azp) \<Rightarrow>
          if sub = [] \<or> length sub > 255 then token_invalid
          else if \<not> constantTimeEqual (utf8 nonce) (utf8 expectedNonce) then token_invalid
          else if azp \<noteq> None \<and> azp \<noteq> Some (JStr (gc_clientId config)) then token_invalid
          else map_sum (\<lambda>e. e) (\<lambda>n. (sub, n)) (normalizeGoogleEmail email)
      | _ \<Rightarrow> token_invalid)"

definition verifyGoogleIdToken ::
  "(string \<Rightarrow> string \<Rightarrow> json option) \<Rightarrow> google_config \<Rightarrow> string \<Rightarrow> string \<Rightarrow> google_error + (string \<times> string)" where
  "verifyGoogleIdToken jwt config expectedNonce idToken =
     (if idToken = [] \<or> length idToken > 16 * 1024 then Inl (Google_Error ''token_invalid'' ''Google ID token is invalid'')
      else case jwt idToken (gc_clientId config) of
          None \<Rightarrow> token_invalid
        | Some payload \<Rightarrow> check_claims config expectedNonce payload)"

definition exchangeCode :: "google_service \<Rightarrow> string \<Rightarrow> string \<Rightarrow> google_error + string" where
  "exchangeCode s code codeVerifier =
     (case gs_exchange s code codeVerifier of
        None \<Rightarrow> Inl (Google_Error ''provider_error'' ''Google token exchange failed'')
      | Some r \<Rightarrow>
          if \<not> gr_ok r then Inl (Google_Error ''provider_error'' ''Google token exchange failed'')
          else if gr_urlOrigin r \<noteq> None \<and> gr_urlOrigin r \<noteq> Some ''https://oauth2.googleapis.com''
          then Inl (Google_Error ''provider_error'' ''Google token exchange failed'')
          else if (case gr_contentType r of None \<Rightarrow> True | Some t \<Rightarrow> \<not> starts_with ''application/json'' (lower t))
          then Inl (Google_Error ''provider_error'' ''Google token response is invalid'')
          else if (case gr_contentLength r of None \<Rightarrow> False | Some n \<Rightarrow> n > 65536)
          then Inl (Google_Error ''provider_error'' ''Google token response is too large'')
          else if length (utf8 (gr_text r)) > 65536 then Inl (Google_Error ''provider_error'' ''Google token response is invalid'')
          else case json_parse (gr_text r) of
              None \<Rightarrow> Inl (Google_Error ''provider_error'' ''Google token response is invalid'')
            | Some body \<Rightarrow>
                (case js_get body ''id_token'' of
                   Inr (Some (JStr token)) \<Rightarrow> Inr token
                 | _ \<Rightarrow> Inl (Google_Error ''provider_error'' ''Google ID token is missing'')))"

text \<open>The fresh random values of a transaction, as texts.\<close>

record google_random =
  gn_state :: string
  gn_browserToken :: string
  gn_nonce :: string
  gn_codeVerifier :: string
  gn_iv :: bytes

definition authorization_query :: "google_service \<Rightarrow> google_random \<Rightarrow> (string \<times> string) list" where
  "authorization_query s r =
     [(''client_id'', gc_clientId (gs_config s)), (''redirect_uri'', gc_redirectUri (gs_config s)), (''response_type'', ''code''),
      (''scope'', ''openid email''), (''state'', gn_state r), (''nonce'', gn_nonce r),
      (''code_challenge'', sha256Base64Url (ap_aead (gs_platform s)) (utf8 (gn_codeVerifier r))),
      (''code_challenge_method'', ''S256''), (''prompt'', ''select_account'')]"

definition google_begin ::
  "google_service \<Rightarrow> string \<Rightarrow> google_random \<Rightarrow> string option \<Rightarrow> millis \<Rightarrow> oauth_db \<Rightarrow>
     oauth_db \<times> (google_error + ((string \<times> string) list \<times> string \<times> millis))" where
  "google_begin s violated r returnTo now db =
     (if \<not> configured_key (gs_sessionKey s) \<or> \<not> configured_key (gs_masterKey s)
      then (db, Inl (Google_Error ''configuration'' ''OIDC security keys are not configured''))
      else case (hashSessionMetadata (gs_platform s) (gn_state r) ''oidc-state'' (gs_sessionKey s),
                 hashSessionMetadata (gs_platform s) (gn_browserToken r) ''oidc-browser'' (gs_sessionKey s)) of
          (Inr stateHash, Inr browserHash) \<Rightarrow>
            let expiresAt = now + OIDC_ATTEMPT_TTL_SECONDS * 1000;
                db = prod.fst (deleteExpiredAttempts 100 now db) in
            (case oauth_begin (ap_aead (gs_platform s)) (gn_iv r) (gs_masterKey s) violated stateHash browserHash
                \<lparr>tx_nonce = gn_nonce r, tx_codeVerifier = gn_codeVerifier r, tx_returnTo = normalizeReturnTo returnTo,
                  tx_expiresAt = expiresAt\<rparr> now db of
               (db', Inl m) \<Rightarrow> (db', Inl (Google_Error ''internal'' m))
             | (db', Inr _) \<Rightarrow> (db', Inr (authorization_query s r, gn_browserToken r, expiresAt)))
        | (Inl m, _) \<Rightarrow> (db, Inl (Google_Error ''internal'' m))
        | (_, Inl m) \<Rightarrow> (db, Inl (Google_Error ''internal'' m)))"

definition consumeAttempt :: "google_service \<Rightarrow> string \<Rightarrow> string \<Rightarrow> millis \<Rightarrow> oauth_db \<Rightarrow> oauth_db \<times> (google_error + transaction)" where
  "consumeAttempt s st browserToken now db =
     (if \<not> configured_key (gs_sessionKey s) \<or> \<not> is_token st \<or> \<not> is_token browserToken
      then (db, Inl (Google_Error ''invalid_state'' ''Google login transaction is invalid''))
      else case (hashSessionMetadata (gs_platform s) st ''oidc-state'' (gs_sessionKey s),
                 hashSessionMetadata (gs_platform s) browserToken ''oidc-browser'' (gs_sessionKey s)) of
          (Inr stateHash, Inr browserHash) \<Rightarrow>
            (case oauth_consume (ap_aead (gs_platform s)) (gs_masterKey s) stateHash browserHash now db of
               (db', Inl m) \<Rightarrow> (db', Inl (Google_Error ''internal'' m))
             | (db', Inr None) \<Rightarrow> (db', Inl (Google_Error ''invalid_state'' ''Google login transaction is invalid or expired''))
             | (db', Inr (Some t)) \<Rightarrow> (db', Inr t))
        | (Inl m, _) \<Rightarrow> (db, Inl (Google_Error ''internal'' m))
        | (_, Inl m) \<Rightarrow> (db, Inl (Google_Error ''internal'' m)))"

definition google_cancel :: "google_service \<Rightarrow> string \<Rightarrow> string \<Rightarrow> millis \<Rightarrow> oauth_db \<Rightarrow> oauth_db \<times> (google_error + string)" where
  "google_cancel s st browserToken now db = map_prod (\<lambda>d. d) (map_sum (\<lambda>e. e) tx_returnTo) (consumeAttempt s st browserToken now db)"

text \<open>The transaction is consumed at \<open>now\<close>, the identity is bound at \<open>later\<close>.\<close>

definition google_complete ::
  "google_service \<Rightarrow> string list \<Rightarrow> string \<Rightarrow> string \<Rightarrow> string \<Rightarrow> string \<Rightarrow> millis \<Rightarrow> millis \<Rightarrow> oauth_db \<Rightarrow>
     oauth_db \<times> (google_error + (oauth_identity \<times> string))" where
  "google_complete s users st browserToken code ownerId now later db =
     (if \<not> configured_key (gs_sessionKey s) \<or> \<not> configured_key (gs_masterKey s)
      then (db, Inl (Google_Error ''configuration'' ''OIDC security keys are not configured''))
      else if code = [] \<or> length code > 4096 then (db, Inl (Google_Error ''invalid_state'' ''Google login transaction is invalid''))
      else case consumeAttempt s st browserToken now db of
          (db', Inl e) \<Rightarrow> (db', Inl e)
        | (db', Inr attempt) \<Rightarrow>
            (case try_bind (exchangeCode s code (tx_codeVerifier attempt)) (verifyGoogleIdToken (gs_jwt s) (gs_config s) (tx_nonce attempt)) of
               Inl e \<Rightarrow> (db', Inl e)
             | Inr (subject, email) \<Rightarrow>
                 if email \<notin> set (gc_allowedEmails (gs_config s))
                 then (db', Inl (Google_Error ''email_not_allowed'' ''Google account is not allowed''))
                 else (case bindGoogleIdentity users ownerId subject email later db' of
                     (db'', Inl _) \<Rightarrow> (db'', Inl (Google_Error ''identity_conflict'' ''Google identity could not be bound''))
                   | (db'', Inr identity) \<Rightarrow> (db'', Inr (identity, tx_returnTo attempt)))))"

section \<open>What a completed sign-in means\<close>

lemma consumed_for_good:
  assumes "now \<le> later"
  shows "find (consumable sh bh later) (od_attempts (prod.fst (consume_statement sh bh now db))) = None"
proof -
  have "find (consumable sh bh later) (map (\<lambda>a. if consumable sh bh now a then a\<lparr>oa_consumedAt := Some now\<rparr> else a) xs) = None" for xs
    using assms by (induction xs) (auto simp: consumable_def)
  then show ?thesis by (simp add: consume_statement_def)
qed

lemma read_transaction_returnTo: "read_transaction pf masterKey a = Inr t \<Longrightarrow> tx_returnTo t = oa_returnTo a"
  by (auto simp: read_transaction_def try_bind_eq_Inr split: if_splits option.splits)

lemma bind_attempts: "od_attempts (prod.fst (bindGoogleIdentity users ownerId subject email now db)) = od_attempts db"
  by (auto simp: bindGoogleIdentity_def bind_statement_def split: option.splits sum.splits)

lemma bind_result:
  "bindGoogleIdentity users ownerId subject email now db = (db', Inr i) \<Longrightarrow>
    users = [ownerId] \<and> oi_ownerId i = ownerId \<and> oi_email i = email \<and> oi_subject i = subject"
  by (auto simp: bindGoogleIdentity_def findGoogleBySubject_def find_Some_iff split: option.splits sum.splits if_splits)

lemma consumeAttempt_Inr:
  assumes "consumeAttempt s st browserToken now db = (db', Inr t)"
  obtains sh bh a where "hashSessionMetadata (gs_platform s) st ''oidc-state'' (gs_sessionKey s) = Inr sh"
    "hashSessionMetadata (gs_platform s) browserToken ''oidc-browser'' (gs_sessionKey s) = Inr bh"
    "find (consumable sh bh now) (od_attempts db) = Some a" "read_transaction (ap_aead (gs_platform s)) (gs_masterKey s) a = Inr t"
    "db' = prod.fst (consume_statement sh bh now db)"
  using assms
  by (auto simp: consumeAttempt_def oauth_consume_def consume_statement_def map_sum_Inr split: if_splits sum.splits option.splits)

lemma check_claims_Inr:
  assumes "check_claims config nonce payload = Inr (sub, email)"
  shows "js_get payload ''nonce'' = Inr (Some (JStr nonce)) \<and> js_get payload ''email_verified'' = Inr (Some (JBool True)) \<and>
    js_get payload ''sub'' = Inr (Some (JStr sub)) \<and>
    (\<exists>e. js_get payload ''email'' = Inr (Some (JStr e)) \<and> normalizeGoogleEmail e = Inr email)"
  using assms
  by (auto simp: check_claims_def token_invalid_def map_sum_Inr constantTimeEqual_iff
      split: sum.splits option.splits json.splits bool.splits if_splits)

text \<open>
  C12: A completed sign-in with Google consumed a transaction that this browser began, that was neither consumed nor
  expired and that can never be consumed again; the token it exchanged is verified for this application and carries the
  nonce of that transaction and a verified address; the address is on the list; and the identity belongs to the only
  account there is.
\<close>

theorem google_sign_in_sound:
  assumes "google_complete s users st browserToken code ownerId now later db = (db', Inr (identity, returnTo))"
  shows "\<exists>sh bh a t token payload email.
    hashSessionMetadata (gs_platform s) st ''oidc-state'' (gs_sessionKey s) = Inr sh \<and>
    hashSessionMetadata (gs_platform s) browserToken ''oidc-browser'' (gs_sessionKey s) = Inr bh \<and>
    find (consumable sh bh now) (od_attempts db) = Some a \<and> oa_returnTo a = returnTo \<and>
    read_transaction (ap_aead (gs_platform s)) (gs_masterKey s) a = Inr t \<and>
    (\<forall>n. find (consumable sh bh (now + of_nat n)) (od_attempts db') = None) \<and>
    exchangeCode s code (tx_codeVerifier t) = Inr token \<and> gs_jwt s token (gc_clientId (gs_config s)) = Some payload \<and>
    js_get payload ''nonce'' = Inr (Some (JStr (tx_nonce t))) \<and> js_get payload ''email_verified'' = Inr (Some (JBool True)) \<and>
    js_get payload ''email'' = Inr (Some (JStr email)) \<and> normalizeGoogleEmail email = Inr (oi_email identity) \<and>
    oi_email identity \<in> set (gc_allowedEmails (gs_config s)) \<and> users = [ownerId] \<and> oi_ownerId identity = ownerId"
proof -
  obtain db1 t token sub where c: "consumeAttempt s st browserToken now db = (db1, Inr t)"
    "exchangeCode s code (tx_codeVerifier t) = Inr token"
    "verifyGoogleIdToken (gs_jwt s) (gs_config s) (tx_nonce t) token = Inr (sub, oi_email identity)"
    "oi_email identity \<in> set (gc_allowedEmails (gs_config s))"
    "bindGoogleIdentity users ownerId sub (oi_email identity) later db1 = (db', Inr identity)" "returnTo = tx_returnTo t"
    using assms
    by (auto simp: google_complete_def try_bind_eq_Inr dest: bind_result split: if_splits prod.splits sum.splits)
  obtain sh bh a where a: "hashSessionMetadata (gs_platform s) st ''oidc-state'' (gs_sessionKey s) = Inr sh"
    "hashSessionMetadata (gs_platform s) browserToken ''oidc-browser'' (gs_sessionKey s) = Inr bh"
    "find (consumable sh bh now) (od_attempts db) = Some a" "read_transaction (ap_aead (gs_platform s)) (gs_masterKey s) a = Inr t"
    "db1 = prod.fst (consume_statement sh bh now db)"
    by (rule consumeAttempt_Inr [OF c(1)])
  have "od_attempts db' = od_attempts db1" using bind_attempts [of users ownerId sub "oi_email identity" later db1] c(5) by simp
  then have "find (consumable sh bh (now + of_nat n)) (od_attempts db') = None" for n
    using consumed_for_good [of now "now + of_nat n" sh bh db] a(5) by simp
  moreover have "oa_returnTo a = returnTo"
    using read_transaction_returnTo [OF a(4)] c(6) by simp
  moreover obtain payload where p: "gs_jwt s token (gc_clientId (gs_config s)) = Some payload"
      "check_claims (gs_config s) (tx_nonce t) payload = Inr (sub, oi_email identity)"
    using c(3) by (auto simp: verifyGoogleIdToken_def token_invalid_def split: if_splits option.splits)
  moreover obtain email where e: "js_get payload ''email'' = Inr (Some (JStr email))" "normalizeGoogleEmail email = Inr (oi_email identity)"
    using check_claims_Inr [OF p(2)] by blast
  ultimately show ?thesis
    using a c(2,4) check_claims_Inr [OF p(2)] bind_result [OF c(5)]
    by (intro exI [of _ sh] exI [of _ bh] exI [of _ a] exI [of _ t] exI [of _ token] exI [of _ payload] exI [of _ email]) simp
qed

definition demo_auth_platform :: auth_platform where
  "demo_auth_platform = \<lparr>ap_derive = (\<lambda>p s i. take 32 (p @ replicate 32 0)), ap_hmac1 = (\<lambda>k m. m),
     ap_hmac256 = (\<lambda>k m. take 32 (rev m @ replicate 32 0)), ap_aead = demo_aead\<rparr>"

definition demo_google :: google_service where
  "demo_google = \<lparr>
     gs_config = \<lparr>gc_clientId = ''c'', gc_clientSecret = ''s'', gc_redirectUri = ''u'', gc_allowedEmails = [''a@b.c'']\<rparr>,
     gs_platform = demo_auth_platform, gs_masterKey = Some demo_master_key, gs_sessionKey = Some demo_master_key,
     gs_exchange = (\<lambda>code verifier. Some \<lparr>gr_ok = True, gr_urlOrigin = None, gr_contentType = Some ''application/json'',
       gr_contentLength = None, gr_text = the (json_text (JObj [(''id_token'', JStr ''t'')]))\<rparr>),
     gs_jwt = (\<lambda>token client. Some (JObj [(''sub'', JStr ''1''), (''email'', JStr ''A@b.c''), (''email_verified'', JBool True),
       (''nonce'', JStr ''n'')]))\<rparr>"

definition demo_random :: google_random where
  "demo_random = \<lparr>gn_state = replicate 43 CHR ''s'', gn_browserToken = replicate 43 CHR ''b'', gn_nonce = ''n'', gn_codeVerifier = ''v'',
     gn_iv = replicate 12 0\<rparr>"

section \<open>A transaction that was begun can be completed\<close>

lemma transaction_text_reads: "Option.bind (json_parse (transaction_text n v)) transaction_fields = Some (n, v)"
proof -
  let ?j = "JObj [(''nonce'', JStr n), (''codeVerifier'', JStr v)]"
  obtain t where t: "json_text ?j = Some t" by simp
  have "json_parse t = Some ?j" by (rule json_parse_text [OF _ t]) simp
  then show ?thesis using t by (simp add: transaction_text_def)
qed

lemma read_begun:
  assumes "aead_law pf" "length iv = 12"
    "encryptSecret pf iv mk (transaction_text n v) (transaction_context (oa_stateHash a)) = Inr (oa_envelope a)"
  shows "read_transaction pf mk a = Inr \<lparr>tx_nonce = n, tx_codeVerifier = v, tx_returnTo = oa_returnTo a, tx_expiresAt = oa_expiresAt a\<rparr>"
proof -
  have "env_version (oa_envelope a) = 1" using assms(3) by (auto simp: encryptSecret_Inr CREDENTIAL_ENVELOPE_VERSION_def)
  then show ?thesis
    by (simp add: read_transaction_def decryptSecret_of_encrypted [OF assms] try_bind_def transaction_text_reads)
qed

lemma oauth_begin_Inr:
  assumes "oauth_begin pf iv mk violated sh bh t now db = (db', Inr u)"
  obtains env where "encryptSecret pf iv mk (transaction_text (tx_nonce t) (tx_codeVerifier t)) (transaction_context sh) = Inr env"
    "\<not> list_ex (\<lambda>a. oa_stateHash a = sh) (od_attempts db)"
    "od_attempts db' = od_attempts db @ [\<lparr>oa_stateHash = sh, oa_browserHash = bh, oa_envelope = env, oa_returnTo = tx_returnTo t,
       oa_expiresAt = tx_expiresAt t, oa_consumedAt = None, oa_createdAt = now\<rparr>]"
proof (cases "encryptSecret pf iv mk (transaction_text (tx_nonce t) (tx_codeVerifier t)) (transaction_context sh)")
  case (Inr env)
  have "\<not> list_ex (\<lambda>a. oa_stateHash a = sh) (od_attempts db)"
    using assms by (auto simp: oauth_begin_def Inr split: if_splits)
  with assms show thesis
    by (intro that [of env]) (auto simp: oauth_begin_def Inr simp del: list_ex_iff split: if_splits)
qed (use assms in \<open>auto simp: oauth_begin_def split: if_splits\<close>)

lemma google_begin_Inr:
  assumes "google_begin s violated r returnTo now db = (db', Inr (query, browserToken, expiresAt))"
  obtains sh bh where "configured_key (gs_sessionKey s)"
    "hashSessionMetadata (gs_platform s) (gn_state r) ''oidc-state'' (gs_sessionKey s) = Inr sh"
    "hashSessionMetadata (gs_platform s) (gn_browserToken r) ''oidc-browser'' (gs_sessionKey s) = Inr bh"
    "oauth_begin (ap_aead (gs_platform s)) (gn_iv r) (gs_masterKey s) violated sh bh
       \<lparr>tx_nonce = gn_nonce r, tx_codeVerifier = gn_codeVerifier r, tx_returnTo = normalizeReturnTo returnTo,
         tx_expiresAt = now + OIDC_ATTEMPT_TTL_SECONDS * 1000\<rparr> now (prod.fst (deleteExpiredAttempts 100 now db)) = (db', Inr ())"
    "query = authorization_query s r" "browserToken = gn_browserToken r" "expiresAt = now + OIDC_ATTEMPT_TTL_SECONDS * 1000"
proof (cases "hashSessionMetadata (gs_platform s) (gn_state r) ''oidc-state'' (gs_sessionKey s)")
  case sh: (Inr sh)
  show thesis
  proof (cases "hashSessionMetadata (gs_platform s) (gn_browserToken r) ''oidc-browser'' (gs_sessionKey s)")
    case bh: (Inr bh)
    show thesis
      using assms by (intro that [OF _ sh bh]) (simp_all add: google_begin_def sh bh Let_def split: if_splits prod.splits sum.splits)
  qed (use assms sh in \<open>simp add: google_begin_def split: if_splits\<close>)
qed (use assms in \<open>simp add: google_begin_def split: if_splits sum.splits\<close>)

lemma find_last: "\<not> list_ex P xs \<Longrightarrow> P x \<Longrightarrow> find P (xs @ [x]) = Some x"
  by (induction xs) auto

lemma consume_begun:
  assumes "aead_law (ap_aead (gs_platform s))" "length (gn_iv r) = 12" "is_token (gn_state r)" "is_token (gn_browserToken r)"
    "google_begin s violated r returnTo now db = (db', Inr (query, browserToken, expiresAt))" "t < expiresAt"
  shows "prod.snd (consumeAttempt s (gn_state r) browserToken t db') =
    Inr \<lparr>tx_nonce = gn_nonce r, tx_codeVerifier = gn_codeVerifier r, tx_returnTo = normalizeReturnTo returnTo, tx_expiresAt = expiresAt\<rparr>"
proof -
  obtain sh bh where k: "configured_key (gs_sessionKey s)"
    "hashSessionMetadata (gs_platform s) (gn_state r) ''oidc-state'' (gs_sessionKey s) = Inr sh"
    "hashSessionMetadata (gs_platform s) (gn_browserToken r) ''oidc-browser'' (gs_sessionKey s) = Inr bh"
    and begun: "oauth_begin (ap_aead (gs_platform s)) (gn_iv r) (gs_masterKey s) violated sh bh
       \<lparr>tx_nonce = gn_nonce r, tx_codeVerifier = gn_codeVerifier r, tx_returnTo = normalizeReturnTo returnTo,
         tx_expiresAt = now + OIDC_ATTEMPT_TTL_SECONDS * 1000\<rparr> now (prod.fst (deleteExpiredAttempts 100 now db)) = (db', Inr ())"
    and eqs: "query = authorization_query s r" "browserToken = gn_browserToken r" "expiresAt = now + OIDC_ATTEMPT_TTL_SECONDS * 1000"
    by (rule google_begin_Inr [OF assms(5)])
  obtain env where e: "encryptSecret (ap_aead (gs_platform s)) (gn_iv r) (gs_masterKey s)
      (transaction_text (gn_nonce r) (gn_codeVerifier r)) (transaction_context sh) = Inr env"
    "\<not> list_ex (\<lambda>a. oa_stateHash a = sh) (od_attempts (prod.fst (deleteExpiredAttempts 100 now db)))"
    "od_attempts db' = od_attempts (prod.fst (deleteExpiredAttempts 100 now db)) @
      [\<lparr>oa_stateHash = sh, oa_browserHash = bh, oa_envelope = env, oa_returnTo = normalizeReturnTo returnTo,
        oa_expiresAt = now + OIDC_ATTEMPT_TTL_SECONDS * 1000, oa_consumedAt = None, oa_createdAt = now\<rparr>]"
    by (rule oauth_begin_Inr [OF begun]) simp
  let ?a = "\<lparr>oa_stateHash = sh, oa_browserHash = bh, oa_envelope = env, oa_returnTo = normalizeReturnTo returnTo,
    oa_expiresAt = now + OIDC_ATTEMPT_TTL_SECONDS * 1000, oa_consumedAt = None, oa_createdAt = now\<rparr>"
  have "find (consumable sh bh t) (od_attempts db') = Some ?a"
    using e(2) assms(6) unfolding e(3) by (intro find_last) (auto simp: consumable_def eqs(3) list_ex_iff)
  moreover have "read_transaction (ap_aead (gs_platform s)) (gs_masterKey s) ?a =
    Inr \<lparr>tx_nonce = gn_nonce r, tx_codeVerifier = gn_codeVerifier r, tx_returnTo = normalizeReturnTo returnTo, tx_expiresAt = expiresAt\<rparr>"
    using read_begun [OF assms(1,2), of "gs_masterKey s" "gn_nonce r" "gn_codeVerifier r" ?a] e(1) by (simp add: eqs(3))
  ultimately show ?thesis
    using assms(3,4) k by (simp add: consumeAttempt_def oauth_consume_def consume_statement_def eqs(2))
qed

text \<open>
  A transaction that began can be consumed by the browser that holds its cookie, with the state of the address it was
  sent to, until it expires ten minutes later, and gives back the nonce and the verifier it was begun with.
\<close>

theorem google_transaction_kept:
  assumes "aead_law (ap_aead (gs_platform s))" "length (gn_iv r) = 12" "is_token (gn_state r)" "is_token (gn_browserToken r)"
    "google_begin s violated r returnTo now db = (db', Inr (query, browserToken, expiresAt))" "t < expiresAt"
  shows "expiresAt = now + 600000 \<and> (\<exists>st. map_of query ''state'' = Some st \<and>
    prod.snd (consumeAttempt s st browserToken t db') = Inr \<lparr>tx_nonce = gn_nonce r, tx_codeVerifier = gn_codeVerifier r,
      tx_returnTo = normalizeReturnTo returnTo, tx_expiresAt = expiresAt\<rparr>)"
proof -
  have "query = authorization_query s r" "browserToken = gn_browserToken r" "expiresAt = now + OIDC_ATTEMPT_TTL_SECONDS * 1000"
    by (rule google_begin_Inr [OF assms(5)]; assumption)+
  then show ?thesis using consume_begun [OF assms] by (simp add: authorization_query_def OIDC_ATTEMPT_TTL_SECONDS_def)
qed

section \<open>Concrete sign-in\<close>

definition demo_begun :: "oauth_db \<times> (google_error + ((string \<times> string) list \<times> string \<times> millis))" where
  "demo_begun = google_begin demo_google ''UNIQUE'' demo_random None 1000 \<lparr>od_attempts = [], od_identities = []\<rparr>"

lemma demo_keys: "configured_key (gs_sessionKey demo_google)" "configured_key (gs_masterKey demo_google)"
  by (simp_all add: configured_key_def demo_google_def demo_master_key_def)

lemma demo_tokens: "is_token (gn_state demo_random)" "is_token (gn_browserToken demo_random)"
  by code_simp+

lemma demo_metadata: "\<exists>h. h \<noteq> [] \<and> hashSessionMetadata demo_auth_platform v purpose (Some demo_master_key) = Inr h"
proof -
  have "demo_master_key \<noteq> []" by (simp add: demo_master_key_def)
  then show ?thesis
    using demo_master_key_bytes
    by (simp add: hashSessionMetadata_def demo_auth_platform_def importMasterKey_def try_bind_def encodeBase64Url_nonempty)
qed

lemma demo_encrypts: "\<exists>env. sh \<noteq> [] \<longrightarrow>
    encryptSecret demo_aead (replicate 12 0) (Some demo_master_key) plaintext (transaction_context sh) = Inr env"
  by (simp add: encryptSecret_Inr demo_master_key_bytes encodeContext_def transaction_context_def) (simp add: demo_master_key_def)

lemma demo_begun_ok: "\<exists>db query. demo_begun = (db, Inr (query, gn_browserToken demo_random, 601000)) \<and> od_identities db = []
    \<and> map_of query ''state'' = Some (gn_state demo_random)"
proof -
  obtain sh where sh: "sh \<noteq> []" "hashSessionMetadata demo_auth_platform (gn_state demo_random) ''oidc-state'' (Some demo_master_key) = Inr sh"
    using demo_metadata by blast
  obtain bh where bh: "bh \<noteq> []" "hashSessionMetadata demo_auth_platform (gn_browserToken demo_random) ''oidc-browser'' (Some demo_master_key) = Inr bh"
    using demo_metadata by blast
  obtain env where env: "encryptSecret demo_aead (replicate 12 0) (Some demo_master_key) (transaction_text ''n'' ''v'') (transaction_context sh) = Inr env"
    using demo_encrypts sh(1) by blast
  have fields: "gs_platform demo_google = demo_auth_platform" "gs_sessionKey demo_google = Some demo_master_key"
    "gs_masterKey demo_google = Some demo_master_key" "ap_aead demo_auth_platform = demo_aead" "gn_iv demo_random = replicate 12 0"
    "gn_nonce demo_random = ''n''" "gn_codeVerifier demo_random = ''v''"
    by (simp_all add: demo_google_def demo_auth_platform_def demo_random_def)
  show ?thesis
    using demo_keys sh bh env unfolding demo_begun_def google_begin_def fields
    by (simp add: fields oauth_begin_def deleteExpiredAttempts_def Let_def OIDC_ATTEMPT_TTL_SECONDS_def authorization_query_def)
qed

lemma demo_laws: "aead_law (ap_aead (gs_platform demo_google))" "length (gn_iv demo_random) = 12"
  by (simp_all add: demo_google_def demo_auth_platform_def demo_aead_law demo_random_def)

lemma google_transaction_kept_witness:
  "\<exists>db query. demo_begun = (db, Inr (query, gn_browserToken demo_random, 601000)) \<and>
    prod.snd (consumeAttempt demo_google (gn_state demo_random) (gn_browserToken demo_random) 2000 db) =
      Inr \<lparr>tx_nonce = ''n'', tx_codeVerifier = ''v'', tx_returnTo = ''/'', tx_expiresAt = 601000\<rparr>"
proof -
  obtain db query where b: "demo_begun = (db, Inr (query, gn_browserToken demo_random, 601000))"
      "map_of query ''state'' = Some (gn_state demo_random)"
    using demo_begun_ok by blast
  show ?thesis
    using google_transaction_kept [OF demo_laws demo_tokens b(1) [unfolded demo_begun_def], of 2000] b
    by (intro exI [of _ db] exI [of _ query]) (simp add: demo_random_def normalizeReturnTo_def)
qed

definition demo_completed :: "oauth_db \<times> (google_error + (oauth_identity \<times> string))" where
  "demo_completed = google_complete demo_google [''u''] (gn_state demo_random) (gn_browserToken demo_random) ''code'' ''u'' 2000 3000
     (prod.fst demo_begun)"

lemma demo_exchange: "exchangeCode demo_google code verifier = Inr ''t''"
proof -
  obtain t where t: "json_text (JObj [(''id_token'', JStr ''t'')]) = Some t" by simp
  have "json_parse t = Some (JObj [(''id_token'', JStr ''t'')])" by (rule json_parse_text [OF _ t]) simp
  moreover have "length (the (json_text (JObj [(''id_token'', JStr ''t'')]))) = 16" by code_simp
  then have "length (utf8 (the (json_text (JObj [(''id_token'', JStr ''t'')])))) \<le> 65536"
    using length_utf8_le [of "the (json_text (JObj [(''id_token'', JStr ''t'')]))"] by linarith
  moreover have "starts_with ''application/json'' (lower ''application/json'')" by code_simp
  ultimately show ?thesis using t by (simp add: exchangeCode_def demo_google_def del: json_text.simps)
qed

lemma demo_verified: "verifyGoogleIdToken (gs_jwt demo_google) (gs_config demo_google) ''n'' ''t'' = Inr (''1'', ''a@b.c'')"
  by code_simp

lemma demo_bound: "od_identities db = [] \<Longrightarrow> \<exists>db' i. bindGoogleIdentity [''u''] ''u'' ''1'' ''a@b.c'' t db = (db', Inr i)"
  by (simp add: bindGoogleIdentity_def valid_subject_def findGoogleBySubject_def findGoogleByEmail_def bind_statement_def cu_def)

lemma demo_completed_ok: "\<exists>db i. demo_completed = (db, Inr (i, ''/''))"
proof -
  obtain db query where b: "demo_begun = (db, Inr (query, gn_browserToken demo_random, 601000))" "od_identities db = []"
    using demo_begun_ok by blast
  obtain db1 where c: "consumeAttempt demo_google (gn_state demo_random) (gn_browserToken demo_random) 2000 db =
      (db1, Inr \<lparr>tx_nonce = ''n'', tx_codeVerifier = ''v'', tx_returnTo = ''/'', tx_expiresAt = 601000\<rparr>)"
    using consume_begun [OF demo_laws demo_tokens b(1) [unfolded demo_begun_def], of 2000]
    by (cases "consumeAttempt demo_google (gn_state demo_random) (gn_browserToken demo_random) 2000 db")
      (simp add: demo_random_def normalizeReturnTo_def)
  obtain sh bh a where "db1 = prod.fst (consume_statement sh bh 2000 db)" by (rule consumeAttempt_Inr [OF c])
  then have "od_identities db1 = []" using b(2) by (simp add: consume_statement_def)
  then obtain db2 i where "bindGoogleIdentity [''u''] ''u'' ''1'' ''a@b.c'' 3000 db1 = (db2, Inr i)" using demo_bound by blast
  moreover have "gc_allowedEmails (gs_config demo_google) = [''a@b.c'']" by (simp add: demo_google_def)
  ultimately show ?thesis
    using demo_keys by (simp add: demo_completed_def google_complete_def b(1) c demo_exchange demo_verified try_bind_def)
qed

lemma google_sign_in_sound_witness:
  "\<exists>identity. prod.snd demo_completed = Inr (identity, ''/'') \<and> oi_email identity \<in> set (gc_allowedEmails (gs_config demo_google)) \<and>
    oi_ownerId identity = ''u''"
proof -
  obtain db i where d: "demo_completed = (db, Inr (i, ''/''))" using demo_completed_ok by blast
  show ?thesis using google_sign_in_sound [OF d [unfolded demo_completed_def]] by (auto simp: d)
qed

end
