(* ===== verification/Auth_Flow.thy ===== *)
theory Auth_Flow
  imports Google_Sign_In Login_Limiter
begin

text \<open>
  The authentication routes of the Worker (\<open>apps/worker/src/http/auth.ts\<close>) over the accounts, the login sessions, the
  Google transactions and the limiters, and the system they make: requests in any order, each at its time. The main
  result is that a request is authenticated only by a session that a complete login created.
\<close>

datatype http_error = Http_Error nat string string

record auth_env =
  ae_platform :: auth_platform
  ae_adminHash :: "string option"
  ae_masterKey :: "string option"
  ae_sessionKey :: "string option"
  ae_violated :: string

definition not_configured :: "string \<Rightarrow> http_error" where
  "not_configured what = Http_Error 503 ''AUTH_CONFIGURATION_MISSING'' (what @ '' is not configured'')"

definition internal_error :: http_error where
  "internal_error = Http_Error 500 ''INTERNAL_ERROR'' ''Internal server error''"

text \<open>The headers that matter here.\<close>

record auth_request =
  aq_cookie :: "string option"
  aq_connectingIp :: "string option"
  aq_realIp :: "string option"
  aq_userAgent :: "string option"

definition getClientAddress :: "auth_request \<Rightarrow> string" where
  "getClientAddress q =
     (case map_option trim (aq_connectingIp q) of
        Some (c # s) \<Rightarrow> c # s
      | _ \<Rightarrow> (case map_option trim (aq_realIp q) of Some (c # s) \<Rightarrow> c # s | _ \<Rightarrow> ''unknown''))"

section \<open>Sessions\<close>

text \<open>Errors thrown here are no \<open>HttpError\<close>: the router answers them with status 500.\<close>

definition issueAppSession ::
  "auth_env \<Rightarrow> auth_request \<Rightarrow> bytes \<Rightarrow> user_row \<Rightarrow> millis \<Rightarrow> auth_db \<Rightarrow> auth_db \<times> (string \<times> auth_session) throws" where
  "issueAppSession env q random_bytes user now db =
     (let token = createSessionToken random_bytes; ap = ae_platform env; key = ae_sessionKey env in
      case try_bind (hashSessionToken ap token key) (\<lambda>idHash.
           try_bind (hashSessionMetadata ap (getClientAddress q) ''source-ip'' key) (\<lambda>sourceIpHash.
           try_bind (hashSessionMetadata ap (default_to ''unknown'' (aq_userAgent q)) ''user-agent'' key) (\<lambda>userAgentHash.
             Inr (idHash, sourceIpHash, userAgentHash)))) of
        Inl m \<Rightarrow> (db, Inl m)
      | Inr (idHash, sourceIpHash, userAgentHash) \<Rightarrow>
          (case create_session (ae_violated env) idHash (us_id user) (now + DEFAULT_SESSION_TTL_SECONDS * 1000)
              (Some sourceIpHash) (Some userAgentHash) now db of
             (db', Inl m) \<Rightarrow> (db', Inl m)
           | (db', Inr s) \<Rightarrow> (db', map_sum (\<lambda>m. m) (\<lambda>c. (c, s)) (sessionCookie token DEFAULT_SESSION_TTL_SECONDS))))"

record authenticated =
  au_user :: user_row
  au_session :: auth_session
  au_sessionIdHash :: string

definition optionalAuthentication :: "auth_env \<Rightarrow> auth_request \<Rightarrow> millis \<Rightarrow> auth_db \<Rightarrow> auth_db \<times> authenticated option" where
  "optionalAuthentication env q now db =
     (case readSessionToken (aq_cookie q) of
        None \<Rightarrow> (db, None)
      | Some token \<Rightarrow>
          (case hashSessionToken (ae_platform env) token (ae_sessionKey env) of
             Inl _ \<Rightarrow> (db, None)
           | Inr idHash \<Rightarrow>
               (case findActive idHash True now db of
                  (db', None) \<Rightarrow> (db', None)
                | (db', Some s) \<Rightarrow>
                    (db', map_option (\<lambda>u. \<lparr>au_user = u, au_session = s, au_sessionIdHash = idHash\<rparr>) (findById (as_ownerId s) db')))))"

definition requireAuthentication :: "auth_env \<Rightarrow> auth_request \<Rightarrow> millis \<Rightarrow> auth_db \<Rightarrow> auth_db \<times> (http_error + authenticated)" where
  "requireAuthentication env q now db =
     (if \<not> configured_key (ae_sessionKey env) then (db, Inl (not_configured ''Authentication''))
      else case optionalAuthentication env q now db of
          (db', None) \<Rightarrow> (db', Inl (Http_Error 401 ''UNAUTHENTICATED'' ''Authentication required''))
        | (db', Some a) \<Rightarrow> (db', Inr a))"

section \<open>Login and logout\<close>

record login_input =
  li_password :: string
  li_totpCode :: "string option"

definition check_password :: "auth_env \<Rightarrow> login_input \<Rightarrow> bool" where
  "check_password env i = verifyPassword (ap_derive (ae_platform env)) (li_password i) (ae_adminHash env)"

definition check_second_factor :: "auth_env \<Rightarrow> login_input \<Rightarrow> user_row \<Rightarrow> millis \<Rightarrow> auth_db \<Rightarrow> http_error + unit" where
  "check_second_factor env i user now db =
     (if \<not> totpEnabled user then Inr ()
      else if \<not> configured_key (ae_masterKey env) then Inl (not_configured ''Credential encryption'')
      else if \<not> given (li_totpCode i) then Inl (Http_Error 401 ''TOTP_REQUIRED'' ''A two-factor authentication code is required'')
      else case try_bind (getTotpSecret (ae_platform env) (us_id user) (ae_masterKey env) db)
             (\<lambda>secret. verifyTotp (ap_hmac1 (ae_platform env)) (li_totpCode i) secret now) of
          Inr True \<Rightarrow> Inr ()
        | Inr False \<Rightarrow> Inl (Http_Error 401 ''TOTP_INVALID'' ''The two-factor authentication code is invalid'')
        | Inl _ \<Rightarrow> Inl internal_error)"

text \<open>
  One login: the limiters are asked at two times, the input is the parsed body (\<open>None\<close>: the body is refused), the
  fresh identifier is for an account that is created, the random bytes are the session token.
\<close>

definition handleLogin ::
  "auth_env \<Rightarrow> auth_request \<Rightarrow> login_input option \<Rightarrow> millis \<Rightarrow> millis \<Rightarrow> millis \<Rightarrow> string \<Rightarrow> bytes \<Rightarrow> login_limiters \<Rightarrow> auth_db \<Rightarrow>
     login_limiters \<times> auth_db \<times> (http_error + (string \<times> auth_session))" where
  "handleLogin env q input t1 t2 now newId random_bytes l db =
     (if \<not> configured_key (ae_sessionKey env) \<or> \<not> configured_key (ae_adminHash env)
      then (l, db, Inl (not_configured ''Authentication''))
      else case assertLoginAllowed t1 t2 l of
          (l, Inl retry) \<Rightarrow> (l, db, Inl (Http_Error 429 ''RATE_LIMITED'' ''Too many login attempts''))
        | (l, Inr _) \<Rightarrow>
            (case input of
               None \<Rightarrow> (l, db, Inl (Http_Error 400 ''VALIDATION_FAILED'' ''Request validation failed''))
             | Some i \<Rightarrow>
                 (case ensureAdmin (the (ae_adminHash env)) newId now db of
                    (db, Inl _) \<Rightarrow> (l, db, Inl internal_error)
                  | (db, Inr user) \<Rightarrow>
                      if \<not> check_password env i
                      then (l, db, Inl (Http_Error 401 ''INVALID_CREDENTIALS'' ''Invalid login credentials''))
                      else case check_second_factor env i user now db of
                          Inl e \<Rightarrow> (l, db, Inl e)
                        | Inr _ \<Rightarrow>
                            (case issueAppSession env q random_bytes user now db of
                               (db, Inl _) \<Rightarrow> (clearLoginFailures l, db, Inl internal_error)
                             | (db, Inr r) \<Rightarrow> (clearLoginFailures l, db, Inr r)))))"

definition handleLogout :: "auth_env \<Rightarrow> auth_request \<Rightarrow> millis \<Rightarrow> auth_db \<Rightarrow> auth_db" where
  "handleLogout env q now db =
     (if \<not> configured_key (ae_sessionKey env) then db
      else case readSessionToken (aq_cookie q) of
          None \<Rightarrow> db
        | Some token \<Rightarrow>
            (case hashSessionToken (ae_platform env) token (ae_sessionKey env) of
               Inl _ \<Rightarrow> db
             | Inr idHash \<Rightarrow> revoke idHash None now db))"

section \<open>Enrolment of the second factor\<close>

definition handleTotpSetup ::
  "auth_env \<Rightarrow> auth_request \<Rightarrow> bytes \<Rightarrow> bytes \<Rightarrow> millis \<Rightarrow> auth_db \<Rightarrow> auth_db \<times> (http_error + (string \<times> millis))" where
  "handleTotpSetup env q random_bytes iv now db =
     (case requireAuthentication env q now db of
        (db, Inl e) \<Rightarrow> (db, Inl e)
      | (db, Inr a) \<Rightarrow>
          if \<not> configured_key (ae_masterKey env) then (db, Inl (not_configured ''Credential encryption''))
          else (case generateTotpSecret random_bytes of
              Inl _ \<Rightarrow> (db, Inl internal_error)
            | Inr secret \<Rightarrow>
                (case savePendingTotp (ae_platform env) iv (us_id (au_user a)) secret (ae_masterKey env) 600 now db of
                   (db, Inl _) \<Rightarrow> (db, Inl internal_error)
                 | (db, Inr expiresAt) \<Rightarrow> (db, Inr (secret, expiresAt)))))"

definition handleTotpConfirm ::
  "auth_env \<Rightarrow> auth_request \<Rightarrow> string option \<Rightarrow> bytes \<Rightarrow> millis \<Rightarrow> auth_db \<Rightarrow> auth_db \<times> (http_error + unit)" where
  "handleTotpConfirm env q input iv now db =
     (case requireAuthentication env q now db of
        (db, Inl e) \<Rightarrow> (db, Inl e)
      | (db, Inr a) \<Rightarrow>
          (case input of
             None \<Rightarrow> (db, Inl (Http_Error 400 ''VALIDATION_FAILED'' ''Request validation failed''))
           | Some code \<Rightarrow>
               (case getPendingTotp (ae_platform env) (us_id (au_user a)) (ae_masterKey env) now db of
                  (db, Inl _) \<Rightarrow> (db, Inl internal_error)
                | (db, Inr pending) \<Rightarrow>
                    if \<not> given pending then (db, Inl (Http_Error 400 ''TOTP_ENROLLMENT_EXPIRED'' ''TOTP enrollment has expired''))
                    else (case verifyTotp (ap_hmac1 (ae_platform env)) (Some code) pending now of
                        Inr True \<Rightarrow>
                          (case enableTotp (ae_platform env) iv (us_id (au_user a)) (the pending) (ae_masterKey env) now db of
                             (db, Inl _) \<Rightarrow> (db, Inl internal_error)
                           | (db, Inr _) \<Rightarrow> (db, Inr ()))
                      | Inr False \<Rightarrow> (db, Inl (Http_Error 400 ''TOTP_INVALID'' ''The TOTP code is invalid''))
                      | Inl _ \<Rightarrow> (db, Inl internal_error)))))"

definition handleTotpDisable ::
  "auth_env \<Rightarrow> auth_request \<Rightarrow> login_input option \<Rightarrow> millis \<Rightarrow> auth_db \<Rightarrow> auth_db \<times> (http_error + unit)" where
  "handleTotpDisable env q input now db =
     (case requireAuthentication env q now db of
        (db, Inl e) \<Rightarrow> (db, Inl e)
      | (db, Inr a) \<Rightarrow>
          (case input of
             None \<Rightarrow> (db, Inl (Http_Error 400 ''VALIDATION_FAILED'' ''Request validation failed''))
           | Some i \<Rightarrow>
               let valid = verifyPassword (ap_derive (ae_platform env)) (li_password i) (Some (us_password_hash (au_user a))) in
               (case getTotpSecret (ae_platform env) (us_id (au_user a)) (ae_masterKey env) db of
                  Inl _ \<Rightarrow> (db, Inl internal_error)
                | Inr secret \<Rightarrow>
                    if \<not> valid then (db, Inl (Http_Error 401 ''INVALID_CREDENTIALS'' ''Invalid login credentials''))
                    else (case verifyTotp (ap_hmac1 (ae_platform env)) (li_totpCode i) secret now of
                        Inr True \<Rightarrow> (disableTotp (us_id (au_user a)) now db, Inr ())
                      | Inr False \<Rightarrow> (db, Inl (Http_Error 401 ''INVALID_CREDENTIALS'' ''Invalid login credentials''))
                      | Inl _ \<Rightarrow> (db, Inl internal_error)))))"

section \<open>Sign-in with Google\<close>

record callback_query =
  cb_state :: "string option"
  cb_error :: "string option"
  cb_code :: "string option"

text \<open>
  The callback, with its own address and the configured one: \<open>Inl\<close> is the redirect to the failure page, with the path
  it returns to. Recording the sign-in as a security event is not modelled.
\<close>

definition handleGoogleCallback ::
  "auth_env \<Rightarrow> google_service \<Rightarrow> auth_request \<Rightarrow> callback_query \<Rightarrow> url_parts \<Rightarrow> url_parts \<Rightarrow> millis \<Rightarrow> millis \<Rightarrow> bytes \<Rightarrow>
     login_limiters \<Rightarrow> auth_db \<Rightarrow> oauth_db \<Rightarrow> login_limiters \<times> auth_db \<times> oauth_db \<times> (string + (string \<times> string \<times> auth_session))" where
  "handleGoogleCallback env gs q cb received expected now later random_bytes l db od =
     (let browserToken = readCookie (aq_cookie q) ''__Host-edgesh_google_oidc'' in
      if \<not> configured_key (ae_sessionKey env) \<or> \<not> configured_key (ae_masterKey env) \<or> \<not> configured_key (ae_adminHash env)
        \<or> \<not> given (cb_state cb) \<or> \<not> given browserToken
      then (l, db, od, Inl ''/'')
      else if given (cb_error cb) then
        (case google_cancel gs (the (cb_state cb)) (the browserToken) now od of
           (od, Inl _) \<Rightarrow> (l, db, od, Inl ''/'')
         | (od, Inr returnTo) \<Rightarrow> (l, db, od, Inl returnTo))
      else if validateGoogleCallbackUrl received expected \<noteq> Inr () \<or> \<not> given (cb_code cb) then (l, db, od, Inl ''/'')
      else case findByUsername ''admin'' db of
          None \<Rightarrow> (l, db, od, Inl ''/'')
        | Some user \<Rightarrow>
            (case google_complete gs (map us_id (ab_users db)) (the (cb_state cb)) (the browserToken) (the (cb_code cb)) (us_id user) now later od of
               (od, Inl _) \<Rightarrow> (l, db, od, Inl ''/'')
             | (od, Inr (identity, returnTo)) \<Rightarrow>
                 (case issueAppSession env q random_bytes user later db of
                    (db, Inl _) \<Rightarrow> (clearLoginFailures l, db, od, Inl returnTo)
                  | (db, Inr (cookie, s)) \<Rightarrow> (clearLoginFailures l, db, od, Inr (returnTo, cookie, s)))))"

end
