(* ===== verification/Auth_System.thy ===== *)
theory Auth_System
  imports Auth_Flow
begin

text \<open>
  The authentication routes as a system: any requests in any order, each taking effect at its time. A log keeps which
  login created which session and which logouts there were, so that the session a request is authenticated by can be
  traced back to the credentials that were checked.
\<close>

datatype auth_event =
    Password_Login string millis login_input user_row auth_db
  | Google_Login string millis "string list" string string string string millis oauth_db oauth_identity
  | Logout string millis

record auth_state =
  at_db :: auth_db
  at_oauth :: oauth_db
  at_limits :: login_limiters
  at_log :: "auth_event list"

definition login_events ::
  "auth_env \<Rightarrow> login_input option \<Rightarrow> string \<Rightarrow> millis \<Rightarrow> auth_db \<Rightarrow> (http_error + (string \<times> auth_session)) \<Rightarrow> auth_event list" where
  "login_events env input newId now db r =
     (case (r, input, ensureAdmin (the (ae_adminHash env)) newId now db) of
        (Inr (cookie, s), Some i, (db1, Inr user)) \<Rightarrow> [Password_Login (as_idHash s) now i user db1]
      | _ \<Rightarrow> [])"

definition google_events ::
  "google_service \<Rightarrow> auth_request \<Rightarrow> callback_query \<Rightarrow> millis \<Rightarrow> millis \<Rightarrow> auth_db \<Rightarrow> oauth_db \<Rightarrow>
     (string + (string \<times> string \<times> auth_session)) \<Rightarrow> auth_event list" where
  "google_events gs q cb now later db od r =
     (case (r, findByUsername ''admin'' db) of
        (Inr (returnTo, cookie, s), Some user) \<Rightarrow>
          (let st = the (cb_state cb); bt = the (readCookie (aq_cookie q) ''__Host-edgesh_google_oidc''); code = the (cb_code cb);
               users = map us_id (ab_users db) in
           (case google_complete gs users st bt code (us_id user) now later od of
              (_, Inr (identity, _)) \<Rightarrow> [Google_Login (as_idHash s) later users st bt code (us_id user) now od identity]
            | _ \<Rightarrow> []))
      | _ \<Rightarrow> [])"

definition logout_events :: "auth_env \<Rightarrow> auth_request \<Rightarrow> millis \<Rightarrow> auth_db \<Rightarrow> auth_event list" where
  "logout_events env q now db =
     (case map_option (\<lambda>token. hashSessionToken (ae_platform env) token (ae_sessionKey env)) (readSessionToken (aq_cookie q)) of
        Some (Inr h) \<Rightarrow> if configured_key (ae_sessionKey env) \<and> list_ex (\<lambda>s. as_idHash s = h) (ab_sessions db) then [Logout h now] else []
      | _ \<Rightarrow> [])"

inductive auth_step :: "auth_env \<Rightarrow> google_service \<Rightarrow> auth_state \<Rightarrow> auth_state \<Rightarrow> bool" for env gs where
  login: "handleLogin env q input t1 t2 now newId random_bytes l (at_db s) = (l', db, r) \<Longrightarrow>
    auth_step env gs s (s\<lparr>at_limits := l', at_db := db, at_log := at_log s @ login_events env input newId now (at_db s) r\<rparr>)"
| google_start: "google_begin gs violated rnd returnTo now (at_oauth s) = (od, r) \<Longrightarrow> auth_step env gs s (s\<lparr>at_oauth := od\<rparr>)"
| google_callback: "handleGoogleCallback env gs q cb received expected now later random_bytes l (at_db s) (at_oauth s) = (l', db, od, r) \<Longrightarrow>
    auth_step env gs s (s\<lparr>at_limits := l', at_db := db, at_oauth := od,
      at_log := at_log s @ google_events gs q cb now later (at_db s) (at_oauth s) r\<rparr>)"
| logout: "auth_step env gs s (s\<lparr>at_db := handleLogout env q now (at_db s), at_log := at_log s @ logout_events env q now (at_db s)\<rparr>)"
| authenticate: "optionalAuthentication env q now (at_db s) = (db, r) \<Longrightarrow> auth_step env gs s (s\<lparr>at_db := db\<rparr>)"
| totp_setup: "handleTotpSetup env q random_bytes iv now (at_db s) = (db, r) \<Longrightarrow> auth_step env gs s (s\<lparr>at_db := db\<rparr>)"
| totp_confirm: "handleTotpConfirm env q code iv now (at_db s) = (db, r2) \<Longrightarrow> auth_step env gs s (s\<lparr>at_db := db\<rparr>)"
| totp_disable: "handleTotpDisable env q input now (at_db s) = (db, r2) \<Longrightarrow> auth_step env gs s (s\<lparr>at_db := db\<rparr>)"

definition auth_start :: "auth_state \<Rightarrow> bool" where
  "auth_start s \<longleftrightarrow> ab_sessions (at_db s) = [] \<and> at_log s = []"

inductive auth_reach :: "auth_env \<Rightarrow> google_service \<Rightarrow> auth_state \<Rightarrow> bool" for env gs where
  start: "auth_start s \<Longrightarrow> auth_reach env gs s"
| step: "auth_reach env gs s \<Longrightarrow> auth_step env gs s s' \<Longrightarrow> auth_reach env gs s'"

section \<open>What the log says of a login\<close>

text \<open>
  A password login was the administrator's, with the configured password and, where a second factor was enabled, with a code
  that its stored secret verifies at that time; a sign-in with Google was completed.
\<close>

fun credentials_checked :: "auth_env \<Rightarrow> google_service \<Rightarrow> auth_event \<Rightarrow> bool" where
  "credentials_checked env gs (Password_Login h t i user db) \<longleftrightarrow>
     us_username user = ''admin'' \<and> verifyPassword (ap_derive (ae_platform env)) (li_password i) (ae_adminHash env) \<and>
     (totpEnabled user \<longrightarrow> (\<exists>secret. getTotpSecret (ae_platform env) (us_id user) (ae_masterKey env) db = Inr secret \<and>
        verifyTotp (ap_hmac1 (ae_platform env)) (li_totpCode i) secret t = Inr True))"
| "credentials_checked env gs (Google_Login h t users st bt code owner now od identity) \<longleftrightarrow>
     (\<exists>od' returnTo. google_complete gs users st bt code owner now t od = (od', Inr (identity, returnTo)))"
| "credentials_checked env gs (Logout h t) \<longleftrightarrow> False"

fun login_of :: "auth_event \<Rightarrow> (string \<times> millis) option" where
  "login_of (Password_Login h t i user db) = Some (h, t)"
| "login_of (Google_Login h t users st bt code owner now od identity) = Some (h, t)"
| "login_of (Logout h t) = None"

definition session_ttl :: int where "session_ttl = DEFAULT_SESSION_TTL_SECONDS * 1000"

text \<open>Sessions only ever change so: each is there before, with the same key and end, and stays revoked.\<close>

definition kept :: "auth_db \<Rightarrow> auth_db \<Rightarrow> bool" where
  "kept db db' \<longleftrightarrow> (\<forall>r' \<in> set (ab_sessions db'). \<exists>r \<in> set (ab_sessions db).
     as_idHash r' = as_idHash r \<and> as_expiresAt r' = as_expiresAt r \<and> (as_revokedAt r \<noteq> None \<longrightarrow> as_revokedAt r' \<noteq> None))"

lemma kept_refl [simp]: "kept db db"
  by (auto simp: kept_def)

lemma kept_trans: "kept a b \<Longrightarrow> kept b c \<Longrightarrow> kept a c"
  unfolding kept_def by metis

lemma kept_same: "ab_sessions db' = ab_sessions db \<Longrightarrow> kept db db'"
  by (auto simp: kept_def)

lemma sessions_update_user [simp]: "ab_sessions (update_user i f db) = ab_sessions db"
  by (simp add: update_user_def)

lemma ensureAdmin_sessions: "ensureAdmin h i now db = (db', r) \<Longrightarrow> ab_sessions db' = ab_sessions db"
  by (auto simp: ensureAdmin_def Let_def split: option.splits if_splits)

lemma ensureAdmin_user: "ensureAdmin h i now db = (db', Inr u) \<Longrightarrow> us_username u = ''admin''"
  by (auto simp: ensureAdmin_def Let_def findByUsername_def find_Some_iff split: option.splits if_splits)

lemma findActive_kept: "findActive h touch now db = (db', r) \<Longrightarrow> kept db db'"
  by (fastforce simp: findActive_def kept_def split: option.splits if_splits)

lemma findActive_session:
  assumes "findActive h touch now db = (db', Some s)"
  shows "\<exists>r \<in> set (ab_sessions db). as_idHash r = h \<and> as_revokedAt r = None \<and> now < as_expiresAt r"
  using assms by (auto simp: findActive_def find_Some_iff is_active_def split: option.splits if_splits)

lemma revoke_kept: "kept db (revoke h owner now db)"
  by (fastforce simp: kept_def revoke_def revoke_where_def)

lemma optionalAuthentication_kept: "optionalAuthentication env q now db = (db', r) \<Longrightarrow> kept db db'"
  by (auto simp: optionalAuthentication_def split: option.splits sum.splits prod.splits dest: findActive_kept)

lemma requireAuthentication_kept: "requireAuthentication env q now db = (db', r) \<Longrightarrow> kept db db'"
  by (auto simp: requireAuthentication_def split: option.splits prod.splits if_splits dest: optionalAuthentication_kept)

lemma totp_store_sessions:
  "savePendingTotp ap iv u secret mk ttl now db = (db', r) \<Longrightarrow> ab_sessions db' = ab_sessions db"
  "getPendingTotp ap u mk now db = (db', r1) \<Longrightarrow> ab_sessions db' = ab_sessions db"
  "enableTotp ap iv u secret mk now db = (db', r2) \<Longrightarrow> ab_sessions db' = ab_sessions db"
  "ab_sessions (disableTotp u now db) = ab_sessions db"
  by (auto simp: savePendingTotp_def getPendingTotp_def clearPendingTotp_def enableTotp_def disableTotp_def
      split: sum.splits option.splits if_splits)

lemma totp_handlers_kept:
  "handleTotpSetup env q rb iv now db = (db', r) \<Longrightarrow> kept db db'"
  "handleTotpConfirm env q code iv now db = (db', r2) \<Longrightarrow> kept db db'"
  "handleTotpDisable env q input now db = (db', r2) \<Longrightarrow> kept db db'"
  subgoal by (auto simp: handleTotpSetup_def split: sum.splits prod.splits if_splits
      dest!: requireAuthentication_kept totp_store_sessions(1) kept_same elim: kept_trans)
  subgoal by (auto simp: handleTotpConfirm_def split: sum.splits prod.splits if_splits option.splits bool.splits
      dest!: requireAuthentication_kept totp_store_sessions(2,3) kept_same elim: kept_trans)
  subgoal by (auto simp: handleTotpDisable_def Let_def split: sum.splits prod.splits if_splits option.splits bool.splits
      dest!: requireAuthentication_kept intro: kept_trans kept_same totp_store_sessions(4))
  done

section \<open>A new session\<close>

lemma hash_token_ok: "hashSessionToken ap token key = Inr h \<Longrightarrow> is_token token"
  by (auto simp: hashSessionToken_def split: if_splits)

definition adds_session :: "auth_db \<Rightarrow> auth_session \<Rightarrow> millis \<Rightarrow> auth_db \<Rightarrow> bool" where
  "adds_session db s now db' \<longleftrightarrow> ab_sessions db' = ab_sessions db @ [s] \<and> as_expiresAt s = now + session_ttl \<and>
     \<not> list_ex (\<lambda>r. as_idHash r = as_idHash s) (ab_sessions db)"

lemma create_session_result:
  assumes "create_session violated h owner e ip ua now db = (db', r)"
  shows "case r of Inl _ \<Rightarrow> db' = db
    | Inr s \<Rightarrow> ab_sessions db' = ab_sessions db @ [s] \<and> as_expiresAt s = e \<and> as_idHash s = h \<and> \<not> list_ex (\<lambda>r. as_idHash r = h) (ab_sessions db)"
  using assms by (auto simp: create_session_def Let_def split: sum.splits if_splits)

lemma issueAppSession_result:
  assumes "issueAppSession env q random_bytes user now db = (db', r)"
  shows "case r of Inl _ \<Rightarrow> db' = db | Inr (c, s) \<Rightarrow> adds_session db s now db'"
proof -
  have "1 \<le> DEFAULT_SESSION_TTL_SECONDS" "DEFAULT_SESSION_TTL_SECONDS \<le> 7 * 24 * 60 * 60"
    by (simp_all add: DEFAULT_SESSION_TTL_SECONDS_def)
  then have cookie: "\<exists>c. sessionCookie (createSessionToken random_bytes) DEFAULT_SESSION_TTL_SECONDS = Inr c"
    if "is_token (createSessionToken random_bytes)"
    using that by (auto simp: sessionCookie_def)
  show ?thesis
    using assms
    by (auto simp: issueAppSession_def Let_def try_bind_eq_Inr adds_session_def session_ttl_def
        split: sum.splits prod.splits dest!: create_session_result hash_token_ok cookie)
qed

lemma handleLogin_result:
  assumes "handleLogin env q input t1 t2 now newId random_bytes l db = (l', db', r)"
  shows "case r of
      Inl _ \<Rightarrow> kept db db' \<and> login_events env input newId now db r = []
    | Inr (c, s) \<Rightarrow> \<exists>i user db1. login_events env input newId now db r = [Password_Login (as_idHash s) now i user db1] \<and>
        credentials_checked env gs (Password_Login (as_idHash s) now i user db1) \<and> adds_session db s now db'"
proof (cases r)
  case (Inl e)
  then show ?thesis
    using assms
    by (auto simp: handleLogin_def login_events_def split: if_splits prod.splits sum.splits option.splits
        dest!: ensureAdmin_sessions issueAppSession_result intro: kept_same)
next
  case (Inr p)
  obtain c s where p: "p = (c, s)" by force
  obtain i db1 user where f: "input = Some i" "ensureAdmin (the (ae_adminHash env)) newId now db = (db1, Inr user)"
      "check_password env i" "check_second_factor env i user now db1 = Inr ()" "issueAppSession env q random_bytes user now db1 = (db', Inr (c, s))"
    using assms unfolding Inr p
    by (auto simp: handleLogin_def split: if_splits prod.splits sum.splits option.splits)
  have "adds_session db s now db'"
    using issueAppSession_result [OF f(5)] ensureAdmin_sessions [OF f(2)] by (simp add: adds_session_def)
  moreover have "credentials_checked env gs (Password_Login (as_idHash s) now i user db1)"
    using f(3,4) ensureAdmin_user [OF f(2)]
    by (auto simp: check_password_def check_second_factor_def try_bind_eq_Inr split: if_splits sum.splits bool.splits)
  ultimately show ?thesis using f(1,2) by (auto simp: Inr p login_events_def)
qed

lemma handleLogin_failed:
  "handleLogin env q input t1 t2 now newId random_bytes l db = (l', db', Inl e) \<Longrightarrow> ab_sessions db' = ab_sessions db"
  by (auto simp: handleLogin_def split: if_splits prod.splits sum.splits option.splits
      dest!: ensureAdmin_sessions issueAppSession_result)

lemma handleGoogleCallback_result:
  assumes "handleGoogleCallback env gs q cb received expected now later random_bytes l db od = (l', db', od', r)"
  shows "case r of
      Inl _ \<Rightarrow> db' = db \<and> google_events gs q cb now later db od r = []
    | Inr (returnTo, c, s) \<Rightarrow> (\<exists>e. google_events gs q cb now later db od r = [e] \<and> credentials_checked env gs e \<and>
        login_of e = Some (as_idHash s, later)) \<and> adds_session db s later db'"
proof (cases r)
  case (Inl e)
  then show ?thesis
    using assms
    by (auto simp: handleGoogleCallback_def google_events_def Let_def split: if_splits prod.splits sum.splits option.splits
        dest!: issueAppSession_result)
next
  case (Inr p)
  obtain returnTo c s where p: "p = (returnTo, c, s)" by (cases p)
  obtain user od1 identity where f: "findByUsername ''admin'' db = Some user"
      "google_complete gs (map us_id (ab_users db)) (the (cb_state cb)) (the (readCookie (aq_cookie q) ''__Host-edgesh_google_oidc''))
         (the (cb_code cb)) (us_id user) now later od = (od1, Inr (identity, returnTo))"
      "issueAppSession env q random_bytes user later db = (db', Inr (c, s))"
    using assms unfolding Inr p
    by (auto simp: handleGoogleCallback_def Let_def split: if_splits prod.splits sum.splits option.splits)
  show ?thesis using f(1,2) issueAppSession_result [OF f(3)] by (simp add: Inr p google_events_def Let_def)
qed

section \<open>The invariant\<close>

definition sessions_inv :: "auth_env \<Rightarrow> google_service \<Rightarrow> auth_state \<Rightarrow> bool" where
  "sessions_inv env gs s \<longleftrightarrow>
     (\<forall>r \<in> set (ab_sessions (at_db s)).
        (\<exists>e \<in> set (at_log s). credentials_checked env gs e \<and> login_of e = Some (as_idHash r, as_expiresAt r - session_ttl)) \<and>
        ((\<exists>t. Logout (as_idHash r) t \<in> set (at_log s)) \<longrightarrow> as_revokedAt r \<noteq> None)) \<and>
     (\<forall>h t. Logout h t \<in> set (at_log s) \<longrightarrow> list_ex (\<lambda>r. as_idHash r = h) (ab_sessions (at_db s)))"

text \<open>Sessions are changed in place; no step removes one.\<close>

definition same_keys :: "auth_db \<Rightarrow> auth_db \<Rightarrow> bool" where
  "same_keys db db' \<longleftrightarrow> map as_idHash (ab_sessions db') = map as_idHash (ab_sessions db)"

lemma same_keys_ex: "same_keys db db' \<Longrightarrow> list_ex (\<lambda>r. as_idHash r = h) (ab_sessions db') = list_ex (\<lambda>r. as_idHash r = h) (ab_sessions db)"
proof -
  have "list_ex (\<lambda>r. as_idHash r = h) rs \<longleftrightarrow> h \<in> set (map as_idHash rs)" for rs :: "auth_session list"
    by (induction rs) auto
  then show "same_keys db db' \<Longrightarrow> list_ex (\<lambda>r. as_idHash r = h) (ab_sessions db') = list_ex (\<lambda>r. as_idHash r = h) (ab_sessions db)"
    by (simp only: same_keys_def)
qed

lemma same_keys_refl [simp]: "same_keys db db"
  by (simp add: same_keys_def)

lemma findActive_keys: "findActive h touch now db = (db', r) \<Longrightarrow> same_keys db db'"
  by (auto simp: findActive_def same_keys_def split: option.splits if_splits)

lemma authentication_keys:
  "optionalAuthentication env q now db = (db', r) \<Longrightarrow> same_keys db db'"
  "requireAuthentication env q now db = (db', r1) \<Longrightarrow> same_keys db db'"
proof -
  show o: "same_keys db db'" if "optionalAuthentication env q now db = (db', r)" for db' r
    using that by (auto simp: optionalAuthentication_def same_keys_def split: option.splits sum.splits prod.splits
        dest!: findActive_keys [unfolded same_keys_def])
  show "requireAuthentication env q now db = (db', r1) \<Longrightarrow> same_keys db db'"
    by (auto simp: requireAuthentication_def split: option.splits prod.splits if_splits dest: o)
qed

lemma same_keys_same: "ab_sessions db' = ab_sessions db \<Longrightarrow> same_keys db db'"
  by (simp add: same_keys_def)

lemma same_keys_trans: "same_keys a b \<Longrightarrow> same_keys b c \<Longrightarrow> same_keys a c"
  by (simp add: same_keys_def)

lemma totp_handlers_keys:
  "handleTotpSetup env q rb iv now db = (db', r) \<Longrightarrow> same_keys db db'"
  "handleTotpConfirm env q code iv now db = (db', r2) \<Longrightarrow> same_keys db db'"
  "handleTotpDisable env q input now db = (db', r2) \<Longrightarrow> same_keys db db'"
  subgoal by (auto simp: handleTotpSetup_def split: sum.splits prod.splits if_splits
      dest!: authentication_keys(2) totp_store_sessions(1) same_keys_same elim: same_keys_trans)
  subgoal by (auto simp: handleTotpConfirm_def split: sum.splits prod.splits if_splits option.splits bool.splits
      dest!: authentication_keys(2) totp_store_sessions(2,3) same_keys_same elim: same_keys_trans)
  subgoal by (auto simp: handleTotpDisable_def Let_def split: sum.splits prod.splits if_splits option.splits bool.splits
      dest!: authentication_keys(2) intro: same_keys_trans same_keys_same totp_store_sessions(4))
  done

text \<open>The claims about a session with a hash, its end and its revocation, given a log of events.\<close>

definition justified :: "auth_env \<Rightarrow> google_service \<Rightarrow> auth_event list \<Rightarrow> auth_session \<Rightarrow> bool" where
  "justified env gs events r \<longleftrightarrow>
     (\<exists>e \<in> set events. credentials_checked env gs e \<and> login_of e = Some (as_idHash r, as_expiresAt r - session_ttl))"

lemma justified_mono: "justified env gs events r \<Longrightarrow> justified env gs (events @ es) r"
  by (auto simp: justified_def)

lemma justified_cong: "as_idHash r' = as_idHash r \<Longrightarrow> as_expiresAt r' = as_expiresAt r \<Longrightarrow> justified env gs events r \<Longrightarrow> justified env gs events r'"
  by (simp add: justified_def)

lemma sessions_inv_iff:
  "sessions_inv env gs s \<longleftrightarrow>
     (\<forall>r \<in> set (ab_sessions (at_db s)). justified env gs (at_log s) r) \<and>
     (\<forall>r \<in> set (ab_sessions (at_db s)). (\<exists>t. Logout (as_idHash r) t \<in> set (at_log s)) \<longrightarrow> as_revokedAt r \<noteq> None) \<and>
     (\<forall>h t. Logout h t \<in> set (at_log s) \<longrightarrow> list_ex (\<lambda>r. as_idHash r = h) (ab_sessions (at_db s)))"
  by (auto simp: sessions_inv_def justified_def)

lemma inv_kept:
  assumes "sessions_inv env gs s" "kept (at_db s) (at_db s')" "same_keys (at_db s) (at_db s')" "at_log s' = at_log s"
  shows "sessions_inv env gs s'"
proof -
  have old: "\<exists>r0 \<in> set (ab_sessions (at_db s)). as_idHash r = as_idHash r0 \<and> as_expiresAt r = as_expiresAt r0 \<and>
      (as_revokedAt r0 \<noteq> None \<longrightarrow> as_revokedAt r \<noteq> None)" if "r \<in> set (ab_sessions (at_db s'))" for r
    using assms(2) that unfolding kept_def by blast
  have "justified env gs (at_log s') r" if "r \<in> set (ab_sessions (at_db s'))" for r
    using old [OF that] assms(1) justified_cong unfolding sessions_inv_iff assms(4) by blast
  moreover have "as_revokedAt r \<noteq> None" if "r \<in> set (ab_sessions (at_db s'))" "Logout (as_idHash r) t \<in> set (at_log s')" for r t
  proof -
    from old [OF that(1)] obtain r0 where r0: "r0 \<in> set (ab_sessions (at_db s))" "as_idHash r = as_idHash r0"
        "as_revokedAt r0 \<noteq> None \<longrightarrow> as_revokedAt r \<noteq> None"
      by blast
    then show ?thesis using assms(1,4) that(2) unfolding sessions_inv_iff by auto
  qed
  moreover have "list_ex (\<lambda>r. as_idHash r = h) (ab_sessions (at_db s'))" if "Logout h t \<in> set (at_log s')" for h t
    using assms(1,4) that same_keys_ex [OF assms(3)] unfolding sessions_inv_iff by auto
  ultimately show ?thesis unfolding sessions_inv_iff by blast
qed

lemma inv_added:
  assumes "sessions_inv env gs s" "adds_session (at_db s) r now (at_db s')" "at_log s' = at_log s @ [e]"
    "credentials_checked env gs e" "login_of e = Some (as_idHash r, now)"
  shows "sessions_inv env gs s'"
proof -
  have sess: "ab_sessions (at_db s') = ab_sessions (at_db s) @ [r]" "as_expiresAt r = now + session_ttl"
    "\<not> list_ex (\<lambda>x. as_idHash x = as_idHash r) (ab_sessions (at_db s))"
    using assms(2) by (simp_all add: adds_session_def)
  have nolog: "Logout h t \<noteq> e" for h t using assms(5) by auto
  have "justified env gs (at_log s') r" using assms(3-5) sess(2) by (simp add: justified_def)
  moreover have "justified env gs (at_log s') x" if "x \<in> set (ab_sessions (at_db s))" for x
    using assms(1,3) that justified_mono by (auto simp: sessions_inv_iff)
  moreover have "Logout (as_idHash r) t \<notin> set (at_log s)" for t
    using assms(1) sess(3) unfolding sessions_inv_iff by blast
  moreover have "as_revokedAt x \<noteq> None" if "x \<in> set (ab_sessions (at_db s))" "Logout (as_idHash x) t \<in> set (at_log s)" for x t
    using assms(1) that unfolding sessions_inv_iff by blast
  moreover have "list_ex (\<lambda>x. as_idHash x = h) (ab_sessions (at_db s'))" if "Logout h t \<in> set (at_log s)" for h t
    using assms(1) that sess(1) unfolding sessions_inv_iff by auto
  ultimately show ?thesis
    using nolog unfolding sessions_inv_iff sess(1) assms(3) by auto
qed

section \<open>Logout\<close>

lemma map_revoke: "map as_idHash (map (\<lambda>s. if sel s \<and> as_revokedAt s = None then s\<lparr>as_revokedAt := Some now\<rparr> else s) xs) = map as_idHash xs"
  by (induction xs) simp_all

lemma sessions_revoke_where:
  "ab_sessions (revoke_where sel now db) = map (\<lambda>s. if sel s \<and> as_revokedAt s = None then s\<lparr>as_revokedAt := Some now\<rparr> else s) (ab_sessions db)"
  by (simp add: revoke_where_def)

lemma revoke_keys: "same_keys db (revoke h owner now db)"
  by (simp only: same_keys_def revoke_def sessions_revoke_where map_revoke)

lemma revoke_revokes:
  assumes "r \<in> set (ab_sessions (revoke h None now db))" "as_idHash r = h"
  shows "as_revokedAt r \<noteq> None"
proof -
  obtain s where r: "r = (if as_idHash s = h \<and> as_revokedAt s = None then s\<lparr>as_revokedAt := Some now\<rparr> else s)"
    using assms(1) by (auto simp only: revoke_def sessions_revoke_where set_map image_iff option.case simp_thms)
  show ?thesis
  proof (cases "as_idHash s = h \<and> as_revokedAt s = None")
    case True
    then show ?thesis by (simp add: r)
  next
    case False
    then have "r = s" using r by argo
    then show ?thesis using False assms(2) by simp
  qed
qed

lemma handleLogout_result:
  "(handleLogout env q now db = db \<and> logout_events env q now db = []) \<or>
   (\<exists>h. handleLogout env q now db = revoke h None now db \<and>
      logout_events env q now db = (if list_ex (\<lambda>s. as_idHash s = h) (ab_sessions db) then [Logout h now] else []))"
  by (auto simp: handleLogout_def logout_events_def split: option.splits sum.splits)

lemma inv_logout:
  assumes "sessions_inv env gs s"
  shows "sessions_inv env gs (s\<lparr>at_db := handleLogout env q now (at_db s), at_log := at_log s @ logout_events env q now (at_db s)\<rparr>)"
    (is "sessions_inv env gs ?s")
proof (cases "logout_events env q now (at_db s) = []")
  case True
  have "kept (at_db s) (at_db ?s)" "same_keys (at_db s) (at_db ?s)"
    using handleLogout_result [of env q now "at_db s"] by (auto simp: revoke_kept revoke_keys)
  then show ?thesis by (rule inv_kept [OF assms]) (simp add: True)
next
  case False
  then obtain h where h: "handleLogout env q now (at_db s) = revoke h None now (at_db s)"
      "logout_events env q now (at_db s) = [Logout h now]" "list_ex (\<lambda>s. as_idHash s = h) (ab_sessions (at_db s))"
    using handleLogout_result [of env q now "at_db s"] by (auto split: if_splits)
  let ?m = "s\<lparr>at_db := revoke h None now (at_db s)\<rparr>"
  have "sessions_inv env gs ?m" by (rule inv_kept [OF assms]) (simp_all add: revoke_kept revoke_keys)
  moreover have "list_ex (\<lambda>s. as_idHash s = h) (ab_sessions (revoke h None now (at_db s)))"
    using same_keys_ex [OF revoke_keys] h(3) by simp
  ultimately show ?thesis
    using revoke_revokes [of _ h now "at_db s"] justified_mono unfolding sessions_inv_iff h by auto
qed

section \<open>Every reachable state\<close>

lemma auth_step_inv:
  assumes "auth_step env gs s s'" "sessions_inv env gs s"
  shows "sessions_inv env gs s'"
  using assms(1)
proof cases
  case (login q input t1 t2 now newId random_bytes l l' db r)
  show ?thesis
  proof (cases r)
    case (Inl e)
    have "kept (at_db s) db" "login_events env input newId now (at_db s) r = []" "ab_sessions db = ab_sessions (at_db s)"
      using handleLogin_result [OF login(2), of gs] handleLogin_failed [OF login(2) [unfolded Inl]] by (simp_all add: Inl)
    then show ?thesis unfolding login(1) by (intro inv_kept [OF assms(2)]) (simp_all add: same_keys_same)
  next
    case (Inr p)
    then obtain c x where r: "r = Inr (c, x)" by (cases p) simp
    obtain i user db1 where e: "login_events env input newId now (at_db s) r = [Password_Login (as_idHash x) now i user db1]"
        "credentials_checked env gs (Password_Login (as_idHash x) now i user db1)" "adds_session (at_db s) x now db"
      using handleLogin_result [OF login(2), of gs] unfolding r by auto
    show ?thesis unfolding login(1) by (rule inv_added [OF assms(2) _ _ e(2)]) (simp_all add: e)
  qed
next
  case (google_start violated rnd returnTo now od r)
  show ?thesis unfolding google_start(1) by (rule inv_kept [OF assms(2)]) simp_all
next
  case (google_callback q cb received expected now later random_bytes l l' db od r)
  show ?thesis
  proof (cases r)
    case (Inl e)
    then show ?thesis
      using handleGoogleCallback_result [OF google_callback(2)] unfolding google_callback(1) by (intro inv_kept [OF assms(2)]) simp_all
  next
    case (Inr p)
    then obtain rt c x where r: "r = Inr (rt, c, x)" by (cases p) auto
    obtain e where e: "google_events gs q cb now later (at_db s) (at_oauth s) r = [e]"
        "credentials_checked env gs e" "login_of e = Some (as_idHash x, later)" "adds_session (at_db s) x later db"
      using handleGoogleCallback_result [OF google_callback(2)] unfolding r by auto
    show ?thesis unfolding google_callback(1) by (rule inv_added [OF assms(2) _ _ e(2,3)]) (simp_all add: e)
  qed
next
  case (logout q now)
  then show ?thesis using inv_logout [OF assms(2)] by simp
next
  case (authenticate q now db r)
  show ?thesis unfolding authenticate(1)
    by (intro inv_kept [OF assms(2)]) (simp_all add: authentication_keys(1) [OF authenticate(2)] optionalAuthentication_kept [OF authenticate(2)])
next
  case (totp_setup q random_bytes iv now db r)
  show ?thesis unfolding totp_setup(1)
    by (intro inv_kept [OF assms(2)]) (simp_all add: totp_handlers_keys(1) [OF totp_setup(2)] totp_handlers_kept(1) [OF totp_setup(2)])
next
  case (totp_confirm q code iv now db r2)
  show ?thesis unfolding totp_confirm(1)
    by (intro inv_kept [OF assms(2)]) (simp_all add: totp_handlers_keys(2) [OF totp_confirm(2)] totp_handlers_kept(2) [OF totp_confirm(2)])
next
  case (totp_disable q input now db r2)
  show ?thesis unfolding totp_disable(1)
    by (intro inv_kept [OF assms(2)]) (simp_all add: totp_handlers_keys(3) [OF totp_disable(2)] totp_handlers_kept(3) [OF totp_disable(2)])
qed

lemma auth_reach_inv: "auth_reach env gs s \<Longrightarrow> sessions_inv env gs s"
proof (induction rule: auth_reach.induct)
  case (start s)
  then show ?case by (simp add: auth_start_def sessions_inv_def)
next
  case (step s s')
  then show ?case by (blast intro: auth_step_inv)
qed

lemma optionalAuthentication_session:
  assumes "optionalAuthentication env q now db = (db', Some a)"
  obtains token h r where "readSessionToken (aq_cookie q) = Some token" "hashSessionToken (ae_platform env) token (ae_sessionKey env) = Inr h"
    "r \<in> set (ab_sessions db)" "as_idHash r = h" "as_revokedAt r = None" "now < as_expiresAt r"
proof -
  obtain token h db1 x where f: "readSessionToken (aq_cookie q) = Some token" "hashSessionToken (ae_platform env) token (ae_sessionKey env) = Inr h"
      "findActive h True now db = (db1, Some x)"
    using assms by (auto simp: optionalAuthentication_def split: option.splits sum.splits prod.splits)
  then show thesis using that findActive_session [OF f(3)] by blast
qed

text \<open>
  C1: Whatever requests came before, a request is authenticated only by the token of a session that a login created whose
  password and second factor, or whose Google sign-in, was checked, at most the session's lifetime ago, and that
  nobody has logged out since.
\<close>

theorem session_needs_login:
  assumes "auth_reach env gs s" "optionalAuthentication env q now (at_db s) = (db', Some a)"
  shows "\<exists>token h e t. readSessionToken (aq_cookie q) = Some token \<and>
    hashSessionToken (ae_platform env) token (ae_sessionKey env) = Inr h \<and>
    e \<in> set (at_log s) \<and> credentials_checked env gs e \<and> login_of e = Some (h, t) \<and> now < t + session_ttl \<and>
    (\<forall>t. Logout h t \<notin> set (at_log s))"
proof -
  obtain token h r where r: "readSessionToken (aq_cookie q) = Some token" "hashSessionToken (ae_platform env) token (ae_sessionKey env) = Inr h"
    "r \<in> set (ab_sessions (at_db s))" "as_idHash r = h" "as_revokedAt r = None" "now < as_expiresAt r"
    by (rule optionalAuthentication_session [OF assms(2)])
  have inv: "sessions_inv env gs s" by (rule auth_reach_inv [OF assms(1)])
  then obtain e where "e \<in> set (at_log s)" "credentials_checked env gs e" "login_of e = Some (h, as_expiresAt r - session_ttl)"
    using r(3,4) by (auto simp: sessions_inv_def)
  moreover have "Logout h t \<notin> set (at_log s)" for t
    using inv r(3,4,5) by (auto simp: sessions_inv_iff)
  ultimately show ?thesis
    using r by (intro exI [of _ token] exI [of _ h] exI [of _ e] exI [of _ "as_expiresAt r - session_ttl"]) simp
qed

section \<open>A concrete login\<close>

definition demo_hash :: string where
  "demo_hash = (case hashPassword (ap_derive demo_auth_platform) (replicate 16 0) ''correct horse'' 600000 of Inr h \<Rightarrow> h | Inl _ \<Rightarrow> [])"

definition demo_auth_env :: auth_env where
  "demo_auth_env = \<lparr>ae_platform = demo_auth_platform, ae_adminHash = Some demo_hash, ae_masterKey = Some demo_master_key,
     ae_sessionKey = Some demo_master_key, ae_violated = ''UNIQUE''\<rparr>"

definition demo_browser :: auth_request where
  "demo_browser = \<lparr>aq_cookie = Some (''theme=dark; __Host-edgesh_session='' @ replicate 43 CHR ''A''), aq_connectingIp = None,
     aq_realIp = None, aq_userAgent = None\<rparr>"

definition demo_before :: auth_state where
  "demo_before = \<lparr>at_db = \<lparr>ab_users = [], ab_sessions = []\<rparr>, at_oauth = \<lparr>od_attempts = [], od_identities = []\<rparr>,
     at_limits = \<lparr>ip_limiter = limiter_empty, account_limiter = limiter_empty\<rparr>, at_log = []\<rparr>"

definition demo_login :: "login_limiters \<times> auth_db \<times> (http_error + (string \<times> auth_session))" where
  "demo_login = handleLogin demo_auth_env demo_browser (Some \<lparr>li_password = ''correct horse'', li_totpCode = None\<rparr>) 1000 1000 1000 ''u''
     (replicate 32 0) (at_limits demo_before) (at_db demo_before)"

definition demo_logged_in :: auth_state where
  "demo_logged_in = (case demo_login of (l, db, r) \<Rightarrow> demo_before\<lparr>at_limits := l, at_db := db,
     at_log := at_log demo_before @ login_events demo_auth_env (Some \<lparr>li_password = ''correct horse'', li_totpCode = None\<rparr>) ''u'' 1000 (at_db demo_before) r\<rparr>)"

lemma demo_hash_verifies: "demo_hash \<noteq> []" "verifyPassword (ap_derive demo_auth_platform) ''correct horse'' (Some demo_hash)"
proof -
  have d: "hashPassword (ap_derive demo_auth_platform) (replicate 16 0) ''correct horse'' 600000 = Inr demo_hash"
    by (simp add: demo_hash_def hashPassword_def MIN_ITERATIONS_def MAX_ITERATIONS_def)
  have len: "length (ap_derive demo_auth_platform p s i) = 32" for p s i by (simp add: demo_auth_platform_def)
  note p = parse_hashPassword [OF d _ len]
  show "demo_hash \<noteq> []" by (rule p(2)) simp
  then show "verifyPassword (ap_derive demo_auth_platform) ''correct horse'' (Some demo_hash)"
    by (simp add: verifyPassword_def p(1) constantTimeEqual_iff)
qed

lemma demo_token: "createSessionToken (replicate 32 0) = replicate 43 CHR ''A''" "is_token (replicate 43 CHR ''A'')"
  "readSessionToken (aq_cookie demo_browser) = Some (replicate 43 CHR ''A'')"
  by code_simp+

lemma demo_token_hash: "\<exists>h. h \<noteq> [] \<and> hashSessionToken demo_auth_platform (replicate 43 CHR ''A'') (Some demo_master_key) = Inr h"
proof -
  have "demo_master_key \<noteq> []" by (simp add: demo_master_key_def)
  then show ?thesis
    using demo_master_key_bytes demo_token(2)
    by (simp add: hashSessionToken_def demo_auth_platform_def importMasterKey_def try_bind_def encodeBase64Url_nonempty)
qed

lemma demo_login_ok:
  "\<exists>l u x c. demo_login = (l, \<lparr>ab_users = [u], ab_sessions = [x]\<rparr>, Inr (c, x)) \<and> us_id u = ''u'' \<and> as_ownerId x = ''u'' \<and>
    hashSessionToken demo_auth_platform (replicate 43 CHR ''A'') (Some demo_master_key) = Inr (as_idHash x) \<and>
    as_revokedAt x = None \<and> as_expiresAt x = 1000 + session_ttl"
proof -
  obtain h where h: "h \<noteq> []" "hashSessionToken demo_auth_platform (replicate 43 CHR ''A'') (Some demo_master_key) = Inr h"
    using demo_token_hash by blast
  obtain ip where ip: "hashSessionMetadata demo_auth_platform (getClientAddress demo_browser) ''source-ip'' (Some demo_master_key) = Inr ip"
    using demo_metadata by blast
  obtain ua where ua: "hashSessionMetadata demo_auth_platform (default_to ''unknown'' (aq_userAgent demo_browser)) ''user-agent'' (Some demo_master_key) = Inr ua"
    using demo_metadata by blast
  obtain cookie where c: "sessionCookie (replicate 43 CHR ''A'') DEFAULT_SESSION_TTL_SECONDS = Inr cookie"
    using demo_token(2) by (simp add: sessionCookie_def DEFAULT_SESSION_TTL_SECONDS_def)
  obtain l where l: "assertLoginAllowed 1000 1000 \<lparr>ip_limiter = limiter_empty, account_limiter = limiter_empty\<rparr> = (l, Inr ())"
    by (simp add: assertLoginAllowed_def reserveAttempt_def limiter_check_def updateFailureState_def readFreshState_def
        limiter_empty_def limit_allowed_def Let_def)
  show ?thesis
    using h ip ua demo_hash_verifies demo_token(1) c
    unfolding demo_login_def handleLogin_def
    by (simp add: l demo_auth_env_def demo_before_def configured_key_def demo_master_key_def ensureAdmin_def findByUsername_def Let_def
        check_password_def check_second_factor_def totpEnabled_def no_columns_def issueAppSession_def try_bind_def create_session_def
        assertOwnerId_def session_ttl_def DEFAULT_SESSION_TTL_SECONDS_def)
qed

lemma demo_logged_in_reach: "auth_reach demo_auth_env demo_google demo_logged_in"
proof -
  obtain l db r where d: "demo_login = (l, db, r)" by (cases demo_login)
  note step = auth_step.login [OF d [unfolded demo_login_def], of demo_google]
  have "auth_step demo_auth_env demo_google demo_before demo_logged_in"
    using step unfolding demo_logged_in_def d prod.case .
  moreover have "auth_reach demo_auth_env demo_google demo_before" by (rule auth_reach.start) (simp add: auth_start_def demo_before_def)
  ultimately show ?thesis by (rule auth_reach.step [rotated])
qed

lemma session_needs_login_witness:
  "\<exists>h e. hashSessionToken demo_auth_platform (replicate 43 CHR ''A'') (Some demo_master_key) = Inr h \<and> e \<in> set (at_log demo_logged_in) \<and>
    credentials_checked demo_auth_env demo_google e \<and> login_of e = Some (h, 1000)"
proof -
  obtain l u x c where d: "demo_login = (l, \<lparr>ab_users = [u], ab_sessions = [x]\<rparr>, Inr (c, x))" "us_id u = ''u''" "as_ownerId x = ''u''"
    "hashSessionToken demo_auth_platform (replicate 43 CHR ''A'') (Some demo_master_key) = Inr (as_idHash x)"
    "as_revokedAt x = None" "as_expiresAt x = 1000 + session_ttl"
    using demo_login_ok by blast
  have db: "at_db demo_logged_in = \<lparr>ab_users = [u], ab_sessions = [x]\<rparr>" by (simp add: demo_logged_in_def d(1))
  have env: "ae_platform demo_auth_env = demo_auth_platform" "ae_sessionKey demo_auth_env = Some demo_master_key"
    by (simp_all add: demo_auth_env_def)
  obtain db' a where a: "optionalAuthentication demo_auth_env demo_browser 2000 (at_db demo_logged_in) = (db', Some a)"
    by (simp add: optionalAuthentication_def demo_token(3) env d(2-6) db findActive_def is_active_def session_ttl_def
        DEFAULT_SESSION_TTL_SECONDS_def findById_def)
  obtain e h t where e: "e \<in> set (at_log demo_logged_in)" "credentials_checked demo_auth_env demo_google e" "login_of e = Some (h, t)"
    "hashSessionToken demo_auth_platform (replicate 43 CHR ''A'') (Some demo_master_key) = Inr h"
    using session_needs_login [OF demo_logged_in_reach a] by (auto simp: demo_token(3) env)
  moreover have "t = 1000"
    using e(1,3) by (auto simp: demo_logged_in_def d(1) demo_before_def login_events_def split: prod.splits sum.splits)
  ultimately show ?thesis by blast
qed

end
