(* ===== verification/History.thy ===== *)
theory History
  imports Keyset Redaction Profiles
begin

text \<open>
  The history of an owner: the repositories of \<open>apps/worker/src/storage/history.ts\<close> on the rows of the tables
  connection_sessions, command_history and session_events. Times are the text the columns hold, in the order SQLite
  compares it. The duration of a session and the names of its algorithms are written and never read here.
\<close>

section \<open>Rows\<close>

record command_row =
  cm_id :: string
  cm_ownerId :: string
  cm_sessionId :: string
  cm_profileId :: "string option"
  cm_profileName :: string
  cm_host :: string
  cm_username :: string
  cm_command :: string
  cm_captureKind :: string
  cm_createdAt :: string

record stored_session =
  ss_id :: string
  ss_ownerId :: string
  ss_profileId :: "string option"
  ss_status :: string
  ss_host :: string
  ss_port :: int
  ss_username :: string
  ss_profileName :: string
  ss_authKind :: string
  ss_tailscale :: int
  ss_startedAt :: string
  ss_createdAt :: string
  ss_connectedAt :: "string option"
  ss_closedAt :: "string option"
  ss_closeCode :: "string option"

record event_row =
  ev_id :: string
  ev_ownerId :: string
  ev_sessionId :: string
  ev_code :: string
  ev_message :: string
  ev_createdAt :: string

record history_db =
  hy_sessions :: "stored_session list"
  hy_commands :: "command_row list"
  hy_events :: "event_row list"

section \<open>The pattern of a search\<close>

definition fold_ascii :: "char \<Rightarrow> char" where
  "fold_ascii c = (if is_upper c then char_of (cu c + 32) else c)"

text \<open>SQLite's \<open>LIKE ... ESCAPE '\'\<close>\<close>

function like :: "string \<Rightarrow> string \<Rightarrow> bool" where
  "like [] t = (t = [])"
| "like (p # ps) t =
     (if p = CHR ''%'' then like ps t \<or> (case t of [] \<Rightarrow> False | c # t' \<Rightarrow> like (p # ps) t')
      else if p = CHR ''_'' then (case t of [] \<Rightarrow> False | c # t' \<Rightarrow> like ps t')
      else if p = bs_char then
        (case ps of
           [] \<Rightarrow> False
         | q # ps' \<Rightarrow> (case t of [] \<Rightarrow> False | c # t' \<Rightarrow> fold_ascii c = fold_ascii q \<and> like ps' t'))
      else (case t of [] \<Rightarrow> False | c # t' \<Rightarrow> fold_ascii c = fold_ascii p \<and> like ps t'))"
  by pat_completeness auto
termination by (relation "measure (\<lambda>(p, t). length p + length t)") auto

declare like.simps [simp del]

fun escapeLike :: "string \<Rightarrow> string" where
  "escapeLike [] = []"
| "escapeLike (c # s) = (if c \<in> {bs_char, CHR ''%'', CHR ''_''} then [bs_char, c] else [c]) @ escapeLike s"

definition search_pattern :: "string \<Rightarrow> string" where
  "search_pattern q = ''%'' @ escapeLike q @ ''%''"

section \<open>Commands\<close>

record append_command =
  ap_sessionId :: string
  ap_profileId :: "string option"
  ap_profileName :: string
  ap_host :: string
  ap_username :: string
  ap_command :: string
  ap_captureQuality :: string
  ap_executedAt :: "string option"

record command_query =
  cq_cursor :: "string option"
  cq_limit :: "rat option"
  cq_query :: "string option"
  cq_profileId :: "string option"
  cq_sessionId :: "string option"
  cq_from :: "string option"
  cq_until :: "string option"

definition max_command_history :: nat where "max_command_history = 100000"

definition session_exists :: "string \<Rightarrow> string \<Rightarrow> history_db \<Rightarrow> bool" where
  "session_exists ownerId i db = list_ex (\<lambda>s. ss_id s = i \<and> ss_ownerId s = ownerId) (hy_sessions db)"

text \<open>A fresh identifier that is in use already violates the primary key.\<close>

definition command_append ::
  "string \<Rightarrow> string \<Rightarrow> string \<Rightarrow> string \<Rightarrow> append_command \<Rightarrow> history_db \<Rightarrow> history_db \<times> command_row throws" where
  "command_append violated newId now ownerId i db =
     (case redactCommand (ap_command i) of
        Inl m \<Rightarrow> (db, Inl m)
      | Inr command \<Rightarrow>
          if \<not> session_exists ownerId (ap_sessionId i) db then (db, Inl ''Connection session not found'')
          else if list_ex (\<lambda>r. cm_id r = newId) (hy_commands db) then (db, Inl violated)
          else
            let r = \<lparr>cm_id = newId, cm_ownerId = ownerId, cm_sessionId = ap_sessionId i, cm_profileId = ap_profileId i,
              cm_profileName = ap_profileName i, cm_host = ap_host i, cm_username = ap_username i, cm_command = command,
              cm_captureKind = ap_captureQuality i, cm_createdAt = default_to now (ap_executedAt i)\<rparr>
            in (db\<lparr>hy_commands := hy_commands db @ [r]\<rparr>, Inr r))"

text \<open>A clause is added for each filter that is given and not empty.\<close>

definition clause :: "string option \<Rightarrow> (string \<Rightarrow> bool) \<Rightarrow> bool" where
  "clause v P \<longleftrightarrow> (case v of None \<Rightarrow> True | Some s \<Rightarrow> s = [] \<or> P s)"

definition command_matches :: "string \<Rightarrow> command_query \<Rightarrow> command_row \<Rightarrow> bool" where
  "command_matches ownerId q r \<longleftrightarrow>
     cm_ownerId r = ownerId \<and> clause (cq_profileId q) (\<lambda>s. cm_profileId r = Some s) \<and>
     clause (cq_sessionId q) (\<lambda>s. cm_sessionId r = s) \<and>
     clause (cq_query q) (\<lambda>s. like (search_pattern s) (cm_command r)) \<and>
     clause (cq_from q) (\<lambda>s. s \<le> cm_createdAt r) \<and> clause (cq_until q) (\<lambda>s. cm_createdAt r \<le> s)"

definition command_key :: "command_row \<Rightarrow> string \<times> string" where "command_key r = (cm_createdAt r, cm_id r)"

definition command_cursor :: "command_row \<Rightarrow> time_cursor" where
  "command_cursor r = \<lparr>tc_createdAt = cm_createdAt r, tc_id = cm_id r\<rparr>"

definition page_limit :: "rat option \<Rightarrow> nat" where "page_limit v = bounded_limit 100 (default_to 50 v)"

definition command_list :: "(string \<Rightarrow> bool) \<Rightarrow> string \<Rightarrow> command_query \<Rightarrow> history_db \<Rightarrow> command_row page throws" where
  "command_list is_date ownerId q db =
     try_bind (decodeTimeCursor is_date (cq_cursor q)) (\<lambda>c.
       Inr (make_page (\<lambda>r. r) command_cursor (page_limit (cq_limit q))
         (keyset_query command_key (page_limit (cq_limit q) + 1) c (filter (command_matches ownerId q) (hy_commands db)))))"

record clear_options =
  cl_before :: "string option"
  cl_profileId :: "string option"
  cl_sessionId :: "string option"

definition clear_matches :: "string \<Rightarrow> clear_options \<Rightarrow> command_row \<Rightarrow> bool" where
  "clear_matches ownerId o1 r \<longleftrightarrow>
     cm_ownerId r = ownerId \<and> clause (cl_before o1) (\<lambda>s. cm_createdAt r < s) \<and>
     clause (cl_profileId o1) (\<lambda>s. cm_profileId r = Some s) \<and> clause (cl_sessionId o1) (\<lambda>s. cm_sessionId r = s)"

definition command_clear :: "string \<Rightarrow> clear_options \<Rightarrow> history_db \<Rightarrow> history_db \<times> nat" where
  "command_clear ownerId o1 db =
     (db\<lparr>hy_commands := filter (\<lambda>r. \<not> clear_matches ownerId o1 r) (hy_commands db)\<rparr>,
      length (filter (clear_matches ownerId o1) (hy_commands db)))"

definition prunable :: "nat \<Rightarrow> string \<Rightarrow> rat \<Rightarrow> history_db \<Rightarrow> command_row list" where
  "prunable keep ownerId batchSize db =
     take (bounded_limit 1000 batchSize) (drop keep (order_desc command_key (filter (\<lambda>r. cm_ownerId r = ownerId) (hy_commands db))))"

definition command_prune :: "string \<Rightarrow> rat \<Rightarrow> history_db \<Rightarrow> history_db \<times> nat" where
  "command_prune ownerId batchSize db =
     (let over = map cm_id (prunable max_command_history ownerId batchSize db) in
      (db\<lparr>hy_commands := filter (\<lambda>r. cm_id r \<notin> set over) (hy_commands db)\<rparr>,
       length (filter (\<lambda>r. cm_id r \<in> set over) (hy_commands db))))"

section \<open>Sessions\<close>

record start_session =
  st_id :: "string option"
  st_profileId :: "string option"
  st_profileName :: string
  st_host :: string
  st_port :: int
  st_username :: string
  st_authenticationMethod :: string
  st_startedAt :: "string option"

record session_item =
  si_id :: string
  si_profileId :: "string option"
  si_profileName :: string
  si_host :: string
  si_port :: int
  si_username :: string
  si_authenticationMethod :: string
  si_startedAt :: string
  si_connectedAt :: "string option"
  si_endedAt :: "string option"
  si_finalState :: string
  si_closeReason :: "string option"

definition toSession :: "stored_session \<Rightarrow> session_item" where
  "toSession r = \<lparr>si_id = ss_id r, si_profileId = ss_profileId r, si_profileName = ss_profileName r, si_host = ss_host r,
     si_port = ss_port r, si_username = ss_username r,
     si_authenticationMethod = (if ss_tailscale r = 1 then ''tailscale_ssh'' else ss_authKind r), si_startedAt = ss_startedAt r,
     si_connectedAt = ss_connectedAt r, si_endedAt = ss_closedAt r, si_finalState = ss_status r, si_closeReason = ss_closeCode r\<rparr>"

definition session_start ::
  "string \<Rightarrow> string \<Rightarrow> string \<Rightarrow> string \<Rightarrow> start_session \<Rightarrow> history_db \<Rightarrow> history_db \<times> session_item throws" where
  "session_start violated newId now ownerId i db =
     (let k = default_to newId (st_id i); startedAt = default_to now (st_startedAt i);
          tailscale = st_authenticationMethod i = ''tailscale_ssh'';
          r = \<lparr>ss_id = k, ss_ownerId = ownerId, ss_profileId = st_profileId i, ss_status = ''authorizing'', ss_host = st_host i,
            ss_port = st_port i, ss_username = st_username i, ss_profileName = st_profileName i,
            ss_authKind = (if tailscale then ''password'' else st_authenticationMethod i), ss_tailscale = (if tailscale then 1 else 0),
            ss_startedAt = startedAt, ss_createdAt = startedAt, ss_connectedAt = None, ss_closedAt = None, ss_closeCode = None\<rparr>
      in if list_ex (\<lambda>s. ss_id s = k) (hy_sessions db) then (db, Inl violated)
         else (db\<lparr>hy_sessions := hy_sessions db @ [r]\<rparr>,
           Inr \<lparr>si_id = k, si_profileId = st_profileId i, si_profileName = st_profileName i, si_host = st_host i, si_port = st_port i,
             si_username = st_username i, si_authenticationMethod = st_authenticationMethod i, si_startedAt = startedAt,
             si_connectedAt = None, si_endedAt = None, si_finalState = ''authorizing'', si_closeReason = None\<rparr>))"

definition sql_coalesce :: "'a option \<Rightarrow> 'a option \<Rightarrow> 'a option" where
  "sql_coalesce a b = (case a of None \<Rightarrow> b | Some x \<Rightarrow> Some x)"

definition update_session :: "string \<Rightarrow> string \<Rightarrow> (stored_session \<Rightarrow> stored_session) \<Rightarrow> history_db \<Rightarrow> history_db" where
  "update_session ownerId i f db =
     db\<lparr>hy_sessions := map (\<lambda>s. if ss_id s = i \<and> ss_ownerId s = ownerId then f s else s) (hy_sessions db)\<rparr>"

definition session_setState :: "string \<Rightarrow> string \<Rightarrow> string \<Rightarrow> string option \<Rightarrow> history_db \<Rightarrow> history_db" where
  "session_setState ownerId i state connectedAt =
     update_session ownerId i (\<lambda>s. s\<lparr>ss_status := state, ss_connectedAt := sql_coalesce (ss_connectedAt s) connectedAt\<rparr>)"

definition session_finish ::
  "string \<Rightarrow> string \<Rightarrow> string \<Rightarrow> string \<Rightarrow> string option \<Rightarrow> string option \<Rightarrow> string option \<Rightarrow> history_db \<Rightarrow> history_db" where
  "session_finish now ownerId i finalState closeReason connectedAt endedAt =
     update_session ownerId i (\<lambda>s. s\<lparr>ss_status := finalState, ss_closeCode := closeReason,
       ss_connectedAt := sql_coalesce (ss_connectedAt s) connectedAt, ss_closedAt := Some (default_to now endedAt)\<rparr>)"

record session_query =
  sq_cursor :: "string option"
  sq_limit :: "rat option"
  sq_profileId :: "string option"
  sq_state :: "string option"

definition session_matches :: "string \<Rightarrow> session_query \<Rightarrow> stored_session \<Rightarrow> bool" where
  "session_matches ownerId q s \<longleftrightarrow>
     ss_ownerId s = ownerId \<and> clause (sq_profileId q) (\<lambda>p. ss_profileId s = Some p) \<and> clause (sq_state q) (\<lambda>v. ss_status s = v)"

definition session_key :: "stored_session \<Rightarrow> string \<times> string" where "session_key s = (ss_createdAt s, ss_id s)"

text \<open>The cursor is made of the column started_at, the query compares created_at.\<close>

definition session_cursor :: "stored_session \<Rightarrow> time_cursor" where
  "session_cursor s = \<lparr>tc_createdAt = ss_startedAt s, tc_id = ss_id s\<rparr>"

definition session_list :: "(string \<Rightarrow> bool) \<Rightarrow> string \<Rightarrow> session_query \<Rightarrow> history_db \<Rightarrow> session_item page throws" where
  "session_list is_date ownerId q db =
     try_bind (decodeTimeCursor is_date (sq_cursor q)) (\<lambda>c.
       Inr (make_page toSession session_cursor (page_limit (sq_limit q))
         (keyset_query session_key (page_limit (sq_limit q) + 1) c (filter (session_matches ownerId q) (hy_sessions db)))))"

section \<open>Events\<close>

definition event_append ::
  "string \<Rightarrow> string \<Rightarrow> string \<Rightarrow> string \<Rightarrow> string \<Rightarrow> string \<Rightarrow> string \<Rightarrow> history_db \<Rightarrow> history_db \<times> event_row throws" where
  "event_append violated newId now ownerId sessionId code message db =
     (case safeEventMessage message of
        Inl m \<Rightarrow> (db, Inl m)
      | Inr safe \<Rightarrow>
          if \<not> session_exists ownerId sessionId db then (db, Inl ''Connection session not found'')
          else if list_ex (\<lambda>r. ev_id r = newId) (hy_events db) then (db, Inl violated)
          else
            let e = \<lparr>ev_id = newId, ev_ownerId = ownerId, ev_sessionId = sessionId, ev_code = code, ev_message = safe, ev_createdAt = now\<rparr>
            in (db\<lparr>hy_events := hy_events db @ [e]\<rparr>, Inr e))"

definition event_list :: "string \<Rightarrow> string \<Rightarrow> rat \<Rightarrow> history_db \<Rightarrow> event_row list" where
  "event_list ownerId sessionId limit db =
     take (bounded_limit 500 limit) (sort_key (\<lambda>e. (ev_createdAt e, ev_id e))
       (filter (\<lambda>e. ev_ownerId e = ownerId \<and> ev_sessionId e = sessionId) (hy_events db)))"

end
