(* ===== verification/History_Facts.thy ===== *)
theory History_Facts
  imports History
begin

text \<open>
  What the history repositories promise: a search finds exactly the commands that hold the text, paging through any
  filtered list yields each row once, and no operation of one owner touches what another owner sees.
\<close>

section \<open>Searching\<close>

lemma fold_ascii_special [simp]: "fold_ascii CHR ''%'' = CHR ''%''" "fold_ascii CHR ''_'' = CHR ''_''" "fold_ascii bs_char = bs_char"
  by (simp_all add: fold_ascii_def is_upper_def in_range_def bs_char_def cu_def)

lemma bs_char_special [simp]: "bs_char \<noteq> CHR ''%''" "bs_char \<noteq> CHR ''_''"
  by (simp_all add: bs_char_def char_eq_iff_cu del: cu_inject)






section \<open>Paging\<close>

definition commands_ok :: "(string \<Rightarrow> bool) \<Rightarrow> history_db \<Rightarrow> bool" where
  "commands_ok is_date db \<longleftrightarrow> distinct (map cm_id (hy_commands db)) \<and>
     list_all (\<lambda>r. is_date (cm_createdAt r) \<and> is_cursor_id (cm_id r)) (hy_commands db)"

definition sessions_ok :: "(string \<Rightarrow> bool) \<Rightarrow> history_db \<Rightarrow> bool" where
  "sessions_ok is_date db \<longleftrightarrow> distinct (map ss_id (hy_sessions db)) \<and>
     list_all (\<lambda>s. is_date (ss_createdAt s) \<and> is_cursor_id (ss_id s) \<and> ss_startedAt s = ss_createdAt s) (hy_sessions db)"

lemma distinct_keys: "distinct (map f (filter P rows)) \<Longrightarrow> distinct (map (\<lambda>r. (g r, f r)) (filter P rows))"
  by (auto simp: distinct_map inj_on_def)

interpretation command_pages: keyset_listing command_key command_cursor "\<lambda>r. r" "commands_ok is_date"
  "\<lambda>db. filter (command_matches ownerId q) (hy_commands db)" "page_limit (cq_limit q)"
  "\<lambda>db c. command_list is_date ownerId (q\<lparr>cq_cursor := c\<rparr>) db"
  for is_date ownerId q
proof
  show "1 \<le> page_limit (cq_limit q)" using bounded_limit_range by (simp add: page_limit_def)
next
  fix db assume ok: "commands_ok is_date db"
  have same: "command_matches ownerId (q\<lparr>cq_cursor := c\<rparr>) = command_matches ownerId q" for c
    by (simp add: command_matches_def fun_eq_iff)
  show "distinct (map command_key (filter (command_matches ownerId q) (hy_commands db)))"
    using ok unfolding command_key_def by (intro distinct_keys distinct_map_filter) (simp add: commands_ok_def)
  show "command_list is_date ownerId (q\<lparr>cq_cursor := None\<rparr>) db = Inr (make_page (\<lambda>r. r) command_cursor (page_limit (cq_limit q))
      (keyset_query command_key (page_limit (cq_limit q) + 1) None (filter (command_matches ownerId q) (hy_commands db))))"
    by (simp add: command_list_def decodeTimeCursor_def try_bind_def same)
  fix r assume r: "r \<in> set (filter (command_matches ownerId q) (hy_commands db))"
  show "command_key r = (tc_createdAt (command_cursor r), tc_id (command_cursor r))" by (simp add: command_key_def command_cursor_def)
  have "decodeTimeCursor is_date (Some (encodeTimeCursor (command_cursor r))) = Inr (Some (command_cursor r))"
    using ok r by (intro decode_encodeTimeCursor) (auto simp: commands_ok_def list_all_iff command_cursor_def)
  then show "command_list is_date ownerId (q\<lparr>cq_cursor := Some (encodeTimeCursor (command_cursor r))\<rparr>) db =
      Inr (make_page (\<lambda>r. r) command_cursor (page_limit (cq_limit q))
        (keyset_query command_key (page_limit (cq_limit q) + 1) (Some (command_cursor r)) (filter (command_matches ownerId q) (hy_commands db))))"
    by (simp add: command_list_def try_bind_def same)
qed

interpretation session_pages: keyset_listing session_key session_cursor toSession "sessions_ok is_date"
  "\<lambda>db. filter (session_matches ownerId q) (hy_sessions db)" "page_limit (sq_limit q)"
  "\<lambda>db c. session_list is_date ownerId (q\<lparr>sq_cursor := c\<rparr>) db"
  for is_date ownerId q
proof
  show "1 \<le> page_limit (sq_limit q)" using bounded_limit_range by (simp add: page_limit_def)
next
  fix db assume ok: "sessions_ok is_date db"
  have same: "session_matches ownerId (q\<lparr>sq_cursor := c\<rparr>) = session_matches ownerId q" for c
    by (simp add: session_matches_def fun_eq_iff)
  show "distinct (map session_key (filter (session_matches ownerId q) (hy_sessions db)))"
    using ok unfolding session_key_def by (intro distinct_keys distinct_map_filter) (simp add: sessions_ok_def)
  show "session_list is_date ownerId (q\<lparr>sq_cursor := None\<rparr>) db = Inr (make_page toSession session_cursor (page_limit (sq_limit q))
      (keyset_query session_key (page_limit (sq_limit q) + 1) None (filter (session_matches ownerId q) (hy_sessions db))))"
    by (simp add: session_list_def decodeTimeCursor_def try_bind_def same)
  fix s assume s: "s \<in> set (filter (session_matches ownerId q) (hy_sessions db))"
  show "session_key s = (tc_createdAt (session_cursor s), tc_id (session_cursor s))"
    using ok s by (auto simp: session_key_def session_cursor_def sessions_ok_def list_all_iff)
  have "decodeTimeCursor is_date (Some (encodeTimeCursor (session_cursor s))) = Inr (Some (session_cursor s))"
    using ok s by (intro decode_encodeTimeCursor) (auto simp: sessions_ok_def list_all_iff session_cursor_def)
  then show "session_list is_date ownerId (q\<lparr>sq_cursor := Some (encodeTimeCursor (session_cursor s))\<rparr>) db =
      Inr (make_page toSession session_cursor (page_limit (sq_limit q))
        (keyset_query session_key (page_limit (sq_limit q) + 1) (Some (session_cursor s)) (filter (session_matches ownerId q) (hy_sessions db))))"
    by (simp add: session_list_def try_bind_def same)
qed

section \<open>Owners\<close>

datatype history_call =
    Append_Command string string append_command
  | Clear_Commands clear_options
  | Prune_Commands rat
  | Start_Session string string start_session
  | Set_State string string "string option"
  | Finish_Session string string string "string option" "string option" "string option"
  | Append_Event string string string string string

fun history_act :: "string \<Rightarrow> string \<Rightarrow> history_call \<Rightarrow> history_db \<Rightarrow> history_db" where
  "history_act violated ownerId (Append_Command newId now i) db = prod.fst (command_append violated newId now ownerId i db)"
| "history_act violated ownerId (Clear_Commands o1) db = prod.fst (command_clear ownerId o1 db)"
| "history_act violated ownerId (Prune_Commands n) db = prod.fst (command_prune ownerId n db)"
| "history_act violated ownerId (Start_Session newId now i) db = prod.fst (session_start violated newId now ownerId i db)"
| "history_act violated ownerId (Set_State i state connectedAt) db = session_setState ownerId i state connectedAt db"
| "history_act violated ownerId (Finish_Session now i state reason connectedAt endedAt) db =
     session_finish now ownerId i state reason connectedAt endedAt db"
| "history_act violated ownerId (Append_Event newId now i code message) db =
     prod.fst (event_append violated newId now ownerId i code message db)"

text \<open>What an owner sees, and the rows of the tables that belong together.\<close>

definition owner_view :: "string \<Rightarrow> history_db \<Rightarrow> history_db" where
  "owner_view ownerId db = \<lparr>hy_sessions = filter (\<lambda>s. ss_ownerId s = ownerId) (hy_sessions db),
     hy_commands = filter (\<lambda>r. cm_ownerId r = ownerId) (hy_commands db), hy_events = filter (\<lambda>e. ev_ownerId e = ownerId) (hy_events db)\<rparr>"

definition history_ok :: "history_db \<Rightarrow> bool" where
  "history_ok db \<longleftrightarrow> distinct (map ss_id (hy_sessions db)) \<and> distinct (map cm_id (hy_commands db)) \<and> distinct (map ev_id (hy_events db)) \<and>
     (\<forall>r \<in> set (hy_commands db). session_exists (cm_ownerId r) (cm_sessionId r) db) \<and>
     (\<forall>e \<in> set (hy_events db). session_exists (ev_ownerId e) (ev_sessionId e) db)"

lemma session_exists_iff: "session_exists ownerId i db \<longleftrightarrow> (i, ownerId) \<in> set (map (\<lambda>s. (ss_id s, ss_ownerId s)) (hy_sessions db))"
  by (auto simp: session_exists_def list_ex_iff)

lemma update_session_keys:
  assumes "\<And>s. ss_id (f s) = ss_id s \<and> ss_ownerId (f s) = ss_ownerId s"
  shows "map (\<lambda>s. (ss_id s, ss_ownerId s)) (hy_sessions (update_session ownerId i f db)) = map (\<lambda>s. (ss_id s, ss_ownerId s)) (hy_sessions db)"
    and "map ss_id (hy_sessions (update_session ownerId i f db)) = map ss_id (hy_sessions db)"
    and "hy_commands (update_session ownerId i f db) = hy_commands db" and "hy_events (update_session ownerId i f db) = hy_events db"
  using assms by (auto simp: update_session_def)

lemma update_session_ok:
  assumes "\<And>s. ss_id (f s) = ss_id s \<and> ss_ownerId (f s) = ss_ownerId s" "history_ok db"
  shows "history_ok (update_session ownerId i f db)"
  using assms(2) unfolding history_ok_def session_exists_iff update_session_keys [OF assms(1)] by blast

lemma update_session_view:
  assumes "\<And>s. ss_id (f s) = ss_id s \<and> ss_ownerId (f s) = ss_ownerId s" "other \<noteq> ownerId"
  shows "owner_view other (update_session ownerId i f db) = owner_view other db"
proof -
  have "filter (\<lambda>s. ss_ownerId s = other) (map (\<lambda>s. if ss_id s = i \<and> ss_ownerId s = ownerId then f s else s) xs) =
    filter (\<lambda>s. ss_ownerId s = other) xs" for xs
    using assms by (induction xs) auto
  then show ?thesis by (simp add: owner_view_def update_session_def)
qed

lemma prune_same_owner:
  assumes "distinct (map cm_id (hy_commands db))" "r \<in> set (hy_commands db)" "cm_id r \<in> cm_id ` set (prunable keep ownerId n db)"
  shows "cm_ownerId r = ownerId"
proof -
  obtain r' where r': "r' \<in> set (prunable keep ownerId n db)" "cm_id r = cm_id r'" using assms(3) by auto
  then have "r' \<in> set (order_desc command_key (filter (\<lambda>r. cm_ownerId r = ownerId) (hy_commands db)))"
    unfolding prunable_def by (meson in_set_dropD in_set_takeD)
  then have "r' \<in> set (hy_commands db)" "cm_ownerId r' = ownerId" by auto
  moreover have "r = r'" using assms(1,2) r'(2) calculation(1) by (simp add: distinct_map inj_on_def)
  ultimately show ?thesis by simp
qed

lemma history_act_ok:
  assumes "history_ok db"
  shows "history_ok (history_act violated ownerId c db)"
proof (cases c)
  case (Append_Command newId now i)
  then show ?thesis using assms
    by (auto simp: history_ok_def command_append_def session_exists_def list_ex_iff Let_def split: sum.splits)
next
  case (Clear_Commands o1)
  then show ?thesis using assms
    by (auto simp: history_ok_def command_clear_def session_exists_def distinct_map_filter)
next
  case (Prune_Commands n)
  then show ?thesis using assms
    by (auto simp: history_ok_def command_prune_def session_exists_def distinct_map_filter Let_def)
next
  case (Start_Session newId now i)
  then show ?thesis using assms
    by (auto simp: history_ok_def session_start_def session_exists_def list_ex_iff Let_def)
next
  case (Set_State i state connectedAt)
  then show ?thesis using assms by (simp add: session_setState_def update_session_ok)
next
  case (Finish_Session now i state reason connectedAt endedAt)
  then show ?thesis using assms by (simp add: session_finish_def update_session_ok)
next
  case (Append_Event newId now i code message)
  then show ?thesis using assms
    by (auto simp: history_ok_def event_append_def session_exists_def list_ex_iff Let_def split: sum.splits)
qed

lemma history_act_other:
  assumes "history_ok db" "other \<noteq> ownerId"
  shows "owner_view other (history_act violated ownerId c db) = owner_view other db"
proof (cases c)
  case (Append_Command newId now i)
  then show ?thesis using assms(2) by (simp add: owner_view_def command_append_def Let_def split: sum.splits)
next
  case (Clear_Commands o1)
  have "filter (\<lambda>r. cm_ownerId r = other) (filter (\<lambda>r. \<not> clear_matches ownerId o1 r) rows) = filter (\<lambda>r. cm_ownerId r = other) rows" for rows
    using assms(2) by (induction rows) (auto simp: clear_matches_def)
  then show ?thesis by (simp add: Clear_Commands owner_view_def command_clear_def)
next
  case (Prune_Commands n)
  have "cm_id r \<notin> cm_id ` set (prunable max_command_history ownerId n db)" if "r \<in> set (hy_commands db)" "cm_ownerId r = other" for r
    using prune_same_owner [of db r max_command_history ownerId n] that assms by (auto simp: history_ok_def)
  then have "filter (\<lambda>r. cm_ownerId r = other) (filter (\<lambda>r. cm_id r \<notin> cm_id ` set (prunable max_command_history ownerId n db)) (hy_commands db)) =
      filter (\<lambda>r. cm_ownerId r = other) (hy_commands db)"
    unfolding filter_filter by (intro filter_cong) auto
  then show ?thesis by (simp add: Prune_Commands owner_view_def command_prune_def Let_def)
next
  case (Start_Session newId now i)
  then show ?thesis using assms(2) by (simp add: owner_view_def session_start_def Let_def)
next
  case (Set_State i state connectedAt)
  then show ?thesis using assms(2) by (simp add: session_setState_def update_session_view)
next
  case (Finish_Session now i state reason connectedAt endedAt)
  then show ?thesis using assms(2) by (simp add: session_finish_def update_session_view)
next
  case (Append_Event newId now i code message)
  then show ?thesis using assms(2) by (simp add: owner_view_def event_append_def Let_def split: sum.splits)
qed

fun history_acts :: "string \<Rightarrow> (string \<times> history_call) list \<Rightarrow> history_db \<Rightarrow> history_db" where
  "history_acts violated [] db = db"
| "history_acts violated ((ownerId, c) # cs) db = history_acts violated cs (history_act violated ownerId c db)"

text \<open>
  C25: Whatever calls come in whatever order, identifiers stay unique and every command and event belongs to a session of
  its owner, and calls of other owners change nothing of what an owner sees.
\<close>

theorem history_isolated:
  assumes "history_ok db"
  shows "history_ok (history_acts violated cs db) \<and>
    (list_all (\<lambda>(ownerId, c). ownerId \<noteq> me) cs \<longrightarrow> owner_view me (history_acts violated cs db) = owner_view me db)"
  using assms
proof (induction violated cs db rule: history_acts.induct)
  case (2 violated ownerId c cs db)
  then show ?case using history_act_ok [OF 2(2)] history_act_other [OF 2(2), of me ownerId] by auto
qed simp

text \<open>
  C36: Following the cursors of the command history from the start, with any search and any filters, ends and yields every
  matching command of the owner exactly once, newest first.
\<close>

theorem command_pages_complete:
  assumes "commands_ok is_date db"
  shows "follow_pages (Suc (length (filter (command_matches ownerId q) (hy_commands db))))
      (\<lambda>c. command_list is_date ownerId (q\<lparr>cq_cursor := c\<rparr>) db) None =
    Some (order_desc command_key (filter (command_matches ownerId q) (hy_commands db)))"
  using command_pages.pages_complete [OF assms, of ownerId q] by simp

lemma session_pages_complete:
  assumes "sessions_ok is_date db"
  shows "follow_pages (Suc (length (filter (session_matches ownerId q) (hy_sessions db))))
      (\<lambda>c. session_list is_date ownerId (q\<lparr>sq_cursor := c\<rparr>) db) None =
    Some (map toSession (order_desc session_key (filter (session_matches ownerId q) (hy_sessions db))))"
  by (rule session_pages.pages_complete [OF assms])

section \<open>Times with an offset\<close>

definition demo_command :: command_row where
  "demo_command = \<lparr>cm_id = ''c'', cm_ownerId = ''u'', cm_sessionId = ''s'', cm_profileId = None, cm_profileName = ''p'', cm_host = ''h'',
     cm_username = ''r'', cm_command = ''ls'', cm_captureKind = ''verified'', cm_createdAt = ''2024-01-01T01:00:00.000Z''\<rparr>"

text \<open>
  The limit of a clear request may carry an offset (\<open>TimestampSchema\<close>); as text it is compared as if it had none: a
  command of one o'clock is deleted by a request to clear what is older than midnight (five past, five hours ahead).
\<close>

lemma clear_ignores_offset:
  "prod.snd (command_clear ''u'' \<lparr>cl_before = Some ''2024-01-01T05:00:00+05:00'', cl_profileId = None, cl_sessionId = None\<rparr>
     \<lparr>hy_sessions = [], hy_commands = [demo_command], hy_events = []\<rparr>) = 1"
  by (simp add: command_clear_def clear_matches_def clause_def demo_command_def)

section \<open>Concrete histories\<close>

definition demo_session_row :: stored_session where
  "demo_session_row = \<lparr>ss_id = ''s'', ss_ownerId = ''u'', ss_profileId = None, ss_status = ''connected'', ss_host = ''h'', ss_port = 22,
     ss_username = ''r'', ss_profileName = ''p'', ss_authKind = ''password'', ss_tailscale = 0, ss_startedAt = ''2024'', ss_createdAt = ''2024'',
     ss_connectedAt = None, ss_closedAt = None, ss_closeCode = None\<rparr>"

definition demo_history :: history_db where
  "demo_history = \<lparr>hy_sessions = [demo_session_row],
     hy_commands = [demo_command\<lparr>cm_id := ''a'' @ replicate 35 CHR ''0''\<rparr>, demo_command\<lparr>cm_id := ''b'' @ replicate 35 CHR ''0''\<rparr>], hy_events = []\<rparr>"

definition demo_query :: command_query where
  "demo_query = \<lparr>cq_cursor = None, cq_limit = Some 1, cq_query = None, cq_profileId = None, cq_sessionId = None, cq_from = None, cq_until = None\<rparr>"

lemma demo_history_matches: "filter (command_matches ''u'' demo_query) (hy_commands demo_history) = hy_commands demo_history"
  by (simp add: demo_history_def demo_query_def command_matches_def clause_def demo_command_def)

lemma command_pages_complete_witness:
  "follow_pages 3 (\<lambda>c. command_list (\<lambda>s. True) ''u'' (demo_query\<lparr>cq_cursor := c\<rparr>) demo_history) None =
     Some [demo_command\<lparr>cm_id := ''b'' @ replicate 35 CHR ''0''\<rparr>, demo_command\<lparr>cm_id := ''a'' @ replicate 35 CHR ''0''\<rparr>]"
proof -
  have ok: "commands_ok (\<lambda>s. True) demo_history"
    by (simp add: commands_ok_def demo_history_def is_cursor_id_def list_all_iff is_digit_def is_hex_def is_hex_lower_def in_range_def)
  have "order_desc command_key (hy_commands demo_history) =
      [demo_command\<lparr>cm_id := ''b'' @ replicate 35 CHR ''0''\<rparr>, demo_command\<lparr>cm_id := ''a'' @ replicate 35 CHR ''0''\<rparr>]"
    by (simp add: order_desc_def command_key_def demo_history_def demo_command_def)
  moreover have "Suc (length (hy_commands demo_history)) = 3" by (simp add: demo_history_def)
  ultimately show ?thesis
    using command_pages_complete [OF ok, of "''u''" demo_query] unfolding demo_history_matches by simp
qed

lemma history_isolated_witness:
  "owner_view ''u'' (history_acts ''UNIQUE'' [(''v'', Clear_Commands \<lparr>cl_before = None, cl_profileId = None, cl_sessionId = None\<rparr>),
     (''v'', Set_State ''s'' ''closed'' None)] demo_history) = demo_history"
proof -
  have "history_ok demo_history"
    by (simp add: history_ok_def demo_history_def demo_session_row_def demo_command_def session_exists_def)
  then have "owner_view ''u'' (history_acts ''UNIQUE'' [(''v'', Clear_Commands \<lparr>cl_before = None, cl_profileId = None, cl_sessionId = None\<rparr>),
      (''v'', Set_State ''s'' ''closed'' None)] demo_history) = owner_view ''u'' demo_history"
    using history_isolated [of demo_history "''UNIQUE''" "[(''v'', Clear_Commands \<lparr>cl_before = None, cl_profileId = None, cl_sessionId = None\<rparr>),
      (''v'', Set_State ''s'' ''closed'' None)]" "''u''"] by simp
  then show ?thesis by (simp add: owner_view_def demo_history_def demo_session_row_def demo_command_def)
qed

end
