(* ===== verification/Settings.thy ===== *)
theory Settings
  imports Keyset Profiles
begin

text \<open>
  The settings of an owner: \<open>apps/worker/src/storage/settings.ts\<close> on the rows of its table, with the checks of its
  columns (\<open>migrations/0001_initial.sql\<close>), and the schema of a patch (\<open>packages/contracts/src/settings.ts\<close>).
\<close>

record terminal_settings =
  te_encoding :: string
  te_type :: string
  te_fontSize :: int
  te_fontFamily :: string
  te_cursorBlink :: bool
  te_scrollbackLines :: int

record monitoring_settings =
  mo_refreshIntervalSeconds :: int
  mo_reduceWhenHidden :: bool

record history_settings =
  hs_commandRetentionDays :: int
  hs_sessionRetentionDays :: int
  hs_collectCommands :: bool

record settings =
  se_language :: string
  se_theme :: string
  se_terminal :: terminal_settings
  se_monitoring :: monitoring_settings
  se_history :: history_settings
  se_updatedAt :: string

record settings_row =
  sw_owner_id :: string
  sw_language :: string
  sw_theme :: string
  sw_font_family :: string
  sw_font_size :: int
  sw_scrollback :: int
  sw_cursor_blink :: int
  sw_encoding :: string
  sw_terminal_type :: string
  sw_refresh_seconds :: int
  sw_reduce_when_hidden :: int
  sw_command_retention :: int
  sw_event_retention :: int
  sw_collect_commands :: int
  sw_updated_at :: string

definition settings_defaults :: "string \<Rightarrow> string \<Rightarrow> settings_row" where
  "settings_defaults now ownerId = \<lparr>sw_owner_id = ownerId, sw_language = ''zh-CN'', sw_theme = ''system'',
     sw_font_family = ''ui-monospace, SFMono-Regular, Menlo, Monaco, Consolas, monospace'', sw_font_size = 14, sw_scrollback = 10000,
     sw_cursor_blink = 1, sw_encoding = ''utf-8'', sw_terminal_type = ''xterm-256color'', sw_refresh_seconds = 8,
     sw_reduce_when_hidden = 1, sw_command_retention = 90, sw_event_retention = 90, sw_collect_commands = 1, sw_updated_at = now\<rparr>"

definition toSettings :: "settings_row \<Rightarrow> settings" where
  "toSettings r = \<lparr>se_language = sw_language r, se_theme = sw_theme r,
     se_terminal = \<lparr>te_encoding = sw_encoding r, te_type = sw_terminal_type r, te_fontSize = sw_font_size r,
       te_fontFamily = sw_font_family r, te_cursorBlink = asBoolean (sw_cursor_blink r), te_scrollbackLines = sw_scrollback r\<rparr>,
     se_monitoring = \<lparr>mo_refreshIntervalSeconds = sw_refresh_seconds r, mo_reduceWhenHidden = asBoolean (sw_reduce_when_hidden r)\<rparr>,
     se_history = \<lparr>hs_commandRetentionDays = sw_command_retention r, hs_sessionRetentionDays = sw_event_retention r,
       hs_collectCommands = asBoolean (sw_collect_commands r)\<rparr>,
     se_updatedAt = sw_updated_at r\<rparr>"

text \<open>A field that a patch leaves out is \<open>None\<close>.\<close>

record settings_patch =
  sp_language :: "string option"
  sp_theme :: "string option"
  sp_encoding :: "string option"
  sp_type :: "string option"
  sp_fontSize :: "int option"
  sp_fontFamily :: "string option"
  sp_cursorBlink :: "bool option"
  sp_scrollbackLines :: "int option"
  sp_refreshIntervalSeconds :: "int option"
  sp_reduceWhenHidden :: "bool option"
  sp_commandRetentionDays :: "int option"
  sp_sessionRetentionDays :: "int option"
  sp_collectCommands :: "bool option"

definition apply_patch :: "string \<Rightarrow> settings_patch \<Rightarrow> settings \<Rightarrow> settings" where
  "apply_patch updatedAt p c = \<lparr>
     se_language = default_to (se_language c) (sp_language p), se_theme = default_to (se_theme c) (sp_theme p),
     se_terminal = \<lparr>te_encoding = default_to (te_encoding (se_terminal c)) (sp_encoding p),
       te_type = default_to (te_type (se_terminal c)) (sp_type p), te_fontSize = default_to (te_fontSize (se_terminal c)) (sp_fontSize p),
       te_fontFamily = default_to (te_fontFamily (se_terminal c)) (sp_fontFamily p),
       te_cursorBlink = default_to (te_cursorBlink (se_terminal c)) (sp_cursorBlink p),
       te_scrollbackLines = default_to (te_scrollbackLines (se_terminal c)) (sp_scrollbackLines p)\<rparr>,
     se_monitoring = \<lparr>mo_refreshIntervalSeconds = default_to (mo_refreshIntervalSeconds (se_monitoring c)) (sp_refreshIntervalSeconds p),
       mo_reduceWhenHidden = default_to (mo_reduceWhenHidden (se_monitoring c)) (sp_reduceWhenHidden p)\<rparr>,
     se_history = \<lparr>hs_commandRetentionDays = default_to (hs_commandRetentionDays (se_history c)) (sp_commandRetentionDays p),
       hs_sessionRetentionDays = default_to (hs_sessionRetentionDays (se_history c)) (sp_sessionRetentionDays p),
       hs_collectCommands = default_to (hs_collectCommands (se_history c)) (sp_collectCommands p)\<rparr>,
     se_updatedAt = updatedAt\<rparr>"

section \<open>The table\<close>

type_synonym settings_db = "settings_row list"

definition in_bounds :: "int \<Rightarrow> int \<Rightarrow> int \<Rightarrow> bool" where "in_bounds lo hi n \<longleftrightarrow> lo \<le> n \<and> n \<le> hi"

text \<open>The \<open>CHECK\<close> clauses of the columns.\<close>

definition settings_checks :: "settings_row \<Rightarrow> bool" where
  "settings_checks r \<longleftrightarrow>
     sw_language r \<in> set [''zh-CN'', ''en''] \<and> sw_theme r \<in> set [''system'', ''light'', ''dark''] \<and> in_bounds 10 32 (sw_font_size r) \<and>
     in_bounds 1000 100000 (sw_scrollback r) \<and> sw_cursor_blink r \<in> {0, 1} \<and>
     sw_encoding r \<in> set [''utf-8'', ''gb18030'', ''big5''] \<and>
     sw_terminal_type r \<in> set [''xterm-256color'', ''xterm'', ''screen-256color''] \<and> in_bounds 5 60 (sw_refresh_seconds r) \<and>
     sw_reduce_when_hidden r \<in> {0, 1} \<and> in_bounds 1 3650 (sw_command_retention r) \<and> in_bounds 1 3650 (sw_event_retention r) \<and>
     sw_collect_commands r \<in> {0, 1}"

definition settings_row_of :: "string \<Rightarrow> settings_db \<Rightarrow> settings_row option" where
  "settings_row_of ownerId db = find (\<lambda>r. sw_owner_id r = ownerId) db"

definition settings_get :: "string \<Rightarrow> string \<Rightarrow> settings_db \<Rightarrow> settings_db \<times> settings" where
  "settings_get now ownerId db =
     (case settings_row_of ownerId db of
        Some r \<Rightarrow> (db, toSettings r)
      | None \<Rightarrow> (db @ [settings_defaults now ownerId], toSettings (settings_defaults now ownerId)))"

definition write_settings :: "settings \<Rightarrow> settings_row \<Rightarrow> settings_row" where
  "write_settings n r = r\<lparr>sw_language := se_language n, sw_theme := se_theme n, sw_font_family := te_fontFamily (se_terminal n),
     sw_font_size := te_fontSize (se_terminal n), sw_scrollback := te_scrollbackLines (se_terminal n),
     sw_cursor_blink := toInteger (te_cursorBlink (se_terminal n)), sw_encoding := te_encoding (se_terminal n),
     sw_terminal_type := te_type (se_terminal n), sw_refresh_seconds := mo_refreshIntervalSeconds (se_monitoring n),
     sw_reduce_when_hidden := toInteger (mo_reduceWhenHidden (se_monitoring n)),
     sw_command_retention := hs_commandRetentionDays (se_history n), sw_event_retention := hs_sessionRetentionDays (se_history n),
     sw_collect_commands := toInteger (hs_collectCommands (se_history n)), sw_updated_at := se_updatedAt n\<rparr>"

text \<open>The statement fails, and changes nothing, where a row it would write breaks a check.\<close>

definition settings_update :: "string \<Rightarrow> string \<Rightarrow> string \<Rightarrow> settings_patch \<Rightarrow> settings_db \<Rightarrow> settings_db \<times> settings throws" where
  "settings_update violated now ownerId p db =
     (case settings_get now ownerId db of
        (db, current) \<Rightarrow>
          (let n = apply_patch now p current in
           if list_ex (\<lambda>r. sw_owner_id r = ownerId \<and> \<not> settings_checks (write_settings n r)) db then (db, Inl violated)
           else (map (\<lambda>r. if sw_owner_id r = ownerId then write_settings n r else r) db, Inr n)))"

section \<open>The schema of a patch\<close>

definition setting_ok :: "('a \<Rightarrow> bool) \<Rightarrow> 'a option \<Rightarrow> bool" where
  "setting_ok P v \<longleftrightarrow> (case v of None \<Rightarrow> True | Some x \<Rightarrow> P x)"

definition SettingsPatch_ok :: "settings_patch \<Rightarrow> bool" where
  "SettingsPatch_ok p \<longleftrightarrow>
     setting_ok (\<lambda>v. v \<in> set [''zh-CN'', ''en'']) (sp_language p) \<and> setting_ok (\<lambda>v. v \<in> set [''system'', ''light'', ''dark'']) (sp_theme p) \<and>
     setting_ok (\<lambda>v. v \<in> set [''utf-8'', ''gb18030'', ''big5'']) (sp_encoding p) \<and>
     setting_ok (\<lambda>v. v \<in> set [''xterm-256color'', ''xterm'', ''screen-256color'']) (sp_type p) \<and>
     setting_ok (in_bounds 10 24) (sp_fontSize p) \<and> setting_ok (\<lambda>v. 1 \<le> length v \<and> length v \<le> 256) (sp_fontFamily p) \<and>
     setting_ok (in_bounds 100 100000) (sp_scrollbackLines p) \<and> setting_ok (in_bounds 5 60) (sp_refreshIntervalSeconds p) \<and>
     setting_ok (in_bounds 1 3650) (sp_commandRetentionDays p) \<and> setting_ok (in_bounds 1 3650) (sp_sessionRetentionDays p)"

section \<open>Reading what was written\<close>

definition settings_ok :: "settings_db \<Rightarrow> bool" where
  "settings_ok db \<longleftrightarrow> distinct (map sw_owner_id db) \<and> list_all settings_checks db"

text \<open>What an owner has: the row, or the defaults.\<close>

definition settings_view :: "string \<Rightarrow> string \<Rightarrow> settings_db \<Rightarrow> settings" where
  "settings_view now ownerId db = (case settings_row_of ownerId db of Some r \<Rightarrow> toSettings r | None \<Rightarrow> toSettings (settings_defaults now ownerId))"

lemma toSettings_write [simp]: "toSettings (write_settings n r) = n"
  by (simp add: toSettings_def write_settings_def)

lemma write_owner [simp]: "sw_owner_id (write_settings n r) = sw_owner_id r"
  by (simp add: write_settings_def)

lemma defaults_ok [simp]: "settings_checks (settings_defaults now ownerId)" "sw_owner_id (settings_defaults now ownerId) = ownerId"
  by (simp_all add: settings_checks_def settings_defaults_def in_bounds_def)

lemma find_map: "(\<And>x. P (f x) = P x) \<Longrightarrow> find P (map f xs) = map_option f (find P xs)"
  by (induction xs) auto

lemma find_append: "find P (xs @ ys) = (case find P xs of Some x \<Rightarrow> Some x | None \<Rightarrow> find P ys)"
  by (induction xs) auto

lemma row_of_none: "settings_row_of ownerId db = None \<longleftrightarrow> ownerId \<notin> set (map sw_owner_id db)"
  by (auto simp: settings_row_of_def find_None_iff)

lemma get_refines:
  assumes "settings_ok db" "settings_get now ownerId db = (db', s)"
  shows "settings_ok db'" and "s = settings_view now ownerId db" and "settings_row_of ownerId db' \<noteq> None"
    and "settings_view now' ownerId db' = s" and "other \<noteq> ownerId \<Longrightarrow> settings_row_of other db' = settings_row_of other db"
proof -
  consider r where "settings_row_of ownerId db = Some r" "db' = db" "s = toSettings r"
    | "settings_row_of ownerId db = None" "db' = db @ [settings_defaults now ownerId]" "s = toSettings (settings_defaults now ownerId)"
    using assms(2) by (cases "settings_row_of ownerId db") (auto simp: settings_get_def)
  note c = this
  show "settings_ok db'" "s = settings_view now ownerId db" "settings_row_of ownerId db' \<noteq> None"
    "settings_view now' ownerId db' = s"
    using assms(1) row_of_none [of ownerId db]
    by (cases rule: c; auto simp: settings_ok_def settings_view_def settings_row_of_def find_append)+
  show "other \<noteq> ownerId \<Longrightarrow> settings_row_of other db' = settings_row_of other db"
    by (cases rule: c) (auto simp: settings_row_of_def find_append split: option.splits)
qed

text \<open>
  C23: Whatever patch is applied, an owner's settings are afterwards exactly the old ones with the fields of the patch
  replaced, as they are read back later; where the database refuses, nothing changes; the settings of others stay.
\<close>

theorem settings_update_refines:
  assumes "settings_ok db" "settings_update violated now ownerId p db = (db', r)"
  shows "settings_ok db' \<and>
    settings_view now' ownerId db' = (case r of Inr s \<Rightarrow> s | Inl _ \<Rightarrow> settings_view now ownerId db) \<and>
    (\<forall>s. r = Inr s \<longrightarrow> s = apply_patch now p (settings_view now ownerId db)) \<and>
    (\<forall>other. other \<noteq> ownerId \<longrightarrow> settings_view now' other db' = settings_view now' other db)"
proof -
  obtain db1 c where g: "settings_get now ownerId db = (db1, c)" by force
  note get = get_refines [OF assms(1) g]
  let ?n = "apply_patch now p c"
  show ?thesis
  proof (cases "list_ex (\<lambda>r. sw_owner_id r = ownerId \<and> \<not> settings_checks (write_settings ?n r)) db1")
    case True
    then have "db' = db1" "r = Inl violated" using assms(2) by (simp_all add: settings_update_def g Let_def)
    then show ?thesis using get by (simp add: settings_view_def)
  next
    case False
    then have r: "db' = map (\<lambda>r. if sw_owner_id r = ownerId then write_settings ?n r else r) db1" "r = Inr ?n"
      using assms(2) unfolding settings_update_def g prod.case Let_def if_not_P [OF False] by simp_all
    have rows: "settings_row_of other db' = map_option (\<lambda>r. if sw_owner_id r = ownerId then write_settings ?n r else r) (settings_row_of other db1)" for other
      unfolding r(1) settings_row_of_def by (rule find_map) simp
    have owner: "sw_owner_id x = other" if "settings_row_of other db1 = Some x" for x other
      using that by (auto simp: settings_row_of_def find_Some_iff)
    have "settings_ok db'"
      using get(1) False unfolding r(1) settings_ok_def by (auto simp: list_all_iff list_ex_iff comp_def if_distrib [of sw_owner_id] cong: if_cong)
    moreover have "settings_row_of other db' = settings_row_of other db" if "other \<noteq> ownerId" for other
      using rows [of other] owner [of other] get(5) [OF that] that by (cases "settings_row_of other db") simp_all
    moreover obtain y where y: "settings_row_of ownerId db1 = Some y" using get(3) by blast
    then have "settings_row_of ownerId db' = Some (write_settings ?n y)" using rows owner [OF y] by simp
    ultimately show ?thesis using get(2) r(2) by (simp add: settings_view_def)
  qed
qed

section \<open>Concrete patches\<close>

definition no_patch :: settings_patch where
  "no_patch = \<lparr>sp_language = None, sp_theme = None, sp_encoding = None, sp_type = None, sp_fontSize = None, sp_fontFamily = None,
     sp_cursorBlink = None, sp_scrollbackLines = None, sp_refreshIntervalSeconds = None, sp_reduceWhenHidden = None,
     sp_commandRetentionDays = None, sp_sessionRetentionDays = None, sp_collectCommands = None\<rparr>"

lemma settings_update_refines_witness:
  "\<exists>db s. settings_update ''CHECK'' ''t1'' ''u'' (no_patch\<lparr>sp_fontSize := Some 18\<rparr>) [] = (db, Inr s) \<and>
     settings_view ''t2'' ''u'' db = s \<and> te_fontSize (se_terminal s) = 18"
proof -
  have "prod.snd (settings_update ''CHECK'' ''t1'' ''u'' (no_patch\<lparr>sp_fontSize := Some 18\<rparr>) []) =
      Inr (apply_patch ''t1'' (no_patch\<lparr>sp_fontSize := Some 18\<rparr>) (toSettings (settings_defaults ''t1'' ''u'')))"
    by code_simp
  then obtain db s where u: "settings_update ''CHECK'' ''t1'' ''u'' (no_patch\<lparr>sp_fontSize := Some 18\<rparr>) [] = (db, Inr s)"
    by (metis prod.collapse)
  have "settings_ok []" by (simp add: settings_ok_def)
  then show ?thesis
    using settings_update_refines [OF _ u, of "''t2''"] u
    by (intro exI [of _ db] exI [of _ s]) (simp add: apply_patch_def no_patch_def default_to_def)
qed

text \<open>The schema accepts 500 lines of scrollback, the table at least 1000: such a patch is answered as an internal error.\<close>

lemma accepted_scrollback_refused:
  "SettingsPatch_ok (no_patch\<lparr>sp_scrollbackLines := Some 500\<rparr>) \<and>
    settings_update ''CHECK'' ''t1'' ''u'' (no_patch\<lparr>sp_scrollbackLines := Some 500\<rparr>) [settings_defaults ''t0'' ''u''] =
      ([settings_defaults ''t0'' ''u''], Inl ''CHECK'')"
  by code_simp

end
