(* ===== verification/Worker_Config.thy ===== *)
theory Worker_Config
  imports Google_Oidc
begin

text \<open>
  The configuration of the Worker (\<open>apps/worker/src/env.ts\<close>): numbers and lists in the variables, origins, ports and the
  settings of the Tailnet Connector. URL parsing is the argument \<open>url\<close>.
\<close>

section \<open>Numbers in text\<close>

text \<open>
  \<open>Number(text)\<close> after trimming; \<open>None\<close> stands for \<open>NaN\<close> and the infinities, and numbers are exact.
\<close>

fun base_val :: "nat \<Rightarrow> string \<Rightarrow> nat" where
  "base_val b s = foldl (\<lambda>n c. n * b + hex_of c) 0 s"

definition prefixed_number :: "string \<Rightarrow> rat option" where
  "prefixed_number s =
     (case s of
        z # k # ds \<Rightarrow>
          (let b = (if k \<in> set ''xX'' then 16 else if k \<in> set ''oO'' then 8 else if k \<in> set ''bB'' then 2 else 0) in
           if z = CHR ''0'' \<and> 0 < b \<and> ds \<noteq> [] \<and> list_all (\<lambda>c. is_hex c \<and> hex_of c < b) ds then Some (of_nat (base_val b ds)) else None)
      | _ \<Rightarrow> None)"

definition unsigned_number :: "string \<Rightarrow> rat option" where
  "unsigned_number s =
     (let ds = takeWhile is_digit s; r = dropWhile is_digit s;
          (fs, r) = (case r of c # r' \<Rightarrow> if c = CHR ''.'' then (takeWhile is_digit r', dropWhile is_digit r') else ([], r) | [] \<Rightarrow> ([], r))
      in if ds = [] \<and> fs = [] then None
         else case parse_exp r of
           Some (e, []) \<Rightarrow> Some (scale10 e (of_nat (dec_val ds) + of_nat (dec_val fs) / 10 ^ length fs))
         | _ \<Rightarrow> None)"

definition to_number :: "string \<Rightarrow> rat option" where
  "to_number text =
     (let s = trim text in
      if s = [] then Some 0
      else case prefixed_number s of
        Some q \<Rightarrow> Some q
      | None \<Rightarrow>
          (case s of
             c # r \<Rightarrow> if c = CHR ''-'' then map_option uminus (unsigned_number r)
               else if c = CHR ''+'' then unsigned_number r else unsigned_number s
           | [] \<Rightarrow> None))"

section \<open>Configuration\<close>

record worker_env =
  we_appEnv :: "string option"
  we_allowedOrigins :: "string option"
  we_connectTimeoutMs :: "string option"
  we_maxSessionsPerUser :: "string option"
  we_allowedSshPorts :: "string option"
  we_sshTransport :: "string option"
  we_connectorUrl :: "string option"
  we_connectorHmacKey :: "string option"
  we_accessClientId :: "string option"
  we_accessClientSecret :: "string option"

record connector_config =
  cc_url :: string
  cc_hmacKey :: string
  cc_access :: "(string \<times> string) option"

datatype app_env = Development | Test_Env | Production

record runtime_config =
  rc_appEnv :: app_env
  rc_allowedOrigins :: "string list"
  rc_connectTimeoutMs :: int
  rc_maxSessionsPerUser :: int
  rc_allowedSshPorts :: "int list option"
  rc_connector :: "connector_config option"

text \<open>\<open>value?.trim()\<close> where the empty text counts as absent.\<close>

definition trimmed :: "string option \<Rightarrow> string option" where
  "trimmed v = (case map_option trim v of Some (c # s) \<Rightarrow> Some (c # s) | _ \<Rightarrow> None)"

definition parseTailnetConnectorUrl :: "(string \<Rightarrow> url_parts option) \<Rightarrow> string option \<Rightarrow> string throws" where
  "parseTailnetConnectorUrl url v =
     (case trimmed v of
        None \<Rightarrow> Inl ''TAILNET_CONNECTOR_URL is required for tailnet_connector transport''
      | Some s \<Rightarrow>
          (case url s of
             None \<Rightarrow> Inl ''TAILNET_CONNECTOR_URL must be a valid secure WebSocket URL''
           | Some u \<Rightarrow>
               if (ur_protocol u \<noteq> ''wss:'' \<and> ur_protocol u \<noteq> ''https:'') \<or> ur_username u \<noteq> [] \<or> ur_password u \<noteq> []
                 \<or> ur_pathname u \<noteq> ''/v1/connect'' \<or> ur_search u \<noteq> [] \<or> ur_hash u \<noteq> []
               then Inl ''TAILNET_CONNECTOR_URL must use wss:// or https:// with the /v1/connect path and no credentials, query, or fragment''
               else Inr (ur_href u)))"

definition connectorCredential :: "string option \<Rightarrow> string \<Rightarrow> string option throws" where
  "connectorCredential v name =
     (case trimmed v of
        None \<Rightarrow> Inr None
      | Some s \<Rightarrow> if length s > 4096 \<or> list_ex (\<lambda>c. cu c \<le> 31 \<or> cu c = 127) s then Inl (name @ '' is invalid'') else Inr (Some s))"

definition parseTailnetConnector :: "(string \<Rightarrow> url_parts option) \<Rightarrow> worker_env \<Rightarrow> connector_config throws" where
  "parseTailnetConnector url env =
     (case trimmed (we_connectorHmacKey env) of
        None \<Rightarrow> Inl ''TAILNET_CONNECTOR_HMAC_KEY is required for tailnet_connector transport''
      | Some hmacKey \<Rightarrow>
          if \<not> is_token hmacKey then Inl ''TAILNET_CONNECTOR_HMAC_KEY must be a canonical base64url-encoded 32-byte secret''
          else try_bind (decodeBase64Secret hmacKey (Some 32)) (\<lambda>keyBytes.
            if encodeBase64Url keyBytes \<noteq> hmacKey then Inl ''TAILNET_CONNECTOR_HMAC_KEY must be a canonical base64url-encoded 32-byte secret''
            else try_bind (connectorCredential (we_accessClientId env) ''TAILNET_CONNECTOR_ACCESS_CLIENT_ID'') (\<lambda>clientId.
              try_bind (connectorCredential (we_accessClientSecret env) ''TAILNET_CONNECTOR_ACCESS_CLIENT_SECRET'') (\<lambda>clientSecret.
                if (clientId = None) \<noteq> (clientSecret = None)
                then Inl ''Tailnet Connector Access service token ID and secret must be configured together''
                else try_bind (parseTailnetConnectorUrl url (we_connectorUrl env)) (\<lambda>u.
                  Inr \<lparr>cc_url = u, cc_hmacKey = hmacKey,
                    cc_access = (case (clientId, clientSecret) of (Some i, Some k) \<Rightarrow> Some (i, k) | _ \<Rightarrow> None)\<rparr>)))))"

definition boundedInteger :: "string option \<Rightarrow> int \<Rightarrow> int \<Rightarrow> int \<Rightarrow> int" where
  "boundedInteger v fallback lo hi =
     (case v of
        None \<Rightarrow> fallback
      | Some s \<Rightarrow>
          if s = [] \<or> \<not> list_all is_digit s then fallback
          else let parsed = int (dec_val s) in if parsed \<le> max_safe \<and> lo \<le> parsed \<and> parsed \<le> hi then parsed else fallback)"

text \<open>The elements of a \<open>Set\<close> in the order they were added.\<close>

definition set_of_list :: "'a list \<Rightarrow> 'a list" where
  "set_of_list xs = rev (remdups (rev xs))"

lemma set_set_of_list [simp]: "set (set_of_list xs) = set xs"
  by (simp add: set_of_list_def)

fun map_try :: "('a \<Rightarrow> 'e + 'b) \<Rightarrow> 'a list \<Rightarrow> 'e + 'b list" where
  "map_try f [] = Inr []"
| "map_try f (x # xs) = try_bind (f x) (\<lambda>y. map_sum (\<lambda>e. e) ((#) y) (map_try f xs))"

definition parse_origin :: "(string \<Rightarrow> url_parts option) \<Rightarrow> string \<Rightarrow> string throws" where
  "parse_origin url item =
     (case url item of
        None \<Rightarrow> Inl ''Invalid URL''
      | Some u \<Rightarrow>
          if (ur_protocol u \<noteq> ''http:'' \<and> ur_protocol u \<noteq> ''https:'') \<or> ur_origin u \<noteq> item \<or> ur_username u \<noteq> [] \<or> ur_password u \<noteq> []
          then Inl (''Invalid ALLOWED_ORIGINS entry: '' @ item) else Inr (ur_origin u))"

definition parseOrigins :: "(string \<Rightarrow> url_parts option) \<Rightarrow> string option \<Rightarrow> string list throws" where
  "parseOrigins url v =
     (case trimmed v of
        None \<Rightarrow> Inr []
      | Some _ \<Rightarrow> map_sum (\<lambda>m. m) set_of_list
          (map_try (parse_origin url) (filter (\<lambda>s. s \<noteq> []) (map trim (split_on CHR '','' (the v))))))"

definition port_allowed :: "rat option \<Rightarrow> bool" where
  "port_allowed q \<longleftrightarrow> (case q of None \<Rightarrow> False | Some n \<Rightarrow> is_safe_integer n \<and> 1 \<le> n \<and> n \<le> 65535 \<and> n \<noteq> 25)"

definition parsePorts :: "string option \<Rightarrow> int list option throws" where
  "parsePorts v =
     (case trimmed v of
        None \<Rightarrow> Inr None
      | Some _ \<Rightarrow>
          (let ports = map to_number (split_on CHR '','' (the v)) in
           if list_ex (\<lambda>q. \<not> port_allowed q) ports then Inl ''ALLOWED_SSH_PORTS contains an invalid or prohibited port''
           else Inr (Some (set_of_list (map (\<lambda>q. \<lfloor>the q\<rfloor>) ports)))))"

definition getRuntimeConfig :: "(string \<Rightarrow> url_parts option) \<Rightarrow> worker_env \<Rightarrow> runtime_config throws" where
  "getRuntimeConfig url env =
     (let sshTransport = default_to ''direct'' (trimmed (we_sshTransport env)) in
      if sshTransport \<noteq> ''direct'' \<and> sshTransport \<noteq> ''tailnet_connector''
      then Inl ''SSH_TRANSPORT must be direct or tailnet_connector''
      else try_bind (parseOrigins url (we_allowedOrigins env)) (\<lambda>origins.
        try_bind (parsePorts (we_allowedSshPorts env)) (\<lambda>ports.
        try_bind (if sshTransport = ''tailnet_connector'' then map_sum (\<lambda>m. m) Some (parseTailnetConnector url env) else Inr None) (\<lambda>connector.
          Inr \<lparr>rc_appEnv = (if we_appEnv env = Some ''production'' then Production
                 else if we_appEnv env = Some ''test'' then Test_Env else Development),
               rc_allowedOrigins = origins,
               rc_connectTimeoutMs = boundedInteger (we_connectTimeoutMs env) 10000 1000 60000,
               rc_maxSessionsPerUser = boundedInteger (we_maxSessionsPerUser env) 5 1 20,
               rc_allowedSshPorts = ports, rc_connector = connector\<rparr>))))"

end
