(* ===== verification/Request_Checks.thy ===== *)
theory Request_Checks
  imports Worker_Config Auth_Flow
begin

text \<open>
  What a request must pass before a route sees it: \<open>apps/worker/src/security/http.ts\<close> and
  \<open>apps/worker/src/http/request.ts\<close>. Errors that the router turns into an answer are the values of \<open>thrown\<close>.
\<close>

datatype thrown = T_Http http_error | T_Origin | T_Target string | T_Other

text \<open>The request: its method, the parts of its parsed address, and its headers under lower-case names.\<close>

record web_request =
  wr_method :: string
  wr_url :: url_parts
  wr_headers :: "(string \<times> string) list"

definition wr_header :: "web_request \<Rightarrow> string \<Rightarrow> string option" where
  "wr_header q name = map_of (wr_headers q) name"

definition upper :: "string \<Rightarrow> string" where
  "upper s = concat (map upper_chars s)"

section \<open>Transport security\<close>

definition isTlsRequiredRedirect :: "worker_env \<Rightarrow> web_request \<Rightarrow> bool" where
  "isTlsRequiredRedirect env q \<longleftrightarrow>
     we_appEnv env = Some ''production'' \<and> ur_protocol (wr_url q) = ''http:'' \<and> wr_header q ''cf-connecting-ip'' \<noteq> None"

section \<open>Origins\<close>

definition UNSAFE_METHODS :: "string list" where "UNSAFE_METHODS = [''POST'', ''PUT'', ''PATCH'', ''DELETE'']"

definition allowedRequestOrigins :: "(string \<Rightarrow> url_parts option) \<Rightarrow> worker_env \<Rightarrow> web_request \<Rightarrow> thrown + string list" where
  "allowedRequestOrigins url env q =
     (case getRuntimeConfig url env of
        Inl _ \<Rightarrow> Inl T_Other
      | Inr config \<Rightarrow> Inr (set_of_list (ur_origin (wr_url q) # rc_allowedOrigins config)))"

definition assertRequestOrigin :: "(string \<Rightarrow> url_parts option) \<Rightarrow> worker_env \<Rightarrow> bool \<Rightarrow> web_request \<Rightarrow> thrown + unit" where
  "assertRequestOrigin url env websocket q =
     (if \<not> websocket \<and> upper (wr_method q) \<notin> set UNSAFE_METHODS then Inr ()
      else if map_option lower (wr_header q ''sec-fetch-site'') = Some ''cross-site'' then Inl T_Origin
      else case wr_header q ''origin'' of
          None \<Rightarrow> Inl T_Origin
        | Some originValue \<Rightarrow>
            if originValue = [] \<or> originValue = ''null'' then Inl T_Origin
            else (case url originValue of
                None \<Rightarrow> Inl T_Origin
              | Some u \<Rightarrow>
                  if ur_origin u \<noteq> originValue then Inl T_Origin
                  else try_bind (allowedRequestOrigins url env q) (\<lambda>origins.
                    if ur_origin u \<in> set origins then Inr () else Inl T_Origin)))"

definition preflight :: "(string \<Rightarrow> url_parts option) \<Rightarrow> worker_env \<Rightarrow> web_request \<Rightarrow> thrown + string" where
  "preflight url env q =
     (case wr_header q ''origin'' of
        None \<Rightarrow> Inl T_Origin
      | Some origin \<Rightarrow>
          if origin = [] then Inl T_Origin
          else try_bind (allowedRequestOrigins url env q) (\<lambda>origins.
            if origin \<notin> set origins then Inl T_Origin
            else (case map_option upper (wr_header q ''access-control-request-method'') of
                None \<Rightarrow> Inl T_Origin
              | Some m \<Rightarrow> if m \<in> set UNSAFE_METHODS then Inr origin else Inl T_Origin)))"

text \<open>\<open>withCorsForAllowedOrigin\<close>: the origin the answer may be read from, if any is named.\<close>

definition corsOrigin :: "(string \<Rightarrow> url_parts option) \<Rightarrow> worker_env \<Rightarrow> web_request \<Rightarrow> thrown + string option" where
  "corsOrigin url env q =
     (case wr_header q ''origin'' of
        None \<Rightarrow> Inr None
      | Some origin \<Rightarrow>
          if origin = [] \<or> origin = ur_origin (wr_url q) then Inr None
          else try_bind (allowedRequestOrigins url env q) (\<lambda>origins.
            Inr (if origin \<in> set origins then Some origin else None)))"

section \<open>Bodies and queries\<close>

text \<open>
  A body and its declared length; the schema is a function from the parsed value, \<open>None\<close> where it refuses it.
\<close>

definition parseJson :: "web_request \<Rightarrow> string \<Rightarrow> (json \<Rightarrow> 'a option) \<Rightarrow> nat \<Rightarrow> thrown + 'a" where
  "parseJson q text schema maxBytes =
     (if \<not> starts_with ''application/json'' (lower (default_to [] (wr_header q ''content-type'')))
      then Inl (T_Http (Http_Error 415 ''BAD_REQUEST'' ''Expected an application/json request body''))
      else try_bind
        (case wr_header q ''content-length'' of
           None \<Rightarrow> Inr ()
         | Some declared \<Rightarrow>
             (case to_number declared of
                Some n \<Rightarrow>
                  if \<not> is_safe_integer n \<or> n < 0 then Inl (T_Http (Http_Error 400 ''BAD_REQUEST'' ''Invalid Content-Length header''))
                  else if n > of_nat maxBytes then Inl (T_Http (Http_Error 413 ''BAD_REQUEST'' ''Request body is too large''))
                  else Inr ()
              | None \<Rightarrow> Inl (T_Http (Http_Error 400 ''BAD_REQUEST'' ''Invalid Content-Length header''))))
        (\<lambda>_.
          if length (utf8 text) > maxBytes then Inl (T_Http (Http_Error 413 ''BAD_REQUEST'' ''Request body is too large''))
          else case json_parse text of
              None \<Rightarrow> Inl (T_Http (Http_Error 400 ''BAD_REQUEST'' ''Request body is not valid JSON''))
            | Some decoded \<Rightarrow>
                (case schema decoded of
                   Some data \<Rightarrow> Inr data
                 | None \<Rightarrow> Inl (T_Http (Http_Error 400 ''VALIDATION_FAILED'' ''Request validation failed'')))))"

text \<open>The parameters of the query, each at most once; a limit of digits becomes a number.\<close>

definition query_value :: "string \<times> string \<Rightarrow> string \<times> json" where
  "query_value = (\<lambda>(k, v). (k, if k = ''limit'' \<and> v \<noteq> [] \<and> list_all is_digit v then JNum (of_nat (dec_val v)) else JStr v))"

definition parseQuery :: "(string \<times> string) list \<Rightarrow> (json \<Rightarrow> 'a option) \<Rightarrow> thrown + 'a" where
  "parseQuery params schema =
     (if \<not> distinct (map prod.fst params)
      then Inl (T_Http (Http_Error 400 ''VALIDATION_FAILED'' ''Query parameter may only appear once''))
      else case schema (JObj (map query_value params)) of
          Some data \<Rightarrow> Inr data
        | None \<Rightarrow> Inl (T_Http (Http_Error 400 ''VALIDATION_FAILED'' ''Query validation failed'')))"

section \<open>What an allowed origin is\<close>

lemma parse_origin_is_origin: "parse_origin url item = Inr s \<Longrightarrow> s = item \<and> (\<exists>u. url item = Some u \<and> ur_origin u = item)"
  by (auto simp: parse_origin_def split: option.splits if_splits)

lemma list_all2_right: "list_all2 P xs ys \<Longrightarrow> y \<in> set ys \<Longrightarrow> \<exists>x \<in> set xs. P x y"
  by (induction rule: list_all2_induct) auto

lemma map_try_Inr: "map_try f xs = Inr ys \<longleftrightarrow> list_all2 (\<lambda>x y. f x = Inr y) xs ys"
  by (induction xs arbitrary: ys) (auto simp: try_bind_eq_Inr map_sum_Inr list_all2_Cons1)

text \<open>
  C6: A request whose method changes state, or that opens a terminal socket, passes the check only if its origin is
  given and is exactly the application's own or one of the listed origins, and no browser marks it as cross-site.
\<close>

theorem origin_check_sound:
  assumes "assertRequestOrigin url env websocket q = Inr ()" "websocket \<or> upper (wr_method q) \<in> set UNSAFE_METHODS"
  shows "\<exists>origin config. wr_header q ''origin'' = Some origin \<and> getRuntimeConfig url env = Inr config \<and>
    (origin = ur_origin (wr_url q) \<or>
      origin \<in> set (map trim (split_on CHR '','' (the (we_allowedOrigins env))))) \<and>
    origin \<noteq> ''null'' \<and> map_option lower (wr_header q ''sec-fetch-site'') \<noteq> Some ''cross-site''"
proof -
  obtain origin u config where o: "wr_header q ''origin'' = Some origin" "origin \<noteq> ''null''" "getRuntimeConfig url env = Inr config"
    "origin = ur_origin (wr_url q) \<or> origin \<in> set (rc_allowedOrigins config)"
    "map_option lower (wr_header q ''sec-fetch-site'') \<noteq> Some ''cross-site''"
    using assms by (auto simp: assertRequestOrigin_def allowedRequestOrigins_def try_bind_eq_Inr split: if_splits option.splits sum.splits)
  have "origin \<in> set (map trim (split_on CHR '','' (the (we_allowedOrigins env))))" if listed: "origin \<in> set (rc_allowedOrigins config)"
  proof -
    have "parseOrigins url (we_allowedOrigins env) = Inr (rc_allowedOrigins config)"
      using o(3) by (auto simp: getRuntimeConfig_def try_bind_eq_Inr Let_def split: if_splits)
    then obtain os where os: "map_try (parse_origin url) (filter (\<lambda>s. s \<noteq> []) (map trim (split_on CHR '','' (the (we_allowedOrigins env))))) = Inr os"
        "origin \<in> set os"
      using listed by (auto simp: parseOrigins_def map_sum_Inr split: option.splits)
    then have "list_all2 (\<lambda>x y. parse_origin url x = Inr y) (filter (\<lambda>s. s \<noteq> []) (map trim (split_on CHR '','' (the (we_allowedOrigins env))))) os"
      by (simp add: map_try_Inr)
    then obtain item where "item \<in> set (filter (\<lambda>s. s \<noteq> []) (map trim (split_on CHR '','' (the (we_allowedOrigins env)))))"
        "parse_origin url item = Inr origin"
      using list_all2_right [OF _ os(2)] by blast
    then have "item \<in> set (map trim (split_on CHR '','' (the (we_allowedOrigins env))))" "parse_origin url item = Inr origin" by auto
    then show ?thesis using parse_origin_is_origin by metis
  qed
  then show ?thesis using o by blast
qed

section \<open>A concrete request\<close>

definition demo_url :: "string \<Rightarrow> url_parts option" where
  "demo_url s = Some \<lparr>ur_protocol = ''https:'', ur_origin = s, ur_username = [], ur_password = [], ur_pathname = ''/'', ur_search = [],
     ur_hash = [], ur_href = s @ ''/''\<rparr>"

definition demo_worker_env :: worker_env where
  "demo_worker_env = \<lparr>we_appEnv = Some ''production'', we_allowedOrigins = Some ''https://a.example, https://b.example'',
     we_connectTimeoutMs = None, we_maxSessionsPerUser = None, we_allowedSshPorts = None, we_sshTransport = None,
     we_connectorUrl = None, we_connectorHmacKey = None, we_accessClientId = None, we_accessClientSecret = None\<rparr>"

definition demo_web_request :: "string \<Rightarrow> web_request" where
  "demo_web_request origin = \<lparr>wr_method = ''post'', wr_url = the (demo_url ''https://w.example''), wr_headers = [(''origin'', origin)]\<rparr>"

lemma origin_check_sound_witness:
  "assertRequestOrigin demo_url demo_worker_env False (demo_web_request ''https://b.example'') = Inr () \<and>
    assertRequestOrigin demo_url demo_worker_env False (demo_web_request ''https://evil.example'') = Inl T_Origin \<and>
    map_option lower (wr_header (demo_web_request ''https://b.example'') ''sec-fetch-site'') \<noteq> Some ''cross-site''"
proof -
  have "assertRequestOrigin demo_url demo_worker_env False (demo_web_request ''https://b.example'') = Inr ()"
    "assertRequestOrigin demo_url demo_worker_env False (demo_web_request ''https://evil.example'') = Inl T_Origin"
    "upper (wr_method (demo_web_request ''https://b.example'')) \<in> set UNSAFE_METHODS"
    by code_simp+
  then show ?thesis
    using origin_check_sound [of demo_url demo_worker_env False "demo_web_request ''https://b.example''"] by blast
qed

end
