(* ===== verification/Transfer_Gate.thy ===== *)
theory Transfer_Gate
  imports Wb_Prelude
begin

text \<open>
  The gate of the browser's file transfers: the class \<open>TransferGate\<close> of \<open>apps/web/src/lib/transfer-gate.ts\<close>, which lets one
  transfer run at a time. Promises and abort signals are what happened to a request so far: granted, refused, aborted or
  released. A request is named by its fresh identifier.
\<close>

record pending_transfer =
  pt_id :: string
  pt_session :: string

record transfer_gate =
  tg_active :: "pending_transfer option"
  tg_queue :: "pending_transfer list"

text \<open>
  The history of the gate: what was called (a request for a transfer, its release, the closing of a session or of all), each
  followed by what the callers were told.
\<close>

datatype gate_event =
    Asked string string
  | Let_Go string
  | Session_Closed string
  | All_Closed
  | Granted string string
  | Refused string
  | Aborted string

definition gate_empty :: transfer_gate where "gate_empty = \<lparr>tg_active = None, tg_queue = []\<rparr>"

definition drain :: "transfer_gate \<Rightarrow> transfer_gate \<times> gate_event list" where
  "drain g =
     (case (tg_active g, tg_queue g) of
        (None, p # queue) \<Rightarrow> (\<lparr>tg_active = Some p, tg_queue = queue\<rparr>, [Granted (pt_id p) (pt_session p)])
      | _ \<Rightarrow> (g, []))"

definition acquire :: "string \<Rightarrow> string \<Rightarrow> transfer_gate \<Rightarrow> transfer_gate \<times> gate_event list" where
  "acquire newId clientSessionId g = drain (g\<lparr>tg_queue := tg_queue g @ [\<lparr>pt_id = newId, pt_session = clientSessionId\<rparr>]\<rparr>)"

text \<open>The release function of a lease, called for the first time; later calls do nothing.\<close>

definition release :: "string \<Rightarrow> transfer_gate \<Rightarrow> transfer_gate \<times> gate_event list" where
  "release i g = drain (if map_option pt_id (tg_active g) = Some i then g\<lparr>tg_active := None\<rparr> else g)"

text \<open>The queue is searched from its end.\<close>

definition cancelSession :: "string \<Rightarrow> transfer_gate \<Rightarrow> transfer_gate \<times> gate_event list" where
  "cancelSession clientSessionId g =
     (let (active, es) = (case tg_active g of
            Some a \<Rightarrow> if pt_session a = clientSessionId then (None, [Aborted (pt_id a)]) else (Some a, [])
          | None \<Rightarrow> (None, []));
          over = rev (filter (\<lambda>p. pt_session p = clientSessionId) (tg_queue g));
          (g', grants) = drain \<lparr>tg_active = active, tg_queue = filter (\<lambda>p. pt_session p \<noteq> clientSessionId) (tg_queue g)\<rparr>
      in (g', es @ concat (map (\<lambda>p. [Aborted (pt_id p), Refused (pt_id p)]) over) @ grants))"

definition cancelAll :: "transfer_gate \<Rightarrow> transfer_gate \<times> gate_event list" where
  "cancelAll g =
     (gate_empty, (case tg_active g of Some a \<Rightarrow> [Aborted (pt_id a)] | None \<Rightarrow> []) @
        concat (map (\<lambda>p. [Aborted (pt_id p), Refused (pt_id p)]) (tg_queue g)))"

section \<open>The gate as a system\<close>

text \<open>Leases are released once; identifiers are fresh; the state keeps the history.\<close>

record gate_world =
  gw_gate :: transfer_gate
  gw_events :: "gate_event list"

definition gate_start :: gate_world where
  "gate_start = \<lparr>gw_gate = gate_empty, gw_events = []\<rparr>"

definition asked_ids :: "gate_event list \<Rightarrow> string list" where
  "asked_ids es = concat (map (\<lambda>e. case e of Asked i s \<Rightarrow> [i] | _ \<Rightarrow> []) es)"

definition asked :: "gate_world \<Rightarrow> string list" where "asked w = asked_ids (gw_events w)"

definition let_gone :: "gate_world \<Rightarrow> string set" where "let_gone w = {i. Let_Go i \<in> set (gw_events w)}"

definition granted :: "gate_world \<Rightarrow> string list" where
  "granted w = concat (map (\<lambda>e. case e of Granted i s \<Rightarrow> [i] | _ \<Rightarrow> []) (gw_events w))"

definition refused :: "gate_world \<Rightarrow> string set" where "refused w = {i. Refused i \<in> set (gw_events w)}"

definition aborted :: "gate_world \<Rightarrow> string set" where "aborted w = {i. Aborted i \<in> set (gw_events w)}"

text \<open>The transfers that may be moving data: their lease was granted, they have not let it go, their signal is not aborted.\<close>

definition running :: "gate_world \<Rightarrow> string set" where
  "running w = set (granted w) - let_gone w - aborted w"

inductive gate_step :: "gate_world \<Rightarrow> gate_world \<Rightarrow> bool" where
  ask: "i \<notin> set (asked w) \<Longrightarrow> acquire i s (gw_gate w) = (g, es) \<Longrightarrow>
    gate_step w (w\<lparr>gw_gate := g, gw_events := gw_events w @ Asked i s # es\<rparr>)"
| let_go: "i \<in> set (granted w) \<Longrightarrow> i \<notin> let_gone w \<Longrightarrow> release i (gw_gate w) = (g, es) \<Longrightarrow>
    gate_step w (w\<lparr>gw_gate := g, gw_events := gw_events w @ Let_Go i # es\<rparr>)"
| close_session: "cancelSession s (gw_gate w) = (g, es) \<Longrightarrow> gate_step w (w\<lparr>gw_gate := g, gw_events := gw_events w @ Session_Closed s # es\<rparr>)"
| close_all: "cancelAll (gw_gate w) = (g, es) \<Longrightarrow> gate_step w (w\<lparr>gw_gate := g, gw_events := gw_events w @ All_Closed # es\<rparr>)"

inductive gate_reach :: "gate_world \<Rightarrow> bool" where
  start: "gate_reach gate_start"
| step: "gate_reach w \<Longrightarrow> gate_step w w' \<Longrightarrow> gate_reach w'"

definition waiting :: "gate_world \<Rightarrow> string list" where "waiting w = map pt_id (tg_queue (gw_gate w))"

text \<open>
  The requests that were not refused are the granted ones followed by the waiting ones, in the order they were made; the
  active transfer is the one that is running.
\<close>

definition gate_settled :: "gate_world \<Rightarrow> bool" where
  "gate_settled w \<longleftrightarrow> distinct (asked w) \<and> filter (\<lambda>i. i \<notin> refused w) (asked w) = granted w @ waiting w \<and>
     refused w \<subseteq> set (asked w) \<and> aborted w \<subseteq> set (granted w) \<union> refused w \<and> let_gone w \<subseteq> set (granted w) \<and>
     running w = set_option (map_option pt_id (tg_active (gw_gate w)))"

definition gate_inv :: "gate_world \<Rightarrow> bool" where
  "gate_inv w \<longleftrightarrow> gate_settled w \<and> (tg_active (gw_gate w) = None \<longrightarrow> tg_queue (gw_gate w) = [])"

abbreviation after :: "gate_world \<Rightarrow> transfer_gate \<Rightarrow> gate_event list \<Rightarrow> gate_world" where
  "after w g es \<equiv> w\<lparr>gw_gate := g, gw_events := gw_events w @ es\<rparr>"

lemma asked_ids_append [simp]: "asked_ids [] = []" "asked_ids (xs @ ys) = asked_ids xs @ asked_ids ys"
    "asked_ids (e # es) = (case e of Asked i s \<Rightarrow> [i] | _ \<Rightarrow> []) @ asked_ids es"
  by (simp_all add: asked_ids_def)

lemma asked_ids_mem: "i \<in> set (asked_ids es) \<longleftrightarrow> (\<exists>s. Asked i s \<in> set es)"
  by (induction es) (auto split: gate_event.splits)

lemma asked_after [simp]: "asked (after w g es) = asked w @ asked_ids es"
  by (simp add: asked_def)

lemma let_gone_after [simp]: "let_gone (after w g es) = let_gone w \<union> {i. Let_Go i \<in> set es}"
  by (auto simp: let_gone_def)

lemma granted_after [simp]: "granted (after w g es) = granted w @ concat (map (\<lambda>e. case e of Granted i s \<Rightarrow> [i] | _ \<Rightarrow> []) es)"
  by (simp add: granted_def)

lemma refused_after [simp]: "refused (after w g es) = refused w \<union> {i. Refused i \<in> set es}"
  by (auto simp: refused_def)

lemma aborted_after [simp]: "aborted (after w g es) = aborted w \<union> {i. Aborted i \<in> set es}"
  by (auto simp: aborted_def)

lemma settled_parts:
  assumes "gate_settled w"
  shows "distinct (granted w)" "distinct (waiting w)" "set (granted w) \<inter> set (waiting w) = {}"
    "(set (granted w) \<union> set (waiting w)) \<inter> refused w = {}" "set (asked w) = set (granted w) \<union> set (waiting w) \<union> refused w"
proof -
  have eq: "filter (\<lambda>i. i \<notin> refused w) (asked w) = granted w @ waiting w" "distinct (asked w)" "refused w \<subseteq> set (asked w)"
    using assms by (simp_all add: gate_settled_def)
  have "distinct (granted w @ waiting w)" unfolding eq(1) [symmetric] using eq(2) by (rule distinct_filter)
  then show "distinct (granted w)" "distinct (waiting w)" "set (granted w) \<inter> set (waiting w) = {}" by auto
  have "set (granted w) \<union> set (waiting w) = set (asked w) - refused w"
    using arg_cong [OF eq(1), of set] by auto
  then show "(set (granted w) \<union> set (waiting w)) \<inter> refused w = {}" "set (asked w) = set (granted w) \<union> set (waiting w) \<union> refused w"
    using eq(3) by auto
qed

lemma drain_inv:
  assumes "gate_settled w" "drain (gw_gate w) = (g, es)"
  shows "gate_inv (after w g es)"
proof (cases "tg_active (gw_gate w)")
  case (Some a)
  then have "g = gw_gate w" "es = []" using assms(2) by (simp_all add: drain_def)
  then show ?thesis using assms(1) Some by (simp add: gate_inv_def)
next
  case None
  show ?thesis
  proof (cases "tg_queue (gw_gate w)")
    case Nil
    then have "g = gw_gate w" "es = []" using assms(2) None by (simp_all add: drain_def)
    then show ?thesis using assms(1) Nil by (simp add: gate_inv_def)
  next
    case (Cons p queue)
    then have g: "g = \<lparr>tg_active = Some p, tg_queue = queue\<rparr>" "es = [Granted (pt_id p) (pt_session p)]"
      using assms(2) None by (simp_all add: drain_def)
    have w: "waiting w = pt_id p # map pt_id queue" by (simp add: waiting_def Cons)
    note parts = settled_parts [OF assms(1)]
    have "pt_id p \<notin> aborted w" "pt_id p \<notin> let_gone w" "running w = {}"
      using assms(1) parts(3,4) None unfolding gate_settled_def w by auto
    then have "running (after w g es) = {pt_id p}" by (auto simp: running_def g(2))
    moreover have "waiting (after w g es) = map pt_id queue" by (simp add: waiting_def g(1))
    ultimately show ?thesis
      using assms(1) unfolding gate_inv_def gate_settled_def w by (auto simp: g)
  qed
qed

lemma settled_gate: "gate_inv w \<Longrightarrow> gate_settled w"
  by (simp add: gate_inv_def)

lemma world_eta: "after w (gw_gate w) [] = w"
  by simp

section \<open>Each step\<close>

lemma ask_inv:
  assumes "gate_inv w" "i \<notin> set (asked w)" "acquire i s (gw_gate w) = (g, es)"
  shows "gate_inv (w\<lparr>gw_gate := g, gw_events := gw_events w @ Asked i s # es\<rparr>)"
proof -
  let ?g = "(gw_gate w)\<lparr>tg_queue := tg_queue (gw_gate w) @ [\<lparr>pt_id = i, pt_session = s\<rparr>]\<rparr>"
  let ?w = "after w ?g [Asked i s]"
  have w: "waiting ?w = waiting w @ [i]" "granted ?w = granted w" "refused ?w = refused w" "aborted ?w = aborted w" "running ?w = running w"
    "asked ?w = asked w @ [i]" "let_gone ?w = let_gone w"
    by (simp_all add: waiting_def running_def)
  have "i \<notin> refused w" using assms(1,2) by (auto simp: gate_inv_def gate_settled_def)
  then have "gate_settled ?w"
    using assms(1,2) unfolding gate_inv_def gate_settled_def w by auto
  then show ?thesis using drain_inv [of ?w g es] assms(3) by (simp add: acquire_def)
qed

lemma let_go_inv:
  assumes "gate_inv w" "i \<in> set (granted w)" "i \<notin> let_gone w" "release i (gw_gate w) = (g, es)"
  shows "gate_inv (w\<lparr>gw_gate := g, gw_events := gw_events w @ Let_Go i # es\<rparr>)"
proof -
  let ?g = "if map_option pt_id (tg_active (gw_gate w)) = Some i then (gw_gate w)\<lparr>tg_active := None\<rparr> else gw_gate w"
  let ?w = "after w ?g [Let_Go i]"
  have w: "waiting ?w = waiting w" "granted ?w = granted w" "refused ?w = refused w" "aborted ?w = aborted w" "running ?w = running w - {i}"
    "asked ?w = asked w" "let_gone ?w = let_gone w \<union> {i}"
    by (auto simp: waiting_def running_def)
  have "gate_settled ?w"
    using assms(1,2) unfolding gate_inv_def gate_settled_def w by (cases "tg_active (gw_gate w)") auto
  then show ?thesis using drain_inv [of ?w g es] assms(4) by (simp add: release_def)
qed

text \<open>The mark of a closing changes nothing yet.\<close>

lemma closing_mark_inv:
  assumes "gate_inv w" "c = Session_Closed s \<or> c = All_Closed"
  shows "gate_inv (after w (gw_gate w) [c])"
proof -
  let ?w = "after w (gw_gate w) [c]"
  have w: "granted ?w = granted w" "refused ?w = refused w" "aborted ?w = aborted w" "asked ?w = asked w" "let_gone ?w = let_gone w"
    "waiting ?w = waiting w" "gw_gate ?w = gw_gate w"
    using assms(2) by (auto simp: waiting_def granted_def refused_def aborted_def asked_def let_gone_def)
  then have "running ?w = running w" by (simp add: running_def)
  then show ?thesis using assms(1) unfolding gate_inv_def gate_settled_def w by blast
qed

lemma refusals: "{i. Refused i \<in> set (concat (map (\<lambda>p. [Aborted (pt_id p), Refused (pt_id p)]) ps))} = pt_id ` set ps"
  "{i. Aborted i \<in> set (concat (map (\<lambda>p. [Aborted (pt_id p), Refused (pt_id p)]) ps))} = pt_id ` set ps"
  "concat (map (\<lambda>e. case e of Granted i s \<Rightarrow> [i] | _ \<Rightarrow> []) (concat (map (\<lambda>p. [Aborted (pt_id p), Refused (pt_id p)]) ps))) = []"
  "asked_ids (concat (map (\<lambda>p. [Aborted (pt_id p), Refused (pt_id p)]) ps)) = []"
  "Let_Go i \<notin> set (concat (map (\<lambda>p. [Aborted (pt_id p), Refused (pt_id p)]) ps))"
  subgoal by auto
  subgoal by auto
  subgoal by (induction ps) auto
  subgoal by (induction ps) auto
  subgoal by auto
  done

text \<open>A part of the waiting transfers is refused, and the active one may be aborted.\<close>

lemma cancel_settled:
  assumes "gate_inv w" "a = tg_active (gw_gate w) \<and> es = [] \<or> a = None \<and> es = map (\<lambda>p. Aborted (pt_id p)) (case tg_active (gw_gate w) of None \<Rightarrow> [] | Some p \<Rightarrow> [p])"
    "over = filter P (tg_queue (gw_gate w)) \<or> over = rev (filter P (tg_queue (gw_gate w)))"
  shows "gate_settled (after w \<lparr>tg_active = a, tg_queue = filter (\<lambda>p. \<not> P p) (tg_queue (gw_gate w))\<rparr>
    (es @ concat (map (\<lambda>p. [Aborted (pt_id p), Refused (pt_id p)]) over)))" (is "gate_settled ?w")
proof -
  note parts = settled_parts [OF settled_gate [OF assms(1)]]
  let ?R = "pt_id ` set over"
  have R: "?R = pt_id ` set (filter P (tg_queue (gw_gate w)))" using assms(3) by auto
  have es: "{i. Refused i \<in> set es} = {}" "concat (map (\<lambda>e. case e of Granted i s \<Rightarrow> [i] | _ \<Rightarrow> []) es) = []"
    "asked_ids es = []" "Let_Go i \<notin> set es" for i
    using assms(2) by (auto split: option.splits)
  have w: "granted ?w = granted w" "refused ?w = refused w \<union> ?R" "aborted ?w = aborted w \<union> {i. Aborted i \<in> set es} \<union> ?R"
    "asked ?w = asked w" "let_gone ?w = let_gone w"
    using refusals [where ps = over] es by (auto simp: Collect_disj_eq)
  have distinct: "distinct (map pt_id (tg_queue (gw_gate w)))" using parts(2) by (simp add: waiting_def)
  then have "pt_id p \<in> ?R \<longleftrightarrow> P p" if "p \<in> set (tg_queue (gw_gate w))" for p
    using that unfolding R by (auto simp: distinct_map inj_on_def)
  then have left: "filter (\<lambda>i. i \<notin> ?R) (waiting w) = map pt_id (filter (\<lambda>p. \<not> P p) (tg_queue (gw_gate w)))"
    by (simp add: waiting_def filter_map comp_def cong: filter_cong)
  have "?R \<subseteq> set (waiting w)" unfolding R waiting_def by auto
  then have kept: "filter (\<lambda>i. i \<notin> ?R) (granted w) = granted w" using parts(3) by (auto simp: filter_id_conv)
  have "filter (\<lambda>i. i \<notin> refused ?w) (asked ?w) = filter (\<lambda>i. i \<notin> ?R) (filter (\<lambda>i. i \<notin> refused w) (asked w))"
    unfolding w by (simp add: conj_commute)
  also have "\<dots> = filter (\<lambda>i. i \<notin> ?R) (granted w @ waiting w)"
    using assms(1) by (simp only: gate_inv_def gate_settled_def)
  also have "\<dots> = granted ?w @ waiting ?w"
    unfolding filter_append left kept w by (simp add: waiting_def)
  finally have order: "filter (\<lambda>i. i \<notin> refused ?w) (asked ?w) = granted ?w @ waiting ?w" .
  have abort: "{i. Aborted i \<in> set es} \<subseteq> set (granted w)"
    using assms(1,2) by (auto simp: gate_inv_def gate_settled_def running_def split: option.splits)
  have run: "running ?w = set_option (map_option pt_id (tg_active (gw_gate ?w)))"
  proof -
    have "running ?w = running w - {i. Aborted i \<in> set es}"
      using parts(3) \<open>?R \<subseteq> set (waiting w)\<close> unfolding running_def w by auto
    then show ?thesis
      using assms(1,2) by (cases "tg_active (gw_gate w)") (auto simp: gate_inv_def gate_settled_def)
  qed
  show ?thesis
    unfolding gate_settled_def order run unfolding w
    using assms(1) abort \<open>?R \<subseteq> set (waiting w)\<close> parts(5) by (auto simp: gate_inv_def gate_settled_def)
qed

lemma close_session_inv:
  assumes "gate_inv w" "cancelSession s (gw_gate w) = (g, es)"
  shows "gate_inv (after w g es)"
proof -
  let ?P = "\<lambda>p. pt_session p = s"
  define a where "a = (case tg_active (gw_gate w) of Some a \<Rightarrow> if ?P a then None else Some a | None \<Rightarrow> None)"
  define e0 where "e0 = (case tg_active (gw_gate w) of Some a \<Rightarrow> if ?P a then [Aborted (pt_id a)] else [] | None \<Rightarrow> [])"
  let ?over = "rev (filter ?P (tg_queue (gw_gate w)))"
  let ?g = "\<lparr>tg_active = a, tg_queue = filter (\<lambda>p. \<not> ?P p) (tg_queue (gw_gate w))\<rparr>"
  let ?e = "e0 @ concat (map (\<lambda>p. [Aborted (pt_id p), Refused (pt_id p)]) ?over)"
  obtain es' where d: "drain ?g = (g, es')" "es = ?e @ es'"
    using assms(2) by (auto simp: cancelSession_def Let_def a_def e0_def split: option.splits prod.splits if_splits)
  have "gate_settled (after w ?g ?e)"
    by (rule cancel_settled [OF assms(1)]) (auto simp: a_def e0_def split: option.splits)
  then have "gate_inv (after (after w ?g ?e) g es')" using d(1) by (intro drain_inv) simp_all
  then show ?thesis by (simp add: d(2))
qed

lemma close_all_inv:
  assumes "gate_inv w" "cancelAll (gw_gate w) = (g, es)"
  shows "gate_inv (after w g es)"
proof -
  have "gate_settled (after w \<lparr>tg_active = None, tg_queue = filter (\<lambda>p. \<not> True) (tg_queue (gw_gate w))\<rparr>
      (map (\<lambda>p. Aborted (pt_id p)) (case tg_active (gw_gate w) of None \<Rightarrow> [] | Some p \<Rightarrow> [p]) @
        concat (map (\<lambda>p. [Aborted (pt_id p), Refused (pt_id p)]) (tg_queue (gw_gate w)))))"
    by (rule cancel_settled [OF assms(1)]) auto
  then show ?thesis using assms(2) by (auto simp: cancelAll_def gate_empty_def gate_inv_def split: option.splits)
qed

lemma gate_step_inv:
  assumes "gate_step w w'" "gate_inv w"
  shows "gate_inv w'"
  using assms
proof (cases rule: gate_step.cases)
  case (close_session s g es)
  then show ?thesis using close_session_inv [OF closing_mark_inv [OF assms(2), of "Session_Closed s"]] by simp
next
  case (close_all g es)
  then show ?thesis using close_all_inv [OF closing_mark_inv [OF assms(2), of All_Closed]] by simp
qed (simp_all add: ask_inv let_go_inv)

lemma gate_reach_inv: "gate_reach w \<Longrightarrow> gate_inv w"
proof (induction rule: gate_reach.induct)
  case start
  then show ?case
    by (simp add: gate_inv_def gate_settled_def gate_start_def gate_empty_def granted_def waiting_def refused_def aborted_def running_def
        asked_def let_gone_def)
next
  case (step w w')
  then show ?case using gate_step_inv by blast
qed

section \<open>Who is refused\<close>

text \<open>The closings that concern a session, and what a caller whose transfer is over is told.\<close>

fun covers :: "gate_event \<Rightarrow> string \<Rightarrow> bool" where
  "covers (Session_Closed s) t \<longleftrightarrow> s = t"
| "covers All_Closed t \<longleftrightarrow> True"
| "covers _ t \<longleftrightarrow> False"

fun told_over :: "string \<Rightarrow> gate_event \<Rightarrow> bool" where
  "told_over i (Refused j) \<longleftrightarrow> i = j"
| "told_over i (Aborted j) \<longleftrightarrow> i = j"
| "told_over i _ \<longleftrightarrow> False"

text \<open>After \<open>xs\<close>, the call that closes the session of the request \<open>i\<close>, which was made before, is being answered.\<close>

definition being_closed :: "gate_event list \<Rightarrow> string \<Rightarrow> bool" where
  "being_closed xs i \<longleftrightarrow> (\<exists>s x1 c x2. xs = x1 @ c # x2 \<and> Asked i s \<in> set x1 \<and> covers c s \<and> list_all (\<lambda>e. \<exists>j. told_over j e) x2)"

definition closings_justified :: "gate_event list \<Rightarrow> bool" where
  "closings_justified es \<longleftrightarrow> (\<forall>xs e ys i. es = xs @ e # ys \<and> told_over i e \<longrightarrow> being_closed xs i)"

text \<open>What waits or runs was asked for, and its session was not closed since.\<close>

definition alive :: "gate_event list \<Rightarrow> pending_transfer \<Rightarrow> bool" where
  "alive es p \<longleftrightarrow> (\<exists>xs ys. es = xs @ Asked (pt_id p) (pt_session p) # ys \<and> \<not> list_ex (\<lambda>e. covers e (pt_session p)) ys)"

definition held :: "transfer_gate \<Rightarrow> pending_transfer set" where
  "held g = set_option (tg_active g) \<union> set (tg_queue g)"

definition closed_inv :: "transfer_gate \<Rightarrow> gate_event list \<Rightarrow> bool" where
  "closed_inv g es \<longleftrightarrow> (\<forall>p \<in> held g. alive es p) \<and> closings_justified es"

lemma justified_snoc: "closings_justified (es @ [e]) \<longleftrightarrow> closings_justified es \<and> (\<forall>i. told_over i e \<longrightarrow> being_closed es i)"
proof -
  have "es @ [e] = xs @ f # ys \<longleftrightarrow> (ys = [] \<and> xs = es \<and> f = e) \<or> (\<exists>zs. ys = zs @ [e] \<and> es = xs @ f # zs)" for xs f ys
    by (cases ys rule: rev_cases) auto
  then show ?thesis unfolding closings_justified_def by (auto 4 4)
qed

lemma justified_quiet: "closings_justified es \<Longrightarrow> list_all (\<lambda>e. \<forall>i. \<not> told_over i e) qs \<Longrightarrow> closings_justified (es @ qs)"
  by (induction qs rule: rev_induct) (simp_all add: justified_snoc flip: append_assoc)

lemma justified_told:
  assumes "closings_justified es" "\<And>i s. \<not> told_over i c" "list_all (\<lambda>e. \<exists>i s. told_over i e \<and> Asked i s \<in> set es \<and> covers c s) ts"
  shows "closings_justified (es @ c # ts)"
  using assms(3)
proof (induction ts rule: rev_induct)
  case Nil
  show ?case using assms(1,2) by (simp add: justified_snoc)
next
  case (snoc t ts)
  then obtain i s where i: "told_over i t" "Asked i s \<in> set es" "covers c s" by auto
  have "list_all (\<lambda>e. \<exists>j. told_over j e) ts" using snoc.prems by (auto simp: list_all_iff)
  then have "being_closed (es @ c # ts) i" using i(2,3) unfolding being_closed_def by blast
  moreover have "j = i" if "told_over j t" for j using that i(1) by (cases t) auto
  ultimately have "\<forall>j. told_over j t \<longrightarrow> being_closed (es @ c # ts) j" by blast
  then show ?case using snoc justified_snoc [of "es @ c # ts" t] by simp
qed

lemma alive_more: "alive es p \<Longrightarrow> \<not> list_ex (\<lambda>e. covers e (pt_session p)) qs \<Longrightarrow> alive (es @ qs) p"
  unfolding alive_def by (metis (no_types, lifting) append.assoc append_Cons list_ex_append)

lemma alive_new: "alive (es @ [Asked (pt_id p) (pt_session p)]) p"
  unfolding alive_def by (intro exI [of _ es] exI [of _ "[]"]) simp

lemma drain_parts:
  assumes "drain g = (g', es)"
  shows "held g' = held g" "list_all (\<lambda>e. (\<forall>i. \<not> told_over i e) \<and> (\<forall>s. \<not> covers e s)) es"
  using assms by (auto simp: drain_def held_def split: option.splits list.splits)

lemma closed_drain:
  assumes "closed_inv g es" "drain g = (g', ds)"
  shows "closed_inv g' (es @ ds)"
  using assms(1) drain_parts [OF assms(2)]
  by (auto simp: closed_inv_def list_all_iff list_ex_iff intro!: alive_more justified_quiet)

lemma told_concat: "list_all P (concat (map (\<lambda>p. [Aborted (pt_id p), Refused (pt_id p)]) ps)) \<longleftrightarrow>
    list_all (\<lambda>p. P (Aborted (pt_id p)) \<and> P (Refused (pt_id p))) ps"
  by (induction ps) auto

lemma gate_step_closed:
  assumes "gate_step w w'" "closed_inv (gw_gate w) (gw_events w)"
  shows "closed_inv (gw_gate w') (gw_events w')"
  using assms(1)
proof (cases rule: gate_step.cases)
  case (ask i s g es)
  let ?g = "(gw_gate w)\<lparr>tg_queue := tg_queue (gw_gate w) @ [\<lparr>pt_id = i, pt_session = s\<rparr>]\<rparr>"
  have "alive (gw_events w @ [Asked i s]) p" if "p \<in> held ?g" for p
  proof (cases "p = \<lparr>pt_id = i, pt_session = s\<rparr>")
    case True
    then show ?thesis using alive_new [of "gw_events w" p] by simp
  next
    case False
    then have "p \<in> held (gw_gate w)" using that by (auto simp: held_def)
    then show ?thesis using assms(2) by (intro alive_more) (auto simp: closed_inv_def)
  qed
  moreover have "closings_justified (gw_events w @ [Asked i s])" using assms(2) by (simp add: closed_inv_def justified_snoc)
  ultimately have "closed_inv ?g (gw_events w @ [Asked i s])" by (simp add: closed_inv_def)
  then show ?thesis using closed_drain ask(1,3) by (fastforce simp: acquire_def)
next
  case (let_go i g es)
  let ?g = "if map_option pt_id (tg_active (gw_gate w)) = Some i then (gw_gate w)\<lparr>tg_active := None\<rparr> else gw_gate w"
  have "alive (gw_events w @ [Let_Go i]) p" if "p \<in> held ?g" for p
    using that assms(2) by (auto simp: held_def closed_inv_def intro!: alive_more split: if_splits)
  moreover have "closings_justified (gw_events w @ [Let_Go i])" using assms(2) by (simp add: closed_inv_def justified_snoc)
  ultimately have "closed_inv ?g (gw_events w @ [Let_Go i])" by (simp add: closed_inv_def)
  then show ?thesis using closed_drain let_go(1,4) by (fastforce simp: release_def)
next
  case (close_session s g es)
  let ?P = "\<lambda>p. pt_session p = s"
  define a where "a = (case tg_active (gw_gate w) of Some a \<Rightarrow> if ?P a then None else Some a | None \<Rightarrow> None)"
  define e0 where "e0 = (case tg_active (gw_gate w) of Some a \<Rightarrow> if ?P a then [Aborted (pt_id a)] else [] | None \<Rightarrow> [])"
  let ?g = "\<lparr>tg_active = a, tg_queue = filter (\<lambda>p. \<not> ?P p) (tg_queue (gw_gate w))\<rparr>"
  let ?e = "e0 @ concat (map (\<lambda>p. [Aborted (pt_id p), Refused (pt_id p)]) (rev (filter ?P (tg_queue (gw_gate w)))))"
  obtain es' where d: "drain ?g = (g, es')" "es = ?e @ es'"
    using close_session(2) by (auto simp: cancelSession_def Let_def a_def e0_def split: option.splits prod.splits if_splits)
  have was: "Asked (pt_id p) (pt_session p) \<in> set (gw_events w)" if "p \<in> held (gw_gate w)" for p
    using that assms(2) by (auto simp: closed_inv_def alive_def)
  have told: "list_all (\<lambda>e. \<exists>i t. told_over i e \<and> Asked i t \<in> set (gw_events w) \<and> covers (Session_Closed s) t) ?e"
    using was by (auto simp: told_concat list_all_iff e0_def held_def split: option.splits if_splits)
  have just: "closings_justified (gw_events w @ Session_Closed s # ?e)"
    by (rule justified_told [OF _ _ told]) (use assms(2) in \<open>simp_all add: closed_inv_def\<close>)
  have "alive (gw_events w @ Session_Closed s # ?e) p" if "p \<in> held ?g" for p
  proof -
    have p: "p \<in> held (gw_gate w)" "pt_session p \<noteq> s" using that by (auto simp: held_def a_def split: option.splits if_splits)
    have "\<not> list_ex (\<lambda>e. covers e (pt_session p)) (Session_Closed s # ?e)"
      using p(2) by (auto simp: list_ex_iff e0_def split: option.splits if_splits)
    then show ?thesis using p(1) assms(2) by (intro alive_more) (auto simp: closed_inv_def)
  qed
  then have "closed_inv ?g (gw_events w @ Session_Closed s # ?e)" using just by (simp add: closed_inv_def)
  then show ?thesis using closed_drain [OF _ d(1)] close_session(1) d(2) by fastforce
next
  case (close_all g es)
  let ?e = "(case tg_active (gw_gate w) of Some a \<Rightarrow> [Aborted (pt_id a)] | None \<Rightarrow> []) @
        concat (map (\<lambda>p. [Aborted (pt_id p), Refused (pt_id p)]) (tg_queue (gw_gate w)))"
  have e: "g = gate_empty" "es = ?e" using close_all(2) by (simp_all add: cancelAll_def)
  have was: "Asked (pt_id p) (pt_session p) \<in> set (gw_events w)" if "p \<in> held (gw_gate w)" for p
    using that assms(2) by (auto simp: closed_inv_def alive_def)
  then have "\<exists>t. Asked (pt_id p) t \<in> set (gw_events w)" if "p \<in> held (gw_gate w)" for p using that by blast
  then have told: "list_all (\<lambda>e. \<exists>i t. told_over i e \<and> Asked i t \<in> set (gw_events w) \<and> covers All_Closed t) ?e"
    by (auto simp: told_concat list_all_iff held_def split: option.splits)
  have "closings_justified (gw_events w @ All_Closed # ?e)"
    by (rule justified_told [OF _ _ told]) (use assms(2) in \<open>simp_all add: closed_inv_def\<close>)
  then show ?thesis using close_all(1) e by (simp add: closed_inv_def held_def gate_empty_def)
qed

lemma gate_reach_closed: "gate_reach w \<Longrightarrow> closed_inv (gw_gate w) (gw_events w)"
proof (induction rule: gate_reach.induct)
  case start
  show ?case by (simp add: closed_inv_def held_def gate_start_def gate_empty_def closings_justified_def)
next
  case (step w w')
  then show ?case using gate_step_closed by blast
qed

text \<open>A request whose session was closed after it was made neither waits nor runs.\<close>

lemma closed_is_over:
  assumes "gate_reach w" "gw_events w = xs @ c # ys" "Asked i s \<in> set xs" "covers c s"
  shows "i \<notin> set (waiting w) \<and> i \<notin> running w"
proof -
  have inv: "gate_settled w" by (rule settled_gate [OF gate_reach_inv [OF assms(1)]])
  have "i \<notin> pt_id ` held (gw_gate w)"
  proof
    assume "i \<in> pt_id ` held (gw_gate w)"
    then obtain p where p: "i = pt_id p" "alive (gw_events w) p" using gate_reach_closed [OF assms(1)] by (auto simp: closed_inv_def)
    then obtain as bs where a: "gw_events w = as @ Asked i (pt_session p) # bs" "\<not> list_ex (\<lambda>e. covers e (pt_session p)) bs"
      by (auto simp: alive_def)
    have once: "i \<notin> set (asked_ids as)" "i \<notin> set (asked_ids bs)"
      using inv a(1) by (auto simp: gate_settled_def asked_def)
    obtain x1 x2 where x: "xs = x1 @ Asked i s # x2" using assms(3) by (auto simp: in_set_conv_decomp)
    have "Asked i s \<in> set (as @ Asked i (pt_session p) # bs)" using a(1) assms(2,3) by (metis Un_iff set_append)
    then have s: "s = pt_session p" using once by (auto simp: asked_ids_mem)
    have "as @ Asked i s # bs = x1 @ Asked i s # (x2 @ c # ys)" using a(1) assms(2) by (simp add: x s)
    moreover have "Asked i s \<notin> set as" "Asked i s \<notin> set bs" using once by (auto simp: asked_ids_mem)
    ultimately have "bs = x2 @ c # ys" by (simp add: append_Cons_eq_iff)
    then show False using a(2) assms(4) by (simp add: s)
  qed
  moreover have "set (waiting w) \<subseteq> pt_id ` held (gw_gate w)" by (auto simp: waiting_def held_def)
  moreover have "running w \<subseteq> pt_id ` held (gw_gate w)" using inv by (auto simp: gate_settled_def held_def)
  ultimately show ?thesis by blast
qed

text \<open>
  C21: Whatever is asked, released and closed in whatever order, at most one transfer is running; the requests that were not
  refused are granted once each in the order they were made, and one waits only while another transfer runs. A request is
  refused or aborted only by a call that closes its session (or all of them) and was made after it, and after such a call it
  neither waits nor runs.
\<close>

theorem transfers_take_turns:
  assumes "gate_reach w"
  shows "card (running w) \<le> 1 \<and> distinct (granted w) \<and> set (granted w) \<inter> refused w = {} \<and>
    filter (\<lambda>i. i \<notin> refused w) (asked w) = granted w @ waiting w \<and> (waiting w = [] \<or> running w \<noteq> {}) \<and>
    (\<forall>xs e ys i. gw_events w = xs @ e # ys \<and> told_over i e \<longrightarrow> being_closed xs i) \<and>
    (\<forall>xs c ys i s. gw_events w = xs @ c # ys \<and> Asked i s \<in> set xs \<and> covers c s \<longrightarrow> i \<notin> set (waiting w) \<and> i \<notin> running w)"
proof -
  have inv: "gate_inv w" by (rule gate_reach_inv [OF assms])
  note parts = settled_parts [OF settled_gate [OF inv]]
  have "card (running w) \<le> 1" "waiting w = [] \<or> running w \<noteq> {}"
    using inv by (cases "tg_active (gw_gate w)"; auto simp: gate_inv_def gate_settled_def waiting_def)+
  moreover have "closings_justified (gw_events w)" using gate_reach_closed [OF assms] by (simp add: closed_inv_def)
  ultimately show ?thesis using parts inv closed_is_over [OF assms]
    unfolding gate_inv_def gate_settled_def closings_justified_def by blast
qed

definition demo_waiting :: gate_world where
  "demo_waiting = \<lparr>gw_gate = \<lparr>tg_active = Some \<lparr>pt_id = ''b'', pt_session = ''t''\<rparr>, tg_queue = []\<rparr>,
     gw_events = [Asked ''a'' ''s'', Granted ''a'' ''s'', Asked ''b'' ''t'', Session_Closed ''s'', Aborted ''a'', Granted ''b'' ''t'']\<rparr>"

lemma demo_waiting_reach: "gate_reach demo_waiting"
proof -
  let ?a = "\<lparr>pt_id = ''a'', pt_session = ''s''\<rparr>" and ?b = "\<lparr>pt_id = ''b'', pt_session = ''t''\<rparr>"
  let ?v = "\<lparr>gw_gate = \<lparr>tg_active = Some ?a, tg_queue = []\<rparr>, gw_events = [Asked ''a'' ''s'', Granted ''a'' ''s'']\<rparr>"
  let ?w = "\<lparr>gw_gate = \<lparr>tg_active = Some ?a, tg_queue = [?b]\<rparr>, gw_events = [Asked ''a'' ''s'', Granted ''a'' ''s'', Asked ''b'' ''t'']\<rparr>"
  have "gate_step gate_start ?v"
    using gate_step.ask [of "''a''" gate_start "''s''"] by (simp add: gate_start_def gate_empty_def acquire_def drain_def asked_def)
  then have "gate_reach ?v" by (rule gate_reach.step [OF gate_reach.start])
  moreover have "gate_step ?v ?w"
    using gate_step.ask [of "''b''" ?v "''t''"] by (simp add: acquire_def drain_def asked_def)
  ultimately have "gate_reach ?w" by (rule gate_reach.step)
  moreover have "gate_step ?w demo_waiting"
    using gate_step.close_session [of "''s''" ?w] by (simp add: demo_waiting_def cancelSession_def drain_def)
  ultimately show ?thesis by (rule gate_reach.step)
qed

lemma transfers_take_turns_witness:
  "running demo_waiting = {''b''} \<and> card (running demo_waiting) \<le> 1 \<and> being_closed (take 4 (gw_events demo_waiting)) ''a''"
proof -
  have "gw_events demo_waiting = take 4 (gw_events demo_waiting) @ Aborted ''a'' # [Granted ''b'' ''t'']" by (simp add: demo_waiting_def)
  moreover have "running demo_waiting = {''b''}" by (simp add: demo_waiting_def running_def granted_def let_gone_def aborted_def)
  ultimately show ?thesis using transfers_take_turns [OF demo_waiting_reach] told_over.simps(2) by metis
qed

end
