(* ===== verification/Workbench.thy ===== *)
theory Workbench
  imports Server_Messages Profiles
begin

text \<open>
  The sessions of the browser's workbench: \<open>apps/web/src/lib/workbench-sessions.ts\<close>, the reducer behind the tabs and the
  split view. A session's channel is of any type; \<open>Record\<close>s are association lists in insertion order.
\<close>

section \<open>State\<close>

datatype session_attention = No_Attention | Activity | Action_Needed | Attention_Error
datatype session_layout = Single | Split
datatype session_pane = Pane0 | Pane1

record log_entry =
  le_id :: string
  le_occurredAt :: string
  le_level :: string
  le_message :: string

record 'c web_session =
  ws_id :: string
  ws_profile :: profile_view
  ws_attemptId :: string
  ws_connectRequested :: bool
  ws_state :: string
  ws_channel :: "'c option"
  ws_metrics :: "server_message option"
  ws_events :: "log_entry list"
  ws_workTab :: string
  ws_attention :: session_attention
  ws_closing :: bool
  ws_createdAt :: string

record 'c workbench =
  wb_sessions :: "(string \<times> 'c web_session) list"
  wb_order :: "string list"
  wb_activeId :: "string option"
  wb_layout :: session_layout
  wb_panes :: "string option \<times> string option"
  wb_focused :: session_pane

datatype 'c workbench_action =
    W_Open "'c web_session"
  | W_Select string
  | W_Focus_Pane session_pane
  | W_Toggle_Split
  | W_Reconnect string string "profile_view option" "bool option"
  | W_Pause string string "string option"
  | W_State string string string
  | W_Channel string string "'c option"
  | W_Message string string server_message string string
  | W_Work_Tab string string
  | W_Attention string session_attention
  | W_Closing string bool
  | W_Remove string
  | W_Clear

definition initialWorkbench :: "'c workbench" where
  "initialWorkbench = \<lparr>wb_sessions = [], wb_order = [], wb_activeId = None, wb_layout = Single, wb_panes = (None, None), wb_focused = Pane0\<rparr>"

fun attentionPriority :: "session_attention \<Rightarrow> nat" where
  "attentionPriority No_Attention = 0"
| "attentionPriority Activity = 1"
| "attentionPriority Action_Needed = 2"
| "attentionPriority Attention_Error = 3"

definition createWorkbenchSession :: "profile_view \<Rightarrow> bool \<Rightarrow> string \<Rightarrow> string \<Rightarrow> string \<Rightarrow> 'c web_session" where
  "createWorkbenchSession profile start i attemptId createdAt =
     \<lparr>ws_id = i, ws_profile = profile, ws_attemptId = attemptId, ws_connectRequested = start,
      ws_state = (if start then ''authorizing'' else ''idle''), ws_channel = None, ws_metrics = None, ws_events = [],
      ws_workTab = ''files'', ws_attention = No_Attention, ws_closing = False, ws_createdAt = createdAt\<rparr>"

section \<open>Panes\<close>

fun pane_of :: "session_pane \<Rightarrow> string option \<times> string option \<Rightarrow> string option" where
  "pane_of Pane0 (a, b) = a"
| "pane_of Pane1 (a, b) = b"

fun set_pane :: "session_pane \<Rightarrow> string option \<Rightarrow> string option \<times> string option \<Rightarrow> string option \<times> string option" where
  "set_pane Pane0 v (a, b) = (v, b)"
| "set_pane Pane1 v (a, b) = (a, v)"

definition pane_index :: "string \<Rightarrow> string option \<times> string option \<Rightarrow> session_pane option" where
  "pane_index i p = (if prod.fst p = Some i then Some Pane0 else if prod.snd p = Some i then Some Pane1 else None)"

definition nextAvailable :: "string list \<Rightarrow> string option list \<Rightarrow> string option" where
  "nextAvailable order excluded = find (\<lambda>i. Some i \<notin> set excluded) order"

text \<open>\<open>a ?? b\<close>\<close>

definition or_else :: "'a option \<Rightarrow> 'a option \<Rightarrow> 'a option" where
  "or_else a b = (case a of None \<Rightarrow> b | Some x \<Rightarrow> Some x)"

definition put_session :: "string \<Rightarrow> 'c web_session \<Rightarrow> 'c workbench \<Rightarrow> 'c workbench" where
  "put_session i x s = s\<lparr>wb_sessions := AList.update i x (wb_sessions s)\<rparr>"

definition selectSession :: "string \<Rightarrow> 'c workbench \<Rightarrow> 'c workbench" where
  "selectSession i s =
     (case map_of (wb_sessions s) i of
        None \<Rightarrow> s
      | Some x \<Rightarrow>
          (let focused = (case (wb_layout s, pane_index i (wb_panes s)) of (Split, Some p) \<Rightarrow> p | _ \<Rightarrow> wb_focused s);
               panes = set_pane focused (Some i) (wb_panes s);
               panes = (if wb_layout s = Single then set_pane Pane1 None panes else panes)
           in (put_session i (x\<lparr>ws_attention := No_Attention\<rparr>) s)\<lparr>wb_activeId := Some i, wb_focused := focused, wb_panes := panes\<rparr>))"

definition without_pane :: "string \<Rightarrow> string option \<Rightarrow> string option" where
  "without_pane i v = (if v = Some i then None else v)"

text \<open>The panes without the closed session, each filled again from the other open ones.\<close>

definition remaining_panes :: "string \<Rightarrow> string list \<Rightarrow> session_layout \<Rightarrow> string option \<times> string option \<Rightarrow> string option \<times> string option" where
  "remaining_panes i order layout panes =
     (let p0 = without_pane i (prod.fst panes); p1 = without_pane i (prod.snd panes);
          p0 = (if given p0 then p0 else nextAvailable order [p1])
      in (p0, if layout = Split \<and> \<not> given p1 then nextAvailable order [p0] else p1))"

definition remaining_layout :: "session_layout \<Rightarrow> string option \<times> string option \<Rightarrow> session_layout" where
  "remaining_layout layout panes = (if layout = Split \<and> given (prod.fst panes) \<and> given (prod.snd panes) then Split else Single)"

definition first_id :: "string list \<Rightarrow> string option" where
  "first_id order = (if order = [] then None else Some (hd order))"

definition shown_panes :: "string list \<Rightarrow> session_layout \<Rightarrow> session_pane \<Rightarrow> string option \<times> string option \<Rightarrow> string option \<times> string option" where
  "shown_panes order layout focused panes =
     (if layout = Single
      then (or_else (pane_of focused panes) (or_else (prod.fst panes) (or_else (prod.snd panes) (first_id order))), None)
      else panes)"

definition removeSession :: "string \<Rightarrow> 'c workbench \<Rightarrow> 'c workbench" where
  "removeSession i s =
     (if map_of (wb_sessions s) i = None then s
      else
        let order = filter (\<lambda>c. c \<noteq> i) (wb_order s);
            left = remaining_panes i order (wb_layout s) (wb_panes s);
            layout = remaining_layout (wb_layout s) left;
            panes = shown_panes order layout (wb_focused s) left;
            focused = (if layout = Split \<and> wb_focused s = Pane1 \<and> given (prod.snd panes) then Pane1 else Pane0);
            activeId = (if wb_activeId s = Some i \<or> \<not> given (wb_activeId s)
              then or_else (pane_of focused panes) (or_else (prod.fst panes) (first_id order))
              else wb_activeId s)
        in \<lparr>wb_sessions = AList.delete i (wb_sessions s), wb_order = order, wb_activeId = activeId, wb_layout = layout,
            wb_panes = panes, wb_focused = focused\<rparr>)"

definition toggleSplit :: "'c workbench \<Rightarrow> 'c workbench" where
  "toggleSplit s =
     (if wb_layout s = Split then
        (let activeId = or_else (wb_activeId s) (or_else (pane_of (wb_focused s) (wb_panes s)) (prod.fst (wb_panes s))) in
         s\<lparr>wb_layout := Single, wb_panes := (activeId, None), wb_focused := Pane0, wb_activeId := activeId\<rparr>)
      else
        let primary = or_else (wb_activeId s) (or_else (prod.fst (wb_panes s)) (first_id (wb_order s)));
            secondary = nextAvailable (wb_order s) [primary]
        in if \<not> given primary \<or> \<not> given secondary then s
           else s\<lparr>wb_layout := Split, wb_panes := (primary, secondary), wb_focused := Pane0, wb_activeId := primary\<rparr>)"

definition backgroundAttention :: "'c workbench \<Rightarrow> string \<Rightarrow> session_attention \<Rightarrow> session_attention \<Rightarrow> session_attention" where
  "backgroundAttention s i current incoming =
     (if wb_activeId s = Some i then No_Attention
      else if attentionPriority incoming > attentionPriority current then incoming else current)"

section \<open>The reducer\<close>

definition is_terminal_state :: "string \<Rightarrow> bool" where
  "is_terminal_state st \<longleftrightarrow> st = ''idle'' \<or> st = ''closed'' \<or> st = ''error''"

text \<open>The session with an identifier, if there is one; and only if it is still in that attempt.\<close>

definition on_session :: "string \<Rightarrow> ('c web_session \<Rightarrow> 'c workbench) \<Rightarrow> 'c workbench \<Rightarrow> 'c workbench" where
  "on_session i f s = (case map_of (wb_sessions s) i of None \<Rightarrow> s | Some x \<Rightarrow> f x)"

definition on_attempt :: "string \<Rightarrow> string \<Rightarrow> ('c web_session \<Rightarrow> 'c workbench) \<Rightarrow> 'c workbench \<Rightarrow> 'c workbench" where
  "on_attempt i attemptId f s = on_session i (\<lambda>x. if ws_attemptId x \<noteq> attemptId then s else f x) s"

definition message_event :: "string \<Rightarrow> string \<Rightarrow> server_message \<Rightarrow> log_entry option" where
  "message_event receivedAt newId m =
     (case sm_body m of
        Sv_Status st msg occurredAt reason conn \<Rightarrow>
          Some \<lparr>le_id = newId, le_occurredAt = occurredAt, le_level = ''info'', le_message = msg\<rparr>
      | Sv_Error code msg fatal retryable \<Rightarrow>
          Some \<lparr>le_id = newId, le_occurredAt = receivedAt, le_level = ''error'', le_message = msg\<rparr>
      | _ \<Rightarrow> None)"

fun incoming_attention :: "server_body \<Rightarrow> session_attention" where
  "incoming_attention (Sv_Error _ _ _ _) = Attention_Error"
| "incoming_attention (Sv_Host_Key _ _ _ _ _ _ _) = Action_Needed"
| "incoming_attention (Sv_Output _ _ _) = Activity"
| "incoming_attention _ = No_Attention"

definition message_metrics :: "server_message \<Rightarrow> server_message option \<Rightarrow> server_message option" where
  "message_metrics m old = (case sm_body m of Sv_Metrics _ \<Rightarrow> Some m | _ \<Rightarrow> old)"

fun workbenchReducer :: "'c workbench_action \<Rightarrow> 'c workbench \<Rightarrow> 'c workbench" where
  "workbenchReducer (W_Open x) s =
     (if map_of (wb_sessions s) (ws_id x) \<noteq> None then s
      else selectSession (ws_id x) ((put_session (ws_id x) x s)\<lparr>wb_order := wb_order s @ [ws_id x]\<rparr>))"
| "workbenchReducer (W_Select i) s = selectSession i s"
| "workbenchReducer (W_Focus_Pane p) s =
     (if wb_layout s \<noteq> Split then s
      else if \<not> given (pane_of p (wb_panes s)) then s
      else selectSession (the (pane_of p (wb_panes s))) (s\<lparr>wb_focused := p\<rparr>))"
| "workbenchReducer W_Toggle_Split s = toggleSplit s"
| "workbenchReducer (W_Reconnect i attemptId profile requested) s = on_session i (\<lambda>x.
     put_session i (x\<lparr>ws_profile := default_to (ws_profile x) profile, ws_attemptId := attemptId,
       ws_connectRequested := default_to True requested, ws_state := (if requested = Some False then ''idle'' else ''authorizing''),
       ws_channel := None, ws_metrics := None, ws_events := [], ws_attention := No_Attention, ws_closing := False\<rparr>) s) s"
| "workbenchReducer (W_Pause i attemptId st) s = on_attempt i attemptId (\<lambda>x.
     put_session i (x\<lparr>ws_connectRequested := False, ws_state := default_to ''idle'' st, ws_channel := None\<rparr>) s) s"
| "workbenchReducer (W_State i attemptId st) s = on_attempt i attemptId (\<lambda>x.
     put_session i (x\<lparr>ws_state := st, ws_connectRequested := (if is_terminal_state st then False else ws_connectRequested x),
       ws_attention := (if st = ''error'' then backgroundAttention s i (ws_attention x) Attention_Error else ws_attention x)\<rparr>) s) s"
| "workbenchReducer (W_Channel i attemptId c) s = on_attempt i attemptId (\<lambda>x. put_session i (x\<lparr>ws_channel := c\<rparr>) s) s"
| "workbenchReducer (W_Message i attemptId m receivedAt newId) s = on_attempt i attemptId (\<lambda>x.
     let event = message_event receivedAt newId m; metrics = message_metrics m (ws_metrics x);
         attention = backgroundAttention s i (ws_attention x) (incoming_attention (sm_body m))
     in if event = None \<and> metrics = ws_metrics x \<and> attention = ws_attention x then s
        else put_session i (x\<lparr>ws_metrics := metrics,
          ws_events := (case event of None \<Rightarrow> ws_events x | Some e \<Rightarrow> take 200 (e # ws_events x)), ws_attention := attention\<rparr>) s) s"
| "workbenchReducer (W_Work_Tab i tab) s = on_session i (\<lambda>x. put_session i (x\<lparr>ws_workTab := tab\<rparr>) s) s"
| "workbenchReducer (W_Attention i a) s =
     on_session i (\<lambda>x. put_session i (x\<lparr>ws_attention := backgroundAttention s i (ws_attention x) a\<rparr>) s) s"
| "workbenchReducer (W_Closing i closing) s = on_session i (\<lambda>x. put_session i (x\<lparr>ws_closing := closing\<rparr>) s) s"
| "workbenchReducer (W_Remove i) s = removeSession i s"
| "workbenchReducer W_Clear s = initialWorkbench"

section \<open>Views\<close>

definition visibleSessionIds :: "'c workbench \<Rightarrow> string list" where
  "visibleSessionIds s =
     (case wb_panes s of (a, b) \<Rightarrow>
        if wb_layout s = Split then map the (filter given [a, b]) else if given a then [the a] else [])"

definition profileSessionCounts :: "'c workbench \<Rightarrow> (string \<times> nat) list" where
  "profileSessionCounts s =
     foldl (\<lambda>counts x. AList.update (pv_id (ws_profile x)) (default_to 0 (map_of counts (pv_id (ws_profile x))) + 1) counts) []
       (map prod.snd (wb_sessions s))"

fun position :: "'a \<Rightarrow> 'a list \<Rightarrow> int" where
  "position x [] = -1"
| "position x (y # ys) = (if y = x then 0 else let n = position x ys in if n < 0 then -1 else n + 1)"

definition sessionDisplayName :: "'c workbench \<Rightarrow> string \<Rightarrow> string option" where
  "sessionDisplayName s i =
     (case map_of (wb_sessions s) i of
        None \<Rightarrow> None
      | Some x \<Rightarrow>
          (let matching = filter (\<lambda>c. map_option (\<lambda>y. pv_id (ws_profile y)) (map_of (wb_sessions s) c) = Some (pv_id (ws_profile x))) (wb_order s) in
           Some (if length matching \<le> 1 then pv_name (ws_profile x)
             else pv_name (ws_profile x) @ '' #'' @ show_int (position i matching + 1))))"

definition isSessionRunning :: "'c web_session \<Rightarrow> bool" where
  "isSessionRunning x \<longleftrightarrow> ws_state x \<notin> set [''idle'', ''closed'', ''error'']"

end
