(* ===== verification/Workbench_Facts.thy ===== *)
theory Workbench_Facts
  imports Workbench
begin

text \<open>
  What the workbench's reducer keeps: the tables, the order of the tabs and the panes always fit together, whatever
  actions come in whatever order, and an action for an attempt that is over changes nothing.
\<close>

section \<open>The invariant\<close>

definition session_good :: "string \<Rightarrow> 'c web_session \<Rightarrow> bool" where
  "session_good i x \<longleftrightarrow> ws_id x = i \<and> length (ws_events x) \<le> 200 \<and> (is_terminal_state (ws_state x) \<longrightarrow> \<not> ws_connectRequested x)"

definition table_ok :: "'c workbench \<Rightarrow> bool" where
  "table_ok s \<longleftrightarrow> distinct (map prod.fst (wb_sessions s)) \<and> dom (map_of (wb_sessions s)) = set (wb_order s) \<and> distinct (wb_order s) \<and>
     [] \<notin> set (wb_order s) \<and> (\<forall>i x. map_of (wb_sessions s) i = Some x \<longrightarrow> session_good i x)"

text \<open>One pane shows the active session; two panes show two sessions, the active one in the pane with the focus.\<close>

definition layout_ok :: "'c workbench \<Rightarrow> bool" where
  "layout_ok s \<longleftrightarrow> (case wb_layout s of
     Single \<Rightarrow> wb_panes s = (wb_activeId s, None) \<and> wb_focused s = Pane0 \<and>
       (wb_activeId s = None \<longrightarrow> wb_order s = []) \<and> (\<forall>i. wb_activeId s = Some i \<longrightarrow> i \<in> set (wb_order s))
   | Split \<Rightarrow> (\<exists>a b. wb_panes s = (Some a, Some b) \<and> a \<noteq> b \<and> a \<in> set (wb_order s) \<and> b \<in> set (wb_order s) \<and>
       wb_activeId s = pane_of (wb_focused s) (wb_panes s)))"

definition workbench_ok :: "'c workbench \<Rightarrow> bool" where
  "workbench_ok s \<longleftrightarrow> table_ok s \<and> layout_ok s"

text \<open>What the components dispatch: sessions are opened as they are created, and paused into a state that is over.\<close>

definition action_ok :: "'c workbench_action \<Rightarrow> bool" where
  "action_ok a \<longleftrightarrow> (case a of
     W_Open x \<Rightarrow> (\<exists>profile start i attemptId createdAt. i \<noteq> [] \<and> x = createWorkbenchSession profile start i attemptId createdAt)
   | W_Pause i attemptId st \<Rightarrow> (case st of None \<Rightarrow> True | Some v \<Rightarrow> is_terminal_state v)
   | _ \<Rightarrow> True)"

lemma put_session_fields [simp]:
  "wb_order (put_session i x s) = wb_order s" "wb_activeId (put_session i x s) = wb_activeId s"
  "wb_layout (put_session i x s) = wb_layout s" "wb_panes (put_session i x s) = wb_panes s" "wb_focused (put_session i x s) = wb_focused s"
  by (simp_all add: put_session_def)

lemma map_of_put [simp]: "map_of (wb_sessions (put_session i x s)) = (map_of (wb_sessions s))(i \<mapsto> x)"
  by (simp add: put_session_def update_conv')

lemma given_simps [simp]: "given (Some v) \<longleftrightarrow> v \<noteq> []" "\<not> given None"
  by (simp_all add: given_def)

lemma or_else_simps [simp]: "or_else None b = b" "or_else (Some x) b = Some x"
  by (simp_all add: or_else_def)

lemma layout_single:
  "wb_layout s = Single \<Longrightarrow> layout_ok s \<longleftrightarrow> wb_panes s = (wb_activeId s, None) \<and> wb_focused s = Pane0 \<and>
     (wb_activeId s = None \<longrightarrow> wb_order s = []) \<and> (\<forall>i. wb_activeId s = Some i \<longrightarrow> i \<in> set (wb_order s))"
  by (simp add: layout_ok_def)

lemma layout_split:
  "wb_layout s = Split \<Longrightarrow> layout_ok s \<longleftrightarrow> (\<exists>a b. wb_panes s = (Some a, Some b) \<and> a \<noteq> b \<and> a \<in> set (wb_order s) \<and> b \<in> set (wb_order s) \<and>
     wb_activeId s = pane_of (wb_focused s) (Some a, Some b))"
  by (auto simp: layout_ok_def)

lemma layout_put [simp]: "layout_ok (put_session i x s) = layout_ok s"
  by (cases "wb_layout s") (simp_all add: layout_single layout_split)

lemma table_put:
  assumes "table_ok s" "map_of (wb_sessions s) i \<noteq> None" "session_good i x"
  shows "table_ok (put_session i x s)"
proof -
  have "distinct (map prod.fst (wb_sessions (put_session i x s)))"
    using assms(1) by (simp add: table_ok_def put_session_def distinct_update)
  moreover have "dom ((map_of (wb_sessions s))(i \<mapsto> x)) = set (wb_order s)" using assms by (auto simp: table_ok_def)
  ultimately show ?thesis using assms(1,3) by (auto simp: table_ok_def)
qed

lemma ok_put: "workbench_ok s \<Longrightarrow> map_of (wb_sessions s) i \<noteq> None \<Longrightarrow> session_good i x \<Longrightarrow> workbench_ok (put_session i x s)"
  by (simp add: workbench_ok_def table_put)

lemma session_goodD: "workbench_ok s \<Longrightarrow> map_of (wb_sessions s) i = Some x \<Longrightarrow> session_good i x"
  by (simp add: workbench_ok_def table_ok_def)

lemma ok_on_session:
  assumes "workbench_ok s" "\<And>x. map_of (wb_sessions s) i = Some x \<Longrightarrow> session_good i x \<Longrightarrow> workbench_ok (f x)"
  shows "workbench_ok (on_session i f s)"
  using assms session_goodD [OF assms(1)] by (auto simp: on_session_def split: option.splits)

lemma ok_on_attempt:
  assumes "workbench_ok s" "\<And>x. map_of (wb_sessions s) i = Some x \<Longrightarrow> session_good i x \<Longrightarrow> workbench_ok (f x)"
  shows "workbench_ok (on_attempt i attemptId f s)"
  using assms unfolding on_attempt_def by (intro ok_on_session) auto

section \<open>Selecting\<close>

lemma table_cong:
  "wb_sessions s' = wb_sessions s \<Longrightarrow> wb_order s' = wb_order s \<Longrightarrow> table_ok s \<Longrightarrow> table_ok s'"
  by (simp add: table_ok_def)

lemma select_table:
  assumes "table_ok s"
  shows "table_ok (selectSession i s)"
proof (cases "map_of (wb_sessions s) i")
  case None
  then show ?thesis using assms by (simp add: selectSession_def)
next
  case (Some x)
  have "session_good i (x\<lparr>ws_attention := No_Attention\<rparr>)" using assms Some by (auto simp: table_ok_def session_good_def)
  then have "table_ok (put_session i (x\<lparr>ws_attention := No_Attention\<rparr>) s)" using table_put [OF assms] Some by simp
  then show ?thesis unfolding selectSession_def Some option.case Let_def by (rule table_cong [rotated 2]) simp_all
qed

text \<open>Before a selection the panes need not show the active session.\<close>

definition panes_fit :: "'c workbench \<Rightarrow> bool" where
  "panes_fit s \<longleftrightarrow> (case wb_layout s of Single \<Rightarrow> wb_focused s = Pane0
      | Split \<Rightarrow> (\<exists>a b. wb_panes s = (Some a, Some b) \<and> a \<noteq> b \<and> a \<in> set (wb_order s) \<and> b \<in> set (wb_order s)))"

lemma layout_fits: "layout_ok s \<Longrightarrow> panes_fit s"
  by (cases "wb_layout s") (auto simp: layout_ok_def panes_fit_def)

lemma select_layout:
  assumes "table_ok s" "i \<in> set (wb_order s)" "panes_fit s"
  shows "layout_ok (selectSession i s)"
proof -
  have "i \<in> dom (map_of (wb_sessions s))" using assms(1,2) by (simp only: table_ok_def)
  then obtain x where x: "map_of (wb_sessions s) i = Some x" by blast
  show ?thesis
  proof (cases "wb_layout s")
    case Single
    then show ?thesis using assms(2,3) x by (cases "wb_panes s") (simp add: selectSession_def layout_ok_def panes_fit_def Let_def)
  next
    case Split
    then obtain a b where ab: "wb_panes s = (Some a, Some b)" "a \<noteq> b" "a \<in> set (wb_order s)" "b \<in> set (wb_order s)"
      using assms(3) by (auto simp: panes_fit_def)
    consider "i = a" | "i = b" "i \<noteq> a" | "i \<noteq> a" "i \<noteq> b" by blast
    then show ?thesis
      using assms(2) x ab Split
      by cases (cases "wb_focused s"; simp add: selectSession_def layout_ok_def Let_def pane_index_def)+
  qed
qed

lemma select_ok: "workbench_ok s \<Longrightarrow> workbench_ok (selectSession i s)"
proof (cases "i \<in> set (wb_order s)")
  case True
  then show "workbench_ok s \<Longrightarrow> workbench_ok (selectSession i s)"
    by (simp add: workbench_ok_def select_table select_layout layout_fits)
next
  case False
  assume ok: "workbench_ok s"
  have "i \<notin> dom (map_of (wb_sessions s))" using ok False by (simp only: workbench_ok_def table_ok_def simp_thms)
  then have "selectSession i s = s" by (simp add: selectSession_def domIff)
  then show ?thesis using ok by simp
qed

lemma open_ok:
  assumes "workbench_ok s" "action_ok (W_Open x)"
  shows "workbench_ok (workbenchReducer (W_Open x) s)"
proof (cases "map_of (wb_sessions s) (ws_id x)")
  case None
  let ?o = "(put_session (ws_id x) x s)\<lparr>wb_order := wb_order s @ [ws_id x]\<rparr>"
  have good: "session_good (ws_id x) x" "ws_id x \<noteq> []"
    using assms(2) by (auto simp: action_ok_def createWorkbenchSession_def session_good_def is_terminal_state_def)
  have "distinct (map prod.fst (wb_sessions ?o))"
    using assms(1) by (simp add: workbench_ok_def table_ok_def put_session_def distinct_update)
  then have "table_ok ?o"
    using assms(1) good None by (auto simp: workbench_ok_def table_ok_def domIff split: if_splits)
  moreover have "panes_fit ?o"
    using layout_fits [of s] assms(1) by (cases "wb_layout s") (auto simp: workbench_ok_def panes_fit_def)
  then have "layout_ok (selectSession (ws_id x) ?o)" using calculation by (intro select_layout) simp_all
  ultimately show ?thesis using None select_table by (auto simp: workbench_ok_def)
qed (use assms in simp)

section \<open>Closing a tab and splitting the view\<close>

lemma nextAvailable_Some: "nextAvailable order ex = Some j \<Longrightarrow> j \<in> set order \<and> Some j \<notin> set ex"
  by (auto simp: nextAvailable_def find_Some_iff)

lemma nextAvailable_None: "nextAvailable order ex = None \<longleftrightarrow> (\<forall>j \<in> set order. Some j \<in> set ex)"
  by (auto simp: nextAvailable_def find_None_iff)

lemma toggle_ok:
  assumes "workbench_ok s"
  shows "workbench_ok (toggleSplit s)"
proof -
  have ok: "table_ok s" "layout_ok s" using assms by (simp_all add: workbench_ok_def)
  have "layout_ok (toggleSplit s)"
  proof (cases "wb_layout s")
    case Split
    then show ?thesis using ok(2) by (cases "wb_focused s") (auto simp: layout_single layout_split toggleSplit_def Let_def)
  next
    case Single
    show ?thesis
    proof (cases "wb_activeId s")
      case None
      then show ?thesis using ok(2) Single by (simp add: layout_single toggleSplit_def first_id_def Let_def)
    next
      case (Some a)
      then have a: "a \<in> set (wb_order s)" using ok(2) Single by (simp add: layout_single)
      show ?thesis
      proof (cases "nextAvailable (wb_order s) [Some a]")
        case None
        then show ?thesis using ok(2) by (simp add: toggleSplit_def Single Some Let_def)
      next
        case b: (Some b)
        then have "b \<in> set (wb_order s)" "b \<noteq> a" using nextAvailable_Some [OF b] by auto
        moreover have "a \<noteq> []" "b \<noteq> []" using ok(1) a calculation(1) by (auto simp: table_ok_def)
        ultimately show ?thesis using a by (simp add: toggleSplit_def Single Some b layout_split Let_def)
      qed
    qed
  qed
  moreover have "table_ok (toggleSplit s)"
    by (rule table_cong [OF _ _ ok(1)]) (simp_all add: toggleSplit_def Let_def)
  ultimately show ?thesis by (simp add: workbench_ok_def)
qed

lemma remove_table:
  assumes "table_ok s" "map_of (wb_sessions s) i \<noteq> None"
  shows "table_ok (removeSession i s)"
proof -
  have "wb_sessions (removeSession i s) = AList.delete i (wb_sessions s)" "wb_order (removeSession i s) = filter (\<lambda>c. c \<noteq> i) (wb_order s)"
    by (simp_all add: removeSession_def Let_def assms(2))
  then show ?thesis
    using assms(1) by (auto simp: table_ok_def distinct_delete delete_conv' split: if_splits)
qed

lemma remove_single:
  assumes "wb_layout s = Single" "layout_ok s" "i \<in> set (wb_order s)" "map_of (wb_sessions s) i \<noteq> None" "[] \<notin> set (wb_order s)"
  shows "layout_ok (removeSession i s)"
proof -
  let ?o = "filter (\<lambda>c. c \<noteq> i) (wb_order s)"
  obtain a where a: "wb_activeId s = Some a" "a \<in> set (wb_order s)" "wb_panes s = (Some a, None)" "wb_focused s = Pane0" "a \<noteq> []"
    using assms by (auto simp: layout_single split: option.splits)
  have left: "remaining_panes i ?o Single (Some a, None) = (if a = i then nextAvailable ?o [None] else Some a, None)"
    using a(5) by (simp add: remaining_panes_def without_pane_def Let_def)
  show ?thesis
  proof (cases "a = i")
    case True
    have "nextAvailable ?o [None] = first_id ?o" by (cases ?o) (simp_all add: nextAvailable_def first_id_def)
    then show ?thesis
      using assms(4) a(1,3,4) left True
      by (cases ?o) (auto simp: removeSession_def Let_def assms(1) remaining_layout_def shown_panes_def layout_single first_id_def)
  next
    case False
    then show ?thesis
      using assms(4) a left by (auto simp: removeSession_def Let_def assms(1) remaining_layout_def shown_panes_def layout_single)
  qed
qed

text \<open>With two panes, what is left are two sessions or the one that was beside the closed one.\<close>

lemma remove_from_split:
  assumes "wb_layout s = Split" "map_of (wb_sessions s) i \<noteq> None" "wb_panes s = (Some a, Some b)"
    "wb_activeId s = pane_of (wb_focused s) (Some a, Some b)" "a \<noteq> []" "b \<noteq> []"
    "remaining_panes i (filter (\<lambda>c. c \<noteq> i) (wb_order s)) Split (Some a, Some b) = (v, w)"
    "\<And>x. v = Some x \<Longrightarrow> x \<in> set (wb_order s) \<and> x \<noteq> i \<and> x \<noteq> []" "\<And>x. w = Some x \<Longrightarrow> x \<in> set (wb_order s) \<and> x \<noteq> i \<and> x \<noteq> []"
    "v \<noteq> None \<Longrightarrow> v \<noteq> w" "a \<noteq> i \<Longrightarrow> v = Some a" "b \<noteq> i \<Longrightarrow> w = Some b" "a \<noteq> b"
  shows "layout_ok (removeSession i s)"
proof (cases v)
  case None
  then have "a = i" "w = Some b" using assms(11-13) by auto
  then show ?thesis
    using assms None
    by (cases "wb_focused s") (auto simp: removeSession_def Let_def remaining_layout_def shown_panes_def layout_single)
next
  case (Some x)
  show ?thesis
  proof (cases w)
    case None
    then have "b = i" "x = a" using assms(11-13) Some by auto
    then show ?thesis
      using assms Some None
      by (cases "wb_focused s") (auto simp: removeSession_def Let_def remaining_layout_def shown_panes_def layout_single)
  next
    case w: (Some y)
    then show ?thesis
      using assms Some
      by (cases "wb_focused s") (auto simp: removeSession_def Let_def remaining_layout_def shown_panes_def layout_split)
  qed
qed

lemma remove_layout:
  assumes "workbench_ok s" "map_of (wb_sessions s) i \<noteq> None"
  shows "layout_ok (removeSession i s)"
proof -
  have ok: "layout_ok s" and order: "[] \<notin> set (wb_order s)" "i \<in> set (wb_order s)"
    using assms by (auto simp: workbench_ok_def table_ok_def)
  show ?thesis
  proof (cases "wb_layout s")
    case Single
    then show ?thesis using remove_single ok order assms(2) by blast
  next
    case Split
    then obtain a b where ab: "wb_panes s = (Some a, Some b)" "a \<noteq> b" "a \<in> set (wb_order s)" "b \<in> set (wb_order s)"
        "wb_activeId s = pane_of (wb_focused s) (Some a, Some b)"
      using ok by (auto simp: layout_split)
    have nonempty: "a \<noteq> []" "b \<noteq> []" using ab(3,4) order(1) by auto
    let ?o = "filter (\<lambda>c. c \<noteq> i) (wb_order s)"
    let ?v = "if a = i then nextAvailable ?o [Some b] else Some a"
    let ?w = "if b = i then nextAvailable ?o [?v] else Some b"
    have left: "remaining_panes i ?o Split (Some a, Some b) = (?v, ?w)"
      using ab(2) nonempty by (auto simp: remaining_panes_def without_pane_def Let_def)
    have v: "x \<in> set (wb_order s) \<and> x \<noteq> i \<and> x \<noteq> []" if "?v = Some x" for x
      using that ab(3) order(1) nextAvailable_Some [of ?o "[Some b]" x] by (auto split: if_splits)
    have w: "x \<in> set (wb_order s) \<and> x \<noteq> i \<and> x \<noteq> []" if "?w = Some x" for x
      using that ab(4) order(1) nextAvailable_Some [of ?o "[?v]" x] by (auto split: if_splits)
    have vw: "?v \<noteq> ?w" if "?v \<noteq> None"
      using that ab(2) nextAvailable_Some [of ?o "[Some b]" b] nextAvailable_Some [of ?o "[Some a]" a] by (auto split: if_splits)
    show ?thesis
      by (rule remove_from_split [OF Split assms(2) ab(1) ab(5) nonempty left v w vw _ _ ab(2)]) simp_all
  qed
qed

lemma remove_ok: "workbench_ok s \<Longrightarrow> workbench_ok (removeSession i s)"
  using remove_table [of s i] remove_layout [of s i]
  by (cases "map_of (wb_sessions s) i = None") (simp_all add: workbench_ok_def removeSession_def)

section \<open>Every action\<close>

lemma initial_ok: "workbench_ok initialWorkbench"
  by (simp add: workbench_ok_def table_ok_def layout_ok_def initialWorkbench_def)

lemma reducer_ok:
  assumes "workbench_ok s" "action_ok a"
  shows "workbench_ok (workbenchReducer a s)"
proof (cases a)
  case (W_Open x)
  then show ?thesis using open_ok assms by blast
next
  case (W_Select i)
  then show ?thesis using select_ok assms(1) by simp
next
  case (W_Focus_Pane p)
  let ?s = "s\<lparr>wb_focused := p\<rparr>"
  have t: "table_ok ?s" using assms(1) table_cong [of ?s s] by (simp add: workbench_ok_def)
  have "layout_ok (selectSession (the (pane_of p (wb_panes s))) ?s)" if split: "wb_layout s = Split"
  proof -
    obtain a b where "wb_panes s = (Some a, Some b)" "a \<noteq> b" "a \<in> set (wb_order s)" "b \<in> set (wb_order s)"
      using assms(1) by (auto simp: workbench_ok_def layout_split [OF split])
    then show ?thesis using t split by (intro select_layout) (cases p; simp add: panes_fit_def)+
  qed
  then show ?thesis using assms(1) W_Focus_Pane t by (simp add: workbench_ok_def select_table)
next
  case W_Toggle_Split
  then show ?thesis using toggle_ok assms(1) by simp
next
  case (W_Reconnect i attemptId profile requested)
  then show ?thesis
    using assms(1) by (auto intro!: ok_on_session ok_put simp: session_good_def is_terminal_state_def default_to_def split: option.splits)
next
  case (W_Pause i attemptId st)
  then show ?thesis
    using assms by (auto intro!: ok_on_attempt ok_put simp: session_good_def)
next
  case (W_State i attemptId st)
  then show ?thesis using assms(1) by (auto intro!: ok_on_attempt ok_put simp: session_good_def)
next
  case (W_Channel i attemptId c)
  then show ?thesis using assms(1) by (auto intro!: ok_on_attempt ok_put simp: session_good_def)
next
  case (W_Message i attemptId m receivedAt newId)
  then show ?thesis
    using assms(1) by (auto intro!: ok_on_attempt ok_put simp: session_good_def Let_def split: option.splits)
next
  case (W_Work_Tab i tab)
  then show ?thesis using assms(1) by (auto intro!: ok_on_session ok_put simp: session_good_def)
next
  case (W_Attention i v)
  then show ?thesis using assms(1) by (auto intro!: ok_on_session ok_put simp: session_good_def)
next
  case (W_Closing i closing)
  then show ?thesis using assms(1) by (auto intro!: ok_on_session ok_put simp: session_good_def)
next
  case (W_Remove i)
  then show ?thesis using remove_ok assms(1) by simp
next
  case W_Clear
  then show ?thesis using initial_ok by simp
qed

lemma visible_ok:
  assumes "workbench_ok s"
  shows "distinct (visibleSessionIds s) \<and> set (visibleSessionIds s) \<subseteq> set (wb_order s) \<and> length (visibleSessionIds s) \<le> 2 \<and>
    (wb_activeId s = None \<longleftrightarrow> wb_order s = []) \<and> (\<forall>i. wb_activeId s = Some i \<longrightarrow> i \<in> set (visibleSessionIds s))"
proof -
  have ok: "layout_ok s" "[] \<notin> set (wb_order s)" using assms by (simp_all add: workbench_ok_def table_ok_def)
  show ?thesis
  proof (cases "wb_layout s")
    case Single
    show ?thesis
    proof (cases "wb_activeId s")
      case None
      then show ?thesis using ok Single by (simp add: layout_single visibleSessionIds_def)
    next
      case (Some a)
      then have "a \<in> set (wb_order s)" "a \<noteq> []" using ok Single by (auto simp: layout_single)
      then show ?thesis using ok Single Some by (auto simp: layout_single visibleSessionIds_def)
    qed
  next
    case Split
    then obtain a b where "wb_panes s = (Some a, Some b)" "a \<noteq> b" "a \<in> set (wb_order s)" "b \<in> set (wb_order s)"
        "wb_activeId s = pane_of (wb_focused s) (Some a, Some b)"
      using ok(1) by (auto simp: layout_split)
    moreover from this have "a \<noteq> []" "b \<noteq> []" using ok(2) by auto
    ultimately show ?thesis using Split by (cases "wb_focused s") (auto simp: visibleSessionIds_def)
  qed
qed

definition dispatch_all :: "'c workbench_action list \<Rightarrow> 'c workbench" where
  "dispatch_all acts = fold workbenchReducer acts initialWorkbench"

lemma dispatch_ok: "list_all action_ok acts \<Longrightarrow> workbench_ok (dispatch_all acts)"
proof -
  have "list_all action_ok acts \<Longrightarrow> workbench_ok s \<Longrightarrow> workbench_ok (fold workbenchReducer acts s)" for s
    by (induction acts arbitrary: s) (auto intro: reducer_ok)
  then show "list_all action_ok acts \<Longrightarrow> workbench_ok (dispatch_all acts)" using initial_ok by (simp add: dispatch_all_def)
qed

text \<open>
  C19: After any actions, the visible panes show different open sessions, the active one among them; there is an active session
  exactly if a tab is open; no log exceeds 200 entries; and no session that is over is to be connected.
\<close>

theorem workbench_consistent:
  assumes "list_all action_ok acts"
  shows "let s = dispatch_all acts in
    distinct (visibleSessionIds s) \<and> set (visibleSessionIds s) \<subseteq> set (wb_order s) \<and> length (visibleSessionIds s) \<le> 2 \<and>
    (wb_activeId s = None \<longleftrightarrow> wb_order s = []) \<and> (\<forall>i. wb_activeId s = Some i \<longrightarrow> i \<in> set (visibleSessionIds s)) \<and>
    distinct (wb_order s) \<and> set (wb_order s) = prod.fst ` set (wb_sessions s) \<and>
    (\<forall>i x. (i, x) \<in> set (wb_sessions s) \<longrightarrow> length (ws_events x) \<le> 200 \<and> \<not> (ws_connectRequested x \<and> \<not> isSessionRunning x))"
proof -
  let ?s = "dispatch_all acts"
  have ok: "workbench_ok ?s" by (rule dispatch_ok [OF assms])
  then have t: "distinct (map prod.fst (wb_sessions ?s))" "dom (map_of (wb_sessions ?s)) = set (wb_order ?s)" "distinct (wb_order ?s)"
      "[] \<notin> set (wb_order ?s)" "\<And>i x. map_of (wb_sessions ?s) i = Some x \<Longrightarrow> session_good i x"
    by (simp_all add: workbench_ok_def table_ok_def)
  note visible = visible_ok [OF ok]
  have "set (wb_order ?s) = prod.fst ` set (wb_sessions ?s)" using t(2) by (simp add: dom_map_of_conv_image_fst)
  moreover have "length (ws_events x) \<le> 200 \<and> \<not> (ws_connectRequested x \<and> \<not> isSessionRunning x)" if "(i, x) \<in> set (wb_sessions ?s)" for i x
    using t(5) [of i x] map_of_is_SomeI [OF t(1) that] by (auto simp: session_good_def is_terminal_state_def isSessionRunning_def)
  ultimately show ?thesis using t(3) visible by (simp add: Let_def)
qed

text \<open>
  C38: A state, message, channel or pause that arrives for an attempt that has been replaced, or for a tab that was closed,
  changes nothing.
\<close>

theorem stale_attempt_ignored:
  assumes "\<forall>x. map_of (wb_sessions s) i = Some x \<longrightarrow> ws_attemptId x \<noteq> attemptId"
  shows "workbenchReducer (W_State i attemptId st) s = s \<and> workbenchReducer (W_Message i attemptId m receivedAt newId) s = s \<and>
    workbenchReducer (W_Channel i attemptId c) s = s \<and> workbenchReducer (W_Pause i attemptId p) s = s"
  using assms by (auto simp: on_attempt_def on_session_def split: option.splits)

end
