(* ===== verification/Batch_Command.thy ===== *)
theory Batch_Command
  imports Workbench_Facts "HOL-Library.Multiset"
begin

text \<open>
  Commands sent to several terminals at once (\<open>apps/web/src/lib/batch-command.ts\<close>), the sender of terminal input
  (\<open>session-channel.ts\<close>), the queue of prompts (\<open>prompt-queue.ts\<close>) and the states of a connection
  (\<open>connection-state.ts\<close>). What a channel does with an input is its own: it accepts it, refuses it or throws.
\<close>

section \<open>Channels\<close>

datatype send_result = Accepted | Refused_Input | Throws

record channel =
  ch_sessionId :: string
  ch_attemptId :: string
  ch_open :: bool
  ch_input :: "string \<Rightarrow> send_result"

text \<open>\<open>createTerminalInputSender\<close>: the number of the next input, which counts those that were accepted.\<close>

definition send_numbered :: "(nat \<Rightarrow> string \<Rightarrow> bool) \<Rightarrow> string \<Rightarrow> nat \<Rightarrow> nat \<times> (nat \<times> string) option" where
  "send_numbered send data n = (if send n data then (n + 1, Some (n, data)) else (n, None))"

fun send_inputs :: "(nat \<Rightarrow> string \<Rightarrow> bool) \<Rightarrow> string list \<Rightarrow> nat \<Rightarrow> (nat \<times> string) list" where
  "send_inputs send [] n = []"
| "send_inputs send (d # ds) n =
     (case send_numbered send d n of (m, sent) \<Rightarrow> (case sent of None \<Rightarrow> [] | Some x \<Rightarrow> [x]) @ send_inputs send ds m)"

definition matchesChannelIdentity :: "channel \<Rightarrow> string \<Rightarrow> string \<Rightarrow> bool" where
  "matchesChannelIdentity c sessionId attemptId \<longleftrightarrow> ch_sessionId c = sessionId \<and> ch_attemptId c = attemptId"

section \<open>Connection states\<close>

definition isSessionConnecting :: "string \<Rightarrow> bool" where
  "isSessionConnecting st \<longleftrightarrow> st \<in> set [''authorizing'', ''tcp_connecting'', ''ssh_handshake'', ''host_confirmation'', ''authenticating'']"

definition isSessionBusy :: "string \<Rightarrow> bool" where
  "isSessionBusy st \<longleftrightarrow> isSessionConnecting st \<or> st = ''connected'' \<or> st = ''disconnecting''"

section \<open>Prompts\<close>

record prompt =
  pq_id :: string
  pq_hostKey :: bool
  pq_session :: string
  pq_attempt :: string

definition enqueuePrompt :: "prompt list \<Rightarrow> prompt \<Rightarrow> prompt list" where
  "enqueuePrompt queue p =
     (if list_ex (\<lambda>i. pq_hostKey i = pq_hostKey p \<and> pq_session i = pq_session p \<and> pq_attempt i = pq_attempt p) queue
      then queue else queue @ [p])"

definition removePrompt :: "prompt list \<Rightarrow> string \<Rightarrow> prompt list" where
  "removePrompt queue i = filter (\<lambda>p. pq_id p \<noteq> i) queue"

definition removeSessionPrompts :: "prompt list \<Rightarrow> string \<Rightarrow> string option \<Rightarrow> prompt list" where
  "removeSessionPrompts queue s current =
     filter (\<lambda>p. pq_session p \<noteq> s \<or> (current \<noteq> None \<and> Some (pq_attempt p) = current)) queue"

definition prompt_key :: "prompt \<Rightarrow> bool \<times> string \<times> string" where
  "prompt_key p = (pq_hostKey p, pq_session p, pq_attempt p)"

datatype prompt_call = Enqueue prompt | Remove_Prompt string | Remove_Session_Prompts string "string option"

fun prompt_act :: "prompt_call \<Rightarrow> prompt list \<Rightarrow> prompt list" where
  "prompt_act (Enqueue p) q = enqueuePrompt q p"
| "prompt_act (Remove_Prompt i) q = removePrompt q i"
| "prompt_act (Remove_Session_Prompts s a) q = removeSessionPrompts q s a"

text \<open>A session attempt is never asked the same question twice at once.\<close>

lemma prompts_unique: "distinct (map prompt_key (fold prompt_act calls []))"
proof -
  have "distinct (map prompt_key q) \<Longrightarrow> distinct (map prompt_key (prompt_act c q))" for c q
    by (cases c) (auto simp: enqueuePrompt_def removePrompt_def removeSessionPrompts_def prompt_key_def list_ex_iff distinct_map_filter)
  then have "distinct (map prompt_key q) \<Longrightarrow> distinct (map prompt_key (fold prompt_act calls q))" for q
    by (induction calls arbitrary: q) auto
  then show ?thesis by simp
qed

section \<open>Batch commands\<close>

definition MAX_BATCH_COMMAND_LENGTH :: nat where "MAX_BATCH_COMMAND_LENGTH = 2048"

record batch_target =
  bt_id :: string
  bt_attemptId :: string
  bt_sessionId :: string
  bt_label :: string
  bt_endpoint :: string

definition batchCommandTargetKey :: "batch_target \<Rightarrow> string" where
  "batchCommandTargetKey t = bt_id t @ '':'' @ bt_attemptId t @ '':'' @ bt_sessionId t"

definition terminalCommandInput :: "string \<Rightarrow> string option" where
  "terminalCommandInput command =
     (if trim command = [] \<or> length command > MAX_BATCH_COMMAND_LENGTH \<or> list_ex (\<lambda>c. cu c = 10 \<or> cu c = 13) command
      then None else Some (command @ [char_of (13 :: nat)]))"

definition connectedBatchCommandTargets :: "channel workbench \<Rightarrow> batch_target list" where
  "connectedBatchCommandTargets s = concat (map (\<lambda>i.
     case map_of (wb_sessions s) i of
       None \<Rightarrow> []
     | Some x \<Rightarrow>
         (case ws_channel x of
            None \<Rightarrow> []
          | Some c \<Rightarrow>
              if ws_state x \<noteq> ''connected'' \<or> \<not> ch_open c \<or> ch_attemptId c \<noteq> ws_attemptId x then []
              else [\<lparr>bt_id = i, bt_attemptId = ws_attemptId x, bt_sessionId = ch_sessionId c,
                bt_label = default_to (pv_name (ws_profile x)) (sessionDisplayName s i),
                bt_endpoint = pv_username (ws_profile x) @ ''@'' @ pv_host (ws_profile x) @ '':'' @ show_int (pv_port (ws_profile x))\<rparr>]))
     (wb_order s))"

text \<open>The values of a \<open>Map\<close> from keys to targets: the place of the first with a key, the value of the last.\<close>

definition unique_targets :: "batch_target list \<Rightarrow> batch_target list" where
  "unique_targets ts = map prod.snd (foldl (\<lambda>m t. AList.update (batchCommandTargetKey t) t m) [] ts)"

definition target_channel :: "channel workbench \<Rightarrow> batch_target \<Rightarrow> channel option" where
  "target_channel s t =
     (case map_of (wb_sessions s) (bt_id t) of
        None \<Rightarrow> None
      | Some x \<Rightarrow>
          (case ws_channel x of
             None \<Rightarrow> None
           | Some c \<Rightarrow>
               if ws_state x \<noteq> ''connected'' \<or> ws_attemptId x \<noteq> bt_attemptId t \<or> ch_attemptId c \<noteq> bt_attemptId t
                 \<or> ch_sessionId c \<noteq> bt_sessionId t \<or> \<not> ch_open c then None else Some c))"

text \<open>The inputs handed to channels, and the targets that count as sent and as skipped.\<close>

record batch_result =
  br_inputs :: "(batch_target \<times> string) list"
  br_sent :: "batch_target list"
  br_skipped :: "batch_target list"

definition send_target :: "channel workbench \<Rightarrow> string option \<Rightarrow> batch_result \<Rightarrow> batch_target \<Rightarrow> batch_result" where
  "send_target s input r t =
     (case (input, target_channel s t) of
        (Some text, Some c) \<Rightarrow>
          (case ch_input c text of
             Accepted \<Rightarrow> r\<lparr>br_inputs := br_inputs r @ [(t, text)], br_sent := br_sent r @ [t]\<rparr>
           | _ \<Rightarrow> r\<lparr>br_inputs := br_inputs r @ [(t, text)], br_skipped := br_skipped r @ [t]\<rparr>)
      | _ \<Rightarrow> r\<lparr>br_skipped := br_skipped r @ [t]\<rparr>)"

definition sendBatchCommand :: "channel workbench \<Rightarrow> batch_target list \<Rightarrow> string \<Rightarrow> batch_result" where
  "sendBatchCommand s targets command =
     foldl (send_target s (terminalCommandInput command)) \<lparr>br_inputs = [], br_sent = [], br_skipped = []\<rparr> (unique_targets targets)"

section \<open>What is sent, and where\<close>

definition keyed :: "(string \<times> batch_target) list \<Rightarrow> bool" where
  "keyed m \<longleftrightarrow> distinct (map prod.fst m) \<and> list_all (\<lambda>(k, t). k = batchCommandTargetKey t) m"

lemma keyed_update: "keyed m \<Longrightarrow> keyed (AList.update (batchCommandTargetKey t) t m)"
proof -
  have "list_all (\<lambda>(k, t). k = batchCommandTargetKey t) m \<Longrightarrow>
      list_all (\<lambda>(k, t). k = batchCommandTargetKey t) (AList.update (batchCommandTargetKey t) t m)"
    by (induction m) auto
  then show "keyed m \<Longrightarrow> keyed (AList.update (batchCommandTargetKey t) t m)" by (simp add: keyed_def distinct_update)
qed

lemma unique_targets_keys:
  "distinct (map batchCommandTargetKey (unique_targets ts)) \<and> set (unique_targets ts) \<subseteq> set ts"
proof -
  let ?f = "foldl (\<lambda>m t. AList.update (batchCommandTargetKey t) t m)"
  have "keyed m \<Longrightarrow> keyed (?f m ts)" for m
    by (induction ts arbitrary: m) (simp_all add: keyed_update)
  then have "keyed (?f [] ts)" by (simp add: keyed_def)
  then have "distinct (map prod.fst (?f [] ts))" "list_all (\<lambda>(k, t). k = batchCommandTargetKey t) (?f [] ts)"
    by (simp_all add: keyed_def)
  moreover from this have "map batchCommandTargetKey (unique_targets ts) = map prod.fst (?f [] ts)"
    by (auto simp: unique_targets_def list_all_iff)
  moreover have "prod.snd ` set (?f m ts) \<subseteq> prod.snd ` set m \<union> set ts" for m
  proof (induction ts arbitrary: m)
    case (Cons t ts)
    have "prod.snd ` set (AList.update k t m) \<subseteq> insert t (prod.snd ` set m)" for k
      by (induction m) auto
    from this [of "batchCommandTargetKey t"] Cons.IH [of "AList.update (batchCommandTargetKey t) t m"] show ?case
      by (simp only: foldl_Cons list.simps) blast
  qed simp
  from this [of "[]"] have "set (unique_targets ts) \<subseteq> set ts" by (simp add: unique_targets_def)
  ultimately show ?thesis by simp
qed

lemma send_targets:
  "foldl (send_target s input) r ts = \<lparr>
     br_inputs = br_inputs r @ concat (map (\<lambda>t. case (input, target_channel s t) of (Some text, Some c) \<Rightarrow> [(t, text)] | _ \<Rightarrow> []) ts),
     br_sent = br_sent r @ filter (\<lambda>t. case (input, target_channel s t) of (Some text, Some c) \<Rightarrow> ch_input c text = Accepted | _ \<Rightarrow> False) ts,
     br_skipped = br_skipped r @ filter (\<lambda>t. \<not> (case (input, target_channel s t) of (Some text, Some c) \<Rightarrow> ch_input c text = Accepted | _ \<Rightarrow> False)) ts\<rparr>"
proof (induction ts arbitrary: r)
  case (Cons t ts)
  show ?case unfolding foldl_Cons Cons.IH
    by (auto simp: send_target_def split: option.splits send_result.splits)
qed simp

text \<open>
  What identifies a terminal: tab, attempt and session. The keys of targets join the three with colons, which identifiers
  do not contain.
\<close>

definition chosen_terminal :: "batch_target \<Rightarrow> string \<times> string \<times> string" where
  "chosen_terminal t = (bt_id t, bt_attemptId t, bt_sessionId t)"

definition plain_ids :: "batch_target list \<Rightarrow> bool" where
  "plain_ids ts \<longleftrightarrow> list_all (\<lambda>t. CHR '':'' \<notin> set (bt_id t) \<and> CHR '':'' \<notin> set (bt_attemptId t)) ts"

lemma colon_split: "CHR '':'' \<notin> set a \<Longrightarrow> CHR '':'' \<notin> set b \<Longrightarrow> a @ CHR '':'' # x = b @ CHR '':'' # y \<longleftrightarrow> a = b \<and> x = y"
proof (induction a arbitrary: b)
  case Nil
  then show ?case by (cases b) auto
next
  case (Cons c a)
  then show ?case by (cases b) auto
qed

lemma key_terminal:
  assumes "plain_ids ts" "t \<in> set ts" "u \<in> set ts"
  shows "batchCommandTargetKey t = batchCommandTargetKey u \<longleftrightarrow> chosen_terminal t = chosen_terminal u"
proof -
  have "CHR '':'' \<notin> set (bt_id t)" "CHR '':'' \<notin> set (bt_id u)" "CHR '':'' \<notin> set (bt_attemptId t)" "CHR '':'' \<notin> set (bt_attemptId u)"
    using assms by (auto simp: plain_ids_def list_all_iff)
  then show ?thesis
    by (simp add: batchCommandTargetKey_def chosen_terminal_def colon_split)
qed

lemma unique_targets_all: "batchCommandTargetKey ` set (unique_targets ts) = batchCommandTargetKey ` set ts"
proof -
  let ?f = "foldl (\<lambda>m t. AList.update (batchCommandTargetKey t) t m)"
  have "keyed m \<Longrightarrow> batchCommandTargetKey ` prod.snd ` set (?f m ts) = batchCommandTargetKey ` (prod.snd ` set m \<union> set ts)" for m
  proof (induction ts arbitrary: m)
    case (Cons t ts)
    have keys: "batchCommandTargetKey ` prod.snd ` set k = prod.fst ` set k" if "keyed k" for k
      using that by (force simp: keyed_def list_all_iff)
    have "batchCommandTargetKey ` prod.snd ` set (AList.update (batchCommandTargetKey t) t m) =
        insert (batchCommandTargetKey t) (batchCommandTargetKey ` prod.snd ` set m)"
      unfolding keys [OF keyed_update [OF Cons.prems]] keys [OF Cons.prems] by (simp add: dom_update flip: dom_map_of_conv_image_fst) (simp add: update_conv')
    then show ?case using Cons.IH [OF keyed_update [OF Cons.prems]] by (simp add: image_Un)
  qed simp
  from this [of "[]"] show ?thesis by (simp add: unique_targets_def keyed_def)
qed

text \<open>Each chosen terminal is reported once, under one of the targets that chose it.\<close>

lemma unique_targets_terminals:
  assumes "plain_ids ts"
  shows "distinct (map chosen_terminal (unique_targets ts))" "chosen_terminal ` set (unique_targets ts) = chosen_terminal ` set ts"
proof -
  note keys = unique_targets_keys [of ts]
  have sub: "t \<in> set ts" if "t \<in> set (unique_targets ts)" for t using that keys by blast
  have "inj_on chosen_terminal (set (unique_targets ts))"
    using keys key_terminal [OF assms sub sub] by (auto simp: distinct_map inj_on_def)
  then show "distinct (map chosen_terminal (unique_targets ts))" using keys by (auto simp: distinct_map)
  have "\<exists>u \<in> set (unique_targets ts). chosen_terminal u = chosen_terminal t" if t: "t \<in> set ts" for t
  proof -
    have "batchCommandTargetKey t \<in> batchCommandTargetKey ` set (unique_targets ts)" using t by (simp add: unique_targets_all)
    then obtain u where "u \<in> set (unique_targets ts)" "batchCommandTargetKey t = batchCommandTargetKey u" by blast
    then show ?thesis using key_terminal [OF assms t sub] by metis
  qed
  then show "chosen_terminal ` set (unique_targets ts) = chosen_terminal ` set ts" using sub by (auto simp: image_iff) metis
qed

text \<open>The terminal is still the connected session it was when it was chosen.\<close>

definition still_connected :: "channel workbench \<Rightarrow> batch_target \<Rightarrow> channel \<Rightarrow> bool" where
  "still_connected s t c \<longleftrightarrow> (\<exists>x. map_of (wb_sessions s) (bt_id t) = Some x \<and> ws_channel x = Some c \<and> ws_state x = ''connected'' \<and>
     ws_attemptId x = bt_attemptId t \<and> ch_open c \<and> matchesChannelIdentity c (bt_sessionId t) (bt_attemptId t))"

definition one_line :: "string \<Rightarrow> bool" where
  "one_line command \<longleftrightarrow> trim command \<noteq> [] \<and> length command \<le> MAX_BATCH_COMMAND_LENGTH \<and> list_all (\<lambda>c. cu c \<noteq> 10 \<and> cu c \<noteq> 13) command"

lemma target_channel_iff: "target_channel s t = Some c \<longleftrightarrow> still_connected s t c"
  by (auto simp: target_channel_def still_connected_def matchesChannelIdentity_def split: option.splits)

lemma command_input_iff: "terminalCommandInput command = Some v \<longleftrightarrow> one_line command \<and> v = command @ [char_of (13 :: nat)]"
  by (auto simp: terminalCommandInput_def one_line_def list_ex_iff list_all_iff)

text \<open>
  C20: A batch command that is one line of at most 2048 characters goes, once and ended by a single return, to exactly those
  of the chosen terminals that are still the connected sessions they were when they were chosen; any other command goes
  nowhere. Every chosen terminal is reported exactly once: as sent if its channel accepted the command, else as skipped.
  (Identifiers contain no colon.)
\<close>

theorem batch_command_reaches_its_targets:
  assumes "plain_ids targets" "r = sendBatchCommand s targets command"
  shows "distinct (map chosen_terminal (br_sent r @ br_skipped r)) \<and>
    chosen_terminal ` set (br_sent r @ br_skipped r) = chosen_terminal ` set targets \<and> set (br_sent r @ br_skipped r) \<subseteq> set targets \<and>
    (\<forall>t text. (t, text) \<in> set (br_inputs r) \<longleftrightarrow> t \<in> set (br_sent r @ br_skipped r) \<and> one_line command \<and>
      text = command @ [char_of (13 :: nat)] \<and> (\<exists>c. still_connected s t c)) \<and>
    distinct (map (\<lambda>(t, text). chosen_terminal t) (br_inputs r)) \<and>
    (\<forall>t. t \<in> set (br_sent r) \<longleftrightarrow> (\<exists>text c. (t, text) \<in> set (br_inputs r) \<and> still_connected s t c \<and> ch_input c text = Accepted))"
proof -
  let ?i = "terminalCommandInput command"
  let ?us = "unique_targets targets"
  let ?ins = "\<lambda>t. case (?i, target_channel s t) of (Some text, Some c) \<Rightarrow> [(t, text)] | _ \<Rightarrow> []"
  let ?ok = "\<lambda>t. case (?i, target_channel s t) of (Some text, Some c) \<Rightarrow> ch_input c text = Accepted | _ \<Rightarrow> False"
  have r: "br_inputs r = concat (map ?ins ?us)" "br_sent r = filter ?ok ?us" "br_skipped r = filter (\<lambda>t. \<not> ?ok t) ?us"
    by (simp_all add: assms(2) sendBatchCommand_def send_targets)
  note us = unique_targets_terminals [OF assms(1)]
  have all: "mset (br_sent r @ br_skipped r) = mset ?us" unfolding r(2,3) by (simp flip: multiset_partition)
  then have set: "set (br_sent r @ br_skipped r) = set ?us" by (rule mset_eq_setD)
  have "mset (map chosen_terminal (br_sent r @ br_skipped r)) = mset (map chosen_terminal ?us)" using all by (simp only: mset_map)
  then have "distinct (map chosen_terminal (br_sent r @ br_skipped r))" using us(1) mset_eq_imp_distinct_iff by blast
  moreover have ins: "(t, v) \<in> set (br_inputs r) \<longleftrightarrow> t \<in> set ?us \<and> ?i = Some v \<and> (\<exists>c. target_channel s t = Some c)" for t v
    unfolding r(1) by (cases ?i; cases "target_channel s t") (auto split: option.splits)
  moreover have "map (\<lambda>(t, text). chosen_terminal t) (concat (map ?ins ts)) = map chosen_terminal (filter (\<lambda>t. ?i \<noteq> None \<and> target_channel s t \<noteq> None) ts)" for ts
    by (induction ts) (auto split: option.splits)
  then have "distinct (map (\<lambda>(t, text). chosen_terminal t) (br_inputs r))" using us(1) by (simp add: r(1) distinct_map_filter)
  moreover have "t \<in> set (br_sent r) \<longleftrightarrow> (\<exists>text c. (t, text) \<in> set (br_inputs r) \<and> target_channel s t = Some c \<and> ch_input c text = Accepted)" for t
    unfolding ins unfolding r(2) by (auto split: option.splits)
  ultimately show ?thesis using us(2) unique_targets_keys [of targets] unfolding set target_channel_iff command_input_iff by blast
qed

text \<open>
  The inputs that a terminal's channel accepts are numbered consecutively, whichever it refuses in between.
\<close>

theorem inputs_numbered_without_gap:
  "map prod.fst (send_inputs send ds n) = [n..<n + length (send_inputs send ds n)]"
proof (induction ds arbitrary: n)
  case (Cons d ds)
  show ?case using Cons.IH [of n] Cons.IH [of "n + 1"] by (simp add: send_numbered_def upt_conv_Cons del: upt_Suc)
qed simp

section \<open>A concrete batch\<close>

definition demo_view :: profile_view where
  "demo_view = \<lparr>pv_id = ''p'', pv_name = ''web'', pv_host = ''h'', pv_port = 22, pv_username = ''r'', pv_authenticationMethod = ''password'',
     pv_credentialPersistence = ''saved'', pv_notes = [], pv_initialCommand = None, pv_terminalType = ''xterm'', pv_encoding = ''utf-8'',
     pv_collectHistory = True, pv_hasPassword = True, pv_hasPrivateKey = False, pv_hasPassphrase = False, pv_lastConnectedAt = None,
     pv_lastConnectedUsername = None, pv_lastHostFingerprint = None, pv_createdAt = [], pv_updatedAt = []\<rparr>"

definition demo_channel :: channel where
  "demo_channel = \<lparr>ch_sessionId = ''s'', ch_attemptId = ''1'', ch_open = True, ch_input = (\<lambda>text. Accepted)\<rparr>"

definition demo_workbench :: "channel workbench" where
  "demo_workbench = dispatch_all [W_Open (createWorkbenchSession demo_view True ''a'' ''1'' []), W_State ''a'' ''1'' ''connected'',
     W_Channel ''a'' ''1'' (Some demo_channel), W_Open (createWorkbenchSession demo_view True ''b'' ''2'' [])]"

definition demo_targets :: "batch_target list" where
  "demo_targets = [\<lparr>bt_id = ''a'', bt_attemptId = ''1'', bt_sessionId = ''s'', bt_label = ''web'', bt_endpoint = ''r@h:22''\<rparr>,
     \<lparr>bt_id = ''b'', bt_attemptId = ''2'', bt_sessionId = ''t'', bt_label = ''web'', bt_endpoint = ''r@h:22''\<rparr>]"

lemma batch_command_reaches_its_targets_witness:
  "map bt_id (br_sent (sendBatchCommand demo_workbench demo_targets ''uptime'')) = [''a''] \<and>
    chosen_terminal ` set (br_sent (sendBatchCommand demo_workbench demo_targets ''uptime'') @ br_skipped (sendBatchCommand demo_workbench demo_targets ''uptime''))
      = {(''a'', ''1'', ''s''), (''b'', ''2'', ''t'')}"
proof -
  have sent: "map bt_id (br_sent (sendBatchCommand demo_workbench demo_targets ''uptime'')) = [''a'']" by code_simp
  have "plain_ids demo_targets" by (simp add: plain_ids_def demo_targets_def)
  then have "chosen_terminal ` set (br_sent (sendBatchCommand demo_workbench demo_targets ''uptime'') @ br_skipped (sendBatchCommand demo_workbench demo_targets ''uptime''))
      = chosen_terminal ` set demo_targets"
    by (rule batch_command_reaches_its_targets [OF _ refl, THEN conjunct2, THEN conjunct1])
  moreover have "chosen_terminal ` set demo_targets = {(''a'', ''1'', ''s''), (''b'', ''2'', ''t'')}"
    by (simp add: demo_targets_def chosen_terminal_def)
  ultimately show ?thesis using sent by simp
qed

lemma workbench_consistent_witness:
  "let s = demo_workbench in wb_activeId s = Some ''b'' \<and> ''b'' \<in> set (visibleSessionIds s) \<and> distinct (wb_order s)"
proof -
  have "wb_activeId demo_workbench = Some ''b''" by code_simp
  moreover have ok: "list_all action_ok [W_Open (createWorkbenchSession demo_view True ''a'' ''1'' []), W_State ''a'' ''1'' ''connected'',
     W_Channel ''a'' ''1'' (Some demo_channel), W_Open (createWorkbenchSession demo_view True ''b'' ''2'' [])]"
    by (simp add: action_ok_def) blast
  ultimately show ?thesis using workbench_consistent [OF ok] by (simp add: Let_def demo_workbench_def)
qed

lemma stale_attempt_ignored_witness:
  "workbenchReducer (W_State ''a'' ''0'' ''closed'') demo_workbench = demo_workbench"
proof -
  have "map_option ws_attemptId (map_of (wb_sessions demo_workbench) ''a'') = Some ''1''" by code_simp
  then have "\<forall>x. map_of (wb_sessions demo_workbench) ''a'' = Some x \<longrightarrow> ws_attemptId x \<noteq> ''0''" by auto
  then show ?thesis using stale_attempt_ignored [of demo_workbench "''a''" "''0''"] by blast
qed

text \<open>Closing the active tab activates another one, whose mark stays although it is shown now.\<close>

lemma attention_survives_activation:
  "let s = workbenchReducer (W_Remove ''b'') (workbenchReducer (W_Attention ''a'' Attention_Error) demo_workbench) in
    wb_activeId s = Some ''a'' \<and> map_option ws_attention (map_of (wb_sessions s) ''a'') = Some Attention_Error"
  by code_simp

end
