(* ===== verification/Connector_Handshake.thy ===== *)
theory Connector_Handshake
  imports Worker_Config Network Auth_Store
begin

text \<open>
  How the Worker proves itself to the Tailnet Connector: the handshake and the text that is signed
  (\<open>packages/contracts/src/tailnet.ts\<close>), the request of the Worker (\<open>apps/worker/src/ssh/tailnet-connector-transport.ts\<close>) and
  the check of the connector (\<open>apps/tailnet-connector/src/auth.ts\<close>). HMAC-SHA-256 and zod's \<open>uuid\<close> are arguments.
\<close>

section \<open>The handshake\<close>

definition TAILNET_CONNECTOR_PROTOCOL_VERSION :: int where "TAILNET_CONNECTOR_PROTOCOL_VERSION = 1"

record handshake =
  hs_version :: int
  hs_sessionId :: string
  hs_host :: string
  hs_port :: int
  hs_expiresAt :: int
  hs_nonce :: string

definition is_nonce :: "string \<Rightarrow> bool" where
  "is_nonce s \<longleftrightarrow> length s = 32 \<and> list_all (\<lambda>c. is_alnum c \<or> c = CHR ''_'' \<or> c = CHR ''-'') s"

text \<open>Whole numbers are safe integers for zod's \<open>int()\<close>.\<close>

definition TailnetConnectorHandshakeSchema :: "(string \<Rightarrow> bool) \<Rightarrow> handshake \<Rightarrow> bool" where
  "TailnetConnectorHandshakeSchema uuid h \<longleftrightarrow>
     hs_version h = TAILNET_CONNECTOR_PROTOCOL_VERSION \<and> uuid (hs_sessionId h) \<and> 1 \<le> length (hs_host h) \<and> length (hs_host h) \<le> 253 \<and>
     1 \<le> hs_port h \<and> hs_port h \<le> 65535 \<and> 0 < hs_expiresAt h \<and> hs_expiresAt h \<le> max_safe \<and> is_nonce (hs_nonce h)"

definition handshake_json :: "handshake \<Rightarrow> json" where
  "handshake_json h = JArr [JNum (of_int (hs_version h)), JStr (hs_sessionId h), JStr (hs_host h), JNum (of_int (hs_port h)),
     JNum (of_int (hs_expiresAt h)), JStr (hs_nonce h)]"

definition canonicalizeTailnetConnectorHandshake :: "handshake \<Rightarrow> string" where
  "canonicalizeTailnetConnectorHandshake h = the (json_text (handshake_json h))"

section \<open>The Worker's request\<close>

definition CONNECTOR_HANDSHAKE_TTL_MS :: int where "CONNECTOR_HANDSHAKE_TTL_MS = 30000"

record connector_options =
  co_url :: string
  co_hmacKey :: string
  co_sessionId :: string
  co_allowedPorts :: "rat list option"
  co_access :: "(string \<times> string) option"

type_synonym mac = "bytes \<Rightarrow> bytes \<Rightarrow> bytes"

definition signHandshake :: "mac \<Rightarrow> string \<Rightarrow> handshake \<Rightarrow> string throws" where
  "signHandshake mac secret h =
     try_bind (decodeBase64Secret secret (Some 32)) (\<lambda>key.
       Inr (encodeBase64Url (mac key (utf8 (canonicalizeTailnetConnectorHandshake h)))))"

text \<open>The parsed URL with another protocol, as text.\<close>

definition connectorFetchUrl :: "(string \<Rightarrow> url_parts option) \<Rightarrow> (url_parts \<Rightarrow> string) \<Rightarrow> string \<Rightarrow> string throws" where
  "connectorFetchUrl url url_text value =
     (case url value of
        None \<Rightarrow> Inl ''Invalid URL''
      | Some u \<Rightarrow>
          (let u = (if ur_protocol u = ''wss:'' then u\<lparr>ur_protocol := ''https:''\<rparr> else u) in
           if ur_protocol u \<noteq> ''https:'' \<or> ur_username u \<noteq> [] \<or> ur_password u \<noteq> [] \<or> ur_search u \<noteq> [] \<or> ur_hash u \<noteq> []
           then Inl ''Tailnet Connector URL must be secure and must not contain credentials, query, or fragment''
           else Inr (url_text u)))"

text \<open>Header names are compared without case: they are written in lower case here.\<close>

definition handshake_headers :: "handshake \<Rightarrow> string \<Rightarrow> (string \<times> string) list" where
  "handshake_headers h signature =
     [(''upgrade'', ''websocket''), (''x-edgessh-version'', show_int (hs_version h)), (''x-edgessh-session'', hs_sessionId h),
      (''x-edgessh-target-host'', hs_host h), (''x-edgessh-target-port'', show_int (hs_port h)),
      (''x-edgessh-expires-at'', show_int (hs_expiresAt h)), (''x-edgessh-nonce'', hs_nonce h), (''x-edgessh-signature'', signature)]"

datatype connect_error = Connect_Target target_error | Connect_Failed string

definition failed_with :: "string + 'a \<Rightarrow> connect_error + 'a" where
  "failed_with r = map_sum Connect_Failed (\<lambda>x. x) r"

text \<open>\<open>connect\<close> up to the request it sends.\<close>

definition worker_handshake ::
  "(string \<Rightarrow> bool) \<Rightarrow> connector_options \<Rightarrow> string \<Rightarrow> millis \<Rightarrow> string \<Rightarrow> rat \<Rightarrow> connect_error + handshake" where
  "worker_handshake uuid opts nonce now host port =
     (case assertAllowedSshPort port (co_allowedPorts opts) of
        Inl e \<Rightarrow> Inl (Connect_Target e)
      | Inr _ \<Rightarrow>
          (case normalizeHost host of
             Inl e \<Rightarrow> Inl (Connect_Target e)
           | Inr normalizedHost \<Rightarrow>
               (let h = \<lparr>hs_version = TAILNET_CONNECTOR_PROTOCOL_VERSION, hs_sessionId = co_sessionId opts, hs_host = normalizedHost,
                      hs_port = \<lfloor>port\<rfloor>, hs_expiresAt = now + CONNECTOR_HANDSHAKE_TTL_MS, hs_nonce = nonce\<rparr>
                in if TailnetConnectorHandshakeSchema uuid h then Inr h else Inl (Connect_Failed ''Invalid handshake''))))"

definition access_headers :: "connector_options \<Rightarrow> (string \<times> string) list" where
  "access_headers opts =
     (case co_access opts of None \<Rightarrow> [] | Some (i, s) \<Rightarrow> [(''cf-access-client-id'', i), (''cf-access-client-secret'', s)])"

definition worker_request ::
  "mac \<Rightarrow> (string \<Rightarrow> bool) \<Rightarrow> connector_options \<Rightarrow> string \<Rightarrow> millis \<Rightarrow> string \<Rightarrow> rat \<Rightarrow> connect_error + (string \<times> string) list" where
  "worker_request mac uuid opts nonce now host port =
     try_bind (worker_handshake uuid opts nonce now host port) (\<lambda>h.
     try_bind (failed_with (signHandshake mac (co_hmacKey opts) h)) (\<lambda>signature.
       Inr (handshake_headers h signature @ access_headers opts)))"

text \<open>What the request comes to, and what \<open>connect\<close> makes of it.\<close>

datatype upgrade_answer = Fetch_Throws string | Fetch_Aborted | Fetch_Status int bool "string throws"

definition worker_connect ::
  "mac \<Rightarrow> (string \<Rightarrow> bool) \<Rightarrow> (string \<Rightarrow> url_parts option) \<Rightarrow> (url_parts \<Rightarrow> string) \<Rightarrow>
   (string \<Rightarrow> (string \<times> string) list \<Rightarrow> upgrade_answer) \<Rightarrow> connector_options \<Rightarrow> string \<Rightarrow> millis \<Rightarrow> string \<Rightarrow> rat \<Rightarrow> connect_error + unit" where
  "worker_connect mac uuid url url_text fetcher opts nonce now host port =
     try_bind (worker_request mac uuid opts nonce now host port) (\<lambda>headers.
     try_bind (failed_with (connectorFetchUrl url url_text (co_url opts))) (\<lambda>u.
       case fetcher u headers of
         Fetch_Throws m \<Rightarrow> Inl (Connect_Failed m)
       | Fetch_Aborted \<Rightarrow> Inl (Connect_Failed ''Tailnet Connector WebSocket upgrade timed out'')
       | Fetch_Status st webSocket accepted \<Rightarrow>
           if st \<noteq> 101 \<or> \<not> webSocket
           then Inl (Connect_Failed (''Tailnet Connector WebSocket upgrade failed with status '' @ show_int st))
           else failed_with (map_sum (\<lambda>m. m) (\<lambda>_. ()) accepted)))"

section \<open>The connector's check\<close>

definition MAX_CLOCK_SKEW_MS :: int where "MAX_CLOCK_SKEW_MS = 5000"

type_synonym replay_cache = "(string \<times> int) list"

definition live_nonces :: "int \<Rightarrow> replay_cache \<Rightarrow> replay_cache" where
  "live_nonces now entries = filter (\<lambda>(n, e). \<not> e < now) entries"

definition nonce_consume :: "string \<Rightarrow> int \<Rightarrow> int \<Rightarrow> replay_cache \<Rightarrow> replay_cache \<times> bool" where
  "nonce_consume nonce expiresAt now entries =
     (let live = live_nonces now entries in
      if map_of live nonce \<noteq> None then (live, False) else (AList.update nonce expiresAt live, True))"

definition requiredHeader :: "(string \<times> string) list \<Rightarrow> string \<Rightarrow> string throws" where
  "requiredHeader headers name =
     (case map_of headers name of
        None \<Rightarrow> Inl (''Missing '' @ name)
      | Some v \<Rightarrow> if v = [] then Inl (''Missing '' @ name) else Inr v)"

definition parseIntegerHeader :: "(string \<times> string) list \<Rightarrow> string \<Rightarrow> int option throws" where
  "parseIntegerHeader headers name =
     try_bind (requiredHeader headers name) (\<lambda>v.
       Inr (if list_all is_digit v \<and> int (dec_val v) \<le> max_safe then Some (int (dec_val v)) else None))"

definition decodeSignature :: "string \<Rightarrow> bytes" where
  "decodeSignature v = (if is_token v then (case decodeBase64Url v of Inr bs \<Rightarrow> bs | Inl _ \<Rightarrow> []) else [])"

text \<open>A field that is no integer is \<open>null\<close>, which the schema refuses.\<close>

definition read_handshake :: "(string \<Rightarrow> bool) \<Rightarrow> (string \<times> string) list \<Rightarrow> handshake throws" where
  "read_handshake uuid headers =
     try_bind (parseIntegerHeader headers ''x-edgessh-version'') (\<lambda>version.
     try_bind (requiredHeader headers ''x-edgessh-session'') (\<lambda>sessionId.
     try_bind (requiredHeader headers ''x-edgessh-target-host'') (\<lambda>host.
     try_bind (parseIntegerHeader headers ''x-edgessh-target-port'') (\<lambda>port.
     try_bind (parseIntegerHeader headers ''x-edgessh-expires-at'') (\<lambda>expiresAt.
     try_bind (requiredHeader headers ''x-edgessh-nonce'') (\<lambda>nonce.
       case (version, port, expiresAt) of
         (Some v, Some p, Some e) \<Rightarrow>
           (let h = \<lparr>hs_version = v, hs_sessionId = sessionId, hs_host = host, hs_port = p, hs_expiresAt = e, hs_nonce = nonce\<rparr> in
            if TailnetConnectorHandshakeSchema uuid h then Inr h else Inl ''Invalid connector authentication headers'')
       | _ \<Rightarrow> Inl ''Invalid connector authentication headers''))))))"

definition authenticateUpgrade ::
  "mac \<Rightarrow> (string \<Rightarrow> bool) \<Rightarrow> (string \<times> string) list \<Rightarrow> bytes \<Rightarrow> int \<Rightarrow> millis \<Rightarrow> replay_cache \<Rightarrow> replay_cache \<times> handshake throws" where
  "authenticateUpgrade mac uuid headers key authWindowMs now cache =
     (case try_bind (requiredHeader headers ''x-edgessh-signature'') (\<lambda>signature.
           try_bind (read_handshake uuid headers) (\<lambda>h.
             if hs_expiresAt h < now \<or> hs_expiresAt h > now + authWindowMs + MAX_CLOCK_SKEW_MS
             then Inl ''Connector authentication has expired''
             else if decodeSignature signature \<noteq> mac key (utf8 (canonicalizeTailnetConnectorHandshake h))
             then Inl ''Invalid connector signature''
             else Inr h)) of
        Inl m \<Rightarrow> (cache, Inl m)
      | Inr h \<Rightarrow>
          (case nonce_consume (hs_nonce h) (hs_expiresAt h) now cache of
             (cache', True) \<Rightarrow> (cache', Inr h)
           | (cache', False) \<Rightarrow> (cache', Inl ''Connector authentication was replayed'')))"

section \<open>What a signature binds\<close>

lemma schema_safe:
  assumes "TailnetConnectorHandshakeSchema uuid h"
  shows "is_safe_integer (of_int (hs_version h))" "is_safe_integer (of_int (hs_port h))" "is_safe_integer (of_int (hs_expiresAt h))"
  using assms by (auto simp: TailnetConnectorHandshakeSchema_def TAILNET_CONNECTOR_PROTOCOL_VERSION_def is_safe_integer_def max_safe_def)

lemma canonical_text:
  assumes "TailnetConnectorHandshakeSchema uuid h"
  shows "json_text (handshake_json h) = Some (canonicalizeTailnetConnectorHandshake h)"
  using schema_safe [OF assms] by (simp add: canonicalizeTailnetConnectorHandshake_def handshake_json_def)

lemma canonical_inject:
  assumes "TailnetConnectorHandshakeSchema uuid h" "TailnetConnectorHandshakeSchema uuid k"
    "canonicalizeTailnetConnectorHandshake h = canonicalizeTailnetConnectorHandshake k"
  shows "h = k"
proof -
  have ok: "json_ok (handshake_json x)" for x by (simp add: handshake_json_def)
  have "handshake_json h = handshake_json k"
    using json_parse_text [OF ok canonical_text [OF assms(1)]] json_parse_text [OF ok canonical_text [OF assms(2)]] assms(3) by simp
  then show ?thesis by (simp add: handshake_json_def)
qed

lemma show_int_nonneg: "0 \<le> n \<Longrightarrow> show_int n = show_nat (nat n)"
  by (simp add: show_int_def)

lemma integer_header_reads_back:
  assumes "map_of headers name = Some (show_int n)" "0 \<le> n" "n \<le> max_safe"
  shows "parseIntegerHeader headers name = Inr (Some n)"
  using assms by (simp add: parseIntegerHeader_def requiredHeader_def show_int_nonneg show_nat_digits)

lemma required_header: "map_of headers name = Some v \<Longrightarrow> v \<noteq> [] \<Longrightarrow> requiredHeader headers name = Inr v"
  by (simp add: requiredHeader_def)

lemma token_of_32_bytes:
  assumes "length bs = 32"
  shows "is_token (encodeBase64Url bs)"
proof -
  have "length (encodeBase64Url bs) = 43"
    using assms by (simp add: encodeBase64Url_eq b64_digits_def length_sextets)
  then show ?thesis using is_base64url_encode [of bs] by (simp add: is_token_def is_base64url_def)
qed

lemma decodeSignature_encode: "length bs = 32 \<Longrightarrow> decodeSignature (encodeBase64Url bs) = bs"
  by (simp add: decodeSignature_def token_of_32_bytes)

text \<open>What the Worker writes into the headers is what the connector reads.\<close>

lemma handshake_reads_back:
  assumes "TailnetConnectorHandshakeSchema uuid h" "\<not> uuid []"
  shows "read_handshake uuid (handshake_headers h signature @ access) = Inr h"
proof -
  let ?hs = "handshake_headers h signature @ access"
  have ok: "hs_version h = 1" "hs_sessionId h \<noteq> []" "hs_host h \<noteq> []" "1 \<le> hs_port h" "hs_port h \<le> 65535" "0 < hs_expiresAt h"
    "hs_expiresAt h \<le> max_safe" "hs_nonce h \<noteq> []"
    using assms by (auto simp: TailnetConnectorHandshakeSchema_def TAILNET_CONNECTOR_PROTOCOL_VERSION_def is_nonce_def)
  have m: "map_of ?hs ''x-edgessh-version'' = Some (show_int (hs_version h))" "map_of ?hs ''x-edgessh-session'' = Some (hs_sessionId h)"
    "map_of ?hs ''x-edgessh-target-host'' = Some (hs_host h)" "map_of ?hs ''x-edgessh-target-port'' = Some (show_int (hs_port h))"
    "map_of ?hs ''x-edgessh-expires-at'' = Some (show_int (hs_expiresAt h))" "map_of ?hs ''x-edgessh-nonce'' = Some (hs_nonce h)"
    by (simp_all add: handshake_headers_def)
  have "parseIntegerHeader ?hs ''x-edgessh-version'' = Inr (Some (hs_version h))"
    using ok(1) by (intro integer_header_reads_back [OF m(1)]) (simp_all add: max_safe_def)
  moreover have "parseIntegerHeader ?hs ''x-edgessh-target-port'' = Inr (Some (hs_port h))"
    using ok(4,5) by (intro integer_header_reads_back [OF m(4)]) (simp_all add: max_safe_def)
  moreover have "parseIntegerHeader ?hs ''x-edgessh-expires-at'' = Inr (Some (hs_expiresAt h))"
    using ok(6,7) by (intro integer_header_reads_back [OF m(5)]) simp_all
  ultimately show ?thesis
    using required_header [OF m(2) ok(2)] required_header [OF m(3) ok(3)] required_header [OF m(6) ok(8)] assms(1)
    by (cases h) (simp add: read_handshake_def Let_def)
qed

section \<open>The Worker's requests are accepted\<close>

lemma worker_handshake_ok:
  "worker_handshake uuid opts nonce now host port = Inr h \<Longrightarrow> TailnetConnectorHandshakeSchema uuid h \<and> normalizeHost host = Inr (hs_host h) \<and>
    of_int (hs_port h) = port \<and> hs_expiresAt h = now + CONNECTOR_HANDSHAKE_TTL_MS \<and> hs_nonce h = nonce \<and> hs_sessionId h = co_sessionId opts"
  by (auto simp: worker_handshake_def assertAllowedSshPort_def is_safe_integer_def is_integer_def Let_def split: sum.splits if_splits)

lemma authenticate_signed:
  assumes "TailnetConnectorHandshakeSchema uuid h" "\<And>k m. length (mac k m) = 32" "\<not> uuid []" "now \<le> hs_expiresAt h"
    "hs_expiresAt h \<le> now + authWindowMs + MAX_CLOCK_SKEW_MS" "map_of (live_nonces now cache) (hs_nonce h) = None"
  shows "authenticateUpgrade mac uuid
      (handshake_headers h (encodeBase64Url (mac key (utf8 (canonicalizeTailnetConnectorHandshake h)))) @ access) key authWindowMs now cache =
    (AList.update (hs_nonce h) (hs_expiresAt h) (live_nonces now cache), Inr h)"
proof -
  let ?s = "encodeBase64Url (mac key (utf8 (canonicalizeTailnetConnectorHandshake h)))"
  have "is_token ?s" by (rule token_of_32_bytes [OF assms(2)])
  then have "?s \<noteq> []" by (cases ?s) (simp_all add: is_token_def)
  then have "requiredHeader (handshake_headers h ?s @ access) ''x-edgessh-signature'' = Inr ?s"
    by (intro required_header) (simp_all add: handshake_headers_def)
  moreover have "nonce_consume (hs_nonce h) (hs_expiresAt h) now cache =
      (AList.update (hs_nonce h) (hs_expiresAt h) (live_nonces now cache), True)"
    using assms(6) by (simp add: nonce_consume_def Let_def)
  ultimately show ?thesis
    using assms(4,5) decodeSignature_encode [OF assms(2)] handshake_reads_back [OF assms(1,3)]
    by (simp add: authenticateUpgrade_def)
qed

text \<open>
  C17: A request the Worker signs is accepted by a connector that holds the same key, while it is fresh and its nonce unused, and
  the connector then knows exactly the host and the port that the Worker was asked to reach.
\<close>

theorem signed_request_accepted:
  assumes "worker_request mac uuid opts nonce now host port = Inr headers" "decodeBase64Secret (co_hmacKey opts) (Some 32) = Inr key"
    "\<And>k m. length (mac k m) = 32" "\<not> uuid []"
    "arrival \<le> now + 30000" "now + 30000 \<le> arrival + authWindowMs + 5000" "map_of (live_nonces arrival cache) nonce = None"
  shows "\<exists>cache' h. authenticateUpgrade mac uuid headers key authWindowMs arrival cache = (cache', Inr h) \<and>
    normalizeHost host = Inr (hs_host h) \<and> of_int (hs_port h) = port \<and> hs_sessionId h = co_sessionId opts"
proof -
  obtain h where h: "worker_handshake uuid opts nonce now host port = Inr h"
    "headers = handshake_headers h (encodeBase64Url (mac key (utf8 (canonicalizeTailnetConnectorHandshake h)))) @ access_headers opts"
    using assms(1,2) by (auto simp: worker_request_def try_bind_eq_Inr failed_with_def signHandshake_def map_sum_Inr)
  note ok = worker_handshake_ok [OF h(1)]
  have "authenticateUpgrade mac uuid headers key authWindowMs arrival cache =
      (AList.update (hs_nonce h) (hs_expiresAt h) (live_nonces arrival cache), Inr h)"
    unfolding h(2) using ok assms(3-7) by (intro authenticate_signed) (simp_all add: CONNECTOR_HANDSHAKE_TTL_MS_def MAX_CLOCK_SKEW_MS_def)
  then show ?thesis using ok by blast
qed

text \<open>
  The Worker's handshakes are valid for 30 seconds; a connector whose window is below 25 seconds, which its configuration
  allows from 5 on, refuses every one of them that arrives at once.
\<close>

lemma narrow_window_refuses:
  assumes "worker_request mac uuid opts nonce now host port = Inr headers" "authWindowMs < 25000" "\<not> uuid []"
  shows "\<exists>m. authenticateUpgrade mac uuid headers key authWindowMs now cache = (cache, Inl m)"
proof -
  obtain h s where h: "worker_handshake uuid opts nonce now host port = Inr h" "headers = handshake_headers h s @ access_headers opts"
    using assms(1) by (auto simp: worker_request_def try_bind_eq_Inr)
  note ok = worker_handshake_ok [OF h(1)]
  have "read_handshake uuid headers = Inr h"
    unfolding h(2) using ok assms(3) by (intro handshake_reads_back) simp_all
  then show ?thesis
    using ok assms(2)
    by (cases "requiredHeader headers ''x-edgessh-signature''")
      (simp_all add: authenticateUpgrade_def CONNECTOR_HANDSHAKE_TTL_MS_def MAX_CLOCK_SKEW_MS_def)
qed

section \<open>A concrete request\<close>

definition demo_mac :: mac where "demo_mac key text = replicate 32 (byte (length text))"

definition demo_connector_options :: connector_options where
  "demo_connector_options = \<lparr>co_url = ''wss://c.example/v1/connect'', co_hmacKey = replicate 43 CHR ''A'', co_sessionId = ''s'',
     co_allowedPorts = None, co_access = None\<rparr>"

definition demo_uuid :: "string \<Rightarrow> bool" where "demo_uuid s \<longleftrightarrow> s \<noteq> []"

definition demo_handshake :: handshake where
  "demo_handshake = \<lparr>hs_version = 1, hs_sessionId = ''s'', hs_host = ''web-1.tail.ts.net'', hs_port = 22, hs_expiresAt = 31000,
     hs_nonce = replicate 32 CHR ''n''\<rparr>"

definition demo_headers :: "(string \<times> string) list" where
  "demo_headers = handshake_headers demo_handshake
     (encodeBase64Url (demo_mac (replicate 32 0) (utf8 (canonicalizeTailnetConnectorHandshake demo_handshake))))"

lemma demo_handshake_ok:
  "worker_handshake demo_uuid demo_connector_options (replicate 32 CHR ''n'') 1000 ''Web-1.tail.ts.net'' 22 = Inr demo_handshake"
  by code_simp

lemma demo_key_ok: "decodeBase64Secret (replicate 43 CHR ''A'') (Some 32) = Inr (replicate 32 0)"
  by code_simp

lemma demo_request_ok:
  "worker_request demo_mac demo_uuid demo_connector_options (replicate 32 CHR ''n'') 1000 ''Web-1.tail.ts.net'' 22 = Inr demo_headers"
  unfolding worker_request_def demo_handshake_ok
  by (simp add: signHandshake_def demo_connector_options_def demo_key_ok failed_with_def access_headers_def demo_headers_def)

lemma signed_request_accepted_witness:
  "\<exists>cache h. authenticateUpgrade demo_mac demo_uuid demo_headers (replicate 32 0) 30000 2000 [] = (cache, Inr h) \<and>
    hs_host h = ''web-1.tail.ts.net'' \<and> hs_port h = 22"
proof -
  obtain cache h where a: "authenticateUpgrade demo_mac demo_uuid demo_headers (replicate 32 0) 30000 2000 [] = (cache, Inr h)"
    "normalizeHost ''Web-1.tail.ts.net'' = Inr (hs_host h)" "of_int (hs_port h) = (22 :: rat)"
    using signed_request_accepted [OF demo_request_ok, of "replicate 32 0" 2000 30000 "[]"] demo_key_ok
    by (auto simp: demo_connector_options_def demo_mac_def demo_uuid_def live_nonces_def)
  moreover have "normalizeHost ''Web-1.tail.ts.net'' = Inr ''web-1.tail.ts.net''" by code_simp
  moreover have "hs_port h = 22" using a(3) by linarith
  ultimately show ?thesis by auto
qed

end
