(* ===== verification/Connector_Server.thy ===== *)
theory Connector_Server
  imports Connector_Handshake
begin

text \<open>
  The Tailnet Connector: its configuration (\<open>apps/tailnet-connector/src/config.ts\<close>), the check of a target
  (\<open>targets.ts\<close>) and the server that turns an authenticated upgrade into a tunnel (\<open>server.ts\<close>). Parsing and printing of IP
  addresses is the library ipaddr.js, name lookup and TCP belong to Node.js: all three are arguments.
\<close>

section \<open>Configuration\<close>

record connector_env =
  cv_listenHost :: "string option"
  cv_port :: "string option"
  cv_hmacKey :: "string option"
  cv_allowedSuffix :: "string option"
  cv_allowedPorts :: "string option"
  cv_connectTimeoutMs :: "string option"
  cv_authWindowSeconds :: "string option"
  cv_maxConnections :: "string option"
  cv_idleTimeoutMs :: "string option"
  cv_maxSessionMs :: "string option"
  cv_maxBufferedBytes :: "string option"

record connector_conf =
  cf_listenHost :: string
  cf_port :: int
  cf_hmacKey :: bytes
  cf_allowedSuffix :: string
  cf_allowedPorts :: "int list"
  cf_connectTimeoutMs :: int
  cf_authWindowMs :: int
  cf_maxConnections :: int
  cf_idleTimeoutMs :: int
  cf_maxSessionMs :: int
  cf_maxBufferedBytes :: int

definition parseListenHost :: "string option \<Rightarrow> string throws" where
  "parseListenHost v =
     (let host = default_to ''127.0.0.1'' (trimmed v) in
      if host \<noteq> ''127.0.0.1'' \<and> host \<noteq> ''::1'' then Inl ''LISTEN_HOST must be the loopback address 127.0.0.1 or ::1'' else Inr host)"

definition conf_integer :: "string option \<Rightarrow> int \<Rightarrow> int \<Rightarrow> int \<Rightarrow> string \<Rightarrow> int throws" where
  "conf_integer v fallback lo hi name =
     (case trimmed v of
        None \<Rightarrow> Inr fallback
      | Some s \<Rightarrow>
          if \<not> list_all is_digit s then Inl (name @ '' must be an integer'')
          else
            let parsed = int (dec_val s) in
            if parsed > max_safe \<or> parsed < lo \<or> parsed > hi
            then Inl (name @ '' must be between '' @ show_int lo @ '' and '' @ show_int hi)
            else Inr parsed)"

definition parseHmacKey :: "string option \<Rightarrow> bytes throws" where
  "parseHmacKey v =
     (case trimmed v of
        None \<Rightarrow> Inl ''CONNECTOR_HMAC_KEY must be a base64url-encoded 32-byte secret''
      | Some s \<Rightarrow>
          if \<not> is_token s then Inl ''CONNECTOR_HMAC_KEY must be a base64url-encoded 32-byte secret''
          else case decodeBase64Url s of
              Inl _ \<Rightarrow> Inl ''CONNECTOR_HMAC_KEY must be a canonical base64url-encoded 32-byte secret''
            | Inr key \<Rightarrow>
                if length key \<noteq> 32 then Inl ''CONNECTOR_HMAC_KEY must be a canonical base64url-encoded 32-byte secret'' else Inr key)"

definition is_dns_label :: "string \<Rightarrow> bool" where
  "is_dns_label l \<longleftrightarrow> 1 \<le> length l \<and> length l \<le> 63 \<and> (is_lower (hd l) \<or> is_digit (hd l)) \<and> (is_lower (last l) \<or> is_digit (last l)) \<and>
     list_all (\<lambda>c. is_lower c \<or> is_digit c \<or> c = CHR ''-'') l"

definition isDnsName :: "string \<Rightarrow> bool" where
  "isDnsName v \<longleftrightarrow> list_all is_dns_label (split_on CHR ''.'' v)"

definition drop_dot :: "string \<Rightarrow> string" where
  "drop_dot s = (case s of c # r \<Rightarrow> if c = CHR ''.'' then r else s | [] \<Rightarrow> [])"

definition parseAllowedSuffix :: "string option \<Rightarrow> string throws" where
  "parseAllowedSuffix v =
     (let suffix = default_to [] (map_option (\<lambda>s. drop_dot (lower (trim s))) v) in
      if suffix = [] then Inl ''TAILNET_ALLOWED_SUFFIX is required''
      else if length suffix > 253 \<or> \<not> ends_with ''.ts.net'' suffix \<or> \<not> isDnsName suffix
      then Inl ''TAILNET_ALLOWED_SUFFIX must be a valid tailnet DNS suffix ending in .ts.net''
      else Inr suffix)"

definition connector_parsePorts :: "string option \<Rightarrow> int list throws" where
  "connector_parsePorts v =
     (let items = map trim (split_on CHR '','' (default_to ''22'' (trimmed v))) in
      if list_ex (\<lambda>s. s = [] \<or> \<not> list_all is_digit s) items then Inl ''TAILNET_ALLOWED_PORTS contains an invalid port''
      else
        let ports = map (\<lambda>s. int (dec_val s)) items in
        if list_ex (\<lambda>p. p < 1 \<or> p > 65535 \<or> p = 25) ports then Inl ''TAILNET_ALLOWED_PORTS contains an invalid or prohibited port''
        else Inr (set_of_list ports))"

definition loadConfig :: "connector_env \<Rightarrow> connector_conf throws" where
  "loadConfig env =
     try_bind (parseListenHost (cv_listenHost env)) (\<lambda>listenHost.
     try_bind (conf_integer (cv_port env) 8789 1 65535 ''PORT'') (\<lambda>port.
     try_bind (parseHmacKey (cv_hmacKey env)) (\<lambda>hmacKey.
     try_bind (parseAllowedSuffix (cv_allowedSuffix env)) (\<lambda>suffix.
     try_bind (connector_parsePorts (cv_allowedPorts env)) (\<lambda>ports.
     try_bind (conf_integer (cv_connectTimeoutMs env) 10000 1000 60000 ''CONNECT_TIMEOUT_MS'') (\<lambda>connectTimeout.
     try_bind (conf_integer (cv_authWindowSeconds env) 30 5 300 ''AUTH_WINDOW_SECONDS'') (\<lambda>authWindow.
     try_bind (conf_integer (cv_maxConnections env) 20 1 1000 ''MAX_CONNECTIONS'') (\<lambda>maxConnections.
     try_bind (conf_integer (cv_idleTimeoutMs env) 1800000 10000 86400000 ''IDLE_TIMEOUT_MS'') (\<lambda>idleTimeout.
     try_bind (conf_integer (cv_maxSessionMs env) 28800000 60000 86400000 ''MAX_SESSION_MS'') (\<lambda>maxSession.
     try_bind (conf_integer (cv_maxBufferedBytes env) 1048576 65536 16777216 ''MAX_BUFFERED_BYTES'') (\<lambda>maxBuffered.
       Inr \<lparr>cf_listenHost = listenHost, cf_port = port, cf_hmacKey = hmacKey, cf_allowedSuffix = suffix, cf_allowedPorts = ports,
            cf_connectTimeoutMs = connectTimeout, cf_authWindowMs = authWindow * 1000, cf_maxConnections = maxConnections,
            cf_idleTimeoutMs = idleTimeout, cf_maxSessionMs = maxSession, cf_maxBufferedBytes = maxBuffered\<rparr>)))))))))))"

section \<open>Targets\<close>

text \<open>ipaddr.js: an address as 4 or 16 bytes, and its text.\<close>

record ipaddr =
  ia_parse :: "string \<Rightarrow> bytes option"
  ia_text :: "bytes \<Rightarrow> string"

definition TAILSCALE_IPV4 :: "nat list \<times> nat" where "TAILSCALE_IPV4 = ([100, 64, 0, 0], 10)"
definition TAILSCALE_IPV6 :: "nat list \<times> nat" where
  "TAILSCALE_IPV6 = ([253, 122, 17, 92, 161, 224, 0, 0, 0, 0, 0, 0, 0, 0, 0, 0], 48)"

definition isTailnetAddress :: "bytes \<Rightarrow> bool" where
  "isTailnetAddress b = (if length b = 4 then in_block b TAILSCALE_IPV4 else in_block b TAILSCALE_IPV6)"

definition is_host_name :: "string \<Rightarrow> bool" where
  "is_host_name host \<longleftrightarrow> 1 \<le> length host \<and> length host \<le> 253 \<and> 2 \<le> length (split_on CHR ''.'' host) \<and> isDnsName host"

record verified_target =
  vt_host :: string
  vt_addresses :: "(string \<times> int) list"

definition verify_entry :: "ipaddr \<Rightarrow> string \<times> int \<Rightarrow> (string \<times> int) throws" where
  "verify_entry ip = (\<lambda>(address, family).
     if family \<noteq> 4 \<and> family \<noteq> 6 then Inl ''MagicDNS returned an unsupported address family''
     else case ia_parse ip address of
         None \<Rightarrow> Inl ''ipaddr: the address has neither IPv6 nor IPv4 format''
       | Some b \<Rightarrow>
           if \<not> isTailnetAddress b then Inl ''MagicDNS returned a non-Tailscale address'' else Inr (ia_text ip b, family))"

definition resolveTailnetTarget ::
  "ipaddr \<Rightarrow> string \<Rightarrow> int \<Rightarrow> int list \<Rightarrow> string \<Rightarrow> (string \<Rightarrow> (string \<times> int) list throws) \<Rightarrow> verified_target throws" where
  "resolveTailnetTarget ip host port allowedPorts allowedSuffix lookupAll =
     (if port \<notin> set allowedPorts then Inl ''Target port is not allowed''
      else if host \<noteq> trim host \<or> host \<noteq> lower host then Inl ''Target host must be normalized lowercase ASCII''
      else if ia_parse ip host \<noteq> None then Inl ''Literal target IPs are disabled; use a full MagicDNS hostname''
      else if \<not> is_host_name host \<or> \<not> ends_with (CHR ''.'' # allowedSuffix) host
      then Inl ''Target hostname is outside the allowed MagicDNS suffix''
      else try_bind (lookupAll host) (\<lambda>resolved.
        if length resolved < 1 \<or> length resolved > 16 then Inl ''MagicDNS returned an invalid address set''
        else try_bind (map_try (verify_entry ip) resolved) (\<lambda>addresses.
          Inr \<lparr>vt_host = host, vt_addresses = uniq addresses\<rparr>)))"

section \<open>The server\<close>

text \<open>\<open>dial address family port now remaining\<close>: when the attempt settles, and the error or the socket.\<close>

type_synonym tcp_dialler = "string \<Rightarrow> int \<Rightarrow> int \<Rightarrow> millis \<Rightarrow> int \<Rightarrow> millis \<times> unit throws"

fun connect_loop :: "tcp_dialler \<Rightarrow> int \<Rightarrow> millis \<Rightarrow> (string \<times> int) list \<Rightarrow> millis \<Rightarrow> string \<Rightarrow> (string \<times> int) list \<times> unit throws" where
  "connect_loop dial port deadline [] now lastError = ([], Inl lastError)"
| "connect_loop dial port deadline ((address, family) # rest) now lastError =
     (let remainingMs = deadline - now in
      if remainingMs \<le> 0 then ([], Inl lastError)
      else case dial address family port now remainingMs of
        (later, Inr socket) \<Rightarrow> ([(address, family)], Inr socket)
      | (later, Inl e) \<Rightarrow>
          (case connect_loop dial port deadline rest later e of (trace, r) \<Rightarrow> ((address, family) # trace, r)))"

definition connectVerifiedTarget :: "tcp_dialler \<Rightarrow> verified_target \<Rightarrow> int \<Rightarrow> int \<Rightarrow> millis \<Rightarrow> (string \<times> int) list \<times> unit throws" where
  "connectVerifiedTarget dial target port timeoutMs now =
     connect_loop dial port (now + timeoutMs) (vt_addresses target) now ''No verified Tailnet address is available''"

datatype tunnel_phase = Resolving | Dialling verified_target | Relaying

record tunnel =
  tn_id :: nat
  tn_handshake :: handshake
  tn_deadline :: millis
  tn_phase :: tunnel_phase

record connector =
  cn_next :: nat
  cn_reserved :: int
  cn_cache :: replay_cache
  cn_tunnels :: "tunnel list"

datatype connector_output =
    Rejected_Upgrade nat int string
  | Upgrade_Destroyed nat
  | Dialled nat string int int
  | Target_Destroyed nat
  | Tunnel_Opened nat
  | To_Target nat bytes
  | To_Worker nat bytes
  | Tunnel_Closed nat int string

text \<open>
  What the awaits of a pending upgrade and the callbacks of a relay bring. A dial settles with the time it began, how the race
  against the deadline and the client ended, and what the WebSocket library does with the upgrade.
\<close>

datatype lookup_end = Looked_Up "string \<Rightarrow> (string \<times> int) list throws" | Lookup_Timed_Out | Lookup_Client_Gone
datatype ws_upgrade = Ws_Accepted | Ws_Refused | Ws_Throws
datatype dial_end = Dial_Finished bool ws_upgrade | Dial_Timed_Out | Dial_Client_Gone

datatype connector_event =
    Upgrade string "(string \<times> string) list" millis
  | Lookup_Settled nat lookup_end
  | Dial_Settled nat tcp_dialler millis dial_end
  | Worker_Message nat "bytes option"
  | Target_Data nat bytes bool int
  | Relay_Over nat int string

definition connector_start :: connector where
  "connector_start = \<lparr>cn_next = 0, cn_reserved = 0, cn_cache = [], cn_tunnels = []\<rparr>"

definition release_tunnel :: "nat \<Rightarrow> connector \<Rightarrow> connector" where
  "release_tunnel i s = s\<lparr>cn_reserved := cn_reserved s - 1, cn_tunnels := filter (\<lambda>t. tn_id t \<noteq> i) (cn_tunnels s)\<rparr>"

definition set_phase :: "nat \<Rightarrow> tunnel_phase \<Rightarrow> connector \<Rightarrow> connector" where
  "set_phase i p s = s\<lparr>cn_tunnels := map (\<lambda>t. if tn_id t = i then t\<lparr>tn_phase := p\<rparr> else t) (cn_tunnels s)\<rparr>"

text \<open>Requests are numbered in the order they arrive.\<close>

definition handle_upgrade ::
  "mac \<Rightarrow> (string \<Rightarrow> bool) \<Rightarrow> connector_conf \<Rightarrow> string \<Rightarrow> (string \<times> string) list \<Rightarrow> millis \<Rightarrow> connector \<Rightarrow> connector \<times> connector_output list" where
  "handle_upgrade mac uuid cfg url headers now s =
     (let i = cn_next s; s = s\<lparr>cn_next := i + 1\<rparr> in
      if url \<noteq> ''/v1/connect'' then (s, [Rejected_Upgrade i 404 ''Not Found''])
      else case authenticateUpgrade mac uuid headers (cf_hmacKey cfg) (cf_authWindowMs cfg) now (cn_cache s) of
          (cache, Inl m) \<Rightarrow> (s\<lparr>cn_cache := cache\<rparr>, [Rejected_Upgrade i 401 ''Unauthorized''])
        | (cache, Inr h) \<Rightarrow>
            if cn_reserved s \<ge> cf_maxConnections cfg
            then (s\<lparr>cn_cache := cache\<rparr>, [Rejected_Upgrade i 503 ''Connection Limit Reached''])
            else (s\<lparr>cn_cache := cache, cn_reserved := cn_reserved s + 1, cn_tunnels := cn_tunnels s @
                [\<lparr>tn_id = i, tn_handshake = h, tn_deadline = now + cf_connectTimeoutMs cfg, tn_phase = Resolving\<rparr>]\<rparr>, []))"

definition lookup_settled ::
  "ipaddr \<Rightarrow> connector_conf \<Rightarrow> tunnel \<Rightarrow> lookup_end \<Rightarrow> connector \<Rightarrow> connector \<times> connector_output list" where
  "lookup_settled ip cfg t outcome s =
     (let i = tn_id t; h = tn_handshake t in
      case outcome of
        Looked_Up lookupAll \<Rightarrow>
          (case resolveTailnetTarget ip (hs_host h) (hs_port h) (cf_allowedPorts cfg) (cf_allowedSuffix cfg) lookupAll of
             Inr target \<Rightarrow> (set_phase i (Dialling target) s, [])
           | Inl m \<Rightarrow> (release_tunnel i s, [Rejected_Upgrade i 403 ''Target Rejected'']))
      | Lookup_Timed_Out \<Rightarrow> (release_tunnel i s, [Rejected_Upgrade i 504 ''Tailnet Connection Timed Out''])
      | Lookup_Client_Gone \<Rightarrow> (release_tunnel i s, [Upgrade_Destroyed i]))"

text \<open>A dial that lost its race goes on, and its socket is destroyed when it comes.\<close>

definition dial_settled ::
  "tunnel \<Rightarrow> verified_target \<Rightarrow> tcp_dialler \<Rightarrow> millis \<Rightarrow> dial_end \<Rightarrow> connector \<Rightarrow> connector \<times> connector_output list" where
  "dial_settled t target dial now outcome s =
     (let i = tn_id t; port = hs_port (tn_handshake t); remaining = tn_deadline t - now in
      if remaining \<le> 0 then (release_tunnel i s, [Rejected_Upgrade i 504 ''Tailnet Connection Timed Out''])
      else case connectVerifiedTarget dial target port remaining now of
        (trace, r) \<Rightarrow>
          (let dials = map (\<lambda>(address, family). Dialled i address family port) trace;
               late = (case r of Inr _ \<Rightarrow> [Target_Destroyed i] | Inl _ \<Rightarrow> [])
           in case outcome of
             Dial_Timed_Out \<Rightarrow> (release_tunnel i s, dials @ [Rejected_Upgrade i 504 ''Tailnet Connection Timed Out''] @ late)
           | Dial_Client_Gone \<Rightarrow> (release_tunnel i s, dials @ [Upgrade_Destroyed i] @ late)
           | Dial_Finished ready ws \<Rightarrow>
               (case r of
                  Inl m \<Rightarrow> (release_tunnel i s, dials @ [Rejected_Upgrade i 502 ''Tailnet Connection Failed''])
                | Inr _ \<Rightarrow>
                    if \<not> ready then (release_tunnel i s, dials @ [Target_Destroyed i, Upgrade_Destroyed i])
                    else case ws of
                        Ws_Accepted \<Rightarrow> (set_phase i Relaying s, dials @ [Tunnel_Opened i])
                      | Ws_Refused \<Rightarrow> (release_tunnel i s, dials @ [Target_Destroyed i])
                      | Ws_Throws \<Rightarrow> (release_tunnel i s, dials @ [Target_Destroyed i, Rejected_Upgrade i 500 ''Internal Server Error'']))))"

definition finish_relay :: "nat \<Rightarrow> int \<Rightarrow> string \<Rightarrow> connector \<Rightarrow> connector \<times> connector_output list" where
  "finish_relay i code reason s = (release_tunnel i s, [Tunnel_Closed i code reason, Target_Destroyed i])"

definition with_tunnel ::
  "nat \<Rightarrow> (tunnel \<Rightarrow> connector \<Rightarrow> connector \<times> connector_output list) \<Rightarrow> connector \<Rightarrow> connector \<times> connector_output list" where
  "with_tunnel i f s = (case find (\<lambda>t. tn_id t = i) (cn_tunnels s) of None \<Rightarrow> (s, []) | Some t \<Rightarrow> f t s)"

fun connector_step ::
  "mac \<Rightarrow> (string \<Rightarrow> bool) \<Rightarrow> ipaddr \<Rightarrow> connector_conf \<Rightarrow> connector_event \<Rightarrow> connector \<Rightarrow> connector \<times> connector_output list" where
  "connector_step mac uuid ip cfg (Upgrade url headers now) s = handle_upgrade mac uuid cfg url headers now s"
| "connector_step mac uuid ip cfg (Lookup_Settled i outcome) s = with_tunnel i (\<lambda>t s.
     if tn_phase t = Resolving then lookup_settled ip cfg t outcome s else (s, [])) s"
| "connector_step mac uuid ip cfg (Dial_Settled i dial now outcome) s = with_tunnel i (\<lambda>t s.
     case tn_phase t of Dialling target \<Rightarrow> dial_settled t target dial now outcome s | _ \<Rightarrow> (s, [])) s"
| "connector_step mac uuid ip cfg (Worker_Message i data) s = with_tunnel i (\<lambda>t s.
     if tn_phase t \<noteq> Relaying then (s, [])
     else case data of
         None \<Rightarrow> finish_relay i 1003 ''Binary frames are required'' s
       | Some bs \<Rightarrow> (s, [To_Target i bs])) s"
| "connector_step mac uuid ip cfg (Target_Data i chunk is_open bufferedAmount) s = with_tunnel i (\<lambda>t s.
     if tn_phase t \<noteq> Relaying \<or> \<not> is_open then (s, [])
     else if bufferedAmount + int (length chunk) > cf_maxBufferedBytes cfg
     then finish_relay i 1011 ''Relay backpressure limit exceeded'' s
     else (s, [To_Worker i chunk])) s"
| "connector_step mac uuid ip cfg (Relay_Over i code reason) s = with_tunnel i (\<lambda>t s.
     if tn_phase t \<noteq> Relaying then (s, []) else finish_relay i code reason s) s"

definition routeHttp :: "string \<Rightarrow> string \<Rightarrow> int \<Rightarrow> int \<Rightarrow> int \<times> string" where
  "routeHttp method1 url activeConnections maxConnections =
     (if method1 = ''GET'' \<and> url = ''/health''
      then (200, the (json_text (JObj [(''status'', JStr ''ok''), (''activeConnections'', JNum (of_int activeConnections)),
        (''maxConnections'', JNum (of_int maxConnections))])))
      else (404, ''Not Found'' @ [char_of (10 :: nat)]))"

definition closed_on_shutdown :: "connector \<Rightarrow> nat list" where
  "closed_on_shutdown s = map tn_id (filter (\<lambda>t. tn_phase t = Relaying) (cn_tunnels s))"

end
