(* ===== verification/Connector_Facts.thy ===== *)
theory Connector_Facts
  imports Connector_Server
begin

text \<open>
  What the Tailnet Connector guarantees over any history of upgrades, lookups, dials and relays: whom it dials for whom, how
  many connections it holds, and that a signed request is used once.
\<close>

section \<open>Histories\<close>

text \<open>The state, what was output, and the requests that were authenticated, with their time and their headers.\<close>

record connector_world =
  cw_state :: connector
  cw_outputs :: "connector_output list"
  cw_authenticated :: "(nat \<times> handshake \<times> millis \<times> (string \<times> string) list) list"

definition authenticated_by ::
  "mac \<Rightarrow> (string \<Rightarrow> bool) \<Rightarrow> connector_conf \<Rightarrow> connector_event \<Rightarrow> connector \<Rightarrow> (nat \<times> handshake \<times> millis \<times> (string \<times> string) list) list" where
  "authenticated_by mac uuid cfg e s =
     (case e of
        Upgrade url headers now \<Rightarrow>
          if url \<noteq> ''/v1/connect'' then []
          else (case authenticateUpgrade mac uuid headers (cf_hmacKey cfg) (cf_authWindowMs cfg) now (cn_cache s) of
              (cache, Inr h) \<Rightarrow> [(cn_next s, h, now, headers)]
            | _ \<Rightarrow> [])
      | _ \<Rightarrow> [])"

definition world_step ::
  "mac \<Rightarrow> (string \<Rightarrow> bool) \<Rightarrow> ipaddr \<Rightarrow> connector_conf \<Rightarrow> connector_world \<Rightarrow> connector_event \<Rightarrow> connector_world" where
  "world_step mac uuid ip cfg w e =
     (case connector_step mac uuid ip cfg e (cw_state w) of
        (s, os) \<Rightarrow> \<lparr>cw_state = s, cw_outputs = cw_outputs w @ os,
          cw_authenticated = cw_authenticated w @ authenticated_by mac uuid cfg e (cw_state w)\<rparr>)"

definition connector_run ::
  "mac \<Rightarrow> (string \<Rightarrow> bool) \<Rightarrow> ipaddr \<Rightarrow> connector_conf \<Rightarrow> connector_event list \<Rightarrow> connector_world" where
  "connector_run mac uuid ip cfg evs =
     foldl (world_step mac uuid ip cfg) \<lparr>cw_state = connector_start, cw_outputs = [], cw_authenticated = []\<rparr> evs"

lemma connector_run_snoc [simp]:
  "connector_run mac uuid ip cfg (evs @ [e]) = world_step mac uuid ip cfg (connector_run mac uuid ip cfg evs) e"
  by (simp add: connector_run_def)

section \<open>Connections\<close>

definition tunnels_ok :: "connector_conf \<Rightarrow> connector \<Rightarrow> bool" where
  "tunnels_ok cfg s \<longleftrightarrow> distinct (map tn_id (cn_tunnels s)) \<and> list_all (\<lambda>t. tn_id t < cn_next s) (cn_tunnels s) \<and>
     cn_reserved s = int (length (cn_tunnels s)) \<and> cn_reserved s \<le> cf_maxConnections cfg"

lemma length_filter_id:
  assumes "distinct (map tn_id ts)" "t \<in> set ts"
  shows "Suc (length (filter (\<lambda>u. tn_id u \<noteq> tn_id t) ts)) = length ts"
  using assms
proof (induction ts)
  case (Cons u ts)
  show ?case
  proof (cases "tn_id u = tn_id t")
    case True
    have "tn_id u \<notin> tn_id ` set ts" using Cons.prems(1) by simp
    then have "filter (\<lambda>v. tn_id v \<noteq> tn_id t) ts = ts" unfolding True [symmetric] by (intro filter_True) (metis imageI)
    then show ?thesis using True by simp
  next
    case False
    then show ?thesis using Cons by auto
  qed
qed simp

lemma release_ok:
  assumes "tunnels_ok cfg s" "t \<in> set (cn_tunnels s)"
  shows "tunnels_ok cfg (release_tunnel (tn_id t) s)"
proof -
  have "Suc (length (filter (\<lambda>u. tn_id u \<noteq> tn_id t) (cn_tunnels s))) = length (cn_tunnels s)"
    using assms by (intro length_filter_id) (simp_all add: tunnels_ok_def)
  then show ?thesis
    using assms(1) by (auto simp: tunnels_ok_def release_tunnel_def distinct_map_filter list_all_iff)
qed

lemma set_phase_ok: "tunnels_ok cfg s \<Longrightarrow> tunnels_ok cfg (set_phase i p s)"
  by (auto simp: tunnels_ok_def set_phase_def list_all_iff comp_def if_distrib [of tn_id] cong: if_cong)

lemma find_member: "find P xs = Some x \<Longrightarrow> x \<in> set xs \<and> P x"
  by (induction xs) (auto split: if_splits)

lemma with_tunnel_cases:
  assumes "with_tunnel i f s = (s', os)"
  obtains "s' = s" "os = []" | t where "t \<in> set (cn_tunnels s)" "tn_id t = i" "f t s = (s', os)"
  using assms by (auto simp: with_tunnel_def dest!: find_member split: option.splits)

text \<open>What a step does to the tunnels: nothing, a new one, one gone, or one in its next phase.\<close>

definition tunnel_change :: "ipaddr \<Rightarrow> connector_conf \<Rightarrow> connector \<Rightarrow> connector \<Rightarrow> bool" where
  "tunnel_change ip cfg s s' \<longleftrightarrow>
     s' = s \<or> (\<exists>t \<in> set (cn_tunnels s). s' = release_tunnel (tn_id t) s) \<or>
     (\<exists>t \<in> set (cn_tunnels s). s' = set_phase (tn_id t) Relaying s) \<or>
     (\<exists>t target lookupAll. t \<in> set (cn_tunnels s) \<and> s' = set_phase (tn_id t) (Dialling target) s \<and>
        resolveTailnetTarget ip (hs_host (tn_handshake t)) (hs_port (tn_handshake t)) (cf_allowedPorts cfg) (cf_allowedSuffix cfg) lookupAll = Inr target)"

lemma tunnel_change_refl [simp]: "tunnel_change ip cfg s s"
  by (simp add: tunnel_change_def)

lemma lookup_settled_change:
  assumes "t \<in> set (cn_tunnels s)" "lookup_settled ip cfg t outcome s = (s', os)"
  shows "tunnel_change ip cfg s s'" "Dialled j a f p \<notin> set os"
  using assms by (auto simp: lookup_settled_def tunnel_change_def Let_def split: lookup_end.splits sum.splits)

lemma connect_loop_trace: "connect_loop dial port deadline as now e = (trace, r) \<Longrightarrow> set trace \<subseteq> set as"
proof (induction as arbitrary: now e trace)
  case (Cons x as)
  obtain address family where x: "x = (address, family)" by force
  show ?case
    using Cons.prems by (auto simp: x Let_def dest: Cons.IH [THEN subsetD] split: if_splits prod.splits sum.splits)
qed simp

lemma dial_settled_change:
  assumes "t \<in> set (cn_tunnels s)" "dial_settled t target dial now outcome s = (s', os)"
  shows "tunnel_change ip cfg s s'"
    and "Dialled j a f p \<in> set os \<Longrightarrow> j = tn_id t \<and> p = hs_port (tn_handshake t) \<and> (a, f) \<in> set (vt_addresses target)"
proof -
  obtain trace r where c: "connectVerifiedTarget dial target (hs_port (tn_handshake t)) (tn_deadline t - now) now = (trace, r)" by force
  have sub: "set trace \<subseteq> set (vt_addresses target)" using c unfolding connectVerifiedTarget_def by (rule connect_loop_trace)
  show "tunnel_change ip cfg s s'"
    using assms by (auto simp: dial_settled_def tunnel_change_def Let_def c split: dial_end.splits sum.splits ws_upgrade.splits if_splits)
  show "Dialled j a f p \<in> set os \<Longrightarrow> j = tn_id t \<and> p = hs_port (tn_handshake t) \<and> (a, f) \<in> set (vt_addresses target)"
    using assms(2) sub
    by (auto simp: dial_settled_def Let_def c split: dial_end.splits sum.splits ws_upgrade.splits if_splits)
qed

lemma step_change:
  assumes "connector_step mac uuid ip cfg e s = (s', os)" "\<forall>url headers now. e \<noteq> Upgrade url headers now"
  shows "tunnel_change ip cfg s s'"
    and "Dialled j a f p \<in> set os \<Longrightarrow> \<exists>t target. t \<in> set (cn_tunnels s) \<and> tn_phase t = Dialling target \<and> j = tn_id t \<and>
      p = hs_port (tn_handshake t) \<and> (a, f) \<in> set (vt_addresses target)"
proof -
  have "tunnel_change ip cfg s s' \<and> (Dialled j a f p \<in> set os \<longrightarrow> (\<exists>t target. t \<in> set (cn_tunnels s) \<and> tn_phase t = Dialling target \<and>
      j = tn_id t \<and> p = hs_port (tn_handshake t) \<and> (a, f) \<in> set (vt_addresses target)))"
  proof (cases e)
    case (Lookup_Settled i outcome)
    then have "with_tunnel i (\<lambda>t s. if tn_phase t = Resolving then lookup_settled ip cfg t outcome s else (s, [])) s = (s', os)"
      using assms(1) by simp
    then show ?thesis
      by (cases rule: with_tunnel_cases)
        (auto dest: lookup_settled_change split: if_splits)
  next
    case (Dial_Settled i dial now outcome)
    then have "with_tunnel i (\<lambda>t s. case tn_phase t of Dialling target \<Rightarrow> dial_settled t target dial now outcome s | _ \<Rightarrow> (s, [])) s = (s', os)"
      using assms(1) by simp
    then show ?thesis
    proof (cases rule: with_tunnel_cases)
      case 1
      then show ?thesis by (simp add: tunnel_change_def)
    next
      case (2 t)
      show ?thesis
      proof (cases "tn_phase t")
        case (Dialling target)
        then have "dial_settled t target dial now outcome s = (s', os)" using 2(3) by simp
        note d = dial_settled_change [OF 2(1) this]
        show ?thesis using d(1) d(2) [of j a f p] 2(1) Dialling by blast
      qed (use 2 in \<open>simp_all add: tunnel_change_def\<close>)
    qed
  next
    case (Worker_Message i data)
    then have "with_tunnel i (\<lambda>t s. if tn_phase t \<noteq> Relaying then (s, [])
       else case data of None \<Rightarrow> finish_relay i 1003 ''Binary frames are required'' s | Some bs \<Rightarrow> (s, [To_Target i bs])) s = (s', os)"
      using assms(1) by simp
    then show ?thesis
      by (cases rule: with_tunnel_cases) (auto simp: tunnel_change_def finish_relay_def split: if_splits option.splits)
  next
    case (Target_Data i chunk is_open buffered)
    then have "with_tunnel i (\<lambda>t s. if tn_phase t \<noteq> Relaying \<or> \<not> is_open then (s, [])
       else if buffered + int (length chunk) > cf_maxBufferedBytes cfg then finish_relay i 1011 ''Relay backpressure limit exceeded'' s
       else (s, [To_Worker i chunk])) s = (s', os)"
      using assms(1) by simp
    then show ?thesis
      by (cases rule: with_tunnel_cases) (auto simp: tunnel_change_def finish_relay_def split: if_splits)
  next
    case (Relay_Over i code reason)
    then have "with_tunnel i (\<lambda>t s. if tn_phase t \<noteq> Relaying then (s, []) else finish_relay i code reason s) s = (s', os)"
      using assms(1) by simp
    then show ?thesis
      by (cases rule: with_tunnel_cases) (auto simp: tunnel_change_def finish_relay_def split: if_splits)
  qed (use assms(2) in blast)
  then show "tunnel_change ip cfg s s'"
    and "Dialled j a f p \<in> set os \<Longrightarrow> \<exists>t target. t \<in> set (cn_tunnels s) \<and> tn_phase t = Dialling target \<and> j = tn_id t \<and>
      p = hs_port (tn_handshake t) \<and> (a, f) \<in> set (vt_addresses target)" by blast+
qed

section \<open>Whom it dials\<close>

text \<open>An authenticated request: signed with the key over what it asks for, and within its time.\<close>

definition authentic :: "mac \<Rightarrow> (string \<Rightarrow> bool) \<Rightarrow> connector_conf \<Rightarrow> handshake \<Rightarrow> millis \<Rightarrow> (string \<times> string) list \<Rightarrow> bool" where
  "authentic mac uuid cfg h now headers \<longleftrightarrow>
     (\<exists>signature. map_of headers ''x-edgessh-signature'' = Some signature \<and>
        decodeSignature signature = mac (cf_hmacKey cfg) (utf8 (canonicalizeTailnetConnectorHandshake h))) \<and>
     TailnetConnectorHandshakeSchema uuid h \<and> now \<le> hs_expiresAt h \<and> hs_expiresAt h \<le> now + cf_authWindowMs cfg + MAX_CLOCK_SKEW_MS"

text \<open>A dial inside the tailnet, on an allowed port, for a name under the allowed suffix.\<close>

definition tailnet_dial :: "ipaddr \<Rightarrow> connector_conf \<Rightarrow> handshake \<Rightarrow> string \<Rightarrow> bool" where
  "tailnet_dial ip cfg h address \<longleftrightarrow>
     (\<exists>b. isTailnetAddress b \<and> address = ia_text ip b) \<and> hs_port h \<in> set (cf_allowedPorts cfg) \<and>
     ends_with (CHR ''.'' # cf_allowedSuffix cfg) (hs_host h)"

lemma authenticate_authentic:
  assumes "authenticateUpgrade mac uuid headers (cf_hmacKey cfg) (cf_authWindowMs cfg) now cache = (cache', Inr h)"
  shows "authentic mac uuid cfg h now headers" and "nonce_consume (hs_nonce h) (hs_expiresAt h) now cache = (cache', True)"
proof -
  have ok: "TailnetConnectorHandshakeSchema uuid h" if "read_handshake uuid headers = Inr h"
    using that by (auto simp: read_handshake_def try_bind_eq_Inr Let_def split: option.splits if_splits)
  show "authentic mac uuid cfg h now headers" "nonce_consume (hs_nonce h) (hs_expiresAt h) now cache = (cache', True)"
    using assms ok
    by (auto simp: authenticateUpgrade_def authentic_def requiredHeader_def try_bind_eq_Inr
        split: sum.splits prod.splits bool.splits if_splits option.splits)
qed

lemma map_try_source: "map_try f xs = Inr ys \<Longrightarrow> y \<in> set ys \<Longrightarrow> \<exists>x \<in> set xs. f x = Inr y"
  by (induction xs arbitrary: ys) (auto simp: try_bind_eq_Inr map_sum_Inr)

lemma resolved_target:
  assumes "resolveTailnetTarget ip (hs_host h) (hs_port h) (cf_allowedPorts cfg) (cf_allowedSuffix cfg) lookupAll = Inr target"
    "(a, f) \<in> set (vt_addresses target)"
  shows "tailnet_dial ip cfg h a"
proof -
  obtain resolved addresses where r: "map_try (verify_entry ip) resolved = Inr addresses" "vt_addresses target = uniq addresses"
    "hs_port h \<in> set (cf_allowedPorts cfg)" "ends_with (CHR ''.'' # cf_allowedSuffix cfg) (hs_host h)"
    using assms(1) by (auto simp: resolveTailnetTarget_def try_bind_eq_Inr split: if_splits)
  have "(a, f) \<in> set addresses" using assms(2) by (simp add: r(2))
  then obtain x where "verify_entry ip x = Inr (a, f)" using map_try_source [OF r(1)] by blast
  then show ?thesis
    using r(3,4) by (auto simp: tailnet_dial_def verify_entry_def split: prod.splits if_splits option.splits)
qed

definition tunnel_good ::
  "ipaddr \<Rightarrow> connector_conf \<Rightarrow> (nat \<times> handshake \<times> millis \<times> (string \<times> string) list) list \<Rightarrow> tunnel \<Rightarrow> bool" where
  "tunnel_good ip cfg auth t \<longleftrightarrow> (\<exists>now headers. (tn_id t, tn_handshake t, now, headers) \<in> set auth) \<and>
     (\<forall>target. tn_phase t = Dialling target \<longrightarrow> (\<forall>(a, f) \<in> set (vt_addresses target). tailnet_dial ip cfg (tn_handshake t) a))"

definition dial_good ::
  "ipaddr \<Rightarrow> connector_conf \<Rightarrow> (nat \<times> handshake \<times> millis \<times> (string \<times> string) list) list \<Rightarrow> nat \<Rightarrow> string \<Rightarrow> int \<Rightarrow> bool" where
  "dial_good ip cfg auth i a p \<longleftrightarrow>
     (\<exists>h now headers. (i, h, now, headers) \<in> set auth \<and> p = hs_port h \<and> tailnet_dial ip cfg h a)"

definition world_ok :: "mac \<Rightarrow> (string \<Rightarrow> bool) \<Rightarrow> ipaddr \<Rightarrow> connector_conf \<Rightarrow> connector_world \<Rightarrow> bool" where
  "world_ok mac uuid ip cfg w \<longleftrightarrow> tunnels_ok cfg (cw_state w) \<and>
     (\<forall>(i, h, now, headers) \<in> set (cw_authenticated w). authentic mac uuid cfg h now headers) \<and>
     (\<forall>t \<in> set (cn_tunnels (cw_state w)). tunnel_good ip cfg (cw_authenticated w) t) \<and>
     (\<forall>i a f p. Dialled i a f p \<in> set (cw_outputs w) \<longrightarrow> dial_good ip cfg (cw_authenticated w) i a p)"

lemma good_append: "tunnel_good ip cfg auth t \<Longrightarrow> tunnel_good ip cfg (auth @ auth2) t" "dial_good ip cfg auth i a p \<Longrightarrow> dial_good ip cfg (auth @ auth2) i a p"
  by (auto simp: tunnel_good_def dial_good_def)

lemma world_okI:
  assumes "world_ok mac uuid ip cfg \<lparr>cw_state = s, cw_outputs = outs, cw_authenticated = auth\<rparr>" "tunnels_ok cfg s'"
    "\<And>i h now headers. (i, h, now, headers) \<in> set auth2 \<Longrightarrow> authentic mac uuid cfg h now headers"
    "\<And>t. t \<in> set (cn_tunnels s') \<Longrightarrow> tunnel_good ip cfg (auth @ auth2) t"
    "\<And>i a f p. Dialled i a f p \<in> set os \<Longrightarrow> dial_good ip cfg (auth @ auth2) i a p"
  shows "world_ok mac uuid ip cfg \<lparr>cw_state = s', cw_outputs = outs @ os, cw_authenticated = auth @ auth2\<rparr>"
proof -
  have "dial_good ip cfg (auth @ auth2) i a p" if "Dialled i a f p \<in> set outs" for i a f p
    using assms(1) that good_append(2) [of ip cfg auth i a p auth2] by (auto simp: world_ok_def)
  then show ?thesis using assms by (auto simp: world_ok_def)
qed

lemma change_ok: "tunnels_ok cfg s \<Longrightarrow> tunnel_change ip cfg s s' \<Longrightarrow> tunnels_ok cfg s'"
  by (auto simp: tunnel_change_def release_ok set_phase_ok)

lemma change_tunnel:
  assumes "tunnels_ok cfg s" "tunnel_change ip cfg s s'" "t' \<in> set (cn_tunnels s')"
  shows "\<exists>t \<in> set (cn_tunnels s). tn_id t' = tn_id t \<and> tn_handshake t' = tn_handshake t \<and>
    (tn_phase t' = tn_phase t \<or> tn_phase t' = Relaying \<or> (\<exists>target lookupAll. tn_phase t' = Dialling target \<and>
      resolveTailnetTarget ip (hs_host (tn_handshake t)) (hs_port (tn_handshake t)) (cf_allowedPorts cfg) (cf_allowedSuffix cfg) lookupAll = Inr target))"
proof -
  have same: "u = v" if "u \<in> set (cn_tunnels s)" "v \<in> set (cn_tunnels s)" "tn_id u = tn_id v" for u v
    using assms(1) that by (auto simp: tunnels_ok_def distinct_map inj_on_def)
  consider "s' = s" | t where "t \<in> set (cn_tunnels s)" "s' = release_tunnel (tn_id t) s"
    | t where "t \<in> set (cn_tunnels s)" "s' = set_phase (tn_id t) Relaying s"
    | t target lookupAll where "t \<in> set (cn_tunnels s)" "s' = set_phase (tn_id t) (Dialling target) s"
      "resolveTailnetTarget ip (hs_host (tn_handshake t)) (hs_port (tn_handshake t)) (cf_allowedPorts cfg) (cf_allowedSuffix cfg) lookupAll = Inr target"
    using assms(2) unfolding tunnel_change_def by blast
  then show ?thesis
  proof cases
    case 4
    then obtain u where u: "u \<in> set (cn_tunnels s)" "t' = (if tn_id u = tn_id t then u\<lparr>tn_phase := Dialling target\<rparr> else u)"
      using assms(3) by (auto simp: set_phase_def)
    show ?thesis
    proof (cases "tn_id u = tn_id t")
      case True
      then have "u = t" using same u(1) 4(1) by blast
      then show ?thesis using u(2) 4 by (intro bexI [of _ t]) auto
    qed (use u in auto)
  next
    case 3
    then obtain u where "u \<in> set (cn_tunnels s)" "t' = (if tn_id u = tn_id t then u\<lparr>tn_phase := Relaying\<rparr> else u)"
      using assms(3) by (auto simp: set_phase_def)
    then show ?thesis by (intro bexI [of _ u]) auto
  qed (use assms(3) in \<open>auto simp: release_tunnel_def\<close>)
qed

lemma handle_upgrade_cases:
  assumes "handle_upgrade mac uuid cfg url headers now s = (s', os)"
  obtains "cn_tunnels s' = cn_tunnels s" "cn_reserved s' = cn_reserved s" "cn_next s' = cn_next s + 1"
  | h cache where "url = ''/v1/connect''" "cn_reserved s < cf_maxConnections cfg"
    "authenticateUpgrade mac uuid headers (cf_hmacKey cfg) (cf_authWindowMs cfg) now (cn_cache s) = (cache, Inr h)"
    "s' = s\<lparr>cn_next := cn_next s + 1, cn_cache := cache, cn_reserved := cn_reserved s + 1, cn_tunnels := cn_tunnels s @
       [\<lparr>tn_id = cn_next s, tn_handshake = h, tn_deadline = now + cf_connectTimeoutMs cfg, tn_phase = Resolving\<rparr>]\<rparr>"
  using assms by (auto simp: handle_upgrade_def Let_def split: if_splits prod.splits sum.splits)

lemma upgrade_no_dial: "handle_upgrade mac uuid cfg url headers now s = (s', os) \<Longrightarrow> Dialled i a f p \<notin> set os"
  by (auto simp: handle_upgrade_def Let_def split: if_splits prod.splits sum.splits)

lemma authenticated_by_authentic:
  "(i, h, now, headers) \<in> set (authenticated_by mac uuid cfg e s) \<Longrightarrow> authentic mac uuid cfg h now headers"
  by (auto simp: authenticated_by_def dest: authenticate_authentic(1) [OF sym] split: connector_event.splits if_splits prod.splits sum.splits)

lemma upgrade_tunnels:
  assumes "tunnels_ok cfg s" "handle_upgrade mac uuid cfg url headers now s = (s', os)" "\<And>t. t \<in> set (cn_tunnels s) \<Longrightarrow> tunnel_good ip cfg auth t"
  shows "tunnels_ok cfg s'"
    and "t \<in> set (cn_tunnels s') \<Longrightarrow> tunnel_good ip cfg (auth @ authenticated_by mac uuid cfg (Upgrade url headers now) s) t"
proof -
  have "tunnels_ok cfg s' \<and> (\<forall>t \<in> set (cn_tunnels s'). tunnel_good ip cfg (auth @ authenticated_by mac uuid cfg (Upgrade url headers now) s) t)"
    using assms(2)
  proof (cases rule: handle_upgrade_cases)
    case 1
    then show ?thesis using assms(1,3) good_append(1) by (fastforce simp: tunnels_ok_def list_all_iff)
  next
    case (2 h cache)
    let ?new = "\<lparr>tn_id = cn_next s, tn_handshake = h, tn_deadline = now + cf_connectTimeoutMs cfg, tn_phase = Resolving\<rparr>"
    have "cn_next s \<notin> tn_id ` set (cn_tunnels s)" using assms(1) by (auto simp: tunnels_ok_def list_all_iff)
    then have "tunnels_ok cfg s'" using assms(1) 2 by (auto simp: tunnels_ok_def list_all_iff)
    moreover have "tunnel_good ip cfg (auth @ authenticated_by mac uuid cfg (Upgrade url headers now) s) ?new"
      using 2 by (auto simp: tunnel_good_def authenticated_by_def)
    ultimately show ?thesis using assms(3) good_append(1) 2(4) by auto
  qed
  then show "tunnels_ok cfg s'"
    and "t \<in> set (cn_tunnels s') \<Longrightarrow> tunnel_good ip cfg (auth @ authenticated_by mac uuid cfg (Upgrade url headers now) s) t" by blast+
qed

lemma step_tunnels:
  assumes "tunnels_ok cfg s" "connector_step mac uuid ip cfg e s = (s', os)" "\<And>t. t \<in> set (cn_tunnels s) \<Longrightarrow> tunnel_good ip cfg auth t"
  shows "tunnels_ok cfg s'"
    and "t \<in> set (cn_tunnels s') \<Longrightarrow> tunnel_good ip cfg (auth @ authenticated_by mac uuid cfg e s) t"
    and "Dialled i a f p \<in> set os \<Longrightarrow> dial_good ip cfg (auth @ authenticated_by mac uuid cfg e s) i a p"
proof -
  have "tunnels_ok cfg s' \<and> (\<forall>t \<in> set (cn_tunnels s'). tunnel_good ip cfg (auth @ authenticated_by mac uuid cfg e s) t) \<and>
    (\<forall>i a f p. Dialled i a f p \<in> set os \<longrightarrow> dial_good ip cfg (auth @ authenticated_by mac uuid cfg e s) i a p)"
  proof (cases "\<exists>url headers now. e = Upgrade url headers now")
    case True
    then obtain url headers now where e: "e = Upgrade url headers now" by blast
    then have u: "handle_upgrade mac uuid cfg url headers now s = (s', os)" using assms(2) by simp
    show ?thesis unfolding e using upgrade_tunnels [OF assms(1) u assms(3)] upgrade_no_dial [OF u] by blast
  next
    case False
    then have nu: "\<forall>url headers now. e \<noteq> Upgrade url headers now" by blast
    have none: "authenticated_by mac uuid cfg e s = []" using nu by (cases e) (simp_all add: authenticated_by_def)
    note ch = step_change(1) [OF assms(2) nu]
    have "tunnel_good ip cfg auth u" if u: "u \<in> set (cn_tunnels s')" for u
    proof -
      obtain v where v: "v \<in> set (cn_tunnels s)" "tn_id u = tn_id v" "tn_handshake u = tn_handshake v"
        "tn_phase u = tn_phase v \<or> tn_phase u = Relaying \<or> (\<exists>target lookupAll. tn_phase u = Dialling target \<and>
          resolveTailnetTarget ip (hs_host (tn_handshake v)) (hs_port (tn_handshake v)) (cf_allowedPorts cfg) (cf_allowedSuffix cfg) lookupAll = Inr target)"
        using change_tunnel [OF assms(1) ch u] by blast
      then show ?thesis using assms(3) [OF v(1)] resolved_target [of ip "tn_handshake v" cfg] by (auto simp: tunnel_good_def)
    qed
    moreover have "dial_good ip cfg auth i a p" if "Dialled i a f p \<in> set os" for i a f p
      using step_change(2) [OF assms(2) nu that] assms(3) by (force simp: tunnel_good_def dial_good_def)
    ultimately show ?thesis using change_ok [OF assms(1) ch] none by simp
  qed
  then show "tunnels_ok cfg s'"
    and "t \<in> set (cn_tunnels s') \<Longrightarrow> tunnel_good ip cfg (auth @ authenticated_by mac uuid cfg e s) t"
    and "Dialled i a f p \<in> set os \<Longrightarrow> dial_good ip cfg (auth @ authenticated_by mac uuid cfg e s) i a p" by blast+
qed

lemma step_world:
  assumes "world_ok mac uuid ip cfg w"
  shows "world_ok mac uuid ip cfg (world_step mac uuid ip cfg w e)"
proof -
  obtain s outs auth where w: "w = \<lparr>cw_state = s, cw_outputs = outs, cw_authenticated = auth\<rparr>" by (cases w)
  obtain s' os where st: "connector_step mac uuid ip cfg e s = (s', os)" by force
  have ok: "tunnels_ok cfg s" "\<And>t. t \<in> set (cn_tunnels s) \<Longrightarrow> tunnel_good ip cfg auth t"
    using assms by (simp_all add: world_ok_def w)
  note step = step_tunnels [OF ok(1) st ok(2)]
  show ?thesis
    unfolding world_step_def w connector_world.simps st prod.case
    by (rule world_okI [OF assms [unfolded w] step(1) authenticated_by_authentic step(2,3)])
qed

lemma run_world:
  assumes "0 \<le> cf_maxConnections cfg"
  shows "world_ok mac uuid ip cfg (connector_run mac uuid ip cfg evs)"
proof (induction evs rule: rev_induct)
  case Nil
  show ?case using assms by (simp add: connector_run_def world_ok_def tunnels_ok_def connector_start_def)
next
  case (snoc e evs)
  then show ?case by (simp add: step_world)
qed

text \<open>
  C5: Whatever requests, lookups and dials come in whatever order, the connector opens TCP connections only for requests signed
  with its key that had not expired, to the very port that was signed and allowed, for a host name under the allowed
  suffix, and only to addresses of the tailnet.
\<close>

theorem connector_dials_only_tailnet:
  assumes "0 \<le> cf_maxConnections cfg" "Dialled i address family port \<in> set (cw_outputs (connector_run mac uuid ip cfg evs))"
  shows "\<exists>h now headers b. (i, h, now, headers) \<in> set (cw_authenticated (connector_run mac uuid ip cfg evs)) \<and>
    authentic mac uuid cfg h now headers \<and> port = hs_port h \<and> port \<in> set (cf_allowedPorts cfg) \<and>
    ends_with (CHR ''.'' # cf_allowedSuffix cfg) (hs_host h) \<and> isTailnetAddress b \<and> address = ia_text ip b"
proof -
  have ok: "world_ok mac uuid ip cfg (connector_run mac uuid ip cfg evs)" by (rule run_world [OF assms(1)])
  then have "dial_good ip cfg (cw_authenticated (connector_run mac uuid ip cfg evs)) i address port"
    using assms(2) by (auto simp: world_ok_def)
  then obtain h now headers where h: "(i, h, now, headers) \<in> set (cw_authenticated (connector_run mac uuid ip cfg evs))"
    "port = hs_port h" "tailnet_dial ip cfg h address"
    by (auto simp: dial_good_def)
  moreover have "authentic mac uuid cfg h now headers" using ok h(1) by (auto simp: world_ok_def)
  ultimately show ?thesis by (auto simp: tailnet_dial_def)
qed

section \<open>How many connections it holds\<close>

text \<open>
  What tells that a request is over, seen from outside: its upgrade was answered with an error or destroyed, its tunnel
  closed, or its connection to the target destroyed.
\<close>

fun output_over :: "connector_output \<Rightarrow> nat option" where
  "output_over (Rejected_Upgrade i status reason) = Some i"
| "output_over (Upgrade_Destroyed i) = Some i"
| "output_over (Target_Destroyed i) = Some i"
| "output_over (Tunnel_Closed i code reason) = Some i"
| "output_over _ = None"

definition over_ids :: "connector_output list \<Rightarrow> nat set" where
  "over_ids os = {i. Some i \<in> output_over ` set os}"

definition authenticated_ids :: "connector_world \<Rightarrow> nat set" where
  "authenticated_ids w = prod.fst ` set (cw_authenticated w)"

lemma over_ids_simps [simp]:
  "over_ids [] = {}" "over_ids (xs @ ys) = over_ids xs \<union> over_ids ys"
  "over_ids (x # xs) = set_option (output_over x) \<union> over_ids xs"
  by (auto simp: over_ids_def elim: sym)

lemma over_ids_dials [simp]: "over_ids (map (\<lambda>(address, family). Dialled i address family port) trace) = {}"
  by (auto simp: over_ids_def)

text \<open>A step that is no upgrade ends at most one connection, and then says so.\<close>

definition one_over :: "connector \<Rightarrow> connector \<Rightarrow> connector_output list \<Rightarrow> bool" where
  "one_over s s' os \<longleftrightarrow> cn_next s' = cn_next s \<and>
     (tn_id ` set (cn_tunnels s') = tn_id ` set (cn_tunnels s) \<and> over_ids os = {} \<or>
      (\<exists>t \<in> set (cn_tunnels s). tn_id ` set (cn_tunnels s') = tn_id ` set (cn_tunnels s) - {tn_id t} \<and> over_ids os = {tn_id t}))"

lemma one_over_phase: "over_ids os = {} \<Longrightarrow> one_over s (set_phase i p s) os"
proof -
  assume over: "over_ids os = {}"
  have "map tn_id (cn_tunnels (set_phase i p s)) = map tn_id (cn_tunnels s)" by (simp add: set_phase_def)
  then have "tn_id ` set (cn_tunnels (set_phase i p s)) = tn_id ` set (cn_tunnels s)" by (metis set_map)
  then show ?thesis using over by (simp add: one_over_def set_phase_def)
qed

lemma one_over_release: "t \<in> set (cn_tunnels s) \<Longrightarrow> over_ids os = {tn_id t} \<Longrightarrow> one_over s (release_tunnel (tn_id t) s) os"
  unfolding one_over_def release_tunnel_def by auto

lemma one_over_same: "over_ids os = {} \<Longrightarrow> one_over s s os"
  by (simp add: one_over_def)

lemma dial_settled_over:
  assumes "t \<in> set (cn_tunnels s)" "dial_settled t target dial now outcome s = (s', os)"
  shows "one_over s s' os"
proof -
  obtain trace r where c: "connectVerifiedTarget dial target (hs_port (tn_handshake t)) (tn_deadline t - now) now = (trace, r)" by force
  show ?thesis using assms
    by (auto simp: dial_settled_def Let_def c intro!: one_over_release one_over_phase
        split: dial_end.splits sum.splits ws_upgrade.splits if_splits)
qed

lemma step_over:
  assumes "connector_step mac uuid ip cfg e s = (s', os)" "\<forall>url headers now. e \<noteq> Upgrade url headers now"
  shows "one_over s s' os"
proof (cases e)
  case (Lookup_Settled i outcome)
  then have "with_tunnel i (\<lambda>t s. if tn_phase t = Resolving then lookup_settled ip cfg t outcome s else (s, [])) s = (s', os)"
    using assms(1) by simp
  then show ?thesis
    by (cases rule: with_tunnel_cases)
      (auto simp: lookup_settled_def Let_def intro!: one_over_same one_over_release one_over_phase split: if_splits lookup_end.splits sum.splits)
next
  case (Dial_Settled i dial now outcome)
  then have "with_tunnel i (\<lambda>t s. case tn_phase t of Dialling target \<Rightarrow> dial_settled t target dial now outcome s | _ \<Rightarrow> (s, [])) s = (s', os)"
    using assms(1) by simp
  then show ?thesis
    by (cases rule: with_tunnel_cases) (auto intro: one_over_same dial_settled_over split: tunnel_phase.splits)
next
  case (Worker_Message i data)
  then have "with_tunnel i (\<lambda>t s. if tn_phase t \<noteq> Relaying then (s, [])
     else case data of None \<Rightarrow> finish_relay i 1003 ''Binary frames are required'' s | Some bs \<Rightarrow> (s, [To_Target i bs])) s = (s', os)"
    using assms(1) by simp
  then show ?thesis
    by (cases rule: with_tunnel_cases)
      (auto simp: finish_relay_def intro!: one_over_same one_over_release split: if_splits option.splits)
next
  case (Target_Data i chunk is_open buffered)
  then have "with_tunnel i (\<lambda>t s. if tn_phase t \<noteq> Relaying \<or> \<not> is_open then (s, [])
     else if buffered + int (length chunk) > cf_maxBufferedBytes cfg then finish_relay i 1011 ''Relay backpressure limit exceeded'' s
     else (s, [To_Worker i chunk])) s = (s', os)"
    using assms(1) by simp
  then show ?thesis
    by (cases rule: with_tunnel_cases) (auto simp: finish_relay_def intro!: one_over_same one_over_release split: if_splits)
next
  case (Relay_Over i code reason)
  then have "with_tunnel i (\<lambda>t s. if tn_phase t \<noteq> Relaying then (s, []) else finish_relay i code reason s) s = (s', os)"
    using assms(1) by simp
  then show ?thesis
    by (cases rule: with_tunnel_cases) (auto simp: finish_relay_def intro!: one_over_same one_over_release split: if_splits)
qed (use assms(2) in blast)

text \<open>An upgrade is answered with an error, or authenticated and admitted.\<close>

lemma upgrade_over:
  assumes "handle_upgrade mac uuid cfg url headers now s = (s', os)" "auth = authenticated_by mac uuid cfg (Upgrade url headers now) s"
  shows "cn_next s' = cn_next s + 1 \<and> prod.fst ` set auth \<subseteq> {cn_next s} \<and>
    (tn_id ` set (cn_tunnels s') = tn_id ` set (cn_tunnels s) \<and> over_ids os = {cn_next s} \<or>
     tn_id ` set (cn_tunnels s') = insert (cn_next s) (tn_id ` set (cn_tunnels s)) \<and> over_ids os = {} \<and> prod.fst ` set auth = {cn_next s})"
  using assms by (auto simp: handle_upgrade_def authenticated_by_def Let_def split: if_splits prod.splits sum.splits)

definition counted :: "connector_world \<Rightarrow> bool" where
  "counted w \<longleftrightarrow> tn_id ` set (cn_tunnels (cw_state w)) = authenticated_ids w - over_ids (cw_outputs w) \<and>
     (\<forall>i \<in> authenticated_ids w \<union> over_ids (cw_outputs w). i < cn_next (cw_state w))"

lemma count_upgrade:
  fixes n :: nat
  assumes "X = A - Z" "\<forall>i \<in> A \<union> Z. i < n" "B \<subseteq> {n}" "X' = X \<and> P = {n} \<or> X' = insert n X \<and> P = {} \<and> B = {n}"
  shows "X' = (A \<union> B) - (Z \<union> P) \<and> (\<forall>i \<in> (A \<union> B) \<union> (Z \<union> P). i < n + 1)"
  using assms by (auto simp: less_Suc_eq)

lemma count_other:
  fixes n :: nat
  assumes "X = A - Z" "\<forall>i \<in> A \<union> Z. i < n" "X' = X \<and> P = {} \<or> (\<exists>k \<in> X. X' = X - {k} \<and> P = {k})"
  shows "X' = A - (Z \<union> P) \<and> (\<forall>i \<in> A \<union> (Z \<union> P). i < n)"
  using assms by auto

lemma step_counted:
  assumes "counted w"
  shows "counted (world_step mac uuid ip cfg w e)"
proof -
  obtain s outs auth where w: "w = \<lparr>cw_state = s, cw_outputs = outs, cw_authenticated = auth\<rparr>" by (cases w)
  obtain s' os where st: "connector_step mac uuid ip cfg e s = (s', os)" by force
  let ?auth = "authenticated_by mac uuid cfg e s"
  have w': "world_step mac uuid ip cfg w e = \<lparr>cw_state = s', cw_outputs = outs @ os, cw_authenticated = auth @ ?auth\<rparr>"
    by (simp add: world_step_def w st)
  have old: "tn_id ` set (cn_tunnels s) = prod.fst ` set auth - over_ids outs" "\<forall>i \<in> prod.fst ` set auth \<union> over_ids outs. i < cn_next s"
    using assms by (simp_all add: counted_def w authenticated_ids_def)
  show ?thesis
  proof (cases "\<exists>url headers now. e = Upgrade url headers now")
    case True
    then obtain url headers now where e: "e = Upgrade url headers now" by blast
    then have "handle_upgrade mac uuid cfg url headers now s = (s', os)" using st by simp
    then have up: "cn_next s' = cn_next s + 1" "prod.fst ` set ?auth \<subseteq> {cn_next s}"
      "tn_id ` set (cn_tunnels s') = tn_id ` set (cn_tunnels s) \<and> over_ids os = {cn_next s} \<or>
       tn_id ` set (cn_tunnels s') = insert (cn_next s) (tn_id ` set (cn_tunnels s)) \<and> over_ids os = {} \<and> prod.fst ` set ?auth = {cn_next s}"
      using upgrade_over e by blast+
    show ?thesis using count_upgrade [OF old up(2,3)]
      unfolding w' counted_def authenticated_ids_def connector_world.simps set_append image_Un over_ids_simps up(1) .
  next
    case False
    then have nu: "\<forall>url headers now. e \<noteq> Upgrade url headers now" by blast
    then have "?auth = []" by (cases e) (auto simp: authenticated_by_def)
    moreover have over: "cn_next s' = cn_next s" "tn_id ` set (cn_tunnels s') = tn_id ` set (cn_tunnels s) \<and> over_ids os = {} \<or>
        (\<exists>k \<in> tn_id ` set (cn_tunnels s). tn_id ` set (cn_tunnels s') = tn_id ` set (cn_tunnels s) - {k} \<and> over_ids os = {k})"
      using step_over [OF st nu] by (auto simp: one_over_def)
    ultimately show ?thesis using count_other [OF old over(2)]
      unfolding w' counted_def authenticated_ids_def connector_world.simps over_ids_simps over(1) append_Nil2 by simp
  qed
qed

lemma run_counted: "counted (connector_run mac uuid ip cfg evs)"
proof (induction evs rule: rev_induct)
  case Nil
  show ?case by (simp add: connector_run_def counted_def connector_start_def authenticated_ids_def)
next
  case (snoc e evs)
  then show ?case by (simp add: step_counted)
qed

text \<open>
  C30: Over any history the connector's counter is the number of authenticated requests that are not over by what was sent
  and closed: none that was answered with an error, whose tunnel was closed or whose target connection was destroyed is still
  counted, every other one is, and the counter never exceeds the configured maximum.
\<close>

theorem connector_counts_connections:
  assumes "0 \<le> cf_maxConnections cfg" "w = connector_run mac uuid ip cfg evs"
  shows "cn_reserved (cw_state w) = int (card (authenticated_ids w - over_ids (cw_outputs w))) \<and>
    cn_reserved (cw_state w) \<le> cf_maxConnections cfg"
proof -
  have ok: "tunnels_ok cfg (cw_state w)" using run_world [OF assms(1)] unfolding assms(2) by (simp add: world_ok_def)
  then have "length (cn_tunnels (cw_state w)) = card (tn_id ` set (cn_tunnels (cw_state w)))"
    by (metis tunnels_ok_def distinct_card length_map set_map)
  then show ?thesis using ok run_counted [of mac uuid ip cfg evs] by (simp add: tunnels_ok_def counted_def assms(2))
qed

section \<open>Requests are used once\<close>

fun upgrade_times :: "connector_event list \<Rightarrow> int list" where
  "upgrade_times [] = []"
| "upgrade_times (e # evs) = (case e of Upgrade url headers now \<Rightarrow> [now] | _ \<Rightarrow> []) @ upgrade_times evs"

lemma upgrade_times_append [simp]: "upgrade_times (evs @ evs') = upgrade_times evs @ upgrade_times evs'"
  by (induction evs) auto

lemma live_nonces_fresh: "live_nonces now c = fresh_entries (now - 1) c"
  unfolding live_nonces_def fresh_entries_def by (rule filter_cong) auto

text \<open>Up to the time of the last request: a request that was authenticated is over, or its nonce is still remembered.\<close>

definition remembered :: "int \<Rightarrow> replay_cache \<Rightarrow> handshake \<Rightarrow> bool" where
  "remembered now c h \<longleftrightarrow> hs_expiresAt h < now \<or> map_of c (hs_nonce h) = Some (hs_expiresAt h)"

definition cache_ok :: "int \<Rightarrow> connector_world \<Rightarrow> bool" where
  "cache_ok now w \<longleftrightarrow> distinct (map prod.fst (cn_cache (cw_state w))) \<and>
     distinct (map (\<lambda>(i, h, t, headers). h) (cw_authenticated w)) \<and>
     (\<forall>(i, h, t, headers) \<in> set (cw_authenticated w). remembered now (cn_cache (cw_state w)) h)"

lemma step_cache:
  assumes "connector_step mac uuid ip cfg e s = (s', os)" "\<forall>url headers now. e \<noteq> Upgrade url headers now"
  shows "cn_cache s' = cn_cache s"
  using step_change(1) [OF assms] by (auto simp: tunnel_change_def release_tunnel_def set_phase_def)

lemma authenticate_cache:
  assumes "authenticateUpgrade mac uuid headers key window now c = (c', r)"
  shows "c' = c \<or> c' = live_nonces now c \<or>
    (\<exists>h. r = Inr h \<and> map_of (live_nonces now c) (hs_nonce h) = None \<and> c' = AList.update (hs_nonce h) (hs_expiresAt h) (live_nonces now c))"
    and "r = Inr h \<Longrightarrow> now \<le> hs_expiresAt h \<and> map_of (live_nonces now c) (hs_nonce h) = None \<and>
      c' = AList.update (hs_nonce h) (hs_expiresAt h) (live_nonces now c)"
  using assms by (auto simp: authenticateUpgrade_def nonce_consume_def Let_def try_bind_eq_Inr split: sum.splits prod.splits bool.splits if_splits)

lemma upgrade_cache:
  assumes "handle_upgrade mac uuid cfg url headers now s = (s', os)"
  shows "cn_cache s' = (if url = ''/v1/connect''
    then prod.fst (authenticateUpgrade mac uuid headers (cf_hmacKey cfg) (cf_authWindowMs cfg) now (cn_cache s)) else cn_cache s)"
  using assms by (auto simp: handle_upgrade_def Let_def split: if_splits prod.splits sum.splits)

lemma map_of_live: "distinct (map prod.fst c) \<Longrightarrow> map_of c n = Some e \<Longrightarrow> now \<le> e \<Longrightarrow> map_of (live_nonces now c) n = Some e"
  by (simp add: live_nonces_fresh map_of_fresh_entries)

lemma distinct_live: "distinct (map prod.fst c) \<Longrightarrow> distinct (map prod.fst (live_nonces now c))"
  by (simp add: live_nonces_fresh)

lemma cache_ok_later: "cache_ok now w \<Longrightarrow> now \<le> later \<Longrightarrow> cache_ok later w"
  by (fastforce simp: cache_ok_def remembered_def)

lemma upgrade_keeps_cache:
  assumes "cache_ok now w" "e = Upgrade url headers now"
  shows "cache_ok now (world_step mac uuid ip cfg w e)"
proof -
  obtain s outs auth where w: "w = \<lparr>cw_state = s, cw_outputs = outs, cw_authenticated = auth\<rparr>" by (cases w)
  obtain s' os where st: "handle_upgrade mac uuid cfg url headers now s = (s', os)" by force
  obtain c' r where a: "authenticateUpgrade mac uuid headers (cf_hmacKey cfg) (cf_authWindowMs cfg) now (cn_cache s) = (c', r)" by force
  have w': "world_step mac uuid ip cfg w e = \<lparr>cw_state = s', cw_outputs = outs @ os, cw_authenticated = auth @ authenticated_by mac uuid cfg e s\<rparr>"
    by (simp add: world_step_def w st assms(2))
  have d: "distinct (map prod.fst (cn_cache s))" "distinct (map (\<lambda>(i, h, t, headers). h) auth)"
    and old: "\<And>i h t hd. (i, h, t, hd) \<in> set auth \<Longrightarrow> remembered now (cn_cache s) h"
    using assms(1) by (auto simp: cache_ok_def w)
  have live: "remembered now (live_nonces now (cn_cache s)) h" if "(i, h, t, hd) \<in> set auth" for i h t hd
    using old [OF that] map_of_live [OF d(1), of "hs_nonce h" "hs_expiresAt h" now] unfolding remembered_def by (metis not_le)
  show ?thesis
  proof (cases "url = ''/v1/connect''")
    case False
    then have "cn_cache s' = cn_cache s" "authenticated_by mac uuid cfg e s = []"
      using upgrade_cache [OF st] by (simp_all add: assms(2) authenticated_by_def)
    then show ?thesis using assms(1) unfolding w' by (simp add: cache_ok_def w)
  next
    case True
    then have c: "cn_cache s' = c'" using upgrade_cache [OF st] a by simp
    show ?thesis
    proof (cases r)
      case (Inl m)
      have "authenticated_by mac uuid cfg e s = []" using True a Inl by (simp add: assms(2) authenticated_by_def)
      moreover have "c' = cn_cache s \<or> c' = live_nonces now (cn_cache s)" using authenticate_cache(1) [OF a] Inl by auto
      ultimately show ?thesis using live d distinct_live [OF d(1)] old unfolding w' by (auto simp: cache_ok_def c)
    next
      case (Inr h)
      note h = authenticate_cache(2) [OF a Inr]
      have "authenticated_by mac uuid cfg e s = [(cn_next s, h, now, headers)]" using True a Inr by (simp add: assms(2) authenticated_by_def)
      moreover have "k \<noteq> h" "remembered now c' k" if "(i, k, t, hd) \<in> set auth" for i k t hd
        using live [OF that] h by (auto simp: remembered_def update_conv')
      moreover have "remembered now c' h" using h by (simp add: remembered_def update_conv')
      moreover have "distinct (map prod.fst c')" using h distinct_update distinct_live [OF d(1)] by metis
      ultimately show ?thesis using d(2) unfolding w' by (auto simp: cache_ok_def c)
    qed
  qed
qed

lemma run_cache:
  assumes "sorted (upgrade_times evs)" "\<forall>t \<in> set (upgrade_times evs). t \<le> now"
  shows "cache_ok now (connector_run mac uuid ip cfg evs)"
  using assms
proof (induction evs arbitrary: now rule: rev_induct)
  case Nil
  show ?case by (simp add: connector_run_def cache_ok_def connector_start_def)
next
  case (snoc e evs)
  show ?case
  proof (cases "\<exists>url headers t. e = Upgrade url headers t")
    case True
    then obtain url headers t where e: "e = Upgrade url headers t" by blast
    have "cache_ok t (connector_run mac uuid ip cfg evs)" using snoc.prems by (intro snoc.IH) (auto simp: e sorted_append)
    then have "cache_ok t (connector_run mac uuid ip cfg (evs @ [e]))" using upgrade_keeps_cache e by simp
    then show ?thesis by (rule cache_ok_later) (use snoc.prems(2) e in auto)
  next
    case False
    then have nu: "\<forall>url headers t. e \<noteq> Upgrade url headers t" by blast
    then have "upgrade_times [e] = []" "authenticated_by mac uuid cfg e s = []" for s
      by (cases e; simp add: authenticated_by_def)+
    moreover have "cache_ok now (connector_run mac uuid ip cfg evs)" using snoc by (auto simp: sorted_append)
    moreover obtain s' os where st: "connector_step mac uuid ip cfg e (cw_state (connector_run mac uuid ip cfg evs)) = (s', os)" by force
    ultimately show ?thesis using step_cache [OF st nu] by (simp add: world_step_def cache_ok_def)
  qed
qed

text \<open>
  C8: As long as the clock does not run backwards, no signed request is authenticated a second time, however often and in
  whatever order it is replayed.
\<close>

theorem signed_request_used_once:
  assumes "sorted (upgrade_times evs)"
  shows "distinct (map (\<lambda>(i, h, now, headers). h) (cw_authenticated (connector_run mac uuid ip cfg evs)))"
proof -
  obtain now where "\<forall>t \<in> set (upgrade_times evs). t \<le> now"
    using finite_set [of "upgrade_times evs"] by (metis Max_ge)
  then have "cache_ok now (connector_run mac uuid ip cfg evs)" by (rule run_cache [OF assms])
  then show ?thesis by (simp add: cache_ok_def)
qed

section \<open>A concrete history\<close>

definition demo_ip :: ipaddr where
  "demo_ip = \<lparr>ia_parse = (\<lambda>s. if s = ''100.64.0.1'' then Some [100, 64, 0, 1] else None), ia_text = (\<lambda>b. ''100.64.0.1'')\<rparr>"

definition demo_conf :: connector_conf where
  "demo_conf = \<lparr>cf_listenHost = ''127.0.0.1'', cf_port = 8789, cf_hmacKey = replicate 32 0, cf_allowedSuffix = ''tail.ts.net'',
     cf_allowedPorts = [22], cf_connectTimeoutMs = 10000, cf_authWindowMs = 30000, cf_maxConnections = 20,
     cf_idleTimeoutMs = 1800000, cf_maxSessionMs = 28800000, cf_maxBufferedBytes = 1048576\<rparr>"

text \<open>The demonstration's request, its lookup and its dial.\<close>

definition demo_events :: "connector_event list" where
  "demo_events = [Upgrade ''/v1/connect'' demo_headers 2000, Lookup_Settled 0 (Looked_Up (\<lambda>host. Inr [(''100.64.0.1'', 4)])),
     Dial_Settled 0 (\<lambda>a f p now remaining. (now, Inr ())) 2100 (Dial_Finished True Ws_Accepted)]"

lemma demo_authenticated:
  "authenticateUpgrade demo_mac demo_uuid demo_headers (replicate 32 0) 30000 2000 [] = ([(replicate 32 CHR ''n'', 31000)], Inr demo_handshake)"
proof -
  have "TailnetConnectorHandshakeSchema demo_uuid demo_handshake" by code_simp
  moreover have "length (demo_mac k m) = 32" for k m by (simp add: demo_mac_def)
  moreover have "\<not> demo_uuid []" by (simp add: demo_uuid_def)
  ultimately show ?thesis
    using authenticate_signed [of demo_uuid demo_handshake demo_mac 2000 30000 "[]" "replicate 32 0" "[]"]
    by (simp add: demo_headers_def demo_handshake_def MAX_CLOCK_SKEW_MS_def live_nonces_def)
qed

lemma demo_resolved:
  "resolveTailnetTarget demo_ip ''web-1.tail.ts.net'' 22 [22] ''tail.ts.net'' (\<lambda>host. Inr [(''100.64.0.1'', 4)]) =
    Inr \<lparr>vt_host = ''web-1.tail.ts.net'', vt_addresses = [(''100.64.0.1'', 4)]\<rparr>"
  by code_simp

lemma demo_connector_run:
  "cw_outputs (connector_run demo_mac demo_uuid demo_ip demo_conf demo_events) = [Dialled 0 ''100.64.0.1'' 4 22, Tunnel_Opened 0]"
  "cw_authenticated (connector_run demo_mac demo_uuid demo_ip demo_conf demo_events) = [(0, demo_handshake, 2000, demo_headers)]"
  "length (cn_tunnels (cw_state (connector_run demo_mac demo_uuid demo_ip demo_conf demo_events))) = 1"
proof -
  have h: "hs_host demo_handshake = ''web-1.tail.ts.net''" "hs_port demo_handshake = 22" by (simp_all add: demo_handshake_def)
  have c: "cf_hmacKey demo_conf = replicate 32 0" "cf_authWindowMs demo_conf = 30000" "cf_maxConnections demo_conf = 20"
    "cf_connectTimeoutMs demo_conf = 10000" "cf_allowedPorts demo_conf = [22]" "cf_allowedSuffix demo_conf = ''tail.ts.net''"
    by (simp_all add: demo_conf_def)
  note run = connector_run_def demo_events_def world_step_def connector_start_def handle_upgrade_def authenticated_by_def Let_def
    demo_authenticated c h with_tunnel_def lookup_settled_def demo_resolved set_phase_def dial_settled_def connectVerifiedTarget_def
  show "cw_outputs (connector_run demo_mac demo_uuid demo_ip demo_conf demo_events) = [Dialled 0 ''100.64.0.1'' 4 22, Tunnel_Opened 0]"
    "cw_authenticated (connector_run demo_mac demo_uuid demo_ip demo_conf demo_events) = [(0, demo_handshake, 2000, demo_headers)]"
    "length (cn_tunnels (cw_state (connector_run demo_mac demo_uuid demo_ip demo_conf demo_events))) = 1"
    by (simp_all add: run)
qed

lemma connector_dials_only_tailnet_witness:
  "\<exists>h now headers b. (0, h, now, headers) \<in> set (cw_authenticated (connector_run demo_mac demo_uuid demo_ip demo_conf demo_events)) \<and>
    hs_port h = 22 \<and> isTailnetAddress b \<and> ''100.64.0.1'' = ia_text demo_ip b"
proof -
  have "Dialled 0 ''100.64.0.1'' 4 22 \<in> set (cw_outputs (connector_run demo_mac demo_uuid demo_ip demo_conf demo_events))"
    by (simp add: demo_connector_run(1))
  moreover have "0 \<le> cf_maxConnections demo_conf" by (simp add: demo_conf_def)
  ultimately show ?thesis using connector_dials_only_tailnet by metis
qed

text \<open>The connection is counted while it is open, and no more once the target has closed it.\<close>

lemma connector_counts_connections_witness:
  "cn_reserved (cw_state (connector_run demo_mac demo_uuid demo_ip demo_conf demo_events)) = 1 \<and>
    cn_reserved (cw_state (connector_run demo_mac demo_uuid demo_ip demo_conf (demo_events @ [Relay_Over 0 1000 ''Tailnet target closed'']))) = 0"
proof -
  let ?w = "connector_run demo_mac demo_uuid demo_ip demo_conf demo_events"
  let ?v = "connector_run demo_mac demo_uuid demo_ip demo_conf (demo_events @ [Relay_Over 0 1000 ''Tailnet target closed''])"
  have m: "0 \<le> cf_maxConnections demo_conf" by (simp add: demo_conf_def)
  have ids: "authenticated_ids ?w = {0}" "over_ids (cw_outputs ?w) = {}"
    by (simp_all add: authenticated_ids_def demo_connector_run)
  have "cn_reserved (cw_state ?w) = 1" using connector_counts_connections [OF m refl, of demo_mac demo_uuid demo_ip demo_events] ids by simp
  moreover have "cw_authenticated ?v = cw_authenticated ?w" "over_ids (cw_outputs ?v) = {0}"
    by (simp_all add: connector_run_def demo_events_def world_step_def connector_start_def handle_upgrade_def authenticated_by_def Let_def
        demo_authenticated demo_conf_def demo_handshake_def with_tunnel_def lookup_settled_def demo_resolved set_phase_def dial_settled_def
        connectVerifiedTarget_def finish_relay_def)
  then have "cn_reserved (cw_state ?v) = 0"
    using connector_counts_connections [OF m refl, of demo_mac demo_uuid demo_ip "demo_events @ [Relay_Over 0 1000 ''Tailnet target closed'']"] ids
    by (simp add: authenticated_ids_def)
  ultimately show ?thesis by simp
qed

lemma signed_request_used_once_witness:
  "distinct (map (\<lambda>(i, h, now, headers). h) (cw_authenticated (connector_run demo_mac demo_uuid demo_ip demo_conf
     (demo_events @ [Upgrade ''/v1/connect'' demo_headers 2200]))))"
  by (rule signed_request_used_once) (simp add: demo_events_def)

end
