(* ===== verification/Api_Contracts.thy ===== *)
theory Api_Contracts
  imports Contracts Profile_Facts Settings History Request_Checks
begin

text \<open>
  The bodies and queries of the API: the request schemas of \<open>packages/contracts/src/profiles.ts\<close>, \<open>settings.ts\<close>,
  \<open>history.ts\<close> and \<open>common.ts\<close>, as decoders from JSON to the values the handlers work with.
\<close>

section \<open>Combinators\<close>

definition z_trimmed :: "nat \<Rightarrow> nat \<Rightarrow> json option \<Rightarrow> string option" where
  "z_trimmed lo hi v = do { s \<leftarrow> as_string v; let t = trim s; if lo \<le> length t \<and> length t \<le> hi then Some t else None }"

definition z_nullable :: "(json option \<Rightarrow> 'a option) \<Rightarrow> json option \<Rightarrow> 'a option option" where
  "z_nullable p v = (case v of Some JNull \<Rightarrow> Some None | _ \<Rightarrow> map_option Some (p v))"

definition z_either :: "(json option \<Rightarrow> 'a option) \<Rightarrow> (json option \<Rightarrow> 'a option) \<Rightarrow> json option \<Rightarrow> 'a option" where
  "z_either p q v = (case p v of Some x \<Rightarrow> Some x | None \<Rightarrow> q v)"

text \<open>\<open>NonEmptyPatch\<close>\<close>

definition NonEmptyPatch :: "string list \<Rightarrow> json option \<Rightarrow> (string \<times> json) list option" where
  "NonEmptyPatch ks v = do { kvs \<leftarrow> z_strict ks v; if kvs = [] then None else Some kvs }"

section \<open>Accounts\<close>

definition TotpCodeSchema :: "json option \<Rightarrow> string option" where
  "TotpCodeSchema = z_test (\<lambda>s. length s = 6 \<and> list_all is_digit s)"

definition LoginRequestSchema :: "json option \<Rightarrow> login_input option" where
  "LoginRequestSchema v = do {
     kvs \<leftarrow> z_strict [''password'', ''totpCode''] v;
     password \<leftarrow> z_str 1 1024 (map_of kvs ''password'');
     code \<leftarrow> z_optional TotpCodeSchema (map_of kvs ''totpCode'');
     Some \<lparr>li_password = password, li_totpCode = code\<rparr> }"

definition TotpEnrollmentConfirmRequestSchema :: "json option \<Rightarrow> string option" where
  "TotpEnrollmentConfirmRequestSchema v = do { kvs \<leftarrow> z_strict [''code''] v; TotpCodeSchema (map_of kvs ''code'') }"

definition TotpDisableRequestSchema :: "json option \<Rightarrow> login_input option" where
  "TotpDisableRequestSchema v = do {
     kvs \<leftarrow> z_strict [''password'', ''code''] v;
     password \<leftarrow> z_str 1 1024 (map_of kvs ''password'');
     code \<leftarrow> TotpCodeSchema (map_of kvs ''code'');
     Some \<lparr>li_password = password, li_totpCode = Some code\<rparr> }"

section \<open>Profiles\<close>

definition host_char_refused :: "char \<Rightarrow> bool" where
  "host_char_refused c \<longleftrightarrow> cu c \<le> 32 \<or> cu c = 47 \<or> cu c = 92 \<or> cu c = 63 \<or> cu c = 35 \<or> cu c = 64"

definition HostSchema_json :: "json option \<Rightarrow> string option" where
  "HostSchema_json v = do { h \<leftarrow> z_trimmed 1 253 v; if list_ex host_char_refused h then None else Some h }"

definition PortSchema :: "json option \<Rightarrow> int option" where
  "PortSchema = z_int 1 65535"

definition UsernameSchema :: "json option \<Rightarrow> string option" where
  "UsernameSchema v = do { s \<leftarrow> z_str 1 128 v; if list_ex (\<lambda>c. cu c = 0 \<or> cu c = 10 \<or> cu c = 13) s then None else Some s }"

definition SshPasswordSchema :: "json option \<Rightarrow> string option" where "SshPasswordSchema = z_str 1 4096"
definition PrivateKeySchema :: "json option \<Rightarrow> string option" where "PrivateKeySchema = z_str 32 (1024 * 1024)"
definition PrivateKeyPassphraseSchema :: "json option \<Rightarrow> string option" where "PrivateKeyPassphraseSchema = z_str 1 4096"

definition SecretCredentialPersistenceSchema :: "json option \<Rightarrow> string option" where
  "SecretCredentialPersistenceSchema = z_enum [''saved'', ''prompt'']"

definition PasswordCredentialInputSchema :: "json option \<Rightarrow> credential_input option" where
  "PasswordCredentialInputSchema v = do {
     kvs \<leftarrow> z_strict [''method'', ''persistence'', ''password''] v;
     _ \<leftarrow> z_enum [''password''] (map_of kvs ''method'');
     persistence \<leftarrow> SecretCredentialPersistenceSchema (map_of kvs ''persistence'');
     password \<leftarrow> z_optional SshPasswordSchema (map_of kvs ''password'');
     if (persistence = ''saved'') = (password = None) then None else Some (Password_Input persistence password) }"

definition PrivateKeyCredentialInputSchema :: "json option \<Rightarrow> credential_input option" where
  "PrivateKeyCredentialInputSchema v = do {
     kvs \<leftarrow> z_strict [''method'', ''persistence'', ''privateKey'', ''passphrase'', ''savePassphrase''] v;
     _ \<leftarrow> z_enum [''private_key''] (map_of kvs ''method'');
     persistence \<leftarrow> SecretCredentialPersistenceSchema (map_of kvs ''persistence'');
     privateKey \<leftarrow> z_optional PrivateKeySchema (map_of kvs ''privateKey'');
     passphrase \<leftarrow> z_optional PrivateKeyPassphraseSchema (map_of kvs ''passphrase'');
     savePassphrase \<leftarrow> z_default False z_bool (map_of kvs ''savePassphrase'');
     if persistence = ''saved'' \<and> privateKey = None then None
     else if savePassphrase \<and> passphrase = None then None
     else if persistence = ''prompt'' \<and> (privateKey \<noteq> None \<or> passphrase \<noteq> None \<or> savePassphrase) then None
     else Some (Private_Key_Input persistence privateKey passphrase savePassphrase) }"

definition TailscaleSshCredentialInputSchema :: "json option \<Rightarrow> credential_input option" where
  "TailscaleSshCredentialInputSchema v = do {
     kvs \<leftarrow> z_strict [''method''] v;
     _ \<leftarrow> z_enum [''tailscale_ssh''] (map_of kvs ''method'');
     Some Tailscale_Input }"

definition ProfileCredentialInputSchema :: "json option \<Rightarrow> credential_input option" where
  "ProfileCredentialInputSchema =
     z_either PasswordCredentialInputSchema (z_either PrivateKeyCredentialInputSchema TailscaleSshCredentialInputSchema)"

definition ProfileCreateRequestSchema :: "json option \<Rightarrow> profile_create_request option" where
  "ProfileCreateRequestSchema v = do {
     kvs \<leftarrow> z_strict [''name'', ''host'', ''port'', ''username'', ''notes'', ''terminalType'', ''encoding'', ''initialCommand'', ''credential''] v;
     name \<leftarrow> z_trimmed 1 100 (map_of kvs ''name'');
     host \<leftarrow> HostSchema_json (map_of kvs ''host'');
     port \<leftarrow> PortSchema (map_of kvs ''port'');
     username \<leftarrow> UsernameSchema (map_of kvs ''username'');
     notes \<leftarrow> z_str 0 4000 (map_of kvs ''notes'');
     terminalType \<leftarrow> TerminalTypeSchema (map_of kvs ''terminalType'');
     encoding \<leftarrow> TerminalEncodingSchema (map_of kvs ''encoding'');
     initialCommand \<leftarrow> z_nullable (z_str 0 8192) (map_of kvs ''initialCommand'');
     credential \<leftarrow> ProfileCredentialInputSchema (map_of kvs ''credential'');
     if credential = Tailscale_Input \<and> port \<noteq> 22 then None
     else Some \<lparr>cq_name = name, cq_host = host, cq_port = port, cq_username = username, cq_notes = notes,
       cq_initialCommand = initialCommand, cq_terminalType = terminalType, cq_encoding = encoding, cq_credential = credential\<rparr> }"

definition createSecretMutationSchema :: "(json option \<Rightarrow> string option) \<Rightarrow> json option \<Rightarrow> secret_mutation option" where
  "createSecretMutationSchema valueSchema =
     z_either (\<lambda>v. do { kvs \<leftarrow> z_strict [''action''] v; _ \<leftarrow> z_enum [''keep''] (map_of kvs ''action''); Some Keep })
    (z_either (\<lambda>v. do { kvs \<leftarrow> z_strict [''action''] v; _ \<leftarrow> z_enum [''clear''] (map_of kvs ''action''); Some Clear })
       (\<lambda>v. do { kvs \<leftarrow> z_strict [''action'', ''value''] v; _ \<leftarrow> z_enum [''replace''] (map_of kvs ''action'');
          s \<leftarrow> valueSchema (map_of kvs ''value''); Some (Replace s) }))"

fun replaces :: "secret_mutation \<Rightarrow> bool" where
  "replaces (Replace s) = True"
| "replaces _ = False"

definition PasswordCredentialUpdateSchema :: "json option \<Rightarrow> credential_update option" where
  "PasswordCredentialUpdateSchema v = do {
     kvs \<leftarrow> z_strict [''method'', ''persistence'', ''password''] v;
     _ \<leftarrow> z_enum [''password''] (map_of kvs ''method'');
     persistence \<leftarrow> SecretCredentialPersistenceSchema (map_of kvs ''persistence'');
     password \<leftarrow> createSecretMutationSchema SshPasswordSchema (map_of kvs ''password'');
     if persistence = ''prompt'' \<and> replaces password then None else Some (Password_Update persistence password) }"

definition PrivateKeyCredentialUpdateSchema :: "json option \<Rightarrow> credential_update option" where
  "PrivateKeyCredentialUpdateSchema v = do {
     kvs \<leftarrow> z_strict [''method'', ''persistence'', ''privateKey'', ''passphrase''] v;
     _ \<leftarrow> z_enum [''private_key''] (map_of kvs ''method'');
     persistence \<leftarrow> SecretCredentialPersistenceSchema (map_of kvs ''persistence'');
     privateKey \<leftarrow> createSecretMutationSchema PrivateKeySchema (map_of kvs ''privateKey'');
     passphrase \<leftarrow> createSecretMutationSchema PrivateKeyPassphraseSchema (map_of kvs ''passphrase'');
     if persistence = ''prompt'' \<and> (replaces privateKey \<or> replaces passphrase) then None
     else Some (Private_Key_Update persistence privateKey passphrase) }"

definition TailscaleSshCredentialUpdateSchema :: "json option \<Rightarrow> credential_update option" where
  "TailscaleSshCredentialUpdateSchema v = do {
     kvs \<leftarrow> z_strict [''method''] v;
     _ \<leftarrow> z_enum [''tailscale_ssh''] (map_of kvs ''method'');
     Some Tailscale_Update }"

definition ProfileCredentialUpdateSchema :: "json option \<Rightarrow> credential_update option" where
  "ProfileCredentialUpdateSchema =
     z_either PasswordCredentialUpdateSchema (z_either PrivateKeyCredentialUpdateSchema TailscaleSshCredentialUpdateSchema)"

definition ProfileUpdateRequestSchema :: "json option \<Rightarrow> profile_update_request option" where
  "ProfileUpdateRequestSchema v = do {
     kvs \<leftarrow> NonEmptyPatch [''name'', ''host'', ''port'', ''username'', ''notes'', ''terminalType'', ''encoding'', ''initialCommand'', ''credential''] v;
     name \<leftarrow> z_optional (z_trimmed 1 100) (map_of kvs ''name'');
     host \<leftarrow> z_optional HostSchema_json (map_of kvs ''host'');
     port \<leftarrow> z_optional PortSchema (map_of kvs ''port'');
     username \<leftarrow> z_optional UsernameSchema (map_of kvs ''username'');
     notes \<leftarrow> z_optional (z_str 0 4000) (map_of kvs ''notes'');
     terminalType \<leftarrow> z_optional TerminalTypeSchema (map_of kvs ''terminalType'');
     encoding \<leftarrow> z_optional TerminalEncodingSchema (map_of kvs ''encoding'');
     initialCommand \<leftarrow> z_optional (z_nullable (z_str 0 8192)) (map_of kvs ''initialCommand'');
     credential \<leftarrow> z_optional ProfileCredentialUpdateSchema (map_of kvs ''credential'');
     if credential = Some Tailscale_Update \<and> port \<noteq> None \<and> port \<noteq> Some 22 then None
     else Some \<lparr>uq_name = name, uq_host = host, uq_port = port, uq_username = username, uq_notes = notes,
       uq_initialCommand = initialCommand, uq_terminalType = terminalType, uq_encoding = encoding, uq_credential = credential\<rparr> }"

section \<open>Settings\<close>

text \<open>A group of settings, every field optional; a group that is given names a field.\<close>

definition settings_group :: "string list \<Rightarrow> json option \<Rightarrow> (string \<times> json) list option" where
  "settings_group ks v = (case v of None \<Rightarrow> Some [] | Some _ \<Rightarrow> NonEmptyPatch ks v)"

definition SettingsPatchRequestSchema :: "json option \<Rightarrow> settings_patch option" where
  "SettingsPatchRequestSchema v = do {
     kvs \<leftarrow> NonEmptyPatch [''language'', ''theme'', ''terminal'', ''monitoring'', ''history''] v;
     language \<leftarrow> z_optional (z_enum [''zh-CN'', ''en'']) (map_of kvs ''language'');
     theme \<leftarrow> z_optional (z_enum [''system'', ''light'', ''dark'']) (map_of kvs ''theme'');
     terminal \<leftarrow> settings_group [''encoding'', ''type'', ''fontSize'', ''fontFamily'', ''cursorBlink'', ''scrollbackLines''] (map_of kvs ''terminal'');
     encoding \<leftarrow> z_optional TerminalEncodingSchema (map_of terminal ''encoding'');
     terminalType \<leftarrow> z_optional TerminalTypeSchema (map_of terminal ''type'');
     fontSize \<leftarrow> z_optional (z_int 10 24) (map_of terminal ''fontSize'');
     fontFamily \<leftarrow> z_optional (z_str 1 256) (map_of terminal ''fontFamily'');
     cursorBlink \<leftarrow> z_optional z_bool (map_of terminal ''cursorBlink'');
     scrollbackLines \<leftarrow> z_optional (z_int 100 100000) (map_of terminal ''scrollbackLines'');
     monitoring \<leftarrow> settings_group [''refreshIntervalSeconds'', ''reduceWhenHidden''] (map_of kvs ''monitoring'');
     refresh \<leftarrow> z_optional (z_int 5 60) (map_of monitoring ''refreshIntervalSeconds'');
     reduce \<leftarrow> z_optional z_bool (map_of monitoring ''reduceWhenHidden'');
     history \<leftarrow> settings_group [''commandRetentionDays'', ''sessionRetentionDays'', ''collectCommands''] (map_of kvs ''history'');
     commandDays \<leftarrow> z_optional (z_int 1 3650) (map_of history ''commandRetentionDays'');
     sessionDays \<leftarrow> z_optional (z_int 1 3650) (map_of history ''sessionRetentionDays'');
     collect \<leftarrow> z_optional z_bool (map_of history ''collectCommands'');
     Some \<lparr>sp_language = language, sp_theme = theme, sp_encoding = encoding, sp_type = terminalType, sp_fontSize = fontSize,
       sp_fontFamily = fontFamily, sp_cursorBlink = cursorBlink, sp_scrollbackLines = scrollbackLines,
       sp_refreshIntervalSeconds = refresh, sp_reduceWhenHidden = reduce, sp_commandRetentionDays = commandDays,
       sp_sessionRetentionDays = sessionDays, sp_collectCommands = collect\<rparr> }"

section \<open>Queries\<close>

definition CursorSchema :: "json option \<Rightarrow> string option" where "CursorSchema = z_str 1 512"

definition PageRequestSchema :: "json option \<Rightarrow> (string option \<times> int) option" where
  "PageRequestSchema v = do {
     kvs \<leftarrow> z_strict [''cursor'', ''limit''] v;
     cursor \<leftarrow> z_optional CursorSchema (map_of kvs ''cursor'');
     limit \<leftarrow> z_default 50 (z_int 1 100) (map_of kvs ''limit'');
     Some (cursor, limit) }"

text \<open>\<open>Date.parse\<close> is an argument; a comparison with \<open>NaN\<close> is false.\<close>

definition CommandHistoryQuerySchema :: "zod \<Rightarrow> (string \<Rightarrow> int option) \<Rightarrow> json option \<Rightarrow> command_query option" where
  "CommandHistoryQuerySchema z date v = do {
     kvs \<leftarrow> z_strict [''cursor'', ''limit'', ''query'', ''profileId'', ''sessionId'', ''from'', ''to''] v;
     cursor \<leftarrow> z_optional CursorSchema (map_of kvs ''cursor'');
     limit \<leftarrow> z_default 50 (z_int 1 100) (map_of kvs ''limit'');
     query \<leftarrow> z_optional (z_trimmed 1 256) (map_of kvs ''query'');
     profileId \<leftarrow> z_optional (EntityIdSchema z) (map_of kvs ''profileId'');
     sessionId \<leftarrow> z_optional (EntityIdSchema z) (map_of kvs ''sessionId'');
     since \<leftarrow> z_optional (TimestampSchema z) (map_of kvs ''from'');
     upto \<leftarrow> z_optional (TimestampSchema z) (map_of kvs ''to'');
     if (case (Option.bind since date, Option.bind upto date) of (Some a, Some b) \<Rightarrow> a > b | _ \<Rightarrow> False) then None
     else Some \<lparr>cq_cursor = cursor, cq_limit = Some (of_int limit), cq_query = query, cq_profileId = profileId, cq_sessionId = sessionId,
       cq_from = since, cq_until = upto\<rparr> }"

definition HistoryClearRequestSchema :: "zod \<Rightarrow> json option \<Rightarrow> clear_options option" where
  "HistoryClearRequestSchema z v = do {
     kvs \<leftarrow> z_strict [''before'', ''profileId'', ''sessionId''] v;
     before \<leftarrow> z_optional (TimestampSchema z) (map_of kvs ''before'');
     profileId \<leftarrow> z_optional (EntityIdSchema z) (map_of kvs ''profileId'');
     sessionId \<leftarrow> z_optional (EntityIdSchema z) (map_of kvs ''sessionId'');
     Some \<lparr>cl_before = before, cl_profileId = profileId, cl_sessionId = sessionId\<rparr> }"

definition session_state_field :: "json option \<Rightarrow> string option" where
  "session_state_field = z_enum [''idle'', ''authorizing'', ''tcp_connecting'', ''ssh_handshake'', ''host_confirmation'', ''authenticating'',
     ''connected'', ''disconnecting'', ''closed'', ''error'']"

definition SessionHistoryQuerySchema :: "zod \<Rightarrow> json option \<Rightarrow> session_query option" where
  "SessionHistoryQuerySchema z v = do {
     kvs \<leftarrow> z_strict [''cursor'', ''limit'', ''profileId'', ''state''] v;
     cursor \<leftarrow> z_optional CursorSchema (map_of kvs ''cursor'');
     limit \<leftarrow> z_default 50 (z_int 1 100) (map_of kvs ''limit'');
     profileId \<leftarrow> z_optional (EntityIdSchema z) (map_of kvs ''profileId'');
     st \<leftarrow> z_optional session_state_field (map_of kvs ''state'');
     Some \<lparr>sq_cursor = cursor, sq_limit = Some (of_int limit), sq_profileId = profileId, sq_state = st\<rparr> }"

section \<open>Errors\<close>

text \<open>
  An error of a repository, by its message: those of the target policy are its own, no other error has them.
\<close>

definition target_messages :: "string list" where
  "target_messages = [''SSH target host is invalid'', ''Private and reserved SSH targets are disabled'',
     ''SSH target port is invalid'', ''SSH target port is not allowed'']"

definition thrown_of :: "string \<Rightarrow> thrown" where
  "thrown_of m = (if m \<in> set target_messages then T_Target m else T_Other)"

definition repository :: "'a throws \<Rightarrow> thrown + 'a" where
  "repository r = map_sum thrown_of (\<lambda>v. v) r"

lemma repository_Inr [simp]: "repository r = Inr x \<longleftrightarrow> r = Inr x"
  by (cases r) (simp_all add: repository_def)

fun target_thrown :: "target_error + 'a \<Rightarrow> thrown + 'a" where
  "target_thrown (Inr v) = Inr v"
| "target_thrown (Inl (Target_Error c m)) = Inl (T_Target m)"
| "target_thrown (Inl Rejected) = Inl T_Other"

definition refuse :: "nat \<Rightarrow> string \<Rightarrow> string \<Rightarrow> thrown + 'a" where
  "refuse status code message = Inl (T_Http (Http_Error status code message))"

definition methodNotAllowed :: "thrown + 'a" where
  "methodNotAllowed = refuse 405 ''BAD_REQUEST'' ''Method not allowed''"

definition not_found :: "thrown + 'a" where
  "not_found = refuse 404 ''NOT_FOUND'' ''Route not found''"

end
