(* ===== verification/Tailscale.thy ===== *)
theory Tailscale
  imports Api_Contracts
begin

text \<open>
  Devices of a Tailscale network and their import as profiles: \<open>apps/worker/src/tailscale/client.ts\<close>,
  \<open>apps/worker/src/storage/tailscale-configuration.ts\<close>, \<open>apps/worker/src/http/tailscale.ts\<close> and the schemas of
  \<open>packages/contracts/src/tailscale.ts\<close>. Arguments are the Tailscale API, \<open>Date.parse\<close> and \<open>toISOString\<close>, and the keys
  by which \<open>localeCompare\<close> orders names. The lemmas show that an import creates one profile for each authorised device
  that has none, and that to repeat it creates nothing.
\<close>

record bindings =
  tb_tailnet :: "string option"
  tb_token :: "string option"

section \<open>The configuration of an owner\<close>

record tailscale_row =
  tw_owner_id :: string
  tw_tailnet :: string
  tw_token :: secret_columns
  tw_updated_at :: string

record tailscale_view =
  tv_tailnet :: "string option"
  tv_apiTokenConfigured :: bool
  tv_configured :: bool

record tailscale_update =
  tu_tailnet :: string
  tu_apiToken :: "string option"

definition is_tailnet :: "string \<Rightarrow> bool" where
  "is_tailnet s \<longleftrightarrow> s \<noteq> [] \<and> length s \<le> 256 \<and> is_alnum (hd s) \<and> is_alnum (last s) \<and>
     list_all (\<lambda>c. is_alnum c \<or> c \<in> set ''.@_+-'') s"

definition is_printable :: "char \<Rightarrow> bool" where "is_printable c \<longleftrightarrow> 33 \<le> cu c \<and> cu c \<le> 126"

definition TailscaleTailnetSchema :: "json option \<Rightarrow> string option" where
  "TailscaleTailnetSchema v = do { s \<leftarrow> z_trimmed 1 256 v; if s = ''-'' \<or> is_tailnet s then Some s else None }"

definition TailscaleConfigurationUpdateRequestSchema :: "json option \<Rightarrow> tailscale_update option" where
  "TailscaleConfigurationUpdateRequestSchema v = do {
     kvs \<leftarrow> z_strict [''tailnet'', ''apiToken''] v;
     tailnet \<leftarrow> TailscaleTailnetSchema (map_of kvs ''tailnet'');
     token \<leftarrow> z_optional (\<lambda>v. do { s \<leftarrow> z_trimmed 1 4096 v; if list_all is_printable s then Some s else None }) (map_of kvs ''apiToken'');
     Some \<lparr>tu_tailnet = tailnet, tu_apiToken = token\<rparr> }"

definition tokenEnvelope :: "tailscale_row option \<Rightarrow> envelope option" where
  "tokenEnvelope row =
     (case row of
        None \<Rightarrow> None
      | Some r \<Rightarrow>
          if given (sc_ciphertext (tw_token r)) \<and> given (sc_iv (tw_token r)) \<and> sc_version (tw_token r) = Some 1
          then Some \<lparr>env_version = 1, env_iv = the (sc_iv (tw_token r)), env_ciphertext = the (sc_ciphertext (tw_token r))\<rparr>
          else None)"

definition tailscale_row_of :: "string \<Rightarrow> tailscale_row list \<Rightarrow> tailscale_row option" where
  "tailscale_row_of ownerId rows = find (\<lambda>r. tw_owner_id r = ownerId) rows"

definition configuration_get :: "bindings \<Rightarrow> string \<Rightarrow> tailscale_row list \<Rightarrow> tailscale_view" where
  "configuration_get b ownerId rows =
     (let row = tailscale_row_of ownerId rows;
          tailnet = (case row of Some r \<Rightarrow> Some (tw_tailnet r) | None \<Rightarrow> trimmed (tb_tailnet b));
          configured = tokenEnvelope row \<noteq> None \<or> trimmed (tb_token b) \<noteq> None
      in \<lparr>tv_tailnet = tailnet, tv_apiTokenConfigured = configured, tv_configured = (tailnet \<noteq> None \<and> configured)\<rparr>)"

definition token_context :: "string \<Rightarrow> envelope_context" where
  "token_context ownerId = secret_context ownerId ''tailscale-configuration'' F_TailscaleApiToken"

definition configuration_resolve :: "vault \<Rightarrow> bindings \<Rightarrow> string \<Rightarrow> tailscale_row list \<Rightarrow> bindings throws" where
  "configuration_resolve v b ownerId rows =
     (let row = tailscale_row_of ownerId rows in
      map_sum (\<lambda>m. m) (\<lambda>token. \<lparr>tb_tailnet = (case row of Some r \<Rightarrow> Some (tw_tailnet r) | None \<Rightarrow> tb_tailnet b), tb_token = token\<rparr>)
        (case tokenEnvelope row of
           None \<Rightarrow> Inr (tb_token b)
         | Some e \<Rightarrow> map_sum (\<lambda>m. m) Some (decryptSecret (vt_platform v) (vt_masterKey v) e (token_context ownerId))))"

text \<open>The statement inserts the row or replaces the one of the same owner.\<close>

definition upsert_configuration :: "tailscale_row \<Rightarrow> tailscale_row list \<Rightarrow> tailscale_row list" where
  "upsert_configuration row rows =
     (if list_ex (\<lambda>r. tw_owner_id r = tw_owner_id row) rows
      then map (\<lambda>r. if tw_owner_id r = tw_owner_id row then row else r) rows else rows @ [row])"

definition configuration_update ::
  "vault \<Rightarrow> bindings \<Rightarrow> string \<Rightarrow> tailscale_update \<Rightarrow> string \<Rightarrow> tailscale_row list \<Rightarrow> tailscale_row list \<times> tailscale_view throws" where
  "configuration_update v b ownerId input now rows =
     (case (if given (tu_apiToken input)
            then map_sum (\<lambda>m. m) Some (encryptSecret (vt_platform v) (vt_iv v F_TailscaleApiToken) (vt_masterKey v)
              (the (tu_apiToken input)) (token_context ownerId))
            else Inr (tokenEnvelope (tailscale_row_of ownerId rows))) of
        Inl m \<Rightarrow> (rows, Inl m)
      | Inr e \<Rightarrow>
          if e = None \<and> trimmed (tb_token b) = None then (rows, Inl ''A Tailscale API token is required'')
          else (upsert_configuration \<lparr>tw_owner_id = ownerId, tw_tailnet = tu_tailnet input, tw_token = envelope_columns e, tw_updated_at = now\<rparr> rows,
                Inr \<lparr>tv_tailnet = Some (tu_tailnet input), tv_apiTokenConfigured = True, tv_configured = True\<rparr>))"

section \<open>Devices\<close>

record device =
  dv_id :: string
  dv_displayName :: string
  dv_hostname :: "string option"
  dv_host :: string
  dv_addresses :: "string list"
  dv_os :: "string option"
  dv_authorized :: bool
  dv_online :: bool
  dv_lastSeen :: "string option"

text \<open>What the platform gives: \<open>Date.parse\<close> (\<open>None\<close>: not finite), \<open>toISOString\<close>, and collation keys.\<close>

record calendar =
  cl_parse :: "string \<Rightarrow> int option"
  cl_iso :: "int \<Rightarrow> string"
  cl_collation :: "string \<Rightarrow> nat"

fun record_of :: "json \<Rightarrow> (string \<times> json) list option" where
  "record_of (JObj kvs) = Some kvs"
| "record_of _ = None"

definition control_or_del :: "char \<Rightarrow> bool" where "control_or_del c \<longleftrightarrow> cu c \<le> 31 \<or> cu c = 127"

definition api_text :: "json option \<Rightarrow> nat \<Rightarrow> string option" where
  "api_text v maxLength =
     (case as_string v of
        None \<Rightarrow> None
      | Some s \<Rightarrow> let t = trim s in if t \<noteq> [] \<and> length t \<le> maxLength \<and> \<not> list_ex control_or_del t then Some t else None)"

definition api_timestamp :: "calendar \<Rightarrow> json option \<Rightarrow> string option" where
  "api_timestamp cal v = Option.bind (api_text v 64) (\<lambda>s. map_option (cl_iso cal) (cl_parse cal s))"

definition magicDnsHost :: "json option \<Rightarrow> string option" where
  "magicDnsHost v =
     (case api_text v 254 of
        None \<Rightarrow> None
      | Some s \<Rightarrow>
          let l = lower s; candidate = (if ends_with ''.'' l then butlast l else l) in
          if candidate = [] \<or> \<not> ends_with ''.ts.net'' candidate then None
          else (case normalizeHost candidate of Inr h \<Rightarrow> Some h | Inl _ \<Rightarrow> None))"

definition deviceDisplayName :: "string \<Rightarrow> string" where
  "deviceDisplayName host =
     (let d = take 100 (hd (split_on CHR ''.'' host)) in if d = [] then take 100 host else d)"

definition api_addresses :: "json option \<Rightarrow> string list" where
  "api_addresses v =
     (case v of
        Some (JArr xs) \<Rightarrow>
          take 16 (set_of_list (List.map_filter (\<lambda>x. case api_text (Some x) 64 of
              Some a \<Rightarrow> if list_all (\<lambda>c. is_hex c \<or> c = CHR '':'' \<or> c = CHR ''.'') a then Some (lower a) else None
            | None \<Rightarrow> None) xs))
      | _ \<Rightarrow> [])"

definition ONLINE_WINDOW_MS :: int where "ONLINE_WINDOW_MS = 5 * 60 * 1000"

definition device_online :: "calendar \<Rightarrow> int \<Rightarrow> (string \<times> json) list \<Rightarrow> string option \<Rightarrow> bool" where
  "device_online cal now raw lastSeen =
     (case (map_of raw ''online'', map_of raw ''connectedToControl'') of
        (Some (JBool b), _) \<Rightarrow> b
      | (_, Some (JBool b)) \<Rightarrow> b
      | _ \<Rightarrow> (case Option.bind lastSeen (cl_parse cal) of
          None \<Rightarrow> False
        | Some t \<Rightarrow> now \<ge> t \<and> now - t \<le> ONLINE_WINDOW_MS))"

definition api_device :: "calendar \<Rightarrow> int \<Rightarrow> json \<Rightarrow> device option" where
  "api_device cal now v =
     (case record_of v of
        None \<Rightarrow> None
      | Some raw \<Rightarrow>
          (case (api_text (map_of raw ''id'') 128, magicDnsHost (map_of raw ''name'')) of
             (Some i, Some host) \<Rightarrow>
               let lastSeen = api_timestamp cal (map_of raw ''lastSeen'') in
               Some \<lparr>dv_id = i, dv_displayName = deviceDisplayName host, dv_hostname = api_text (map_of raw ''hostname'') 255,
                 dv_host = host, dv_addresses = api_addresses (map_of raw ''addresses''), dv_os = api_text (map_of raw ''os'') 64,
                 dv_authorized = (map_of raw ''authorized'' = Some (JBool True)), dv_online = device_online cal now raw lastSeen,
                 dv_lastSeen = lastSeen\<rparr>
           | _ \<Rightarrow> None))"

text \<open>The loop over the entries: each identifier once, at most 500 devices.\<close>

fun collect_devices :: "calendar \<Rightarrow> int \<Rightarrow> json list \<Rightarrow> device list \<Rightarrow> device list" where
  "collect_devices cal now [] ds = ds"
| "collect_devices cal now (v # vs) ds =
     (case api_device cal now v of
        None \<Rightarrow> collect_devices cal now vs ds
      | Some d \<Rightarrow>
          if dv_id d \<in> set (map dv_id ds) then collect_devices cal now vs ds
          else if length (ds @ [d]) \<ge> 500 then ds @ [d] else collect_devices cal now vs (ds @ [d]))"

definition device_key :: "calendar \<Rightarrow> device \<Rightarrow> nat \<times> nat" where
  "device_key cal d = (if dv_online d then 0 else 1, cl_collation cal (dv_displayName d))"

definition parseTailscaleDevices :: "calendar \<Rightarrow> int \<Rightarrow> json \<Rightarrow> http_error + device list" where
  "parseTailscaleDevices cal now payload =
     (case Option.bind (record_of payload) (\<lambda>root. map_of root ''devices'') of
        Some (JArr xs) \<Rightarrow>
          if length xs > 5000 then Inl (Http_Error 502 ''SERVICE_UNAVAILABLE'' ''Tailscale returned an invalid device response'')
          else Inr (sort_key (device_key cal) (collect_devices cal now xs []))
      | _ \<Rightarrow> Inl (Http_Error 502 ''SERVICE_UNAVAILABLE'' ''Tailscale returned an invalid device response''))"

section \<open>Asking the API\<close>

record api_response =
  ar_status :: nat
  ar_contentLength :: "string option"
  ar_chunks :: "bytes list"
  ar_broken :: bool

record tailscale_api =
  ta_zod :: zod
  ta_calendar :: calendar
  ta_fetch :: "string \<Rightarrow> string \<Rightarrow> api_response option"

definition MAX_RESPONSE_BYTES :: nat where "MAX_RESPONSE_BYTES = 2 * 1024 * 1024"

definition unavailable :: "string \<Rightarrow> http_error + 'a" where
  "unavailable m = Inl (Http_Error 502 ''SERVICE_UNAVAILABLE'' m)"

text \<open>
  The body is read chunk by chunk; \<open>ar_broken\<close> says that reading fails after these chunks. The decoder drops a byte
  order mark.
\<close>

fun read_chunks :: "bytes list \<Rightarrow> bool \<Rightarrow> bytes \<Rightarrow> http_error + bytes" where
  "read_chunks [] broken got = (if broken then unavailable ''Unable to read the Tailscale device response'' else Inr got)"
| "read_chunks (c # cs) broken got =
     (if length got + length c > MAX_RESPONSE_BYTES then unavailable ''Tailscale device response is too large''
      else read_chunks cs broken (got @ c))"

definition readBoundedBody :: "api_response \<Rightarrow> http_error + string" where
  "readBoundedBody r =
     try_bind (read_chunks (ar_chunks r) (ar_broken r) []) (\<lambda>body.
       case utf8_decode (if take 3 body = [0xEF, 0xBB, 0xBF] then drop 3 body else body) of
         Some t \<Rightarrow> Inr t
       | None \<Rightarrow> unavailable ''Tailscale returned invalid UTF-8'')"

definition api_value :: "string option \<Rightarrow> string \<Rightarrow> nat \<Rightarrow> http_error + string" where
  "api_value v name maxLength =
     (case trimmed v of
        Some s \<Rightarrow> if length s > maxLength \<or> list_ex control_or_del s then Inl (Http_Error 503 ''AUTH_CONFIGURATION_MISSING'' (name @ '' is not configured''))
          else Inr s
      | None \<Rightarrow> Inl (Http_Error 503 ''AUTH_CONFIGURATION_MISSING'' (name @ '' is not configured'')))"

definition api_configuration :: "bindings \<Rightarrow> http_error + string \<times> string" where
  "api_configuration b =
     try_bind (api_value (tb_tailnet b) ''TAILSCALE_TAILNET'' 256) (\<lambda>tailnet.
     try_bind (api_value (tb_token b) ''TAILSCALE_API_TOKEN'' 4096) (\<lambda>token.
       if \<not> list_all is_printable token then Inl (Http_Error 503 ''AUTH_CONFIGURATION_MISSING'' ''TAILSCALE_API_TOKEN is invalid'')
       else if tailnet \<noteq> ''-'' \<and> \<not> is_tailnet tailnet then Inl (Http_Error 503 ''AUTH_CONFIGURATION_MISSING'' ''TAILSCALE_TAILNET is invalid'')
       else Inr (tailnet, token)))"

definition hex_upper :: "nat \<Rightarrow> char" where
  "hex_upper n = (if n < 10 then char_of (48 + n) else char_of (55 + n))"

definition encodeURIComponent :: "string \<Rightarrow> string" where
  "encodeURIComponent s = concat (map (\<lambda>c.
     if is_alnum c \<or> c \<in> set ''-_.!~*()'' \<or> cu c = 39 then [c]
     else concat (map (\<lambda>b. [CHR ''%'', hex_upper (unat b div 16), hex_upper (unat b mod 16)]) (utf8 [c]))) s)"

definition devices_url :: "string \<Rightarrow> string" where
  "devices_url tailnet = ''https://api.tailscale.com/api/v2/tailnet/'' @ encodeURIComponent tailnet @ ''/devices''"

text \<open>The answer's schema: what it refuses is no \<open>HttpError\<close>.\<close>

definition TailscaleDeviceSchema :: "zod \<Rightarrow> device \<Rightarrow> bool" where
  "TailscaleDeviceSchema z d \<longleftrightarrow>
     1 \<le> length (dv_id d) \<and> length (dv_id d) \<le> 128 \<and> 1 \<le> length (dv_displayName d) \<and> length (dv_displayName d) \<le> 100 \<and>
     opt_ok (\<lambda>s. 1 \<le> length s \<and> length s \<le> 255) (dv_hostname d) \<and> HostSchema_json (Some (JStr (dv_host d))) \<noteq> None \<and>
     length (dv_addresses d) \<le> 16 \<and> list_all (\<lambda>s. 2 \<le> length s \<and> length s \<le> 64) (dv_addresses d) \<and>
     opt_ok (\<lambda>s. 1 \<le> length s \<and> length s \<le> 64) (dv_os d) \<and> opt_ok (z_datetime z) (dv_lastSeen d)"

definition fetched_devices :: "tailscale_api \<Rightarrow> int \<Rightarrow> api_response \<Rightarrow> http_error + device list" where
  "fetched_devices api now r =
     (if ar_status r = 401 \<or> ar_status r = 403
      then Inl (Http_Error 502 ''AUTH_CONFIGURATION_MISSING'' ''Tailscale rejected the configured API token'')
      else if ar_status r = 429 then Inl (Http_Error 503 ''RATE_LIMITED'' ''Tailscale API rate limit reached'')
      else if \<not> (200 \<le> ar_status r \<and> ar_status r \<le> 299) then unavailable ''Tailscale device discovery failed''
      else if (case to_number (default_to ''0'' (ar_contentLength r)) of Some n \<Rightarrow> n > of_nat MAX_RESPONSE_BYTES | None \<Rightarrow> False)
      then unavailable ''Tailscale device response is too large''
      else try_bind (readBoundedBody r) (\<lambda>body.
        case json_parse body of
          None \<Rightarrow> unavailable ''Tailscale returned invalid JSON''
        | Some payload \<Rightarrow> parseTailscaleDevices (ta_calendar api) now payload))"

definition fetchTailscaleDevices :: "tailscale_api \<Rightarrow> bindings \<Rightarrow> int \<Rightarrow> thrown + string \<times> device list" where
  "fetchTailscaleDevices api b now =
     try_bind (map_sum T_Http (\<lambda>c. c) (api_configuration b)) (\<lambda>(tailnet, token).
       try_bind (map_sum T_Http (\<lambda>ds. ds)
         (case ta_fetch api (devices_url tailnet) (''Basic '' @ btoa (utf8 (token @ '':''))) of
            None \<Rightarrow> unavailable ''Unable to reach the Tailscale API''
          | Some r \<Rightarrow> fetched_devices api now r))
       (\<lambda>devices. if list_all (TailscaleDeviceSchema (ta_zod api)) devices then Inr (tailnet, devices) else Inl T_Other))"

section \<open>Import\<close>

record import_request =
  im_deviceIds :: "string list"
  im_username :: string
  im_port :: int
  im_method :: string

definition AuthenticationMethodSchema :: "json option \<Rightarrow> string option" where
  "AuthenticationMethodSchema = z_enum [''password'', ''private_key'', ''tailscale_ssh'']"

definition device_ids :: "json option \<Rightarrow> string list option" where
  "device_ids v =
     (case v of
        Some (JArr xs) \<Rightarrow> do {
          ids \<leftarrow> seq_opt (map (\<lambda>x. z_str 1 128 (Some x)) xs);
          if 1 \<le> length ids \<and> length ids \<le> 50 \<and> distinct ids then Some ids else None }
      | _ \<Rightarrow> None)"

definition TailscaleImportRequestSchema :: "json option \<Rightarrow> import_request option" where
  "TailscaleImportRequestSchema v = do {
     kvs \<leftarrow> z_strict [''deviceIds'', ''username'', ''port'', ''authenticationMethod''] v;
     ids \<leftarrow> device_ids (map_of kvs ''deviceIds'');
     username \<leftarrow> UsernameSchema (map_of kvs ''username'');
     port \<leftarrow> PortSchema (map_of kvs ''port'');
     m \<leftarrow> AuthenticationMethodSchema (map_of kvs ''authenticationMethod'');
     if m = ''tailscale_ssh'' \<and> port \<noteq> 22 then None
     else Some \<lparr>im_deviceIds = ids, im_username = username, im_port = port, im_method = m\<rparr> }"

definition importCredential :: "string \<Rightarrow> credential_input" where
  "importCredential m =
     (if m = ''tailscale_ssh'' then Tailscale_Input
      else if m = ''password'' then Password_Input ''prompt'' None else Private_Key_Input ''prompt'' None None False)"

datatype skip_reason = Duplicate | Unauthorized | Missing_Magic_Dns

type_synonym skipped = "string \<times> string \<times> skip_reason"

definition target_key :: "string \<Rightarrow> int \<Rightarrow> string \<Rightarrow> string" where
  "target_key host port username = host @ [nul] @ show_int port @ [nul] @ username"

definition imported_profile :: "import_request \<Rightarrow> string \<Rightarrow> device \<Rightarrow> profile_create_request" where
  "imported_profile q username d =
     \<lparr>cq_name = dv_displayName d, cq_host = dv_host d, cq_port = im_port q, cq_username = username,
      cq_notes = ''Imported from Tailscale ('' @ dv_id d @ '')'', cq_initialCommand = None, cq_terminalType = ''xterm-256color'',
      cq_encoding = ''utf-8'', cq_credential = importCredential (im_method q)\<rparr>"

text \<open>The fresh identifier and the time of each profile are those of the device it is made for.\<close>

fun import_loop ::
  "vault \<Rightarrow> string \<Rightarrow> (string \<Rightarrow> string \<times> string) \<Rightarrow> string \<Rightarrow> import_request \<Rightarrow> string \<Rightarrow> (string \<Rightarrow> device option) \<Rightarrow>
     string list \<Rightarrow> string list \<Rightarrow> profile_view list \<Rightarrow> skipped list \<Rightarrow> profile_db \<Rightarrow> profile_db \<times> (thrown + profile_view list \<times> skipped list)" where
  "import_loop v violated fresh ownerId q username available [] existing created skipped db = (db, Inr (created, skipped))"
| "import_loop v violated fresh ownerId q username available (i # ids) existing created skipped db =
     (case available i of
        None \<Rightarrow> import_loop v violated fresh ownerId q username available ids existing created
          (skipped @ [(i, take 100 i, Missing_Magic_Dns)]) db
      | Some d \<Rightarrow>
          if \<not> dv_authorized d then import_loop v violated fresh ownerId q username available ids existing created
            (skipped @ [(i, dv_displayName d, Unauthorized)]) db
          else if target_key (dv_host d) (im_port q) username \<in> set existing
          then import_loop v violated fresh ownerId q username available ids existing created
            (skipped @ [(i, dv_displayName d, Duplicate)]) db
          else (case createFromRequest v violated ownerId (prod.fst (fresh i)) (prod.snd (fresh i)) (imported_profile q username d) db of
              (db', Inl m) \<Rightarrow> (db', Inl (thrown_of m))
            | (db', Inr p) \<Rightarrow> import_loop v violated fresh ownerId q username available ids
                (existing @ [target_key (dv_host d) (im_port q) username]) (created @ [p]) skipped db'))"

definition available_devices :: "device list \<Rightarrow> string \<Rightarrow> device option" where
  "available_devices devices i = map_of (rev (map (\<lambda>d. (dv_id d, d)) devices)) i"

definition selected_hosts :: "device list \<Rightarrow> string list \<Rightarrow> string list" where
  "selected_hosts devices ids = List.map_filter (\<lambda>i. case available_devices devices i of
     Some d \<Rightarrow> if dv_authorized d then Some (dv_host d) else None | None \<Rightarrow> None) ids"

definition existing_targets :: "string \<Rightarrow> string list \<Rightarrow> profile_db \<Rightarrow> thrown + string list" where
  "existing_targets ownerId hosts db =
     try_bind (repository (listTargetsByHosts ownerId hosts db)) (\<lambda>targets.
       repository (each (\<lambda>t. map_sum (\<lambda>m. m) (\<lambda>h. target_key h (pt_port t) (pt_username t)) (target_throws (normalizeHost (pt_host t)))) targets))"

text \<open>From the discovery on.\<close>

definition import_selected ::
  "vault \<Rightarrow> string \<Rightarrow> (string \<Rightarrow> string \<times> string) \<Rightarrow> string \<Rightarrow> import_request \<Rightarrow> device list \<Rightarrow> profile_db \<Rightarrow>
     profile_db \<times> (thrown + profile_view list \<times> skipped list)" where
  "import_selected v violated fresh ownerId q devices db =
     (case existing_targets ownerId (selected_hosts devices (im_deviceIds q)) db of
        Inl e \<Rightarrow> (db, Inl e)
      | Inr existing \<Rightarrow>
          import_loop v violated fresh ownerId q (trim (im_username q)) (available_devices devices) (im_deviceIds q) existing [] [] db)"

definition importDevices ::
  "tailscale_api \<Rightarrow> (string \<Rightarrow> url_parts option) \<Rightarrow> worker_env \<Rightarrow> vault \<Rightarrow> string \<Rightarrow> (string \<Rightarrow> string \<times> string) \<Rightarrow> bindings \<Rightarrow> int \<Rightarrow>
     string \<Rightarrow> import_request \<Rightarrow> tailscale_row list \<Rightarrow> profile_db \<Rightarrow> profile_db \<times> (thrown + profile_view list \<times> skipped list)" where
  "importDevices api url env v violated fresh b now ownerId q rows db =
     (case
       (if map_option trim (we_sshTransport env) \<noteq> Some ''tailnet_connector''
        then refuse 400 ''VALIDATION_FAILED'' ''Tailscale imports require tailnet_connector transport''
        else try_bind (map_sum (\<lambda>_. T_Other) (\<lambda>c. c) (getRuntimeConfig url env)) (\<lambda>runtime.
          try_bind (target_thrown (assertAllowedSshPort (of_int (im_port q)) (map_option (map of_int) (rc_allowedSshPorts runtime)))) (\<lambda>_.
          try_bind (repository (configuration_resolve v b ownerId rows)) (\<lambda>configuration.
            fetchTailscaleDevices api configuration now)))) of
        Inl e \<Rightarrow> (db, Inl e)
      | Inr (tailnet, devices) \<Rightarrow> import_selected v violated fresh ownerId q devices db)"

section \<open>The other handlers\<close>

definition configuration_answer :: "tailscale_view \<Rightarrow> thrown + tailscale_view" where
  "configuration_answer w = (if opt_ok (\<lambda>s. 1 \<le> length s \<and> length s \<le> 256) (tv_tailnet w) then Inr w else Inl T_Other)"

definition getConfiguration :: "bindings \<Rightarrow> string \<Rightarrow> tailscale_row list \<Rightarrow> thrown + tailscale_view" where
  "getConfiguration b ownerId rows = configuration_answer (configuration_get b ownerId rows)"

definition updateConfiguration ::
  "vault \<Rightarrow> bindings \<Rightarrow> string \<Rightarrow> tailscale_update \<Rightarrow> string \<Rightarrow> tailscale_row list \<Rightarrow> tailscale_row list \<times> (thrown + tailscale_view)" where
  "updateConfiguration v b ownerId input now rows =
     (if \<not> given (tu_apiToken input) \<and> \<not> tv_apiTokenConfigured (configuration_get b ownerId rows)
      then (rows, refuse 400 ''VALIDATION_FAILED'' ''A Tailscale API token is required'')
      else if given (tu_apiToken input) \<and> \<not> given (vt_masterKey v)
      then (rows, refuse 503 ''AUTH_CONFIGURATION_MISSING'' ''Credential encryption is not configured'')
      else (case configuration_update v b ownerId input now rows of
          (rows', r) \<Rightarrow> (rows', try_bind (repository r) configuration_answer)))"

definition listDevices :: "tailscale_api \<Rightarrow> vault \<Rightarrow> bindings \<Rightarrow> int \<Rightarrow> string \<Rightarrow> tailscale_row list \<Rightarrow> thrown + string \<times> device list" where
  "listDevices api v b now ownerId rows =
     try_bind (repository (configuration_resolve v b ownerId rows)) (\<lambda>configuration. fetchTailscaleDevices api configuration now)"

end
