(* ===== verification/Api_Routes.thy ===== *)
theory Api_Routes
  imports Tailscale
begin

text \<open>
  The HTTP API of the Worker: \<open>apps/worker/src/http/router.ts\<close> with the routes it dispatches to (\<open>auth.ts\<close>,
  \<open>profiles.ts\<close>, \<open>settings.ts\<close>, \<open>history.ts\<close>, \<open>tailscale.ts\<close>, \<open>ssh.ts\<close>) over one state that holds every table. A request
  is handled as a whole before the next one; \<open>Api_Secrets\<close> gives the update of a profile in the pieces between its awaits. Hints of an error beside status, code and message (\<open>retryable\<close>, the issues of
  a validation, headers such as \<open>Allow\<close>) and the fixed security headers are left out.
\<close>

section \<open>The application and its requests\<close>

datatype session_call =
    Ticket_Call string string string string ticket_request
  | Connect_Call string string string string

record session_reply =
  sy_status :: nat
  sy_issued :: "(string \<times> string \<times> string) option"
  sy_webSocket :: bool

record app =
  aw_worker :: worker_env
  aw_auth :: auth_env
  aw_google :: google_env
  aw_exchange :: "string \<Rightarrow> string \<Rightarrow> google_response option"
  aw_jwt :: "string \<Rightarrow> string \<Rightarrow> json option"
  aw_url :: "string \<Rightarrow> url_parts option"
  aw_zod :: zod
  aw_date :: "string \<Rightarrow> int option"
  aw_tailscale :: tailscale_api
  aw_tailnet :: bindings
  aw_sessions :: "session_call \<Rightarrow> session_reply"
  aw_addressHash :: "string \<Rightarrow> string"
  aw_d1 :: bool
  aw_r2 :: bool
  aw_durableObjects :: bool
  aw_assets :: bool

text \<open>What is fresh for one request: times, identifiers and random bytes.\<close>

record fresh =
  fr_now :: millis
  fr_later :: millis
  fr_attempt1 :: millis
  fr_attempt2 :: millis
  fr_iso :: string
  fr_uuid :: string
  fr_requestId :: string
  fr_bytes :: bytes
  fr_iv :: "secret_field \<Rightarrow> bytes"
  fr_google :: google_random
  fr_imports :: "string \<Rightarrow> string \<times> string"

record api_request =
  wq_web :: web_request
  wq_params :: "(string \<times> string) list"
  wq_text :: string

record app_state =
  wb_auth :: auth_db
  wb_oauth :: oauth_db
  wb_limiters :: "(string \<times> limiter_do) list"
  wb_profiles :: "profile_row list"
  wb_settings :: settings_db
  wb_history :: history_db
  wb_tailscale :: "tailscale_row list"
  wb_calls :: "session_call list"

datatype api_data =
    D_Health bool
  | D_Authenticated bool auth_session
  | D_Anonymous bool bool
  | D_Google_Url "(string \<times> string) list"
  | D_Ok
  | D_Totp_Secret string millis
  | D_Totp bool
  | D_Settings settings
  | D_Profile profile_view
  | D_Profiles "profile_view page"
  | D_Deleted string
  | D_Commands "command_row page"
  | D_Cleared nat
  | D_Sessions "session_item page"
  | D_Events "event_row list"
  | D_Tailnet tailscale_view
  | D_Devices string "device list"
  | D_Imported "profile_view list" "skipped list"
  | D_Ticket string string string
  | D_Redirect string
  | D_Failed_Redirect string
  | D_Https_Redirect
  | D_Preflight string
  | D_Asset
  | D_WebSocket
  | D_Error string string

text \<open>A status, what the body holds, and the cookies that are set.\<close>

type_synonym api_answer = "nat \<times> api_data \<times> string list"
type_synonym handled = "app_state \<times> (thrown + api_answer)"

definition apiJson :: "api_data \<Rightarrow> thrown + api_answer" where "apiJson d = Inr (200, d, [])"
definition api_created :: "api_data \<Rightarrow> thrown + api_answer" where "api_created d = Inr (201, d, [])"

definition w_method :: "api_request \<Rightarrow> string" where "w_method q = wr_method (wq_web q)"
definition w_path :: "api_request \<Rightarrow> string" where "w_path q = ur_pathname (wr_url (wq_web q))"
definition w_header :: "api_request \<Rightarrow> string \<Rightarrow> string option" where "w_header q name = wr_header (wq_web q) name"

definition auth_request_of :: "api_request \<Rightarrow> auth_request" where
  "auth_request_of q = \<lparr>aq_cookie = w_header q ''cookie'', aq_connectingIp = w_header q ''cf-connecting-ip'',
     aq_realIp = w_header q ''x-real-ip'', aq_userAgent = w_header q ''user-agent''\<rparr>"

definition w_vault :: "app \<Rightarrow> fresh \<Rightarrow> vault" where
  "w_vault w fr = \<lparr>vt_platform = ap_aead (ae_platform (aw_auth w)), vt_masterKey = ae_masterKey (aw_auth w), vt_iv = fr_iv fr\<rparr>"

definition is_date :: "app \<Rightarrow> string \<Rightarrow> bool" where "is_date w s \<longleftrightarrow> aw_date w s \<noteq> None"

definition body_of :: "api_request \<Rightarrow> (json option \<Rightarrow> 'a option) \<Rightarrow> nat \<Rightarrow> thrown + 'a" where
  "body_of q schema maxBytes = parseJson (wq_web q) (wq_text q) (\<lambda>j. schema (Some j)) maxBytes"

definition query_of :: "api_request \<Rightarrow> (json option \<Rightarrow> 'a option) \<Rightarrow> thrown + 'a" where
  "query_of q schema = parseQuery (wq_params q) (\<lambda>j. schema (Some j))"

definition MAX_API_JSON_BYTES :: nat where "MAX_API_JSON_BYTES = 1024 * 1024"

text \<open>A route that needs a session works for the account of that session.\<close>

definition with_owner :: "app \<Rightarrow> fresh \<Rightarrow> api_request \<Rightarrow> (string \<Rightarrow> app_state \<Rightarrow> handled) \<Rightarrow> app_state \<Rightarrow> handled" where
  "with_owner w fr q k st =
     (case requireAuthentication (aw_auth w) (auth_request_of q) (fr_now fr) (wb_auth st) of
        (db, Inl e) \<Rightarrow> (st\<lparr>wb_auth := db\<rparr>, Inl (T_Http e))
      | (db, Inr a) \<Rightarrow> k (us_id (au_user a)) (st\<lparr>wb_auth := db\<rparr>))"

section \<open>Settings\<close>

definition patchSettings :: "app \<Rightarrow> fresh \<Rightarrow> api_request \<Rightarrow> string \<Rightarrow> app_state \<Rightarrow> handled" where
  "patchSettings w fr q ownerId st =
     (case body_of q SettingsPatchRequestSchema (32 * 1024) of
        Inl e \<Rightarrow> (st, Inl e)
      | Inr patch \<Rightarrow>
          (case settings_update (ae_violated (aw_auth w)) (fr_iso fr) ownerId patch (wb_settings st) of
             (db, r) \<Rightarrow> (st\<lparr>wb_settings := db\<rparr>, try_bind (repository r) (\<lambda>s. apiJson (D_Settings s)))))"

definition routeSettings :: "app \<Rightarrow> fresh \<Rightarrow> api_request \<Rightarrow> app_state \<Rightarrow> handled" where
  "routeSettings w fr q st =
     (if w_method q \<noteq> ''GET'' \<and> w_method q \<noteq> ''PATCH'' then (st, methodNotAllowed)
      else with_owner w fr q (\<lambda>ownerId st.
        if w_method q = ''GET''
        then (case settings_get (fr_iso fr) ownerId (wb_settings st) of (db, s) \<Rightarrow> (st\<lparr>wb_settings := db\<rparr>, apiJson (D_Settings s)))
        else patchSettings w fr q ownerId st) st)"

section \<open>History\<close>

definition validateCursor :: "app \<Rightarrow> string option \<Rightarrow> thrown + unit" where
  "validateCursor w cursor =
     (case decodeTimeCursor (is_date w) cursor of
        Inr _ \<Rightarrow> Inr ()
      | Inl _ \<Rightarrow> refuse 400 ''VALIDATION_FAILED'' ''Invalid history cursor'')"

definition commandHistory :: "app \<Rightarrow> api_request \<Rightarrow> string \<Rightarrow> app_state \<Rightarrow> handled" where
  "commandHistory w q ownerId st =
     (if w_method q = ''GET''
      then (st, try_bind (query_of q (CommandHistoryQuerySchema (aw_zod w) (aw_date w))) (\<lambda>query.
        try_bind (validateCursor w (cq_cursor query)) (\<lambda>_.
        try_bind (repository (command_list (is_date w) ownerId query (wb_history st))) (\<lambda>page. apiJson (D_Commands page)))))
      else if w_method q = ''DELETE''
      then (case body_of q (HistoryClearRequestSchema (aw_zod w)) (16 * 1024) of
          Inl e \<Rightarrow> (st, Inl e)
        | Inr input \<Rightarrow>
            (case command_clear ownerId input (wb_history st) of (db, n) \<Rightarrow> (st\<lparr>wb_history := db\<rparr>, apiJson (D_Cleared n))))
      else (st, methodNotAllowed))"

definition sessionHistory :: "app \<Rightarrow> api_request \<Rightarrow> string \<Rightarrow> app_state \<Rightarrow> handled" where
  "sessionHistory w q ownerId st =
     (st, if w_method q \<noteq> ''GET'' then methodNotAllowed
      else try_bind (query_of q (SessionHistoryQuerySchema (aw_zod w))) (\<lambda>query.
        try_bind (validateCursor w (sq_cursor query)) (\<lambda>_.
        try_bind (repository (session_list (is_date w) ownerId query (wb_history st))) (\<lambda>page. apiJson (D_Sessions page)))))"

text \<open>The expression for identifiers, which ignores the case.\<close>

definition is_uuid :: "string \<Rightarrow> bool" where
  "is_uuid s \<longleftrightarrow>
     (case split_on CHR ''-'' (lower s) of
        [a, b, c, d, e] \<Rightarrow>
          length a = 8 \<and> length b = 4 \<and> length c = 4 \<and> length d = 4 \<and> length e = 12 \<and> list_all is_hex_lower (a @ b @ c @ d @ e) \<and>
          hd c \<in> set ''12345678'' \<and> hd d \<in> set ''89ab''
      | _ \<Rightarrow> False)"

definition sessionEvents :: "api_request \<Rightarrow> string \<Rightarrow> string \<Rightarrow> app_state \<Rightarrow> handled" where
  "sessionEvents q ownerId sessionId st =
     (st, if w_method q \<noteq> ''GET'' then methodNotAllowed
      else if \<not> is_uuid sessionId then refuse 400 ''VALIDATION_FAILED'' ''Invalid session identifier''
      else apiJson (D_Events (event_list ownerId sessionId 500 (wb_history st))))"

text \<open>The part of a path that the pattern \<open>prefix([^/]+)suffix\<close> captures.\<close>

definition path_part :: "string \<Rightarrow> string \<Rightarrow> string \<Rightarrow> string option" where
  "path_part pre suf path =
     (if starts_with pre path \<and> ends_with suf path \<and> length pre + length suf < length path
      then (let s = take (length path - length pre - length suf) (drop (length pre) path) in
            if CHR ''/'' \<in> set s then None else Some s)
      else None)"

definition routeHistory :: "app \<Rightarrow> fresh \<Rightarrow> api_request \<Rightarrow> app_state \<Rightarrow> handled" where
  "routeHistory w fr q st =
     with_owner w fr q (\<lambda>ownerId st.
       if w_path q = ''/api/history/commands'' then commandHistory w q ownerId st
       else if w_path q = ''/api/history/sessions'' then sessionHistory w q ownerId st
       else case path_part ''/api/history/sessions/'' ''/events'' (w_path q) of
           None \<Rightarrow> (st, not_found)
         | Some s \<Rightarrow>
             (case decodeURIComponent s of
                None \<Rightarrow> (st, Inl T_Other)
              | Some sessionId \<Rightarrow> sessionEvents q ownerId sessionId st)) st"

section \<open>Profiles\<close>

text \<open>The repository sees the table and which connection sessions have not ended.\<close>

definition profile_db_of :: "app_state \<Rightarrow> profile_db" where
  "profile_db_of st = \<lparr>pd_profiles = wb_profiles st,
     pd_active = List.map_filter (\<lambda>s. if ss_status s \<in> {''closed'', ''error''} then None
       else map_option (\<lambda>p. (p, ss_ownerId s)) (ss_profileId s)) (hy_sessions (wb_history st))\<rparr>"

definition with_profiles :: "app_state \<Rightarrow> profile_db \<Rightarrow> app_state" where
  "with_profiles st db = st\<lparr>wb_profiles := pd_profiles db\<rparr>"

definition parseProfileId :: "app \<Rightarrow> string \<Rightarrow> thrown + string" where
  "parseProfileId w v =
     (case decodeURIComponent v of
        None \<Rightarrow> Inl T_Other
      | Some decoded \<Rightarrow>
          if z_uuid (aw_zod w) decoded then Inr decoded else refuse 400 ''VALIDATION_FAILED'' ''Invalid profile identifier'')"

fun needsMasterKeyForUpdate :: "credential_update option \<Rightarrow> bool" where
  "needsMasterKeyForUpdate (Some (Password_Update s m)) \<longleftrightarrow> replaces m"
| "needsMasterKeyForUpdate (Some (Private_Key_Update s k p)) \<longleftrightarrow> replaces k \<or> replaces p"
| "needsMasterKeyForUpdate _ \<longleftrightarrow> False"

definition assertTailscaleSshProfile :: "app \<Rightarrow> string \<Rightarrow> int \<Rightarrow> thrown + unit" where
  "assertTailscaleSshProfile w m port =
     (if m \<noteq> ''tailscale_ssh'' then Inr ()
      else if map_option trim (we_sshTransport (aw_worker w)) \<noteq> Some ''tailnet_connector''
      then refuse 400 ''VALIDATION_FAILED'' ''Tailscale SSH profiles require tailnet_connector transport''
      else if port \<noteq> 22 then refuse 400 ''VALIDATION_FAILED'' ''Tailscale SSH profiles must use port 22''
      else Inr ())"

definition runtime :: "app \<Rightarrow> thrown + runtime_config" where
  "runtime w = map_sum (\<lambda>_. T_Other) (\<lambda>c. c) (getRuntimeConfig (aw_url w) (aw_worker w))"

definition assert_port :: "app \<Rightarrow> int \<Rightarrow> thrown + unit" where
  "assert_port w port =
     try_bind (runtime w) (\<lambda>rt. target_thrown (assertAllowedSshPort (of_int port) (map_option (map of_int) (rc_allowedSshPorts rt))))"

definition listProfiles :: "app \<Rightarrow> api_request \<Rightarrow> string \<Rightarrow> app_state \<Rightarrow> handled" where
  "listProfiles w q ownerId st =
     (st, try_bind (query_of q PageRequestSchema) (\<lambda>(cursor, limit).
        case listPage (is_date w) ownerId (of_int limit) cursor (profile_db_of st) of
          Inr page \<Rightarrow> apiJson (D_Profiles page)
        | Inl m \<Rightarrow>
            if m = ''Invalid pagination cursor'' then refuse 400 ''VALIDATION_FAILED'' ''Invalid profile cursor'' else Inl (thrown_of m)))"

fun credential_method :: "credential_input \<Rightarrow> string" where
  "credential_method (Password_Input _ _) = ''password''"
| "credential_method (Private_Key_Input _ _ _ _) = ''private_key''"
| "credential_method Tailscale_Input = ''tailscale_ssh''"

fun stores_secret :: "credential_input \<Rightarrow> bool" where
  "stores_secret (Password_Input persistence _) \<longleftrightarrow> persistence = ''saved''"
| "stores_secret (Private_Key_Input persistence _ _ savePassphrase) \<longleftrightarrow> persistence = ''saved'' \<or> savePassphrase"
| "stores_secret Tailscale_Input \<longleftrightarrow> False"

definition createProfile :: "app \<Rightarrow> fresh \<Rightarrow> api_request \<Rightarrow> string \<Rightarrow> app_state \<Rightarrow> handled" where
  "createProfile w fr q ownerId st =
     (case try_bind (body_of q ProfileCreateRequestSchema MAX_API_JSON_BYTES) (\<lambda>input.
           try_bind (assertTailscaleSshProfile w (credential_method (cq_credential input)) (cq_port input)) (\<lambda>_.
           try_bind (assert_port w (cq_port input)) (\<lambda>_.
             if stores_secret (cq_credential input) \<and> \<not> given (ae_masterKey (aw_auth w))
             then refuse 503 ''AUTH_CONFIGURATION_MISSING'' ''Credential encryption is not configured'' else Inr input))) of
        Inl e \<Rightarrow> (st, Inl e)
      | Inr input \<Rightarrow>
          (case createFromRequest (w_vault w fr) (ae_violated (aw_auth w)) ownerId (fr_uuid fr) (fr_iso fr) input (profile_db_of st) of
             (db, r) \<Rightarrow> (with_profiles st db, try_bind (repository r) (\<lambda>p. api_created (D_Profile p)))))"

definition profile_not_found :: "thrown + 'a" where
  "profile_not_found = refuse 404 ''PROFILE_NOT_FOUND'' ''Profile not found''"

definition existing_profile :: "string \<Rightarrow> string \<Rightarrow> app_state \<Rightarrow> thrown + profile_view" where
  "existing_profile ownerId profileId st =
     try_bind (repository (profile_get ownerId profileId (profile_db_of st))) (\<lambda>found.
       case found of None \<Rightarrow> profile_not_found | Some p \<Rightarrow> Inr p)"

definition getProfile :: "string \<Rightarrow> string \<Rightarrow> app_state \<Rightarrow> handled" where
  "getProfile ownerId profileId st = (st, try_bind (existing_profile ownerId profileId st) (\<lambda>p. apiJson (D_Profile p)))"

fun update_method :: "credential_update \<Rightarrow> string" where
  "update_method (Password_Update _ _) = ''password''"
| "update_method (Private_Key_Update _ _ _) = ''private_key''"
| "update_method Tailscale_Update = ''tailscale_ssh''"

text \<open>A credential that is to be saved must be replaced, or kept where one is stored.\<close>

fun credential_missing :: "credential_update option \<Rightarrow> profile_view \<Rightarrow> bool" where
  "credential_missing (Some (Password_Update s m)) e \<longleftrightarrow> s = ''saved'' \<and> (m = Clear \<or> m = Keep \<and> \<not> pv_hasPassword e)"
| "credential_missing (Some (Private_Key_Update s k p)) e \<longleftrightarrow> s = ''saved'' \<and> (k = Clear \<or> k = Keep \<and> \<not> pv_hasPrivateKey e)"
| "credential_missing _ e \<longleftrightarrow> False"

definition checkUpdate :: "app \<Rightarrow> api_request \<Rightarrow> string \<Rightarrow> string \<Rightarrow> app_state \<Rightarrow> thrown + profile_update_request" where
  "checkUpdate w q ownerId profileId st =
     try_bind (body_of q ProfileUpdateRequestSchema MAX_API_JSON_BYTES) (\<lambda>input.
       if needsMasterKeyForUpdate (uq_credential input) \<and> \<not> given (ae_masterKey (aw_auth w))
       then refuse 503 ''AUTH_CONFIGURATION_MISSING'' ''Credential encryption is not configured''
       else try_bind (existing_profile ownerId profileId st) (\<lambda>existing.
         let nextMethod = (case uq_credential input of Some c \<Rightarrow> update_method c | None \<Rightarrow> pv_authenticationMethod existing);
             nextPort = default_to (pv_port existing) (uq_port input) in
         try_bind (assertTailscaleSshProfile w nextMethod nextPort) (\<lambda>_.
         try_bind (assert_port w nextPort) (\<lambda>_.
           if credential_missing (uq_credential input) existing
           then refuse 400 ''PROFILE_CREDENTIAL_REQUIRED'' ''A saved credential is required for this authentication method''
           else Inr input))))"

definition updateProfile :: "app \<Rightarrow> fresh \<Rightarrow> api_request \<Rightarrow> string \<Rightarrow> string \<Rightarrow> app_state \<Rightarrow> handled" where
  "updateProfile w fr q ownerId profileId st =
     (case checkUpdate w q ownerId profileId st of
        Inl e \<Rightarrow> (st, Inl e)
      | Inr input \<Rightarrow>
          (case updateFromRequest (w_vault w fr) (ae_violated (aw_auth w)) ownerId profileId (fr_iso fr) input (profile_db_of st) of
             (db, r) \<Rightarrow> (with_profiles st db, try_bind (repository r) (\<lambda>found.
               case found of None \<Rightarrow> profile_not_found | Some p \<Rightarrow> apiJson (D_Profile p)))))"

text \<open>When a profile is deleted, the rows that refer to it keep no reference (\<open>ON DELETE SET NULL\<close>).\<close>

definition unlink_profile :: "string \<Rightarrow> history_db \<Rightarrow> history_db" where
  "unlink_profile profileId db = db\<lparr>
     hy_sessions := map (\<lambda>s. if ss_profileId s = Some profileId then s\<lparr>ss_profileId := None\<rparr> else s) (hy_sessions db),
     hy_commands := map (\<lambda>c. if cm_profileId c = Some profileId then c\<lparr>cm_profileId := None\<rparr> else c) (hy_commands db)\<rparr>"

definition deleteProfile :: "string \<Rightarrow> string \<Rightarrow> app_state \<Rightarrow> handled" where
  "deleteProfile ownerId profileId st =
     (case existing_profile ownerId profileId st of
        Inl e \<Rightarrow> (st, Inl e)
      | Inr p \<Rightarrow>
          (case deleteIfNoActiveSessions ownerId profileId (profile_db_of st) of
             (db, False) \<Rightarrow> (with_profiles st db, refuse 409 ''CONFLICT'' ''Disconnect active SSH sessions before deleting this profile'')
           | (db, True) \<Rightarrow>
               ((with_profiles st db)\<lparr>wb_history := unlink_profile profileId (wb_history st)\<rparr>, apiJson (D_Deleted profileId))))"

definition routeProfiles :: "app \<Rightarrow> fresh \<Rightarrow> api_request \<Rightarrow> app_state \<Rightarrow> handled" where
  "routeProfiles w fr q st =
     with_owner w fr q (\<lambda>ownerId st.
       if w_path q = ''/api/profiles''
       then (if w_method q = ''GET'' then listProfiles w q ownerId st
             else if w_method q = ''POST'' then createProfile w fr q ownerId st
             else (st, methodNotAllowed))
       else case path_part ''/api/profiles/'' [] (w_path q) of
           None \<Rightarrow> (st, not_found)
         | Some s \<Rightarrow>
             (case parseProfileId w s of
                Inl e \<Rightarrow> (st, Inl e)
              | Inr profileId \<Rightarrow>
                  if w_method q = ''GET'' then getProfile ownerId profileId st
                  else if w_method q = ''PATCH'' then updateProfile w fr q ownerId profileId st
                  else if w_method q = ''DELETE'' then deleteProfile ownerId profileId st
                  else (st, methodNotAllowed))) st"

section \<open>Tailscale\<close>

definition putConfiguration :: "app \<Rightarrow> fresh \<Rightarrow> api_request \<Rightarrow> string \<Rightarrow> app_state \<Rightarrow> handled" where
  "putConfiguration w fr q ownerId st =
     (case body_of q TailscaleConfigurationUpdateRequestSchema MAX_API_JSON_BYTES of
        Inl e \<Rightarrow> (st, Inl e)
      | Inr input \<Rightarrow>
          (case updateConfiguration (w_vault w fr) (aw_tailnet w) ownerId input (fr_iso fr) (wb_tailscale st) of
             (rows, r) \<Rightarrow> (st\<lparr>wb_tailscale := rows\<rparr>, try_bind r (\<lambda>c. apiJson (D_Tailnet c)))))"

definition postImport :: "app \<Rightarrow> fresh \<Rightarrow> api_request \<Rightarrow> string \<Rightarrow> app_state \<Rightarrow> handled" where
  "postImport w fr q ownerId st =
     (case body_of q TailscaleImportRequestSchema MAX_API_JSON_BYTES of
        Inl e \<Rightarrow> (st, Inl e)
      | Inr input \<Rightarrow>
          (case importDevices (aw_tailscale w) (aw_url w) (aw_worker w) (w_vault w fr) (ae_violated (aw_auth w)) (fr_imports fr)
              (aw_tailnet w) (fr_now fr) ownerId input (wb_tailscale st) (profile_db_of st) of
             (db, r) \<Rightarrow> (with_profiles st db, try_bind r (\<lambda>(created, skipped). api_created (D_Imported created skipped)))))"

definition routeTailscale :: "app \<Rightarrow> fresh \<Rightarrow> api_request \<Rightarrow> app_state \<Rightarrow> handled" where
  "routeTailscale w fr q st =
     with_owner w fr q (\<lambda>ownerId st.
       if w_path q = ''/api/tailscale/configuration''
       then (if w_method q = ''GET''
             then (st, try_bind (getConfiguration (aw_tailnet w) ownerId (wb_tailscale st)) (\<lambda>c. apiJson (D_Tailnet c)))
             else if w_method q = ''PUT'' then putConfiguration w fr q ownerId st
             else (st, methodNotAllowed))
       else if w_path q = ''/api/tailscale/devices''
       then (st, if w_method q = ''GET''
             then try_bind (listDevices (aw_tailscale w) (w_vault w fr) (aw_tailnet w) (fr_now fr) ownerId (wb_tailscale st))
               (\<lambda>(tailnet, devices). apiJson (D_Devices tailnet devices))
             else methodNotAllowed)
       else if w_path q = ''/api/tailscale/import''
       then (if w_method q = ''POST'' then postImport w fr q ownerId st else (st, methodNotAllowed))
       else (st, not_found)) st"

section \<open>Accounts\<close>

text \<open>The limiters of the caller's address and of the account.\<close>

definition limiter_of :: "string \<Rightarrow> app_state \<Rightarrow> limiter_do" where
  "limiter_of name st = default_to limiter_empty (map_of (wb_limiters st) name)"

definition ip_name :: "app \<Rightarrow> api_request \<Rightarrow> string" where
  "ip_name w q = ''ip:'' @ aw_addressHash w (take 512 (getClientAddress (auth_request_of q)))"

definition loginLimiters :: "app \<Rightarrow> api_request \<Rightarrow> app_state \<Rightarrow> login_limiters" where
  "loginLimiters w q st = \<lparr>ip_limiter = limiter_of (ip_name w q) st, account_limiter = limiter_of ''account:admin'' st\<rparr>"

definition with_limiters :: "app \<Rightarrow> api_request \<Rightarrow> login_limiters \<Rightarrow> app_state \<Rightarrow> app_state" where
  "with_limiters w q l st = st\<lparr>wb_limiters :=
     AList.update (ip_name w q) (ip_limiter l) (AList.update ''account:admin'' (account_limiter l) (wb_limiters st))\<rparr>"

text \<open>Where a handler says that the body was refused, the answer is what reading it threw.\<close>

definition parsed_error :: "(thrown + 'a) \<Rightarrow> http_error \<Rightarrow> thrown" where
  "parsed_error parsed e =
     (case parsed of
        Inl t \<Rightarrow> if e = Http_Error 400 ''VALIDATION_FAILED'' ''Request validation failed'' then t else T_Http e
      | Inr _ \<Rightarrow> T_Http e)"

definition some_parsed :: "(thrown + 'a) \<Rightarrow> 'a option" where
  "some_parsed parsed = (case parsed of Inl _ \<Rightarrow> None | Inr x \<Rightarrow> Some x)"

definition postLogin :: "app \<Rightarrow> fresh \<Rightarrow> api_request \<Rightarrow> app_state \<Rightarrow> handled" where
  "postLogin w fr q st =
     (let parsed = body_of q LoginRequestSchema (8 * 1024) in
      case handleLogin (aw_auth w) (auth_request_of q) (some_parsed parsed) (fr_attempt1 fr) (fr_attempt2 fr) (fr_now fr) (fr_uuid fr)
          (fr_bytes fr) (loginLimiters w q st) (wb_auth st) of
        (l, db, r) \<Rightarrow>
          ((with_limiters w q l st)\<lparr>wb_auth := db\<rparr>,
           case r of
             Inl e \<Rightarrow> Inl (parsed_error parsed e)
           | Inr (cookie, s) \<Rightarrow>
               Inr (200, D_Authenticated (case findById (as_ownerId s) db of Some u \<Rightarrow> totpEnabled u | None \<Rightarrow> False) s, [cookie])))"

definition google_config_of :: "app \<Rightarrow> google_error + google_config" where
  "google_config_of w = getGoogleOidcConfig (aw_url w) (aw_google w)"

definition google_service_of :: "app \<Rightarrow> google_config \<Rightarrow> google_service" where
  "google_service_of w config = \<lparr>gs_config = config, gs_platform = ae_platform (aw_auth w), gs_masterKey = ae_masterKey (aw_auth w),
     gs_sessionKey = ae_sessionKey (aw_auth w), gs_exchange = aw_exchange w, gs_jwt = aw_jwt w\<rparr>"

definition google_missing :: "thrown + 'a" where
  "google_missing = refuse 503 ''AUTH_CONFIGURATION_MISSING'' ''Google authentication is not configured''"

fun google_thrown :: "google_error \<Rightarrow> thrown + 'a" where
  "google_thrown (Google_Error code m) = (if code = ''configuration'' then google_missing else Inl T_Other)"

definition begin_google :: "app \<Rightarrow> fresh \<Rightarrow> api_request \<Rightarrow> google_config \<Rightarrow> app_state \<Rightarrow> handled" where
  "begin_google w fr q config st =
     (case assertLoginAllowed (fr_attempt1 fr) (fr_attempt2 fr) (loginLimiters w q st) of
        (l, Inl retry) \<Rightarrow> (with_limiters w q l st, refuse 429 ''RATE_LIMITED'' ''Too many login attempts'')
      | (l, Inr _) \<Rightarrow>
          (let st = with_limiters w q l st in
           case ensureAdmin (the (ae_adminHash (aw_auth w))) (fr_uuid fr) (fr_now fr) (wb_auth st) of
             (db, Inl _) \<Rightarrow> (st\<lparr>wb_auth := db\<rparr>, Inl T_Other)
           | (db, Inr _) \<Rightarrow>
               (case google_begin (google_service_of w config) (ae_violated (aw_auth w)) (fr_google fr)
                   (Some (default_to ''/'' (map_of (wq_params q) ''returnTo''))) (fr_now fr) (wb_oauth st) of
                  (od, Inl e) \<Rightarrow> (st\<lparr>wb_auth := db, wb_oauth := od\<rparr>, google_thrown e)
                | (od, Inr (query, browserToken, expiresAt)) \<Rightarrow>
                    (st\<lparr>wb_auth := db, wb_oauth := od\<rparr>,
                     case googleOidcCookie browserToken of Inl _ \<Rightarrow> Inl T_Other | Inr c \<Rightarrow> Inr (200, D_Google_Url query, [c])))))"

definition handleGoogleStart :: "app \<Rightarrow> fresh \<Rightarrow> api_request \<Rightarrow> app_state \<Rightarrow> handled" where
  "handleGoogleStart w fr q st =
     (if \<not> configured_key (ae_sessionKey (aw_auth w)) then (st, Inl (T_Http (not_configured ''Authentication'')))
      else case assertRequestOrigin (aw_url w) (aw_worker w) False (wq_web q) of
          Inl e \<Rightarrow> (st, Inl e)
        | Inr _ \<Rightarrow>
            if \<not> configured_key (ae_masterKey (aw_auth w)) \<or> \<not> configured_key (ae_adminHash (aw_auth w)) then (st, google_missing)
            else (case google_config_of w of
                Inl e \<Rightarrow> (st, google_thrown e)
              | Inr config \<Rightarrow>
                  (case aw_url w (gc_redirectUri config) of
                     None \<Rightarrow> (st, Inl T_Other)
                   | Some u \<Rightarrow>
                       if ur_origin (wr_url (wq_web q)) \<noteq> ur_origin u then (st, google_missing)
                       else begin_google w fr q config st)))"

definition singleQueryValue :: "api_request \<Rightarrow> string \<Rightarrow> string option" where
  "singleQueryValue q name =
     (case filter (\<lambda>kv. prod.fst kv = name) (wq_params q) of [kv] \<Rightarrow> Some (prod.snd kv) | _ \<Rightarrow> None)"

definition callback_query_of :: "api_request \<Rightarrow> callback_query" where
  "callback_query_of q = \<lparr>cb_state = singleQueryValue q ''state'', cb_error = singleQueryValue q ''error'', cb_code = singleQueryValue q ''code''\<rparr>"

definition clearGoogleOidcCookie :: string where
  "clearGoogleOidcCookie = ''__Host-edgesh_google_oidc=; Path=/; Max-Age=0; HttpOnly; Secure; SameSite=Lax''"

definition failed_redirect :: "string \<Rightarrow> thrown + api_answer" where
  "failed_redirect returnTo = Inr (303, D_Failed_Redirect returnTo, [clearGoogleOidcCookie])"

definition getGoogleCallback :: "app \<Rightarrow> fresh \<Rightarrow> api_request \<Rightarrow> app_state \<Rightarrow> handled" where
  "getGoogleCallback w fr q st =
     (case google_config_of w of
        Inl e \<Rightarrow> (st, failed_redirect ''/'')
      | Inr config \<Rightarrow>
          (case aw_url w (gc_redirectUri config) of
             None \<Rightarrow> (st, failed_redirect ''/'')
           | Some expected \<Rightarrow>
               (case handleGoogleCallback (aw_auth w) (google_service_of w config) (auth_request_of q) (callback_query_of q)
                   (wr_url (wq_web q)) expected (fr_now fr) (fr_later fr) (fr_bytes fr) (loginLimiters w q st) (wb_auth st) (wb_oauth st) of
                  (l, db, od, r) \<Rightarrow>
                    ((with_limiters w q l st)\<lparr>wb_auth := db, wb_oauth := od\<rparr>,
                     case r of
                       Inl returnTo \<Rightarrow> failed_redirect returnTo
                     | Inr (returnTo, cookie, s) \<Rightarrow> Inr (303, D_Redirect returnTo, [clearGoogleOidcCookie, cookie])))))"

definition googleOidcConfigured :: "app \<Rightarrow> bool" where
  "googleOidcConfigured w \<longleftrightarrow>
     list_all (\<lambda>v. trimmed v \<noteq> None) [ge_clientId (aw_google w), ge_clientSecret (aw_google w), ge_redirectUri (aw_google w), ge_allowedEmails (aw_google w)] \<and>
     \<not> isl (google_config_of w)"

definition getState :: "app \<Rightarrow> fresh \<Rightarrow> api_request \<Rightarrow> app_state \<Rightarrow> handled" where
  "getState w fr q st =
     (case optionalAuthentication (aw_auth w) (auth_request_of q) (fr_now fr) (wb_auth st) of
        (db, Some a) \<Rightarrow> (st\<lparr>wb_auth := db\<rparr>, apiJson (D_Authenticated (totpEnabled (au_user a)) (au_session a)))
      | (db, None) \<Rightarrow>
          (let google = googleOidcConfigured w \<and> configured_key (ae_sessionKey (aw_auth w)) \<and> configured_key (ae_masterKey (aw_auth w))
             \<and> configured_key (ae_adminHash (aw_auth w)) in
           if \<not> configured_key (ae_adminHash (aw_auth w)) then (st\<lparr>wb_auth := db\<rparr>, apiJson (D_Anonymous False google))
           else case ensureAdmin (the (ae_adminHash (aw_auth w))) (fr_uuid fr) (fr_now fr) db of
               (db, Inl _) \<Rightarrow> (st\<lparr>wb_auth := db\<rparr>, Inl T_Other)
             | (db, Inr user) \<Rightarrow> (st\<lparr>wb_auth := db\<rparr>, apiJson (D_Anonymous (totpEnabled user) google))))"

definition postTotpSetup :: "app \<Rightarrow> fresh \<Rightarrow> api_request \<Rightarrow> app_state \<Rightarrow> handled" where
  "postTotpSetup w fr q st =
     (case handleTotpSetup (aw_auth w) (auth_request_of q) (fr_bytes fr) (fr_iv fr F_PendingTotp) (fr_now fr) (wb_auth st) of
        (db, r) \<Rightarrow> (st\<lparr>wb_auth := db\<rparr>,
          case r of Inl e \<Rightarrow> Inl (T_Http e) | Inr (secret, expiresAt) \<Rightarrow> api_created (D_Totp_Secret secret expiresAt)))"

definition postTotpConfirm :: "app \<Rightarrow> fresh \<Rightarrow> api_request \<Rightarrow> app_state \<Rightarrow> handled" where
  "postTotpConfirm w fr q st =
     (let parsed = body_of q TotpEnrollmentConfirmRequestSchema (8 * 1024) in
      case handleTotpConfirm (aw_auth w) (auth_request_of q) (some_parsed parsed) (fr_iv fr F_Totp) (fr_now fr) (wb_auth st) of
        (db, r) \<Rightarrow> (st\<lparr>wb_auth := db\<rparr>, case r of Inl e \<Rightarrow> Inl (parsed_error parsed e) | Inr _ \<Rightarrow> apiJson (D_Totp True)))"

definition deleteTotp :: "app \<Rightarrow> fresh \<Rightarrow> api_request \<Rightarrow> app_state \<Rightarrow> handled" where
  "deleteTotp w fr q st =
     (let parsed = body_of q TotpDisableRequestSchema (8 * 1024) in
      case handleTotpDisable (aw_auth w) (auth_request_of q) (some_parsed parsed) (fr_now fr) (wb_auth st) of
        (db, r) \<Rightarrow> (st\<lparr>wb_auth := db\<rparr>, case r of Inl e \<Rightarrow> Inl (parsed_error parsed e) | Inr _ \<Rightarrow> apiJson (D_Totp False)))"

definition only :: "string \<Rightarrow> api_request \<Rightarrow> (app_state \<Rightarrow> handled) \<Rightarrow> app_state \<Rightarrow> handled" where
  "only m q k st = (if w_method q \<noteq> m then (st, methodNotAllowed) else k st)"

definition routeAuth :: "app \<Rightarrow> fresh \<Rightarrow> api_request \<Rightarrow> app_state \<Rightarrow> handled" where
  "routeAuth w fr q st =
     (let path = w_path q in
      if path = ''/api/auth/google/start'' then only ''POST'' q (handleGoogleStart w fr q) st
      else if path = ''/api/auth/google/callback'' then only ''GET'' q (getGoogleCallback w fr q) st
      else if path = ''/api/auth/login'' then only ''POST'' q (postLogin w fr q) st
      else if path = ''/api/auth/logout''
      then only ''POST'' q (\<lambda>st. (st\<lparr>wb_auth := handleLogout (aw_auth w) (auth_request_of q) (fr_now fr) (wb_auth st)\<rparr>,
        Inr (200, D_Ok, [clearSessionCookie]))) st
      else if path = ''/api/auth/state'' then only ''GET'' q (getState w fr q) st
      else if path = ''/api/auth/totp/setup'' then only ''POST'' q (postTotpSetup w fr q) st
      else if path = ''/api/auth/totp/confirm'' then only ''POST'' q (postTotpConfirm w fr q) st
      else if path = ''/api/auth/totp'' then only ''DELETE'' q (deleteTotp w fr q) st
      else (st, not_found))"

section \<open>Terminal sessions\<close>

text \<open>
  The session objects are an argument: what \<open>fetch\<close> on the object of a session answers to a call. The calls are kept in
  the order they are made.
\<close>

definition verifiedOrigin :: "api_request \<Rightarrow> thrown + string" where
  "verifiedOrigin q =
     (case w_header q ''origin'' of
        Some (c # s) \<Rightarrow> Inr (c # s)
      | _ \<Rightarrow> refuse 403 ''CSRF_REJECTED'' ''Request origin is not allowed'')"

definition SshTicketResponseSchema :: "zod \<Rightarrow> string \<Rightarrow> string \<Rightarrow> string \<Rightarrow> string \<Rightarrow> bool" where
  "SshTicketResponseSchema z requestId sessionId ticket expiresAt \<longleftrightarrow>
     z_uuid z requestId \<and> z_uuid z sessionId \<and> 32 \<le> length ticket \<and> length ticket \<le> 4096 \<and> z_datetime z expiresAt"

definition ticket_answer :: "app \<Rightarrow> string \<Rightarrow> session_reply \<Rightarrow> thrown + api_answer" where
  "ticket_answer w requestId r =
     (if 200 \<le> sy_status r \<and> sy_status r \<le> 299
      then (case sy_issued r of
          Some (ticket, expiresAt, sessionId) \<Rightarrow>
            if SshTicketResponseSchema (aw_zod w) requestId sessionId ticket expiresAt then api_created (D_Ticket sessionId ticket expiresAt) else Inl T_Other
        | None \<Rightarrow> Inl T_Other)
      else if sy_status r = 400 then refuse 400 ''SSH_TARGET_REJECTED'' ''Tailscale SSH requires tailnet_connector transport and port 22''
      else if sy_status r = 404 then profile_not_found
      else if sy_status r = 422 then refuse 400 ''PROFILE_CREDENTIAL_REQUIRED'' ''A connection credential is required''
      else if sy_status r = 409 then refuse 409 ''CONFLICT'' ''An SSH ticket already exists''
      else refuse 503 ''SERVICE_UNAVAILABLE'' ''Unable to create an SSH ticket'')"

definition call_session :: "app \<Rightarrow> session_call \<Rightarrow> (session_reply \<Rightarrow> thrown + api_answer) \<Rightarrow> app_state \<Rightarrow> handled" where
  "call_session w c k st = (st\<lparr>wb_calls := wb_calls st @ [c]\<rparr>, k (aw_sessions w c))"

definition createSshTicket :: "app \<Rightarrow> fresh \<Rightarrow> string \<Rightarrow> api_request \<Rightarrow> app_state \<Rightarrow> handled" where
  "createSshTicket w fr requestId q st =
     (if w_method q \<noteq> ''POST'' then (st, methodNotAllowed)
      else with_owner w fr q (\<lambda>ownerId st.
        if \<not> configured_key (ae_sessionKey (aw_auth w))
        then (st, refuse 503 ''AUTH_CONFIGURATION_MISSING'' ''SSH ticket signing is not configured'')
        else case try_bind (body_of q (SshTicketRequestSchema (aw_zod w)) MAX_API_JSON_BYTES)
               (\<lambda>input. map_sum (\<lambda>e. e) (\<lambda>origin. (input, origin)) (verifiedOrigin q)) of
            Inl e \<Rightarrow> (st, Inl e)
          | Inr (input, origin) \<Rightarrow>
              call_session w (Ticket_Call (fr_uuid fr) (the (ae_sessionKey (aw_auth w))) origin ownerId input) (ticket_answer w requestId) st) st)"

definition connect_answer :: "session_reply \<Rightarrow> thrown + api_answer" where
  "connect_answer r =
     (if sy_status r = 401 then refuse 401 ''SSH_TICKET_INVALID'' ''SSH ticket is invalid, expired, or already used''
      else if \<not> sy_webSocket r then refuse 503 ''SERVICE_UNAVAILABLE'' ''Unable to open the SSH WebSocket''
      else Inr (sy_status r, D_WebSocket, []))"

definition connect_params :: "app \<Rightarrow> api_request \<Rightarrow> thrown + string \<times> string \<times> string" where
  "connect_params w q =
     (case (map_of (wq_params q) ''session'', map_of (wq_params q) ''ticket'') of
        (Some sessionId, Some ticket) \<Rightarrow>
          if \<not> z_uuid (aw_zod w) sessionId \<or> ticket = [] \<or> length ticket > 4096
          then refuse 401 ''SSH_TICKET_INVALID'' ''Invalid SSH session ticket''
          else if map_of (wq_params q) ''protocolVersion'' \<noteq> Some (show_int WS_PROTOCOL_VERSION)
          then refuse 400 ''PROTOCOL_VERSION_UNSUPPORTED'' ''WebSocket protocol version is unsupported''
          else map_sum (\<lambda>e. e) (\<lambda>origin. (sessionId, ticket, origin)) (verifiedOrigin q)
      | _ \<Rightarrow> refuse 401 ''SSH_TICKET_INVALID'' ''Invalid SSH session ticket'')"

definition upgradeSsh :: "app \<Rightarrow> fresh \<Rightarrow> api_request \<Rightarrow> app_state \<Rightarrow> handled" where
  "upgradeSsh w fr q st =
     (if w_method q \<noteq> ''GET'' then (st, methodNotAllowed)
      else if map_option lower (w_header q ''upgrade'') \<noteq> Some ''websocket''
      then (st, refuse 426 ''BAD_REQUEST'' ''WebSocket upgrade required'')
      else with_owner w fr q (\<lambda>ownerId st.
        case connect_params w q of
          Inl e \<Rightarrow> (st, Inl e)
        | Inr (sessionId, ticket, origin) \<Rightarrow> call_session w (Connect_Call sessionId ticket ownerId origin) connect_answer st) st)"

section \<open>The router\<close>

definition health :: "app \<Rightarrow> api_data" where
  "health w = D_Health (aw_d1 w \<and> aw_r2 w \<and> aw_durableObjects w \<and> aw_assets w \<and>
     (we_appEnv (aw_worker w) = Some ''production'' \<longrightarrow>
        configured_key (ae_adminHash (aw_auth w)) \<and> configured_key (ae_masterKey (aw_auth w)) \<and> configured_key (ae_sessionKey (aw_auth w))) \<and>
     \<not> isl (runtime w))"

definition apiRoute :: "app \<Rightarrow> fresh \<Rightarrow> string \<Rightarrow> api_request \<Rightarrow> app_state \<Rightarrow> handled" where
  "apiRoute w fr requestId q st =
     (let path = w_path q in
      if path = ''/api/health'' then (st, if w_method q \<noteq> ''GET'' then methodNotAllowed else apiJson (health w))
      else if starts_with ''/api/auth/'' path then routeAuth w fr q st
      else if path = ''/api/settings'' then routeSettings w fr q st
      else if path = ''/api/profiles'' \<or> starts_with ''/api/profiles/'' path then routeProfiles w fr q st
      else if starts_with ''/api/history/'' path then routeHistory w fr q st
      else if starts_with ''/api/tailscale/'' path then routeTailscale w fr q st
      else if path = ''/api/ssh/tickets'' then createSshTicket w fr requestId q st
      else (st, not_found))"

definition request_id :: "fresh \<Rightarrow> api_request \<Rightarrow> string" where
  "request_id fr q =
     (case map_option trim (w_header q ''x-request-id'') of
        Some supplied \<Rightarrow> if supplied \<noteq> [] \<and> is_uuid supplied then lower supplied else fr_requestId fr
      | None \<Rightarrow> fr_requestId fr)"

record reply =
  rp_status :: nat
  rp_data :: api_data
  rp_cookies :: "string list"
  rp_cors :: "string option"
  rp_requestId :: "string option"

definition publicError :: "thrown \<Rightarrow> api_answer" where
  "publicError e =
     (case e of
        T_Http (Http_Error status code message) \<Rightarrow> (status, D_Error code message, [])
      | T_Origin \<Rightarrow> (403, D_Error ''CSRF_REJECTED'' ''Request origin is not allowed'', [])
      | T_Target message \<Rightarrow> (400, D_Error ''SSH_TARGET_REJECTED'' message, [])
      | T_Other \<Rightarrow> (500, D_Error ''INTERNAL_ERROR'' ''Internal server error'', []))"

definition plain_reply :: "api_answer \<Rightarrow> reply" where
  "plain_reply = (\<lambda>(status, d, cookies). \<lparr>rp_status = status, rp_data = d, rp_cookies = cookies, rp_cors = None, rp_requestId = None\<rparr>)"

definition finalizeApiResponse :: "app \<Rightarrow> string \<Rightarrow> api_request \<Rightarrow> api_answer \<Rightarrow> thrown + reply" where
  "finalizeApiResponse w requestId q a =
     map_sum (\<lambda>e. e) (\<lambda>cors. (plain_reply a)\<lparr>rp_cors := cors, rp_requestId := Some requestId\<rparr>)
       (corsOrigin (aw_url w) (aw_worker w) (wq_web q))"

definition is_api :: "api_request \<Rightarrow> bool" where "is_api q \<longleftrightarrow> w_path q = ''/api'' \<or> starts_with ''/api/'' (w_path q)"
definition is_websocket :: "api_request \<Rightarrow> bool" where "is_websocket q \<longleftrightarrow> w_path q = ''/ws'' \<or> starts_with ''/ws/'' (w_path q)"

text \<open>The body of the \<open>try\<close>.\<close>

definition dispatchRequest :: "app \<Rightarrow> fresh \<Rightarrow> api_request \<Rightarrow> app_state \<Rightarrow> app_state \<times> (thrown + reply)" where
  "dispatchRequest w fr q st =
     (let requestId = request_id fr q; plain = (\<lambda>a. Inr (plain_reply a)) in
      if isTlsRequiredRedirect (aw_worker w) (wq_web q)
      then (st, if \<not> is_api q \<and> \<not> is_websocket q \<and> (w_method q = ''GET'' \<or> w_method q = ''HEAD'')
          then plain (308, D_Https_Redirect, []) else refuse 403 ''UNAUTHORIZED'' ''HTTPS is required'')
      else if is_api q \<and> w_method q = ''OPTIONS''
      then (st, try_bind (preflight (aw_url w) (aw_worker w) (wq_web q)) (\<lambda>origin. finalizeApiResponse w requestId q (204, D_Preflight origin, [])))
      else if is_api q
      then (case assertRequestOrigin (aw_url w) (aw_worker w) False (wq_web q) of
          Inl e \<Rightarrow> (st, Inl e)
        | Inr _ \<Rightarrow> (case apiRoute w fr requestId q st of (st', r) \<Rightarrow> (st', try_bind r (finalizeApiResponse w requestId q))))
      else if w_path q = ''/ws/ssh''
      then (case assertRequestOrigin (aw_url w) (aw_worker w) True (wq_web q) of
          Inl e \<Rightarrow> (st, Inl e)
        | Inr _ \<Rightarrow> (case upgradeSsh w fr q st of (st', r) \<Rightarrow> (st', try_bind r plain)))
      else if is_websocket q then (st, not_found)
      else (st, if aw_assets w then plain (200, D_Asset, []) else refuse 503 ''SERVICE_UNAVAILABLE'' ''Static assets are unavailable''))"

text \<open>\<open>Inl\<close>: the handler itself throws, which happens where the answer to an error cannot be finished either.\<close>

definition routeRequest :: "app \<Rightarrow> fresh \<Rightarrow> api_request \<Rightarrow> app_state \<Rightarrow> app_state \<times> (thrown + reply)" where
  "routeRequest w fr q st =
     (case dispatchRequest w fr q st of
        (st', Inr r) \<Rightarrow> (st', Inr r)
      | (st', Inl e) \<Rightarrow>
          (st', if is_api q \<or> is_websocket q then finalizeApiResponse w (request_id fr q) q (publicError e)
                else Inr (plain_reply (publicError e))))"

end
