(* ===== verification/Api_Facts.thy ===== *)
theory Api_Facts
  imports Api_Routes
begin

text \<open>
  What the API as a whole promises of one request. It changes what the tables hold for one account at most, and only with a
  live session of that account and past the check of its origin; and accounts, logins and login counters are changed only under
  \<open>/api/auth/\<close>, but for the time at which a login was last seen.
\<close>

section \<open>What an account has\<close>

definition stored :: "string \<Rightarrow> app_state \<Rightarrow>
    profile_row list \<times> stored_session list \<times> command_row list \<times> event_row list \<times> tailscale_row list" where
  "stored x st = (filter (\<lambda>r. pr_owner_id r = x) (wb_profiles st), filter (\<lambda>s. ss_ownerId s = x) (hy_sessions (wb_history st)),
     filter (\<lambda>c. cm_ownerId c = x) (hy_commands (wb_history st)), filter (\<lambda>e. ev_ownerId e = x) (hy_events (wb_history st)),
     filter (\<lambda>r. tw_owner_id r = x) (wb_tailscale st))"

definition settings_of :: "string \<Rightarrow> app_state \<Rightarrow> settings_row list" where
  "settings_of x st = filter (\<lambda>r. sw_owner_id r = x) (wb_settings st)"

fun call_owner :: "session_call \<Rightarrow> string" where
  "call_owner (Ticket_Call sessionId key origin ownerId request) = ownerId"
| "call_owner (Connect_Call sessionId ticket ownerId origin) = ownerId"

text \<open>Only what belongs to \<open>ownerId\<close> changes, and with a safe method only the row of settings that reading them makes.\<close>

definition settings_made :: "string \<Rightarrow> app_state \<Rightarrow> app_state \<Rightarrow> bool" where
  "settings_made ownerId st st' \<longleftrightarrow> settings_of ownerId st = [] \<and> (\<exists>now. settings_of ownerId st' = [settings_defaults now ownerId])"

definition touches :: "api_request \<Rightarrow> string \<Rightarrow> app_state \<Rightarrow> app_state \<Rightarrow> bool" where
  "touches q ownerId st st' \<longleftrightarrow>
     (\<forall>x. x \<noteq> ownerId \<longrightarrow> stored x st' = stored x st \<and> settings_of x st' = settings_of x st) \<and>
     (w_method q \<notin> set UNSAFE_METHODS \<longrightarrow> (\<forall>x. stored x st' = stored x st) \<and>
        (settings_of ownerId st' = settings_of ownerId st \<or> settings_made ownerId st st')) \<and>
     (\<exists>cs. wb_calls st' = wb_calls st @ cs \<and> list_all (\<lambda>c. call_owner c = ownerId) cs)"

definition same_data :: "app_state \<Rightarrow> app_state \<Rightarrow> bool" where
  "same_data st st' \<longleftrightarrow> wb_profiles st' = wb_profiles st \<and> wb_settings st' = wb_settings st \<and> wb_history st' = wb_history st \<and>
     wb_tailscale st' = wb_tailscale st \<and> wb_calls st' = wb_calls st"

text \<open>The accounts, the logins but for when they were last seen, the sign-ins under way and the login counters.\<close>

definition same_accounts :: "app_state \<Rightarrow> app_state \<Rightarrow> bool" where
  "same_accounts st st' \<longleftrightarrow> ab_users (wb_auth st') = ab_users (wb_auth st) \<and>
     map (\<lambda>s. s\<lparr>as_lastSeenAt := 0\<rparr>) (ab_sessions (wb_auth st')) = map (\<lambda>s. s\<lparr>as_lastSeenAt := 0\<rparr>) (ab_sessions (wb_auth st)) \<and>
     wb_oauth st' = wb_oauth st \<and> wb_limiters st' = wb_limiters st"

text \<open>The references of the history are to profiles of the same account.\<close>

definition links_ok :: "app_state \<Rightarrow> bool" where
  "links_ok st \<longleftrightarrow>
     (\<forall>r \<in> set (wb_profiles st). (\<forall>s \<in> set (hy_sessions (wb_history st)). ss_profileId s = Some (pr_id r) \<longrightarrow> ss_ownerId s = pr_owner_id r) \<and>
       (\<forall>c \<in> set (hy_commands (wb_history st)). cm_profileId c = Some (pr_id r) \<longrightarrow> cm_ownerId c = pr_owner_id r))"

lemma same_data_refl [simp]: "same_data st st" by (simp add: same_data_def)

lemma same_data_touches: "same_data st st' \<Longrightarrow> touches q ownerId st st'"
  by (simp add: same_data_def touches_def stored_def settings_of_def settings_made_def)

lemma touches_refl [simp]: "touches q ownerId st st" by (simp add: same_data_touches)

lemma same_data_before: "same_data st s \<Longrightarrow> touches q ownerId s st' \<longleftrightarrow> touches q ownerId st st'"
  by (simp add: touches_def same_data_def stored_def settings_of_def settings_made_def)

lemma same_data_links: "same_data st s \<Longrightarrow> links_ok s \<longleftrightarrow> links_ok st"
  by (simp add: same_data_def links_ok_def)

section \<open>Sessions\<close>

definition signed_in :: "app \<Rightarrow> fresh \<Rightarrow> api_request \<Rightarrow> app_state \<Rightarrow> string \<Rightarrow> bool" where
  "signed_in w fr q st ownerId \<longleftrightarrow> (\<exists>db a. requireAuthentication (aw_auth w) (auth_request_of q) (fr_now fr) (wb_auth st) = (db, Inr a) \<and>
     us_id (au_user a) = ownerId)"

lemma with_owner_touches:
  assumes "with_owner w fr q k st = (st', r)" "\<And>ownerId s. same_data st s \<Longrightarrow> k ownerId s = (st', r) \<Longrightarrow> touches q ownerId s st'"
  shows "same_data st st' \<or> (\<exists>ownerId. signed_in w fr q st ownerId \<and> touches q ownerId st st')"
proof -
  obtain db e where a: "requireAuthentication (aw_auth w) (auth_request_of q) (fr_now fr) (wb_auth st) = (db, e)" by force
  have s: "same_data st (st\<lparr>wb_auth := db\<rparr>)" by (simp add: same_data_def)
  show ?thesis
  proof (cases e)
    case (Inl x)
    then show ?thesis using assms(1) a s by (simp add: with_owner_def)
  next
    case (Inr au)
    then have "k (us_id (au_user au)) (st\<lparr>wb_auth := db\<rparr>) = (st', r)" using assms(1) a by (simp add: with_owner_def)
    from assms(2) [OF s this] have "touches q (us_id (au_user au)) st st'" by (simp add: same_data_before [OF s])
    then show ?thesis using a Inr by (auto simp: signed_in_def)
  qed
qed

section \<open>Settings and history\<close>

lemma filter_map_other:
  assumes "\<And>x. Q x \<Longrightarrow> \<not> P x" "\<And>x. Q x \<Longrightarrow> \<not> P (f x)"
  shows "filter P (map (\<lambda>x. if Q x then f x else x) xs) = filter P xs"
  using assms by (induction xs) auto

lemma filter_filter_other: "(\<And>x. P x \<Longrightarrow> Q x) \<Longrightarrow> filter P (filter Q xs) = filter P xs"
  by (induction xs) auto

lemma settings_get_others: "settings_get now ownerId db = (db', s) \<Longrightarrow> x \<noteq> ownerId \<Longrightarrow> filter (\<lambda>r. sw_owner_id r = x) db' = filter (\<lambda>r. sw_owner_id r = x) db"
  by (auto simp: settings_get_def settings_defaults_def split: option.splits)

lemma settings_update_others:
  assumes "settings_update violated now ownerId p db = (db', r)" "x \<noteq> ownerId"
  shows "filter (\<lambda>r. sw_owner_id r = x) db' = filter (\<lambda>r. sw_owner_id r = x) db"
proof -
  obtain db1 c where g: "settings_get now ownerId db = (db1, c)" by force
  have "db' = db1 \<or> (\<exists>n. db' = map (\<lambda>r. if sw_owner_id r = ownerId then write_settings n r else r) db1)"
    using assms(1) by (auto simp: settings_update_def g Let_def split: if_splits)
  then have "filter (\<lambda>r. sw_owner_id r = x) db' = filter (\<lambda>r. sw_owner_id r = x) db1"
    using assms(2) by (auto intro!: filter_map_other)
  then show ?thesis using settings_get_others [OF g assms(2)] by simp
qed

lemma settings_get_own:
  assumes "settings_get now ownerId db = (db', s)"
  shows "db' = db \<or> filter (\<lambda>r. sw_owner_id r = ownerId) db = [] \<and> filter (\<lambda>r. sw_owner_id r = ownerId) db' = [settings_defaults now ownerId]"
  using assms
  by (auto simp: settings_get_def settings_row_of_def settings_defaults_def find_None_iff filter_empty_conv split: option.splits)

lemma settings_read_touch:
  assumes "settings_get now ownerId (wb_settings s) = (db, c)"
  shows "touches q ownerId s (s\<lparr>wb_settings := db\<rparr>)"
  using settings_get_own [OF assms] settings_get_others [OF assms]
  by (auto simp: touches_def stored_def settings_of_def settings_made_def)

lemma settings_touch: "w_method q \<in> set UNSAFE_METHODS \<Longrightarrow> (\<And>x. x \<noteq> ownerId \<Longrightarrow> filter (\<lambda>r. sw_owner_id r = x) db = filter (\<lambda>r. sw_owner_id r = x) (wb_settings s)) \<Longrightarrow>
    touches q ownerId s (s\<lparr>wb_settings := db\<rparr>)"
  by (simp add: touches_def stored_def settings_of_def)

lemma patchSettings_touches: "patchSettings w fr q ownerId s = (st', r) \<Longrightarrow> w_method q \<in> set UNSAFE_METHODS \<Longrightarrow> touches q ownerId s st'"
  by (auto simp: patchSettings_def intro!: settings_touch dest: settings_update_others split: sum.splits prod.splits)

lemma routeSettings_touches:
  assumes "routeSettings w fr q st = (st', r)"
  shows "same_data st st' \<or> (\<exists>ownerId. signed_in w fr q st ownerId \<and> touches q ownerId st st')"
proof (cases "w_method q \<noteq> ''GET'' \<and> w_method q \<noteq> ''PATCH''")
  case True
  then show ?thesis using assms by (auto simp: routeSettings_def)
next
  case False
  show ?thesis
    by (rule with_owner_touches [OF assms [unfolded routeSettings_def if_not_P [OF False]]])
      (use False in \<open>auto simp: UNSAFE_METHODS_def dest: settings_read_touch patchSettings_touches split: if_splits prod.splits\<close>)
qed

lemma command_clear_others:
  "command_clear ownerId i db = (db', n) \<Longrightarrow> hy_sessions db' = hy_sessions db \<and> hy_events db' = hy_events db \<and>
    (x \<noteq> ownerId \<longrightarrow> filter (\<lambda>c. cm_ownerId c = x) (hy_commands db') = filter (\<lambda>c. cm_ownerId c = x) (hy_commands db))"
  by (auto simp: command_clear_def clear_matches_def intro!: filter_cong [OF refl])

lemma commandHistory_touches:
  assumes "commandHistory w q ownerId s = (st', r)"
  shows "touches q ownerId s st'"
proof (cases "st' = s")
  case False
  then obtain i db n where "command_clear ownerId i (wb_history s) = (db, n)" "st' = s\<lparr>wb_history := db\<rparr>" "w_method q = ''DELETE''"
    using assms by (auto simp: commandHistory_def split: if_splits sum.splits prod.splits)
  then show ?thesis using command_clear_others [of ownerId i "wb_history s" db n]
    by (simp add: touches_def stored_def settings_of_def UNSAFE_METHODS_def)
qed simp

lemma routeHistory_touches:
  assumes "routeHistory w fr q st = (st', r)"
  shows "same_data st st' \<or> (\<exists>ownerId. signed_in w fr q st ownerId \<and> touches q ownerId st st')"
  by (rule with_owner_touches [OF assms [unfolded routeHistory_def]])
    (auto simp: sessionHistory_def sessionEvents_def dest: commandHistory_touches split: if_splits option.splits)

section \<open>Profiles\<close>

lemma create_row_owner: "create_row v ownerId newId now input = Inr row \<Longrightarrow> pr_owner_id row = ownerId"
  by (auto simp: create_row_def try_bind_eq_Inr Let_def)

lemma create_appends:
  assumes "createFromRequest v violated ownerId newId now q db = (db', r)"
  shows "\<exists>rows. db' = db\<lparr>pd_profiles := pd_profiles db @ rows\<rparr> \<and> list_all (\<lambda>u. pr_owner_id u = ownerId) rows"
proof (cases r)
  case (Inl m)
  then have "db' = db" using assms by (auto simp: createFromRequest_def profile_create_def split: sum.splits)
  then show ?thesis by (intro exI [of _ "[]"]) simp
next
  case (Inr view)
  then obtain row where row: "create_row v ownerId newId now (create_from_request q) = Inr row" "insert_profile violated row db = Inr db'"
    using assms by (auto simp: createFromRequest_def profile_create_def try_bind_eq_Inr map_sum_Inr split: sum.splits)
  then show ?thesis by (intro exI [of _ "[row]"]) (auto simp: insert_profile_def create_row_owner split: if_splits)
qed

text \<open>What holds of every profile that is created for a device holds of every profile an import adds.\<close>

definition creates :: "vault \<Rightarrow> string \<Rightarrow> string \<Rightarrow> import_request \<Rightarrow> string \<Rightarrow> (profile_row \<Rightarrow> bool) \<Rightarrow> bool" where
  "creates v violated ownerId q u P \<longleftrightarrow> (\<forall>newId now d db db' r.
     createFromRequest v violated ownerId newId now (imported_profile q u d) db = (db', r) \<longrightarrow>
     (\<exists>rows. db' = db\<lparr>pd_profiles := pd_profiles db @ rows\<rparr> \<and> list_all P rows))"

lemma creates_owned: "creates v violated ownerId q u (\<lambda>r. pr_owner_id r = ownerId)"
  unfolding creates_def by (intro allI impI create_appends)

lemma import_appends:
  "import_loop v violated fresh ownerId q u available ids existing created skipped db = (db', r) \<Longrightarrow> creates v violated ownerId q u P \<Longrightarrow>
    \<exists>rows. db' = db\<lparr>pd_profiles := pd_profiles db @ rows\<rparr> \<and> list_all P rows"
proof (induction v violated fresh ownerId q u available ids existing created skipped db rule: import_loop.induct)
  case (1 v violated fresh ownerId q u available existing created skipped db)
  then show ?case by (intro exI [of _ "[]"]) simp
next
  case (2 v violated fresh ownerId q u available i ids existing created skipped db)
  show ?case
  proof (cases "available i")
    case None
    then show ?thesis using 2 by simp
  next
    case (Some d)
    obtain db1 c where cr: "createFromRequest v violated ownerId (prod.fst (fresh i)) (prod.snd (fresh i)) (imported_profile q u d) db = (db1, c)"
      by force
    obtain rows where rows: "db1 = db\<lparr>pd_profiles := pd_profiles db @ rows\<rparr>" "list_all P rows"
      using "2.prems"(2) cr unfolding creates_def by blast
    consider "\<not> dv_authorized d" | "dv_authorized d" "target_key (dv_host d) (im_port q) u \<in> set existing"
      | m where "dv_authorized d" "target_key (dv_host d) (im_port q) u \<notin> set existing" "c = Inl m"
      | p where "dv_authorized d" "target_key (dv_host d) (im_port q) u \<notin> set existing" "c = Inr p"
      by (cases c) auto
    then show ?thesis
    proof cases
      case 1
      then show ?thesis using Some "2.IH"(2) [OF Some] "2.prems" by simp
    next
      case two: 2
      then show ?thesis using Some "2.IH"(3) [OF Some] "2.prems" by simp
    next
      case 3
      then have "db' = db1" using Some cr "2.prems" by simp
      then show ?thesis using rows by blast
    next
      case 4
      then have "\<exists>rows'. db' = db1\<lparr>pd_profiles := pd_profiles db1 @ rows'\<rparr> \<and> list_all P rows'"
        using Some cr "2.prems" "2.IH"(4) [OF Some _ 4(2) cr [symmetric] 4(3)] by simp
      then obtain rows' where "db' = db1\<lparr>pd_profiles := pd_profiles db1 @ rows'\<rparr>" "list_all P rows'" by blast
      then show ?thesis using rows by (intro exI [of _ "rows @ rows'"]) simp
    qed
  qed
qed

lemma importDevices_appends:
  assumes "importDevices api url env v violated fresh b now ownerId q rows db = (db', r)" "creates v violated ownerId q (trim (im_username q)) P"
  shows "\<exists>rows. db' = db\<lparr>pd_profiles := pd_profiles db @ rows\<rparr> \<and> list_all P rows"
proof (cases "db' = db")
  case True
  then show ?thesis by (intro exI [of _ "[]"]) simp
next
  case False
  then obtain av ids ex where "import_loop v violated fresh ownerId q (trim (im_username q)) av ids ex [] [] db = (db', r)"
    using assms(1) by (auto simp: importDevices_def import_selected_def split: sum.splits prod.splits)
  then show ?thesis using assms(2) by (rule import_appends)
qed

definition others_kept :: "string \<Rightarrow> profile_row list \<Rightarrow> profile_row list \<Rightarrow> bool" where
  "others_kept ownerId rows rows' \<longleftrightarrow> (\<forall>x. x \<noteq> ownerId \<longrightarrow> filter (\<lambda>r. pr_owner_id r = x) rows' = filter (\<lambda>r. pr_owner_id r = x) rows)"

lemma others_append: "list_all (\<lambda>u. pr_owner_id u = ownerId) new \<Longrightarrow> others_kept ownerId rows (rows @ new)"
  by (auto simp: others_kept_def list_all_iff filter_empty_conv)

lemma update_others:
  assumes "updateFromRequest v violated ownerId profileId now q db = (db', r)"
  shows "others_kept ownerId (pd_profiles db) (pd_profiles db')"
proof (cases "db' = db")
  case True
  then show ?thesis by (simp add: others_kept_def)
next
  case False
  then obtain row u where f: "getRow ownerId profileId db = Inr (Some row)" "update_row v ownerId profileId now (update_from_request q) row = Inr u"
      "update_profile violated u db = Inr db'"
    using assms by (auto simp: updateFromRequest_def profile_update_def try_bind_eq_Inr map_sum_Inr split: sum.splits option.splits)
  then have "pr_owner_id u = ownerId"
    using update_row_ids [OF f(2)] find_selects [of ownerId profileId "pd_profiles db" row] by (auto simp: getRow_Inr)
  then show ?thesis using f(3) unfolding others_kept_def
    by (auto simp: update_profile_def selects_def intro!: filter_map_other split: if_splits)
qed

lemma touches_profiles:
  assumes "others_kept ownerId (wb_profiles s) rows" "w_method q \<in> set UNSAFE_METHODS"
  shows "touches q ownerId s (s\<lparr>wb_profiles := rows\<rparr>)"
  using assms by (simp add: touches_def stored_def settings_of_def others_kept_def)

lemma profile_db_rows [simp]: "pd_profiles (profile_db_of s) = wb_profiles s" by (simp add: profile_db_of_def)

lemma with_profiles_simps [simp]: "with_profiles s (profile_db_of s) = s" "with_profiles s db = s\<lparr>wb_profiles := pd_profiles db\<rparr>"
  by (simp_all add: with_profiles_def)

lemma createProfile_touches: "createProfile w fr q ownerId s = (st', r) \<Longrightarrow> w_method q \<in> set UNSAFE_METHODS \<Longrightarrow> touches q ownerId s st'"
  by (auto simp: createProfile_def dest!: create_appends intro!: touches_profiles others_append split: sum.splits prod.splits)

lemma updateProfile_touches: "updateProfile w fr q ownerId profileId s = (st', r) \<Longrightarrow> w_method q \<in> set UNSAFE_METHODS \<Longrightarrow> touches q ownerId s st'"
  by (auto simp: updateProfile_def dest: update_others intro!: touches_profiles split: sum.splits prod.splits)

lemma unlink_others:
  assumes "\<forall>s \<in> set (hy_sessions db). ss_profileId s = Some p \<longrightarrow> ss_ownerId s = ownerId"
    "\<forall>c \<in> set (hy_commands db). cm_profileId c = Some p \<longrightarrow> cm_ownerId c = ownerId" "x \<noteq> ownerId"
  shows "filter (\<lambda>s. ss_ownerId s = x) (hy_sessions (unlink_profile p db)) = filter (\<lambda>s. ss_ownerId s = x) (hy_sessions db)"
    "filter (\<lambda>c. cm_ownerId c = x) (hy_commands (unlink_profile p db)) = filter (\<lambda>c. cm_ownerId c = x) (hy_commands db)"
proof -
  have "filter (\<lambda>s. ss_ownerId s = x) (map (\<lambda>s. if ss_profileId s = Some p then s\<lparr>ss_profileId := None\<rparr> else s) l) = filter (\<lambda>s. ss_ownerId s = x) l"
    if "\<forall>s \<in> set l. ss_profileId s = Some p \<longrightarrow> ss_ownerId s = ownerId" for l
    using that assms(3) by (induction l) auto
  then show "filter (\<lambda>s. ss_ownerId s = x) (hy_sessions (unlink_profile p db)) = filter (\<lambda>s. ss_ownerId s = x) (hy_sessions db)"
    using assms(1) by (simp add: unlink_profile_def)
  have "filter (\<lambda>s. cm_ownerId s = x) (map (\<lambda>s. if cm_profileId s = Some p then s\<lparr>cm_profileId := None\<rparr> else s) l) = filter (\<lambda>s. cm_ownerId s = x) l"
    if "\<forall>s \<in> set l. cm_profileId s = Some p \<longrightarrow> cm_ownerId s = ownerId" for l
    using that assms(3) by (induction l) auto
  then show "filter (\<lambda>c. cm_ownerId c = x) (hy_commands (unlink_profile p db)) = filter (\<lambda>c. cm_ownerId c = x) (hy_commands db)"
    using assms(2) by (simp add: unlink_profile_def)
qed

lemma deleteProfile_touches:
  assumes "deleteProfile ownerId p s = (st', r)" "w_method q \<in> set UNSAFE_METHODS" "links_ok s"
  shows "touches q ownerId s st'"
proof (cases "\<exists>row \<in> set (wb_profiles s). selects ownerId p row")
  case False
  then have "find (selects ownerId p) (wb_profiles s) = None" by (auto simp: find_None_iff)
  then show ?thesis using assms(1)
    by (auto simp: deleteProfile_def existing_profile_def profile_get_def getRow_Inr try_bind_eq_Inr map_sum_Inr profile_not_found_def
        refuse_def split: sum.splits option.splits)
next
  case True
  then have own: "\<forall>s' \<in> set (hy_sessions (wb_history s)). ss_profileId s' = Some p \<longrightarrow> ss_ownerId s' = ownerId"
    "\<forall>c \<in> set (hy_commands (wb_history s)). cm_profileId c = Some p \<longrightarrow> cm_ownerId c = ownerId"
    using assms(3) by (auto simp: links_ok_def selects_def)
  have filtered: "others_kept ownerId (wb_profiles s) (filter (\<lambda>r. \<not> selects ownerId p r) (wb_profiles s))"
    by (auto simp: others_kept_def selects_def intro!: filter_cong)
  have both: "touches q ownerId s (s\<lparr>wb_profiles := filter (\<lambda>r. \<not> selects ownerId p r) (wb_profiles s), wb_history := unlink_profile p (wb_history s)\<rparr>)"
    using assms(2) filtered unlink_others [OF own] unfolding touches_def stored_def settings_of_def others_kept_def
    by (simp add: unlink_profile_def)
  show ?thesis using assms(1) both touches_profiles [OF filtered assms(2)]
    by (auto simp: deleteProfile_def deleteIfNoActiveSessions_def split: sum.splits if_splits bool.splits)
qed

section \<open>The routes\<close>

lemma routeProfiles_touches:
  assumes "routeProfiles w fr q st = (st', r)" "links_ok st"
  shows "same_data st st' \<or> (\<exists>ownerId. signed_in w fr q st ownerId \<and> touches q ownerId st st')"
proof (rule with_owner_touches [OF assms(1) [unfolded routeProfiles_def]])
  fix ownerId s
  assume same: "same_data st s"
    and k: "(if w_path q = ''/api/profiles''
       then (if w_method q = ''GET'' then listProfiles w q ownerId s
             else if w_method q = ''POST'' then createProfile w fr q ownerId s
             else (s, methodNotAllowed))
       else case path_part ''/api/profiles/'' [] (w_path q) of
           None \<Rightarrow> (s, not_found)
         | Some x \<Rightarrow>
             (case parseProfileId w x of
                Inl e \<Rightarrow> (s, Inl e)
              | Inr profileId \<Rightarrow>
                  if w_method q = ''GET'' then getProfile ownerId profileId s
                  else if w_method q = ''PATCH'' then updateProfile w fr q ownerId profileId s
                  else if w_method q = ''DELETE'' then deleteProfile ownerId profileId s
                  else (s, methodNotAllowed))) = (st', r)"
  have links: "links_ok s" using same assms(2) by (simp add: same_data_links)
  consider "st' = s" | "w_method q = ''POST''" "createProfile w fr q ownerId s = (st', r)"
    | p where "w_method q = ''PATCH''" "updateProfile w fr q ownerId p s = (st', r)"
    | p where "w_method q = ''DELETE''" "deleteProfile ownerId p s = (st', r)"
    using k by (auto simp: listProfiles_def getProfile_def split: if_splits option.splits sum.splits)
  then show "touches q ownerId s st'"
  proof cases
    case 2
    then show ?thesis using createProfile_touches by (simp add: UNSAFE_METHODS_def)
  next
    case 3
    then show ?thesis using updateProfile_touches by (simp add: UNSAFE_METHODS_def)
  next
    case 4
    then show ?thesis using deleteProfile_touches links by (simp add: UNSAFE_METHODS_def)
  qed simp
qed

lemma upsert_others: "tw_owner_id row = ownerId \<Longrightarrow> x \<noteq> ownerId \<Longrightarrow>
    filter (\<lambda>r. tw_owner_id r = x) (upsert_configuration row rows) = filter (\<lambda>r. tw_owner_id r = x) rows"
  by (auto simp: upsert_configuration_def intro!: filter_map_other)

lemma updateConfiguration_others:
  "updateConfiguration v b ownerId input now rows = (rows', r) \<Longrightarrow> x \<noteq> ownerId \<Longrightarrow>
    filter (\<lambda>r. tw_owner_id r = x) rows' = filter (\<lambda>r. tw_owner_id r = x) rows"
  by (auto simp: updateConfiguration_def configuration_update_def upsert_others split: if_splits sum.splits prod.splits)

lemma putConfiguration_touches:
  assumes "putConfiguration w fr q ownerId s = (st', r)" "w_method q \<in> set UNSAFE_METHODS"
  shows "touches q ownerId s st'"
proof (cases "st' = s")
  case False
  then obtain input rows x where "updateConfiguration (w_vault w fr) (aw_tailnet w) ownerId input (fr_iso fr) (wb_tailscale s) = (rows, x)"
      "st' = s\<lparr>wb_tailscale := rows\<rparr>"
    using assms(1) by (auto simp: putConfiguration_def split: sum.splits prod.splits)
  then show ?thesis using updateConfiguration_others assms(2) by (simp add: touches_def stored_def settings_of_def)
qed simp

lemma postImport_touches:
  assumes "postImport w fr q ownerId s = (st', r)" "w_method q \<in> set UNSAFE_METHODS"
  shows "touches q ownerId s st'"
proof (cases "st' = s")
  case False
  then obtain input db x where d: "importDevices (aw_tailscale w) (aw_url w) (aw_worker w) (w_vault w fr) (ae_violated (aw_auth w))
        (fr_imports fr) (aw_tailnet w) (fr_now fr) ownerId input (wb_tailscale s) (profile_db_of s) = (db, x)" "st' = with_profiles s db"
    using assms(1) by (auto simp: postImport_def split: sum.splits prod.splits)
  from importDevices_appends [OF d(1) creates_owned] obtain rows where "pd_profiles db = wb_profiles s @ rows" "list_all (\<lambda>u. pr_owner_id u = ownerId) rows"
    by auto
  then show ?thesis using d(2) assms(2) by (auto intro!: touches_profiles others_append)
qed simp

lemma routeTailscale_touches:
  assumes "routeTailscale w fr q st = (st', r)"
  shows "same_data st st' \<or> (\<exists>ownerId. signed_in w fr q st ownerId \<and> touches q ownerId st st')"
proof (rule with_owner_touches [OF assms [unfolded routeTailscale_def]])
  fix ownerId s
  assume k: "(if w_path q = ''/api/tailscale/configuration''
       then (if w_method q = ''GET''
             then (s, try_bind (getConfiguration (aw_tailnet w) ownerId (wb_tailscale s)) (\<lambda>c. apiJson (D_Tailnet c)))
             else if w_method q = ''PUT'' then putConfiguration w fr q ownerId s
             else (s, methodNotAllowed))
       else if w_path q = ''/api/tailscale/devices''
       then (s, if w_method q = ''GET''
             then try_bind (listDevices (aw_tailscale w) (w_vault w fr) (aw_tailnet w) (fr_now fr) ownerId (wb_tailscale s))
               (\<lambda>(tailnet, devices). apiJson (D_Devices tailnet devices))
             else methodNotAllowed)
       else if w_path q = ''/api/tailscale/import''
       then (if w_method q = ''POST'' then postImport w fr q ownerId s else (s, methodNotAllowed))
       else (s, not_found)) = (st', r)"
  consider "st' = s" | "w_method q = ''PUT''" "putConfiguration w fr q ownerId s = (st', r)"
    | "w_method q = ''POST''" "postImport w fr q ownerId s = (st', r)"
    using k by (metis prod.inject)
  then show "touches q ownerId s st'"
  proof cases
    case 2
    then show ?thesis using putConfiguration_touches by (simp add: UNSAFE_METHODS_def)
  next
    case 3
    then show ?thesis using postImport_touches by (simp add: UNSAFE_METHODS_def)
  qed simp
qed

lemma call_session_touches: "call_session w c k s = (st', r) \<Longrightarrow> call_owner c = ownerId \<Longrightarrow> touches q ownerId s st'"
  by (auto simp: call_session_def touches_def stored_def settings_of_def)

lemma createSshTicket_touches:
  assumes "createSshTicket w fr i q st = (st', r)"
  shows "same_data st st' \<or> (\<exists>ownerId. signed_in w fr q st ownerId \<and> touches q ownerId st st')"
proof (cases "w_method q = ''POST''")
  case False
  then show ?thesis using assms by (simp add: createSshTicket_def)
next
  case True
  have no: "\<not> w_method q \<noteq> ''POST''" using True by simp
  show ?thesis
    by (rule with_owner_touches [OF assms [unfolded createSshTicket_def if_not_P [OF no]]])
      (auto intro: call_session_touches split: if_splits sum.splits prod.splits)
qed

lemma upgradeSsh_touches:
  assumes "upgradeSsh w fr q st = (st', r)"
  shows "same_data st st' \<or> (\<exists>ownerId. signed_in w fr q st ownerId \<and> touches q ownerId st st')"
proof (cases "w_method q \<noteq> ''GET'' \<or> map_option lower (w_header q ''upgrade'') \<noteq> Some ''websocket''")
  case True
  then show ?thesis using assms by (auto simp: upgradeSsh_def split: if_splits)
next
  case False
  then have no: "\<not> w_method q \<noteq> ''GET''" "\<not> map_option lower (w_header q ''upgrade'') \<noteq> Some ''websocket''" by simp_all
  show ?thesis
    by (rule with_owner_touches [OF assms [unfolded upgradeSsh_def if_not_P [OF no(1)] if_not_P [OF no(2)]]])
      (auto intro: call_session_touches split: sum.splits prod.splits)
qed

lemma limiters_same [simp]: "same_data st (with_limiters w q l s\<lparr>wb_auth := db\<rparr>) \<longleftrightarrow> same_data st s"
  "same_data st (with_limiters w q l s\<lparr>wb_auth := db, wb_oauth := od\<rparr>) \<longleftrightarrow> same_data st s"
  "same_data st (with_limiters w q l s) \<longleftrightarrow> same_data st s" "same_data st (s\<lparr>wb_auth := db\<rparr>) \<longleftrightarrow> same_data st s"
  by (simp_all add: same_data_def with_limiters_def)

lemma begin_google_same: "begin_google w fr q config st = (st', r) \<Longrightarrow> same_data st st'"
  by (auto simp: begin_google_def Let_def split: sum.splits prod.splits)

lemma routeAuth_same:
  assumes "routeAuth w fr q st = (st', r)"
  shows "same_data st st'"
proof -
  have "postLogin w fr q st = (st', r) \<Longrightarrow> same_data st st'" by (auto simp: postLogin_def Let_def split: prod.splits)
  moreover have "handleGoogleStart w fr q st = (st', r) \<Longrightarrow> same_data st st'"
    by (auto simp: handleGoogleStart_def begin_google_same split: if_splits sum.splits option.splits)
  moreover have "getGoogleCallback w fr q st = (st', r) \<Longrightarrow> same_data st st'"
    by (auto simp: getGoogleCallback_def split: sum.splits option.splits prod.splits)
  moreover have "getState w fr q st = (st', r) \<Longrightarrow> same_data st st'"
    by (auto simp: getState_def Let_def split: if_splits sum.splits option.splits prod.splits)
  moreover have "postTotpSetup w fr q st = (st', r) \<Longrightarrow> same_data st st'" by (auto simp: postTotpSetup_def split: prod.splits)
  moreover have "postTotpConfirm w fr q st = (st', r) \<Longrightarrow> same_data st st'" by (auto simp: postTotpConfirm_def Let_def split: prod.splits)
  moreover have "deleteTotp w fr q st = (st', r) \<Longrightarrow> same_data st st'" by (auto simp: deleteTotp_def Let_def split: prod.splits)
  ultimately show ?thesis using assms by (auto simp: routeAuth_def only_def Let_def split: if_splits)
qed

lemma apiRoute_touches:
  assumes "apiRoute w fr i q st = (st', r)" "links_ok st"
  shows "same_data st st' \<or> (\<exists>ownerId. signed_in w fr q st ownerId \<and> touches q ownerId st st')"
  using assms routeAuth_same routeSettings_touches routeProfiles_touches routeHistory_touches routeTailscale_touches createSshTicket_touches
  unfolding apiRoute_def Let_def by (auto split: if_splits)

lemma request_touches:
  assumes "routeRequest w fr q st = (st', r)" "links_ok st"
  shows "same_data st st' \<or> (\<exists>ownerId. signed_in w fr q st ownerId \<and> touches q ownerId st st' \<and>
    assertRequestOrigin (aw_url w) (aw_worker w) (\<not> is_api q) (wq_web q) = Inr ())"
proof -
  obtain x where d: "dispatchRequest w fr q st = (st', x)" using assms(1) by (cases "dispatchRequest w fr q st") (auto simp: routeRequest_def split: sum.splits)
  consider "st' = st"
    | y where "is_api q" "assertRequestOrigin (aw_url w) (aw_worker w) False (wq_web q) = Inr ()" "apiRoute w fr (request_id fr q) q st = (st', y)"
    | y where "\<not> is_api q" "assertRequestOrigin (aw_url w) (aw_worker w) True (wq_web q) = Inr ()" "upgradeSsh w fr q st = (st', y)"
    using d by (auto simp: dispatchRequest_def Let_def split: if_splits sum.splits prod.splits)
  then show ?thesis
  proof cases
    case 2
    then show ?thesis using apiRoute_touches [OF 2(3) assms(2)] by auto
  next
    case 3
    then show ?thesis using upgradeSsh_touches [OF 3(3)] by auto
  qed simp
qed

section \<open>Accounts and logins\<close>

lemma accounts_refl [simp]: "same_accounts st st" by (simp add: same_accounts_def)

lemma accounts_fields [simp]:
  "same_accounts st (s\<lparr>wb_settings := a\<rparr>) \<longleftrightarrow> same_accounts st s" "same_accounts st (s\<lparr>wb_history := h\<rparr>) \<longleftrightarrow> same_accounts st s"
  "same_accounts st (s\<lparr>wb_profiles := rows\<rparr>) \<longleftrightarrow> same_accounts st s" "same_accounts st (s\<lparr>wb_tailscale := t\<rparr>) \<longleftrightarrow> same_accounts st s"
  "same_accounts st (s\<lparr>wb_calls := cs\<rparr>) \<longleftrightarrow> same_accounts st s"
  "same_accounts st (s\<lparr>wb_profiles := rows, wb_history := h\<rparr>) \<longleftrightarrow> same_accounts st s"
  by (simp_all add: same_accounts_def)

lemma require_accounts:
  assumes "requireAuthentication env q now db = (db', r)"
  shows "ab_users db' = ab_users db \<and> map (\<lambda>s. s\<lparr>as_lastSeenAt := 0\<rparr>) (ab_sessions db') = map (\<lambda>s. s\<lparr>as_lastSeenAt := 0\<rparr>) (ab_sessions db)"
  using assms
  by (auto simp: requireAuthentication_def optionalAuthentication_def findActive_def split: if_splits option.splits sum.splits prod.splits)

lemma with_owner_accounts:
  assumes "with_owner w fr q k st = (st', r)" "\<And>ownerId s. same_accounts st s \<Longrightarrow> k ownerId s = (st', r) \<Longrightarrow> same_accounts st st'"
  shows "same_accounts st st'"
proof -
  obtain db e where a: "requireAuthentication (aw_auth w) (auth_request_of q) (fr_now fr) (wb_auth st) = (db, e)" by force
  have s: "same_accounts st (st\<lparr>wb_auth := db\<rparr>)" using require_accounts [OF a] by (simp add: same_accounts_def)
  show ?thesis using assms(1) a s assms(2) [OF s] by (cases e) (auto simp: with_owner_def)
qed

lemma routeSettings_accounts: "routeSettings w fr q st = (st', r) \<Longrightarrow> same_accounts st st'"
  by (auto simp: routeSettings_def patchSettings_def elim!: with_owner_accounts split: if_splits prod.splits sum.splits)

lemma routeHistory_accounts: "routeHistory w fr q st = (st', r) \<Longrightarrow> same_accounts st st'"
  by (auto simp: routeHistory_def commandHistory_def sessionHistory_def sessionEvents_def elim!: with_owner_accounts
      split: if_splits prod.splits sum.splits option.splits)

lemma routeTailscale_accounts: "routeTailscale w fr q st = (st', r) \<Longrightarrow> same_accounts st st'"
  by (auto simp: routeTailscale_def putConfiguration_def postImport_def elim!: with_owner_accounts split: if_splits prod.splits sum.splits)

lemma deleteProfile_accounts: "deleteProfile ownerId p s = (st', r) \<Longrightarrow> same_accounts st s \<Longrightarrow> same_accounts st st'"
  by (auto simp: deleteProfile_def split: sum.splits prod.splits bool.splits if_splits)

lemma routeProfiles_accounts: "routeProfiles w fr q st = (st', r) \<Longrightarrow> same_accounts st st'"
  by (auto simp: routeProfiles_def listProfiles_def getProfile_def createProfile_def updateProfile_def dest: deleteProfile_accounts
      elim!: with_owner_accounts split: if_splits option.splits sum.splits prod.splits)

lemma createSshTicket_accounts: "createSshTicket w fr i q st = (st', r) \<Longrightarrow> same_accounts st st'"
  by (auto simp: createSshTicket_def call_session_def elim!: with_owner_accounts split: if_splits prod.splits sum.splits)

lemma upgradeSsh_accounts: "upgradeSsh w fr q st = (st', r) \<Longrightarrow> same_accounts st st'"
  by (auto simp: upgradeSsh_def call_session_def elim!: with_owner_accounts split: if_splits prod.splits sum.splits)

lemma request_accounts:
  assumes "routeRequest w fr q st = (st', r)"
  shows "if starts_with ''/api/auth/'' (w_path q) then same_data st st' else same_accounts st st'"
proof -
  obtain x where d: "dispatchRequest w fr q st = (st', x)" using assms by (cases "dispatchRequest w fr q st") (auto simp: routeRequest_def split: sum.splits)
  consider "st' = st"
    | y where "apiRoute w fr (request_id fr q) q st = (st', y)"
    | y where "\<not> is_api q" "upgradeSsh w fr q st = (st', y)"
    using d by (auto simp: dispatchRequest_def Let_def split: if_splits sum.splits prod.splits)
  then show ?thesis
  proof cases
    case 2
    then show ?thesis unfolding apiRoute_def Let_def
      by (auto dest: routeAuth_same routeSettings_accounts routeHistory_accounts routeTailscale_accounts routeProfiles_accounts
          createSshTicket_accounts split: if_splits)
  next
    case 3
    then have "\<not> starts_with ''/api/auth/'' (w_path q)" by (auto simp: is_api_def starts_with_iff)
    then show ?thesis using 3 upgradeSsh_accounts by simp
  qed simp
qed

end
