(* ===== verification/Tailscale_Facts.thy ===== *)
theory Tailscale_Facts
  imports Tailscale
begin

text \<open>
  What an import promises: each authorised device that was asked for ends up as the target of a profile of the owner,
  and to repeat the import creates nothing. The facts are about hosts that are already normal, names that are trimmed,
  and the loop over the devices.
\<close>

section \<open>Normal hosts and trimmed names\<close>

lemma trim_ends:
  assumes "trim s \<noteq> []"
  shows "\<not> is_ws (hd (trim s))" and "\<not> is_ws (last (trim s))"
proof -
  let ?u = "dropWhile is_ws s"
  have d: "dropWhile is_ws (rev ?u) \<noteq> []" using assms by (simp add: trim_def)
  then show "\<not> is_ws (last (trim s))" using hd_dropWhile [OF d] by (simp add: trim_def last_rev)
  have u: "?u = trim s @ rev (takeWhile is_ws (rev ?u))"
    unfolding trim_def rev_append [symmetric] takeWhile_dropWhile_id by simp
  have "?u \<noteq> []" "hd ?u = hd (trim s)" by (subst u, simp add: assms)+
  then show "\<not> is_ws (hd (trim s))" using hd_dropWhile [of is_ws s] by simp
qed

lemma dropWhile_none: "xs \<noteq> [] \<Longrightarrow> \<not> P (hd xs) \<Longrightarrow> dropWhile P xs = xs"
  by (cases xs) simp_all

lemma trim_fixed: "s \<noteq> [] \<Longrightarrow> \<not> is_ws (hd s) \<Longrightarrow> \<not> is_ws (last s) \<Longrightarrow> trim s = s"
  by (simp add: trim_def dropWhile_none hd_rev)

lemma trim_empty [simp]: "trim [] = []"
  by (simp add: trim_def)

lemma trim_idem [simp]: "trim (trim s) = trim s"
proof (cases "trim s = []")
  case False
  then show ?thesis by (intro trim_fixed trim_ends)
qed simp

lemma lower_ends:
  assumes "s \<noteq> []"
  shows "lower s \<noteq> []" and "is_ws (hd (lower s)) = is_ws (hd s)" and "is_ws (last (lower s)) = is_ws (last s)"
  using assms by (auto simp: lower_def hd_map last_map is_ws_lower_char)

lemma lower_butlast: "lower (butlast s) = butlast (lower s)"
  by (simp add: lower_def map_butlast)

lemma magicDns_normal:
  assumes "magicDnsHost v = Some w"
  shows "normalizeHost w = Inr w"
proof -
  obtain s where s: "api_text v 254 = Some s" using assms by (auto simp: magicDnsHost_def split: option.splits)
  define c where "c = (if ends_with ''.'' (lower s) then butlast (lower s) else lower s)"
  have c: "c \<noteq> []" "ends_with ''.ts.net'' c" "normalizeHost c = Inr w"
    using assms s by (auto simp: magicDnsHost_def Let_def c_def [symmetric] split: if_splits sum.splits)
  obtain x where x: "s = trim x" "s \<noteq> []" using s by (auto simp: api_text_def Let_def split: option.splits if_splits)
  have low: "lower c = c" by (simp add: c_def lower_butlast)
  obtain p where p: "c = p @ ''.ts.net''" using c(2) by (auto simp: ends_with_iff)
  have "\<not> is_ws (hd (lower s))" using lower_ends [OF x(2)] trim_ends(1) [of x] x by simp
  moreover have "hd c = hd (lower s)" using c(1) unfolding c_def by (cases "lower s") (auto split: if_splits)
  moreover have "\<not> is_ws (last c)" using p by (simp add: is_ws_def)
  ultimately have t: "trim c = c" using c(1) by (intro trim_fixed) simp_all
  have b: "strip_brackets c = c" "\<not> ends_with ''.'' c" "\<not> ends_with '']'' c"
    using p by (auto simp: strip_brackets_def ends_with_iff append_eq_append_conv2 append_eq_Cons_conv)
  have "w = c" using c(3) unfolding normalizeHost_def Let_def low t b(1) using b by (auto split: if_splits)
  then show ?thesis using c(3) by simp
qed

definition normal_hosts :: "device list \<Rightarrow> bool" where
  "normal_hosts ds \<longleftrightarrow> list_all (\<lambda>d. normalizeHost (dv_host d) = Inr (dv_host d)) ds"

lemma api_device_normal: "api_device cal now v = Some d \<Longrightarrow> normalizeHost (dv_host d) = Inr (dv_host d)"
  by (auto simp: api_device_def Let_def magicDns_normal split: option.splits)

lemma collect_normal: "normal_hosts ds \<Longrightarrow> normal_hosts (collect_devices cal now vs ds)"
  by (induction cal now vs ds rule: collect_devices.induct) (auto simp: normal_hosts_def api_device_normal split: option.splits)

lemma fetched_normal:
  assumes "fetchTailscaleDevices api b now = Inr (tailnet, devices)"
  shows "normal_hosts devices"
proof -
  obtain token r where "(case ta_fetch api (devices_url tailnet) (''Basic '' @ btoa (utf8 (token @ '':''))) of None \<Rightarrow> unavailable r
      | Some a \<Rightarrow> fetched_devices api now a) = Inr devices"
    using assms by (auto simp: fetchTailscaleDevices_def try_bind_eq_Inr map_sum_Inr split: prod.splits if_splits)
  then obtain a where "fetched_devices api now a = Inr devices" by (auto simp: unavailable_def split: option.splits)
  then obtain payload where "parseTailscaleDevices (ta_calendar api) now payload = Inr devices"
    by (auto simp: fetched_devices_def try_bind_eq_Inr unavailable_def split: option.split_asm if_splits)
  then obtain xs where "devices = sort_key (device_key (ta_calendar api)) (collect_devices (ta_calendar api) now xs [])"
    by (auto simp: parseTailscaleDevices_def split: option.splits json.splits if_splits)
  then show ?thesis using collect_normal [of "[]"] by (simp add: normal_hosts_def list_all_iff)
qed

section \<open>One device\<close>

definition row_target :: "profile_row \<Rightarrow> string" where
  "row_target r = target_key (pr_host r) (pr_port r) (pr_username r)"

lemma create_row_target:
  assumes "create_row v ownerId newId now input = Inr row" "ci_port input = Some port"
  shows "pr_owner_id row = ownerId \<and> normalizeHost (ci_host input) = Inr (pr_host row) \<and> pr_port row = port \<and>
    pr_username row = trim (ci_username input)"
  using assms
  by (auto simp: create_row_def try_bind_eq_Inr Let_def validateText_def target_throws_def default_to_def
      split: if_splits sum.splits target_error.splits)

lemma imported_row:
  assumes "createFromRequest v violated ownerId newId now (imported_profile q u d) db = (db', Inr p)"
    "normalizeHost (dv_host d) = Inr (dv_host d)" "trim u = u"
  shows "\<exists>row. db' = db\<lparr>pd_profiles := pd_profiles db @ [row]\<rparr> \<and> pr_owner_id row = ownerId \<and>
    pr_host row = dv_host d \<and> row_target row = target_key (dv_host d) (im_port q) u"
proof -
  let ?input = "create_from_request (imported_profile q u d)"
  obtain row where row: "create_row v ownerId newId now ?input = Inr row" "insert_profile violated row db = Inr db'"
    using assms(1) by (auto simp: createFromRequest_def profile_create_def try_bind_eq_Inr map_sum_Inr split: sum.splits)
  have "ci_port ?input = Some (im_port q)" "ci_host ?input = dv_host d" "ci_username ?input = u"
    by (simp_all add: create_from_request_def imported_profile_def)
  then have "pr_owner_id row = ownerId \<and> pr_host row = dv_host d \<and> pr_port row = im_port q \<and> pr_username row = u"
    using create_row_target [OF row(1), of "im_port q"] assms(2, 3) by simp
  then show ?thesis using row(2) by (auto simp: insert_profile_def row_target_def split: if_splits)
qed

section \<open>The loop\<close>

text \<open>The devices of these identifiers are authorised, and their targets are in \<open>ts\<close>.\<close>

definition wanted :: "(string \<Rightarrow> device option) \<Rightarrow> string list \<Rightarrow> device set" where
  "wanted available ids = {d. \<exists>i \<in> set ids. available i = Some d \<and> dv_authorized d}"

lemma wanted_Cons: "wanted available (i # ids) = (case available i of Some d \<Rightarrow> if dv_authorized d then {d} else {} | None \<Rightarrow> {}) \<union> wanted available ids"
  by (auto simp: wanted_def split: option.splits)

lemma import_loop_Inr:
  assumes "import_loop v violated fresh ownerId q u available ids existing created skipped db = (db', Inr (c, sk))"
    "\<forall>d \<in> wanted available ids. normalizeHost (dv_host d) = Inr (dv_host d)" "trim u = u"
  shows "\<exists>rows. db' = db\<lparr>pd_profiles := pd_profiles db @ rows\<rparr> \<and> length c = length created + length rows \<and>
    (\<forall>r \<in> set rows. pr_owner_id r = ownerId \<and> (\<exists>d \<in> wanted available ids. pr_host r = dv_host d)) \<and>
    (\<forall>d \<in> wanted available ids. target_key (dv_host d) (im_port q) u \<in> set existing \<union> row_target ` set rows)"
  using assms
proof (induction v violated fresh ownerId q u available ids existing created skipped db rule: import_loop.induct)
  case (1 v violated fresh ownerId q u available existing created skipped db)
  then show ?case by (intro exI [of _ "[]"]) (simp add: wanted_def)
next
  case (2 v violated fresh ownerId q u available i ids existing created skipped db)
  show ?case
  proof (cases "available i")
    case None
    then show ?thesis using "2.IH"(1) "2.prems" by (simp add: wanted_Cons)
  next
    case (Some d)
    show ?thesis
    proof (cases "dv_authorized d")
      case False
      then show ?thesis using Some "2.IH"(2) [OF Some] "2.prems" by (simp add: wanted_Cons)
    next
      case auth: True
      let ?key = "target_key (dv_host d) (im_port q) u"
      show ?thesis
      proof (cases "?key \<in> set existing")
        case True
        then obtain rows where "db' = db\<lparr>pd_profiles := pd_profiles db @ rows\<rparr> \<and> length c = length created + length rows \<and>
            (\<forall>r \<in> set rows. pr_owner_id r = ownerId \<and> (\<exists>d \<in> wanted available ids. pr_host r = dv_host d)) \<and>
            (\<forall>d \<in> wanted available ids. target_key (dv_host d) (im_port q) u \<in> set existing \<union> row_target ` set rows)"
          using Some auth "2.IH"(3) [OF Some] "2.prems" by (auto simp: wanted_Cons)
        then show ?thesis using Some auth True by (intro exI [of _ rows]) (auto simp: wanted_Cons)
      next
        case False
        obtain db1 p where cr: "createFromRequest v violated ownerId (prod.fst (fresh i)) (prod.snd (fresh i)) (imported_profile q u d) db = (db1, Inr p)"
          using "2.prems"(1) Some auth False
          by (cases "createFromRequest v violated ownerId (prod.fst (fresh i)) (prod.snd (fresh i)) (imported_profile q u d) db")
            (auto split: sum.splits)
        obtain row where row: "db1 = db\<lparr>pd_profiles := pd_profiles db @ [row]\<rparr>" "pr_owner_id row = ownerId" "pr_host row = dv_host d"
            "row_target row = ?key"
          using imported_row [OF cr] "2.prems"(2, 3) Some auth by (auto simp: wanted_Cons)
        have rest: "import_loop v violated fresh ownerId q u available ids (existing @ [?key]) (created @ [p]) skipped db1 = (db', Inr (c, sk))"
          using "2.prems"(1) Some auth False cr by simp
        have "\<exists>rows. db' = db1\<lparr>pd_profiles := pd_profiles db1 @ rows\<rparr> \<and> length c = length (created @ [p]) + length rows \<and>
            (\<forall>r \<in> set rows. pr_owner_id r = ownerId \<and> (\<exists>d \<in> wanted available ids. pr_host r = dv_host d)) \<and>
            (\<forall>d \<in> wanted available ids. target_key (dv_host d) (im_port q) u \<in> set (existing @ [?key]) \<union> row_target ` set rows)"
          using "2.IH"(4) [OF Some _ False cr [symmetric] refl rest] auth "2.prems"(2, 3) Some by (auto simp: wanted_Cons)
        then obtain rows where r: "db' = db1\<lparr>pd_profiles := pd_profiles db1 @ rows\<rparr>" "length c = length (created @ [p]) + length rows"
            "\<forall>r \<in> set rows. pr_owner_id r = ownerId \<and> (\<exists>d \<in> wanted available ids. pr_host r = dv_host d)"
            "\<forall>d \<in> wanted available ids. target_key (dv_host d) (im_port q) u \<in> set (existing @ [?key]) \<union> row_target ` set rows"
          by blast
        show ?thesis using r row Some auth by (intro exI [of _ "row # rows"]) (auto simp: wanted_Cons)
      qed
    qed
  qed
qed

lemma import_loop_skips:
  "\<forall>d \<in> wanted available ids. target_key (dv_host d) (im_port q) u \<in> set existing \<Longrightarrow>
    \<exists>sk'. import_loop v violated fresh ownerId q u available ids existing created sk db = (db, Inr (created, sk @ sk')) \<and> length sk' = length ids"
proof (induction ids arbitrary: sk)
  case (Cons i ids)
  have step: "\<exists>sk'. import_loop v violated fresh ownerId q u available ids existing created (sk @ [x]) db = (db, Inr (created, sk @ sk')) \<and>
      length sk' = length (i # ids)" for x
    using Cons.IH [of "sk @ [x]"] Cons.prems by (auto simp: wanted_Cons)
  show ?case using Cons.prems step by (cases "available i") (auto simp: wanted_Cons)
qed simp

section \<open>The targets there are\<close>

lemma each_Inr: "each f xs = Inr ys \<longleftrightarrow> list_all2 (\<lambda>x y. f x = Inr y) xs ys"
  by (induction xs arbitrary: ys) (auto simp: try_bind_eq_Inr map_sum_Inr list_all2_Cons1)

lemma each_append: "each f xs = Inr a \<Longrightarrow> each f ys = Inr b \<Longrightarrow> each f (xs @ ys) = Inr (a @ b)"
  by (simp add: each_Inr list_all2_appendI)

lemma each_same: "\<forall>x \<in> set xs. f x = Inr (g x) \<Longrightarrow> each f xs = Inr (map g xs)"
  by (induction xs) simp_all

definition key_of :: "profile_target \<Rightarrow> string throws" where
  "key_of t = map_sum (\<lambda>m. m) (\<lambda>h. target_key h (pt_port t) (pt_username t)) (target_throws (normalizeHost (pt_host t)))"

lemma existing_targets_Inr:
  assumes "\<forall>h \<in> set hosts. normalizeHost h = Inr h"
  shows "existing_targets ownerId hosts db = Inr ex \<longleftrightarrow> assertOwnerId ownerId = Inr () \<and>
    (if hosts = [] then ex = [] else length (remdups hosts) \<le> 50 \<and>
      (\<exists>ts. each target_of (filter (\<lambda>r. pr_host r \<in> set hosts) (owned ownerId db)) = Inr ts \<and> each key_of ts = Inr ex))"
proof -
  have "each (\<lambda>h. target_throws (normalizeHost h)) hosts = Inr hosts"
    using each_same [of hosts "\<lambda>h. target_throws (normalizeHost h)" "\<lambda>h. h"] assms by (simp add: target_throws_def)
  then show ?thesis
    unfolding existing_targets_def listTargetsByHosts_def key_of_def [symmetric] by (auto simp: try_bind_eq_Inr)
qed

lemma existing_after:
  assumes "\<forall>h \<in> set hosts. normalizeHost h = Inr h" "existing_targets ownerId hosts db = Inr ex"
    "\<forall>r \<in> set rows. pr_owner_id r = ownerId \<and> pr_host r \<in> set hosts"
  shows "\<exists>ex'. existing_targets ownerId hosts (db\<lparr>pd_profiles := pd_profiles db @ rows\<rparr>) = Inr ex' \<and> set ex \<union> row_target ` set rows \<subseteq> set ex'"
proof (cases "hosts = []")
  case True
  then show ?thesis using assms by (simp add: existing_targets_Inr)
next
  case False
  let ?db = "db\<lparr>pd_profiles := pd_profiles db @ rows\<rparr>"
  let ?sel = "\<lambda>db. filter (\<lambda>r. pr_host r \<in> set hosts) (owned ownerId db)"
  obtain ts where ts: "each target_of (?sel db) = Inr ts" "each key_of ts = Inr ex" "assertOwnerId ownerId = Inr ()" "length (remdups hosts) \<le> 50"
    using assms(2) False by (auto simp: existing_targets_Inr [OF assms(1)])
  let ?target = "\<lambda>r. \<lparr>pt_host = pr_host r, pt_port = pr_port r, pt_username = pr_username r\<rparr>"
  have sel: "?sel ?db = ?sel db @ rows" using assms(3) by (simp add: owned_def)
  have "each target_of rows = Inr (map ?target rows)"
    using assms(1, 3) by (intro each_same) (auto simp: target_of_def target_throws_def)
  moreover have "each key_of (map ?target rows) = Inr (map row_target rows)"
    using assms(1, 3) each_same [of "map ?target rows" key_of "\<lambda>t. target_key (pt_host t) (pt_port t) (pt_username t)"]
    by (simp add: key_of_def target_throws_def row_target_def comp_def)
  ultimately have "each target_of (?sel ?db) = Inr (ts @ map ?target rows)" "each key_of (ts @ map ?target rows) = Inr (ex @ map row_target rows)"
    using ts each_append unfolding sel by blast+
  then have "existing_targets ownerId hosts ?db = Inr (ex @ map row_target rows)"
    using False ts(3, 4) by (simp add: existing_targets_Inr [OF assms(1)])
  then show ?thesis by auto
qed

section \<open>To import twice\<close>

lemma available_in: "available_devices ds i = Some d \<Longrightarrow> d \<in> set ds"
  by (auto simp: available_devices_def dest!: map_of_SomeD)

lemma selected_hosts_set: "set (selected_hosts ds ids) = dv_host ` wanted (available_devices ds) ids"
  unfolding selected_hosts_def wanted_def by (induction ids) (auto simp: List.map_filter_simps split: option.splits)

lemma import_selected_twice:
  assumes "normal_hosts ds" "import_selected v violated fresh ownerId q ds db = (db', Inr (c, sk))"
  shows "\<exists>sk'. import_selected v' violated' fresh' ownerId q ds db' = (db', Inr ([], sk')) \<and> length sk' = length (im_deviceIds q)"
proof -
  let ?u = "trim (im_username q)" and ?av = "available_devices ds" and ?ids = "im_deviceIds q" and ?hosts = "selected_hosts ds (im_deviceIds q)"
  obtain ex where ex: "existing_targets ownerId ?hosts db = Inr ex"
    and loop: "import_loop v violated fresh ownerId q ?u ?av ?ids ex [] [] db = (db', Inr (c, sk))"
    using assms(2) by (auto simp: import_selected_def split: sum.splits)
  have normal: "\<forall>d \<in> wanted ?av ?ids. normalizeHost (dv_host d) = Inr (dv_host d)"
    using assms(1) available_in by (auto simp: normal_hosts_def list_all_iff wanted_def)
  then have hosts: "\<forall>h \<in> set ?hosts. normalizeHost h = Inr h" by (auto simp: selected_hosts_set)
  obtain rows where rows: "db' = db\<lparr>pd_profiles := pd_profiles db @ rows\<rparr>"
      "\<forall>r \<in> set rows. pr_owner_id r = ownerId \<and> (\<exists>d \<in> wanted ?av ?ids. pr_host r = dv_host d)"
      "\<forall>d \<in> wanted ?av ?ids. target_key (dv_host d) (im_port q) ?u \<in> set ex \<union> row_target ` set rows"
    using import_loop_Inr [OF loop normal trim_idem] by blast
  obtain ex' where ex': "existing_targets ownerId ?hosts db' = Inr ex'" "set ex \<union> row_target ` set rows \<subseteq> set ex'"
    using existing_after [OF hosts ex, of rows] rows(1, 2) by (auto simp: selected_hosts_set)
  then have "\<forall>d \<in> wanted ?av ?ids. target_key (dv_host d) (im_port q) ?u \<in> set ex'" using rows(3) by blast
  then show ?thesis using import_loop_skips [of ?av ?ids q ?u ex' v' violated' fresh' ownerId "[]" "[]" db'] ex'(1)
    by (simp add: import_selected_def)
qed

text \<open>
  C34: An import that was answered makes the same import, repeated with any fresh identifiers, create nothing: every device
  asked for is then skipped, and no profile changes.
\<close>

theorem import_again_creates_nothing:
  assumes "importDevices api url env v violated fresh b now ownerId q rows db = (db', Inr (created, skipped))"
  shows "\<exists>skipped'. importDevices api url env v violated fresh' b now ownerId q rows db' = (db', Inr ([], skipped')) \<and>
    length skipped' = length (im_deviceIds q)"
proof -
  obtain tailnet ds where d: "(if map_option trim (we_sshTransport env) \<noteq> Some ''tailnet_connector''
        then refuse 400 ''VALIDATION_FAILED'' ''Tailscale imports require tailnet_connector transport''
        else try_bind (map_sum (\<lambda>_. T_Other) (\<lambda>c. c) (getRuntimeConfig url env)) (\<lambda>runtime.
          try_bind (target_thrown (assertAllowedSshPort (of_int (im_port q)) (map_option (map of_int) (rc_allowedSshPorts runtime)))) (\<lambda>_.
          try_bind (repository (configuration_resolve v b ownerId rows)) (\<lambda>configuration.
            fetchTailscaleDevices api configuration now)))) = Inr (tailnet, ds)"
    and first: "import_selected v violated fresh ownerId q ds db = (db', Inr (created, skipped))"
    using assms by (auto simp: importDevices_def split: sum.splits)
  have "normal_hosts ds" using d fetched_normal by (auto simp: try_bind_eq_Inr refuse_def split: if_splits)
  from import_selected_twice [OF this first] show ?thesis unfolding importDevices_def d by simp
qed

section \<open>A concrete import\<close>

definition demo_devices_json :: json where
  "demo_devices_json = JObj [(''devices'', JArr [
     JObj [(''id'', JStr ''n1''), (''name'', JStr ''Web-1.tail.ts.net.''), (''authorized'', JBool True), (''addresses'', JArr [JStr ''100.64.0.1''])],
     JObj [(''id'', JStr ''n2''), (''name'', JStr ''printer'')],
     JObj [(''id'', JStr ''n3''), (''name'', JStr ''web-2.tail.ts.net''), (''authorized'', JBool False)]])]"

definition demo_api :: tailscale_api where
  "demo_api = \<lparr>ta_zod = \<lparr>z_uuid = (\<lambda>s. True), z_datetime = (\<lambda>s. True)\<rparr>,
     ta_calendar = \<lparr>cl_parse = (\<lambda>s. None), cl_iso = (\<lambda>n. []), cl_collation = length\<rparr>,
     ta_fetch = (\<lambda>address authorization. Some \<lparr>ar_status = 200, ar_contentLength = None,
       ar_chunks = [utf8 (the (json_text demo_devices_json))], ar_broken = False\<rparr>)\<rparr>"

definition demo_import :: import_request where
  "demo_import = \<lparr>im_deviceIds = [''n1'', ''n2'', ''n3''], im_username = '' root '', im_port = 22, im_method = ''password''\<rparr>"

definition demo_import_env :: worker_env where
  "demo_import_env = demo_worker_env\<lparr>we_allowedOrigins := None, we_sshTransport := Some ''tailnet_connector'',
     we_connectorUrl := Some ''wss://c.example/v1/connect'', we_connectorHmacKey := Some (replicate 43 CHR ''A'')\<rparr>"

definition demo_import_url :: "string \<Rightarrow> url_parts option" where
  "demo_import_url s = Some \<lparr>ur_protocol = ''wss:'', ur_origin = s, ur_username = [], ur_password = [], ur_pathname = ''/v1/connect'',
     ur_search = [], ur_hash = [], ur_href = s\<rparr>"

definition demo_tailnet :: bindings where
  "demo_tailnet = \<lparr>tb_tailnet = Some ''-'', tb_token = Some ''tskey''\<rparr>"

definition demo_fresh :: "string \<Rightarrow> string \<times> string" where
  "demo_fresh i = (replicate 36 (last i), ''t'')"

definition demo_imported :: "profile_db \<times> (thrown + profile_view list \<times> skipped list)" where
  "demo_imported = importDevices demo_api demo_import_url demo_import_env demo_vault ''UNIQUE'' demo_fresh demo_tailnet 0 ''o'' demo_import []
     \<lparr>pd_profiles = [], pd_active = []\<rparr>"

lemma demo_devices_body: "readBoundedBody \<lparr>ar_status = 200, ar_contentLength = None, ar_chunks = [utf8 (the (json_text demo_devices_json))], ar_broken = False\<rparr> =
    Inr (the (json_text demo_devices_json))"
proof -
  have "length (utf8 (the (json_text demo_devices_json))) \<le> 300" by code_simp
  then have "length (utf8 (the (json_text demo_devices_json))) \<le> MAX_RESPONSE_BYTES" by (simp add: MAX_RESPONSE_BYTES_def)
  moreover have "take 3 (utf8 (the (json_text demo_devices_json))) \<noteq> [0xEF, 0xBB, 0xBF]" by code_simp
  ultimately show ?thesis by (simp add: readBoundedBody_def)
qed

lemma demo_devices_text: "json_parse (the (json_text demo_devices_json)) = Some demo_devices_json"
proof -
  have "json_ok demo_devices_json" "json_text demo_devices_json \<noteq> None" by (simp_all add: demo_devices_json_def)
  then show ?thesis using json_parse_text by auto
qed

lemma demo_discovered:
  "fetchTailscaleDevices demo_api demo_tailnet 0 = Inr (''-'',
     [\<lparr>dv_id = ''n1'', dv_displayName = ''web-1'', dv_hostname = None, dv_host = ''web-1.tail.ts.net'', dv_addresses = [''100.64.0.1''],
        dv_os = None, dv_authorized = True, dv_online = False, dv_lastSeen = None\<rparr>,
      \<lparr>dv_id = ''n3'', dv_displayName = ''web-2'', dv_hostname = None, dv_host = ''web-2.tail.ts.net'', dv_addresses = [],
        dv_os = None, dv_authorized = False, dv_online = False, dv_lastSeen = None\<rparr>])" (is "_ = Inr (_, ?ds)")
proof -
  have c: "api_configuration demo_tailnet = Inr (''-'', ''tskey'')" by code_simp
  have "parseTailscaleDevices (ta_calendar demo_api) 0 demo_devices_json = Inr ?ds" by code_simp
  moreover have "to_number ''0'' = Some 0" by code_simp
  ultimately have f: "fetched_devices demo_api 0 \<lparr>ar_status = 200, ar_contentLength = None,
      ar_chunks = [utf8 (the (json_text demo_devices_json))], ar_broken = False\<rparr> = Inr ?ds"
    unfolding fetched_devices_def demo_devices_body by (simp add: demo_devices_text default_to_def)
  have z: "list_all (TailscaleDeviceSchema (ta_zod demo_api)) ?ds" by code_simp
  have a: "ta_fetch demo_api x y = Some \<lparr>ar_status = 200, ar_contentLength = None,
      ar_chunks = [utf8 (the (json_text demo_devices_json))], ar_broken = False\<rparr>" for x y by (simp add: demo_api_def)
  show ?thesis unfolding fetchTailscaleDevices_def c a using f z by simp
qed

lemma demo_selected:
  "\<exists>db p. import_selected demo_vault ''UNIQUE'' demo_fresh ''o'' demo_import
     [\<lparr>dv_id = ''n1'', dv_displayName = ''web-1'', dv_hostname = None, dv_host = ''web-1.tail.ts.net'', dv_addresses = [''100.64.0.1''],
        dv_os = None, dv_authorized = True, dv_online = False, dv_lastSeen = None\<rparr>,
      \<lparr>dv_id = ''n3'', dv_displayName = ''web-2'', dv_hostname = None, dv_host = ''web-2.tail.ts.net'', dv_addresses = [],
        dv_os = None, dv_authorized = False, dv_online = False, dv_lastSeen = None\<rparr>] \<lparr>pd_profiles = [], pd_active = []\<rparr> =
     (db, Inr ([p], [(''n2'', ''n2'', Missing_Magic_Dns), (''n3'', ''web-2'', Unauthorized)]))" (is "\<exists>db p. ?r = _")
proof -
  have "case ?r of (db, Inr (ps, sk)) \<Rightarrow> length ps = 1 \<and> sk = [(''n2'', ''n2'', Missing_Magic_Dns), (''n3'', ''web-2'', Unauthorized)] | _ \<Rightarrow> False"
    by code_simp
  then show ?thesis by (auto simp: length_Suc_conv split: prod.splits sum.splits)
qed

lemma demo_import_ready:
  "map_option trim (we_sshTransport demo_import_env) = Some ''tailnet_connector''"
  "map_sum (\<lambda>m. m) rc_allowedSshPorts (getRuntimeConfig demo_import_url demo_import_env) = Inr None"
  "assertAllowedSshPort 22 None = Inr ()" "configuration_resolve demo_vault demo_tailnet ''o'' [] = Inr demo_tailnet"
  by code_simp+

lemma import_again_creates_nothing_witness:
  "\<exists>db p skipped. demo_imported = (db, Inr ([p], [(''n2'', ''n2'', Missing_Magic_Dns), (''n3'', ''web-2'', Unauthorized)])) \<and>
    importDevices demo_api demo_import_url demo_import_env demo_vault ''UNIQUE'' (\<lambda>i. (replicate 36 (last i), ''t2'')) demo_tailnet 0 ''o''
      demo_import [] db = (db, Inr ([], skipped)) \<and> length skipped = 3"
proof -
  obtain rt where rt: "getRuntimeConfig demo_import_url demo_import_env = Inr rt" "rc_allowedSshPorts rt = None"
    using demo_import_ready(2) by (cases "getRuntimeConfig demo_import_url demo_import_env") auto
  have "im_port demo_import = 22" by (simp add: demo_import_def)
  then have "\<exists>db p. demo_imported = (db, Inr ([p], [(''n2'', ''n2'', Missing_Magic_Dns), (''n3'', ''web-2'', Unauthorized)]))"
    using demo_selected demo_import_ready rt by (simp add: demo_imported_def importDevices_def demo_discovered repository_def)
  then obtain db p where d: "demo_imported = (db, Inr ([p], [(''n2'', ''n2'', Missing_Magic_Dns), (''n3'', ''web-2'', Unauthorized)]))" by blast
  have "length (im_deviceIds demo_import) = 3" by (simp add: demo_import_def)
  with import_again_creates_nothing [OF d [unfolded demo_imported_def], of "\<lambda>i. (replicate 36 (last i), ''t2'')"] d show ?thesis by auto
qed

text \<open>An address of one character passes the filter and not the schema of the answer, which is then refused as a whole.\<close>

lemma short_address_refused:
  assumes "dv_addresses d = api_addresses (Some (JArr [JStr ''1'']))"
  shows "\<not> TailscaleDeviceSchema z d"
proof -
  have "api_addresses (Some (JArr [JStr ''1''])) = [''1'']" by code_simp
  then show ?thesis using assms by (simp add: TailscaleDeviceSchema_def)
qed

end
