(* ===== verification/Api_Secrets.thy ===== *)
theory Api_Secrets
  imports Api_Facts Tailscale_Facts Auth_System
begin

text \<open>
  The credential of a profile through the whole API: schemas, handlers, repository and table together keep that a
  profile whose credential is to be saved has it. The lemmas follow a secret from the body of a request to its columns.
\<close>

section \<open>Columns\<close>

definition columns_ok :: "secret_columns \<Rightarrow> bool" where
  "columns_ok c \<longleftrightarrow> (\<exists>e. c = envelope_columns e \<and> (\<forall>x. e = Some x \<longrightarrow> env_version x = 1))"

definition secret_ok :: "profile_row \<Rightarrow> bool" where
  "secret_ok r \<longleftrightarrow> columns_ok (pr_password r) \<and> columns_ok (pr_private_key r) \<and> columns_ok (pr_passphrase r) \<and>
     (pr_credential_persistence r = ''saved'' \<longrightarrow>
       (profileAuthKind r = ''password'' \<longrightarrow> sc_ciphertext (pr_password r) \<noteq> None) \<and>
       (profileAuthKind r = ''private_key'' \<longrightarrow> sc_ciphertext (pr_private_key r) \<noteq> None))"

lemma columns_envelope: "(\<And>x. e = Some x \<Longrightarrow> env_version x = 1) \<Longrightarrow> columns_ok (envelope_columns e)"
  by (auto simp: columns_ok_def)

lemma ciphertext_envelope [simp]: "sc_ciphertext (envelope_columns e) = None \<longleftrightarrow> e = None"
  by (simp add: envelope_columns_def)

lemma columns_field: "columns_ok (columns_of f r) \<Longrightarrow> fieldEnvelope r f = None \<longleftrightarrow> sc_ciphertext (columns_of f r) = None"
  by (auto simp: columns_ok_def) (metis ciphertext_envelope fieldEnvelope_columns option.discI)+

lemma store_version: "store_secret v owner profile f s = Inr e \<Longrightarrow> env_version e = 1"
  by (auto simp: store_secret_def encryptSecret_def try_bind_eq_Inr CREDENTIAL_ENVELOPE_VERSION_def split: if_splits)

lemma new_secret_Inr:
  assumes "new_secret v owner profile f s = Inr e"
  shows "columns_ok (envelope_columns e)" and "given s \<Longrightarrow> e \<noteq> None"
  using assms by (auto simp: new_secret_def map_sum_Inr given_def intro!: columns_envelope dest: store_version split: if_splits)

lemma resolve_Inr:
  assumes "resolveSecret v owner profile f next_value (fieldEnvelope row f) = Inr e"
  shows "columns_ok (envelope_columns e)" and "next_value = None \<Longrightarrow> e = fieldEnvelope row f"
    and "next_value = Some (Some s) \<Longrightarrow> s \<noteq> [] \<Longrightarrow> e \<noteq> None"
  using assms
  by (auto simp: resolveSecret_def map_sum_Inr intro!: columns_envelope dest: store_version fieldEnvelope_version split: option.splits if_splits)

section \<open>Bodies\<close>

fun input_ok :: "credential_input \<Rightarrow> bool" where
  "input_ok (Password_Input s p) \<longleftrightarrow> (s = ''saved'' \<longrightarrow> given p)"
| "input_ok (Private_Key_Input s k p b) \<longleftrightarrow> (s = ''saved'' \<longrightarrow> given k)"
| "input_ok Tailscale_Input \<longleftrightarrow> True"

lemma z_str_given: "z_str lo hi v = Some s \<Longrightarrow> 0 < lo \<Longrightarrow> s \<noteq> []"
  by (auto simp: z_str_def Option.bind_eq_Some_conv split: if_splits)

lemma optional_given: "z_optional (z_str lo hi) v = Some (Some s) \<Longrightarrow> 0 < lo \<Longrightarrow> s \<noteq> []"
  by (auto simp: z_optional_def z_str_given split: option.splits)

lemma credential_input_ok:
  assumes "ProfileCredentialInputSchema v = Some c"
  shows "input_ok c"
proof -
  have "PasswordCredentialInputSchema v = Some c \<Longrightarrow> ?thesis"
    by (auto simp: PasswordCredentialInputSchema_def SshPasswordSchema_def given_def Option.bind_eq_Some_conv dest: optional_given split: if_splits)
  moreover have "PrivateKeyCredentialInputSchema v = Some c \<Longrightarrow> ?thesis"
    by (auto simp: PrivateKeyCredentialInputSchema_def PrivateKeySchema_def given_def Option.bind_eq_Some_conv dest: optional_given split: if_splits)
  moreover have "TailscaleSshCredentialInputSchema v = Some c \<Longrightarrow> ?thesis"
    by (auto simp: TailscaleSshCredentialInputSchema_def Option.bind_eq_Some_conv)
  ultimately show ?thesis using assms by (auto simp: ProfileCredentialInputSchema_def z_either_def split: option.splits)
qed

lemma create_schema_ok:
  assumes "ProfileCreateRequestSchema v = Some r"
  shows "input_ok (cq_credential r)"
proof -
  have "\<exists>x. ProfileCredentialInputSchema x = Some (cq_credential r)"
    using assms unfolding ProfileCreateRequestSchema_def Option.bind_eq_Some_conv
    by (elim exE conjE) (auto split: if_splits)
  then show ?thesis using credential_input_ok by blast
qed

lemma import_input_ok [simp]: "input_ok (importCredential m)"
  by (simp add: importCredential_def)

fun nonempty_replace :: "secret_mutation \<Rightarrow> bool" where
  "nonempty_replace (Replace s) \<longleftrightarrow> s \<noteq> []"
| "nonempty_replace _ \<longleftrightarrow> True"

fun update_ok :: "credential_update option \<Rightarrow> bool" where
  "update_ok (Some (Password_Update s m)) \<longleftrightarrow> s \<in> {''saved'', ''prompt''} \<and> nonempty_replace m"
| "update_ok (Some (Private_Key_Update s k p)) \<longleftrightarrow> s \<in> {''saved'', ''prompt''} \<and> nonempty_replace k"
| "update_ok _ \<longleftrightarrow> True"

lemma mutation_schema_ok: "createSecretMutationSchema (z_str lo hi) v = Some m \<Longrightarrow> 0 < lo \<Longrightarrow> nonempty_replace m"
  by (auto simp: createSecretMutationSchema_def z_either_def Option.bind_eq_Some_conv dest: z_str_given split: option.splits)

lemma password_mutation_ok: "createSecretMutationSchema SshPasswordSchema v = Some m \<Longrightarrow> nonempty_replace m"
  unfolding SshPasswordSchema_def by (rule mutation_schema_ok, assumption) simp

lemma key_mutation_ok: "createSecretMutationSchema PrivateKeySchema v = Some m \<Longrightarrow> nonempty_replace m"
  unfolding PrivateKeySchema_def by (rule mutation_schema_ok, assumption) simp

lemma persistence_schema: "SecretCredentialPersistenceSchema v = Some s \<Longrightarrow> s = ''saved'' \<or> s = ''prompt''"
  by (auto simp: SecretCredentialPersistenceSchema_def z_enum_def Option.bind_eq_Some_conv split: if_splits)

lemma credential_update_ok:
  assumes "ProfileCredentialUpdateSchema v = Some c"
  shows "update_ok (Some c)"
proof -
  have "PasswordCredentialUpdateSchema v = Some c \<Longrightarrow> ?thesis"
    by (auto simp: PasswordCredentialUpdateSchema_def Option.bind_eq_Some_conv dest!: persistence_schema password_mutation_ok split: if_splits)
  moreover have "PrivateKeyCredentialUpdateSchema v = Some c \<Longrightarrow> ?thesis"
    by (auto simp: PrivateKeyCredentialUpdateSchema_def Option.bind_eq_Some_conv dest!: persistence_schema key_mutation_ok split: if_splits)
  moreover have "TailscaleSshCredentialUpdateSchema v = Some c \<Longrightarrow> ?thesis"
    by (auto simp: TailscaleSshCredentialUpdateSchema_def Option.bind_eq_Some_conv)
  ultimately show ?thesis using assms by (auto simp: ProfileCredentialUpdateSchema_def z_either_def split: option.splits)
qed

lemma update_schema_ok:
  assumes "ProfileUpdateRequestSchema v = Some r"
  shows "update_ok (uq_credential r)"
proof -
  have x: "\<exists>x. z_optional ProfileCredentialUpdateSchema x = Some (uq_credential r)"
    using assms unfolding ProfileUpdateRequestSchema_def Option.bind_eq_Some_conv
    by (elim exE conjE) (auto split: if_splits)
  show ?thesis
  proof (cases "uq_credential r")
    case (Some c)
    then show ?thesis using x credential_update_ok by (auto simp: z_optional_def simp del: update_ok.simps split: option.splits)
  qed simp
qed

section \<open>Rows\<close>

lemma created_secret_ok:
  assumes "create_row v ownerId newId now (create_from_request q) = Inr row" "input_ok (cq_credential q)"
  shows "secret_ok row"
proof -
  let ?i = "create_from_request q" and ?id = "default_to newId (ci_id (create_from_request q))"
  obtain kind pw pk pp pers where c:
    "new_secret v ownerId ?id F_Password (ci_password ?i) = Inr pw" "new_secret v ownerId ?id F_PrivateKey (ci_privateKey ?i) = Inr pk"
    "new_secret v ownerId ?id F_Passphrase (ci_passphrase ?i) = Inr pp" "pr_password row = envelope_columns pw"
    "pr_private_key row = envelope_columns pk" "pr_passphrase row = envelope_columns pp" "profileAuthKind row = ci_authKind ?i"
    "profileAuthKind row = ''tailscale_ssh'' \<or> pr_credential_persistence row = default_to ''saved'' (ci_credentialPersistence ?i)"
    using assms(1) unfolding create_row_def Let_def try_bind_eq_Inr sum.inject
    by (elim exE conjE) (rule that, assumption+, auto simp: profileAuthKind_def toInteger_def validateEnum_Inr split: if_splits)
  show ?thesis
    using assms(2) c new_secret_Inr [OF c(1)] new_secret_Inr [OF c(2)] new_secret_Inr [OF c(3)]
    by (cases "cq_credential q") (auto simp: secret_ok_def create_from_request_def default_to_def)
qed

text \<open>What a patch of a credential does to the method, the persistence and the secrets of a row.\<close>

lemma update_row_persistence:
  assumes "update_row v ownerId profileId now p row = Inr u"
  shows "profileAuthKind u = ''tailscale_ssh'' \<or> pr_credential_persistence u = default_to (pr_credential_persistence row) (ui_credentialPersistence p)"
  using assms unfolding update_row_def Let_def try_bind_eq_Inr sum.inject
  by (elim exE conjE, hypsubst) (simp add: profileAuthKind_def toInteger_def validateEnum_Inr split: if_splits)

lemma update_row_secrets:
  assumes "update_row v ownerId profileId now p row = Inr u"
  obtains kind pw pk pp where
    "profileAuthKind u = kind" "kind = default_to (profileAuthKind row) (ui_authKind p)"
    "kind \<noteq> ''tailscale_ssh'' \<Longrightarrow> pr_credential_persistence u = default_to (pr_credential_persistence row) (ui_credentialPersistence p)"
    "if kind = ''tailscale_ssh'' then pw = None else resolveSecret v ownerId profileId F_Password (ui_password p) (fieldEnvelope row F_Password) = Inr pw"
    "if kind = ''tailscale_ssh'' then pk = None else resolveSecret v ownerId profileId F_PrivateKey (ui_privateKey p) (fieldEnvelope row F_PrivateKey) = Inr pk"
    "if kind = ''tailscale_ssh'' then pp = None else resolveSecret v ownerId profileId F_Passphrase (ui_passphrase p) (fieldEnvelope row F_Passphrase) = Inr pp"
    "pr_password u = envelope_columns pw" "pr_private_key u = envelope_columns pk" "pr_passphrase u = envelope_columns pp"
proof (rule update_row_Inr [OF assms], goal_cases)
  case (1 kind pw pk pp)
  have "kind = default_to (profileAuthKind row) (ui_authKind p)"
    using 1(2) by (auto simp: patched_def validateEnum_Inr default_to_def split: option.splits)
  moreover have "kind \<noteq> ''tailscale_ssh'' \<Longrightarrow> pr_credential_persistence u = default_to (pr_credential_persistence row) (ui_credentialPersistence p)"
    using update_row_persistence [OF assms] 1(8) by auto
  ultimately show ?case by (rule 1(1) [OF 1(8)]) (use 1 in \<open>auto split: if_splits\<close>)
qed

lemma updated_secret_ok:
  assumes "update_row v ownerId profileId now (update_from_request q) row = Inr u" "secret_ok row" "update_ok (uq_credential q)"
    "\<not> credential_missing (uq_credential q) (toView row)"
  shows "secret_ok u"
proof -
  let ?p = "update_from_request q"
  obtain kind pw pk pp where k: "profileAuthKind u = kind" "kind = default_to (profileAuthKind row) (ui_authKind ?p)"
      "kind \<noteq> ''tailscale_ssh'' \<Longrightarrow> pr_credential_persistence u = default_to (pr_credential_persistence row) (ui_credentialPersistence ?p)"
      "if kind = ''tailscale_ssh'' then pw = None else resolveSecret v ownerId profileId F_Password (ui_password ?p) (fieldEnvelope row F_Password) = Inr pw"
      "if kind = ''tailscale_ssh'' then pk = None else resolveSecret v ownerId profileId F_PrivateKey (ui_privateKey ?p) (fieldEnvelope row F_PrivateKey) = Inr pk"
      "if kind = ''tailscale_ssh'' then pp = None else resolveSecret v ownerId profileId F_Passphrase (ui_passphrase ?p) (fieldEnvelope row F_Passphrase) = Inr pp"
      "pr_password u = envelope_columns pw" "pr_private_key u = envelope_columns pk" "pr_passphrase u = envelope_columns pp"
    by (rule update_row_secrets [OF assms(1)]) blast
  have cols: "columns_ok (envelope_columns pw)" "columns_ok (envelope_columns pk)" "columns_ok (envelope_columns pp)"
    using k(4-6) by (auto intro: columns_envelope resolve_Inr(1) split: if_splits)
  have old: "fieldEnvelope row F_Password = None \<longleftrightarrow> sc_ciphertext (pr_password row) = None"
    "fieldEnvelope row F_PrivateKey = None \<longleftrightarrow> sc_ciphertext (pr_private_key row) = None"
    using assms(2) columns_field [of F_Password row] columns_field [of F_PrivateKey row] by (simp_all add: secret_ok_def)
  show ?thesis
  proof (cases "kind = ''tailscale_ssh''")
    case True
    then show ?thesis using cols k(1, 7-9) by (simp add: secret_ok_def)
  next
    case False
    note pers = k(3) [OF False]
    have r: "resolveSecret v ownerId profileId F_Password (ui_password ?p) (fieldEnvelope row F_Password) = Inr pw"
      "resolveSecret v ownerId profileId F_PrivateKey (ui_privateKey ?p) (fieldEnvelope row F_PrivateKey) = Inr pk"
      using k(4, 5) False by simp_all
    note r1 = resolve_Inr(2) [OF r(1)] resolve_Inr(3) [OF r(1)] and r2 = resolve_Inr(2) [OF r(2)] resolve_Inr(3) [OF r(2)]
    show ?thesis
    proof (cases "uq_credential q")
      case None
      then have "ui_authKind ?p = None" "ui_credentialPersistence ?p = None" "ui_password ?p = None" "ui_privateKey ?p = None"
        by (simp_all add: update_from_request_def)
      then show ?thesis using assms(2) cols k(1, 2, 7-9) pers r1(1) r2(1) old by (simp add: secret_ok_def default_to_def)
    next
      case (Some c)
      show ?thesis
      proof (cases c)
        case (Password_Update s m)
        then have "kind = ''password''" "pr_credential_persistence u = s" "s = ''saved'' \<Longrightarrow> ui_password ?p = mutation m"
          using Some k(2) pers by (auto simp: update_from_request_def default_to_def Let_def split: if_splits)
        moreover have "s = ''saved'' \<Longrightarrow> pw \<noteq> None"
          using Some Password_Update assms(3, 4) calculation(3) r1 old by (cases m) (auto simp: toView_def)
        ultimately show ?thesis using cols k(1, 7-9) by (simp add: secret_ok_def)
      next
        case (Private_Key_Update s m pp')
        then have "kind = ''private_key''" "pr_credential_persistence u = s" "s = ''saved'' \<Longrightarrow> ui_privateKey ?p = mutation m"
          using Some k(2) pers by (auto simp: update_from_request_def default_to_def Let_def split: if_splits)
        moreover have "s = ''saved'' \<Longrightarrow> pk \<noteq> None"
          using Some Private_Key_Update assms(3, 4) calculation(3) r2 old by (cases m) (auto simp: toView_def)
        ultimately show ?thesis using cols k(1, 7-9) by (simp add: secret_ok_def)
      next
        case Tailscale_Update
        then have "kind = ''tailscale_ssh''" using Some k(2) by (simp add: update_from_request_def default_to_def Let_def)
        then show ?thesis using False by simp
      qed
    qed
  qed
qed

section \<open>Tables\<close>

definition rows_ok :: "profile_row list \<Rightarrow> bool" where "rows_ok rows \<longleftrightarrow> list_all secret_ok rows"

lemma create_secrets:
  assumes "createFromRequest v violated ownerId newId now q db = (db', r)" "input_ok (cq_credential q)"
  shows "\<exists>rows. db' = db\<lparr>pd_profiles := pd_profiles db @ rows\<rparr> \<and> list_all secret_ok rows"
proof (cases r)
  case (Inl m)
  then have "db' = db" using assms(1) by (auto simp: createFromRequest_def profile_create_def split: sum.splits)
  then show ?thesis by (intro exI [of _ "[]"]) simp
next
  case (Inr view)
  then obtain row where row: "create_row v ownerId newId now (create_from_request q) = Inr row" "insert_profile violated row db = Inr db'"
    using assms(1) by (auto simp: createFromRequest_def profile_create_def try_bind_eq_Inr map_sum_Inr split: sum.splits)
  then show ?thesis using created_secret_ok [OF row(1) assms(2)]
    by (intro exI [of _ "[row]"]) (auto simp: insert_profile_def split: if_splits)
qed

lemma creates_secrets: "creates v violated ownerId q u secret_ok"
  unfolding creates_def by (intro allI impI, erule create_secrets) (simp add: imported_profile_def)

lemma update_secrets:
  assumes "updateFromRequest v violated ownerId profileId now q db = (db', r)" "rows_ok (pd_profiles db)" "update_ok (uq_credential q)"
    "\<And>row. find (selects ownerId profileId) (pd_profiles db) = Some row \<Longrightarrow> \<not> credential_missing (uq_credential q) (toView row)"
  shows "rows_ok (pd_profiles db')"
proof (cases "db' = db")
  case False
  then obtain row u where f: "getRow ownerId profileId db = Inr (Some row)" "update_row v ownerId profileId now (update_from_request q) row = Inr u"
      "update_profile violated u db = Inr db'"
    using assms(1) by (auto simp: updateFromRequest_def profile_update_def try_bind_eq_Inr map_sum_Inr split: sum.splits option.splits)
  have found: "find (selects ownerId profileId) (pd_profiles db) = Some row" using f(1) by (simp add: getRow_Inr)
  then have "secret_ok row" using assms(2) by (auto simp: rows_ok_def list_all_iff find_Some_iff)
  then have "secret_ok u" using updated_secret_ok [OF f(2)] assms(3, 4) found by blast
  then show ?thesis using f(3) assms(2) by (auto simp: update_profile_def rows_ok_def list_all_iff split: if_splits)
qed (simp add: assms(2))

lemma body_of_schema: "body_of q schema n = Inr x \<Longrightarrow> \<exists>v. schema v = Some x"
  by (auto simp: body_of_def parseJson_def try_bind_eq_Inr split: if_splits option.splits)

lemma createProfile_secrets: "createProfile w fr q ownerId s = (st', r) \<Longrightarrow> rows_ok (wb_profiles s) \<Longrightarrow> rows_ok (wb_profiles st')"
  by (auto simp: createProfile_def try_bind_eq_Inr rows_ok_def refuse_def dest!: create_secrets body_of_schema intro: create_schema_ok
      split: sum.splits prod.splits if_splits)

lemma checkUpdate_ok:
  assumes "checkUpdate w q ownerId profileId s = Inr input"
  shows "update_ok (uq_credential input)"
    and "find (selects ownerId profileId) (wb_profiles s) = Some row \<Longrightarrow> \<not> credential_missing (uq_credential input) (toView row)"
proof -
  have body: "body_of q ProfileUpdateRequestSchema MAX_API_JSON_BYTES = Inr input"
    and found: "\<exists>e. existing_profile ownerId profileId s = Inr e \<and> \<not> credential_missing (uq_credential input) e"
    using assms by (auto simp: checkUpdate_def try_bind_eq_Inr Let_def refuse_def split: if_splits)
  show "update_ok (uq_credential input)" using body_of_schema [OF body] update_schema_ok by blast
  assume "find (selects ownerId profileId) (wb_profiles s) = Some row"
  then show "\<not> credential_missing (uq_credential input) (toView row)" using found
    by (auto simp: existing_profile_def try_bind_eq_Inr profile_get_def map_sum_Inr getRow_Inr profile_not_found_def refuse_def split: option.splits)
qed

lemma updateProfile_secrets:
  assumes "updateProfile w fr q ownerId p s = (st', r)" "rows_ok (wb_profiles s)"
  shows "rows_ok (wb_profiles st')"
proof (cases "st' = s")
  case False
  then obtain input db x where c: "checkUpdate w q ownerId p s = Inr input"
      "updateFromRequest (w_vault w fr) (ae_violated (aw_auth w)) ownerId p (fr_iso fr) input (profile_db_of s) = (db, x)" "st' = with_profiles s db"
    using assms(1) by (auto simp: updateProfile_def split: sum.splits prod.splits)
  have "rows_ok (pd_profiles db)"
    by (rule update_secrets [OF c(2)]) (use assms(2) checkUpdate_ok [OF c(1)] in simp_all)
  then show ?thesis by (simp add: c(3))
qed (simp add: assms(2))

lemma deleteProfile_secrets: "deleteProfile ownerId p s = (st', r) \<Longrightarrow> rows_ok (wb_profiles s) \<Longrightarrow> rows_ok (wb_profiles st')"
  by (auto simp: deleteProfile_def deleteIfNoActiveSessions_def rows_ok_def list_all_iff split: sum.splits prod.splits bool.splits if_splits)

lemma postImport_secrets: "postImport w fr q ownerId s = (st', r) \<Longrightarrow> rows_ok (wb_profiles s) \<Longrightarrow> rows_ok (wb_profiles st')"
  by (auto simp: postImport_def rows_ok_def dest!: importDevices_appends [OF _ creates_secrets] split: sum.splits prod.splits)

section \<open>Requests\<close>

lemma with_owner_secrets:
  assumes "with_owner w fr q k st = (st', r)" "rows_ok (wb_profiles st)"
    "\<And>ownerId s. rows_ok (wb_profiles s) \<Longrightarrow> k ownerId s = (st', r) \<Longrightarrow> rows_ok (wb_profiles st')"
  shows "rows_ok (wb_profiles st')"
proof -
  obtain db e where a: "requireAuthentication (aw_auth w) (auth_request_of q) (fr_now fr) (wb_auth st) = (db, e)" by force
  show ?thesis using assms(1, 2) assms(3) [of "st\<lparr>wb_auth := db\<rparr>"] a by (cases e) (auto simp: with_owner_def)
qed

lemma same_profiles: "same_data st st' \<Longrightarrow> rows_ok (wb_profiles st) \<Longrightarrow> rows_ok (wb_profiles st')"
  by (simp add: same_data_def)

lemma routeSettings_secrets: "routeSettings w fr q st = (st', r) \<Longrightarrow> rows_ok (wb_profiles st) \<Longrightarrow> rows_ok (wb_profiles st')"
  by (auto simp: routeSettings_def patchSettings_def elim!: with_owner_secrets split: if_splits prod.splits sum.splits)

lemma routeHistory_secrets: "routeHistory w fr q st = (st', r) \<Longrightarrow> rows_ok (wb_profiles st) \<Longrightarrow> rows_ok (wb_profiles st')"
  by (auto simp: routeHistory_def commandHistory_def sessionHistory_def sessionEvents_def elim!: with_owner_secrets
      split: if_splits prod.splits sum.splits option.splits)

lemma routeTailscale_secrets: "routeTailscale w fr q st = (st', r) \<Longrightarrow> rows_ok (wb_profiles st) \<Longrightarrow> rows_ok (wb_profiles st')"
  by (auto simp: routeTailscale_def putConfiguration_def dest: postImport_secrets elim!: with_owner_secrets split: if_splits prod.splits sum.splits)

lemma routeProfiles_secrets: "routeProfiles w fr q st = (st', r) \<Longrightarrow> rows_ok (wb_profiles st) \<Longrightarrow> rows_ok (wb_profiles st')"
  by (auto simp: routeProfiles_def listProfiles_def getProfile_def dest: createProfile_secrets updateProfile_secrets deleteProfile_secrets
      elim!: with_owner_secrets split: if_splits option.splits sum.splits)

lemma createSshTicket_secrets: "createSshTicket w fr i q st = (st', r) \<Longrightarrow> rows_ok (wb_profiles st) \<Longrightarrow> rows_ok (wb_profiles st')"
  by (auto simp: createSshTicket_def call_session_def elim!: with_owner_secrets split: if_splits prod.splits sum.splits)

lemma upgradeSsh_secrets: "upgradeSsh w fr q st = (st', r) \<Longrightarrow> rows_ok (wb_profiles st) \<Longrightarrow> rows_ok (wb_profiles st')"
  by (auto simp: upgradeSsh_def call_session_def elim!: with_owner_secrets split: if_splits prod.splits sum.splits)

lemma apiRoute_secrets: "apiRoute w fr i q st = (st', r) \<Longrightarrow> rows_ok (wb_profiles st) \<Longrightarrow> rows_ok (wb_profiles st')"
  unfolding apiRoute_def Let_def
  by (auto dest: routeAuth_same same_profiles routeSettings_secrets routeHistory_secrets routeTailscale_secrets routeProfiles_secrets
      createSshTicket_secrets split: if_splits)

lemma request_secrets:
  assumes "routeRequest w fr q st = (st', r)" "rows_ok (wb_profiles st)"
  shows "rows_ok (wb_profiles st')"
proof -
  obtain x where d: "dispatchRequest w fr q st = (st', x)" using assms(1) by (cases "dispatchRequest w fr q st") (auto simp: routeRequest_def split: sum.splits)
  consider "st' = st" | y where "apiRoute w fr (request_id fr q) q st = (st', y)" | y where "upgradeSsh w fr q st = (st', y)"
    using d by (auto simp: dispatchRequest_def Let_def split: if_splits sum.splits prod.splits)
  then show ?thesis using assms(2) by cases (auto dest: apiRoute_secrets upgradeSsh_secrets)
qed

section \<open>Updates that wait\<close>

text \<open>
  An update of a profile awaits between its three pieces: the handler reads the profile and checks the body against it
  (\<open>updateProfile\<close> in \<open>http/profiles.ts\<close>), the repository reads the row again and encrypts the new secrets (\<open>update\<close> in
  \<open>storage/profiles.ts\<close>), and one statement writes the row. Anything else may happen in between. The statement leaves the columns
  of the last connection and of the creation as it finds them.
\<close>

definition update_columns :: "profile_row \<Rightarrow> profile_row \<Rightarrow> profile_row" where
  "update_columns u r = r\<lparr>pr_name := pr_name u, pr_host := pr_host u, pr_port := pr_port u, pr_username := pr_username u,
     pr_auth_kind := pr_auth_kind u, pr_tailscale_ssh := pr_tailscale_ssh u, pr_credential_persistence := pr_credential_persistence u,
     pr_notes := pr_notes u, pr_initial_command := pr_initial_command u, pr_terminal_type := pr_terminal_type u, pr_encoding := pr_encoding u,
     pr_collect_history := pr_collect_history u, pr_password := pr_password u, pr_private_key := pr_private_key u,
     pr_passphrase := pr_passphrase u, pr_updated_at := pr_updated_at u\<rparr>"

definition update_statement :: "string \<Rightarrow> profile_row \<Rightarrow> profile_db \<Rightarrow> profile_db throws" where
  "update_statement violated u db =
     (if list_ex (\<lambda>r. \<not> selects (pr_owner_id u) (pr_id u) r \<and> identity r = identity u) (pd_profiles db) then Inl violated
      else Inr (db\<lparr>pd_profiles := map (\<lambda>r. if selects (pr_owner_id u) (pr_id u) r then update_columns u r else r) (pd_profiles db)\<rparr>))"

text \<open>Where nothing happens in between, this is the update of the repository.\<close>

lemma update_row_columns: "update_row v ownerId profileId now p row = Inr u \<Longrightarrow> update_columns u row = u"
  unfolding update_row_def Let_def try_bind_eq_Inr sum.inject
  by (elim exE conjE, hypsubst) (simp add: update_columns_def)

lemma statement_uninterrupted:
  assumes "update_row v ownerId profileId now p row = Inr u" "\<And>r. r \<in> set (pd_profiles db) \<Longrightarrow> selects (pr_owner_id u) (pr_id u) r \<Longrightarrow> r = row"
  shows "update_statement violated u db = update_profile violated u db"
proof -
  have "map (\<lambda>r. if selects (pr_owner_id u) (pr_id u) r then update_columns u r else r) (pd_profiles db) =
      map (\<lambda>r. if selects (pr_owner_id u) (pr_id u) r then u else r) (pd_profiles db)"
    using assms(2) update_row_columns [OF assms(1)] by (intro map_cong [OF refl]) auto
  then show ?thesis by (simp add: update_statement_def update_profile_def)
qed

datatype update_stage = Checked profile_row | Computed profile_row

record pending_update =
  pu_ownerId :: string
  pu_profileId :: string
  pu_input :: profile_update_request
  pu_stage :: update_stage

text \<open>A stored password or key that was there when the update was checked and is gone when its row is read.\<close>

definition secret_gone :: "profile_row \<Rightarrow> profile_row \<Rightarrow> bool" where
  "secret_gone seen row \<longleftrightarrow> pv_hasPassword (toView seen) \<and> \<not> pv_hasPassword (toView row) \<or>
     pv_hasPrivateKey (toView seen) \<and> \<not> pv_hasPrivateKey (toView row)"

text \<open>
  The states the application comes to, with the updates under way and whether one of them has lost a secret that its check
  relied on: requests, each under the configuration of its time; the pieces of updates, in any order among the others; imports
  profile by profile; connections that are recorded in a profile; and whatever changes no profile.
\<close>

inductive api_reach :: "app_state \<Rightarrow> pending_update list \<Rightarrow> bool \<Rightarrow> bool" where
  api_start: "wb_profiles st = [] \<Longrightarrow> api_reach st [] False"
| api_request: "api_reach st us lost \<Longrightarrow> routeRequest w fr q st = (st', r) \<Longrightarrow> api_reach st' us lost"
| api_import: "api_reach st us lost \<Longrightarrow> createFromRequest v violated ownerId newId now (imported_profile q u d) (profile_db_of st) = (db, r) \<Longrightarrow>
    api_reach (with_profiles st db) us lost"
| update_checked: "api_reach st us lost \<Longrightarrow> checkUpdate w q ownerId profileId st = Inr input \<Longrightarrow>
    find (selects ownerId profileId) (wb_profiles st) = Some row \<Longrightarrow>
    api_reach st (us @ [\<lparr>pu_ownerId = ownerId, pu_profileId = profileId, pu_input = input, pu_stage = Checked row\<rparr>]) lost"
| update_read: "api_reach st (us @ u # us') lost \<Longrightarrow> pu_stage u = Checked seen \<Longrightarrow>
    find (selects (pu_ownerId u) (pu_profileId u)) (wb_profiles st) = Some row \<Longrightarrow>
    update_row v (pu_ownerId u) (pu_profileId u) now (update_from_request (pu_input u)) row = Inr computed \<Longrightarrow>
    api_reach st (us @ u\<lparr>pu_stage := Computed computed\<rparr> # us') (lost \<or> secret_gone seen row)"
| update_written: "api_reach st (us @ u # us') lost \<Longrightarrow> pu_stage u = Computed computed \<Longrightarrow>
    update_statement violated computed (profile_db_of st) = Inr db \<Longrightarrow> api_reach (with_profiles st db) (us @ us') lost"
| update_given_up: "api_reach st (us @ u # us') lost \<Longrightarrow> api_reach st (us @ us') lost"
| api_connected: "api_reach st us lost \<Longrightarrow>
    api_reach (with_profiles st (markConnected ownerId profileId username fingerprint now (profile_db_of st))) us lost"
| api_elsewhere: "api_reach st us lost \<Longrightarrow> wb_profiles st' = wb_profiles st \<Longrightarrow> api_reach st' us lost"

definition pending_ok :: "pending_update \<Rightarrow> bool" where
  "pending_ok u \<longleftrightarrow> (case pu_stage u of
     Checked seen \<Rightarrow> update_ok (uq_credential (pu_input u)) \<and> \<not> credential_missing (uq_credential (pu_input u)) (toView seen)
   | Computed computed \<Rightarrow> secret_ok computed)"

lemma missing_kept: "\<not> credential_missing c (toView seen) \<Longrightarrow> \<not> secret_gone seen row \<Longrightarrow> \<not> credential_missing c (toView row)"
  by (cases "(c, toView row)" rule: credential_missing.cases) (auto simp: secret_gone_def)

lemma update_columns_secret [simp]: "secret_ok (update_columns u r) \<longleftrightarrow> secret_ok u"
  by (simp add: secret_ok_def update_columns_def profileAuthKind_def)

lemma reach_secrets: "api_reach st us lost \<Longrightarrow> \<not> lost \<Longrightarrow> rows_ok (wb_profiles st) \<and> list_all pending_ok us"
proof (induction rule: api_reach.induct)
  case (api_request st us lost w fr q st' r)
  then show ?case using request_secrets by blast
next
  case (api_import st us lost v violated ownerId newId now q u d db r)
  then obtain rows where "db = (profile_db_of st)\<lparr>pd_profiles := wb_profiles st @ rows\<rparr>" "list_all secret_ok rows"
    using create_secrets [OF api_import(2)] by (auto simp: imported_profile_def)
  then show ?case using api_import by (simp add: rows_ok_def)
next
  case (update_checked st us lost w q ownerId profileId input row)
  then show ?case using checkUpdate_ok [OF update_checked(2)] by (simp add: pending_ok_def)
next
  case (update_read st us u us' lost seen row v now computed)
  then have old: "rows_ok (wb_profiles st)" "pending_ok u" "\<not> secret_gone seen row" by simp_all
  then have "secret_ok row" using update_read(3) by (auto simp: rows_ok_def list_all_iff find_Some_iff)
  moreover have "update_ok (uq_credential (pu_input u))" "\<not> credential_missing (uq_credential (pu_input u)) (toView row)"
    using old(2,3) update_read(2) missing_kept by (auto simp: pending_ok_def)
  ultimately have "secret_ok computed" using updated_secret_ok [OF update_read(4)] by blast
  then show ?case using update_read by (simp add: pending_ok_def)
next
  case (update_written st us u us' lost computed violated db)
  then have "secret_ok computed" by (simp add: pending_ok_def)
  then show ?case using update_written by (auto simp: update_statement_def rows_ok_def list_all_iff split: if_splits)
next
  case (api_connected st us lost ownerId profileId username fingerprint now)
  then show ?case by (auto simp: rows_ok_def list_all_iff markConnected_def secret_ok_def profileAuthKind_def)
qed (simp_all add: rows_ok_def)

text \<open>
  C10: Whatever requests the application answers and however the pieces of its updates interleave, as long as no profile loses a
  stored password or private key between the check of an update and the moment the update reads it again, a stored
  profile that says its credential is saved holds it: an encrypted password if it signs in with a password, an encrypted
  private key if with a key.
\<close>

theorem saved_profiles_have_secret:
  assumes "api_reach st us False" "row \<in> set (wb_profiles st)" "pr_credential_persistence row = ''saved''"
  shows "(profileAuthKind row = ''password'' \<longrightarrow> fieldEnvelope row F_Password \<noteq> None) \<and>
    (profileAuthKind row = ''private_key'' \<longrightarrow> fieldEnvelope row F_PrivateKey \<noteq> None)"
proof -
  have "secret_ok row" using reach_secrets [OF assms(1)] assms(2) by (simp add: rows_ok_def list_all_iff)
  then show ?thesis using assms(3) columns_field [of F_Password row] columns_field [of F_PrivateKey row] by (simp add: secret_ok_def)
qed

text \<open>
  Without that condition it fails: the handler reads the profile, awaits, and only then updates it. If the password is cleared
  in between, keeping it is accepted and leaves a profile that is saved and has no password.
\<close>

definition no_update :: profile_update_request where
  "no_update = \<lparr>uq_name = None, uq_host = None, uq_port = None, uq_username = None, uq_notes = None, uq_initialCommand = None,
     uq_terminalType = None, uq_encoding = None, uq_credential = None\<rparr>"

lemma stale_check_loses_secret:
  assumes "find (selects ownerId profileId) (wb_profiles st) = Some row" "fieldEnvelope row F_Password = None"
    "updateFromRequest v violated ownerId profileId now (no_update\<lparr>uq_credential := Some (Password_Update ''saved'' Keep)\<rparr>) (profile_db_of st) =
      (db, Inr (Some view))"
  shows "pv_authenticationMethod view = ''password'' \<and> pv_credentialPersistence view = ''saved'' \<and> \<not> pv_hasPassword view"
proof -
  let ?q = "no_update\<lparr>uq_credential := Some (Password_Update ''saved'' Keep)\<rparr>"
  obtain row' u where u: "getRow ownerId profileId (profile_db_of st) = Inr (Some row')"
      "update_row v ownerId profileId now (update_from_request ?q) row' = Inr u" "view = toView u"
    by (rule profile_update_Inr [OF assms(3) [unfolded updateFromRequest_def]]) blast
  have row: "row' = row" using u(1) assms(1) by (simp add: getRow_Inr)
  have p: "ui_authKind (update_from_request ?q) = Some ''password''" "ui_credentialPersistence (update_from_request ?q) = Some ''saved''"
    "ui_password (update_from_request ?q) = None"
    by (simp_all add: update_from_request_def no_update_def)
  show ?thesis
    by (rule update_row_secrets [OF u(2)]) (use p assms(2) u(3) row in \<open>auto simp: toView_def default_to_def resolveSecret_def\<close>)
qed


section \<open>A concrete request\<close>

lemma body_of_text:
  assumes "json_ok j" "json_text j = Some (wq_text q)" "starts_with ''application/json'' (lower (default_to [] (w_header q ''content-type'')))"
    "w_header q ''content-length'' = None" "length (utf8 (wq_text q)) \<le> n" "schema (Some j) = Some x"
  shows "body_of q schema n = Inr x"
  using assms json_parse_text [OF assms(1, 2)] by (simp add: body_of_def parseJson_def w_header_def try_bind_def)

definition demo_body_json :: json where
  "demo_body_json = JObj [(''name'', JStr ''web''), (''host'', JStr ''web.example''), (''port'', jint 22), (''username'', JStr ''root''),
     (''notes'', JStr []), (''terminalType'', JStr ''xterm''), (''encoding'', JStr ''utf-8''), (''initialCommand'', JNull),
     (''credential'', JObj [(''method'', JStr ''password''), (''persistence'', JStr ''saved''), (''password'', JStr ''s'')])]"

definition demo_create :: profile_create_request where
  "demo_create = \<lparr>cq_name = ''web'', cq_host = ''web.example'', cq_port = 22, cq_username = ''root'', cq_notes = [], cq_initialCommand = None,
     cq_terminalType = ''xterm'', cq_encoding = ''utf-8'', cq_credential = Password_Input ''saved'' (Some ''s'')\<rparr>"

definition demo_post :: api_request where
  "demo_post = \<lparr>wq_web = \<lparr>wr_method = ''POST'',
       wr_url = \<lparr>ur_protocol = ''https:'', ur_origin = ''https://w.example'', ur_username = [], ur_password = [], ur_pathname = ''/api/profiles'',
         ur_search = [], ur_hash = [], ur_href = []\<rparr>,
       wr_headers = [(''origin'', ''https://b.example''), (''content-type'', ''application/json''), (''cookie'', the (aq_cookie demo_browser))]\<rparr>,
     wq_params = [], wq_text = the (json_text demo_body_json)\<rparr>"

definition demo_app :: app where
  "demo_app = \<lparr>aw_worker = demo_worker_env, aw_auth = demo_auth_env,
     aw_google = \<lparr>ge_appEnv = None, ge_clientId = None, ge_clientSecret = None, ge_redirectUri = None, ge_allowedEmails = None\<rparr>,
     aw_exchange = (\<lambda>a b. None), aw_jwt = (\<lambda>a b. None), aw_url = demo_url, aw_zod = \<lparr>z_uuid = (\<lambda>s. True), z_datetime = (\<lambda>s. True)\<rparr>,
     aw_date = (\<lambda>s. None), aw_tailscale = demo_api, aw_tailnet = demo_tailnet,
     aw_sessions = (\<lambda>c. \<lparr>sy_status = 404, sy_issued = None, sy_webSocket = False\<rparr>), aw_addressHash = (\<lambda>s. s),
     aw_d1 = True, aw_r2 = True, aw_durableObjects = True, aw_assets = True\<rparr>"

definition demo_moment :: fresh where
  "demo_moment = \<lparr>fr_now = 2000, fr_later = 2000, fr_attempt1 = 2000, fr_attempt2 = 2000, fr_iso = ''t'', fr_uuid = replicate 36 CHR ''a'',
     fr_requestId = ''r'', fr_bytes = [], fr_iv = (\<lambda>f. replicate 12 0), fr_google = demo_random, fr_imports = demo_fresh\<rparr>"

definition demo_state :: app_state where
  "demo_state = \<lparr>wb_auth = at_db demo_logged_in, wb_oauth = \<lparr>od_attempts = [], od_identities = []\<rparr>, wb_limiters = [], wb_profiles = [],
     wb_settings = [], wb_history = \<lparr>hy_sessions = [], hy_commands = [], hy_events = []\<rparr>, wb_tailscale = [], wb_calls = []\<rparr>"

lemma demo_sender: "auth_request_of demo_post = demo_browser"
  by (simp add: auth_request_of_def demo_post_def demo_browser_def w_header_def wr_header_def)

lemma demo_signed_in:
  "\<exists>db a. requireAuthentication demo_auth_env demo_browser 2000 (at_db demo_logged_in) = (db, Inr a) \<and> us_id (au_user a) = ''u''"
proof -
  obtain l u x c where d: "demo_login = (l, \<lparr>ab_users = [u], ab_sessions = [x]\<rparr>, Inr (c, x))" "us_id u = ''u''" "as_ownerId x = ''u''"
    "hashSessionToken demo_auth_platform (replicate 43 CHR ''A'') (Some demo_master_key) = Inr (as_idHash x)"
    "as_revokedAt x = None" "as_expiresAt x = 1000 + session_ttl"
    using demo_login_ok by blast
  have db: "at_db demo_logged_in = \<lparr>ab_users = [u], ab_sessions = [x]\<rparr>" by (simp add: demo_logged_in_def d(1))
  have env: "ae_platform demo_auth_env = demo_auth_platform" "ae_sessionKey demo_auth_env = Some demo_master_key" "configured_key (Some demo_master_key)"
    by (simp_all add: demo_auth_env_def configured_key_def demo_master_key_def)
  show ?thesis
    by (simp add: requireAuthentication_def optionalAuthentication_def demo_token(3) env d(2-6) db findActive_def is_active_def
        session_ttl_def DEFAULT_SESSION_TTL_SECONDS_def findById_def)
qed

lemma demo_post_body: "body_of demo_post ProfileCreateRequestSchema MAX_API_JSON_BYTES = Inr demo_create"
proof (rule body_of_text)
  show "json_ok demo_body_json" by (simp add: demo_body_json_def)
  show "json_text demo_body_json = Some (wq_text demo_post)" by (simp add: demo_body_json_def demo_post_def is_safe_integer_def max_safe_def)
  show "starts_with ''application/json'' (lower (default_to [] (w_header demo_post ''content-type'')))" by code_simp
  show "w_header demo_post ''content-length'' = None" by code_simp
  have "length (utf8 (wq_text demo_post)) \<le> 300" by code_simp
  then show "length (utf8 (wq_text demo_post)) \<le> MAX_API_JSON_BYTES" by (simp add: MAX_API_JSON_BYTES_def)
  show "ProfileCreateRequestSchema (Some demo_body_json) = Some demo_create" by code_simp
qed

definition demo_row_saved :: "profile_db \<times> profile_view throws \<Rightarrow> bool" where
  "demo_row_saved x \<longleftrightarrow> (case x of
     (db, Inr p) \<Rightarrow> (case pd_profiles db of
         [row] \<Rightarrow> pr_owner_id row = ''u'' \<and> pr_credential_persistence row = ''saved'' \<and> profileAuthKind row = ''password''
       | _ \<Rightarrow> False)
   | _ \<Rightarrow> False)"

lemma demo_stored: "demo_row_saved (createFromRequest (w_vault demo_app demo_moment) ''UNIQUE'' ''u'' (replicate 36 CHR ''a'') ''t'' demo_create
    \<lparr>pd_profiles = [], pd_active = []\<rparr>)"
proof -
  have v: "w_vault demo_app demo_moment = \<lparr>vt_platform = ap_aead demo_auth_platform, vt_masterKey = Some demo_master_key, vt_iv = (\<lambda>f. replicate 12 0)\<rparr>"
    by (simp add: w_vault_def demo_app_def demo_auth_env_def demo_moment_def)
  show ?thesis unfolding v by code_simp
qed

lemma demo_post_allowed:
  "is_api demo_post" "\<not> isTlsRequiredRedirect demo_worker_env (wq_web demo_post)"
  "assertRequestOrigin demo_url demo_worker_env False (wq_web demo_post) = Inr ()"
  "corsOrigin demo_url demo_worker_env (wq_web demo_post) = Inr (Some ''https://b.example'')"
proof -
  have web: "wr_method (wq_web demo_post) = ''POST''" "wr_header (wq_web demo_post) ''origin'' = Some ''https://b.example''"
    "wr_header (wq_web demo_post) ''sec-fetch-site'' = None" "ur_protocol (wr_url (wq_web demo_post)) = ''https:''"
    "ur_origin (wr_url (wq_web demo_post)) = ''https://w.example''" "ur_pathname (wr_url (wq_web demo_post)) = ''/api/profiles''"
    by (simp_all add: demo_post_def wr_header_def)
  have "map_sum (\<lambda>m. m) (\<lambda>c. ''https://b.example'' \<in> set (''https://w.example'' # rc_allowedOrigins c)) (getRuntimeConfig demo_url demo_worker_env) = Inr True"
    by code_simp
  then have "\<exists>origins. allowedRequestOrigins demo_url demo_worker_env (wq_web demo_post) = Inr origins \<and> ''https://b.example'' \<in> set origins"
    unfolding allowedRequestOrigins_def web by (auto simp: map_sum_Inr split: sum.splits)
  moreover have "upper ''POST'' = ''POST''" by code_simp
  ultimately show "assertRequestOrigin demo_url demo_worker_env False (wq_web demo_post) = Inr ()"
    "corsOrigin demo_url demo_worker_env (wq_web demo_post) = Inr (Some ''https://b.example'')"
    unfolding assertRequestOrigin_def corsOrigin_def web by (auto simp: UNSAFE_METHODS_def demo_url_def)
  show "is_api demo_post" unfolding is_api_def w_path_def web by (simp add: starts_with_iff)
  show "\<not> isTlsRequiredRedirect demo_worker_env (wq_web demo_post)" unfolding isTlsRequiredRedirect_def web by simp
qed

lemma demo_answered:
  "\<exists>st' p row. routeRequest demo_app demo_moment demo_post demo_state =
      (st', Inr \<lparr>rp_status = 201, rp_data = D_Profile p, rp_cookies = [], rp_cors = Some ''https://b.example'', rp_requestId = Some ''r''\<rparr>) \<and>
    wb_profiles st' = [row] \<and> pr_owner_id row = ''u'' \<and> pr_credential_persistence row = ''saved'' \<and> profileAuthKind row = ''password''"
proof -
  obtain db a where a: "requireAuthentication demo_auth_env demo_browser 2000 (at_db demo_logged_in) = (db, Inr a)" "us_id (au_user a) = ''u''"
    using demo_signed_in by blast
  let ?s = "demo_state\<lparr>wb_auth := db\<rparr>"
  obtain db' p row where c: "createFromRequest (w_vault demo_app demo_moment) ''UNIQUE'' ''u'' (replicate 36 CHR ''a'') ''t'' demo_create
      \<lparr>pd_profiles = [], pd_active = []\<rparr> = (db', Inr p)" "pd_profiles db' = [row]" "pr_owner_id row = ''u''"
      "pr_credential_persistence row = ''saved''" "profileAuthKind row = ''password''"
    using demo_stored unfolding demo_row_saved_def by (auto split: prod.splits sum.splits list.splits)
  have env: "ae_violated (aw_auth demo_app) = ''UNIQUE''" "aw_auth demo_app = demo_auth_env" "fr_uuid demo_moment = replicate 36 CHR ''a''"
    "fr_iso demo_moment = ''t''" "fr_now demo_moment = 2000" "wb_auth demo_state = at_db demo_logged_in" "given (ae_masterKey demo_auth_env)"
    by (simp_all add: demo_app_def demo_auth_env_def demo_moment_def demo_state_def given_def demo_master_key_def)
  have world: "aw_worker demo_app = demo_worker_env" "aw_url demo_app = demo_url" by (simp_all add: demo_app_def)
  have "map_sum (\<lambda>m. m) rc_allowedSshPorts (getRuntimeConfig demo_url demo_worker_env) = Inr None" "assertAllowedSshPort 22 None = Inr ()"
    by code_simp+
  then have checks: "assertTailscaleSshProfile demo_app ''password'' 22 = Inr ()" "assert_port demo_app 22 = Inr ()"
    by (auto simp: assertTailscaleSshProfile_def assert_port_def runtime_def world try_bind_eq_Inr map_sum_Inr)
  have rows: "profile_db_of ?s = \<lparr>pd_profiles = [], pd_active = []\<rparr>" by (simp add: profile_db_of_def demo_state_def List.map_filter_simps)
  have "createProfile demo_app demo_moment demo_post ''u'' ?s = (with_profiles ?s db', api_created (D_Profile p))"
    using c(1) checks env unfolding createProfile_def demo_post_body rows by (simp add: demo_create_def repository_def)
  moreover have path: "w_path demo_post = ''/api/profiles''" "w_method demo_post = ''POST''"
    by (simp_all add: w_path_def w_method_def demo_post_def)
  ultimately have "routeProfiles demo_app demo_moment demo_post demo_state = (with_profiles ?s db', api_created (D_Profile p))"
    using a by (simp add: routeProfiles_def with_owner_def demo_sender env)
  then have "apiRoute demo_app demo_moment ''r'' demo_post demo_state = (with_profiles ?s db', api_created (D_Profile p))"
    by (simp add: apiRoute_def path starts_with_iff)
  moreover note demo_post_allowed
  moreover have "request_id demo_moment demo_post = ''r''"
    by (simp add: request_id_def w_header_def wr_header_def demo_post_def demo_moment_def)
  ultimately have "routeRequest demo_app demo_moment demo_post demo_state =
      (with_profiles ?s db', Inr \<lparr>rp_status = 201, rp_data = D_Profile p, rp_cookies = [], rp_cors = Some ''https://b.example'', rp_requestId = Some ''r''\<rparr>)"
    by (simp add: routeRequest_def dispatchRequest_def path world api_created_def finalizeApiResponse_def plain_reply_def Let_def)
  then show ?thesis using c(2-5) by (intro exI conjI) (assumption | simp)+
qed

lemma saved_profiles_have_secret_witness:
  "\<exists>st row. api_reach st [] False \<and> row \<in> set (wb_profiles st) \<and> profileAuthKind row = ''password'' \<and> fieldEnvelope row F_Password \<noteq> None"
proof -
  obtain st' p row where r: "routeRequest demo_app demo_moment demo_post demo_state =
      (st', Inr \<lparr>rp_status = 201, rp_data = D_Profile p, rp_cookies = [], rp_cors = Some ''https://b.example'', rp_requestId = Some ''r''\<rparr>)"
    "wb_profiles st' = [row]" "pr_credential_persistence row = ''saved''" "profileAuthKind row = ''password''"
    using demo_answered by blast
  have "api_reach demo_state [] False" by (rule api_start) (simp add: demo_state_def)
  then have "api_reach st' [] False" using r(1) by (rule api_request)
  from saved_profiles_have_secret [OF this _ r(3)] this show ?thesis using r(2, 4) by auto
qed


end
