(* ===== verification/Spec2Isabelle.thy ===== *)
theory Spec2Isabelle
  imports Lease_Registry Login_Limiter Network Binary_Frame Ticket Directory_Listing Command_Capture Session_Audit Session_Commands Session_Leases Profile_Facts Auth_System
    History_Facts Settings Request_Checks Transfer_Gate Batch_Command Connector_Facts Api_Secrets
begin

text \<open>
  Edge SSH Workbench: an SSH client in the browser. A Cloudflare Worker serves the API and keeps accounts, profiles, settings
  and history in a D1 database; a Durable Object holds each live SSH session and speaks JSON messages and binary frames with the
  browser over a WebSocket; further objects count sessions (the lease registry) and failed logins (the limiter). The SSH target
  is dialled directly, behind a guard against private addresses, or through the Tailnet Connector, a small server inside a
  Tailscale network. The browser keeps the tabs, panes and transfers of the workbench.

  \<^bold>\<open>How the parts interact.\<close> A request passes the checks of its transport, origin and body, then its route; every route but
  the public ones resolves the session cookie to an account. To open a terminal the route asks the session object for a ticket;
  the WebSocket upgrade consumes it, the object takes a lease, starts the engine, which dials, has the host key verified and opens
  a shell; from then on the object turns engine events into messages, audit rows and captured commands, until its cleanup
  asks for the release of all it holds.

  \<^bold>\<open>Conventions.\<close> A JavaScript string is a \<open>string\<close> with one character per UTF-16 code unit, limited to U+0000 .. U+00FF; numbers
  are exact rationals (times are integers in milliseconds, or the ISO text that is stored). A thrown error is \<open>Inl\<close>, with the
  message or with a datatype of the errors the callers tell apart. Objects used as dictionaries are association lists. A table is
  the list of its rows, an SQL statement a function on it, with the text of the statement's guards; a statement either takes
  effect or reports the violated constraint. Random bytes, identifiers and the clock are arguments of the operation that draws
  them. Between two \<open>await\<close>s code runs undisturbed; where it matters (engine, session object, transfers, connector) each such
  piece is a step, and theorems speak of every order of steps. A request of the API is one step, but for the update of a
  profile, whose check, read and write \<open>Api_Secrets\<close> also takes apart and lets interleave with everything else; the lemma
  \<open>stale_check_loses_secret\<close> shows what goes wrong then.

  \<^bold>\<open>Parameters.\<close> HMAC, SHA-256, PBKDF2, AES-GCM, jose and the token endpoint of Google, the URL parser, \<open>Date\<close>, \<open>localeCompare\<close>,
  the identifiers and dates of zod, DNS and TCP, ssh2 and SFTP streams, the library \<open>ipaddr.js\<close>, the Tailscale API, and in the
  router the answers of session objects are arguments. What a theorem needs of them is a hypothesis (for example that decryption
  inverts encryption, or that authentication tags of other keys and contexts are refused), and its witness gives an instance.

  \<^bold>\<open>Theories, by the code they model\<close> (paths under \<open>src\<close>; W stands for \<open>apps/worker/src\<close>).
  \<^item> \<open>Wb_Prelude\<close>, \<open>Wb_Json\<close>, \<open>Wb_Http\<close>, \<open>Js_Regex\<close>: strings, errors and lists; JSON with its printer and parser and the
    lemma that one inverts the other; requests of the objects; regular expressions as JavaScript matches them.
  \<^item> \<open>Encoding\<close> (W\<open>/security/encoding.ts\<close>), \<open>Envelope\<close> (\<open>security/envelope.ts\<close>), \<open>Network\<close> (\<open>security/network.ts\<close> and the dial
    loop of \<open>ssh/cloudflare-transport.ts\<close>): canonical base64url; secrets bound to owner, profile and field; no dial to a
    reserved address, whatever DNS answers.
  \<^item> \<open>Contracts\<close>, \<open>Server_Messages\<close>, \<open>Api_Contracts\<close> (\<open>packages/contracts/src\<close>): the schemas as functions from JSON to typed values
    or as predicates, with the round trips of both directions of the protocol. \<open>Binary_Frame\<close>: both frame codecs.
  \<^item> \<open>Lease_Registry\<close>, \<open>Login_Limiter\<close>, \<open>Ticket\<close> (W\<open>/durable\<close>, \<open>http/rate-limit.ts\<close>): the objects' storage, alarm and handler. Bounds on
    live sessions and on guesses between two successful logins, single use of tickets and what a ticket vouches for.
  \<^item> \<open>Password_Hash\<close>, \<open>Totp\<close>, \<open>Auth_Store\<close>, \<open>Google_Oidc\<close>, \<open>Google_Sign_In\<close>, \<open>Auth_Flow\<close>, \<open>Auth_System\<close> (W\<open>/auth\<close>, \<open>http/auth.ts\<close>,
    \<open>storage/users.ts\<close>, \<open>auth-sessions.ts\<close>, \<open>oauth.ts\<close>): codes and passwords, accounts and sessions, the transaction of a Google
    sign-in, and the system of all requests, in which every accepted session goes back to a login that checked its credentials.
  \<^item> \<open>Keyset\<close>, \<open>Profiles\<close>, \<open>Profile_Repository\<close>, \<open>Profile_Facts\<close>, \<open>Redaction\<close>, \<open>History\<close>, \<open>History_Facts\<close>, \<open>Settings\<close>
    (W\<open>/storage\<close>): cursors and complete paging as the locale \<open>keyset_listing\<close>, interpreted for profiles, commands and
    sessions; credentials as an update says; search as substring test; separation of owners; redaction.
  \<^item> \<open>Worker_Config\<close>, \<open>Request_Checks\<close>, \<open>Tailscale\<close>, \<open>Tailscale_Facts\<close>, \<open>Api_Routes\<close>, \<open>Api_Facts\<close>, \<open>Api_Secrets\<close> (W\<open>/env.ts\<close>,
    \<open>security/http.ts\<close>, \<open>http\<close>, \<open>tailscale/client.ts\<close>, \<open>storage/tailscale-configuration.ts\<close>): configuration and request checks, the
    import of devices, the router with every route over one state \<open>app_state\<close>, and what holds of any request: it changes data
    of its caller only, and a profile with a saved credential has it unless a secret disappears under a running update.
  \<^item> \<open>Ssh_Types\<close>, \<open>Known_Hosts\<close>, \<open>Ssh_Engine\<close>, \<open>File_Transfer\<close>, \<open>Directory_Listing\<close> (W\<open>/ssh\<close>, \<open>storage/known-hosts.ts\<close>, parts of
    \<open>durable/ssh-session.ts\<close>): host keys refine a map from targets to pinned keys; the engine as a step relation with its
    verdicts on host keys; exact uploads and downloads; sorted pages of a directory that lose nothing and fit their messages.
  \<^item> \<open>Command_Capture\<close>, \<open>Session_Audit\<close>, \<open>Session_Events\<close>, \<open>Session_Commands\<close>, \<open>Ssh_Session\<close>, \<open>Session_Leases\<close>
    (\<open>durable/ssh-session.ts\<close>, \<open>ssh/session-audit.ts\<close>, \<open>ssh/command-capture.ts\<close>, \<open>ssh/shell-history.ts\<close>): what of a terminal is kept, the
    audit that closes once, and the life of a socket: when the release of what it holds is asked for, and what a failed
    release leaves.
  \<^item> \<open>Connector_Handshake\<close>, \<open>Connector_Server\<close>, \<open>Connector_Facts\<close> (\<open>ssh/tailnet-connector-transport.ts\<close>,
    \<open>packages/contracts/src/tailnet.ts\<close>, \<open>apps/tailnet-connector/src\<close>): the signed handshake and its replay cache, and the server:
    targets inside the tailnet only, for verified callers, within the connection limits, and with a place given back whichever way a connection ends.
  \<^item> \<open>Workbench\<close>, \<open>Workbench_Facts\<close>, \<open>Batch_Command\<close>, \<open>Transfer_Gate\<close> (\<open>apps/web/src/lib\<close>): the reducer and its invariant, commands to
    several terminals, one transfer at a time.

  \<^bold>\<open>Interfaces.\<close> The locales \<open>byte_codec\<close> and \<open>canonical_codec\<close> (encodings), \<open>lease_service\<close> (what the session object asks of the
  registry), \<open>one_shot\<close> (the ticket's storage), \<open>host_key_repo\<close> (what the engine asks of the host key repository),
  \<open>upload_sink\<close> (the receiver of upload chunks) and \<open>keyset_listing\<close> state contracts; each is interpreted where its provider
  is modelled.

  \<^bold>\<open>Bounds and fuel.\<close> Limits of the code (addresses per dial, bytes per body, entries per listing and page) are its constants.
  The JSON parser and the loops over a text that replace matches, collect names or find echoes take the length of the text plus
  one as fuel: each round moves on by a character, so it does not run out; that the parser reads back every printed value is
  proved. The walks through the pages of a listing take fuel, and their theorems state that some amount reaches the end.

  \<^bold>\<open>Not modelled.\<close> The React interface (\<open>App.tsx\<close>, \<open>components\<close>, \<open>main.tsx\<close>) and \<open>lib/api.ts\<close>, \<open>i18n.ts\<close>,
  \<open>tailscale-status.ts\<close>: rendering, fetch and texts. Index files, \<open>ssh/transport-factory.ts\<close>, scripts and tool configuration: no logic of
  their own. \<open>auth/service.ts\<close> and \<open>security/tickets.ts\<close>: no caller. \<open>storage/security-events.ts\<close>: rows that are appended only.
  \<open>ssh/metrics.ts\<close>: its result is data for the model. Of the session object the plain SFTP commands and the resolution of
  profiles; of the engine the algorithm lists, \<open>exec\<close> and the plain SFTP calls; of the connector the relay's timers and its
  backpressure; of its transport the stream over the WebSocket. Log lines, constant headers and the zeroing of buffers.
\<close>

end
